(* ===== verification/Go_Base.thy ===== *)
theory Go_Base
  imports Main
begin

text \<open>
  What every other theory shares: Go's fixed-width signed integers with their wrap-around,
  decimal printing and reading of integers, byte-string searching, tables of rows as the
  database keeps them, and two locales for state machines. Each component theory proves the
  laws of the locales for its own operations and takes the run-level facts from there.
\<close>

named_theorems go_defs \<open>definitions unfolded when a concrete input is evaluated\<close>

section \<open>Signed machine integers\<close>

text \<open>
  Go's \<open>int32\<close> and \<open>int64\<close> are two's complement and wrap silently. A value of either type
  is an \<open>int\<close> in range, and every arithmetic operation of the source that could leave the
  range is wrapped where the source performs it.
\<close>

definition i32 :: "int \<Rightarrow> int" where
  "i32 x = (x + 2 ^ 31) mod 2 ^ 32 - 2 ^ 31"

definition i64 :: "int \<Rightarrow> int" where
  "i64 x = (x + 2 ^ 63) mod 2 ^ 64 - 2 ^ 63"

definition is_i32 :: "int \<Rightarrow> bool" where
  "is_i32 x \<longleftrightarrow> - (2 ^ 31) \<le> x \<and> x < 2 ^ 31"

definition is_i64 :: "int \<Rightarrow> bool" where
  "is_i64 x \<longleftrightarrow> - (2 ^ 63) \<le> x \<and> x < 2 ^ 63"

lemma i32_id [simp]: "- 2147483648 \<le> x \<Longrightarrow> x < 2147483648 \<Longrightarrow> i32 x = x"
  by (simp add: i32_def)

lemma i64_id [simp]: "- 9223372036854775808 \<le> x \<Longrightarrow> x < 9223372036854775808 \<Longrightarrow> i64 x = x"
  by (simp add: i64_def)

lemma is_i32_i32 [simp]: "is_i32 (i32 x)"
  using pos_mod_bound [of "2 ^ 32" "x + 2 ^ 31"] pos_mod_sign [of "2 ^ 32" "x + 2 ^ 31"]
  by (simp add: i32_def is_i32_def)

lemma is_i64_i64 [simp]: "is_i64 (i64 x)"
  using pos_mod_bound [of "2 ^ 64" "x + 2 ^ 63"] pos_mod_sign [of "2 ^ 64" "x + 2 ^ 63"]
  by (simp add: i64_def is_i64_def)

text \<open>Go's integer division truncates towards zero.\<close>

definition quo :: "int \<Rightarrow> int \<Rightarrow> int" where
  "quo a b = sgn a * sgn b * (\<bar>a\<bar> div \<bar>b\<bar>)"

lemma quo_nonneg [simp]: "0 \<le> a \<Longrightarrow> 0 < b \<Longrightarrow> quo a b = a div b"
  by (cases "a = 0") (auto simp: quo_def)

section \<open>Decimal numbers\<close>

definition digit_char :: "nat \<Rightarrow> char" where
  "digit_char d = char_of (48 + d)"

fun digits :: "nat \<Rightarrow> string" where
  "digits n = (if n < 10 then [digit_char n] else digits (n div 10) @ [digit_char (n mod 10)])"

declare digits.simps [simp del]

text \<open>\<open>strconv.FormatInt\<close> in base ten, which is also what \<open>%d\<close> prints.\<close>

definition itoa :: "int \<Rightarrow> string" where
  "itoa i = (if i < 0 then ''-'' @ digits (nat (- i)) else digits (nat i))"

definition is_digit :: "char \<Rightarrow> bool" where
  "is_digit c \<longleftrightarrow> 48 \<le> (of_char c :: nat) \<and> (of_char c :: nat) \<le> 57"

definition digits_value :: "string \<Rightarrow> nat" where
  "digits_value s = foldl (\<lambda>a c. 10 * a + (of_char c - 48)) 0 s"

lemma digit_char_value: "d < 10 \<Longrightarrow> (of_char (digit_char d) :: nat) = 48 + d"
  by (simp add: digit_char_def)

lemma is_digit_digit_char [simp]: "d < 10 \<Longrightarrow> is_digit (digit_char d)"
  by (simp add: is_digit_def digit_char_value)

lemma digits_nonempty [simp]: "digits n \<noteq> []"
  by (subst digits.simps) simp

lemma digits_all: "\<forall>c \<in> set (digits n). is_digit c"
proof (induction n rule: digits.induct)
  case (1 n)
  then show ?case by (subst digits.simps) auto
qed

lemma digits_value_snoc: "digits_value (s @ [c]) = 10 * digits_value s + (of_char c - 48)"
  by (simp add: digits_value_def)

lemma digits_value_digits [simp]: "digits_value (digits n) = n"
proof (induction n rule: digits.induct)
  case (1 n)
  show ?case
  proof (cases "n < 10")
    case True
    then have "digits n = [digit_char n]" by (subst digits.simps) simp
    with True show ?thesis by (simp add: digits_value_def digit_char_value)
  next
    case False
    then have "digits n = digits (n div 10) @ [digit_char (n mod 10)]"
      by (subst digits.simps) simp
    with "1.IH" [OF False] show ?thesis by (simp add: digits_value_snoc digit_char_value)
  qed
qed

lemma digits_inject [simp]: "digits m = digits n \<longleftrightarrow> m = n"
  using digits_value_digits by metis

lemma digits_hd_not_minus: "digits n \<noteq> CHR ''-'' # s"
proof
  assume "digits n = CHR ''-'' # s"
  then have "is_digit (CHR ''-'')" using digits_all [of n] by simp
  then show False by (simp add: is_digit_def)
qed

lemma itoa_inject [simp]: "itoa i = itoa j \<longleftrightarrow> i = j"
  using digits_hd_not_minus digits_hd_not_minus [symmetric]
  by (auto simp: itoa_def)

section \<open>Byte strings\<close>

text \<open>\<open>strings.Index\<close>: the first position at which \<open>needle\<close> occurs, if it does.\<close>

fun str_index :: "string \<Rightarrow> string \<Rightarrow> nat option" where
  "str_index [] needle = (if needle = [] then Some 0 else None)"
| "str_index (c # cs) needle =
     (if take (length needle) (c # cs) = needle then Some 0
      else map_option Suc (str_index cs needle))"

definition str_contains :: "string \<Rightarrow> string \<Rightarrow> bool" where
  "str_contains s needle \<longleftrightarrow> str_index s needle \<noteq> None"

text \<open>\<open>strings.ToLower\<close> on bytes below 128; other bytes are left as they are.\<close>

definition lower_char :: "char \<Rightarrow> char" where
  "lower_char c = (let n = of_char c :: nat in if 65 \<le> n \<and> n \<le> 90 then char_of (n + 32) else c)"

definition to_lower :: "string \<Rightarrow> string" where
  "to_lower s = map lower_char s"

text \<open>\<open>strings.TrimSpace\<close> on bytes below 128.\<close>

definition is_space :: "char \<Rightarrow> bool" where
  "is_space c \<longleftrightarrow> (of_char c :: nat) \<in> {9, 10, 11, 12, 13, 32}"

definition trim_space :: "string \<Rightarrow> string" where
  "trim_space s = rev (dropWhile is_space (rev (dropWhile is_space s)))"

lemma str_index_Some:
  "str_index s needle = Some i \<Longrightarrow> i + length needle \<le> length s \<and> take (length needle) (drop i s) = needle"
proof (induction s arbitrary: i)
  case Nil
  then show ?case by (auto split: if_splits)
next
  case (Cons c cs)
  show ?case
  proof (cases "take (length needle) (c # cs) = needle")
    case True
    then have "length needle \<le> length (c # cs)"
      by (metis length_take min.cobounded1)
    with True Cons.prems show ?thesis by auto
  next
    case False
    with Cons.prems obtain j where "str_index cs needle = Some j" "i = Suc j" by auto
    with Cons.IH show ?thesis by auto
  qed
qed

lemma str_index_least:
  "str_index s needle = Some i \<Longrightarrow> j < i \<Longrightarrow> take (length needle) (drop j s) \<noteq> needle"
proof (induction s arbitrary: i j)
  case Nil
  then show ?case by (auto split: if_splits)
next
  case (Cons c cs)
  then show ?case by (cases j) (auto split: if_splits)
qed

lemma str_index_None:
  "str_index s needle = None \<Longrightarrow> j \<le> length s \<Longrightarrow> take (length needle) (drop j s) \<noteq> needle"
proof (induction s arbitrary: j)
  case Nil
  then show ?case by (auto split: if_splits)
next
  case (Cons c cs)
  then show ?case by (cases j) (auto split: if_splits)
qed

section \<open>Tables of rows\<close>

text \<open>
  A table is the list of its rows in order of their integer primary key. SQLite gives a new
  row the largest existing key plus one, and one to the first row.
\<close>

definition next_id :: "('r \<Rightarrow> int) \<Rightarrow> 'r list \<Rightarrow> int" where
  "next_id rid rows = fold max (map rid rows) 0 + 1"

definition update_row :: "('r \<Rightarrow> int) \<Rightarrow> int \<Rightarrow> ('r \<Rightarrow> 'r) \<Rightarrow> 'r list \<Rightarrow> 'r list" where
  "update_row rid i f rows = map (\<lambda>r. if rid r = i then f r else r) rows"

definition table_ok :: "('r \<Rightarrow> int) \<Rightarrow> ('r \<Rightarrow> 'k) \<Rightarrow> 'r list \<Rightarrow> bool" where
  "table_ok rid rkey rows \<longleftrightarrow>
     distinct (map rid rows) \<and> distinct (map rkey rows) \<and> (\<forall>r \<in> set rows. 0 < rid r)"

lemma fold_max_ge: "a \<le> fold max xs (a :: int)"
proof (induction xs arbitrary: a)
  case (Cons y ys)
  show ?case using Cons.IH [of "max y a"] by simp
qed simp

lemma fold_max_upper: "x \<in> set xs \<Longrightarrow> x \<le> fold max xs (a :: int)"
proof (induction xs arbitrary: a)
  case (Cons y ys)
  then show ?case
    using fold_max_ge [of "max y a" ys] by auto
qed simp

lemma next_id_fresh: "r \<in> set rows \<Longrightarrow> rid r < next_id rid rows"
  using fold_max_upper [of "rid r" "map rid rows" 0] by (simp add: next_id_def)

lemma next_id_pos [simp]: "0 < next_id rid rows"
  using fold_max_ge [of 0 "map rid rows"] by (simp add: next_id_def)

lemma set_update_row:
  "set (update_row rid i f rows) = (\<lambda>r. if rid r = i then f r else r) ` set rows"
  by (simp add: update_row_def)

text \<open>
  The contract of a table with a unique key beside its primary key: \<open>place\<close> stores the
  primary key in a row and changes nothing the key is read from.
\<close>

locale keyed_table =
  fixes rid :: "'r \<Rightarrow> int"
    and rkey :: "'r \<Rightarrow> 'k"
    and place :: "int \<Rightarrow> 'r \<Rightarrow> 'r"
  assumes rid_place: "rid (place i r) = i"
    and rkey_place: "rkey (place i r) = rkey r"
begin

lemma table_empty: "table_ok rid rkey []"
  by (simp add: table_ok_def)

lemma insert_ok:
  assumes "table_ok rid rkey rows" and "rkey r \<notin> rkey ` set rows"
  shows "table_ok rid rkey (rows @ [place (next_id rid rows) r])"
  using assms next_id_fresh [of _ rows rid]
  by (force simp: table_ok_def rid_place rkey_place)

lemma update_ok:
  assumes "table_ok rid rkey rows"
    and "\<And>r. r \<in> set rows \<Longrightarrow> rid (f r) = rid r \<and> rkey (f r) = rkey r"
  shows "table_ok rid rkey (update_row rid i f rows)"
proof -
  have ids: "map rid (update_row rid i f rows) = map rid rows"
    using assms(2) by (auto simp: update_row_def)
  have ks: "map rkey (update_row rid i f rows) = map rkey rows"
    using assms(2) by (auto simp: update_row_def)
  have "\<forall>r \<in> set (update_row rid i f rows). 0 < rid r"
    using assms by (auto simp: set_update_row table_ok_def)
  with assms(1) ids ks show ?thesis by (simp add: table_ok_def)
qed

lemma same_id:
  assumes "table_ok rid rkey rows" "r \<in> set rows" "r' \<in> set rows" "rid r = rid r'"
  shows "r = r'"
  using assms by (auto simp: table_ok_def distinct_map inj_on_def)

lemma same_key:
  assumes "table_ok rid rkey rows" "r \<in> set rows" "r' \<in> set rows" "rkey r = rkey r'"
  shows "r = r'"
  using assms by (auto simp: table_ok_def distinct_map inj_on_def)

lemma find_by_id:
  assumes "table_ok rid rkey rows" "r \<in> set rows"
  shows "find (\<lambda>x. rid x = rid r) rows = Some r"
proof -
  obtain y where y: "find (\<lambda>x. rid x = rid r) rows = Some y"
    using assms(2) by (cases "find (\<lambda>x. rid x = rid r) rows") (auto simp: find_None_iff)
  then have "y \<in> set rows" "rid y = rid r" by (auto simp: find_Some_iff)
  with same_id [OF assms(1) _ assms(2)] y show ?thesis by simp
qed

end

section \<open>State machines\<close>

text \<open>
  A step function with the inputs it accepts and an invariant it keeps: the invariant holds
  along every run of accepted inputs.
\<close>

locale machine =
  fixes nxt :: "'s \<Rightarrow> 'i \<Rightarrow> 's"
    and ok :: "'i \<Rightarrow> bool"
    and inv :: "'s \<Rightarrow> bool"
  assumes nxt_inv: "inv s \<Longrightarrow> ok i \<Longrightarrow> inv (nxt s i)"
begin

lemma run_inv: "inv s \<Longrightarrow> list_all ok is \<Longrightarrow> inv (foldl nxt s is)"
  by (induction "is" arbitrary: s) (auto intro: nxt_inv)

end

text \<open>
  A machine whose every step moves the state along a preorder, under the invariant: a run
  moves along the preorder too.
\<close>

locale ordered_machine = machine +
  fixes le :: "'a \<Rightarrow> 'a \<Rightarrow> bool"
  assumes le_refl: "le s s"
    and le_trans: "le s t \<Longrightarrow> le t u \<Longrightarrow> le s u"
    and nxt_le: "inv s \<Longrightarrow> ok i \<Longrightarrow> le s (nxt s i)"
begin

lemma run_le: "inv s \<Longrightarrow> list_all ok is \<Longrightarrow> le s (foldl nxt s is)"
proof (induction "is" arbitrary: s)
  case Nil
  show ?case by (simp add: le_refl)
next
  case (Cons i "is")
  from Cons.prems have "le s (nxt s i)" by (simp add: nxt_le)
  moreover have "le (nxt s i) (foldl nxt (nxt s i) is)"
    using Cons.IH nxt_inv Cons.prems by simp
  ultimately show ?case using le_trans by auto
qed

end

section \<open>Lists\<close>

lemma list_all_nth_take: "list_all P xs \<Longrightarrow> list_all P (take n xs)"
  by (auto simp: list_all_iff dest: in_set_takeD)

lemma find_Some_mem: "find P xs = Some x \<Longrightarrow> x \<in> set xs \<and> P x"
  by (auto simp: find_Some_iff)

lemma find_None_all: "find P xs = None \<longleftrightarrow> (\<forall>x \<in> set xs. \<not> P x)"
  by (auto simp: find_None_iff)

lemma find_app: "find P (xs @ ys) = (case find P xs of None \<Rightarrow> find P ys | Some x \<Rightarrow> Some x)"
  by (induction xs) auto

end
