(* ===== verification/Go_Float.thy ===== *)
theory Go_Float
  imports Complex_Main "HOL-Library.Log_Nat" Go_Base
begin

text \<open>
  Go's \<open>float64\<close>. A finite double is the rational number it denotes, and every arithmetic
  operation rounds the exact result to the nearest number with a 53-bit significand, ties to
  even, as IEEE 754 and the Go specification require of an unfused operation. The exponent is
  not bounded: the quantities of this program are zero or between \<open>2 ^ -70\<close> and \<open>2 ^ 80\<close>
  in magnitude, far inside the normal range, so neither subnormal numbers nor overflow occur.
  The special values appear only where the source tests for them.
\<close>

section \<open>Rounding to 53 bits\<close>

definition pow2 :: "int \<Rightarrow> rat" where
  "pow2 k = (if 0 \<le> k then 2 ^ nat k else 1 / 2 ^ nat (- k))"

text \<open>The nearest integer, ties to even.\<close>

definition rne :: "rat \<Rightarrow> int" where
  "rne x =
     (let f = \<lfloor>x\<rfloor>; r = x - of_int f
      in if r < 1 / 2 then f else if 1 / 2 < r then f + 1
         else if even f then f else f + 1)"

text \<open>The binary exponent of a positive rational: \<open>2 ^ e \<le> q < 2 ^ (e + 1)\<close>.\<close>

definition bin_exp :: "rat \<Rightarrow> int" where
  "bin_exp q =
     (let (n, d) = quotient_of q;
          e = bitlen n - bitlen d
      in if q < pow2 e then e - 1 else e)"

definition fl_pos :: "rat \<Rightarrow> rat" where
  "fl_pos q = (let u = pow2 (bin_exp q - 52) in of_int (rne (q / u)) * u)"

definition fl :: "rat \<Rightarrow> rat" where
  "fl q = (if q = 0 then 0 else if 0 < q then fl_pos q else - fl_pos (- q))"

lemma pow2_pos [simp]: "0 < pow2 k"
  by (simp add: pow2_def)

lemma pow2_nz [simp]: "pow2 k \<noteq> 0"
  using pow2_pos [of k] by linarith

lemma pow2_0 [simp]: "pow2 0 = 1"
  by (simp add: pow2_def)

lemma pow2_Suc: "pow2 (k + 1) = 2 * pow2 k"
proof (cases "0 \<le> k")
  case True
  then have "nat (k + 1) = Suc (nat k)" by simp
  with True show ?thesis by (simp add: pow2_def)
next
  case False
  then show ?thesis
  proof (cases "k = -1")
    case True
    then show ?thesis by (simp add: pow2_def)
  next
    case neq: False
    with False have "nat (- k) = Suc (nat (- (k + 1)))" by simp
    with False neq show ?thesis by (simp add: pow2_def field_simps)
  qed
qed

lemma pow2_add_nat: "pow2 (k + int n) = pow2 k * 2 ^ n"
proof (induction n)
  case (Suc n)
  have "pow2 (k + int (Suc n)) = pow2 ((k + int n) + 1)" by (simp add: algebra_simps)
  with Suc show ?case by (simp add: pow2_Suc)
qed simp

lemma pow2_mono: "i \<le> j \<Longrightarrow> pow2 i \<le> pow2 j"
  using pow2_add_nat [of i "nat (j - i)"] less_imp_le [OF pow2_pos [of i]]
  by (simp add: mult_le_cancel_left1 not_less)

lemma pow2_mono_iff [simp]: "pow2 i \<le> pow2 j \<longleftrightarrow> i \<le> j"
proof
  assume le: "pow2 i \<le> pow2 j"
  show "i \<le> j"
  proof (rule ccontr)
    assume "\<not> i \<le> j"
    then have "pow2 (j + 1) \<le> pow2 i" by (intro pow2_mono) simp
    with le pow2_pos [of j] show False unfolding pow2_Suc by linarith
  qed
qed (rule pow2_mono)

lemma pow2_add: "pow2 (i + j) = pow2 i * pow2 j"
proof (cases "0 \<le> j")
  case True
  then show ?thesis using pow2_add_nat [of i "nat j"] by (simp add: pow2_def)
next
  case False
  then have "pow2 i = pow2 (i + j) * 2 ^ nat (- j)"
    using pow2_add_nat [of "i + j" "nat (- j)"] by simp
  with False show ?thesis by (simp add: pow2_def)
qed

lemma rne_mono: assumes "x \<le> y" shows "rne x \<le> rne y"
proof -
  have fl: "\<lfloor>x\<rfloor> \<le> \<lfloor>y\<rfloor>" using assms by (rule floor_mono)
  show ?thesis
  proof (cases "\<lfloor>x\<rfloor> = \<lfloor>y\<rfloor>")
    case True
    with assms show ?thesis by (auto simp: rne_def Let_def)
  next
    case False
    with fl have "\<lfloor>x\<rfloor> + 1 \<le> \<lfloor>y\<rfloor>" by simp
    moreover have "rne x \<le> \<lfloor>x\<rfloor> + 1" "\<lfloor>y\<rfloor> \<le> rne y" by (auto simp: rne_def Let_def)
    ultimately show ?thesis by simp
  qed
qed

lemma rne_of_int [simp]: "rne (of_int n) = n"
  by (simp add: rne_def)

lemma rne_nonneg: "0 \<le> x \<Longrightarrow> 0 \<le> rne x"
  using rne_mono [of 0 x] rne_of_int [of 0] by simp

text \<open>The exponent brackets its argument.\<close>

lemma bitlen_bracket:
  assumes "0 < (n :: int)"
  shows "pow2 (bitlen n - 1) \<le> of_int n" and "of_int n < pow2 (bitlen n)"
proof -
  from bitlen_bounds [OF assms] have b: "2 ^ nat (bitlen n - 1) \<le> n" "n < 2 ^ nat (bitlen n)" by auto
  have p: "0 < bitlen n" using assms by (simp add: bitlen_eq_zero_iff order_less_le bitlen_nonneg)
  have "(of_int (2 ^ nat (bitlen n - 1)) :: rat) \<le> of_int n" using b(1) of_int_le_iff by blast
  with p show "pow2 (bitlen n - 1) \<le> of_int n" by (simp add: pow2_def)
  have "(of_int n :: rat) < of_int (2 ^ nat (bitlen n))" using b(2) of_int_less_iff by blast
  with p show "of_int n < pow2 (bitlen n)" by (simp add: pow2_def)
qed

lemma bin_exp_bounds:
  assumes "0 < q"
  shows "pow2 (bin_exp q) \<le> q" and "q < pow2 (bin_exp q + 1)"
proof -
  obtain n d where nd: "quotient_of q = (n, d)" by (cases "quotient_of q")
  have d: "0 < d" using nd by (simp add: quotient_of_denom_pos)
  have q: "q = of_int n / of_int d" using nd by (rule quotient_of_div)
  with assms d have n: "0 < n" by (simp add: zero_less_divide_iff)
  define e where "e = bitlen n - bitlen d"
  have be: "bin_exp q = (if q < pow2 e then e - 1 else e)"
    by (simp add: bin_exp_def nd e_def)
  note bn = bitlen_bracket [OF n] and bd = bitlen_bracket [OF d]
  have dpos: "(0 :: rat) < of_int d" using d by simp
  have "pow2 (e - 1) * of_int d \<le> pow2 (e - 1) * pow2 (bitlen d)"
    using bd(2) by simp
  also have "\<dots> = pow2 (bitlen n - 1)" by (simp add: pow2_add [symmetric] e_def)
  also have "\<dots> \<le> of_int n" by (rule bn(1))
  finally have lo: "pow2 (e - 1) \<le> q" using dpos by (simp add: q pos_le_divide_eq)
  have "of_int n < pow2 (bitlen n)" by (rule bn(2))
  also have "\<dots> = pow2 (e + 1) * pow2 (bitlen d - 1)" by (simp add: pow2_add [symmetric] e_def)
  also have "\<dots> \<le> pow2 (e + 1) * of_int d" using bd(1) by simp
  finally have hi: "q < pow2 (e + 1)" using dpos by (simp add: q pos_divide_less_eq)
  show "pow2 (bin_exp q) \<le> q" using lo by (simp add: be)
  show "q < pow2 (bin_exp q + 1)" using hi by (simp add: be)
qed

lemma bin_exp_unique:
  assumes "pow2 e \<le> q" and "q < pow2 (e + 1)"
  shows "bin_exp q = e"
proof -
  have q: "0 < q" using assms(1) pow2_pos [of e] by linarith
  have "pow2 e < pow2 (bin_exp q + 1)" "pow2 (bin_exp q) < pow2 (e + 1)"
    using bin_exp_bounds [OF q] assms by linarith+
  then have "\<not> bin_exp q + 1 \<le> e" "\<not> e + 1 \<le> bin_exp q"
    by (metis not_less pow2_mono_iff)+
  then show ?thesis by simp
qed

lemma pow2_bin_exp:
  "pow2 e = of_int (2 ^ 52) * pow2 (e - 52)" "pow2 (e + 1) = of_int (2 ^ 53) * pow2 (e - 52)"
proof -
  show a: "pow2 e = of_int (2 ^ 52) * pow2 (e - 52)"
    using pow2_add_nat [of "e - 52" 52] by simp
  then show "pow2 (e + 1) = of_int (2 ^ 53) * pow2 (e - 52)" by (simp add: pow2_Suc)
qed

lemma scaled_bounds:
  assumes "0 < q"
  shows "2 ^ 52 \<le> q / pow2 (bin_exp q - 52)" and "q / pow2 (bin_exp q - 52) < 2 ^ 53"
proof -
  let ?u = "pow2 (bin_exp q - 52)"
  from bin_exp_bounds [OF assms, unfolded pow2_bin_exp [of "bin_exp q"]] show "2 ^ 52 \<le> q / ?u" "q / ?u < 2 ^ 53"
    by (simp_all add: pos_le_divide_eq pos_divide_less_eq mult.commute)
qed

lemma fl_pos_bracket:
  assumes "0 < q"
  shows "pow2 (bin_exp q) \<le> fl_pos q" and "fl_pos q \<le> pow2 (bin_exp q + 1)"
proof -
  let ?u = "pow2 (bin_exp q - 52)"
  note u = pow2_bin_exp [of "bin_exp q"]
  have "rne (of_int (2 ^ 52)) \<le> rne (q / ?u)"
    using scaled_bounds(1) [OF assms] by (intro rne_mono) simp
  then have "2 ^ 52 \<le> rne (q / ?u)" by (simp only: rne_of_int)
  then have "(of_int (2 ^ 52) :: rat) \<le> of_int (rne (q / ?u))" using of_int_le_iff by blast
  then show "pow2 (bin_exp q) \<le> fl_pos q"
    by (simp only: u fl_pos_def Let_def mult_right_mono [OF _ less_imp_le [OF pow2_pos]])
  have "rne (q / ?u) \<le> rne (of_int (2 ^ 53))"
    using scaled_bounds(2) [OF assms] by (intro rne_mono) simp
  then have "rne (q / ?u) \<le> 2 ^ 53" by (simp only: rne_of_int)
  then have "(of_int (rne (q / ?u)) :: rat) \<le> of_int (2 ^ 53)" using of_int_le_iff by blast
  then show "fl_pos q \<le> pow2 (bin_exp q + 1)"
    by (simp only: u fl_pos_def Let_def mult_right_mono [OF _ less_imp_le [OF pow2_pos]])
qed

lemma fl_pos_pos: "0 < q \<Longrightarrow> 0 < fl_pos q"
  using fl_pos_bracket(1) [of q] pow2_pos [of "bin_exp q"] by linarith

lemma fl_pos_mono:
  assumes "0 < p" and "p \<le> q"
  shows "fl_pos p \<le> fl_pos q"
proof (cases "bin_exp p = bin_exp q")
  case True
  have "p / pow2 (bin_exp q - 52) \<le> q / pow2 (bin_exp q - 52)"
    using assms by (simp add: divide_right_mono less_imp_le)
  from rne_mono [OF this] show ?thesis
    by (simp add: fl_pos_def Let_def True mult_right_mono less_imp_le)
next
  case False
  have q: "0 < q" using assms by simp
  have "pow2 (bin_exp p) < pow2 (bin_exp q + 1)"
    using bin_exp_bounds(1) [OF assms(1)] bin_exp_bounds(2) [OF q] assms by linarith
  then have "\<not> bin_exp q + 1 \<le> bin_exp p" by (metis not_less pow2_mono_iff)
  with False have "bin_exp p + 1 \<le> bin_exp q" by simp
  then have "pow2 (bin_exp p + 1) \<le> pow2 (bin_exp q)" by simp
  with fl_pos_bracket(2) [OF assms(1)] fl_pos_bracket(1) [OF q] show ?thesis by linarith
qed

text \<open>Rounding is monotone, keeps the sign and fixes every representable number.\<close>

lemma fl_0 [simp]: "fl 0 = 0"
  by (simp add: fl_def)

lemma fl_mono: assumes "p \<le> q" shows "fl p \<le> fl q"
proof -
  have 1: "fl_pos p \<le> fl_pos q" if "0 < p" using fl_pos_mono that assms by blast
  have 2: "fl_pos (- q) \<le> fl_pos (- p)" if "q < 0" using fl_pos_mono [of "- q" "- p"] that assms by simp
  have 3: "0 < fl_pos (- p)" if "p < 0" using fl_pos_pos that by simp
  have 4: "0 < fl_pos q" if "0 < q" using fl_pos_pos that by simp
  consider "0 < p" | "p \<le> 0" "0 \<le> q" | "q < 0" using assms by linarith
  then show ?thesis
  proof cases
    case 1
    then show ?thesis using \<open>0 < p \<Longrightarrow> fl_pos p \<le> fl_pos q\<close> assms by (simp add: fl_def)
  next
    case 2
    then have "fl p \<le> 0" "0 \<le> fl q" using 3 4 by (auto simp: fl_def)
    then show ?thesis by simp
  next
    case 3
    then show ?thesis using 2 assms by (simp add: fl_def)
  qed
qed

lemma fl_nonneg [simp]: "0 \<le> q \<Longrightarrow> 0 \<le> fl q"
  using fl_mono [of 0 q] by simp

lemma fl_pos_iff [simp]: "0 < q \<Longrightarrow> 0 < fl q"
  using fl_pos_pos [of q] by (simp add: fl_def)

lemma fl_pos_exact:
  assumes "0 < n" and "n \<le> 2 ^ 53" and q: "q = of_int n * pow2 k"
  shows "fl_pos q = q"
proof -
  have qpos: "0 < q" using assms by simp
  show ?thesis
  proof (cases "k \<le> bin_exp q - 52")
    case True
    define m where "m = nat (bin_exp q - 52 - k)"
    have "pow2 (bin_exp q - 52) = pow2 k * 2 ^ m"
      using pow2_add_nat [of k m] True by (simp add: m_def)
    moreover have "2 ^ 52 \<le> q / pow2 (bin_exp q - 52)" by (rule scaled_bounds(1) [OF qpos])
    ultimately have le: "(2 ^ 52 * 2 ^ m :: rat) \<le> of_int n"
      by (simp add: q pos_le_divide_eq field_simps)
    have "(of_int (2 ^ (52 + m)) :: rat) \<le> of_int n" using le by (simp add: power_add)
    then have "2 ^ (52 + m) \<le> n" using of_int_le_iff by blast
    with assms(2) have "(2 :: int) ^ (52 + m) \<le> 2 ^ 53" by linarith
    then have "52 + m \<le> 53" by (rule power_le_imp_le_exp [rotated]) simp
    then consider "m = 0" | "m = 1" by linarith
    then show ?thesis
    proof cases
      case 1
      with True have "bin_exp q - 52 = k" by (simp add: m_def)
      then show ?thesis by (simp add: fl_pos_def q)
    next
      case 2
      with le have "(of_int (2 ^ 53) :: rat) \<le> of_int n" by simp
      then have "2 ^ 53 \<le> n" using of_int_le_iff by blast
      with assms(2) have n: "n = 2 ^ 53" by simp
      from 2 True have "bin_exp q - 52 = k + 1" by (simp add: m_def)
      have "pow2 (bin_exp q - 52) = 2 * pow2 k" 
        by (simp only: \<open>bin_exp q - 52 = k + 1\<close> pow2_Suc)
      then have "q / pow2 (bin_exp q - 52) = of_int (2 ^ 52)" by (simp add: q n)
      then have "rne (q / pow2 (bin_exp q - 52)) = 2 ^ 52" by (simp only: rne_of_int)
      with \<open>pow2 (bin_exp q - 52) = 2 * pow2 k\<close> show ?thesis
        by (simp add: fl_pos_def Let_def q n)
    qed
  next
    case False
    define m where "m = nat (k - (bin_exp q - 52))"
    have k: "pow2 k = pow2 (bin_exp q - 52) * 2 ^ m"
      using pow2_add_nat [of "bin_exp q - 52" m] False by (simp add: m_def)
    have "q = of_int n * (pow2 (bin_exp q - 52) * 2 ^ m)" using q k by metis
    then have "q / pow2 (bin_exp q - 52) = of_int (n * 2 ^ m)"
      by (metis (no_types, opaque_lifting) mult.assoc mult.commute nonzero_mult_div_cancel_right
          of_int_mult of_int_numeral of_int_power pow2_nz)
    then have "rne (q / pow2 (bin_exp q - 52)) = n * 2 ^ m" by (simp only: rne_of_int)
    then have "fl_pos q = of_int n * (pow2 (bin_exp q - 52) * 2 ^ m)"
      by (simp add: fl_pos_def Let_def)
    with q k show ?thesis by metis
  qed
qed

lemma fl_exact:
  assumes "\<bar>n\<bar> \<le> 2 ^ 53" and "q = of_int n * pow2 k"
  shows "fl q = q"
proof -
  consider "n = 0" | "0 < n" | "n < 0" by linarith
  then show ?thesis
  proof cases
    case 1
    with assms show ?thesis by simp
  next
    case 2
    with assms fl_pos_exact [of n q k] show ?thesis by (simp add: fl_def)
  next
    case 3
    then have "q < 0" using assms by (simp add: mult_neg_pos)
    moreover have "fl_pos (- q) = - q" using 3 assms by (intro fl_pos_exact [of "- n" "- q" k]) simp_all
    ultimately show ?thesis by (simp add: fl_def)
  qed
qed

lemma fl_of_int [simp]: "\<bar>n\<bar> \<le> 9007199254740992 \<Longrightarrow> fl (of_int n) = of_int n"
  by (rule fl_exact [of n _ 0]) simp_all

lemma fl_le_of_int: "q \<le> of_int n \<Longrightarrow> \<bar>n\<bar> \<le> 9007199254740992 \<Longrightarrow> fl q \<le> of_int n"
  using fl_mono [of q "of_int n"] by simp

lemma fl_ge_of_int: "of_int n \<le> q \<Longrightarrow> \<bar>n\<bar> \<le> 9007199254740992 \<Longrightarrow> of_int n \<le> fl q"
  using fl_mono [of "of_int n" q] by simp

section \<open>Conversions\<close>

text \<open>\<open>float64(n)\<close> of an integer, and \<open>int64(x)\<close> of a double in range, which truncates.\<close>

definition f64_of_int :: "int \<Rightarrow> rat" where
  "f64_of_int n = fl (of_int n)"

definition trunc :: "rat \<Rightarrow> int" where
  "trunc q = (if 0 \<le> q then \<lfloor>q\<rfloor> else - \<lfloor>- q\<rfloor>)"

text \<open>\<open>math.Round\<close>: half away from zero.\<close>

definition round_away :: "rat \<Rightarrow> int" where
  "round_away q = (if 0 \<le> q then \<lfloor>q + 1 / 2\<rfloor> else - \<lfloor>- q + 1 / 2\<rfloor>)"

lemma f64_of_int_exact [simp]: "\<bar>n\<bar> \<le> 9007199254740992 \<Longrightarrow> f64_of_int n = of_int n"
  by (simp add: f64_of_int_def)

lemma f64_of_int_mono: "m \<le> n \<Longrightarrow> f64_of_int m \<le> f64_of_int n"
  by (simp add: f64_of_int_def fl_mono)

lemma trunc_mono_nonneg: "0 \<le> p \<Longrightarrow> p \<le> q \<Longrightarrow> trunc p \<le> trunc q"
  by (simp add: trunc_def floor_mono)

text \<open>A double as the source may receive it from outside.\<close>

datatype f64 = Fin rat | PosInf | NegInf | NaN

end
