(* ===== verification/Cadence.thy ===== *)
theory Cadence
  imports Go_Float
begin

text \<open>
  \<open>internal/sentinel/cadence.go\<close>: the running estimate of how far apart one chain's blocks
  are, and the judgement that a chain has gone quiet for longer than its own pace explains.
  The arithmetic is that of doubles, rounded operation by operation.
\<close>

section \<open>Durations and constants\<close>

text \<open>A \<open>time.Duration\<close> counts nanoseconds; \<open>Seconds()\<close> splits it before dividing.\<close>

definition nanos_per_sec :: int where
  "nanos_per_sec = 1000000000"

definition dur_seconds :: "int \<Rightarrow> rat" where
  "dur_seconds d =
     fl (f64_of_int (quo d nanos_per_sec) +
         fl (f64_of_int (d - nanos_per_sec * quo d nanos_per_sec) / 1000000000))"

text \<open>The untyped constants \<open>0.3\<close> and \<open>1-0.3\<close> become doubles where they meet one.\<close>

definition cadenceAlpha :: rat where "cadenceAlpha = fl (3 / 10)"
definition cadenceBeta :: rat where "cadenceBeta = fl (7 / 10)"
definition nominalInterval :: int where "nominalInterval = 600 * nanos_per_sec"
definition cadenceMaxInterval :: int where "cadenceMaxInterval = 86400 * nanos_per_sec"
definition defaultStallFactor :: rat where "defaultStallFactor = 6"

section \<open>The estimate\<close>

record cadence =
  IntervalSecs :: rat
  LastBlockTime :: int
  Samples :: int

definition NewCadence :: cadence where
  "NewCadence = \<lparr>IntervalSecs = dur_seconds nominalInterval, LastBlockTime = 0, Samples = 0\<rparr>"

definition Measured :: "cadence \<Rightarrow> bool" where
  "Measured c \<longleftrightarrow> 0 < Samples c"

definition Observe :: "cadence \<Rightarrow> int \<Rightarrow> cadence" where
  "Observe c headerTime =
     (if LastBlockTime c = 0 then c\<lparr>LastBlockTime := headerTime\<rparr>
      else if headerTime \<le> LastBlockTime c then
        (if 0 < headerTime then c\<lparr>LastBlockTime := max (LastBlockTime c) headerTime\<rparr> else c)
      else
        let raw = f64_of_int (i64 (headerTime - LastBlockTime c));
            interval = (if dur_seconds cadenceMaxInterval < raw
                        then dur_seconds cadenceMaxInterval else raw)
        in c\<lparr>IntervalSecs := fl (fl (cadenceAlpha * interval) + fl (cadenceBeta * IntervalSecs c)),
             LastBlockTime := headerTime,
             Samples := i64 (Samples c + 1)\<rparr>)"

definition ExpectedInterval :: "cadence \<Rightarrow> int" where
  "ExpectedInterval c =
     (let secs = max (IntervalSecs c) (dur_seconds nominalInterval)
      in i64 (trunc (fl (secs * 1000000000))))"

definition Stalled :: "cadence \<Rightarrow> int \<Rightarrow> int \<Rightarrow> rat \<Rightarrow> bool" where
  "Stalled c now lastBlockAt factor =
     (if lastBlockAt \<le> 0 \<or> now \<le> lastBlockAt then False
      else
        let factor = (if factor \<le> 0 then defaultStallFactor else factor);
            threshold = fl (f64_of_int (quo (ExpectedInterval c) nanos_per_sec) * factor)
        in threshold < f64_of_int (i64 (now - lastBlockAt)))"

lemmas cadence_defs [go_defs] =
  NewCadence_def Measured_def Observe_def ExpectedInterval_def Stalled_def
  cadenceAlpha_def cadenceBeta_def nominalInterval_def cadenceMaxInterval_def
  defaultStallFactor_def nanos_per_sec_def dur_seconds_def

section \<open>Bounds\<close>

lemma nominal_secs [simp]: "dur_seconds nominalInterval = 600"
  by (simp add: dur_seconds_def nominalInterval_def nanos_per_sec_def)
     (use fl_of_int [of 600] in simp)

lemma max_secs [simp]: "dur_seconds cadenceMaxInterval = 86400"
  by (simp add: dur_seconds_def cadenceMaxInterval_def nanos_per_sec_def)
     (use fl_of_int [of 86400] in simp)

lemma alpha_bounds: "0 < cadenceAlpha" "cadenceAlpha \<le> 3 / 10"
  unfolding cadenceAlpha_def by code_simp+

lemma beta_bounds: "0 < cadenceBeta" "cadenceBeta \<le> 7 / 10"
  unfolding cadenceBeta_def by code_simp+

text \<open>
  The invariant of an estimate: between zero and a day, and measured from a time a header can
  carry. A header's timestamp is an unsigned 32-bit number.
\<close>

definition cadence_ok :: "cadence \<Rightarrow> bool" where
  "cadence_ok c \<longleftrightarrow>
     0 \<le> IntervalSecs c \<and> IntervalSecs c \<le> 86400 \<and> 0 \<le> LastBlockTime c \<and> LastBlockTime c < 2 ^ 32"

definition header_time :: "int \<Rightarrow> bool" where
  "header_time t \<longleftrightarrow> 0 \<le> t \<and> t < 2 ^ 32"

lemma smoothing_bounds:
  assumes "0 \<le> x" "x \<le> 86400" "0 \<le> y" "y \<le> 86400"
  shows "0 \<le> fl (fl (cadenceAlpha * x) + fl (cadenceBeta * y))"
    and "fl (fl (cadenceAlpha * x) + fl (cadenceBeta * y)) \<le> 86400"
proof -
  have "cadenceAlpha * x \<le> 3 / 10 * 86400" using assms alpha_bounds by (intro mult_mono) auto
  then have a: "fl (cadenceAlpha * x) \<le> of_int 25920" by (intro fl_le_of_int) simp_all
  have "cadenceBeta * y \<le> 7 / 10 * 86400" using assms beta_bounds by (intro mult_mono) auto
  then have b: "fl (cadenceBeta * y) \<le> of_int 60480" by (intro fl_le_of_int) simp_all
  from a b have "fl (cadenceAlpha * x) + fl (cadenceBeta * y) \<le> of_int 86400" by simp
  then have "fl (fl (cadenceAlpha * x) + fl (cadenceBeta * y)) \<le> of_int 86400"
    by (rule fl_le_of_int) simp
  then show "fl (fl (cadenceAlpha * x) + fl (cadenceBeta * y)) \<le> 86400" by simp
  show "0 \<le> fl (fl (cadenceAlpha * x) + fl (cadenceBeta * y))"
    using assms alpha_bounds beta_bounds by simp
qed

lemma Observe_ok: "cadence_ok c \<Longrightarrow> header_time t \<Longrightarrow> cadence_ok (Observe c t)"
  using smoothing_bounds [of "min 86400 (of_int (t - LastBlockTime c))" "IntervalSecs c"]
  by (auto simp: cadence_ok_def header_time_def Observe_def Let_def min_def not_less not_le)

lemma Observe_reference: "cadence_ok c \<Longrightarrow> header_time t \<Longrightarrow> LastBlockTime (Observe c t) = max (LastBlockTime c) t"
  by (auto simp: Observe_def cadence_ok_def header_time_def Let_def)

lemma NewCadence_ok [simp]: "cadence_ok NewCadence"
  by (simp add: cadence_ok_def NewCadence_def)

interpretation cad: ordered_machine Observe header_time cadence_ok
  "\<lambda>c d. LastBlockTime c \<le> LastBlockTime d"
  by unfold_locales (auto simp: Observe_ok Observe_reference)

lemma ExpectedInterval_bounds:
  assumes "cadence_ok c"
  shows "600 * nanos_per_sec \<le> ExpectedInterval c" and "ExpectedInterval c \<le> 86400 * nanos_per_sec"
proof -
  let ?s = "max (IntervalSecs c) (dur_seconds nominalInterval)"
  have s: "600 \<le> ?s" "?s \<le> 86400" using assms by (auto simp: cadence_ok_def)
  have lo: "of_int (600 * nanos_per_sec) \<le> fl (?s * 1000000000)"
    using s by (intro fl_ge_of_int) (simp_all add: nanos_per_sec_def)
  have hi: "fl (?s * 1000000000) \<le> of_int (86400 * nanos_per_sec)"
    using s by (intro fl_le_of_int) (simp_all add: nanos_per_sec_def)
  from lo have nn: "0 \<le> fl (?s * 1000000000)" by (simp add: nanos_per_sec_def)
  have "600 * nanos_per_sec \<le> trunc (fl (?s * 1000000000))"
    using lo nn by (simp add: trunc_def le_floor_iff)
  moreover have "trunc (fl (?s * 1000000000)) \<le> 86400 * nanos_per_sec"
    using floor_mono [OF hi] nn by (simp only: trunc_def floor_of_int if_True)
  ultimately have "i64 (trunc (fl (?s * 1000000000))) = trunc (fl (?s * 1000000000))"
    by (intro i64_id) (simp_all add: nanos_per_sec_def)
  with \<open>600 * nanos_per_sec \<le> _\<close> \<open>_ \<le> 86400 * nanos_per_sec\<close>
  show "600 * nanos_per_sec \<le> ExpectedInterval c" "ExpectedInterval c \<le> 86400 * nanos_per_sec"
    by (simp_all only: ExpectedInterval_def Let_def)
qed

lemma expected_secs_bounds:
  assumes "cadence_ok c"
  shows "600 \<le> f64_of_int (quo (ExpectedInterval c) nanos_per_sec)"
    and "f64_of_int (quo (ExpectedInterval c) nanos_per_sec) \<le> 86400"
proof -
  note b = ExpectedInterval_bounds [OF assms]
  have q: "quo (ExpectedInterval c) nanos_per_sec = ExpectedInterval c div nanos_per_sec"
    using b(1) by (intro quo_nonneg) (simp_all add: nanos_per_sec_def)
  have "600 \<le> ExpectedInterval c div nanos_per_sec" "ExpectedInterval c div nanos_per_sec \<le> 86400"
    using zdiv_mono1 [OF b(1), of nanos_per_sec] zdiv_mono1 [OF b(2), of nanos_per_sec]
    by (simp_all add: nanos_per_sec_def)
  then show "600 \<le> f64_of_int (quo (ExpectedInterval c) nanos_per_sec)"
    "f64_of_int (quo (ExpectedInterval c) nanos_per_sec) \<le> 86400"
    by (simp_all add: q)
qed

section \<open>Properties\<close>

text \<open>
  Along any run of header timestamps the estimate stays between zero and a day, its
  reference time never goes back, and the interval it reasons with is never shorter than the
  network's ten minutes nor longer than a day, whatever a miner claims.
\<close>

theorem cadence_bounds:
  assumes "list_all header_time ts"
  defines "c \<equiv> foldl Observe NewCadence ts"
  shows "0 \<le> IntervalSecs c \<and> IntervalSecs c \<le> 86400 \<and> 0 \<le> LastBlockTime c
    \<and> 600 * nanos_per_sec \<le> ExpectedInterval c \<and> ExpectedInterval c \<le> 86400 * nanos_per_sec"
proof -
  have "cadence_ok c" unfolding c_def by (rule cad.run_inv [OF NewCadence_ok assms(1)])
  then show ?thesis using ExpectedInterval_bounds by (auto simp: cadence_ok_def)
qed

theorem cadence_bounds_witness:
  "0 \<le> IntervalSecs (foldl Observe NewCadence [1000, 1400, 900])
    \<and> IntervalSecs (foldl Observe NewCadence [1000, 1400, 900]) \<le> 86400"
  using cadence_bounds [of "[1000, 1400, 900]"] by (simp add: header_time_def)

text \<open>
  A chain is reported stalled only after more than the factor times ten minutes of
  silence, is always reported after more than the factor times a day, and once reported stays
  reported while it is silent.
\<close>

theorem stall_window:
  assumes "cadence_ok c" and "0 < prev" and "prev < now" and "now \<le> now'" and "now' < 2 ^ 53" and "0 < k"
  shows "(Stalled c now prev k \<longrightarrow> fl (600 * k) < of_int (now - prev))
    \<and> (fl (86400 * k) < of_int (now - prev) \<longrightarrow> Stalled c now prev k)
    \<and> (Stalled c now prev k \<longrightarrow> Stalled c now' prev k)"
proof -
  let ?e = "f64_of_int (quo (ExpectedInterval c) nanos_per_sec)"
  note e = expected_secs_bounds [OF assms(1)]
  have lo: "fl (600 * k) \<le> fl (?e * k)" and hi: "fl (?e * k) \<le> fl (86400 * k)"
    using e assms(6) by (intro fl_mono mult_right_mono; simp)+
  have s: "Stalled c n prev k \<longleftrightarrow> fl (?e * k) < of_int (n - prev)" if "prev < n" "n < 2 ^ 53" for n
    using that assms by (simp add: Stalled_def Let_def)
  show ?thesis using s [of now] s [of now'] lo hi assms(3-5)
    by auto
qed

theorem stall_window_witness:
  "Stalled NewCadence 5000 1000 6 \<and> Stalled NewCadence 9000 1000 6"
proof -
  have "Stalled NewCadence 5000 1000 6" by code_simp
  then show ?thesis using stall_window [of NewCadence 1000 5000 9000 6] by simp
qed

end
