(* ===== verification/Chain_View.thy ===== *)
theory Chain_View
  imports Go_Base
begin

text \<open>
  \<open>internal/chainview\<close>: the types every chain backend exchanges (\<open>types.go\<close>) and the checks
  that two views are on the right network, are different nodes and follow the chains they are
  supposed to (\<open>verify.go\<close>). A backend is a third party reached over the network: it appears
  as the answers it gives, arguments of the definitions. A block hash is a 32-byte array, read
  as a number; zero is the zero array.
\<close>

section \<open>Types\<close>

type_synonym hash = nat

text \<open>
  Go's string enumerations become datatypes. The last constructor stands for every string that
  is not one of the declared constants; the zero value is that constructor at the empty string.
\<close>

datatype branch = BranchSF | BranchSQ | BranchOther string

fun Branch_Valid :: "branch \<Rightarrow> bool" where
  "Branch_Valid BranchSF = True"
| "Branch_Valid BranchSQ = True"
| "Branch_Valid (BranchOther _) = False"

fun Branch_Other :: "branch \<Rightarrow> branch" where
  "Branch_Other BranchSF = BranchSQ"
| "Branch_Other BranchSQ = BranchSF"
| "Branch_Other (BranchOther _) = BranchOther ''''"

record block_ref =
  Hash :: hash
  Height :: int

text \<open>\<open>BlockMeta\<close> embeds \<open>BlockRef\<close>; \<open>Time\<close> is the header timestamp in unix seconds.\<close>

record block_meta = block_ref +
  PrevHash :: hash
  Time :: int

datatype health =
    HealthSyncing | HealthOK | HealthDegraded | HealthEclipseSuspect | HealthWrongBranch
  | HealthDown | HealthOther string

fun Health_Valid :: "health \<Rightarrow> bool" where
  "Health_Valid (HealthOther _) = False"
| "Health_Valid _ = True"

fun Usable :: "health \<Rightarrow> bool" where
  "Usable HealthOK = True"
| "Usable HealthDegraded = True"
| "Usable HealthSyncing = False"
| "Usable HealthEclipseSuspect = False"
| "Usable HealthWrongBranch = False"
| "Usable HealthDown = False"
| "Usable (HealthOther _) = False"

record chain_tip =
  TipHash :: hash
  TipHeight :: int
  BranchLen :: int
  Status :: string

definition TipInvalid :: string where "TipInvalid = ''invalid''"

definition Rejected :: "chain_tip \<Rightarrow> bool" where
  "Rejected t \<longleftrightarrow> Status t = TipInvalid"

record network_params =
  NetName :: string
  Genesis :: hash

text \<open>What reading from a backend can fail with; only \<open>ErrNotFound\<close> is told apart by a caller.\<close>

datatype view_err = ErrNotFound | ErrUnsupported | ErrUnreachable | ErrWarmingUp | ErrView string

type_synonym hash_reader = "int \<Rightarrow> view_err + hash"

record identity =
  Endpoint :: string
  LocalAddresses :: "string list"

section \<open>The startup checks\<close>

datatype verify_err =
    ErrSameNode | ErrCannotVerifyDistinct | ErrWrongBranch | ErrCannotVerifyBranch
  | ErrWrongNetwork | ErrReading view_err

text \<open>A check returns the error it found, or \<open>None\<close>.\<close>

definition VerifyNetwork :: "hash_reader \<Rightarrow> network_params \<Rightarrow> verify_err option" where
  "VerifyNetwork v want =
     (case v 0 of
        Inl e \<Rightarrow> Some (ErrReading e)
      | Inr genesis \<Rightarrow> if genesis \<noteq> Genesis want then Some ErrWrongNetwork else None)"

definition norm_addr :: "string \<Rightarrow> string" where
  "norm_addr a = trim_space (to_lower a)"

fun shared_loop :: "string set \<Rightarrow> string list \<Rightarrow> string" where
  "shared_loop seen [] = ''''"
| "shared_loop seen (addr # rest) =
     (let norm = norm_addr addr
      in if norm = '''' then shared_loop seen rest
         else if norm \<in> seen then norm else shared_loop seen rest)"

definition sharedAddress :: "string list \<Rightarrow> string list \<Rightarrow> string" where
  "sharedAddress a b =
     (if a = [] \<or> b = [] then ''''
      else shared_loop (set (filter (\<lambda>n. n \<noteq> '''') (map norm_addr a))) b)"

text \<open>
  \<open>identities\<close>: each argument is \<open>None\<close> when the backend is not \<open>Identifiable\<close> or its answer
  is an error.
\<close>

definition VerifyDistinct :: "identity option \<Rightarrow> identity option \<Rightarrow> verify_err option" where
  "VerifyDistinct sf sq =
     (case (sf, sq) of
        (Some sfID, Some sqID) \<Rightarrow>
          if Endpoint sfID \<noteq> '''' \<and> Endpoint sfID = Endpoint sqID then Some ErrSameNode
          else if sharedAddress (LocalAddresses sfID) (LocalAddresses sqID) \<noteq> ''''
          then Some ErrSameNode else None
      | _ \<Rightarrow> Some ErrCannotVerifyDistinct)"

fun sample_loop :: "int \<Rightarrow> int set \<Rightarrow> int list \<Rightarrow> int list" where
  "sample_loop anchor seen [] = []"
| "sample_loop anchor seen (h # hs) =
     (if h < 0 \<or> anchor < h then sample_loop anchor seen hs
      else if h \<in> seen then sample_loop anchor seen hs
      else h # sample_loop anchor (insert h seen) hs)"

definition branchSampleHeights :: "int \<Rightarrow> int list" where
  "branchSampleHeights anchor =
     (if anchor < 0 then []
      else sample_loop anchor {}
             [anchor, anchor - 1, quo anchor 2, quo anchor 4, quo anchor 8, 1000, 1, 0])"

fun shared_history_loop :: "hash_reader \<Rightarrow> hash_reader \<Rightarrow> int list \<Rightarrow> int \<Rightarrow> int \<times> verify_err option" where
  "shared_history_loop sf sq [] compared = (compared, None)"
| "shared_history_loop sf sq (h # hs) compared =
     (case sf h of
        Inl e \<Rightarrow> if e = ErrNotFound then shared_history_loop sf sq hs compared
                else (compared, Some (ErrReading e))
      | Inr sfHash \<Rightarrow>
          (case sq h of
             Inl e \<Rightarrow> if e = ErrNotFound then shared_history_loop sf sq hs compared
                     else (compared, Some (ErrReading e))
           | Inr sqHash \<Rightarrow>
               if sfHash \<noteq> sqHash then (compared, Some ErrWrongBranch)
               else shared_history_loop sf sq hs (if 0 < h then compared + 1 else compared)))"

definition verifySharedHistory :: "hash_reader \<Rightarrow> hash_reader \<Rightarrow> int \<Rightarrow> int \<times> verify_err option" where
  "verifySharedHistory sf sq anchorHeight =
     shared_history_loop sf sq (branchSampleHeights anchorHeight) 0"

definition verifyDivergence :: "hash_reader \<Rightarrow> hash_reader \<Rightarrow> block_ref \<Rightarrow> verify_err option" where
  "verifyDivergence sf sq fork =
     (let check = i32 (Height fork + 1)
      in if sf check = Inl ErrNotFound \<or> sq check = Inl ErrNotFound then Some ErrCannotVerifyBranch
         else case sf check of
           Inl e \<Rightarrow> Some (ErrReading e)
         | Inr sfHash \<Rightarrow>
             (case sq check of
                Inl e \<Rightarrow> Some (ErrReading e)
              | Inr sqHash \<Rightarrow> if sfHash = sqHash then Some ErrWrongBranch else None))"

definition VerifyBranch ::
  "hash_reader \<Rightarrow> hash_reader \<Rightarrow> int \<Rightarrow> block_ref option \<Rightarrow> verify_err option" where
  "VerifyBranch sf sq anchorHeight fork =
     (let (compared, err) = verifySharedHistory sf sq anchorHeight
      in case err of
           Some e \<Rightarrow> Some e
         | None \<Rightarrow>
             (case fork of
                Some f \<Rightarrow> verifyDivergence sf sq f
              | None \<Rightarrow> if compared = 0 then Some ErrCannotVerifyBranch else None))"

section \<open>What the checks establish\<close>

lemma set_sample_loop:
  "set (sample_loop anchor seen hs) = {h \<in> set hs. 0 \<le> h \<and> h \<le> anchor \<and> h \<notin> seen}"
  by (induction hs arbitrary: seen) auto

lemma distinct_sample_loop: "distinct (sample_loop anchor seen hs)"
  by (induction hs arbitrary: seen) (auto simp: set_sample_loop)

declare sample_loop.simps [simp del]

lemma sample_heights_range: "h \<in> set (branchSampleHeights anchor) \<Longrightarrow> 0 \<le> h \<and> h \<le> anchor"
  by (auto simp: branchSampleHeights_def set_sample_loop split: if_splits)

lemma sample_heights_anchor: "0 \<le> anchor \<Longrightarrow> anchor \<in> set (branchSampleHeights anchor)"
  by (simp add: branchSampleHeights_def set_sample_loop)

lemma distinct_sample_heights: "distinct (branchSampleHeights anchor)"
  by (simp add: branchSampleHeights_def distinct_sample_loop)

text \<open>The heights the loop really compared: both views answered.\<close>

definition both_answer :: "hash_reader \<Rightarrow> hash_reader \<Rightarrow> int \<Rightarrow> bool" where
  "both_answer sf sq h \<longleftrightarrow> (\<exists>a b. sf h = Inr a \<and> sq h = Inr b)"

lemma shared_history_ok:
  assumes "shared_history_loop sf sq hs n = (m, None)"
  shows "(\<forall>h \<in> set hs. both_answer sf sq h \<longrightarrow> sf h = sq h)
    \<and> m = n + int (length (filter (\<lambda>h. 0 < h \<and> both_answer sf sq h) hs))"
  using assms
proof (induction hs arbitrary: n)
  case (Cons h hs)
  show ?case
  proof (cases "both_answer sf sq h")
    case True
    then obtain a b where "sf h = Inr a" "sq h = Inr b" by (auto simp: both_answer_def)
    with Cons.prems True Cons.IH [of "if 0 < h then n + 1 else n"] show ?thesis
      by (auto split: if_splits)
  next
    case False
    with Cons.prems have "shared_history_loop sf sq hs n = (m, None)"
      by (auto simp: both_answer_def split: sum.splits if_splits)
    with False Cons.IH show ?thesis by simp
  qed
qed simp

lemma shared_history_wrong:
  assumes "shared_history_loop sf sq hs n = (m, Some ErrWrongBranch)"
  shows "\<exists>h \<in> set hs. both_answer sf sq h \<and> sf h \<noteq> sq h"
  using assms
  by (induction hs arbitrary: n) (auto simp: both_answer_def split: sum.splits if_splits)

lemma shared_loop_nonempty:
  "shared_loop seen bs \<noteq> '''' \<Longrightarrow> \<exists>b \<in> set bs. norm_addr b \<noteq> '''' \<and> norm_addr b \<in> seen"
  by (induction bs) (auto simp: Let_def split: if_splits)

lemma shared_loop_empty:
  "shared_loop seen bs = '''' \<Longrightarrow> b \<in> set bs \<Longrightarrow> norm_addr b \<noteq> '''' \<Longrightarrow> norm_addr b \<notin> seen"
  by (induction bs) (auto simp: Let_def split: if_splits)

lemma sharedAddress_iff:
  "sharedAddress a b \<noteq> '''' \<longleftrightarrow> (\<exists>x \<in> set a. \<exists>y \<in> set b. norm_addr x = norm_addr y \<and> norm_addr y \<noteq> '''')"
proof
  assume "sharedAddress a b \<noteq> ''''"
  then have "shared_loop (set (filter (\<lambda>n. n \<noteq> '''') (map norm_addr a))) b \<noteq> ''''"
    by (auto simp: sharedAddress_def split: if_splits)
  then obtain y where y: "y \<in> set b" "norm_addr y \<noteq> ''''" "norm_addr y \<in> norm_addr ` set a"
    using shared_loop_nonempty by fastforce
  then obtain x where "x \<in> set a" "norm_addr y = norm_addr x" by (elim imageE)
  with y show "\<exists>x \<in> set a. \<exists>y \<in> set b. norm_addr x = norm_addr y \<and> norm_addr y \<noteq> ''''"
    by (metis (no_types))
next
  assume "\<exists>x \<in> set a. \<exists>y \<in> set b. norm_addr x = norm_addr y \<and> norm_addr y \<noteq> ''''"
  then obtain x y where xy: "x \<in> set a" "y \<in> set b" "norm_addr x = norm_addr y" "norm_addr y \<noteq> ''''"
    by blast
  then have "a \<noteq> []" "b \<noteq> []" by auto
  let ?seen = "set (filter (\<lambda>n. n \<noteq> '''') (map norm_addr a))"
  have "norm_addr y \<in> ?seen" using xy(1,4) xy(3) [symmetric] by simp
  then have "shared_loop ?seen b \<noteq> ''''" using shared_loop_empty xy(2,4) by blast
  with \<open>a \<noteq> []\<close> \<open>b \<noteq> []\<close> show "sharedAddress a b \<noteq> ''''" by (simp add: sharedAddress_def)
qed

text \<open>
  C27: a branch check that succeeds compared something. Every sampled height both views answered
  has one hash, and either the views were read just above the recorded separation and differ
  there, or, with no separation recorded, some height above genesis was compared. So an empty
  comparison is never reported as a pass.
\<close>

theorem verify_branch_sound:
  assumes "VerifyBranch sf sq anchor fork = None"
  shows "(\<forall>h \<in> set (branchSampleHeights anchor). both_answer sf sq h \<longrightarrow> sf h = sq h)
    \<and> (case fork of
         Some f \<Rightarrow> both_answer sf sq (i32 (Height f + 1)) \<and> sf (i32 (Height f + 1)) \<noteq> sq (i32 (Height f + 1))
       | None \<Rightarrow> \<exists>h. 0 < h \<and> h \<le> anchor \<and> both_answer sf sq h \<and> sf h = sq h)"
proof -
  obtain m where m: "verifySharedHistory sf sq anchor = (m, None)"
    using assms by (auto simp: VerifyBranch_def split: prod.splits option.splits)
  note ok = shared_history_ok [OF m [unfolded verifySharedHistory_def]]
  show ?thesis
  proof (cases fork)
    case (Some f)
    with assms m have "verifyDivergence sf sq f = None" by (simp add: VerifyBranch_def)
    then show ?thesis using ok Some
      by (auto simp: verifyDivergence_def Let_def both_answer_def split: if_splits sum.splits)
  next
    case None
    with assms m have "m \<noteq> 0" by (auto simp: VerifyBranch_def split: if_splits)
    with ok have "filter (\<lambda>h. 0 < h \<and> both_answer sf sq h) (branchSampleHeights anchor) \<noteq> []" by auto
    then obtain h where "h \<in> set (branchSampleHeights anchor)" "0 < h" "both_answer sf sq h"
      by (auto simp: filter_empty_conv)
    with ok None show ?thesis using sample_heights_range by auto
  qed
qed

theorem verify_branch_sound_witness:
  "VerifyBranch (\<lambda>h. Inr (nat h)) (\<lambda>h. Inr (if h = 11 then 99 else nat h)) 10 (Some \<lparr>Hash = 10, Height = 10\<rparr>) = None
   \<and> (\<lambda>h :: int. Inr (nat h) :: view_err + hash) (i32 11) \<noteq> Inr (if i32 11 = 11 then 99 else nat (i32 11))"
proof -
  let ?sf = "\<lambda>h :: int. Inr (nat h) :: view_err + hash"
  let ?sq = "\<lambda>h :: int. Inr (if h = 11 then 99 else nat h) :: view_err + hash"
  have v: "VerifyBranch ?sf ?sq 10 (Some \<lparr>Hash = 10, Height = 10\<rparr>) = None" by code_simp
  show ?thesis using v verify_branch_sound [OF v] by simp
qed

text \<open>
  The branch check reports the wrong chain only on evidence, and reports it whenever the
  evidence is there: some sampled height both views answered differs, or the views agree just
  above the separation.
\<close>

theorem verify_branch_wrong:
  assumes "VerifyBranch sf sq anchor fork = Some ErrWrongBranch"
  shows "(\<exists>h. 0 \<le> h \<and> h \<le> anchor \<and> both_answer sf sq h \<and> sf h \<noteq> sq h)
    \<or> (\<exists>f. fork = Some f \<and> both_answer sf sq (i32 (Height f + 1))
           \<and> sf (i32 (Height f + 1)) = sq (i32 (Height f + 1)))"
proof -
  obtain m err where m: "verifySharedHistory sf sq anchor = (m, err)" by (cases "verifySharedHistory sf sq anchor")
  show ?thesis
  proof (cases err)
    case (Some e)
    with assms m have "err = Some ErrWrongBranch" by (simp add: VerifyBranch_def)
    from shared_history_wrong [OF m [unfolded verifySharedHistory_def this]] show ?thesis
      using sample_heights_range by blast
  next
    case None
    with assms m obtain f where "fork = Some f" "verifyDivergence sf sq f = Some ErrWrongBranch"
      by (auto simp: VerifyBranch_def split: option.splits if_splits)
    then show ?thesis
      by (auto simp: verifyDivergence_def Let_def both_answer_def split: if_splits sum.splits)
  qed
qed

theorem verify_branch_wrong_witness:
  "VerifyBranch (\<lambda>h. Inr (nat h)) (\<lambda>h. Inr (nat h)) 10 (Some \<lparr>Hash = 10, Height = 10\<rparr>) = Some ErrWrongBranch
   \<and> both_answer (\<lambda>h. Inr (nat h)) (\<lambda>h. Inr (nat h)) (i32 11)"
proof -
  let ?v = "\<lambda>h :: int. Inr (nat h) :: view_err + hash"
  have v: "VerifyBranch ?v ?v 10 (Some \<lparr>Hash = 10, Height = 10\<rparr>) = Some ErrWrongBranch" by code_simp
  show ?thesis using v verify_branch_wrong [OF v] by auto
qed

text \<open>
  Two views are declared different nodes exactly when both say who they are, their
  endpoints are not one non-empty endpoint, and no address, compared without regard to case or
  surrounding space, is claimed by both. A backend that cannot describe itself is never
  reported as distinct.
\<close>

theorem verify_distinct_iff:
  "VerifyDistinct sf sq = None \<longleftrightarrow>
     (\<exists>a b. sf = Some a \<and> sq = Some b \<and> \<not> (Endpoint a \<noteq> '''' \<and> Endpoint a = Endpoint b)
        \<and> (\<nexists>x y. x \<in> set (LocalAddresses a) \<and> y \<in> set (LocalAddresses b)
              \<and> norm_addr x = norm_addr y \<and> norm_addr y \<noteq> ''''))"
proof (cases sf; cases sq)
  fix a b
  assume "sf = Some a" "sq = Some b"
  then show ?thesis
    using sharedAddress_iff [of "LocalAddresses a" "LocalAddresses b"]
    by (auto simp: VerifyDistinct_def)
qed (simp_all add: VerifyDistinct_def)

end
