(* ===== verification/Sentinel_Logic.thy ===== *)
theory Sentinel_Logic
  imports Cadence Chain_View
begin

text \<open>
  \<open>internal/sentinel/logic.go\<close>: the pure decision logic that turns what the two views report,
  tick by tick, into the phase of the split. \<open>Step\<close> takes the state and one observation to the
  next state and the effects the shell must perform. Every function of the file is here, in its
  order; a pointer that may be nil is an \<open>option\<close>, heights are \<open>int32\<close> and times \<open>int64\<close>.
\<close>

section \<open>Phases\<close>

datatype phase =
    PhaseUnarmed | PhaseArmed | PhaseSplit | PhaseResolving | PhaseResolvedSFWon | PhaseResolvedSQWon
  | PhaseOther string

fun Phase_Valid :: "phase \<Rightarrow> bool" where
  "Phase_Valid (PhaseOther _) = False"
| "Phase_Valid _ = True"

fun Resolved :: "phase \<Rightarrow> bool" where
  "Resolved PhaseResolvedSFWon = True"
| "Resolved PhaseResolvedSQWon = True"
| "Resolved PhaseUnarmed = False"
| "Resolved PhaseArmed = False"
| "Resolved PhaseSplit = False"
| "Resolved PhaseResolving = False"
| "Resolved (PhaseOther _) = False"

definition bothDownGrace :: int where "bothDownGrace = 10 * 60 * 1000000000"

section \<open>Observations, state and effects\<close>

record height_disagreement =
  DisHeight :: int
  SFHash :: hash
  SQHash :: hash

record observation =
  o_At :: int
  o_SFTip :: "block_meta option"
  o_SQTip :: "block_meta option"
  o_SFHealth :: health
  o_SQHealth :: health
  o_SFTips :: "chain_tip list"
  o_SQAncestry :: "hash list"
  o_SFAncestry :: "hash list"
  o_ForkCandidate :: "block_ref option"
  o_ForkSearchFailed :: bool
  o_Disagreement :: "height_disagreement option"
  o_SharedHeightAgreed :: bool
  o_OperatorOutcome :: phase
  o_SplitConfirmDepth :: int
  o_SplitConfirmSecs :: int
  o_SplitSuspectSecs :: int
  o_StallFactor :: rat
  o_DivergenceHeight :: int
  o_ReorgMargin :: int

record sstate =
  s_Phase :: phase
  s_Fork :: "block_ref option"
  s_ForkCandidate :: "block_ref option"
  s_ForkCandidateSince :: int
  s_Disagreement :: "height_disagreement option"
  s_DisagreementSince :: int
  s_SplitSuspected :: bool
  s_DetectedAt :: int
  s_SFTip :: "block_meta option"
  s_SQTip :: "block_meta option"
  s_SFHealth :: health
  s_SQHealth :: health
  s_SFCadence :: cadence
  s_SQCadence :: cadence
  s_LastSFBlockAt :: int
  s_LastSQBlockAt :: int
  s_BothDownSince :: int
  s_ResolvingCandidate :: phase
  s_TrustAnchor :: int

definition NewState :: sstate where
  "NewState = \<lparr>s_Phase = PhaseUnarmed, s_Fork = None, s_ForkCandidate = None,
     s_ForkCandidateSince = 0, s_Disagreement = None, s_DisagreementSince = 0,
     s_SplitSuspected = False, s_DetectedAt = 0, s_SFTip = None, s_SQTip = None,
     s_SFHealth = HealthDown, s_SQHealth = HealthDown,
     s_SFCadence = NewCadence, s_SQCadence = NewCadence,
     s_LastSFBlockAt = 0, s_LastSQBlockAt = 0, s_BothDownSince = 0,
     s_ResolvingCandidate = PhaseOther '''', s_TrustAnchor = 0\<rparr>"

text \<open>
  An \<open>Effect\<close> of the source carries a kind and the fields that kind sets; here each kind is a
  constructor with exactly those fields.
\<close>

datatype effect =
    EffectPersistState
  | EffectPhaseChanged (OldPhase: phase) (NewPhase: phase) (PhaseDetail: string)
  | EffectBranchExtended (ExtBranch: branch) (ExtBlock: block_meta) (SinceForkDepth: int) (ExtInterval: rat)
  | EffectHealthChanged (HBranch: branch) (OldHealth: health) (NewHealth: health)
  | EffectBothViewsDown (DownDetail: string)
  | EffectTrustAnchorChanged (AnchorHeight: int) (AnchorDetail: string)

section \<open>Health and disagreement\<close>

definition trackHealth :: "sstate \<Rightarrow> observation \<Rightarrow> sstate \<times> effect list" where
  "trackHealth s obs =
     (let sfChanged = o_SFHealth obs \<noteq> HealthOther '''' \<and> o_SFHealth obs \<noteq> s_SFHealth s;
          e1 = (if sfChanged then [EffectHealthChanged BranchSF (s_SFHealth s) (o_SFHealth obs)] else []);
          s1 = (if sfChanged then s\<lparr>s_SFHealth := o_SFHealth obs\<rparr> else s);
          sqChanged = o_SQHealth obs \<noteq> HealthOther '''' \<and> o_SQHealth obs \<noteq> s_SQHealth s1;
          e2 = (if sqChanged then [EffectHealthChanged BranchSQ (s_SQHealth s1) (o_SQHealth obs)] else []);
          s2 = (if sqChanged then s1\<lparr>s_SQHealth := o_SQHealth obs\<rparr> else s1);
          bothDown = s_SFHealth s2 = HealthDown \<and> s_SQHealth s2 = HealthDown
      in if bothDown \<and> s_BothDownSince s2 = 0
         then (s2\<lparr>s_BothDownSince := o_At obs\<rparr>, e1 @ e2)
         else if bothDown \<and> quo bothDownGrace nanos_per_sec \<le> i64 (o_At obs - s_BothDownSince s2)
         then (s2\<lparr>s_BothDownSince := o_At obs\<rparr>,
               e1 @ e2 @ [EffectBothViewsDown ''neither chain can be reached; the recorded state is kept''])
         else if \<not> bothDown then (s2\<lparr>s_BothDownSince := 0\<rparr>, e1 @ e2)
         else (s2, e1 @ e2))"

definition trackDisagreement :: "sstate \<Rightarrow> observation \<Rightarrow> sstate" where
  "trackDisagreement s obs =
     (case o_Disagreement obs of
        None \<Rightarrow>
          if o_SharedHeightAgreed obs then s\<lparr>s_Disagreement := None, s_DisagreementSince := 0\<rparr> else s
      | Some found \<Rightarrow>
          (let moved = (case s_Disagreement s of
                          None \<Rightarrow> True
                        | Some d \<Rightarrow> SFHash d \<noteq> SFHash found \<or> SQHash d \<noteq> SQHash found);
               s1 = s\<lparr>s_Disagreement := Some found\<rparr>
           in if moved \<or> s_DisagreementSince s1 = 0 then s1\<lparr>s_DisagreementSince := o_At obs\<rparr> else s1))"

definition trackForkCandidate :: "sstate \<Rightarrow> observation \<Rightarrow> sstate" where
  "trackForkCandidate s obs =
     (case (o_SFTip obs, o_SQTip obs) of
        (Some sf, Some sq) \<Rightarrow>
          if o_ForkSearchFailed obs then s
          else
            (case o_ForkCandidate obs of
               None \<Rightarrow> s\<lparr>s_ForkCandidate := None, s_ForkCandidateSince := 0\<rparr>
             | Some candidate \<Rightarrow>
                 if \<not> (Height candidate < Height sf \<and> Height candidate < Height sq)
                 then s\<lparr>s_ForkCandidate := None, s_ForkCandidateSince := 0\<rparr>
                 else
                   (let moved = (case s_ForkCandidate s of
                                   None \<Rightarrow> True | Some c \<Rightarrow> Hash c \<noteq> Hash candidate);
                        s1 = s\<lparr>s_ForkCandidate := Some candidate\<rparr>
                    in if moved \<or> s_ForkCandidateSince s1 = 0
                       then s1\<lparr>s_ForkCandidateSince := o_At obs\<rparr> else s1))
      | _ \<Rightarrow> s)"

definition divergedDepth :: "int \<Rightarrow> int \<Rightarrow> int" where
  "divergedDepth tipHeight forkHeight =
     (if tipHeight < forkHeight then 0 else i32 (tipHeight - forkHeight))"

definition tipHeight :: "block_meta option \<Rightarrow> int" where
  "tipHeight tip = (case tip of None \<Rightarrow> 0 | Some t \<Rightarrow> Height t)"

definition suspectSplit :: "sstate \<Rightarrow> observation \<Rightarrow> bool" where
  "suspectSplit s obs =
     (let lasted = (\<lambda>since. 0 < o_SplitSuspectSecs obs \<and> 0 < since
                      \<and> o_SplitSuspectSecs obs \<le> i64 (o_At obs - since))
      in if s_Disagreement s \<noteq> None \<and> lasted (s_DisagreementSince s) then True
         else
           (case s_ForkCandidate s of
              None \<Rightarrow> False
            | Some c \<Rightarrow>
                if s_ForkCandidateSince s = 0 then False
                else
                  (let sfDepth = divergedDepth (tipHeight (s_SFTip s)) (Height c);
                       sqDepth = divergedDepth (tipHeight (s_SQTip s)) (Height c)
                   in if 1 < sfDepth \<or> 1 < sqDepth then True
                      else lasted (s_ForkCandidateSince s))))"

section \<open>Blocks and the trust anchor\<close>

definition separation :: "sstate \<Rightarrow> block_ref option" where
  "separation s = (case s_Fork s of Some f \<Rightarrow> Some f | None \<Rightarrow> s_ForkCandidate s)"

text \<open>
  \<open>trackBranch\<close> updates three fields of one branch through pointers: it takes and returns them.
\<close>

definition trackBranch ::
  "branch \<Rightarrow> block_meta option \<Rightarrow> block_meta option \<Rightarrow> cadence \<Rightarrow> int \<Rightarrow> block_ref option \<Rightarrow> int
    \<Rightarrow> (block_meta option \<times> cadence \<times> int) \<times> effect option" where
  "trackBranch br observed stored cad lastSeen fork now =
     (case observed of
        None \<Rightarrow> ((stored, cad, lastSeen), None)
      | Some tip \<Rightarrow>
          if (case stored of Some t \<Rightarrow> Hash t = Hash tip | None \<Rightarrow> False)
          then ((stored, cad, lastSeen), None)
          else
            (let cad' = Observe cad (Time tip);
                 depth = (case fork of None \<Rightarrow> 0 | Some f \<Rightarrow> i32 (Height tip - Height f))
             in ((Some tip, cad', now),
                 Some (EffectBranchExtended br tip depth (IntervalSecs cad')))))"

definition trackBlocks :: "sstate \<Rightarrow> observation \<Rightarrow> sstate \<times> effect list" where
  "trackBlocks s obs =
     (let fork = separation s;
          ((sfTip, sfCad, sfAt), e1) =
            trackBranch BranchSF (o_SFTip obs) (s_SFTip s) (s_SFCadence s) (s_LastSFBlockAt s) fork (o_At obs);
          s1 = s\<lparr>s_SFTip := sfTip, s_SFCadence := sfCad, s_LastSFBlockAt := sfAt\<rparr>;
          ((sqTip, sqCad, sqAt), e2) =
            trackBranch BranchSQ (o_SQTip obs) (s_SQTip s1) (s_SQCadence s1) (s_LastSQBlockAt s1) fork (o_At obs);
          s2 = s1\<lparr>s_SQTip := sqTip, s_SQCadence := sqCad, s_LastSQBlockAt := sqAt\<rparr>
      in (s2, List.map_filter id [e1, e2]))"

fun rejected_loop :: "chain_tip list \<Rightarrow> bool \<Rightarrow> int \<Rightarrow> int \<times> bool" where
  "rejected_loop [] found lowest = (lowest, found)"
| "rejected_loop (t # ts) found lowest =
     (if \<not> Rejected t then rejected_loop ts found lowest
      else
        (let base = i32 (TipHeight t - BranchLen t);
             base = (if base < 0 then 0 else base)
         in if \<not> found \<or> base < lowest then rejected_loop ts True base
            else rejected_loop ts found lowest))"

definition earliestRejectedHeight :: "chain_tip list \<Rightarrow> int \<times> bool" where
  "earliestRejectedHeight tips = rejected_loop tips False 0"

definition consider_bound :: "int \<Rightarrow> int \<Rightarrow> int" where
  "consider_bound best candidate =
     (if candidate < 0 then best
      else if best = - 1 \<or> candidate < best then candidate else best)"

definition TrustAnchorHeight :: "observation \<Rightarrow> block_ref option \<Rightarrow> int \<times> bool" where
  "TrustAnchorHeight obs fork =
     (let best = - 1;
          best = (if 0 < o_DivergenceHeight obs then consider_bound best (i32 (o_DivergenceHeight obs - 1)) else best);
          (h, ok) = earliestRejectedHeight (o_SFTips obs);
          best = (if ok then consider_bound best (i32 (h - 1)) else best);
          best = (case fork of Some f \<Rightarrow> consider_bound best (Height f) | None \<Rightarrow> best);
          best = (case o_SFTip obs of
                    Some t \<Rightarrow> if 0 < o_ReorgMargin obs
                               then consider_bound best (i32 (Height t - o_ReorgMargin obs)) else best
                  | None \<Rightarrow> best)
      in if best = - 1 then (0, False)
         else (if best < 0 then 0 else best, True))"

definition trackTrustAnchor :: "sstate \<Rightarrow> observation \<Rightarrow> sstate \<times> effect list" where
  "trackTrustAnchor s obs =
     (let (anchor, ok) = TrustAnchorHeight obs (s_Fork s)
      in if \<not> ok \<or> anchor = s_TrustAnchor s then (s, [])
         else (s\<lparr>s_TrustAnchor := anchor\<rparr>,
               [EffectTrustAnchorChanged anchor
                  ''history below this height is shared, so it is taken as already verified'']))"

section \<open>Agreement and evidence\<close>

fun contains_loop :: "hash list \<Rightarrow> hash \<Rightarrow> int \<Rightarrow> int \<Rightarrow> bool" where
  "contains_loop [] h limit i = False"
| "contains_loop (candidate # hashes) h limit i =
     (if limit \<le> i then False
      else if candidate = h then True
      else contains_loop hashes h limit (i + 1))"

definition containsWithin :: "hash list \<Rightarrow> hash \<Rightarrow> int \<Rightarrow> bool" where
  "containsWithin hashes h limit = contains_loop hashes h limit 0"

definition tipsAgree :: "block_meta option \<Rightarrow> block_meta option \<Rightarrow> int \<Rightarrow> hash list \<Rightarrow> hash list \<Rightarrow> bool" where
  "tipsAgree sfTip sqTip depth sfAncestry sqAncestry =
     (case (sfTip, sqTip) of
        (Some sf, Some sq) \<Rightarrow>
          if Hash sf = Hash sq then True
          else
            (let depth = (if depth < 1 then 1 else depth)
             in if Height sf < Height sq \<and> i32 (Height sq - Height sf) \<le> depth
                then containsWithin sqAncestry (Hash sf) (depth + 1)
                else if Height sq < Height sf \<and> i32 (Height sf - Height sq) \<le> depth
                then containsWithin sfAncestry (Hash sq) (depth + 1)
                else False)
      | _ \<Rightarrow> False)"

definition invalidTipMatchesSQ :: "hash list \<Rightarrow> hash \<Rightarrow> chain_tip \<Rightarrow> bool" where
  "invalidTipMatchesSQ sqAncestry sqTip tip =
     (if \<not> Rejected tip then False
      else if TipHash tip = sqTip then True
      else
        (let limit = (if BranchLen tip < 1 then 1 else BranchLen tip)
         in containsWithin sqAncestry (TipHash tip) limit))"

definition splitEvidence :: "sstate \<Rightarrow> observation \<Rightarrow> bool \<times> bool \<times> bool" where
  "splitEvidence s obs =
     (if (case s_SQTip s of
            None \<Rightarrow> False
          | Some sq \<Rightarrow> list_ex (invalidTipMatchesSQ (o_SQAncestry obs) (Hash sq)) (o_SFTips obs))
      then (True, False, False)
      else
        (let depth = (if o_SplitConfirmDepth obs < 1 then 1 else o_SplitConfirmDepth obs)
         in if (case (o_ForkCandidate obs, s_SFTip s, s_SQTip s) of
                  (Some c, Some sf, Some sq) \<Rightarrow>
                    depth \<le> divergedDepth (Height sf) (Height c) \<and> depth \<le> divergedDepth (Height sq) (Height c)
                | _ \<Rightarrow> False)
            then (False, True, False)
            else if o_SplitConfirmSecs obs \<le> 0 \<or> s_ForkCandidateSince s = 0
                    \<or> i64 (o_At obs - s_ForkCandidateSince s) < o_SplitConfirmSecs obs
            then (False, False, False)
            else
              (case s_ForkCandidate s of
                 None \<Rightarrow> (False, False, False)
               | Some c \<Rightarrow>
                   (let lead = divergedDepth (tipHeight (s_SFTip s)) (Height c);
                        d = divergedDepth (tipHeight (s_SQTip s)) (Height c);
                        lead = (if lead < d then d else lead)
                    in (False, False, depth \<le> lead)))))"

section \<open>The transition table\<close>

definition stalledBranch :: "sstate \<Rightarrow> observation \<Rightarrow> phase \<Rightarrow> bool" where
  "stalledBranch s obs candidate =
     (case candidate of
        PhaseResolvedSFWon \<Rightarrow> Stalled (s_SQCadence s) (o_At obs) (s_LastSQBlockAt s) (o_StallFactor obs)
      | PhaseResolvedSQWon \<Rightarrow> Stalled (s_SFCadence s) (o_At obs) (s_LastSFBlockAt s) (o_StallFactor obs)
      | _ \<Rightarrow> False)"

definition decideFromUnarmed :: "sstate \<Rightarrow> observation \<Rightarrow> phase \<times> string" where
  "decideFromUnarmed s obs =
     (if \<not> Usable (s_SFHealth s) \<or> \<not> Usable (s_SQHealth s) then (PhaseUnarmed, '''')
      else if tipsAgree (s_SFTip s) (s_SQTip s) (o_SplitConfirmDepth obs) (o_SFAncestry obs) (o_SQAncestry obs)
      then (PhaseArmed, ''both chains can be seen and they agree'')
      else
        (let (rejected, diverged, sustained) = splitEvidence s obs
         in if rejected then (PhaseSplit, ''your node had already rejected a block from the other chain'')
            else if diverged then (PhaseSplit, ''the chains had already separated before Forktower started'')
            else if sustained
            then (PhaseSplit, ''the chains have been holding different blocks for long enough that this is not an ordinary reorganisation'')
            else (PhaseUnarmed, '''')))"

definition decideFromArmed :: "sstate \<Rightarrow> observation \<Rightarrow> phase \<times> string" where
  "decideFromArmed s obs =
     (if tipsAgree (s_SFTip s) (s_SQTip s) (o_SplitConfirmDepth obs) (o_SFAncestry obs) (o_SQAncestry obs)
      then (PhaseArmed, '''')
      else
        (let (rejected, diverged, sustained) = splitEvidence s obs
         in if rejected then (PhaseSplit, ''your node has rejected a block from the other chain'')
            else if diverged then (PhaseSplit, ''both chains have built past the point where they separated'')
            else if sustained
            then (PhaseSplit, ''the chains have gone on holding different blocks for long enough that this is not an ordinary reorganisation'')
            else (PhaseArmed, '''')))"

definition decideFromSplit :: "sstate \<Rightarrow> observation \<Rightarrow> phase \<times> string" where
  "decideFromSplit s obs =
     (let sfStalled = stalledBranch s obs PhaseResolvedSQWon;
          sqStalled = stalledBranch s obs PhaseResolvedSFWon
      in if sqStalled \<and> \<not> sfStalled then (PhaseResolving, ''the other chain has stopped producing blocks'')
         else if sfStalled \<and> \<not> sqStalled
         then (PhaseResolving, ''the chain your node follows has stopped producing blocks'')
         else (PhaseSplit, ''''))"

definition decidePhase :: "sstate \<Rightarrow> observation \<Rightarrow> phase \<times> string" where
  "decidePhase s obs =
     (if s_Phase s = PhaseResolving \<and> Resolved (o_OperatorOutcome obs)
      then (o_OperatorOutcome obs, ''an operator recorded which chain persisted'')
      else
        (case s_Phase s of
           PhaseUnarmed \<Rightarrow> decideFromUnarmed s obs
         | PhaseArmed \<Rightarrow> decideFromArmed s obs
         | PhaseSplit \<Rightarrow> decideFromSplit s obs
         | PhaseResolving \<Rightarrow>
             if \<not> stalledBranch s obs (s_ResolvingCandidate s)
             then (PhaseSplit, ''the chain that had gone quiet is producing blocks again'')
             else (PhaseResolving, '''')
         | PhaseResolvedSFWon \<Rightarrow> (s_Phase s, '''')
         | PhaseResolvedSQWon \<Rightarrow> (s_Phase s, '''')
         | PhaseOther _ \<Rightarrow> (PhaseUnarmed, ''the recorded state was not recognised, so it was reset'')))"

definition resolvingCandidate :: "sstate \<Rightarrow> observation \<Rightarrow> phase" where
  "resolvingCandidate s obs =
     (if Stalled (s_SQCadence s) (o_At obs) (s_LastSQBlockAt s) (o_StallFactor obs)
      then PhaseResolvedSFWon else PhaseResolvedSQWon)"

definition applyPhase :: "sstate \<Rightarrow> phase \<Rightarrow> observation \<Rightarrow> sstate" where
  "applyPhase s to obs =
     (let s1 =
        (case to of
           PhaseSplit \<Rightarrow>
             (let s0 =
                (if s_Fork s = None \<and> s_ForkCandidate s \<noteq> None
                 then s\<lparr>s_Fork := s_ForkCandidate s, s_DetectedAt := o_At obs\<rparr>
                 else if s_Fork s = None \<and> o_ForkCandidate obs \<noteq> None
                 then s\<lparr>s_Fork := o_ForkCandidate obs, s_DetectedAt := o_At obs\<rparr>
                 else if s_Fork s = None then s\<lparr>s_DetectedAt := o_At obs\<rparr>
                 else s)
              in s0\<lparr>s_ResolvingCandidate := PhaseOther ''''\<rparr>)
         | PhaseResolving \<Rightarrow> s\<lparr>s_ResolvingCandidate := resolvingCandidate s obs\<rparr>
         | _ \<Rightarrow> s)
      in s1\<lparr>s_Phase := to\<rparr>)"

definition Step :: "sstate \<Rightarrow> observation \<Rightarrow> sstate \<times> effect list" where
  "Step prev obs =
     (let (next1, e1) = trackHealth prev obs;
          next2 = trackDisagreement next1 obs;
          next3 = trackForkCandidate next2 obs;
          (next4, e2) = trackBlocks next3 obs;
          (next5, e3) = trackTrustAnchor next4 obs;
          next6 = next5\<lparr>s_SplitSuspected := suspectSplit next5 obs\<rparr>;
          effects = e1 @ e2 @ e3;
          (newPhase, detail) = decidePhase next6 obs
      in if newPhase \<noteq> s_Phase next6
         then (applyPhase next6 newPhase obs,
               effects @ [EffectPersistState, EffectPhaseChanged (s_Phase next6) newPhase detail])
         else (next6, effects))"

section \<open>What one tick changes\<close>

text \<open>
  \<open>tracked\<close> is the state just before the phase is decided and \<open>tracking_effects\<close> what was
  reported up to there; \<open>Step\<close> is the two of them followed by the phase decision.
\<close>

definition tracked :: "sstate \<Rightarrow> observation \<Rightarrow> sstate" where
  "tracked s obs =
     (let s5 = fst (trackTrustAnchor (fst (trackBlocks (trackForkCandidate
                 (trackDisagreement (fst (trackHealth s obs)) obs) obs) obs)) obs)
      in s5\<lparr>s_SplitSuspected := suspectSplit s5 obs\<rparr>)"

definition tracking_effects :: "sstate \<Rightarrow> observation \<Rightarrow> effect list" where
  "tracking_effects s obs =
     (let s3 = trackForkCandidate (trackDisagreement (fst (trackHealth s obs)) obs) obs
      in snd (trackHealth s obs) @ snd (trackBlocks s3 obs)
           @ snd (trackTrustAnchor (fst (trackBlocks s3 obs)) obs))"

lemma Step_eq:
  "Step s obs =
     (let t = tracked s obs; p = decidePhase t obs
      in if fst p \<noteq> s_Phase t
         then (applyPhase t (fst p) obs,
               tracking_effects s obs @ [EffectPersistState, EffectPhaseChanged (s_Phase t) (fst p) (snd p)])
         else (t, tracking_effects s obs))"
  by (simp add: Step_def tracked_def tracking_effects_def Let_def case_prod_beta)

lemma trackHealth_frame:
  "fst (trackHealth s obs) =
     s\<lparr>s_SFHealth := s_SFHealth (fst (trackHealth s obs)),
       s_SQHealth := s_SQHealth (fst (trackHealth s obs)),
       s_BothDownSince := s_BothDownSince (fst (trackHealth s obs))\<rparr>"
  by (simp add: trackHealth_def Let_def)

lemma trackDisagreement_frame:
  "trackDisagreement s obs =
     s\<lparr>s_Disagreement := s_Disagreement (trackDisagreement s obs),
       s_DisagreementSince := s_DisagreementSince (trackDisagreement s obs)\<rparr>"
  by (simp add: trackDisagreement_def Let_def split: option.split)

lemma trackForkCandidate_frame:
  "trackForkCandidate s obs =
     s\<lparr>s_ForkCandidate := s_ForkCandidate (trackForkCandidate s obs),
       s_ForkCandidateSince := s_ForkCandidateSince (trackForkCandidate s obs)\<rparr>"
  by (simp add: trackForkCandidate_def Let_def split: option.split)

lemma trackBlocks_frame:
  "fst (trackBlocks s obs) =
     s\<lparr>s_SFTip := s_SFTip (fst (trackBlocks s obs)), s_SQTip := s_SQTip (fst (trackBlocks s obs)),
       s_SFCadence := s_SFCadence (fst (trackBlocks s obs)), s_SQCadence := s_SQCadence (fst (trackBlocks s obs)),
       s_LastSFBlockAt := s_LastSFBlockAt (fst (trackBlocks s obs)),
       s_LastSQBlockAt := s_LastSQBlockAt (fst (trackBlocks s obs))\<rparr>"
  by (simp add: trackBlocks_def Let_def case_prod_beta)

lemma trackTrustAnchor_frame:
  "fst (trackTrustAnchor s obs) = s\<lparr>s_TrustAnchor := s_TrustAnchor (fst (trackTrustAnchor s obs))\<rparr>"
  by (simp add: trackTrustAnchor_def Let_def case_prod_beta)

text \<open>Each field of \<open>tracked\<close> comes from the one function that maintains it.\<close>

lemma trackHealth_fields [simp]:
  "s_Phase (fst (trackHealth s obs)) = s_Phase s"
  "s_Fork (fst (trackHealth s obs)) = s_Fork s"
  "s_ForkCandidate (fst (trackHealth s obs)) = s_ForkCandidate s"
  "s_ForkCandidateSince (fst (trackHealth s obs)) = s_ForkCandidateSince s"
  "s_Disagreement (fst (trackHealth s obs)) = s_Disagreement s"
  "s_DisagreementSince (fst (trackHealth s obs)) = s_DisagreementSince s"
  "s_DetectedAt (fst (trackHealth s obs)) = s_DetectedAt s"
  "s_SFTip (fst (trackHealth s obs)) = s_SFTip s"
  "s_SQTip (fst (trackHealth s obs)) = s_SQTip s"
  "s_SFCadence (fst (trackHealth s obs)) = s_SFCadence s"
  "s_SQCadence (fst (trackHealth s obs)) = s_SQCadence s"
  "s_LastSFBlockAt (fst (trackHealth s obs)) = s_LastSFBlockAt s"
  "s_LastSQBlockAt (fst (trackHealth s obs)) = s_LastSQBlockAt s"
  "s_ResolvingCandidate (fst (trackHealth s obs)) = s_ResolvingCandidate s"
  by (subst trackHealth_frame, simp)+

lemma trackDisagreement_fields [simp]:
  "s_Phase (trackDisagreement s obs) = s_Phase s"
  "s_Fork (trackDisagreement s obs) = s_Fork s"
  "s_ForkCandidate (trackDisagreement s obs) = s_ForkCandidate s"
  "s_ForkCandidateSince (trackDisagreement s obs) = s_ForkCandidateSince s"
  "s_DetectedAt (trackDisagreement s obs) = s_DetectedAt s"
  "s_SFTip (trackDisagreement s obs) = s_SFTip s"
  "s_SQTip (trackDisagreement s obs) = s_SQTip s"
  "s_SFCadence (trackDisagreement s obs) = s_SFCadence s"
  "s_SQCadence (trackDisagreement s obs) = s_SQCadence s"
  "s_LastSFBlockAt (trackDisagreement s obs) = s_LastSFBlockAt s"
  "s_LastSQBlockAt (trackDisagreement s obs) = s_LastSQBlockAt s"
  "s_ResolvingCandidate (trackDisagreement s obs) = s_ResolvingCandidate s"
  by (subst trackDisagreement_frame, simp)+

lemma trackForkCandidate_fields [simp]:
  "s_Phase (trackForkCandidate s obs) = s_Phase s"
  "s_Fork (trackForkCandidate s obs) = s_Fork s"
  "s_Disagreement (trackForkCandidate s obs) = s_Disagreement s"
  "s_DisagreementSince (trackForkCandidate s obs) = s_DisagreementSince s"
  "s_DetectedAt (trackForkCandidate s obs) = s_DetectedAt s"
  "s_SFTip (trackForkCandidate s obs) = s_SFTip s"
  "s_SQTip (trackForkCandidate s obs) = s_SQTip s"
  "s_SFCadence (trackForkCandidate s obs) = s_SFCadence s"
  "s_SQCadence (trackForkCandidate s obs) = s_SQCadence s"
  "s_LastSFBlockAt (trackForkCandidate s obs) = s_LastSFBlockAt s"
  "s_LastSQBlockAt (trackForkCandidate s obs) = s_LastSQBlockAt s"
  "s_ResolvingCandidate (trackForkCandidate s obs) = s_ResolvingCandidate s"
  by (subst trackForkCandidate_frame, simp)+

lemma trackBlocks_fields [simp]:
  "s_Phase (fst (trackBlocks s obs)) = s_Phase s"
  "s_Fork (fst (trackBlocks s obs)) = s_Fork s"
  "s_ForkCandidate (fst (trackBlocks s obs)) = s_ForkCandidate s"
  "s_ForkCandidateSince (fst (trackBlocks s obs)) = s_ForkCandidateSince s"
  "s_Disagreement (fst (trackBlocks s obs)) = s_Disagreement s"
  "s_DisagreementSince (fst (trackBlocks s obs)) = s_DisagreementSince s"
  "s_DetectedAt (fst (trackBlocks s obs)) = s_DetectedAt s"
  "s_SFHealth (fst (trackBlocks s obs)) = s_SFHealth s"
  "s_SQHealth (fst (trackBlocks s obs)) = s_SQHealth s"
  "s_ResolvingCandidate (fst (trackBlocks s obs)) = s_ResolvingCandidate s"
  by (subst trackBlocks_frame, simp)+

lemma trackTrustAnchor_fields [simp]:
  "s_Phase (fst (trackTrustAnchor s obs)) = s_Phase s"
  "s_Fork (fst (trackTrustAnchor s obs)) = s_Fork s"
  "s_ForkCandidate (fst (trackTrustAnchor s obs)) = s_ForkCandidate s"
  "s_ForkCandidateSince (fst (trackTrustAnchor s obs)) = s_ForkCandidateSince s"
  "s_Disagreement (fst (trackTrustAnchor s obs)) = s_Disagreement s"
  "s_DisagreementSince (fst (trackTrustAnchor s obs)) = s_DisagreementSince s"
  "s_DetectedAt (fst (trackTrustAnchor s obs)) = s_DetectedAt s"
  "s_SFTip (fst (trackTrustAnchor s obs)) = s_SFTip s"
  "s_SQTip (fst (trackTrustAnchor s obs)) = s_SQTip s"
  "s_SFCadence (fst (trackTrustAnchor s obs)) = s_SFCadence s"
  "s_SQCadence (fst (trackTrustAnchor s obs)) = s_SQCadence s"
  "s_LastSFBlockAt (fst (trackTrustAnchor s obs)) = s_LastSFBlockAt s"
  "s_LastSQBlockAt (fst (trackTrustAnchor s obs)) = s_LastSQBlockAt s"
  "s_SFHealth (fst (trackTrustAnchor s obs)) = s_SFHealth s"
  "s_SQHealth (fst (trackTrustAnchor s obs)) = s_SQHealth s"
  "s_ResolvingCandidate (fst (trackTrustAnchor s obs)) = s_ResolvingCandidate s"
  by (subst trackTrustAnchor_frame, simp)+

lemma tracked_fields [simp]:
  "s_Phase (tracked s obs) = s_Phase s"
  "s_Fork (tracked s obs) = s_Fork s"
  "s_DetectedAt (tracked s obs) = s_DetectedAt s"
  "s_ResolvingCandidate (tracked s obs) = s_ResolvingCandidate s"
  by (simp_all add: tracked_def Let_def)

lemma tracked_candidate:
  "s_ForkCandidate (tracked s obs) = s_ForkCandidate (trackForkCandidate s obs)"
  "s_ForkCandidateSince (tracked s obs) = s_ForkCandidateSince (trackForkCandidate s obs)"
  by (simp_all add: tracked_def Let_def trackForkCandidate_def split: option.split)

lemma tracked_disagreement:
  "s_Disagreement (tracked s obs) = s_Disagreement (trackDisagreement s obs)"
  "s_DisagreementSince (tracked s obs) = s_DisagreementSince (trackDisagreement s obs)"
  by (simp_all add: tracked_def Let_def trackDisagreement_def split: option.split)

lemma applyPhase_fields [simp]:
  "s_Phase (applyPhase s p obs) = p"
  "s_ForkCandidate (applyPhase s p obs) = s_ForkCandidate s"
  "s_ForkCandidateSince (applyPhase s p obs) = s_ForkCandidateSince s"
  "s_Disagreement (applyPhase s p obs) = s_Disagreement s"
  "s_DisagreementSince (applyPhase s p obs) = s_DisagreementSince s"
  "s_SplitSuspected (applyPhase s p obs) = s_SplitSuspected s"
  "s_SFTip (applyPhase s p obs) = s_SFTip s"
  "s_SQTip (applyPhase s p obs) = s_SQTip s"
  by (cases p; simp add: applyPhase_def Let_def)+

lemma applyPhase_keeps_fork:
  "s_Fork s = Some f \<Longrightarrow> s_Fork (applyPhase s p obs) = Some f \<and> s_DetectedAt (applyPhase s p obs) = s_DetectedAt s"
  by (cases p) (simp_all add: applyPhase_def Let_def)

lemma Step_phase: "s_Phase (fst (Step s obs)) = fst (decidePhase (tracked s obs) obs)"
  by (simp add: Step_eq Let_def)

lemma Step_fields:
  "s_ForkCandidate (fst (Step s obs)) = s_ForkCandidate (trackForkCandidate s obs)"
  "s_ForkCandidateSince (fst (Step s obs)) = s_ForkCandidateSince (trackForkCandidate s obs)"
  "s_Disagreement (fst (Step s obs)) = s_Disagreement (trackDisagreement s obs)"
  "s_DisagreementSince (fst (Step s obs)) = s_DisagreementSince (trackDisagreement s obs)"
  "s_SplitSuspected (fst (Step s obs)) = s_SplitSuspected (tracked s obs)"
  "s_SFTip (fst (Step s obs)) = s_SFTip (tracked s obs)"
  "s_SQTip (fst (Step s obs)) = s_SQTip (tracked s obs)"
  by (simp_all add: Step_eq Let_def tracked_candidate tracked_disagreement)

section \<open>Legal moves\<close>

text \<open>The transition table of the specification, as a relation on phases.\<close>

inductive moves :: "phase \<Rightarrow> phase \<Rightarrow> bool" where
  stay: "Phase_Valid p \<Longrightarrow> moves p p"
| arm: "moves PhaseUnarmed PhaseArmed"
| split_before: "moves PhaseUnarmed PhaseSplit"
| split_now: "moves PhaseArmed PhaseSplit"
| fade: "moves PhaseSplit PhaseResolving"
| revive: "moves PhaseResolving PhaseSplit"
| conclude: "Resolved p \<Longrightarrow> moves PhaseResolving p"
| restart: "moves (PhaseOther s) PhaseUnarmed"

inductive_simps moves_from [simp]:
  "moves PhaseUnarmed q" "moves PhaseArmed q" "moves PhaseSplit q" "moves PhaseResolving q"
  "moves PhaseResolvedSFWon q" "moves PhaseResolvedSQWon q" "moves (PhaseOther x) q"

fun believed :: "phase \<Rightarrow> bool" where
  "believed PhaseSplit = True"
| "believed PhaseResolving = True"
| "believed PhaseResolvedSFWon = True"
| "believed PhaseResolvedSQWon = True"
| "believed PhaseUnarmed = False"
| "believed PhaseArmed = False"
| "believed (PhaseOther _) = False"

lemma Resolved_believed: "Resolved p \<Longrightarrow> believed p"
  by (cases p) simp_all

lemma decidePhase_moves: "moves (s_Phase s) (fst (decidePhase s obs))"
  by (cases "s_Phase s")
     (auto simp: decidePhase_def decideFromUnarmed_def decideFromArmed_def decideFromSplit_def
        Let_def case_prod_beta)

lemma moves_believed: "moves p q \<Longrightarrow> believed p \<Longrightarrow> believed q"
  by (induction rule: moves.induct) (auto dest: Resolved_believed)

definition stp :: "sstate \<Rightarrow> observation \<Rightarrow> sstate" where
  "stp s obs = fst (Step s obs)"

lemma phase_valid_run: "Phase_Valid (s_Phase (foldl stp NewState os))"
proof -
  have "Phase_Valid (s_Phase t) \<Longrightarrow> Phase_Valid (s_Phase (stp t ob))" for t ob
    using decidePhase_moves [of "tracked t ob" ob]
    by (cases "s_Phase t"; cases "s_Phase (stp t ob)") (auto simp: stp_def Step_phase)
  then show ?thesis by (induction os rule: rev_induct) (simp_all add: NewState_def)
qed

definition split_kept :: "sstate \<Rightarrow> sstate \<Rightarrow> bool" where
  "split_kept s t \<longleftrightarrow>
     (believed (s_Phase s) \<longrightarrow> believed (s_Phase t)) \<and>
     (s_Fork s \<noteq> None \<longrightarrow> s_Fork t = s_Fork s \<and> s_DetectedAt t = s_DetectedAt s) \<and>
     (Resolved (s_Phase s) \<longrightarrow> s_Phase t = s_Phase s)"

lemma Step_moves: "moves (s_Phase s) (s_Phase (stp s obs))"
  using decidePhase_moves [of "tracked s obs" obs] by (simp add: stp_def Step_phase)

lemma Step_split_kept: "split_kept s (stp s obs)"
proof -
  have "s_Fork s \<noteq> None \<Longrightarrow> s_Fork (stp s obs) = s_Fork s \<and> s_DetectedAt (stp s obs) = s_DetectedAt s"
    by (auto simp: stp_def Step_eq Let_def applyPhase_keeps_fork)
  moreover have "Resolved (s_Phase s) \<Longrightarrow> s_Phase (stp s obs) = s_Phase s"
    using Step_moves [of s obs] by (cases "s_Phase s") auto
  ultimately show ?thesis
    using moves_believed [OF Step_moves] by (auto simp: split_kept_def)
qed

interpretation sentinel: ordered_machine stp "\<lambda>_. True" "\<lambda>_. True" split_kept
  by unfold_locales (auto simp: Step_split_kept, auto simp: split_kept_def)

section \<open>The evidence a split is declared on\<close>

lemma contains_loop_take: "0 \<le> i \<Longrightarrow> contains_loop hs h limit i \<longleftrightarrow> h \<in> set (take (nat (limit - i)) hs)"
proof (induction hs arbitrary: i)
  case (Cons c cs)
  show ?case
  proof (cases "limit \<le> i")
    case False
    then have "nat (limit - i) = Suc (nat (limit - (i + 1)))" by linarith
    then show ?thesis using Cons False by auto
  qed simp
qed simp

lemma containsWithin_take: "containsWithin hs h limit \<longleftrightarrow> h \<in> set (take (nat limit) hs)"
  by (simp add: containsWithin_def contains_loop_take)

text \<open>
  What the specification calls evidence, in terms of the tips and the standing disagreement:
  a block of the watched chain rejected by the user's node, both chains past the separation
  point, or one chain past it for the whole confirmation time.
\<close>

definition rejected_block :: "sstate \<Rightarrow> observation \<Rightarrow> bool" where
  "rejected_block t obs \<longleftrightarrow>
     (\<exists>sq tip. s_SQTip t = Some sq \<and> tip \<in> set (o_SFTips obs) \<and> Status tip = TipInvalid
        \<and> (TipHash tip = Hash sq \<or> TipHash tip \<in> set (take (nat (max 1 (BranchLen tip))) (o_SQAncestry obs))))"

definition diverged_far :: "sstate \<Rightarrow> observation \<Rightarrow> bool" where
  "diverged_far t obs \<longleftrightarrow>
     (\<exists>c sf sq. o_ForkCandidate obs = Some c \<and> s_SFTip t = Some sf \<and> s_SQTip t = Some sq
        \<and> max 1 (o_SplitConfirmDepth obs) \<le> divergedDepth (Height sf) (Height c)
        \<and> max 1 (o_SplitConfirmDepth obs) \<le> divergedDepth (Height sq) (Height c))"

definition diverged_sustained :: "sstate \<Rightarrow> observation \<Rightarrow> bool" where
  "diverged_sustained t obs \<longleftrightarrow>
     (\<exists>c. s_ForkCandidate t = Some c \<and> s_ForkCandidateSince t \<noteq> 0
        \<and> 0 < o_SplitConfirmSecs obs
        \<and> o_SplitConfirmSecs obs \<le> i64 (o_At obs - s_ForkCandidateSince t)
        \<and> (max 1 (o_SplitConfirmDepth obs) \<le> divergedDepth (tipHeight (s_SFTip t)) (Height c)
           \<or> max 1 (o_SplitConfirmDepth obs) \<le> divergedDepth (tipHeight (s_SQTip t)) (Height c)))"

lemma invalidTipMatchesSQ_iff:
  "invalidTipMatchesSQ anc sq tip \<longleftrightarrow>
     Status tip = TipInvalid \<and> (TipHash tip = sq \<or> TipHash tip \<in> set (take (nat (max 1 (BranchLen tip))) anc))"
  by (auto simp: invalidTipMatchesSQ_def Rejected_def Let_def containsWithin_take max_def)

lemma splitEvidence_rejected: "fst (splitEvidence t obs) \<longleftrightarrow> rejected_block t obs"
  by (auto simp: splitEvidence_def Let_def rejected_block_def list_ex_iff invalidTipMatchesSQ_iff
      split: option.splits)

lemma splitEvidence_any:
  "(case splitEvidence t obs of (r, f, u) \<Rightarrow> r \<or> f \<or> u) \<longleftrightarrow>
     rejected_block t obs \<or> diverged_far t obs \<or> diverged_sustained t obs"
proof (cases "rejected_block t obs")
  case True
  then show ?thesis using splitEvidence_rejected [of t obs] by (auto simp: case_prod_beta)
next
  case False
  then have n: "\<not> (case s_SQTip t of None \<Rightarrow> False
          | Some sq \<Rightarrow> list_ex (invalidTipMatchesSQ (o_SQAncestry obs) (Hash sq)) (o_SFTips obs))"
    by (auto simp: rejected_block_def list_ex_iff invalidTipMatchesSQ_iff split: option.splits)
  let ?far = "case (o_ForkCandidate obs, s_SFTip t, s_SQTip t) of
      (Some c, Some sf, Some sq) \<Rightarrow>
        max 1 (o_SplitConfirmDepth obs) \<le> divergedDepth (Height sf) (Height c)
        \<and> max 1 (o_SplitConfirmDepth obs) \<le> divergedDepth (Height sq) (Height c)
    | _ \<Rightarrow> False"
  have far: "?far \<longleftrightarrow> diverged_far t obs"
    by (simp add: diverged_far_def split: option.split)
  have d: "(if o_SplitConfirmDepth obs < 1 then 1 else o_SplitConfirmDepth obs) = max 1 (o_SplitConfirmDepth obs)"
    by (simp add: max_def)
  have e: "splitEvidence t obs =
     (if diverged_far t obs then (False, True, False)
      else (False, False, diverged_sustained t obs))"
    unfolding splitEvidence_def if_not_P [OF n] d Let_def far
    by (cases "s_ForkCandidate t") (auto simp: diverged_sustained_def not_le not_less)
  show ?thesis using False by (simp add: e)
qed

lemma splitEvidence_far: "\<not> fst (snd (splitEvidence t obs)) \<Longrightarrow> rejected_block t obs \<or> \<not> diverged_far t obs"
  by (auto simp: splitEvidence_def Let_def rejected_block_def diverged_far_def max_def
      list_ex_iff invalidTipMatchesSQ_iff split: option.splits if_splits)

lemma Step_to_split:
  assumes "s_Phase s = PhaseArmed \<or> s_Phase s = PhaseUnarmed"
  shows "s_Phase (stp s obs) = PhaseSplit \<longleftrightarrow>
     (s_Phase s = PhaseUnarmed \<longrightarrow> Usable (s_SFHealth (tracked s obs)) \<and> Usable (s_SQHealth (tracked s obs)))
     \<and> \<not> tipsAgree (s_SFTip (tracked s obs)) (s_SQTip (tracked s obs)) (o_SplitConfirmDepth obs)
           (o_SFAncestry obs) (o_SQAncestry obs)
     \<and> (rejected_block (tracked s obs) obs \<or> diverged_far (tracked s obs) obs
        \<or> diverged_sustained (tracked s obs) obs)"
proof -
  obtain r f u where e: "splitEvidence (tracked s obs) obs = (r, f, u)" by (metis prod_cases3)
  have v: "rejected_block (tracked s obs) obs \<or> diverged_far (tracked s obs) obs
      \<or> diverged_sustained (tracked s obs) obs \<longleftrightarrow> r \<or> f \<or> u"
    using splitEvidence_any [of "tracked s obs" obs] by (simp add: e)
  show ?thesis
    using assms by (elim disjE) (auto simp add: stp_def Step_phase decidePhase_def decideFromArmed_def
        decideFromUnarmed_def e v)
qed

section \<open>The separation clock\<close>

text \<open>A tick that can tell whether both chains have built past a common separation point.\<close>

fun readable :: "observation \<Rightarrow> bool" where
  "readable obs \<longleftrightarrow> o_SFTip obs \<noteq> None \<and> o_SQTip obs \<noteq> None \<and> \<not> o_ForkSearchFailed obs"

definition mutual_at :: "hash \<Rightarrow> observation \<Rightarrow> bool" where
  "mutual_at h obs \<longleftrightarrow>
     (\<exists>sf sq c. o_SFTip obs = Some sf \<and> o_SQTip obs = Some sq \<and> o_ForkCandidate obs = Some c
        \<and> Hash c = h \<and> Height c < Height sf \<and> Height c < Height sq)"

text \<open>The candidate has stood since one tick of the trace, with no readable tick against it.\<close>

definition stood_since :: "observation list \<Rightarrow> hash \<Rightarrow> int \<Rightarrow> bool" where
  "stood_since os h since \<longleftrightarrow>
     (\<exists>pre obs post. os = pre @ obs # post \<and> o_At obs = since \<and> readable obs \<and> mutual_at h obs
        \<and> list_all (\<lambda>ob. readable ob \<longrightarrow> mutual_at h ob) post)"

lemma stood_since_snoc:
  assumes "stood_since os h since" and "readable ob \<longrightarrow> mutual_at h ob"
  shows "stood_since (os @ [ob]) h since"
proof -
  from assms(1) obtain pre x post where "os = pre @ x # post" "o_At x = since" "readable x" "mutual_at h x"
    "list_all (\<lambda>o'. readable o' \<longrightarrow> mutual_at h o') post"
    unfolding stood_since_def by blast
  with assms(2) have "os @ [ob] = pre @ x # (post @ [ob])"
    "list_all (\<lambda>o'. readable o' \<longrightarrow> mutual_at h o') (post @ [ob])" by (simp_all del: readable.simps)
  with \<open>o_At x = since\<close> \<open>readable x\<close> \<open>mutual_at h x\<close> show ?thesis
    unfolding stood_since_def by blast
qed

lemma stood_since_now:
  assumes "readable ob" "mutual_at h ob"
  shows "stood_since (os @ [ob]) h (o_At ob)"
  unfolding stood_since_def using assms by (intro exI [of _ os] exI [of _ ob] exI [of _ "[]"]) simp

definition clock_sound :: "observation list \<Rightarrow> sstate \<Rightarrow> bool" where
  "clock_sound os s \<longleftrightarrow>
     (case s_ForkCandidate s of
        None \<Rightarrow> s_ForkCandidateSince s = 0
      | Some c \<Rightarrow> stood_since os (Hash c) (s_ForkCandidateSince s))"

lemma trackForkCandidate_clock:
  assumes "clock_sound os s"
  shows "clock_sound (os @ [obs]) (trackForkCandidate s obs)"
proof (cases "readable obs")
  case False
  then have "trackForkCandidate s obs = s"
    by (auto simp: trackForkCandidate_def split: option.split)
  then show ?thesis
    using assms False stood_since_snoc [of os _ _ obs] by (auto simp: clock_sound_def split: option.splits)
next
  case True
  then obtain sf sq where o: "o_SFTip obs = Some sf" "o_SQTip obs = Some sq" "\<not> o_ForkSearchFailed obs"
    by auto
  show ?thesis
  proof (cases "\<exists>h. mutual_at h obs")
    case False
    then show ?thesis using o
      by (auto simp: clock_sound_def trackForkCandidate_def mutual_at_def split: option.split)
  next
    case m: True
    then obtain c where c: "o_ForkCandidate obs = Some c" "Height c < Height sf" "Height c < Height sq"
      using o by (auto simp: mutual_at_def)
    then have mc: "mutual_at (Hash c) obs" using o by (auto simp: mutual_at_def)
    have cand: "s_ForkCandidate (trackForkCandidate s obs) = Some c"
      using o c by (simp add: trackForkCandidate_def Let_def)
    show ?thesis
    proof (cases "s_ForkCandidateSince (trackForkCandidate s obs) = o_At obs")
      case True
      then show ?thesis using stood_since_now [OF \<open>readable obs\<close> mc]
        by (simp add: clock_sound_def cand)
    next
      case False
      then obtain c0 where "s_ForkCandidate s = Some c0" "Hash c0 = Hash c"
        "s_ForkCandidateSince (trackForkCandidate s obs) = s_ForkCandidateSince s"
        using o c by (auto simp: trackForkCandidate_def Let_def split: if_splits option.splits)
      then show ?thesis using assms mc stood_since_snoc [of os "Hash c" _ obs]
        by (simp add: clock_sound_def cand)
    qed
  qed
qed

lemma stp_fields:
  "s_ForkCandidate (stp s obs) = s_ForkCandidate (trackForkCandidate s obs)"
  "s_ForkCandidateSince (stp s obs) = s_ForkCandidateSince (trackForkCandidate s obs)"
  "s_Disagreement (stp s obs) = s_Disagreement (trackDisagreement s obs)"
  "s_DisagreementSince (stp s obs) = s_DisagreementSince (trackDisagreement s obs)"
  "s_SplitSuspected (stp s obs) = s_SplitSuspected (tracked s obs)"
  "s_SFTip (stp s obs) = s_SFTip (tracked s obs)"
  "s_SQTip (stp s obs) = s_SQTip (tracked s obs)"
  by (simp_all add: stp_def Step_fields)

lemma run_clock: "clock_sound os (foldl stp NewState os)"
proof (induction os rule: rev_induct)
  case Nil
  show ?case by (simp add: clock_sound_def NewState_def)
next
  case (snoc ob os)
  then show ?case
    using trackForkCandidate_clock [OF snoc, of ob]
    by (simp add: clock_sound_def stp_fields split: option.splits)
qed

lemma sustained_stood:
  assumes "diverged_sustained (tracked s ob) ob" and "clock_sound os (trackForkCandidate s ob)"
  shows "\<exists>h since. stood_since os h since \<and> since \<noteq> 0 \<and> 0 < o_SplitConfirmSecs ob
    \<and> o_SplitConfirmSecs ob \<le> i64 (o_At ob - since)"
proof -
  from assms(1) obtain c where "s_ForkCandidate (tracked s ob) = Some c"
    "s_ForkCandidateSince (tracked s ob) \<noteq> 0" "0 < o_SplitConfirmSecs ob"
    "o_SplitConfirmSecs ob \<le> i64 (o_At ob - s_ForkCandidateSince (tracked s ob))"
    unfolding diverged_sustained_def by blast
  moreover from this(1) assms(2) have "stood_since os (Hash c) (s_ForkCandidateSince (tracked s ob))"
    by (simp add: clock_sound_def tracked_candidate)
  ultimately show ?thesis by blast
qed

section \<open>The trust anchor\<close>

text \<open>The bounds the anchor is taken from, the negative ones dropped.\<close>

definition anchor_bounds :: "observation \<Rightarrow> block_ref option \<Rightarrow> int list" where
  "anchor_bounds obs fork = filter (\<lambda>b. 0 \<le> b)
     ((if 0 < o_DivergenceHeight obs then [o_DivergenceHeight obs - 1] else [])
      @ (if snd (earliestRejectedHeight (o_SFTips obs)) then [fst (earliestRejectedHeight (o_SFTips obs)) - 1] else [])
      @ (case fork of Some f \<Rightarrow> [Height f] | None \<Rightarrow> [])
      @ (case o_SFTip obs of
           Some t \<Rightarrow> if 0 < o_ReorgMargin obs then [Height t - o_ReorgMargin obs] else []
         | None \<Rightarrow> []))"

definition anchor_inputs_ok :: "observation \<Rightarrow> bool" where
  "anchor_inputs_ok obs \<longleftrightarrow>
     is_i32 (o_DivergenceHeight obs) \<and> is_i32 (o_ReorgMargin obs)
     \<and> (case o_SFTip obs of Some t \<Rightarrow> 0 \<le> Height t \<and> is_i32 (Height t) | None \<Rightarrow> True)"

lemma rejected_loop_range:
  "0 \<le> lowest \<Longrightarrow> lowest < 2 ^ 31 \<Longrightarrow>
   0 \<le> fst (rejected_loop ts found lowest) \<and> fst (rejected_loop ts found lowest) < 2 ^ 31"
proof (induction ts arbitrary: found lowest)
  case (Cons t ts)
  have "i32 (TipHeight t - BranchLen t) < 2 ^ 31"
    using is_i32_i32 by (simp add: is_i32_def)
  then show ?case using Cons by (auto simp: Let_def)
qed simp

lemma earliestRejectedHeight_range:
  "0 \<le> fst (earliestRejectedHeight ts)" "fst (earliestRejectedHeight ts) < 2147483648"
  using rejected_loop_range [of 0 ts False] by (simp_all add: earliestRejectedHeight_def)

text \<open>Folding bounds in one at a time keeps the least of the non-negative ones.\<close>

definition least_of :: "int list \<Rightarrow> int" where
  "least_of bs = fold (\<lambda>b a. consider_bound a b) bs (- 1)"

definition least_inv :: "int \<Rightarrow> int list \<Rightarrow> bool" where
  "least_inv a bs \<longleftrightarrow> a = - 1 \<and> (\<forall>b \<in> set bs. b < 0)
     \<or> a \<in> set bs \<and> 0 \<le> a \<and> (\<forall>b \<in> set bs. 0 \<le> b \<longrightarrow> a \<le> b)"

lemma consider_bound_least: "least_inv a bs \<Longrightarrow> least_inv (consider_bound a c) (bs @ [c])"
  by (fastforce simp: consider_bound_def least_inv_def)

lemma least_of_min: "least_inv (least_of bs) bs"
  by (induction bs rule: rev_induct) (simp_all add: least_of_def consider_bound_least, simp add: least_inv_def)

lemma least_inv_Min:
  assumes "least_inv a bs"
  shows "(if a = - 1 then (0, False) else (if a < 0 then 0 else a, True)) =
    (if filter (\<lambda>b. 0 \<le> b) bs = [] then (0, False) else (Min (set (filter (\<lambda>b. 0 \<le> b) bs)), True))"
proof (cases "a = - 1")
  case True
  with assms show ?thesis by (auto simp: least_inv_def filter_empty_conv not_le)
next
  case False
  with assms have a: "a \<in> set bs" "0 \<le> a" "\<forall>b \<in> set bs. 0 \<le> b \<longrightarrow> a \<le> b"
    by (auto simp: least_inv_def)
  then have "Min (set (filter (\<lambda>b. 0 \<le> b) bs)) = a" by (intro Min_eqI) auto
  with a False show ?thesis by (auto simp: filter_empty_conv)
qed

lemma TrustAnchorHeight_least:
  fixes fork :: "block_ref option"
  assumes "anchor_inputs_ok obs"
  shows "TrustAnchorHeight obs fork =
    (if anchor_bounds obs fork = [] then (0, False) else (Min (set (anchor_bounds obs fork)), True))"
proof -
  let ?e = "earliestRejectedHeight (o_SFTips obs)"
  let ?raw = "(if 0 < o_DivergenceHeight obs then [o_DivergenceHeight obs - 1] else [])
      @ (if snd ?e then [fst ?e - 1] else [])
      @ (case fork of Some f \<Rightarrow> [Height f] | None \<Rightarrow> [])
      @ (case o_SFTip obs of
           Some t \<Rightarrow> if 0 < o_ReorgMargin obs then [Height t - o_ReorgMargin obs] else []
         | None \<Rightarrow> [])"
  have d: "0 < o_DivergenceHeight obs \<Longrightarrow> i32 (o_DivergenceHeight obs - 1) = o_DivergenceHeight obs - 1"
    using assms by (simp add: anchor_inputs_ok_def is_i32_def)
  have h: "i32 (fst ?e - 1) = fst ?e - 1"
    using earliestRejectedHeight_range [of "o_SFTips obs"] by simp
  have r: "o_SFTip obs = Some t \<Longrightarrow> 0 < o_ReorgMargin obs \<Longrightarrow>
      i32 (Height t - o_ReorgMargin obs) = Height t - o_ReorgMargin obs" for t
    using assms by (simp add: anchor_inputs_ok_def is_i32_def)
  have "TrustAnchorHeight obs fork =
      (if least_of ?raw = - 1 then (0, False) else (if least_of ?raw < 0 then 0 else least_of ?raw, True))"
    by (cases "0 < o_DivergenceHeight obs"; cases fork; cases "o_SFTip obs"; cases "0 < o_ReorgMargin obs")
       (simp_all add: TrustAnchorHeight_def least_of_def case_prod_beta d h r)
  also have "\<dots> = (if filter (\<lambda>b. 0 \<le> b) ?raw = [] then (0, False)
      else (Min (set (filter (\<lambda>b. 0 \<le> b) ?raw)), True))"
    by (rule least_inv_Min [OF least_of_min])
  finally show ?thesis by (simp only: anchor_bounds_def)
qed

section \<open>Properties\<close>

text \<open>Concrete ticks the witnesses run on.\<close>

definition quiet_tick :: "int \<Rightarrow> observation" where
  "quiet_tick now = \<lparr>o_At = now, o_SFTip = None, o_SQTip = None, o_SFHealth = HealthOther '''',
     o_SQHealth = HealthOther '''', o_SFTips = [], o_SQAncestry = [], o_SFAncestry = [],
     o_ForkCandidate = None, o_ForkSearchFailed = False, o_Disagreement = None,
     o_SharedHeightAgreed = False, o_OperatorOutcome = PhaseOther '''', o_SplitConfirmDepth = 2,
     o_SplitConfirmSecs = 3600, o_SplitSuspectSecs = 120, o_StallFactor = 6,
     o_DivergenceHeight = 0, o_ReorgMargin = 6\<rparr>"

definition block_at :: "hash \<Rightarrow> int \<Rightarrow> int \<Rightarrow> block_meta" where
  "block_at h n t = \<lparr>Hash = h, Height = n, PrevHash = 0, Time = t\<rparr>"

definition tips_tick :: "int \<Rightarrow> block_meta \<Rightarrow> block_meta \<Rightarrow> block_ref option \<Rightarrow> observation" where
  "tips_tick now sf sq fork = (quiet_tick now)\<lparr>o_SFTip := Some sf, o_SQTip := Some sq,
     o_SFHealth := HealthOK, o_SQHealth := HealthOK, o_ForkCandidate := fork\<rparr>"

definition agreeing :: observation where
  "agreeing = tips_tick 1000 (block_at 5 100 900) (block_at 5 100 900) None"

definition parted :: "int \<Rightarrow> observation" where
  "parted now = tips_tick now (block_at 6 101 1000) (block_at 7 102 1100) (Some \<lparr>Hash = 5, Height = 100\<rparr>)"

definition parted_far :: "int \<Rightarrow> observation" where
  "parted_far now = tips_tick now (block_at 16 102 1000) (block_at 17 103 1100) (Some \<lparr>Hash = 5, Height = 100\<rparr>)"

lemmas tick_defs = quiet_tick_def block_at_def tips_tick_def agreeing_def parted_def parted_far_def

text \<open>
  C1: once a split has been recorded it is never forgotten: whatever is observed afterwards,
  with or without a separation point on record, the phase stays among split, resolving and the
  recorded outcomes, a separation point that is on record never moves, nor does the moment it
  was detected, and an outcome an operator recorded is never revised.
\<close>

theorem split_remembered:
  assumes "believed (s_Phase s)"
  shows "believed (s_Phase (foldl stp s os))
    \<and> (\<forall>f. s_Fork s = Some f \<longrightarrow>
         s_Fork (foldl stp s os) = Some f \<and> s_DetectedAt (foldl stp s os) = s_DetectedAt s)
    \<and> (Resolved (s_Phase s) \<longrightarrow> s_Phase (foldl stp s os) = s_Phase s)"
  using sentinel.run_le [of os s] assms by (simp add: split_kept_def list_all_iff)

theorem split_remembered_witness:
  "s_Fork (foldl stp (foldl stp NewState [agreeing, parted_far 1100]) [quiet_tick 90000, agreeing])
     = Some \<lparr>Hash = 5, Height = 100\<rparr>
   \<and> believed (s_Phase (foldl stp (NewState\<lparr>s_Phase := PhaseSplit\<rparr>) [quiet_tick 90000, agreeing]))"
proof
  have "s_Phase (foldl stp NewState [agreeing, parted_far 1100]) = PhaseSplit"
    "s_Fork (foldl stp NewState [agreeing, parted_far 1100]) = Some \<lparr>Hash = 5, Height = 100\<rparr>"
    by code_simp+
  then show "s_Fork (foldl stp (foldl stp NewState [agreeing, parted_far 1100]) [quiet_tick 90000, agreeing])
     = Some \<lparr>Hash = 5, Height = 100\<rparr>"
    using split_remembered [of "foldl stp NewState [agreeing, parted_far 1100]"
        "[quiet_tick 90000, agreeing]"] by simp
  show "believed (s_Phase (foldl stp (NewState\<lparr>s_Phase := PhaseSplit\<rparr>) [quiet_tick 90000, agreeing]))"
    using split_remembered [of "NewState\<lparr>s_Phase := PhaseSplit\<rparr>" "[quiet_tick 90000, agreeing]"] by simp
qed

text \<open>
  C2: every tick moves the phase along the transition table, an unrecognised stored phase
  restarts, and from the fresh state every reachable phase is one of the declared ones.
\<close>

theorem phase_moves_legal:
  "moves (s_Phase s) (s_Phase (stp s obs)) \<and> Phase_Valid (s_Phase (foldl stp NewState os))"
  using Step_moves phase_valid_run by blast

text \<open>
  C3: before a split is believed, a tick declares one exactly when the tips do not agree and
  there is evidence: a rejected block of the watched chain, both chains past the separation
  point, or one chain past it for the whole confirmation time. The evidence asked for is the
  same whether the daemon was armed or is just starting; only the latter also needs both views
  usable.
\<close>

theorem split_needs_evidence:
  assumes "s_Phase s = PhaseArmed \<or> s_Phase s = PhaseUnarmed"
  shows "s_Phase (fst (Step s obs)) = PhaseSplit \<longleftrightarrow>
     (s_Phase s = PhaseUnarmed \<longrightarrow> Usable (s_SFHealth (tracked s obs)) \<and> Usable (s_SQHealth (tracked s obs)))
     \<and> \<not> tipsAgree (s_SFTip (tracked s obs)) (s_SQTip (tracked s obs)) (o_SplitConfirmDepth obs)
           (o_SFAncestry obs) (o_SQAncestry obs)
     \<and> (rejected_block (tracked s obs) obs \<or> diverged_far (tracked s obs) obs
        \<or> diverged_sustained (tracked s obs) obs)"
  using Step_to_split [OF assms] by (simp add: stp_def)

theorem split_needs_evidence_witness:
  "diverged_far (tracked (stp NewState agreeing) (parted_far 1100)) (parted_far 1100)
    \<or> diverged_sustained (tracked (stp NewState agreeing) (parted_far 1100)) (parted_far 1100)
    \<or> rejected_block (tracked (stp NewState agreeing) (parted_far 1100)) (parted_far 1100)"
proof -
  have "s_Phase (stp NewState agreeing) = PhaseArmed"
    "s_Phase (fst (Step (stp NewState agreeing) (parted_far 1100))) = PhaseSplit" by code_simp+
  then show ?thesis
    using split_needs_evidence [of "stp NewState agreeing" "parted_far 1100"] by blast
qed

text \<open>
  A split declared on persistence alone rests on a disagreement that really stood: over any
  run from the fresh state there is a tick at which both chains were first seen past the
  separation point, at least the confirmation time ago, and no later tick on which both views
  could be read contradicts it.
\<close>

theorem sustained_split_stood:
  assumes "\<not> believed (s_Phase (foldl stp NewState os))"
    and "s_Phase (foldl stp NewState (os @ [ob])) = PhaseSplit"
    and "\<not> rejected_block (tracked (foldl stp NewState os) ob) ob"
    and "\<not> diverged_far (tracked (foldl stp NewState os) ob) ob"
  shows "\<exists>h since. stood_since (os @ [ob]) h since \<and> since \<noteq> 0 \<and> 0 < o_SplitConfirmSecs ob
    \<and> o_SplitConfirmSecs ob \<le> i64 (o_At ob - since)"
proof -
  let ?s = "foldl stp NewState os"
  have "s_Phase ?s = PhaseArmed \<or> s_Phase ?s = PhaseUnarmed"
    using assms(1) phase_valid_run [of os] by (cases "s_Phase ?s") (auto dest: sym)
  then have "diverged_sustained (tracked ?s ob) ob"
    using Step_to_split [of ?s ob] assms by simp
  moreover have "clock_sound (os @ [ob]) (trackForkCandidate ?s ob)"
    by (rule trackForkCandidate_clock [OF run_clock])
  ultimately show ?thesis by (rule sustained_stood)
qed

theorem sustained_split_stood_witness:
  "\<exists>h since. stood_since [agreeing, parted 1100, quiet_tick 2000, parted 5000] h since \<and> since \<noteq> 0
    \<and> 3600 \<le> i64 (5000 - since)"
proof -
  let ?os = "[agreeing, parted 1100, quiet_tick 2000]"
  have nb: "\<not> believed (s_Phase (foldl stp NewState ?os))" by code_simp
  have sp: "s_Phase (foldl stp NewState (?os @ [parted 5000])) = PhaseSplit" by code_simp
  have "\<not> fst (splitEvidence (tracked (foldl stp NewState ?os) (parted 5000)) (parted 5000))"
    "\<not> fst (snd (splitEvidence (tracked (foldl stp NewState ?os) (parted 5000)) (parted 5000)))"
    by code_simp+
  then have nr: "\<not> rejected_block (tracked (foldl stp NewState ?os) (parted 5000)) (parted 5000)"
    and nf: "\<not> diverged_far (tracked (foldl stp NewState ?os) (parted 5000)) (parted 5000)"
    using splitEvidence_rejected splitEvidence_far by blast+
  have "o_SplitConfirmSecs (parted 5000) = 3600" "o_At (parted 5000) = 5000" by code_simp+
  with sustained_split_stood [OF nb sp nr nf] show ?thesis by simp
qed

definition tracking_effect :: "effect \<Rightarrow> bool" where
  "tracking_effect e \<longleftrightarrow> (case e of EffectPersistState \<Rightarrow> False | EffectPhaseChanged _ _ _ \<Rightarrow> False | _ \<Rightarrow> True)"

lemma tracking_effects_kind: "list_all tracking_effect (tracking_effects s obs)"
proof -
  have h: "list_all tracking_effect (snd (trackHealth t obs))" for t
    by (simp add: trackHealth_def Let_def tracking_effect_def)
  have b: "pred_option tracking_effect (snd (trackBranch br new old cad seen fork now))"
    for br new old cad seen fork now
    by (simp add: trackBranch_def Let_def tracking_effect_def split: option.split)
  have m: "list_all tracking_effect (List.map_filter id xs)" if "list_all (pred_option tracking_effect) xs" for xs
    using that by (induction xs) (auto simp: List.map_filter_simps split: option.splits)
  have bs: "list_all tracking_effect (snd (trackBlocks t obs))" for t
    unfolding trackBlocks_def Let_def case_prod_beta snd_conv by (rule m) (simp add: b)
  have a: "list_all tracking_effect (snd (trackTrustAnchor t obs))" for t
    by (simp add: trackTrustAnchor_def Let_def case_prod_beta tracking_effect_def)
  show ?thesis by (simp add: tracking_effects_def Let_def h bs a)
qed

text \<open>
  What a tick asks of the shell ends with the phase change, and with it only: the state is
  persisted immediately before the change is announced, exactly when the phase moved, and
  nothing else in the list persists or announces a phase.
\<close>

theorem persist_before_announce:
  "\<exists>es d. list_all tracking_effect es \<and>
     snd (Step s obs) = es @ (if s_Phase (fst (Step s obs)) = s_Phase s then []
       else [EffectPersistState, EffectPhaseChanged (s_Phase s) (s_Phase (fst (Step s obs))) d])"
  by (rule exI [of _ "tracking_effects s obs"], rule exI [of _ "snd (decidePhase (tracked s obs) obs)"])
     (simp add: Step_eq Let_def tracking_effects_kind)

definition silent :: "observation \<Rightarrow> bool" where
  "silent obs \<longleftrightarrow> o_SFTip obs = None \<and> o_SQTip obs = None \<and> o_Disagreement obs = None
     \<and> \<not> o_SharedHeightAgreed obs"

lemma silent_tracking:
  assumes "silent obs"
  shows "trackDisagreement s obs = s" "trackForkCandidate s obs = s" "fst (trackBlocks s obs) = s"
  using assms by (simp_all add: silent_def trackDisagreement_def trackForkCandidate_def
      trackBlocks_def trackBranch_def Let_def)

lemma silent_tips:
  assumes "silent obs"
  shows "s_SFTip (tracked s obs) = s_SFTip s" "s_SQTip (tracked s obs) = s_SQTip s"
  by (simp_all add: tracked_def Let_def silent_tracking [OF assms])

lemma suspect_fields:
  assumes "s_Disagreement s = s_Disagreement t" "s_DisagreementSince s = s_DisagreementSince t"
    "s_ForkCandidate s = s_ForkCandidate t" "s_ForkCandidateSince s = s_ForkCandidateSince t"
    "s_SFTip s = s_SFTip t" "s_SQTip s = s_SQTip t"
  shows "suspectSplit s obs = suspectSplit t obs"
  unfolding suspectSplit_def assms ..

lemma tracked_suspect: "s_SplitSuspected (tracked s obs) = suspectSplit (tracked s obs) obs"
  by (simp add: tracked_def Let_def) (rule suspect_fields; simp)

lemma suspect_mono:
  assumes "suspectSplit s o1" "o_SplitSuspectSecs o2 = o_SplitSuspectSecs o1"
    "0 \<le> o_At o1" "o_At o1 \<le> o_At o2" "is_i64 (o_At o2)"
    and "0 < s_DisagreementSince s \<Longrightarrow> is_i64 (s_DisagreementSince s)"
    and "0 < s_ForkCandidateSince s \<Longrightarrow> is_i64 (s_ForkCandidateSince s)"
  shows "suspectSplit s o2"
proof -
  have later: "o_SplitSuspectSecs o1 \<le> i64 (o_At o2 - since)"
    if "o_SplitSuspectSecs o1 \<le> i64 (o_At o1 - since)" "0 < since" "is_i64 since" for since
    using that assms(2-5) by (simp add: is_i64_def)
  show ?thesis
    using assms(1,2,6,7) later
    by (auto simp: suspectSplit_def Let_def split: option.splits if_splits)
qed

text \<open>
  A tick on which neither view answers concludes nothing: the standing disagreement, the
  separation candidate, both their clocks and both tips stay as they were, and a suspicion the
  tick before raised stays raised as time passes.
\<close>

theorem silence_concludes_nothing:
  assumes "silent o2" and "o_SplitSuspectSecs o2 = o_SplitSuspectSecs o1"
    and "0 \<le> o_At o1" and "o_At o1 \<le> o_At o2" and "is_i64 (o_At o2)"
    and "is_i64 (s_DisagreementSince (stp s o1))" and "is_i64 (s_ForkCandidateSince (stp s o1))"
  defines "s1 \<equiv> stp s o1"
  shows "s_ForkCandidate (stp s1 o2) = s_ForkCandidate s1
    \<and> s_ForkCandidateSince (stp s1 o2) = s_ForkCandidateSince s1
    \<and> s_Disagreement (stp s1 o2) = s_Disagreement s1
    \<and> s_DisagreementSince (stp s1 o2) = s_DisagreementSince s1
    \<and> s_SFTip (stp s1 o2) = s_SFTip s1 \<and> s_SQTip (stp s1 o2) = s_SQTip s1
    \<and> (s_SplitSuspected s1 \<longrightarrow> s_SplitSuspected (stp s1 o2))"
proof -
  have keep: "s_ForkCandidate (stp s1 o2) = s_ForkCandidate s1"
    "s_ForkCandidateSince (stp s1 o2) = s_ForkCandidateSince s1"
    "s_Disagreement (stp s1 o2) = s_Disagreement s1"
    "s_DisagreementSince (stp s1 o2) = s_DisagreementSince s1"
    "s_SFTip (stp s1 o2) = s_SFTip s1" "s_SQTip (stp s1 o2) = s_SQTip s1"
    by (simp_all add: stp_fields silent_tracking [OF assms(1)] silent_tips [OF assms(1)])
  have "suspectSplit s1 o1" if "s_SplitSuspected s1"
    using that tracked_suspect [of s o1] suspect_fields [of s1 "tracked s o1" o1]
    by (simp add: s1_def stp_fields tracked_candidate tracked_disagreement)
  then have "suspectSplit s1 o2" if "s_SplitSuspected s1"
    using that suspect_mono [of s1 o1 o2] assms by simp
  then have "s_SplitSuspected (stp s1 o2)" if "s_SplitSuspected s1"
    using that tracked_suspect [of s1 o2] keep suspect_fields [of s1 "tracked s1 o2" o2]
    by (simp add: stp_fields tracked_candidate tracked_disagreement)
  with keep show ?thesis by blast
qed

theorem silence_concludes_nothing_witness:
  "s_SplitSuspected (stp (stp (stp NewState agreeing) (parted 1100)) (quiet_tick 1200))"
proof -
  have "silent (quiet_tick 1200)" by code_simp
  moreover have "o_SplitSuspectSecs (quiet_tick 1200) = o_SplitSuspectSecs (parted 1100)" by code_simp
  moreover have "o_At (parted 1100) = 1100" "o_At (quiet_tick 1200) = 1200" by code_simp+
  moreover have "is_i64 (s_DisagreementSince (stp (stp NewState agreeing) (parted 1100)))"
    "is_i64 (s_ForkCandidateSince (stp (stp NewState agreeing) (parted 1100)))"
    "s_SplitSuspected (stp (stp NewState agreeing) (parted 1100))" by code_simp+
  ultimately show ?thesis
    using silence_concludes_nothing [of "quiet_tick 1200" "parted 1100" "stp NewState agreeing"]
    by (simp add: is_i64_def)
qed

text \<open>
  C26: the trust anchor is the least of the bounds that are not negative (below the height
  where the rules part, below a branch the user's node rejected, the recorded separation
  point, the margin below their tip), and there is none exactly when no such bound exists.
\<close>

theorem trust_anchor_least:
  assumes "anchor_inputs_ok obs"
  shows "TrustAnchorHeight obs fork =
    (if anchor_bounds obs fork = [] then (0, False) else (Min (set (anchor_bounds obs fork)), True))"
  by (rule TrustAnchorHeight_least [OF assms])

theorem trust_anchor_least_witness:
  "TrustAnchorHeight ((parted 1100)\<lparr>o_DivergenceHeight := 90\<rparr>) (Some \<lparr>Hash = 5, Height = 100\<rparr>) = (89, True)"
proof -
  let ?o = "(parted 1100)\<lparr>o_DivergenceHeight := 90\<rparr>" and ?f = "Some \<lparr>Hash = 5, Height = 100\<rparr> :: block_ref option"
  have "anchor_inputs_ok ?o" "anchor_bounds ?o ?f = [89, 100, 95]" by code_simp+
  with trust_anchor_least [of ?o ?f] show ?thesis by simp
qed

text \<open>
  Because a bound below zero is dropped rather than raised to zero, an anchor can exceed
  the user's own tip: with a tip lower than the reorganisation margin and only the height where
  the rules part known, the anchor is one below that height.
\<close>

theorem trust_anchor_overshoots:
  assumes "o_SFTip obs = Some t" and "0 \<le> Height t" and "Height t < o_ReorgMargin obs"
    and "is_i32 (o_ReorgMargin obs)" and "is_i32 (o_DivergenceHeight obs)"
    and "Height t < o_DivergenceHeight obs - 1" and "filter Rejected (o_SFTips obs) = []"
  shows "snd (TrustAnchorHeight obs None) \<and> Height t < fst (TrustAnchorHeight obs None)"
proof -
  have "rejected_loop ts False 0 = (0, False)" if "filter Rejected ts = []" for ts
    using that by (induction ts) (auto split: if_splits)
  then have "\<not> snd (earliestRejectedHeight (o_SFTips obs))"
    using assms(7) by (simp add: earliestRejectedHeight_def)
  then have "anchor_bounds obs None = [o_DivergenceHeight obs - 1]"
    using assms by (simp add: anchor_bounds_def)
  moreover have "anchor_inputs_ok obs"
    using assms by (simp add: anchor_inputs_ok_def is_i32_def)
  ultimately show ?thesis using assms(6) TrustAnchorHeight_least [of obs None] by simp
qed

theorem trust_anchor_overshoots_witness:
  "3 < fst (TrustAnchorHeight ((tips_tick 1000 (block_at 5 3 900) (block_at 5 3 900) None)
     \<lparr>o_DivergenceHeight := 900000\<rparr>) None)"
proof -
  let ?o = "(tips_tick 1000 (block_at 5 3 900) (block_at 5 3 900) None)\<lparr>o_DivergenceHeight := 900000\<rparr>"
  have "o_SFTip ?o = Some (block_at 5 3 900)" "o_ReorgMargin ?o = 6" "o_DivergenceHeight ?o = 900000"
    "filter Rejected (o_SFTips ?o) = []" "Height (block_at 5 3 900) = 3" by code_simp+
  then show ?thesis
    using trust_anchor_overshoots [of ?o "block_at 5 3 900"] by (simp add: is_i32_def)
qed

text \<open>
  Losing sight of both chains can move a recorded split to resolving: with both views down
  and one cadence slow enough that only the other chain counts as stalled, the tick changes the
  phase, although nothing was observed.
\<close>

theorem outage_changes_phase:
  assumes "s_Phase s = PhaseSplit" and "silent obs"
    and "o_SFHealth obs = HealthDown" and "o_SQHealth obs = HealthDown"
    and "Stalled (s_SQCadence s) (o_At obs) (s_LastSQBlockAt s) (o_StallFactor obs)"
    and "\<not> Stalled (s_SFCadence s) (o_At obs) (s_LastSFBlockAt s) (o_StallFactor obs)"
  shows "s_Phase (fst (Step s obs)) = PhaseResolving"
proof -
  have "s_SQCadence (tracked s obs) = s_SQCadence s" "s_LastSQBlockAt (tracked s obs) = s_LastSQBlockAt s"
    "s_SFCadence (tracked s obs) = s_SFCadence s" "s_LastSFBlockAt (tracked s obs) = s_LastSFBlockAt s"
    by (simp_all add: tracked_def Let_def silent_tracking [OF assms(2)])
  with assms show ?thesis
    by (simp add: Step_phase decidePhase_def decideFromSplit_def stalledBranch_def)
qed

text \<open>
  Reached from the fresh state when the user's chain is slow and the other fast, after three
  ticks at which both were seen.
\<close>

definition outage_state :: sstate where
  "outage_state = NewState\<lparr>s_Phase := PhaseSplit, s_Fork := Some \<lparr>Hash = 5, Height = 100\<rparr>,
     s_SFCadence := \<lparr>IntervalSecs = 2715, LastBlockTime = 9000, Samples = 2\<rparr>,
     s_SQCadence := \<lparr>IntervalSecs = 366, LastBlockTime = 1200, Samples = 2\<rparr>,
     s_LastSFBlockAt := 9000, s_LastSQBlockAt := 9000\<rparr>"

definition outage :: observation where
  "outage = (quiet_tick 15000)\<lparr>o_SFHealth := HealthDown, o_SQHealth := HealthDown\<rparr>"

theorem outage_changes_phase_witness:
  "s_Phase outage_state = PhaseSplit \<and> s_Phase (fst (Step outage_state outage)) = PhaseResolving"
proof -
  have "Stalled \<lparr>IntervalSecs = 366, LastBlockTime = 1200, Samples = 2\<rparr> 15000 9000 6"
    "\<not> Stalled \<lparr>IntervalSecs = 2715, LastBlockTime = 9000, Samples = 2\<rparr> 15000 9000 6" by code_simp+
  then show ?thesis using outage_changes_phase [of outage_state outage]
    by (simp add: outage_state_def outage_def quiet_tick_def silent_def)
qed

text \<open>
  A split confirmed before its separation point was found does not get one while it stays
  a split: whatever later ticks find, the recorded separation point remains unknown.
\<close>

theorem separation_not_filled_in:
  assumes "s_Phase s = PhaseSplit" and "s_Fork s = None" and "s_Phase (fst (Step s obs)) = PhaseSplit"
  shows "s_Fork (fst (Step s obs)) = None"
  using assms Step_phase [of s obs] by (simp add: Step_eq Let_def)

theorem separation_not_filled_in_witness:
  "s_Fork (fst (Step (NewState\<lparr>s_Phase := PhaseSplit\<rparr>) (parted_far 1100))) = None"
proof -
  have "s_Phase (fst (Step (NewState\<lparr>s_Phase := PhaseSplit\<rparr>) (parted_far 1100))) = PhaseSplit" by code_simp
  then show ?thesis
    using separation_not_filled_in [of "NewState\<lparr>s_Phase := PhaseSplit\<rparr>"] by (simp add: NewState_def)
qed

end
