(* ===== verification/Fork_Point.thy ===== *)
theory Fork_Point
  imports Chain_View
begin

text \<open>
  \<open>internal/sentinel/forkpoint.go\<close>: the walk back from two tips to the last block they share,
  and the cache of headers it keeps between ticks. A view answers a header lookup through a
  function of the hash: the search itself is pure, and the answers do not change during one.
\<close>

section \<open>The header cache\<close>

text \<open>
  The source keeps a list in order of use and a map from key to list element. The map holds
  exactly the elements of the list, so the cache is the list, front first, and a lookup finds
  the entry with the key.
\<close>

record cache_entry =
  EntryBranch :: branch
  EntryHash :: hash
  EntryMeta :: block_meta

record header_cache =
  cacheLimit :: int
  cacheOrder :: "cache_entry list"

definition DefaultHeaderCacheSize :: int where "DefaultHeaderCacheSize = 10000"

definition NewHeaderCache :: "int \<Rightarrow> header_cache" where
  "NewHeaderCache limit =
     \<lparr>cacheLimit = (if limit \<le> 0 then DefaultHeaderCacheSize else limit), cacheOrder = []\<rparr>"

definition has_key :: "branch \<Rightarrow> hash \<Rightarrow> cache_entry \<Rightarrow> bool" where
  "has_key br h e \<longleftrightarrow> EntryBranch e = br \<and> EntryHash e = h"

definition cacheGet :: "header_cache \<Rightarrow> branch \<Rightarrow> hash \<Rightarrow> header_cache \<times> block_meta option" where
  "cacheGet c br h =
     (case find (has_key br h) (cacheOrder c) of
        None \<Rightarrow> (c, None)
      | Some e \<Rightarrow>
          (c\<lparr>cacheOrder := e # filter (\<lambda>x. \<not> has_key br h x) (cacheOrder c)\<rparr>, Some (EntryMeta e)))"

fun evict :: "int \<Rightarrow> cache_entry list \<Rightarrow> cache_entry list" where
  "evict limit es =
     (if limit < int (length es) \<and> es \<noteq> [] then evict limit (butlast es) else es)"

declare evict.simps [simp del]

definition cachePut :: "header_cache \<Rightarrow> branch \<Rightarrow> block_meta \<Rightarrow> header_cache" where
  "cachePut c br m =
     (case find (has_key br (Hash m)) (cacheOrder c) of
        Some e \<Rightarrow>
          c\<lparr>cacheOrder := e\<lparr>EntryMeta := m\<rparr> # filter (\<lambda>x. \<not> has_key br (Hash m) x) (cacheOrder c)\<rparr>
      | None \<Rightarrow>
          c\<lparr>cacheOrder := evict (cacheLimit c)
              (\<lparr>EntryBranch = br, EntryHash = Hash m, EntryMeta = m\<rparr> # cacheOrder c)\<rparr>)"

section \<open>The search\<close>

text \<open>
  The errors of the search. All but \<open>Fetching\<close> wrap \<open>ErrForkTooDeep\<close>; the caller tells the
  two apart with \<open>errors.Is\<close>.
\<close>

datatype fork_err =
    WalkedSF int | WalkedSQ int | WalkedBoth int | NoCommonAncestor | HeaderGone hash
  | Fetching hash view_err

fun is_ErrForkTooDeep :: "fork_err \<Rightarrow> bool" where
  "is_ErrForkTooDeep (Fetching _ _) = False"
| "is_ErrForkTooDeep _ = True"

type_synonym header_fetcher = "hash \<Rightarrow> view_err + block_meta"

definition fetchHeader ::
  "header_fetcher \<Rightarrow> header_cache option \<Rightarrow> branch \<Rightarrow> hash \<Rightarrow> header_cache option \<times> (fork_err + block_meta)" where
  "fetchHeader fetch cache br h =
     (let (cache1, hit) =
            (case cache of
               None \<Rightarrow> (None, None)
             | Some c \<Rightarrow> (case cacheGet c br h of (c', m) \<Rightarrow> (Some c', m)))
      in case hit of
           Some m \<Rightarrow> (cache1, Inr m)
         | None \<Rightarrow>
             (case fetch h of
                Inl e \<Rightarrow> (cache1, Inl (if e = ErrNotFound then HeaderGone h else Fetching h e))
              | Inr m \<Rightarrow>
                  (case cache1 of
                     None \<Rightarrow> (None, Inr m)
                   | Some c \<Rightarrow> (Some (cachePut c br m), Inr m))))"

definition DefaultMaxAncestorWalk :: int where "DefaultMaxAncestorWalk = 20000"

text \<open>The first two loops differ only in the side they walk and in their message.\<close>

function walk_down ::
  "header_fetcher \<Rightarrow> branch \<Rightarrow> (int \<Rightarrow> fork_err) \<Rightarrow> int \<Rightarrow> int \<Rightarrow> header_cache option \<Rightarrow> block_meta \<Rightarrow> int
    \<Rightarrow> header_cache option \<times> (fork_err + block_meta \<times> int)" where
  "walk_down fetch br err maxWalk target cache a steps =
     (if target < Height a
      then
        (case fetchHeader fetch cache br (PrevHash a) of
           (cache1, Inl e) \<Rightarrow> (cache1, Inl e)
         | (cache1, Inr a1) \<Rightarrow>
             if maxWalk < steps + 1 then (cache1, Inl (err (steps + 1)))
             else walk_down fetch br err maxWalk target cache1 a1 (steps + 1))
      else (cache, Inr (a, steps)))"
  by pat_completeness auto
termination
  by (relation "measure (\<lambda>(fetch, br, err, maxWalk, target, cache, a, steps). nat (maxWalk + 1 - steps))") auto

function walk_both ::
  "header_fetcher \<Rightarrow> header_fetcher \<Rightarrow> int \<Rightarrow> header_cache option \<Rightarrow> block_meta \<Rightarrow> block_meta \<Rightarrow> int
    \<Rightarrow> header_cache option \<times> (fork_err + block_ref)" where
  "walk_both sf sq maxWalk cache a b steps =
     (if Hash a \<noteq> Hash b
      then
        if Height a = 0 \<or> Height b = 0 then (cache, Inl NoCommonAncestor)
        else
          (case fetchHeader sf cache BranchSF (PrevHash a) of
             (cache1, Inl e) \<Rightarrow> (cache1, Inl e)
           | (cache1, Inr a1) \<Rightarrow>
               (case fetchHeader sq cache1 BranchSQ (PrevHash b) of
                  (cache2, Inl e) \<Rightarrow> (cache2, Inl e)
                | (cache2, Inr b1) \<Rightarrow>
                    if maxWalk < steps + 1 then (cache2, Inl (WalkedBoth (steps + 1)))
                    else walk_both sf sq maxWalk cache2 a1 b1 (steps + 1)))
      else (cache, Inr \<lparr>Hash = Hash a, Height = Height a\<rparr>))"
  by pat_completeness auto
termination
  by (relation "measure (\<lambda>(sf, sq, maxWalk, cache, a, b, steps). nat (maxWalk + 1 - steps))") auto

declare walk_down.simps [simp del] walk_both.simps [simp del]

definition FindForkPoint ::
  "header_fetcher \<Rightarrow> header_fetcher \<Rightarrow> block_meta \<Rightarrow> block_meta \<Rightarrow> int \<Rightarrow> header_cache option
    \<Rightarrow> header_cache option \<times> (fork_err + block_ref)" where
  "FindForkPoint sf sq sfTip sqTip maxWalk0 cache =
     (let maxWalk = (if maxWalk0 \<le> 0 then DefaultMaxAncestorWalk else maxWalk0)
      in case walk_down sf BranchSF WalkedSF maxWalk (Height sqTip) cache sfTip 0 of
           (cache1, Inl e) \<Rightarrow> (cache1, Inl e)
         | (cache1, Inr (a, steps)) \<Rightarrow>
             (case walk_down sq BranchSQ WalkedSQ maxWalk (Height a) cache1 sqTip steps of
                (cache2, Inl e) \<Rightarrow> (cache2, Inl e)
              | (cache2, Inr (b, steps)) \<Rightarrow> walk_both sf sq maxWalk cache2 a b steps))"

section \<open>The cache stays bounded and transparent\<close>

text \<open>
  A cache agrees with the views when every remembered header is what its view answers for the
  key it is filed under.
\<close>

fun view_of :: "header_fetcher \<Rightarrow> header_fetcher \<Rightarrow> branch \<Rightarrow> header_fetcher" where
  "view_of sf sq BranchSF = sf"
| "view_of sf sq BranchSQ = sq"
| "view_of sf sq (BranchOther _) = (\<lambda>_. Inl ErrNotFound)"

definition cache_ok :: "header_cache \<Rightarrow> bool" where
  "cache_ok c \<longleftrightarrow> 0 < cacheLimit c \<and> int (length (cacheOrder c)) \<le> cacheLimit c
     \<and> distinct (map (\<lambda>e. (EntryBranch e, EntryHash e)) (cacheOrder c))"

definition cache_agrees :: "header_fetcher \<Rightarrow> header_fetcher \<Rightarrow> header_cache \<Rightarrow> bool" where
  "cache_agrees sf sq c \<longleftrightarrow>
     (\<forall>e \<in> set (cacheOrder c). view_of sf sq (EntryBranch e) (EntryHash e) = Inr (EntryMeta e))"

definition honest :: "header_fetcher \<Rightarrow> bool" where
  "honest fetch \<longleftrightarrow> (\<forall>h m. fetch h = Inr m \<longrightarrow> Hash m = h)"

lemma evict_take: "0 \<le> limit \<Longrightarrow> evict limit es = take (nat limit) es"
proof (induction limit es rule: evict.induct)
  case (1 limit es)
  show ?case
  proof (cases "limit < int (length es)")
    case True
    with 1 have "es \<noteq> []" by auto
    with True 1 have "evict limit es = take (nat limit) (butlast es)" by (simp add: evict.simps [of limit es])
    also have "butlast es = take (length es - 1) es" by (simp add: butlast_conv_take)
    finally show ?thesis using True by (simp add: min_def)
  next
    case False
    then show ?thesis by (simp add: evict.simps [of limit es])
  qed
qed

lemma length_filter_found:
  assumes "find P xs = Some x"
  shows "Suc (length (filter (\<lambda>y. \<not> P y) xs)) \<le> length xs"
  using find_Some_mem [OF assms] length_filter_less [of x xs "\<lambda>y. \<not> P y"] by auto

lemma to_front_ok:
  assumes "cache_ok c" "find (has_key br h) (cacheOrder c) = Some e" "has_key br h e'"
  shows "cache_ok (c\<lparr>cacheOrder := e' # filter (\<lambda>x. \<not> has_key br h x) (cacheOrder c)\<rparr>)"
proof -
  let ?k = "\<lambda>e. (EntryBranch e, EntryHash e)"
  have "distinct (map ?k (filter (\<lambda>x. \<not> has_key br h x) (cacheOrder c)))"
    using assms(1) by (intro distinct_map_filter) (simp add: cache_ok_def)
  moreover have "?k e' \<notin> set (map ?k (filter (\<lambda>x. \<not> has_key br h x) (cacheOrder c)))"
    using assms(3) by (auto simp: has_key_def)
  moreover have "Suc (length (filter (\<lambda>x. \<not> has_key br h x) (cacheOrder c))) \<le> length (cacheOrder c)"
    by (rule length_filter_found [OF assms(2)])
  ultimately show ?thesis using assms(1) by (simp add: cache_ok_def)
qed

lemma cacheGet_ok:
  assumes "cache_ok c" "cacheGet c br h = (c', r)"
  shows "cache_ok c'"
  using assms to_front_ok [OF assms(1)] find_Some_mem
  by (fastforce simp: cacheGet_def split: option.splits)

lemma cacheGet_agrees:
  assumes "cache_agrees sf sq c" "cacheGet c br h = (c', r)"
  shows "cache_agrees sf sq c' \<and> (\<forall>m. r = Some m \<longrightarrow> view_of sf sq br h = Inr m)"
proof (cases "find (has_key br h) (cacheOrder c)")
  case None
  with assms show ?thesis by (simp add: cacheGet_def)
next
  case (Some e)
  then have "e \<in> set (cacheOrder c)" "EntryBranch e = br" "EntryHash e = h"
    using find_Some_mem [OF Some] by (simp_all add: has_key_def)
  with Some assms show ?thesis by (auto simp: cacheGet_def cache_agrees_def)
qed

lemma cachePut_ok:
  assumes "cache_ok c"
  shows "cache_ok (cachePut c br m)"
proof (cases "find (has_key br (Hash m)) (cacheOrder c)")
  case None
  let ?new = "\<lparr>EntryBranch = br, EntryHash = Hash m, EntryMeta = m\<rparr> # cacheOrder c"
  have "(br, Hash m) \<notin> set (map (\<lambda>e. (EntryBranch e, EntryHash e)) (cacheOrder c))"
    using None by (auto simp: find_None_all has_key_def)
  then have d: "distinct (map (\<lambda>e. (EntryBranch e, EntryHash e)) ?new)"
    using assms by (simp add: cache_ok_def)
  have "distinct (map (\<lambda>e. (EntryBranch e, EntryHash e)) (take n ?new))" for n
    using distinct_take [OF d, of n] by (simp only: take_map)
  moreover have "int (min k (nat l)) \<le> l" if "0 < l" for k l using that by simp
  ultimately show ?thesis using None assms by (simp add: cachePut_def cache_ok_def evict_take)
next
  case (Some e)
  then have "has_key br (Hash m) (e\<lparr>EntryMeta := m\<rparr>)"
    using find_Some_mem [OF Some] by (simp add: has_key_def)
  with Some to_front_ok [OF assms Some] show ?thesis by (simp add: cachePut_def)
qed

lemma cachePut_agrees:
  assumes "cache_agrees sf sq c" "view_of sf sq br (Hash m) = Inr m" "0 < cacheLimit c"
  shows "cache_agrees sf sq (cachePut c br m)"
proof (cases "find (has_key br (Hash m)) (cacheOrder c)")
  case None
  have "set (take n (x # xs)) \<subseteq> insert x (set xs)" for n and x :: cache_entry and xs
    using set_take_subset [of n "x # xs"] by simp
  with None assms show ?thesis
    by (fastforce simp: cachePut_def cache_agrees_def evict_take)
next
  case (Some e)
  then have "EntryBranch e = br" "EntryHash e = Hash m"
    using find_Some_mem [OF Some] by (simp_all add: has_key_def)
  with Some assms show ?thesis by (auto simp: cachePut_def cache_agrees_def)
qed

definition cache_inv :: "header_fetcher \<Rightarrow> header_fetcher \<Rightarrow> header_cache option \<Rightarrow> bool" where
  "cache_inv sf sq cache \<longleftrightarrow> (case cache of None \<Rightarrow> True | Some c \<Rightarrow> cache_ok c \<and> cache_agrees sf sq c)"

definition plain_fetch :: "header_fetcher \<Rightarrow> hash \<Rightarrow> fork_err + block_meta" where
  "plain_fetch fetch h =
     (case fetch h of Inl e \<Rightarrow> Inl (if e = ErrNotFound then HeaderGone h else Fetching h e) | Inr m \<Rightarrow> Inr m)"

lemma fetchHeader_None [simp]: "fetchHeader fetch None br h = (None, plain_fetch fetch h)"
  by (simp add: fetchHeader_def plain_fetch_def split: sum.split)

lemma fetchHeader_cached:
  assumes "cache_inv sf sq cache" and "honest (view_of sf sq br)"
    and "fetchHeader (view_of sf sq br) cache br h = (c', r)"
  shows "cache_inv sf sq c' \<and> (c' = None \<longleftrightarrow> cache = None) \<and> plain_fetch (view_of sf sq br) h = r"
proof (cases cache)
  case None
  with assms show ?thesis by (simp add: cache_inv_def)
next
  case (Some c)
  obtain c1 hit where g: "cacheGet c br h = (c1, hit)" by fastforce
  have ok: "cache_ok c1" "cache_agrees sf sq c1" "\<And>m. hit = Some m \<Longrightarrow> view_of sf sq br h = Inr m"
    using Some assms(1) cacheGet_ok [OF _ g] cacheGet_agrees [OF _ g] by (auto simp: cache_inv_def)
  show ?thesis
  proof (cases hit)
    case None
    with Some g ok assms show ?thesis
      using cachePut_ok [OF ok(1)] cachePut_agrees [OF ok(2)]
      by (auto simp: fetchHeader_def plain_fetch_def cache_inv_def honest_def cache_ok_def
          split: sum.splits if_splits)
  next
    case (Some m)
    with \<open>cache = Some c\<close> g ok assms show ?thesis
      by (auto simp: fetchHeader_def plain_fetch_def cache_inv_def)
  qed
qed

lemma walk_down_cached:
  assumes "cache_inv sf sq cache" and "honest (view_of sf sq br)"
    and "walk_down (view_of sf sq br) br err maxWalk target cache a steps = (c', r)"
  shows "cache_inv sf sq c' \<and> (c' = None \<longleftrightarrow> cache = None) \<and> walk_down (view_of sf sq br) br err maxWalk target None a steps = (None, r)"
  using assms
proof (induction "view_of sf sq br" br err maxWalk target cache a steps arbitrary: c' r rule: walk_down.induct)
  case (1 br err maxWalk target cache a steps)
  show ?case
  proof (cases "target < Height a")
    case False
    with 1(2-) show ?thesis by (simp add: walk_down.simps)
  next
    case True
    obtain c1 f where f: "fetchHeader (view_of sf sq br) cache br (PrevHash a) = (c1, f)" by fastforce
    note fc = fetchHeader_cached [OF 1(2,3) f]
    show ?thesis
    proof (cases f)
      case (Inl e)
      with True f fc 1(4) show ?thesis by (simp add: walk_down.simps)
    next
      case (Inr a1)
      show ?thesis
      proof (cases "maxWalk < steps + 1")
        case over: True
        with True f fc Inr 1(4) show ?thesis by (auto simp add: walk_down.simps)
      next
        case False
        then show ?thesis
          using 1(1) [OF True f [symmetric] Inr False] True f fc Inr 1(3,4)
          by (simp add: walk_down.simps [of _ _ _ _ _ _ a])
      qed
    qed
  qed
qed

lemma walk_both_cached:
  assumes "cache_inv sf sq cache" and "honest sf" and "honest sq"
    and "walk_both sf sq maxWalk cache a b steps = (c', r)"
  shows "cache_inv sf sq c' \<and> (c' = None \<longleftrightarrow> cache = None) \<and> walk_both sf sq maxWalk None a b steps = (None, r)"
  using assms
proof (induction sf sq maxWalk cache a b steps arbitrary: c' r rule: walk_both.induct)
  case (1 sf sq maxWalk cache a b steps)
  show ?case
  proof (cases "Hash a \<noteq> Hash b \<and> Height a \<noteq> 0 \<and> Height b \<noteq> 0")
    case False
    with 1(2-) show ?thesis by (auto simp: walk_both.simps split: if_splits)
  next
    case go: True
    obtain c1 f1 where f1: "fetchHeader sf cache BranchSF (PrevHash a) = (c1, f1)" by fastforce
    have fc1: "cache_inv sf sq c1" "c1 = None \<longleftrightarrow> cache = None" "plain_fetch sf (PrevHash a) = f1"
      using fetchHeader_cached [of sf sq cache BranchSF] f1 1(2,3) by auto
    obtain c2 f2 where f2: "fetchHeader sq c1 BranchSQ (PrevHash b) = (c2, f2)" by fastforce
    have fc2: "cache_inv sf sq c2" "c2 = None \<longleftrightarrow> c1 = None" "plain_fetch sq (PrevHash b) = f2"
      using fetchHeader_cached [of sf sq c1 BranchSQ] f2 fc1 1(4) by auto
    show ?thesis
    proof (cases "\<exists>a1 b1. f1 = Inr a1 \<and> f2 = Inr b1 \<and> \<not> maxWalk < steps + 1")
      case False
      with go f1 f2 fc1 fc2 1(5) show ?thesis
        by (cases f1; cases f2) (auto simp: walk_both.simps split: if_splits)
    next
      case True
      then obtain a1 b1 where i: "f1 = Inr a1" "f2 = Inr b1" "\<not> maxWalk < steps + 1" by blast
      have w: "walk_both sf sq maxWalk cache a b steps = walk_both sf sq maxWalk c2 a1 b1 (steps + 1)"
        "walk_both sf sq maxWalk None a b steps = walk_both sf sq maxWalk None a1 b1 (steps + 1)"
        using go i f1 f2 fc1 fc2 by (simp_all add: walk_both.simps [of _ _ _ _ a])
      have "walk_both sf sq maxWalk c2 a1 b1 (steps + 1) = (c', r)" using w(1) 1(5) by simp
      then show ?thesis
        using 1(1) [OF _ _ f1 [symmetric] i(1) f2 [symmetric] i(2,3)] go fc1(2) fc2(1,2) 1(3,4) by (simp add: w(2))
    qed
  qed
qed

lemma FindForkPoint_cached:
  assumes "cache_inv sf sq cache" and "honest sf" and "honest sq"
    and "FindForkPoint sf sq sfTip sqTip maxWalk cache = (c', r)"
  shows "cache_inv sf sq c' \<and> (c' = None \<longleftrightarrow> cache = None) \<and> FindForkPoint sf sq sfTip sqTip maxWalk None = (None, r)"
proof -
  let ?w = "if maxWalk \<le> 0 then DefaultMaxAncestorWalk else maxWalk"
  obtain c1 r1 where w1: "walk_down sf BranchSF WalkedSF ?w (Height sqTip) cache sfTip 0 = (c1, r1)" by fastforce
  note d1 = walk_down_cached [of sf sq cache BranchSF, simplified, OF assms(1,2) w1]
  show ?thesis
  proof (cases r1)
    case (Inl e)
    with w1 d1 assms(4) show ?thesis by (simp add: FindForkPoint_def Let_def)
  next
    case (Inr p)
    obtain a steps where p: "p = (a, steps)" by fastforce
    obtain c2 r2 where w2: "walk_down sq BranchSQ WalkedSQ ?w (Height a) c1 sqTip steps = (c2, r2)" by fastforce
    note d2 = walk_down_cached [of sf sq c1 BranchSQ, simplified, OF conjunct1 [OF d1] assms(3) w2]
    show ?thesis
    proof (cases r2)
      case (Inl e)
      with w1 d1 Inr p w2 d2 assms(4) show ?thesis by (simp add: FindForkPoint_def Let_def)
    next
      case i2: (Inr q)
      obtain b steps' where q: "q = (b, steps')" by fastforce
      with w1 d1 Inr p w2 d2 i2 assms show ?thesis
        using walk_both_cached [of sf sq c2 ?w a b steps' c' r]
        by (simp add: FindForkPoint_def Let_def)
    qed
  qed
qed

section \<open>The search finds the highest shared block\<close>

text \<open>\<open>behind f k m\<close> is the block \<open>k\<close> steps behind \<open>m\<close> in the headers a view hands out.\<close>

primrec behind :: "header_fetcher \<Rightarrow> nat \<Rightarrow> block_meta \<Rightarrow> block_meta option" where
  "behind f 0 m = Some m"
| "behind f (Suc k) m = (case f (PrevHash m) of Inl _ \<Rightarrow> None | Inr p \<Rightarrow> behind f k p)"

text \<open>Headers are handed out with the height their chain gives them.\<close>

definition well_heighted :: "header_fetcher \<Rightarrow> block_meta \<Rightarrow> bool" where
  "well_heighted f tip \<longleftrightarrow> (\<forall>k m. behind f k tip = Some m \<longrightarrow> Height m = Height tip - int k)"

lemma behind_parent:
  "f (PrevHash m) = Inr p \<Longrightarrow> well_heighted f m \<Longrightarrow> well_heighted f p \<and> Height p = Height m - 1"
proof -
  assume p: "f (PrevHash m) = Inr p" and w: "well_heighted f m"
  have h: "behind f k p = Some x \<Longrightarrow> Height x = Height m - int (Suc k)" for k x
    using w p unfolding well_heighted_def by (metis behind.simps(2) sum.case(2))
  from h [of 0 p] have "Height p = Height m - 1" by simp
  with h show ?thesis by (simp add: well_heighted_def)
qed

lemma behind_add: "behind f (j + k) m = (case behind f j m of None \<Rightarrow> None | Some x \<Rightarrow> behind f k x)"
  by (induction j arbitrary: m) (auto split: sum.split)

lemma plain_fetch_Inr:
  "plain_fetch f h = Inr m \<longleftrightarrow> f h = Inr m" "Inr m = plain_fetch f h \<longleftrightarrow> f h = Inr m"
  by (auto simp: plain_fetch_def split: sum.splits)

lemma walk_down_sound:
  assumes "walk_down f br err maxWalk target None a steps = (c, Inr (b, steps'))" and "well_heighted f a"
  shows "c = None \<and> well_heighted f b \<and> Height b = min (Height a) target
    \<and> behind f (nat (Height a - Height b)) a = Some b"
  using assms
proof (induction f br err maxWalk target "None :: header_cache option" a steps arbitrary: c b steps' rule: walk_down.induct)
  case (1 f br err maxWalk target a steps)
  show ?case
  proof (cases "target < Height a")
    case False
    with 1(2,3) show ?thesis by (simp add: walk_down.simps)
  next
    case True
    with 1(2) obtain a1 where a1: "f (PrevHash a) = Inr a1" "\<not> maxWalk < steps + 1"
      "walk_down f br err maxWalk target None a1 (steps + 1) = (c, Inr (b, steps'))"
      by (auto simp: walk_down.simps [of _ _ _ _ _ _ a] plain_fetch_Inr split: sum.splits if_splits)
    note p = behind_parent [OF a1(1) 1(3)]
    have "c = None \<and> well_heighted f b \<and> Height b = min (Height a1) target
        \<and> behind f (nat (Height a1 - Height b)) a1 = Some b"
      by (rule 1(1) [OF True _ refl a1(2,3)]) (simp_all add: plain_fetch_Inr a1(1) p)
    moreover have "nat (Height a - Height b) = Suc (nat (Height a1 - Height b))" if "Height b \<le> Height a1"
      using that p by linarith
    ultimately show ?thesis using p True a1(1) by auto
  qed
qed

lemma walk_both_sound:
  assumes "walk_both sf sq maxWalk None a b steps = (c, Inr r)"
    and "well_heighted sf a" "well_heighted sq b" "Height a = Height b"
  shows "\<exists>k x y. behind sf k a = Some x \<and> behind sq k b = Some y \<and> Hash x = Hash r \<and> Hash y = Hash r
    \<and> Height x = Height r
    \<and> (\<forall>i < k. \<forall>u v. behind sf i a = Some u \<longrightarrow> behind sq i b = Some v \<longrightarrow> Hash u \<noteq> Hash v)"
  using assms
proof (induction sf sq maxWalk "None :: header_cache option" a b steps arbitrary: c r rule: walk_both.induct)
  case (1 sf sq maxWalk a b steps)
  show ?case
  proof (cases "Hash a = Hash b")
    case True
    then have "r = \<lparr>Hash = Hash a, Height = Height a\<rparr>" using 1(2) by (simp add: walk_both.simps)
    with True show ?thesis
      by (intro exI [of _ 0] exI [of _ a] exI [of _ b]) simp
  next
    case False
    with 1(2) obtain a1 b1 where s: "sf (PrevHash a) = Inr a1" "sq (PrevHash b) = Inr b1"
      "\<not> maxWalk < steps + 1" "\<not> (Height a = 0 \<or> Height b = 0)"
      "walk_both sf sq maxWalk None a1 b1 (steps + 1) = (c, Inr r)"
      by (auto simp: walk_both.simps [of _ _ _ _ a] plain_fetch_Inr split: sum.splits if_splits)
    note pa = behind_parent [OF s(1) 1(3)] and pb = behind_parent [OF s(2) 1(4)]
    from 1(1) [of None "Inr a1" a1 "Inr b1" b1] s False pa pb 1(5)
    obtain k x y where k: "behind sf k a1 = Some x" "behind sq k b1 = Some y" "Hash x = Hash r" "Hash y = Hash r"
      "Height x = Height r"
      "\<forall>i < k. \<forall>u v. behind sf i a1 = Some u \<longrightarrow> behind sq i b1 = Some v \<longrightarrow> Hash u \<noteq> Hash v"
      by (auto simp: plain_fetch_Inr)
    have "Hash u \<noteq> Hash v" if "i < Suc k" "behind sf i a = Some u" "behind sq i b = Some v" for i u v
      using that False s(1,2) k(6) by (cases i) auto
    then show ?thesis using k s(1,2)
      by (intro exI [of _ "Suc k"] exI [of _ x] exI [of _ y]) simp
  qed
qed

lemma walk_down_complete:
  "behind f n a = Some b \<Longrightarrow> well_heighted f a \<Longrightarrow> Height a - target = int n \<Longrightarrow> steps + int n \<le> maxWalk \<Longrightarrow>
   walk_down f br err maxWalk target None a steps = (None, Inr (b, steps + int n))"
proof (induction n arbitrary: a steps)
  case 0
  then show ?case by (simp add: walk_down.simps)
next
  case (Suc n)
  from Suc.prems(1) obtain p where p: "f (PrevHash a) = Inr p" "behind f n p = Some b"
    by (auto split: sum.splits)
  note bp = behind_parent [OF p(1) Suc.prems(2)]
  from p(1) have "plain_fetch f (PrevHash a) = Inr p" by (simp add: plain_fetch_Inr)
  then have "walk_down f br err maxWalk target None a steps = walk_down f br err maxWalk target None p (steps + 1)"
    using Suc.prems by (simp add: walk_down.simps [of _ _ _ _ _ _ a])
  with Suc.IH [OF p(2), of "steps + 1"] bp Suc.prems show ?case by (simp add: algebra_simps)
qed

lemma walk_down_to:
  assumes "behind f n a = Some b" "well_heighted f a" "n = nat (Height a - target)" "steps + int n \<le> maxWalk"
  shows "walk_down f br err maxWalk target None a steps = (None, Inr (b, steps + int n))"
proof (cases "target < Height a")
  case True
  with assms show ?thesis by (intro walk_down_complete) simp_all
next
  case False
  with assms show ?thesis by (simp add: walk_down.simps)
qed

lemma well_heighted_behind: "well_heighted f a \<Longrightarrow> behind f n a = Some b \<Longrightarrow> well_heighted f b"
proof (induction n arbitrary: a)
  case (Suc n)
  from Suc.prems(2) obtain p where p: "f (PrevHash a) = Inr p" "behind f n p = Some b"
    by (auto split: sum.splits)
  with Suc.IH behind_parent [OF p(1) Suc.prems(1)] show ?case by blast
qed simp

lemma walk_both_complete:
  "behind sf n a = Some x \<Longrightarrow> behind sq n b = Some y \<Longrightarrow> Hash x = Hash y \<Longrightarrow> well_heighted sf a \<Longrightarrow>
   well_heighted sq b \<Longrightarrow> Height a = Height b \<Longrightarrow> int n \<le> Height a \<Longrightarrow> steps + int n \<le> maxWalk \<Longrightarrow>
   \<exists>r. walk_both sf sq maxWalk None a b steps = (None, Inr r)"
proof (induction n arbitrary: a b steps)
  case 0
  then show ?case by (simp add: walk_both.simps)
next
  case (Suc n)
  from Suc.prems(1,2) obtain p q where pq: "sf (PrevHash a) = Inr p" "behind sf n p = Some x"
    "sq (PrevHash b) = Inr q" "behind sq n q = Some y" by (auto split: sum.splits)
  note bp = behind_parent [OF pq(1) Suc.prems(4)] and bq = behind_parent [OF pq(3) Suc.prems(5)]
  have f: "plain_fetch sf (PrevHash a) = Inr p" "plain_fetch sq (PrevHash b) = Inr q"
    using pq by (simp_all add: plain_fetch_Inr)
  have "\<exists>r. walk_both sf sq maxWalk None p q (steps + 1) = (None, Inr r)"
    using Suc.IH [OF pq(2,4), of "steps + 1"] bp bq Suc.prems by simp
  then show ?case using f Suc.prems
    by (auto simp: walk_both.simps [of _ _ _ _ a])
qed

section \<open>Properties\<close>

text \<open>A small pair of chains for the witnesses: blocks 1 to 3 shared, then 14 and 15 against 24.\<close>

definition demo_block :: "hash \<Rightarrow> hash \<Rightarrow> int \<Rightarrow> block_meta" where
  "demo_block h prv n = \<lparr>Hash = h, Height = n, PrevHash = prv, Time = 0\<rparr>"

definition demo_view :: "block_meta list \<Rightarrow> header_fetcher" where
  "demo_view bs h = (case find (\<lambda>b. Hash b = h) bs of None \<Rightarrow> Inl ErrNotFound | Some b \<Rightarrow> Inr b)"

definition demo_sf :: header_fetcher where
  "demo_sf = demo_view [demo_block 1 0 0, demo_block 2 1 1, demo_block 3 2 2, demo_block 14 3 3, demo_block 15 14 4]"

definition demo_sq :: header_fetcher where
  "demo_sq = demo_view [demo_block 1 0 0, demo_block 2 1 1, demo_block 3 2 2, demo_block 24 3 3]"

lemma demo_view_parent: "demo_view bs h = Inr m \<Longrightarrow> m \<in> set bs \<and> Hash m = h"
  by (auto simp: demo_view_def dest: find_Some_mem split: option.splits)

lemma demo_well_heighted:
  assumes "\<forall>b \<in> set bs. \<forall>p \<in> set bs. Hash p = PrevHash b \<longrightarrow> Height p = Height b - 1" and "tip \<in> set bs"
  shows "well_heighted (demo_view bs) tip"
proof -
  have "behind (demo_view bs) k t = Some m \<Longrightarrow> t \<in> set bs \<Longrightarrow> Height m = Height t - int k" for k t m
  proof (induction k arbitrary: t)
    case (Suc k)
    then obtain p where p: "demo_view bs (PrevHash t) = Inr p" "behind (demo_view bs) k p = Some m"
      by (auto split: sum.splits)
    note m = demo_view_parent [OF p(1)]
    with assms(1) Suc.prems have "Height p = Height t - 1" by blast
    with Suc.IH [OF p(2)] m show ?case by simp
  qed simp
  with assms(2) show ?thesis by (simp add: well_heighted_def)
qed

lemma demo_heights:
  "well_heighted demo_sf (demo_block 15 14 4)" "well_heighted demo_sq (demo_block 24 3 3)"
  unfolding demo_sf_def demo_sq_def by (rule demo_well_heighted; simp add: demo_block_def)+

text \<open>
  The same with no cache: the walk asks the views for every header.
\<close>

lemma plain_fork_point:
  assumes "FindForkPoint sf sq sfTip sqTip maxWalk None = (c, Inr r)"
    and "well_heighted sf sfTip" and "well_heighted sq sqTip"
  shows "(\<exists>k j x y. behind sf k sfTip = Some x \<and> behind sq j sqTip = Some y \<and> Hash x = Hash r
      \<and> Hash y = Hash r \<and> Height x = Height r \<and> Height y = Height r)
    \<and> (\<forall>k j u v. behind sf k sfTip = Some u \<longrightarrow> behind sq j sqTip = Some v \<longrightarrow> Height u = Height v
        \<longrightarrow> Height r < Height u \<longrightarrow> Hash u \<noteq> Hash v)"
proof -
  let ?w = "if maxWalk \<le> 0 then DefaultMaxAncestorWalk else maxWalk"
  from assms(1) obtain c1 a s1 c2 b s2 where
    w1: "walk_down sf BranchSF WalkedSF ?w (Height sqTip) None sfTip 0 = (c1, Inr (a, s1))"
    and w2: "walk_down sq BranchSQ WalkedSQ ?w (Height a) c1 sqTip s1 = (c2, Inr (b, s2))"
    and w3: "walk_both sf sq ?w c2 a b s2 = (c, Inr r)"
    by (auto simp: FindForkPoint_def Let_def split: prod.splits sum.splits)
  note d1 = walk_down_sound [OF w1 assms(2)]
  then have c1: "c1 = None" by simp
  note d2 = walk_down_sound [OF w2 [unfolded c1] assms(3)]
  then have c2: "c2 = None" by simp
  have ab: "Height a = Height b" "Height a \<le> Height sfTip" "Height b \<le> Height sqTip" using d1 d2 by auto
  from walk_both_sound [OF w3 [unfolded c2] _ _ ab(1)] d1 d2
  obtain n x y where n: "behind sf n a = Some x" "behind sq n b = Some y" "Hash x = Hash r" "Hash y = Hash r"
    "Height x = Height r"
    "\<forall>i < n. \<forall>u v. behind sf i a = Some u \<longrightarrow> behind sq i b = Some v \<longrightarrow> Hash u \<noteq> Hash v" by blast
  have hx: "Height x = Height a - int n" "Height y = Height b - int n"
    using n(1,2) d1 d2 unfolding well_heighted_def by blast+
  let ?i = "nat (Height sfTip - Height a)" and ?j = "nat (Height sqTip - Height b)"
  have bd: "behind sf ?i sfTip = Some a" "behind sq ?j sqTip = Some b" using d1 d2 by blast+
  have "behind sf (?i + n) sfTip = Some x" "behind sq (?j + n) sqTip = Some y"
    by (simp_all only: behind_add bd option.case n)
  moreover have "Hash u \<noteq> Hash v" if u: "behind sf k sfTip = Some u" and v: "behind sq j sqTip = Some v"
    and h: "Height u = Height v" "Height r < Height u" for k j u v
  proof -
    have k: "Height u = Height sfTip - int k" "Height v = Height sqTip - int j"
      using u v assms(2,3) unfolding well_heighted_def by blast+
    then have le: "Height u \<le> Height a" using d1 d2 h by auto
    let ?m = "nat (Height a - Height u)"
    have e: "k = ?i + ?m" "j = ?j + ?m" using k le ab h(1) by auto
    have "behind sf ?m a = Some u" "behind sq ?m b = Some v"
      using u [unfolded e(1)] v [unfolded e(2)] by (simp_all only: behind_add bd option.case)
    moreover have "?m < n" using h(2) n(5) hx le by linarith
    ultimately show ?thesis using n(6) by blast
  qed
  ultimately show ?thesis using n hx ab(1) by metis
qed

text \<open>
  C25: what the search returns is the highest block the two chains share: it is an ancestor of
  both tips at the height it reports, and no pair of ancestors at the same greater height is the
  same block. This holds with the cache the daemon keeps between searches, whatever earlier
  searches put in it, and without one; the cache a search leaves is again one it can start from.
  The views answer a hash with the header that has it, and number a header one above its parent.
\<close>

theorem fork_point_highest:
  assumes "FindForkPoint sf sq sfTip sqTip maxWalk cache = (c, Inr r)"
    and "cache_inv sf sq cache" and "honest sf" and "honest sq"
    and "well_heighted sf sfTip" and "well_heighted sq sqTip"
  shows "(\<exists>k j x y. behind sf k sfTip = Some x \<and> behind sq j sqTip = Some y \<and> Hash x = Hash r
      \<and> Hash y = Hash r \<and> Height x = Height r \<and> Height y = Height r)
    \<and> (\<forall>k j u v. behind sf k sfTip = Some u \<longrightarrow> behind sq j sqTip = Some v \<longrightarrow> Height u = Height v
        \<longrightarrow> Height r < Height u \<longrightarrow> Hash u \<noteq> Hash v)
    \<and> cache_inv sf sq c"
proof -
  from FindForkPoint_cached [OF assms(2-4,1)]
  have "FindForkPoint sf sq sfTip sqTip maxWalk None = (None, Inr r)" and "cache_inv sf sq c" by auto
  with plain_fork_point [OF this(1) assms(5,6)] show ?thesis by blast
qed

text \<open>A second search from the cache the first one left, which holds the four headers it read.\<close>

theorem fork_point_highest_witness:
  "let c = fst (FindForkPoint demo_sf demo_sq (demo_block 15 14 4) (demo_block 24 3 3) 10 (Some (NewHeaderCache 3)))
   in snd (FindForkPoint demo_sf demo_sq (demo_block 15 14 4) (demo_block 24 3 3) 10 c) = Inr \<lparr>Hash = 3, Height = 2\<rparr>
     \<and> cache_inv demo_sf demo_sq c \<and> (\<exists>k x. behind demo_sf k (demo_block 15 14 4) = Some x \<and> Hash x = 3)"
proof -
  let ?find = "FindForkPoint demo_sf demo_sq (demo_block 15 14 4) (demo_block 24 3 3) 10"
  have i: "cache_inv demo_sf demo_sq (Some (NewHeaderCache 3))"
    by (simp add: cache_inv_def cache_ok_def cache_agrees_def NewHeaderCache_def)
  have h: "honest demo_sf" "honest demo_sq"
    by (auto simp: honest_def demo_sf_def demo_sq_def dest: demo_view_parent)
  have r: "snd (?find (Some (NewHeaderCache 3))) = Inr \<lparr>Hash = 3, Height = 2\<rparr>"
    "snd (?find (fst (?find (Some (NewHeaderCache 3))))) = Inr \<lparr>Hash = 3, Height = 2\<rparr>" by code_simp+
  have "?find (Some (NewHeaderCache 3)) = (fst (?find (Some (NewHeaderCache 3))), Inr \<lparr>Hash = 3, Height = 2\<rparr>)"
    using r(1) by (metis surjective_pairing)
  from fork_point_highest [OF this i h demo_heights] r(2) show ?thesis by (auto simp: Let_def)
qed

text \<open>
  When the two chains share a block within the budget, the search succeeds: neither a
  height difference nor the walk itself makes it give up early.
\<close>

theorem fork_point_found:
  assumes "behind sf k sfTip = Some x" and "behind sq j sqTip = Some y" and "Hash x = Hash y"
    and "Height x = Height y" and "0 \<le> Height x"
    and "well_heighted sf sfTip" and "well_heighted sq sqTip" and "0 < maxWalk"
    and "int k \<le> maxWalk" and "int j \<le> maxWalk"
  shows "\<exists>r. FindForkPoint sf sq sfTip sqTip maxWalk None = (None, Inr r)"
proof -
  have hx: "Height x = Height sfTip - int k" "Height y = Height sqTip - int j"
    using assms unfolding well_heighted_def by blast+
  define i where "i = nat (Height sfTip - Height sqTip)"
  define l where "l = nat (Height sqTip - Height sfTip)"
  have il: "i \<le> k" "l \<le> j" "k - i = j - l" "i = 0 \<or> l = 0" using hx assms(4) by (auto simp: i_def l_def)
  obtain a where a: "behind sf i sfTip = Some a" "behind sf (k - i) a = Some x"
    using assms(1) il(1) behind_add [of sf i "k - i" sfTip] by (auto split: option.splits)
  obtain b where b: "behind sq l sqTip = Some b" "behind sq (j - l) b = Some y"
    using assms(2) il(2) behind_add [of sq l "j - l" sqTip] by (auto split: option.splits)
  have ha: "Height a = Height sfTip - int i" "Height b = Height sqTip - int l"
    using a(1) b(1) assms unfolding well_heighted_def by blast+
  have w: "well_heighted sf a" "well_heighted sq b"
    using well_heighted_behind a(1) b(1) assms(6,7) by blast+
  have "walk_down sf BranchSF WalkedSF maxWalk (Height sqTip) None sfTip 0 = (None, Inr (a, int i))"
    using walk_down_to [OF a(1) assms(6), of "Height sqTip" 0 maxWalk] il assms(9) by (simp add: i_def)
  moreover have "walk_down sq BranchSQ WalkedSQ maxWalk (Height a) None sqTip (int i) = (None, Inr (b, int i + int l))"
    using walk_down_to [OF b(1) assms(7), of "Height a" "int i" maxWalk] il assms(9,10) ha
    by (auto simp: i_def l_def)
  moreover have "\<exists>r. walk_both sf sq maxWalk None a b (int i + int l) = (None, Inr r)"
    using walk_both_complete [of sf "k - i" a x sq b y "int i + int l" maxWalk] a(2) b(2) w il hx ha assms
    by (auto simp: i_def l_def)
  ultimately show ?thesis using assms(8) by (auto simp: FindForkPoint_def)
qed

theorem fork_point_found_witness:
  "\<exists>r. FindForkPoint demo_sf demo_sq (demo_block 15 14 4) (demo_block 24 3 3) 2 None = (None, Inr r)"
proof -
  have "behind demo_sf 2 (demo_block 15 14 4) = Some (demo_block 3 2 2)"
    "behind demo_sq 1 (demo_block 24 3 3) = Some (demo_block 3 2 2)" "0 \<le> Height (demo_block 3 2 2)" by code_simp+
  from fork_point_found [OF this(1,2) refl refl this(3) demo_heights, of 2] show ?thesis by simp
qed

text \<open>
  The cache never changes an answer: with views that answer a hash with the header that has
  it and a cache of what they answered, the search returns what it would return without one, and
  the cache it leaves still agrees with the views, holds each key once and stays within its limit.
\<close>

theorem cache_transparent:
  assumes "cache_ok c" and "cache_agrees sf sq c" and "honest sf" and "honest sq"
    and "FindForkPoint sf sq sfTip sqTip maxWalk (Some c) = (c', r)"
  shows "FindForkPoint sf sq sfTip sqTip maxWalk None = (None, r)
    \<and> (\<exists>d. c' = Some d \<and> cache_ok d \<and> cache_agrees sf sq d)"
  using FindForkPoint_cached [of sf sq "Some c" sfTip sqTip maxWalk c' r] assms
  by (auto simp: cache_inv_def split: option.splits)

theorem cache_transparent_witness:
  "FindForkPoint demo_sf demo_sq (demo_block 15 14 4) (demo_block 24 3 3) 10 None
    = (None, snd (FindForkPoint demo_sf demo_sq (demo_block 15 14 4) (demo_block 24 3 3) 10 (Some (NewHeaderCache 2))))"
proof -
  have "cache_ok (NewHeaderCache 2)" "cache_agrees demo_sf demo_sq (NewHeaderCache 2)"
    by (simp_all add: cache_ok_def cache_agrees_def NewHeaderCache_def)
  moreover have "honest demo_sf" "honest demo_sq"
    by (auto simp: honest_def demo_sf_def demo_sq_def dest: demo_view_parent)
  ultimately show ?thesis
    using cache_transparent [OF _ _ _ _ surjective_pairing] by blast
qed

end
