(* ===== verification/Bus.thy ===== *)
theory Bus
  imports Go_Base "HOL-Library.Sublist" "HOL-Library.Multiset"
begin

text \<open>
  \<open>internal/bus/bus.go\<close>: the publish and subscribe channel between the engines. An event is
  any value with a kind. Channels are shared with the subscribers, so they live in a list of
  channels and a subscription holds the index of its own. A panic, which is what Go does on a
  send to a closed channel, is \<open>None\<close>. The first part runs each operation alone; the second
  splits a delivery into its three channel operations and interleaves publishers and the
  consumer, as the read lock of \<open>Publish\<close> allows. Log lines are left out. The loss counter
  is a 64-bit integer that cannot reach its limit and is an unbounded one here.
\<close>

section \<open>Channels\<close>

definition SubscriberBuffer :: nat where "SubscriberBuffer = 256"

record 'e chan =
  cbuf :: "'e list"
  cclosed :: bool

text \<open>A send in a \<open>select\<close> with a default, and a receive in one.\<close>

definition try_send :: "'e chan \<Rightarrow> 'e \<Rightarrow> (bool \<times> 'e chan) option" where
  "try_send c e =
     (if cclosed c then None
      else if length (cbuf c) < SubscriberBuffer then Some (True, c\<lparr>cbuf := cbuf c @ [e]\<rparr>)
      else Some (False, c))"

definition try_recv :: "'e chan \<Rightarrow> 'e option \<times> 'e chan" where
  "try_recv c = (case cbuf c of [] \<Rightarrow> (None, c) | x # xs \<Rightarrow> (Some x, c\<lparr>cbuf := xs\<rparr>))"

section \<open>The bus\<close>

record subscription =
  sname :: string
  skinds :: "string list option"
  sch :: nat
  sdropped :: int

record 'e bus =
  bsubs :: "subscription list"
  bclosed :: bool
  bchans :: "'e chan list"

definition wants :: "subscription \<Rightarrow> string \<Rightarrow> bool" where
  "wants s kind = (case skinds s of None \<Rightarrow> True | Some ks \<Rightarrow> List.member ks kind)"

definition New :: "'e bus" where
  "New = \<lparr>bsubs = [], bclosed = False, bchans = []\<rparr>"

text \<open>Returns the index of the channel.\<close>

definition Subscribe :: "'e bus \<Rightarrow> string \<Rightarrow> string list \<Rightarrow> 'e bus \<times> nat" where
  "Subscribe b name kinds =
     (let i = length (bchans b)
      in if bclosed b then (b\<lparr>bchans := bchans b @ [\<lparr>cbuf = [], cclosed = True\<rparr>]\<rparr>, i)
         else
           (let set = (if kinds \<noteq> [] then Some kinds else None)
            in (b\<lparr>bchans := bchans b @ [\<lparr>cbuf = [], cclosed = False\<rparr>],
                  bsubs := bsubs b @ [\<lparr>sname = name, skinds = set, sch = i, sdropped = 0\<rparr>]\<rparr>, i)))"

definition deliver :: "'e chan \<Rightarrow> int \<Rightarrow> 'e \<Rightarrow> ('e chan \<times> int) option" where
  "deliver c dropped e =
     (case try_send c e of
        None \<Rightarrow> None
      | Some (True, c1) \<Rightarrow> Some (c1, dropped)
      | Some (False, c1) \<Rightarrow>
          (let (displaced, c2) = try_recv c1
           in case try_send c2 e of
                None \<Rightarrow> None
              | Some (True, c3) \<Rightarrow> Some (c3, dropped + 1)
              | Some (False, c3) \<Rightarrow> Some (c3, dropped + 1)))"

fun deliver_all :: "string \<Rightarrow> 'e \<Rightarrow> subscription list \<Rightarrow> 'e chan list \<Rightarrow> (subscription list \<times> 'e chan list) option" where
  "deliver_all kind e [] chans = Some ([], chans)"
| "deliver_all kind e (s # ss) chans =
     (if \<not> wants s kind
      then map_option (\<lambda>(ss', chans'). (s # ss', chans')) (deliver_all kind e ss chans)
      else
        (case deliver (chans ! sch s) (sdropped s) e of
           None \<Rightarrow> None
         | Some (c, d) \<Rightarrow>
             map_option (\<lambda>(ss', chans'). (s\<lparr>sdropped := d\<rparr> # ss', chans'))
               (deliver_all kind e ss (chans[sch s := c]))))"

definition Publish :: "('e \<Rightarrow> string) \<Rightarrow> 'e bus \<Rightarrow> 'e option \<Rightarrow> 'e bus option" where
  "Publish kind_of b ev =
     (case ev of
        None \<Rightarrow> Some b
      | Some e \<Rightarrow>
          if bclosed b then Some b
          else map_option (\<lambda>(subs, chans). b\<lparr>bsubs := subs, bchans := chans\<rparr>)
                 (deliver_all (kind_of e) e (bsubs b) (bchans b)))"

text \<open>Closing a closed channel panics too.\<close>

fun close_all :: "subscription list \<Rightarrow> 'e chan list \<Rightarrow> 'e chan list option" where
  "close_all [] chans = Some chans"
| "close_all (s # ss) chans =
     (if cclosed (chans ! sch s) then None
      else close_all ss (chans[sch s := (chans ! sch s)\<lparr>cclosed := True\<rparr>]))"

definition Close :: "'e bus \<Rightarrow> 'e bus option" where
  "Close b =
     (if bclosed b then Some b
      else map_option (\<lambda>chans. b\<lparr>bclosed := True, bchans := chans, bsubs := []\<rparr>)
             (close_all (bsubs b) (bchans b)))"

definition Dropped :: "'e bus \<Rightarrow> string \<Rightarrow> int" where
  "Dropped b name = (case find (\<lambda>s. sname s = name) (bsubs b) of None \<Rightarrow> 0 | Some s \<Rightarrow> sdropped s)"

text \<open>What the program does with the bus, the consumers' receives included.\<close>

datatype 'e bus_op = OSubscribe string "string list" | OPublish "'e option" | OReceive nat | OClose

fun bus_step :: "('e \<Rightarrow> string) \<Rightarrow> 'e bus option \<Rightarrow> 'e bus_op \<Rightarrow> 'e bus option" where
  "bus_step kind_of None _ = None"
| "bus_step kind_of (Some b) (OSubscribe name kinds) = Some (fst (Subscribe b name kinds))"
| "bus_step kind_of (Some b) (OPublish e) = Publish kind_of b e"
| "bus_step kind_of (Some b) OClose = Close b"
| "bus_step kind_of (Some b) (OReceive i) =
     Some (if i < length (bchans b) then b\<lparr>bchans := (bchans b)[i := snd (try_recv (bchans b ! i))]\<rparr> else b)"

section \<open>The invariant\<close>

definition sub_ok :: "'e chan list \<Rightarrow> subscription \<Rightarrow> bool" where
  "sub_ok chans s \<longleftrightarrow> sch s < length chans \<and> \<not> cclosed (chans ! sch s)"

definition bus_ok :: "'e bus \<Rightarrow> bool" where
  "bus_ok b \<longleftrightarrow>
     (bclosed b \<longrightarrow> bsubs b = [])
     \<and> (\<forall>s \<in> set (bsubs b). sch s < length (bchans b))
     \<and> distinct (map sch (bsubs b))
     \<and> (\<forall>i < length (bchans b). length (cbuf (bchans b ! i)) \<le> SubscriberBuffer)
     \<and> (\<forall>i < length (bchans b). cclosed (bchans b ! i) \<longleftrightarrow> i \<notin> sch ` set (bsubs b))"

text \<open>The last \<open>n\<close> elements.\<close>

definition last_n :: "nat \<Rightarrow> 'a list \<Rightarrow> 'a list" where
  "last_n n xs = drop (length xs - n) xs"

lemma deliver_open:
  assumes "\<not> cclosed c" "length (cbuf c) \<le> SubscriberBuffer"
  shows "\<exists>d'. deliver c d e = Some (c\<lparr>cbuf := last_n SubscriberBuffer (cbuf c @ [e])\<rparr>, d')
    \<and> d' = d + int (length (cbuf c @ [e]) - length (last_n SubscriberBuffer (cbuf c @ [e])))"
proof (cases "length (cbuf c) < SubscriberBuffer")
  case True
  with assms show ?thesis by (simp add: deliver_def try_send_def last_n_def)
next
  case False
  with assms have l: "length (cbuf c) = SubscriberBuffer" by simp
  then obtain x xs where x: "cbuf c = x # xs" by (cases "cbuf c") (auto simp: SubscriberBuffer_def)
  from l x assms show ?thesis
    by (simp add: deliver_def try_send_def try_recv_def last_n_def SubscriberBuffer_def)
qed

lemma deliver_all_open:
  assumes "\<forall>s \<in> set ss. sub_ok chans s" "distinct (map sch ss)"
    and "\<forall>i < length chans. length (cbuf (chans ! i)) \<le> SubscriberBuffer"
  shows "\<exists>ss' chans'. deliver_all kind e ss chans = Some (ss', chans') \<and> map sch ss' = map sch ss
    \<and> length chans' = length chans
    \<and> (\<forall>i < length chans. chans' ! i =
         (if \<exists>s \<in> set ss. sch s = i \<and> wants s kind
          then (chans ! i)\<lparr>cbuf := last_n SubscriberBuffer (cbuf (chans ! i) @ [e])\<rparr> else chans ! i))"
  using assms
proof (induction ss arbitrary: chans)
  case Nil
  then show ?case by simp
next
  case (Cons s ss)
  show ?case
  proof (cases "wants s kind")
    case False
    from Cons.IH [of chans] Cons.prems obtain ss' chans' where
      "deliver_all kind e ss chans = Some (ss', chans')" "map sch ss' = map sch ss"
      "length chans' = length chans"
      "\<forall>i < length chans. chans' ! i =
         (if \<exists>s \<in> set ss. sch s = i \<and> wants s kind
          then (chans ! i)\<lparr>cbuf := last_n SubscriberBuffer (cbuf (chans ! i) @ [e])\<rparr> else chans ! i)"
      by auto
    with False show ?thesis by auto
  next
    case True
    let ?i = "sch s"
    let ?c = "(chans ! ?i)\<lparr>cbuf := last_n SubscriberBuffer (cbuf (chans ! ?i) @ [e])\<rparr>"
    have i: "?i < length chans" "\<not> cclosed (chans ! ?i)" "length (cbuf (chans ! ?i)) \<le> SubscriberBuffer"
      using Cons.prems by (auto simp: sub_ok_def)
    obtain d where d: "deliver (chans ! ?i) (sdropped s) e = Some (?c, d)"
      using deliver_open [OF i(2,3)] by blast
    have len: "length (last_n SubscriberBuffer xs) \<le> SubscriberBuffer" for xs :: "'a list"
      by (simp add: last_n_def)
    have fresh: "\<forall>t \<in> set ss. sch t \<noteq> ?i" using Cons.prems(2) by (auto simp: image_iff dest: sym)
    have "\<forall>t \<in> set ss. sub_ok (chans[?i := ?c]) t"
      using Cons.prems(1) fresh by (auto simp: sub_ok_def nth_list_update)
    moreover have "\<forall>k < length (chans[?i := ?c]). length (cbuf (chans[?i := ?c] ! k)) \<le> SubscriberBuffer"
      using Cons.prems(3) len i(1) by (auto simp: nth_list_update)
    ultimately obtain ss' chans' where r:
      "deliver_all kind e ss (chans[?i := ?c]) = Some (ss', chans')" "map sch ss' = map sch ss"
      "length chans' = length chans"
      "\<forall>k < length chans. chans' ! k =
         (if \<exists>s \<in> set ss. sch s = k \<and> wants s kind
          then (chans[?i := ?c] ! k)\<lparr>cbuf := last_n SubscriberBuffer (cbuf (chans[?i := ?c] ! k) @ [e])\<rparr>
          else chans[?i := ?c] ! k)"
      using Cons.IH [of "chans[?i := ?c]"] Cons.prems(2) by auto
    have "chans' ! k = (if \<exists>t \<in> set (s # ss). sch t = k \<and> wants t kind
        then (chans ! k)\<lparr>cbuf := last_n SubscriberBuffer (cbuf (chans ! k) @ [e])\<rparr> else chans ! k)"
      if "k < length chans" for k
      using r(4) that fresh True i(1) by (cases "k = ?i") (auto simp: nth_list_update)
    with r True d show ?thesis by auto
  qed
qed

lemma last_n_le [simp]: "length (last_n n xs) \<le> n"
  by (simp add: last_n_def)

lemma Publish_open:
  assumes "bus_ok b" "\<not> bclosed b"
  shows "\<exists>b'. Publish kind_of b (Some e) = Some b' \<and> bus_ok b' \<and> \<not> bclosed b'
    \<and> map sch (bsubs b') = map sch (bsubs b)
    \<and> (\<forall>i < length (bchans b). bchans b' ! i =
         (if \<exists>s \<in> set (bsubs b). sch s = i \<and> wants s (kind_of e)
          then (bchans b ! i)\<lparr>cbuf := last_n SubscriberBuffer (cbuf (bchans b ! i) @ [e])\<rparr> else bchans b ! i))"
proof -
  have subs: "\<forall>s \<in> set (bsubs b). sub_ok (bchans b) s" using assms(1) by (auto simp: bus_ok_def sub_ok_def)
  from deliver_all_open [OF subs, of "kind_of e" e] assms(1)
  obtain ss chans where r: "deliver_all (kind_of e) e (bsubs b) (bchans b) = Some (ss, chans)"
    "map sch ss = map sch (bsubs b)" "length chans = length (bchans b)"
    "\<forall>i < length (bchans b). chans ! i =
       (if \<exists>s \<in> set (bsubs b). sch s = i \<and> wants s (kind_of e)
        then (bchans b ! i)\<lparr>cbuf := last_n SubscriberBuffer (cbuf (bchans b ! i) @ [e])\<rparr> else bchans b ! i)"
    unfolding bus_ok_def by blast
  let ?b = "b\<lparr>bsubs := ss, bchans := chans\<rparr>"
  have ix: "sch ` set ss = sch ` set (bsubs b)" using r(2) by (metis set_map)
  have cl: "cclosed (chans ! i) = cclosed (bchans b ! i)" "length (cbuf (chans ! i)) \<le> SubscriberBuffer"
    if "i < length (bchans b)" for i
    using r(4) that assms(1) by (simp_all add: bus_ok_def)
  have "sch s < length (bchans b)" if "s \<in> set ss" for s
  proof -
    have "sch s \<in> sch ` set (bsubs b)" using ix that by blast
    with assms(1) show ?thesis by (auto simp: bus_ok_def)
  qed
  then have "bus_ok ?b"
    using assms r(2,3) cl by (simp add: bus_ok_def ix)
  with r assms(2) show ?thesis by (simp add: Publish_def)
qed

lemma close_all_open:
  assumes "\<forall>s \<in> set ss. sub_ok chans s" "distinct (map sch ss)"
  shows "\<exists>chans'. close_all ss chans = Some chans' \<and> length chans' = length chans
    \<and> (\<forall>i < length chans. cbuf (chans' ! i) = cbuf (chans ! i)
        \<and> (cclosed (chans' ! i) \<longleftrightarrow> cclosed (chans ! i) \<or> i \<in> sch ` set ss))"
  using assms
proof (induction ss arbitrary: chans)
  case Nil
  then show ?case by simp
next
  case (Cons s ss)
  let ?ch = "chans[sch s := (chans ! sch s)\<lparr>cclosed := True\<rparr>]"
  have s: "sch s < length chans" "\<not> cclosed (chans ! sch s)" using Cons.prems by (auto simp: sub_ok_def)
  have fresh: "\<forall>t \<in> set ss. sch t \<noteq> sch s" using Cons.prems(2) by (auto simp: image_iff dest: sym)
  have "\<forall>t \<in> set ss. sub_ok ?ch t"
    using Cons.prems(1) fresh by (auto simp: sub_ok_def nth_list_update)
  then obtain chans' where r: "close_all ss ?ch = Some chans'" "length chans' = length chans"
    "\<forall>i < length chans. cbuf (chans' ! i) = cbuf (?ch ! i)
        \<and> (cclosed (chans' ! i) \<longleftrightarrow> cclosed (?ch ! i) \<or> i \<in> sch ` set ss)"
    using Cons.IH [of ?ch] Cons.prems(2) by auto
  have "cbuf (chans' ! i) = cbuf (chans ! i)
        \<and> (cclosed (chans' ! i) \<longleftrightarrow> cclosed (chans ! i) \<or> i \<in> sch ` set (s # ss))" if "i < length chans" for i
    using r(3) that s(1) by (cases "i = sch s") (auto simp: nth_list_update)
  with r(1,2) s(2) show ?case by auto
qed

lemma Close_ok:
  assumes "bus_ok b"
  shows "\<exists>b'. Close b = Some b' \<and> bus_ok b' \<and> bclosed b' \<and> map cbuf (bchans b') = map cbuf (bchans b)"
proof (cases "bclosed b")
  case True
  with assms show ?thesis by (simp add: Close_def)
next
  case False
  have subs: "\<forall>s \<in> set (bsubs b). sub_ok (bchans b) s" using assms by (auto simp: bus_ok_def sub_ok_def)
  from close_all_open [OF subs] assms
  obtain chans where r: "close_all (bsubs b) (bchans b) = Some chans" "length chans = length (bchans b)"
    "\<forall>i < length (bchans b). cbuf (chans ! i) = cbuf (bchans b ! i)
        \<and> (cclosed (chans ! i) \<longleftrightarrow> cclosed (bchans b ! i) \<or> i \<in> sch ` set (bsubs b))"
    unfolding bus_ok_def by blast
  have "map cbuf chans = map cbuf (bchans b)"
    using r(2,3) by (auto intro!: nth_equalityI)
  moreover have "bus_ok (b\<lparr>bclosed := True, bchans := chans, bsubs := []\<rparr>)"
    using r(2,3) assms by (simp add: bus_ok_def)
  ultimately show ?thesis using r(1) False by (simp add: Close_def)
qed

lemma Subscribe_ok: "bus_ok b \<Longrightarrow> bus_ok (fst (Subscribe b name kinds))"
  by (auto simp: bus_ok_def Subscribe_def Let_def sub_ok_def nth_append less_Suc_eq)

lemma receive_ok:
  assumes "bus_ok b" "i < length (bchans b)"
  shows "bus_ok (b\<lparr>bchans := (bchans b)[i := snd (try_recv (bchans b ! i))]\<rparr>)"
proof -
  let ?c = "snd (try_recv (bchans b ! i))"
  have c: "cclosed ?c = cclosed (bchans b ! i)" "length (cbuf ?c) \<le> length (cbuf (bchans b ! i))"
    by (auto simp: try_recv_def split: list.split)
  have "length (cbuf ?c) \<le> SubscriberBuffer"
    using c(2) assms unfolding bus_ok_def by (meson le_trans)
  with c(1) assms show ?thesis by (auto simp: bus_ok_def nth_list_update)
qed

lemma bus_step_ok:
  assumes "bus_ok b"
  shows "\<exists>b'. bus_step kind_of (Some b) op = Some b' \<and> bus_ok b'"
proof (cases op)
  case (OPublish ev)
  show ?thesis
  proof (cases "ev = None \<or> bclosed b")
    case True
    with OPublish assms show ?thesis by (auto simp: Publish_def split: option.split)
  next
    case False
    then obtain e where "ev = Some e" "\<not> bclosed b" by auto
    moreover from this obtain b' where "Publish kind_of b (Some e) = Some b'" "bus_ok b'"
      using Publish_open [OF assms] by blast
    ultimately show ?thesis using OPublish by simp
  qed
next
  case OClose
  then show ?thesis using Close_ok [OF assms] by auto
qed (use assms in \<open>auto simp: Subscribe_ok receive_ok\<close>)

interpretation bus: machine "bus_step kind_of" "\<lambda>_. True" "\<lambda>b. \<exists>b'. b = Some b' \<and> bus_ok b'" for kind_of
  by unfold_locales (use bus_step_ok in blast)

section \<open>Interleaved deliveries\<close>

text \<open>
  Several publishers can be inside \<open>Publish\<close> at once, and the consumer receives without any
  lock. One delivery is three channel operations, each atomic: try to send, take the oldest,
  send again. \<open>Begin\<close> starts a delivery, \<open>Move i\<close> runs the next operation of the \<open>i\<close>th one in
  progress, \<open>Consume\<close> is the consumer. \<open>sent\<close>, \<open>got\<close> and \<open>lost\<close> record what happened.
\<close>

datatype 'e delivery = TrySend 'e | TakeOldest 'e | Resend 'e "'e option"

record 'e flight =
  fch :: "'e list"
  fdropped :: int
  active :: "'e delivery list"
  sent :: "'e list"
  got :: "'e list"
  lost :: "'e list"

datatype 'e action = Begin 'e | Move nat | Consume

definition remove_nth :: "nat \<Rightarrow> 'a list \<Rightarrow> 'a list" where
  "remove_nth i xs = take i xs @ drop (Suc i) xs"

fun fly :: "'e flight \<Rightarrow> 'e action \<Rightarrow> 'e flight" where
  "fly f (Begin e) = f\<lparr>active := active f @ [TrySend e]\<rparr>"
| "fly f Consume = (case fch f of [] \<Rightarrow> f | x # xs \<Rightarrow> f\<lparr>fch := xs, got := got f @ [x]\<rparr>)"
| "fly f (Move i) =
     (if length (active f) \<le> i then f
      else
        (case active f ! i of
           TrySend e \<Rightarrow>
             if length (fch f) < SubscriberBuffer
             then f\<lparr>fch := fch f @ [e], sent := sent f @ [e], active := remove_nth i (active f)\<rparr>
             else f\<lparr>active := (active f)[i := TakeOldest e]\<rparr>
         | TakeOldest e \<Rightarrow>
             (case fch f of
                [] \<Rightarrow> f\<lparr>active := (active f)[i := Resend e None]\<rparr>
              | x # xs \<Rightarrow>
                  f\<lparr>fch := xs, lost := lost f @ [x], active := (active f)[i := Resend e (Some x)]\<rparr>)
         | Resend e d \<Rightarrow>
             if length (fch f) < SubscriberBuffer
             then f\<lparr>fch := fch f @ [e], sent := sent f @ [e], fdropped := fdropped f + 1,
                    active := remove_nth i (active f)\<rparr>
             else f\<lparr>fdropped := fdropped f + 1, lost := lost f @ [e], active := remove_nth i (active f)\<rparr>))"

definition idle :: "'e list \<Rightarrow> int \<Rightarrow> 'e flight" where
  "idle ch d = \<lparr>fch = ch, fdropped = d, active = [], sent = ch, got = [], lost = []\<rparr>"

text \<open>One delivery run without interruption is \<open>deliver\<close>.\<close>

lemma deliver_refines:
  assumes "\<not> cclosed c"
  shows "deliver c d e =
    (let f = foldl fly (idle (cbuf c) d) [Begin e, Move 0, Move 0, Move 0]
     in Some (c\<lparr>cbuf := fch f\<rparr>, fdropped f))"
  using assms
  by (cases "cbuf c")
     (auto simp: deliver_def try_send_def try_recv_def idle_def remove_nth_def SubscriberBuffer_def Let_def)

text \<open>
  How many events the deliveries in progress have lost without having counted it yet.
\<close>

definition uncounted :: "'e delivery \<Rightarrow> int" where
  "uncounted p = (case p of Resend _ (Some _) \<Rightarrow> 1 | _ \<Rightarrow> 0)"

definition flight_inv :: "'e flight \<Rightarrow> bool" where
  "flight_inv f \<longleftrightarrow>
     length (fch f) \<le> SubscriberBuffer
     \<and> subseq (got f @ fch f) (sent f)
     \<and> int (length (lost f)) \<le> 2 * fdropped f + sum_list (map uncounted (active f))
     \<and> 0 \<le> fdropped f"

lemma sum_list_remove_nth:
  "i < length xs \<Longrightarrow> sum_list (map g (remove_nth i xs)) = sum_list (map g xs) - (g (xs ! i) :: int)"
  by (subst (2) id_take_nth_drop [of i xs]) (simp_all add: remove_nth_def)

lemma sum_list_set_nth:
  "i < length xs \<Longrightarrow> sum_list (map g (xs[i := y])) = sum_list (map g xs) - g (xs ! i) + (g y :: int)"
  by (subst (2) id_take_nth_drop [of i xs]) (simp_all add: upd_conv_take_nth_drop)

lemma subseq_drop_mid: "subseq (xs @ y # ys) zs \<Longrightarrow> subseq (xs @ ys) zs"
proof -
  have "subseq (xs @ ys) (xs @ y # ys)" by (induction xs) auto
  then show "subseq (xs @ y # ys) zs \<Longrightarrow> ?thesis" by (rule subseq_order.trans)
qed

lemma subseq_snoc: "subseq xs ys \<Longrightarrow> subseq (xs @ [e]) (ys @ [e])"
  by (simp add: list_emb_append_mono)

lemma fly_inv: "flight_inv f \<Longrightarrow> flight_inv (fly f a)"
proof (cases a)
  case (Begin e)
  then show "flight_inv f \<Longrightarrow> ?thesis" by (simp add: flight_inv_def uncounted_def)
next
  case Consume
  then show "flight_inv f \<Longrightarrow> ?thesis" by (auto simp: flight_inv_def split: list.split)
next
  case (Move i)
  assume inv: "flight_inv f"
  show ?thesis
  proof (cases "i < length (active f)")
    case False
    with Move inv show ?thesis by simp
  next
    case True
    note sums = sum_list_remove_nth [OF True, of uncounted] sum_list_set_nth [OF True, of uncounted]
    show ?thesis
    proof (cases "active f ! i")
      case (TrySend e)
      with Move True inv sums show ?thesis
        using subseq_snoc [of "got f @ fch f" "sent f" e]
        by (auto simp: flight_inv_def uncounted_def)
    next
      case (TakeOldest e)
      with Move True inv sums show ?thesis
        using subseq_drop_mid [of "got f" _ _ "sent f"]
        by (auto simp: flight_inv_def uncounted_def split: list.split)
    next
      case (Resend e d)
      with Move True inv sums show ?thesis
        using subseq_snoc [of "got f @ fch f" "sent f" e]
        by (auto simp: flight_inv_def uncounted_def split: option.split)
    qed
  qed
qed

interpretation flight: machine fly "\<lambda>_. True" flight_inv
  by unfold_locales (rule fly_inv)

section \<open>Properties\<close>

fun delivered_event :: "'e delivery \<Rightarrow> 'e list" where
  "delivered_event (TrySend e) = [e]"
| "delivered_event (TakeOldest e) = [e]"
| "delivered_event (Resend e _) = [e]"

fun begun :: "'e action \<Rightarrow> 'e list" where
  "begun (Begin e) = [e]"
| "begun (Move i) = []"
| "begun Consume = []"

definition in_flight :: "'e flight \<Rightarrow> 'e multiset" where
  "in_flight f = mset (got f) + mset (fch f) + mset (lost f) + mset (concat (map delivered_event (active f)))"

lemma mset_remove_nth:
  "i < length xs \<Longrightarrow> mset (concat (map g xs)) = mset (g (xs ! i)) + mset (concat (map g (remove_nth i xs)))"
  by (subst (1) id_take_nth_drop [of i xs]) (simp_all add: remove_nth_def)

lemma mset_set_nth:
  "i < length xs \<Longrightarrow> g y = g (xs ! i) \<Longrightarrow> concat (map g (xs[i := y])) = concat (map g xs)"
  by (metis list_update_id map_update)

lemma fly_in_flight: "in_flight (fly f a) = in_flight f + mset (begun a)"
proof (cases a)
  case (Move i)
  show ?thesis
  proof (cases "i < length (active f)")
    case False
    with Move show ?thesis by simp
  next
    case True
    note m = mset_remove_nth [OF True, of delivered_event] mset_set_nth [OF True, of delivered_event]
    from Move True show ?thesis
      by (cases "active f ! i") (auto simp: in_flight_def m split: list.split)
  qed
qed (auto simp: in_flight_def split: list.split)

lemma run_in_flight: "in_flight (foldl fly f as) = in_flight f + mset (concat (map begun as))"
  by (induction as arbitrary: f) (simp_all add: fly_in_flight)

text \<open>
  Under every interleaving of publishers and the consumer a channel never holds more than 256 events, the consumer sees
  events in the order they were put on the channel, and every event whose delivery began is received, waiting, in
  progress or lost.
\<close>

lemma delivery_ordered:
  "let f = foldl fly (idle [] 0) as in
     length (fch f) \<le> 256 \<and> subseq (got f @ fch f) (sent f)
     \<and> mset (concat (map begun as)) =
         mset (got f) + mset (fch f) + mset (lost f) + mset (concat (map delivered_event (active f)))"
proof -
  have "flight_inv (foldl fly (idle [] 0) as)"
    by (rule flight.run_inv) (simp_all add: flight_inv_def idle_def list_all_iff)
  moreover have "in_flight (idle [] 0) = {#}" by (simp add: in_flight_def idle_def)
  then have "in_flight (foldl fly (idle [] 0) as) = mset (concat (map begun as))"
    by (simp add: run_in_flight)
  ultimately show ?thesis unfolding in_flight_def by (simp add: flight_inv_def SubscriberBuffer_def Let_def)
qed

text \<open>
  The loss counter is within a factor of two of the truth once no delivery is in progress:
  at most two events are lost for each one counted.
\<close>

theorem losses_bounded:
  assumes "active (foldl fly (idle [] 0) as) = []"
  shows "int (length (lost (foldl fly (idle [] 0) as))) \<le> 2 * fdropped (foldl fly (idle [] 0) as)"
proof -
  have "flight_inv (foldl fly (idle [] 0) as)"
    by (rule flight.run_inv) (simp_all add: flight_inv_def idle_def list_all_iff)
  with assms show ?thesis by (simp add: flight_inv_def)
qed

theorem losses_bounded_witness:
  "int (length (lost (foldl fly (idle [] 0) [Begin (7::int), Move 0, Consume]))) \<le> 0"
proof -
  have "active (foldl fly (idle [] 0) [Begin (7::int), Move 0, Consume]) = []"
    "fdropped (foldl fly (idle [] 0) [Begin (7::int), Move 0, Consume]) = 0"
    by (simp_all add: idle_def remove_nth_def SubscriberBuffer_def)
  with losses_bounded [of "[Begin (7::int), Move 0, Consume]"] show ?thesis by simp
qed

text \<open>
  The factor is reached: when a second publisher refills the slot a delivery has just
  freed, both the displaced event and the new one are lost and the counter grows by one.
\<close>

theorem counter_misses_a_loss:
  assumes "length xs = 255"
  shows "let f = foldl fly (idle (x # xs) d) [Begin e, Begin e', Move 0, Move 0, Move 1, Move 0] in
    lost f = [x, e] \<and> fdropped f = d + 1 \<and> active f = [] \<and> fch f = xs @ [e']"
  using assms by (simp add: idle_def remove_nth_def SubscriberBuffer_def)

theorem counter_misses_a_loss_witness:
  "lost (foldl fly (idle ((1::int) # replicate 255 2) 0) [Begin 3, Begin 4, Move 0, Move 0, Move 1, Move 0]) = [1, 3]"
  using counter_misses_a_loss [of "replicate 255 (2::int)" 1 0 3 4, OF length_replicate]
  unfolding Let_def by (rule conjunct1)

text \<open>
  Publishing on an open bus always succeeds; every interested subscriber ends with the new
  event last and otherwise the newest of what it had, up to 256 in all, and no other channel
  changes.
\<close>

theorem publish_keeps_newest:
  assumes "bus_ok b" and "\<not> bclosed b"
  shows "\<exists>b'. Publish kind_of b (Some e) = Some b' \<and> bus_ok b' \<and> \<not> bclosed b'
    \<and> (\<forall>i < length (bchans b). cbuf (bchans b' ! i) =
         (if \<exists>s \<in> set (bsubs b). sch s = i \<and> wants s (kind_of e)
          then drop (Suc (length (cbuf (bchans b ! i))) - 256) (cbuf (bchans b ! i) @ [e])
          else cbuf (bchans b ! i)))"
proof -
  from Publish_open [OF assms, of kind_of e] obtain b' where
    b: "Publish kind_of b (Some e) = Some b'" "bus_ok b'" "\<not> bclosed b'"
    and ch: "\<forall>i < length (bchans b). bchans b' ! i =
         (if \<exists>s \<in> set (bsubs b). sch s = i \<and> wants s (kind_of e)
          then (bchans b ! i)\<lparr>cbuf := last_n SubscriberBuffer (cbuf (bchans b ! i) @ [e])\<rparr> else bchans b ! i)"
    by blast
  have l: "last_n SubscriberBuffer (ys @ [e]) = drop (Suc (length ys) - 256) (ys @ [e])" for ys
    by (simp add: last_n_def SubscriberBuffer_def del: drop_append)
  have "cbuf (bchans b' ! i) = (if \<exists>s \<in> set (bsubs b). sch s = i \<and> wants s (kind_of e)
          then drop (Suc (length (cbuf (bchans b ! i))) - 256) (cbuf (bchans b ! i) @ [e])
          else cbuf (bchans b ! i))" if "i < length (bchans b)" for i
    unfolding ch [rule_format, OF that] if_distrib [of cbuf] l [symmetric] by auto
  with b show ?thesis by blast
qed

theorem publish_keeps_newest_witness:
  "\<exists>b'. Publish (\<lambda>e. ''k'') (fst (Subscribe (New :: int bus) ''a'' [])) (Some 5) = Some b'
    \<and> cbuf (bchans b' ! 0) = [5]"
proof -
  let ?b = "fst (Subscribe (New :: int bus) ''a'' [])"
  have ok: "bus_ok ?b" "\<not> bclosed ?b" by (simp_all add: Subscribe_def New_def bus_ok_def)
  obtain b' where b: "Publish (\<lambda>e. ''k'') ?b (Some 5) = Some b'"
    "\<forall>i < length (bchans ?b). cbuf (bchans b' ! i) =
         (if \<exists>s \<in> set (bsubs ?b). sch s = i \<and> wants s ''k''
          then drop (Suc (length (cbuf (bchans ?b ! i))) - 256) (cbuf (bchans ?b ! i) @ [5])
          else cbuf (bchans ?b ! i))"
    using publish_keeps_newest [OF ok, of "\<lambda>e. ''k''" 5] by blast
  have "cbuf (bchans b' ! 0) = [5]"
    using b(2) [rule_format, of 0] by (simp add: Subscribe_def New_def wants_def)
  with b(1) show ?thesis by blast
qed

text \<open>
  No sequence of subscriptions, publications, receives and closes ever panics: the bus
  never sends on a closed channel or closes one twice, and once closed every channel handed out
  is closed.
\<close>

theorem bus_never_panics:
  "\<exists>b. foldl (bus_step kind_of) (Some New) ops = Some b
    \<and> (\<forall>i < length (bchans b). length (cbuf (bchans b ! i)) \<le> 256 \<and> (bclosed b \<longrightarrow> cclosed (bchans b ! i)))"
proof -
  have "\<exists>b. foldl (bus_step kind_of) (Some New) ops = Some b \<and> bus_ok b"
    by (rule bus.run_inv) (simp_all add: bus_ok_def New_def list_all_iff)
  then show ?thesis by (auto simp: bus_ok_def SubscriberBuffer_def)
qed

theorem bus_never_panics_witness:
  "\<exists>b. foldl (bus_step (\<lambda>e. ''k'')) (Some New)
      [OSubscribe ''a'' [], OPublish (Some (5 :: int)), OClose, OPublish (Some 6)] = Some b"
  using bus_never_panics [of "\<lambda>e. ''k''" "[OSubscribe ''a'' [], OPublish (Some (5 :: int)), OClose, OPublish (Some 6)]"]
  by blast

section \<open>A subscriber's inbox\<close>

text \<open>
  What a subscriber is promised, with no channels in it: the events it asked for that it has not read yet, oldest first,
  at most 256 of them, the oldest giving way to a new one, and how many gave way. Once the bus is closed nothing is
  added and what is held can still be read.
\<close>

record 'e inbox =
  ibOpen :: bool
  ibHeld :: "'e list"
  ibLost :: int

definition take_in :: "'e \<Rightarrow> 'e inbox \<Rightarrow> 'e inbox" where
  "take_in e x =
     (if \<not> ibOpen x then x
      else if length (ibHeld x) < 256 then x\<lparr>ibHeld := ibHeld x @ [e]\<rparr>
      else x\<lparr>ibHeld := tl (ibHeld x) @ [e], ibLost := ibLost x + 1\<rparr>)"

fun inbox_step :: "('e \<Rightarrow> string) \<Rightarrow> string list \<Rightarrow> nat \<Rightarrow> 'e inbox \<Rightarrow> 'e bus_op \<Rightarrow> 'e inbox" where
  "inbox_step kind_of kinds i x (OPublish (Some e)) = (if kinds = [] \<or> kind_of e \<in> set kinds then take_in e x else x)"
| "inbox_step kind_of kinds i x (OPublish None) = x"
| "inbox_step kind_of kinds i x (OReceive j) = (if j = i then x\<lparr>ibHeld := tl (ibHeld x)\<rparr> else x)"
| "inbox_step kind_of kinds i x OClose = x\<lparr>ibOpen := False\<rparr>"
| "inbox_step kind_of kinds i x (OSubscribe _ _) = x"

definition crowded :: "'e chan list \<Rightarrow> string \<Rightarrow> subscription \<Rightarrow> subscription" where
  "crowded chans kind s = s\<lparr>sdropped := sdropped s +
     (if wants s kind \<and> SubscriberBuffer \<le> length (cbuf (chans ! sch s)) then 1 else 0)\<rparr>"

lemma deliver_all_counts:
  assumes "\<forall>s \<in> set ss. sub_ok chans s \<and> length (cbuf (chans ! sch s)) \<le> SubscriberBuffer" "distinct (map sch ss)"
    and "deliver_all kind e ss chans = Some (ss', chans')"
  shows "ss' = map (crowded chans kind) ss"
  using assms
proof (induction ss arbitrary: chans ss')
  case (Cons s ss)
  show ?case
  proof (cases "wants s kind")
    case False
    with Cons.prems obtain ss1 where "deliver_all kind e ss chans = Some (ss1, chans')" "ss' = s # ss1" by auto
    with Cons.IH [of chans ss1] Cons.prems False show ?thesis by (simp add: crowded_def)
  next
    case True
    have s: "\<not> cclosed (chans ! sch s)" "length (cbuf (chans ! sch s)) \<le> SubscriberBuffer"
      using Cons.prems(1) by (auto simp: sub_ok_def)
    obtain c d where d: "deliver (chans ! sch s) (sdropped s) e = Some (c, d)" "cclosed c = cclosed (chans ! sch s)"
      "d = sdropped s + int (length (cbuf (chans ! sch s) @ [e]) - length (last_n SubscriberBuffer (cbuf (chans ! sch s) @ [e])))"
      using deliver_open [OF s, of "sdropped s" e] by auto
    with Cons.prems(3) True obtain ss1 where r: "deliver_all kind e ss (chans[sch s := c]) = Some (ss1, chans')"
      "ss' = s\<lparr>sdropped := d\<rparr> # ss1" by auto
    have fresh: "\<forall>t \<in> set ss. sch t \<noteq> sch s" using Cons.prems(2) by (auto simp: image_iff dest: sym)
    have "ss1 = map (crowded (chans[sch s := c]) kind) ss"
      using Cons.prems(1,2) fresh by (intro Cons.IH [OF _ _ r(1)]) (auto simp: sub_ok_def)
    moreover have "map (crowded (chans[sch s := c]) kind) ss = map (crowded chans kind) ss"
      using fresh by (auto simp: crowded_def)
    moreover have "s\<lparr>sdropped := d\<rparr> = crowded chans kind s"
      using s(2) True d(3) by (auto simp: crowded_def last_n_def)
    ultimately show ?thesis using r(2) by simp
  qed
qed simp

lemma Publish_counts:
  assumes "bus_ok b" "\<not> bclosed b" "Publish kind_of b (Some e) = Some b'"
  shows "bsubs b' = map (crowded (bchans b) (kind_of e)) (bsubs b)"
proof -
  obtain ss chans where d: "deliver_all (kind_of e) e (bsubs b) (bchans b) = Some (ss, chans)" "bsubs b' = ss"
    using assms(2,3) by (auto simp: Publish_def)
  have "\<forall>s \<in> set (bsubs b). sub_ok (bchans b) s \<and> length (cbuf (bchans b ! sch s)) \<le> SubscriberBuffer"
    "distinct (map sch (bsubs b))" using assms(1) by (auto simp: bus_ok_def sub_ok_def)
  from deliver_all_counts [OF this d(1)] d(2) show ?thesis by simp
qed

text \<open>The bus keeps the promise of the subscription at channel \<open>i\<close>.\<close>

definition serves :: "string \<Rightarrow> string list \<Rightarrow> nat \<Rightarrow> 'e bus \<Rightarrow> 'e inbox \<Rightarrow> bool" where
  "serves name kinds i b x \<longleftrightarrow> i < length (bchans b) \<and> cbuf (bchans b ! i) = ibHeld x
     \<and> (ibOpen x \<longleftrightarrow> \<not> bclosed b)
     \<and> (ibOpen x \<longrightarrow> (\<exists>s \<in> set (bsubs b). sch s = i \<and> sname s = name \<and> sdropped s = ibLost x
          \<and> skinds s = (if kinds = [] then None else Some kinds)))"

lemma last_n_full:
  "length xs \<le> SubscriberBuffer \<Longrightarrow>
   last_n SubscriberBuffer (xs @ [e]) = (if length xs < 256 then xs @ [e] else tl xs @ [e])"
  by (cases xs) (auto simp: last_n_def SubscriberBuffer_def)

lemma serves_publish:
  assumes "serves name kinds i b x" "bus_ok b" "Publish kind_of b (Some e) = Some b'"
  shows "serves name kinds i b' (inbox_step kind_of kinds i x (OPublish (Some e)))"
proof (cases "bclosed b")
  case True
  with assms show ?thesis by (auto simp: serves_def Publish_def take_in_def)
next
  case False
  from assms(1) False obtain s where s: "s \<in> set (bsubs b)" "sch s = i" "sname s = name" "sdropped s = ibLost x"
    "skinds s = (if kinds = [] then None else Some kinds)" "ibOpen x" "i < length (bchans b)" "cbuf (bchans b ! i) = ibHeld x"
    by (auto simp: serves_def)
  have w: "wants s (kind_of e) \<longleftrightarrow> kinds = [] \<or> kind_of e \<in> set kinds" using s(5) by (simp add: wants_def)
  have l: "length (ibHeld x) \<le> SubscriberBuffer" using assms(2) s(7,8) unfolding bus_ok_def by metis
  have one: "t = s" if "t \<in> set (bsubs b)" "sch t = i" for t
    using assms(2) that s(1,2) unfolding bus_ok_def by (metis inj_onD distinct_map)
  from Publish_open [OF assms(2) False, of kind_of e] assms(3)
  have p: "\<not> bclosed b'" "map sch (bsubs b') = map sch (bsubs b)" "bus_ok b'"
    "bchans b' ! i = (if \<exists>s \<in> set (bsubs b). sch s = i \<and> wants s (kind_of e)
       then (bchans b ! i)\<lparr>cbuf := last_n SubscriberBuffer (cbuf (bchans b ! i) @ [e])\<rparr> else bchans b ! i)"
    using s(7) by auto
  have "crowded (bchans b) (kind_of e) s \<in> set (bsubs b')"
    unfolding Publish_counts [OF assms(2) False assms(3)] using s(1) by simp
  moreover from this have "i < length (bchans b')" using p(3) s(2) by (auto simp: bus_ok_def crowded_def)
  moreover have "(\<exists>s \<in> set (bsubs b). sch s = i \<and> wants s (kind_of e)) \<longleftrightarrow> kinds = [] \<or> kind_of e \<in> set kinds"
    using one s(1,2) w by blast
  moreover have "crowded (bchans b) (kind_of e) s = s\<lparr>sdropped := ibLost x +
      (if (kinds = [] \<or> kind_of e \<in> set kinds) \<and> \<not> length (ibHeld x) < 256 then 1 else 0)\<rparr>"
    using s w by (simp add: crowded_def SubscriberBuffer_def)
  moreover define t where "t = crowded (bchans b) (kind_of e) s"
  ultimately have t: "t \<in> set (bsubs b')" "sch t = i" "sname t = name" "skinds t = skinds s" "i < length (bchans b')"
    "sdropped t = ibLost x + (if (kinds = [] \<or> kind_of e \<in> set kinds) \<and> \<not> length (ibHeld x) < 256 then 1 else 0)"
    "cbuf (bchans b' ! i) = (if kinds = [] \<or> kind_of e \<in> set kinds
       then (if length (ibHeld x) < 256 then ibHeld x @ [e] else tl (ibHeld x) @ [e]) else ibHeld x)"
    using p(4) s last_n_full [OF l, of e] by simp_all
  let ?x = "inbox_step kind_of kinds i x (OPublish (Some e))"
  have "ibOpen ?x" "ibHeld ?x = cbuf (bchans b' ! i)" "ibLost ?x = sdropped t"
    using s(6) t(6,7) by (simp_all add: take_in_def)
  with t(1-5) p(1) s(5) show ?thesis unfolding serves_def by auto
qed

lemma serves_step:
  assumes "serves name kinds i b x" "bus_ok b"
  shows "\<exists>b'. bus_step kind_of (Some b) op = Some b' \<and> bus_ok b' \<and> serves name kinds i b' (inbox_step kind_of kinds i x op)"
proof -
  obtain b' where b': "bus_step kind_of (Some b) op = Some b'" "bus_ok b'" using bus_step_ok [OF assms(2)] by blast
  have "serves name kinds i b' (inbox_step kind_of kinds i x op)"
  proof (cases op)
    case (OSubscribe n ks)
    with b'(1) assms(1) show ?thesis by (auto simp: serves_def Subscribe_def Let_def nth_append)
  next
    case (OPublish ev)
    show ?thesis
    proof (cases ev)
      case None
      with OPublish b'(1) assms(1) show ?thesis by (simp add: Publish_def)
    next
      case (Some e)
      with OPublish b'(1) have "Publish kind_of b (Some e) = Some b'" by simp
      from serves_publish [OF assms this] OPublish Some show ?thesis by simp
    qed
  next
    case (OReceive j)
    have "cbuf (snd (try_recv c)) = tl (cbuf c)" for c :: "'a chan" by (simp add: try_recv_def split: list.split)
    with OReceive b'(1) assms(1) show ?thesis
      by (cases "j < length (bchans b)") (auto simp: serves_def nth_list_update)
  next
    case OClose
    from Close_ok [OF assms(2)] OClose b'(1) have "bclosed b'" "map cbuf (bchans b') = map cbuf (bchans b)" by auto
    then show ?thesis using OClose assms(1) by (auto simp: serves_def) (metis length_map nth_map)+
  qed
  with b' show ?thesis by blast
qed

lemma serves_run:
  "serves name kinds i b x \<Longrightarrow> bus_ok b \<Longrightarrow>
   \<exists>b'. foldl (bus_step kind_of) (Some b) ops = Some b' \<and> serves name kinds i b' (foldl (inbox_step kind_of kinds i) x ops)"
proof (induction ops arbitrary: b x)
  case (Cons op ops)
  from serves_step [OF Cons.prems, of kind_of op] obtain b' where
    "bus_step kind_of (Some b) op = Some b'" "bus_ok b'" "serves name kinds i b' (inbox_step kind_of kinds i x op)" by blast
  with Cons.IH [OF this(3,2)] show ?case by simp
qed auto

text \<open>
  C28: a subscriber gets what it was promised, in order, and the newest is kept. Whatever was done with the bus
  before it subscribed and whatever is done after, one operation after another (other subscriptions, publications,
  reads by anyone, closing), the bus does not panic and the subscriber's channel holds exactly the events of its kinds published since and not yet read, in
  the order they were published; beyond 256 the oldest gives way to the new one, each such loss is counted once, and
  events of other kinds and the slowness of other subscribers make no difference. After closing nothing is added.
\<close>

theorem subscriber_is_served:
  assumes "foldl (bus_step kind_of) (Some New) before = Some b" and "Subscribe b name kinds = (b1, i)"
  shows "\<exists>b'. foldl (bus_step kind_of) (Some b1) after = Some b'
    \<and> (let x = foldl (inbox_step kind_of kinds i) \<lparr>ibOpen = \<not> bclosed b, ibHeld = [], ibLost = 0\<rparr> after
       in cbuf (bchans b' ! i) = ibHeld x \<and> (ibOpen x \<longleftrightarrow> \<not> bclosed b') \<and> (cclosed (bchans b' ! i) \<longleftrightarrow> \<not> ibOpen x)
         \<and> (ibOpen x \<longrightarrow> (\<exists>s \<in> set (bsubs b'). sch s = i \<and> sname s = name \<and> sdropped s = ibLost x)))"
proof -
  have "\<exists>b. foldl (bus_step kind_of) (Some New) before = Some b \<and> bus_ok b"
    by (rule bus.run_inv) (simp_all add: bus_ok_def New_def list_all_iff)
  with assms(1) have ok: "bus_ok b" by simp
  then have ok1: "bus_ok b1" using Subscribe_ok [OF ok, of name kinds] assms(2) by simp
  have sv: "serves name kinds i b1 \<lparr>ibOpen = \<not> bclosed b, ibHeld = [], ibLost = 0\<rparr>"
    using assms(2) by (auto simp: serves_def Subscribe_def Let_def nth_append split: if_splits)
  obtain b' where b': "foldl (bus_step kind_of) (Some b1) after = Some b'"
    "serves name kinds i b' (foldl (inbox_step kind_of kinds i) \<lparr>ibOpen = \<not> bclosed b, ibHeld = [], ibLost = 0\<rparr> after)"
    using serves_run [OF sv ok1, of kind_of after] by blast
  have "\<exists>b'. foldl (bus_step kind_of) (Some b1) after = Some b' \<and> bus_ok b'"
    using ok1 by (intro bus.run_inv) (simp_all add: list_all_iff)
  with b'(1) have "bus_ok b'" by simp
  with b' show ?thesis by (auto simp: serves_def Let_def bus_ok_def)
qed

text \<open>A subscriber of one kind that never reads: of 300 events of its kind the last 256 are there, and 44 are counted.\<close>

theorem subscriber_is_served_witness:
  "\<exists>b'. foldl (bus_step (\<lambda>n. if n < (0 :: int) then ''other'' else ''k'')) (Some (fst (Subscribe New ''a'' [''k''])))
      (OPublish (Some (- 1)) # map (\<lambda>n. OPublish (Some (int n))) [0..<300]) = Some b'
    \<and> cbuf (bchans b' ! 0) = map int [44..<300]"
proof -
  let ?k = "\<lambda>n. if n < (0 :: int) then ''other'' else ''k''"
  let ?ops = "OPublish (Some (- 1)) # map (\<lambda>n. OPublish (Some (int n))) [0..<300]"
  have "Subscribe New ''a'' [''k''] = (fst (Subscribe New ''a'' [''k'']) :: int bus, 0)"
    by (simp add: Subscribe_def New_def)
  from subscriber_is_served [OF _ this, of ?k "[]" ?ops] obtain b' where
    "foldl (bus_step ?k) (Some (fst (Subscribe New ''a'' [''k'']))) ?ops = Some b'"
    "cbuf (bchans b' ! 0) = ibHeld (foldl (inbox_step ?k [''k''] 0) \<lparr>ibOpen = \<not> bclosed (New :: int bus), ibHeld = [], ibLost = 0\<rparr> ?ops)"
    by (auto simp: Let_def)
  moreover have "ibHeld (foldl (inbox_step ?k [''k''] 0) \<lparr>ibOpen = \<not> bclosed (New :: int bus), ibHeld = [], ibLost = 0\<rparr> ?ops)
      = map int [44..<300]" by code_simp
  ultimately show ?thesis by auto
qed

end
