(* ===== verification/Store_Db.thy ===== *)
theory Store_Db
  imports Chain_View
begin

text \<open>
  What the parts of \<open>internal/store\<close> share: the enumerations of its columns, the rows of its
  tables and how a call can fail. The database is a third party; a table is the list of its
  rows, in order of the integer primary key where it has one. A column that stores a zero or
  an empty string as NULL and reads NULL back as that value holds the value itself. Every call
  opens one transaction or runs one statement: it either fails as a whole, leaving the tables
  as they were, or takes effect as a whole. Which calls fail is a script of the environment,
  consumed one entry per call; when it has run out no more calls fail.
\<close>

section \<open>Column values\<close>

datatype spend_shape =
    ShapeMutualClose | ShapeCommitmentOurs | ShapeCommitmentUnknown | ShapeCommitmentRevoked
  | ShapeJustice | ShapeDelayedSweep | ShapeHTLCClaim | ShapeUnknown | ShapeOther string

fun Shape_Valid :: "spend_shape \<Rightarrow> bool" where
  "Shape_Valid (ShapeOther _) = False"
| "Shape_Valid _ = True"

datatype spend_status = SpendMempool | SpendConfirmed | SpendReorgedOut | SpendStatusOther string

fun Status_Valid :: "spend_status \<Rightarrow> bool" where
  "Status_Valid (SpendStatusOther _) = False"
| "Status_Valid _ = True"

datatype outpoint_role = RoleToLocal | RoleToRemote | RoleHTLC | RoleAnchor | RoleUnknown | RoleOther string

fun Role_Valid :: "outpoint_role \<Rightarrow> bool" where
  "Role_Valid (RoleOther _) = False"
| "Role_Valid _ = True"

datatype deadline_kind = DeadlineCSV | DeadlineHTLCIncoming | DeadlineHTLCOutgoing | DeadlineKindOther string

fun DeadlineKind_Valid :: "deadline_kind \<Rightarrow> bool" where
  "DeadlineKind_Valid (DeadlineKindOther _) = False"
| "DeadlineKind_Valid _ = True"

datatype deadline_state = DeadlineCounting | DeadlineResolved | DeadlineExpired | DeadlineStateOther string

fun DeadlineState_Valid :: "deadline_state \<Rightarrow> bool" where
  "DeadlineState_Valid (DeadlineStateOther _) = False"
| "DeadlineState_Valid _ = True"

datatype ln_impl = ImplLND | ImplCLN | ImplOther string

fun Impl_Valid :: "ln_impl \<Rightarrow> bool" where
  "Impl_Valid (ImplOther _) = False"
| "Impl_Valid _ = True"

datatype chan_type =
    ChanLegacy | ChanStaticRemote | ChanAnchors | ChanTaproot | ChanTypeUnknown | ChanTypeOther string

fun ChanType_Valid :: "chan_type \<Rightarrow> bool" where
  "ChanType_Valid (ChanTypeOther _) = False"
| "ChanType_Valid _ = True"

datatype close_state = CloseOpen | ClosePending | CloseCoop | CloseForce | CloseBreach | CloseOther string

fun CloseState_Valid :: "close_state \<Rightarrow> bool" where
  "CloseState_Valid (CloseOther _) = False"
| "CloseState_Valid _ = True"

datatype relevance = Relevant | Irrelevant | RelevanceUnknown | RelevanceOther string

fun Relevance_Valid :: "relevance \<Rightarrow> bool" where
  "Relevance_Valid (RelevanceOther _) = False"
| "Relevance_Valid _ = True"

section \<open>Rows\<close>

record ln_node =
  nodeID :: string
  nodeImpl :: ln_impl
  nodeAlias :: string
  nodeLastSeenAt :: int

record channel =
  chID :: int
  chLNNodeID :: string
  chFundingTxID :: string
  chFundingVout :: int
  chFundingScriptHex :: string
  chCapacitySat :: int
  chChanType :: chan_type
  chCSVDelayLocal :: "int option"
  chCSVDelayRemote :: "int option"
  chPeerPubkey :: string
  chPeerAlias :: string
  chOpenHeight :: int
  chSCID :: string
  chCloseState :: close_state
  chCloseTxID :: string
  chCloseHeight :: int
  chRelevance :: relevance
  chRelevanceReason :: string
  chMirrorFundingOptIn :: bool
  chUpdatedAt :: int

record htlc_snapshot =
  htDirection :: string
  htAmountMsat :: int
  htCLTVExpiry :: int
  htPaymentHash :: string

record spend =
  spID :: int
  spBranch :: branch
  spChannelID :: int
  spOutpointTxID :: string
  spOutpointVout :: int
  spSpendTxID :: string
  spSpendTxHex :: string
  spBlockHash :: string
  spBlockHeight :: int
  spShape :: spend_shape
  spStatus :: spend_status
  spFirstSeenAt :: int
  spUpdatedAt :: int

record watch_outpoint =
  woBranch :: branch
  woTxID :: string
  woVout :: int
  woScriptHex :: string
  woSourceSpendEventID :: int
  woRole :: outpoint_role

record deadline =
  dlID :: int
  dlSpendEventID :: int
  dlKind :: deadline_kind
  dlHeight :: int
  dlState :: deadline_state
  dlEscalation :: int
  dlAssumed :: bool
  dlResolvedByTxID :: string
  dlUpdatedAt :: int

text \<open>An HTLC row also says which channel it belongs to and when it was taken.\<close>

record db =
  t_nodes :: "ln_node list"
  t_channels :: "channel list"
  t_htlcs :: "(int \<times> int \<times> htlc_snapshot) list"
  t_spends :: "spend list"
  t_outpoints :: "watch_outpoint list"
  t_deadlines :: "deadline list"
  faults :: "bool list"

definition empty_db :: db where
  "empty_db = \<lparr>t_nodes = [], t_channels = [], t_htlcs = [], t_spends = [], t_outpoints = [],
     t_deadlines = [], faults = []\<rparr>"

section \<open>Calls\<close>

text \<open>
  \<open>StoreNotFound\<close> is \<open>store.ErrNotFound\<close>, the one error callers tell apart; \<open>StoreInvalid\<close> is an
  argument a method refuses before touching the database, \<open>StoreConstraint\<close> a foreign key the
  database refuses, \<open>StoreIO\<close> any other failure of the call.
\<close>

datatype store_err = StoreNotFound | StoreInvalid | StoreConstraint | StoreIO

definition db_call :: "('x db_scheme \<Rightarrow> 'x db_scheme \<times> (store_err + 'a)) \<Rightarrow> 'x db_scheme
    \<Rightarrow> 'x db_scheme \<times> (store_err + 'a)" where
  "db_call f d =
     (case faults d of
        [] \<Rightarrow> f d
      | fault # fs \<Rightarrow> if fault then (d\<lparr>faults := fs\<rparr>, Inl StoreIO) else f (d\<lparr>faults := fs\<rparr>))"

text \<open>A reading call leaves the tables alone.\<close>

definition db_read :: "('x db_scheme \<Rightarrow> store_err + 'a) \<Rightarrow> 'x db_scheme \<Rightarrow> 'x db_scheme \<times> (store_err + 'a)" where
  "db_read f = db_call (\<lambda>d. (d, f d))"

lemma db_read_unfold:
  "db_read f d =
     (case faults d of
        [] \<Rightarrow> (d, f d)
      | fault # fs \<Rightarrow> (d\<lparr>faults := fs\<rparr>, if fault then Inl StoreIO else f (d\<lparr>faults := fs\<rparr>)))"
  by (simp add: db_read_def db_call_def split: list.split)

definition clampLimit :: "int \<Rightarrow> int \<Rightarrow> int \<Rightarrow> int" where
  "clampLimit requested def maximum =
     (if requested \<le> 0 then def else if maximum < requested then maximum else requested)"

text \<open>
  An update by primary key: \<open>requireOneRow\<close> turns an update that matched no row into an error.
\<close>

definition requireOneRow :: "('r \<Rightarrow> int) \<Rightarrow> int \<Rightarrow> 'r list \<Rightarrow> ('r list \<Rightarrow> 'x db_scheme) \<Rightarrow> ('r \<Rightarrow> 'r)
    \<Rightarrow> 'x db_scheme \<Rightarrow> 'x db_scheme \<times> (store_err + unit)" where
  "requireOneRow rid i rows put f d =
     (if list_ex (\<lambda>r. rid r = i) rows then (put (update_row rid i f rows), Inr ())
      else (d, Inl StoreNotFound))"

text \<open>
  What holds of a call whatever the script: enough to show it of the call when it is not failed
  and of the tables when the script moves on.
\<close>

lemma db_call_cases:
  assumes "db_call f d = (d', r)"
  obtains (failed) fs where "faults d = True # fs" "d' = d\<lparr>faults := fs\<rparr>" "r = Inl StoreIO"
  | (ran) fs where "f (d\<lparr>faults := fs\<rparr>) = (d', r)"
proof (cases "faults d")
  case Nil
  have "d\<lparr>faults := faults d\<rparr> = d" by simp
  moreover from Nil assms have "f d = (d', r)" by (simp add: db_call_def)
  ultimately show ?thesis by (metis ran)
next
  case (Cons fault fs)
  show ?thesis
  proof (cases fault)
    case True
    with Cons assms show ?thesis by (intro failed) (auto simp add: db_call_def)
  next
    case False
    with Cons assms show ?thesis by (intro ran) (simp add: db_call_def)
  qed
qed

lemma db_read_cases:
  assumes "db_read f d = (d', r)"
  obtains fs where "d' = d\<lparr>faults := fs\<rparr>" and "r = Inl StoreIO \<or> r = f (d\<lparr>faults := fs\<rparr>)"
proof -
  from assms [unfolded db_read_def] show ?thesis
  proof (cases rule: db_call_cases)
    case (failed fs)
    then show ?thesis by (intro that) simp_all
  next
    case (ran fs)
    then show ?thesis by (intro that [of fs]) auto
  qed
qed

end
