(* ===== verification/Deadline_Compute.thy ===== *)
theory Deadline_Compute
  imports Go_Float Store_Db
begin

text \<open>
  \<open>internal/deadline/compute.go\<close>: the pure rules of a countdown. What deadlines a confirmed
  commitment starts, which of them comes first, how far along a countdown is, and what is said
  about the time left. Heights and delays are \<open>int32\<close>; the fraction of the window and the
  projection are computed in doubles, as the source does.
\<close>

section \<open>Constants\<close>

definition LevelDetected :: int where "LevelDetected = 1"
definition LevelHalf :: int where "LevelHalf = 2"
definition LevelUrgent :: int where "LevelUrgent = 3"

definition halfThreshold :: rat where "halfThreshold = fl (1 / 2)"
definition urgentThreshold :: rat where "urgentThreshold = fl (1 / 5)"

definition directionIncoming :: string where "directionIncoming = ''incoming''"
definition directionOutgoing :: string where "directionOutgoing = ''outgoing''"

definition maxSaneDelay :: int where "maxSaneDelay = 2 ^ 16"
definition AssumedDeadlineFloor :: int where "AssumedDeadlineFloor = 144"

lemmas level_defs = LevelDetected_def LevelHalf_def LevelUrgent_def

section \<open>The deadlines a commitment starts\<close>

record inputs =
  inConfirmHeight :: int
  inShape :: spend_shape
  inCSVDelayLocal :: "int option"
  inCSVDelayRemote :: "int option"
  inHTLCs :: "htlc_snapshot list"

record computed =
  coKind :: deadline_kind
  coHeight :: int
  coAssumed :: bool

definition applicableDelay :: "inputs \<Rightarrow> int option" where
  "applicableDelay inp =
     (let chosen = (if inShape inp = ShapeCommitmentOurs then inCSVDelayLocal inp else inCSVDelayRemote inp)
      in case chosen of
           None \<Rightarrow> None
         | Some delay \<Rightarrow> if delay \<le> 0 \<or> maxSaneDelay \<le> delay then None else Some delay)"

definition computeCSV :: "inputs \<Rightarrow> computed" where
  "computeCSV inp =
     (case applicableDelay inp of
        None \<Rightarrow> \<lparr>coKind = DeadlineCSV, coHeight = i32 (inConfirmHeight inp + AssumedDeadlineFloor), coAssumed = True\<rparr>
      | Some delay \<Rightarrow> \<lparr>coKind = DeadlineCSV, coHeight = i32 (inConfirmHeight inp + delay), coAssumed = False\<rparr>)"

definition htlcKind :: "string \<Rightarrow> deadline_kind option" where
  "htlcKind direction =
     (if direction = directionIncoming then Some DeadlineHTLCIncoming
      else if direction = directionOutgoing then Some DeadlineHTLCOutgoing else None)"

definition computeHTLC :: "inputs \<Rightarrow> htlc_snapshot \<Rightarrow> computed option" where
  "computeHTLC inp h =
     (case htlcKind (htDirection h) of
        None \<Rightarrow> None
      | Some kind \<Rightarrow>
          if htCLTVExpiry h \<le> 0
          then Some \<lparr>coKind = kind, coHeight = i32 (inConfirmHeight inp + AssumedDeadlineFloor), coAssumed = True\<rparr>
          else Some \<lparr>coKind = kind, coHeight = htCLTVExpiry h, coAssumed = False\<rparr>)"

definition Compute :: "inputs \<Rightarrow> computed list" where
  "Compute inp = computeCSV inp # List.map_filter (computeHTLC inp) (inHTLCs inp)"

fun earliest_loop :: "computed list \<Rightarrow> computed option \<Rightarrow> computed option" where
  "earliest_loop [] best = best"
| "earliest_loop (c # cs) best =
     (case best of
        None \<Rightarrow> earliest_loop cs (Some c)
      | Some b \<Rightarrow>
          if coHeight c < coHeight b then earliest_loop cs (Some c)
          else if coHeight c = coHeight b \<and> coKind c = DeadlineCSV then earliest_loop cs (Some c)
          else earliest_loop cs best)"

definition Earliest :: "computed list \<Rightarrow> computed option" where
  "Earliest cs = earliest_loop cs None"

section \<open>How far along it is\<close>

definition Remaining :: "int \<Rightarrow> int \<Rightarrow> int" where
  "Remaining deadlineHeight tip =
     (if deadlineHeight \<le> tip then 0 else i32 (deadlineHeight - tip))"

definition Level :: "int \<Rightarrow> int \<Rightarrow> int" where
  "Level remaining window =
     (if remaining \<le> 0 then LevelUrgent
      else if window \<le> 0 then LevelDetected
      else
        (let fraction = fl (f64_of_int remaining / f64_of_int window)
         in if fraction < urgentThreshold then LevelUrgent
            else if fraction < halfThreshold then LevelHalf
            else LevelDetected))"

section \<open>What is said about it\<close>

definition second :: int where "second = 1000000000"
definition minute :: int where "minute = 60 * second"
definition hour :: int where "hour = 60 * minute"

text \<open>The duration in nanoseconds and whether it is known.\<close>

definition Project :: "int \<Rightarrow> f64 \<Rightarrow> int \<times> bool" where
  "Project remaining avgIntervalSecs =
     (if remaining \<le> 0 then (0, True)
      else
        (case avgIntervalSecs of
           Fin avg \<Rightarrow>
             if avg \<le> 0 then (0, False)
             else
               (let seconds = fl (f64_of_int remaining * avg)
                in if of_int (10 * 365 * 24 * 60 * 60) < seconds then (0, False)
                   else (i64 (trunc seconds * second), True))
         | _ \<Rightarrow> (0, False)))"

text \<open>\<open>Duration.Minutes\<close> and \<open>Duration.Hours\<close>.\<close>

definition dur_minutes :: "int \<Rightarrow> rat" where
  "dur_minutes d = fl (f64_of_int (quo d minute) + fl (f64_of_int (d - minute * quo d minute) / of_int minute))"

definition dur_hours :: "int \<Rightarrow> rat" where
  "dur_hours d = fl (f64_of_int (quo d hour) + fl (f64_of_int (d - hour * quo d hour) / of_int hour))"

definition HumanDuration :: "int \<Rightarrow> string" where
  "HumanDuration d =
     (if d \<le> 0 then ''no time left''
      else if d < hour
      then (let minutes = round_away (dur_minutes d)
            in if minutes \<le> 1 then ''about a minute'' else ''about '' @ itoa minutes @ '' minutes'')
      else if d < 36 * hour
      then (let hours = round_away (dur_hours d)
            in if hours \<le> 1 then ''about an hour'' else ''about '' @ itoa hours @ '' hours'')
      else (let days = round_away (fl (dur_hours d / 24))
            in if days \<le> 1 then ''about a day'' else ''about '' @ itoa days @ '' days''))"

section \<open>Lemmas\<close>

lemma applicableDelay_range: "applicableDelay inp = Some n \<Longrightarrow> 0 < n \<and> n < 65536"
  by (auto simp: applicableDelay_def Let_def maxSaneDelay_def split: option.splits if_splits)

lemma Compute_csv: "computeCSV inp \<in> set (Compute inp)"
  by (simp add: Compute_def)

lemma set_map_filter_Some: "set (List.map_filter f xs) = {y. \<exists>x \<in> set xs. f x = Some y}"
  by (auto simp: List.map_filter_def image_iff) force

lemma Compute_mem:
  "c \<in> set (Compute inp) \<longleftrightarrow> c = computeCSV inp \<or> (\<exists>h \<in> set (inHTLCs inp). computeHTLC inp h = Some c)"
  by (auto simp: Compute_def set_map_filter_Some)

lemma computeCSV_kind [simp]: "coKind (computeCSV inp) = DeadlineCSV"
  by (simp add: computeCSV_def split: option.split)

lemma Compute_kinds: "c \<in> set (Compute inp) \<Longrightarrow> DeadlineKind_Valid (coKind c)"
  by (auto simp: Compute_mem computeHTLC_def htlcKind_def split: option.splits if_splits)

text \<open>
  The two thresholds in whole numbers: the rounding of the quotient never crosses either, for
  a window of fewer than \<open>2 ^ 31\<close> blocks.
\<close>

lemma fraction_below:
  assumes "0 < r" "0 < w" "w < 2 ^ 31" "0 < k" "k \<le> 5" "fl (1 / of_int k - 1 / of_int (5 * 2 ^ 31)) < fl (1 / of_int k)"
  shows "fl (of_int r / of_int w) < fl (1 / of_int k) \<longleftrightarrow> k * r < w"
proof
  assume "fl (of_int r / of_int w) < fl (1 / of_int k)"
  then have "\<not> (1 / of_int k :: rat) \<le> of_int r / of_int w" using fl_mono not_le by blast
  then have "(of_int r / of_int w :: rat) < 1 / of_int k" by simp
  then have "(of_int (k * r) :: rat) < of_int w" using assms by (simp add: field_simps)
  then show "k * r < w" by linarith
next
  assume "k * r < w"
  then have "k * r \<le> w - 1" by simp
  then have "(of_int (k * r) :: rat) \<le> of_int (w - 1)" by (rule of_int_le_iff [THEN iffD2])
  then have "(of_int r :: rat) \<le> (of_int w - 1) / of_int k" using assms by (simp add: field_simps)
  then have "(of_int r / of_int w :: rat) \<le> (of_int w - 1) / of_int k / of_int w"
    using assms by (intro divide_right_mono) simp_all
  also have "\<dots> = 1 / of_int k - 1 / of_int (k * w)" using assms by (simp add: field_simps)
  also have "\<dots> \<le> 1 / of_int k - 1 / of_int (5 * 2 ^ 31)"
  proof -
    have "k * w \<le> 5 * 2 ^ 31" using assms by (intro mult_mono) simp_all
    then have le: "(of_int (k * w) :: rat) \<le> of_int (5 * 2 ^ 31)" by (rule of_int_le_iff [THEN iffD2])
    have pos: "0 < (of_int (k * w) :: rat)" using assms by simp
    have "1 / (of_int (5 * 2 ^ 31) :: rat) \<le> 1 / of_int (k * w)"
      by (rule frac_le [OF _ order_refl pos le]) simp
    then show ?thesis by simp
  qed
  finally have "fl (of_int r / of_int w) \<le> fl (1 / of_int k - 1 / of_int (5 * 2 ^ 31))" by (rule fl_mono)
  with assms(6) show "fl (of_int r / of_int w) < fl (1 / of_int k)" by simp
qed

lemma Level_integers:
  assumes "0 < r" "0 < w" "r < 2 ^ 31" "w < 2 ^ 31"
  shows "Level r w = (if 5 * r < w then LevelUrgent else if 2 * r < w then LevelHalf else LevelDetected)"
proof -
  have "fl (1 / of_int 5 - 1 / of_int (5 * 2 ^ 31)) < fl (1 / of_int 5)"
    "fl (1 / of_int 2 - 1 / of_int (5 * 2 ^ 31)) < fl (1 / of_int 2)" by code_simp+
  from this [THEN fraction_below [OF assms(1,2,4), rotated 2]] assms show ?thesis
    by (simp add: Level_def Let_def urgentThreshold_def halfThreshold_def)
qed

lemma Level_range: "Level r w = 1 \<or> Level r w = 2 \<or> Level r w = 3"
  by (simp add: Level_def Let_def level_defs)

lemma earliest_loop_least:
  assumes "best = None \<and> seen = [] \<or> (\<exists>b. best = Some b \<and> b \<in> set seen \<and> (\<forall>c \<in> set seen. coHeight b \<le> coHeight c)
      \<and> ((\<exists>c \<in> set seen. coHeight c = coHeight b \<and> coKind c = DeadlineCSV) \<longrightarrow> coKind b = DeadlineCSV))"
    and "seen @ cs \<noteq> []"
  shows "\<exists>b. earliest_loop cs best = Some b \<and> b \<in> set (seen @ cs) \<and> (\<forall>c \<in> set (seen @ cs). coHeight b \<le> coHeight c)
      \<and> ((\<exists>c \<in> set (seen @ cs). coHeight c = coHeight b \<and> coKind c = DeadlineCSV) \<longrightarrow> coKind b = DeadlineCSV)"
  using assms
proof (induction cs arbitrary: best seen)
  case Nil
  then show ?case by auto
next
  case (Cons c cs)
  obtain b' where step: "earliest_loop (c # cs) best = earliest_loop cs (Some b')"
    and inv: "b' \<in> set (seen @ [c]) \<and> (\<forall>x \<in> set (seen @ [c]). coHeight b' \<le> coHeight x)
      \<and> ((\<exists>x \<in> set (seen @ [c]). coHeight x = coHeight b' \<and> coKind x = DeadlineCSV) \<longrightarrow> coKind b' = DeadlineCSV)"
  proof (cases best)
    case None
    with Cons.prems(1) show ?thesis by (intro that [of c]) auto
  next
    case (Some b)
    with Cons.prems(1) have b: "b \<in> set seen" "\<forall>x \<in> set seen. coHeight b \<le> coHeight x"
      "(\<exists>x \<in> set seen. coHeight x = coHeight b \<and> coKind x = DeadlineCSV) \<longrightarrow> coKind b = DeadlineCSV" by auto
    consider "coHeight c < coHeight b" | "coHeight c = coHeight b" "coKind c = DeadlineCSV"
      | "coHeight b \<le> coHeight c" "\<not> (coHeight c = coHeight b \<and> coKind c = DeadlineCSV)" by linarith
    then show ?thesis
    proof cases
      case 1
      with Some b show ?thesis by (intro that [of c]) (auto dest: bspec)
    next
      case 2
      with Some b show ?thesis by (intro that [of c]) auto
    next
      case 3
      with Some b show ?thesis by (intro that [of b]) auto
    qed
  qed
  from Cons.IH [of "Some b'" "seen @ [c]"] inv show ?case by (simp add: step del: earliest_loop.simps)
qed

section \<open>Properties\<close>

text \<open>
  The escalation tier is decided exactly: urgent when less than a fifth of the window is
  left, half when less than half is, whatever the rounding of the quotient in doubles.
\<close>

theorem level_exact:
  assumes "0 < r" and "0 < w" and "r < 2 ^ 31" and "w < 2 ^ 31"
  shows "Level r w = (if 5 * r < w then LevelUrgent else if 2 * r < w then LevelHalf else LevelDetected)"
  by (rule Level_integers [OF assms])

theorem level_exact_witness: "Level 29 144 = 2 \<and> Level 28 144 = 3 \<and> Level 72 144 = 1"
  using level_exact [of 29 144] level_exact [of 28 144] level_exact [of 72 144] by (simp add: level_defs)

text \<open>
  A confirmed commitment always has a clock, at most 65535 blocks after the block it
  confirmed in, and the earliest of its clocks is the one that matters: no other comes sooner,
  and on a tie with the commitment's own delay that delay is chosen.
\<close>

theorem earliest_clock:
  assumes "0 \<le> inConfirmHeight inp" and "inConfirmHeight inp < 2 ^ 31 - 2 ^ 16"
  shows "\<exists>b. Earliest (Compute inp) = Some b \<and> b \<in> set (Compute inp)
    \<and> coHeight b \<le> inConfirmHeight inp + 65535
    \<and> (\<forall>c \<in> set (Compute inp). coHeight b \<le> coHeight c)
    \<and> (coHeight (computeCSV inp) = coHeight b \<longrightarrow> coKind b = DeadlineCSV)"
proof -
  from earliest_loop_least [of None "[]" "Compute inp"] obtain b where
    b: "Earliest (Compute inp) = Some b" "b \<in> set (Compute inp)"
      "\<forall>c \<in> set (Compute inp). coHeight b \<le> coHeight c"
      "(\<exists>c \<in> set (Compute inp). coHeight c = coHeight b \<and> coKind c = DeadlineCSV) \<longrightarrow> coKind b = DeadlineCSV"
    by (auto simp: Earliest_def Compute_def)
  have "coHeight (computeCSV inp) \<le> inConfirmHeight inp + 65535"
    using assms applicableDelay_range [of inp]
    by (auto simp: computeCSV_def AssumedDeadlineFloor_def split: option.split)
  moreover have "coHeight b \<le> coHeight (computeCSV inp)" using b(3) Compute_csv by blast
  moreover have "coHeight (computeCSV inp) = coHeight b \<Longrightarrow> coKind b = DeadlineCSV"
    using b(4) Compute_csv [of inp] computeCSV_kind by blast
  ultimately show ?thesis using b(1-3) by (intro exI [of _ b]) auto
qed

theorem earliest_clock_witness:
  "\<exists>b. Earliest (Compute \<lparr>inConfirmHeight = 800, inShape = ShapeCommitmentUnknown, inCSVDelayLocal = None,
      inCSVDelayRemote = Some 0, inHTLCs = [\<lparr>htDirection = ''incoming'', htAmountMsat = 1, htCLTVExpiry = 900,
      htPaymentHash = ''''\<rparr>]\<rparr>) = Some b \<and> coHeight b \<le> 66335"
  using earliest_clock [of "\<lparr>inConfirmHeight = 800, inShape = ShapeCommitmentUnknown, inCSVDelayLocal = None,
      inCSVDelayRemote = Some 0, inHTLCs = [\<lparr>htDirection = ''incoming'', htAmountMsat = 1, htCLTVExpiry = 900,
      htPaymentHash = ''''\<rparr>]\<rparr>"]
  by auto

lemma Project_known:
  assumes "Project r (Fin a) = (d, True)" "0 < r"
  shows "0 < a \<and> fl (f64_of_int r * a) \<le> 315360000 \<and> d = \<lfloor>fl (f64_of_int r * a)\<rfloor> * 1000000000"
proof -
  let ?s = "fl (f64_of_int r * a)"
  from assms have a: "0 < a" "?s \<le> 315360000" and d: "d = i64 (trunc ?s * 1000000000)"
    by (auto simp: Project_def Let_def second_def not_le not_less split: if_splits)
  have "0 \<le> f64_of_int r" using assms(2) by (simp add: f64_of_int_def)
  with a have s0: "0 \<le> ?s" by simp
  then have "0 \<le> \<lfloor>?s\<rfloor>" by simp
  moreover have "\<lfloor>?s\<rfloor> \<le> 315360000" using a(2) by (simp add: floor_le_iff)
  moreover have "i64 (n * 1000000000) = n * 1000000000" if "0 \<le> n" "n \<le> 315360000" for n
    using that by simp
  ultimately have "i64 (\<lfloor>?s\<rfloor> * 1000000000) = \<lfloor>?s\<rfloor> * 1000000000" by blast
  with a d s0 show ?thesis by (simp add: trunc_def)
qed

text \<open>
  A projection of the time left never overflows and never counts down backwards: when it
  is known it is a whole number of seconds between zero and ten years, it never exceeds the
  product it rounds down, and more blocks never project to less time.
\<close>

theorem projection_sound:
  assumes "Project r (Fin a) = (d, True)" and "Project r' (Fin a) = (d', True)" and "0 < r" and "r \<le> r'"
  shows "0 \<le> d \<and> d \<le> 315360000 * second \<and> second dvd d
    \<and> of_int d \<le> fl (f64_of_int r * a) * of_int second \<and> d \<le> d'"
proof -
  note p = Project_known [OF assms(1,3)] and p' = Project_known [OF assms(2)]
  let ?s = "fl (f64_of_int r * a)"
  have "0 \<le> f64_of_int r" using assms(3) by (simp add: f64_of_int_def)
  with p have "0 \<le> ?s" by simp
  moreover have "\<lfloor>?s\<rfloor> \<le> 315360000" using p by (simp add: floor_le_iff)
  moreover have "of_int \<lfloor>?s\<rfloor> \<le> ?s" by simp
  moreover have "\<lfloor>?s\<rfloor> \<le> \<lfloor>fl (f64_of_int r' * a)\<rfloor>"
    using p assms(4) by (intro floor_mono fl_mono mult_right_mono f64_of_int_mono) simp_all
  ultimately show ?thesis using p p' assms(3,4) by (simp add: second_def)
qed

theorem projection_sound_witness:
  "Project 30 (Fin 1800) = (54000 * second, True) \<and> 54000 * second \<le> 72000 * second"
proof -
  have "Project 30 (Fin 1800) = (54000 * second, True)" "Project 40 (Fin 1800) = (72000 * second, True)"
    by code_simp+
  with projection_sound [OF this] show ?thesis by simp
qed

end
