(* ===== verification/Store_Deadlines.thy ===== *)
theory Store_Deadlines
  imports Store_Db
begin

text \<open>
  \<open>internal/store/deadlines.go\<close>: the rows of the countdowns. One row per spend and kind; the
  operations change its height, its state and its escalation, each in its own way, and the last
  two only forward.
\<close>

section \<open>Operations\<close>

definition deadline_key :: "deadline \<Rightarrow> int \<times> deadline_kind" where
  "deadline_key r = (dlSpendEventID r, dlKind r)"

definition place_deadline :: "int \<Rightarrow> deadline \<Rightarrow> deadline" where
  "place_deadline i r = r\<lparr>dlID := i\<rparr>"

interpretation deadlines: keyed_table dlID deadline_key place_deadline
  by unfold_locales (simp_all add: place_deadline_def deadline_key_def)

text \<open>Returns the id of the row and whether anything changed.\<close>

definition UpsertDeadline :: "deadline \<Rightarrow> 'x db_scheme \<Rightarrow> 'x db_scheme \<times> (store_err + int \<times> bool)" where
  "UpsertDeadline r d =
     (if dlSpendEventID r = 0 then (d, Inl StoreInvalid)
      else if \<not> DeadlineKind_Valid (dlKind r) then (d, Inl StoreInvalid)
      else
        (let r = (if dlState r = DeadlineStateOther '''' then r\<lparr>dlState := DeadlineCounting\<rparr> else r)
         in if \<not> DeadlineState_Valid (dlState r) then (d, Inl StoreInvalid)
            else
              db_call (\<lambda>d.
                case find (\<lambda>x. deadline_key x = deadline_key r) (t_deadlines d) of
                  Some x \<Rightarrow>
                    if dlHeight x = dlHeight r \<and> dlAssumed x = dlAssumed r then (d, Inr (dlID x, False))
                    else
                      (d\<lparr>t_deadlines := update_row dlID (dlID x)
                          (\<lambda>x. x\<lparr>dlHeight := dlHeight r, dlAssumed := dlAssumed r, dlUpdatedAt := dlUpdatedAt r\<rparr>)
                          (t_deadlines d)\<rparr>,
                       Inr (dlID x, True))
                | None \<Rightarrow>
                    if \<not> list_ex (\<lambda>s. spID s = dlSpendEventID r) (t_spends d) then (d, Inl StoreConstraint)
                    else
                      (let i = next_id dlID (t_deadlines d)
                       in (d\<lparr>t_deadlines := t_deadlines d @ [place_deadline i (r\<lparr>dlResolvedByTxID := ''''\<rparr>)]\<rparr>,
                           Inr (i, True)))) d))"

definition ListDeadlines :: "deadline_state \<Rightarrow> 'x db_scheme \<Rightarrow> 'x db_scheme \<times> (store_err + deadline list)" where
  "ListDeadlines state = db_read (\<lambda>d. Inr (sort_key dlHeight
     (filter (\<lambda>r. state = DeadlineStateOther '''' \<or> dlState r = state) (t_deadlines d))))"

definition SetDeadlineState ::
  "int \<Rightarrow> deadline_state \<Rightarrow> string \<Rightarrow> int \<Rightarrow> 'x db_scheme \<Rightarrow> 'x db_scheme \<times> (store_err + unit)" where
  "SetDeadlineState i state resolvedBy at d =
     (if \<not> DeadlineState_Valid state then (d, Inl StoreInvalid)
      else db_call (\<lambda>d. requireOneRow dlID i (t_deadlines d) (\<lambda>rows. d\<lparr>t_deadlines := rows\<rparr>)
             (\<lambda>r. r\<lparr>dlState := state, dlResolvedByTxID := resolvedBy, dlUpdatedAt := at\<rparr>) d) d)"

definition SetDeadlineEscalation ::
  "int \<Rightarrow> int \<Rightarrow> int \<Rightarrow> 'x db_scheme \<Rightarrow> 'x db_scheme \<times> (store_err + unit)" where
  "SetDeadlineEscalation i tier at =
     db_call (\<lambda>d. (d\<lparr>t_deadlines := update_row dlID i
        (\<lambda>r. if dlEscalation r < tier then r\<lparr>dlEscalation := tier, dlUpdatedAt := at\<rparr> else r)
        (t_deadlines d)\<rparr>, Inr ()))"

section \<open>What they keep\<close>

definition deadlines_ok :: "'x db_scheme \<Rightarrow> bool" where
  "deadlines_ok d \<longleftrightarrow> table_ok dlID deadline_key (t_deadlines d)
     \<and> (\<forall>r \<in> set (t_deadlines d). dlSpendEventID r \<in> spID ` set (t_spends d))"

text \<open>
  How a row may change: its identity never, its escalation only upwards, and once its state is
  no longer counting neither the state nor what resolved it.
\<close>

definition same_clock :: "deadline \<Rightarrow> deadline \<Rightarrow> bool" where
  "same_clock r r' \<longleftrightarrow>
     dlID r' = dlID r \<and> deadline_key r' = deadline_key r \<and> dlEscalation r \<le> dlEscalation r'
     \<and> (dlState r \<noteq> DeadlineCounting \<longrightarrow>
          dlState r' = dlState r \<and> dlResolvedByTxID r' = dlResolvedByTxID r)"

definition clocks_kept :: "'x db_scheme \<Rightarrow> 'x db_scheme \<Rightarrow> bool" where
  "clocks_kept d d' \<longleftrightarrow>
     (\<forall>r \<in> set (t_deadlines d). \<exists>r' \<in> set (t_deadlines d'). same_clock r r')
     \<and> t_spends d' = t_spends d"

lemma same_clock_refl [simp]: "same_clock r r"
  by (simp add: same_clock_def)

lemma same_clock_trans: "same_clock r s \<Longrightarrow> same_clock s t \<Longrightarrow> same_clock r t"
  by (auto simp: same_clock_def)

lemma clocks_kept_refl [simp]: "clocks_kept d d"
  by (auto simp: clocks_kept_def intro: same_clock_refl)

lemma clocks_kept_trans: "clocks_kept d e \<Longrightarrow> clocks_kept e f \<Longrightarrow> clocks_kept d f"
  unfolding clocks_kept_def by (metis same_clock_trans)

lemma clocks_kept_faults [simp]: "clocks_kept d (d\<lparr>faults := fs\<rparr>)"
  by (auto simp: clocks_kept_def intro: same_clock_refl)

lemma deadlines_ok_faults [simp]: "deadlines_ok (d\<lparr>faults := fs\<rparr>) = deadlines_ok d"
  by (simp add: deadlines_ok_def)

definition clocks_step :: "'x db_scheme \<Rightarrow> 'x db_scheme \<Rightarrow> bool" where
  "clocks_step d d' \<longleftrightarrow> (deadlines_ok d \<longrightarrow> deadlines_ok d' \<and> clocks_kept d d')"

lemma clocks_step_refl [simp]: "clocks_step d d"
  by (simp add: clocks_step_def)

lemma clocks_step_trans: "clocks_step d e \<Longrightarrow> clocks_step e f \<Longrightarrow> clocks_step d f"
  unfolding clocks_step_def by (blast intro: clocks_kept_trans)

lemma clocks_step_faults [simp]: "clocks_step d (d\<lparr>faults := fs\<rparr>)"
  by (simp add: clocks_step_def)

lemma db_call_clocks_step:
  assumes "\<And>fs. clocks_step (d\<lparr>faults := fs\<rparr>) (fst (f (d\<lparr>faults := fs\<rparr>)))"
  shows "clocks_step d (fst (db_call f d))"
proof -
  obtain d' r where c: "db_call f d = (d', r)" by fastforce
  then show ?thesis
  proof (cases rule: db_call_cases)
    case failed
    with c show ?thesis by simp
  next
    case (ran fs)
    with c assms [of fs] show ?thesis using clocks_step_trans [OF clocks_step_faults] by auto
  qed
qed

lemma db_read_clocks_step [simp]: "clocks_step d (fst (db_read f d))"
  unfolding db_read_def by (rule db_call_clocks_step) simp

lemma update_clocks_step:
  assumes "\<And>r. r \<in> set (t_deadlines d) \<Longrightarrow> dlID r = i \<Longrightarrow> same_clock r (f r)"
  shows "clocks_step d (d\<lparr>t_deadlines := update_row dlID i f (t_deadlines d)\<rparr>)"
proof -
  let ?g = "\<lambda>r. if dlID r = i then f r else r"
  have g: "same_clock r (?g r)" if "r \<in> set (t_deadlines d)" for r using assms that by simp
  have "table_ok dlID deadline_key (map ?g (t_deadlines d))"
    if "table_ok dlID deadline_key (t_deadlines d)"
  proof -
    have "map dlID (map ?g (t_deadlines d)) = map dlID (t_deadlines d)"
      "map deadline_key (map ?g (t_deadlines d)) = map deadline_key (t_deadlines d)"
      using g by (auto simp: same_clock_def)
    moreover have "\<forall>r \<in> set (map ?g (t_deadlines d)). 0 < dlID r"
    proof
      fix x assume "x \<in> set (map ?g (t_deadlines d))"
      then obtain r where r: "r \<in> set (t_deadlines d)" "x = ?g r" by auto
      from g [OF r(1)] r that show "0 < dlID x" by (simp add: same_clock_def table_ok_def)
    qed
    ultimately show ?thesis using that by (simp only: table_ok_def)
  qed
  moreover have "dlSpendEventID x \<in> spID ` set (t_spends d)"
    if "x \<in> set (map ?g (t_deadlines d))" "deadlines_ok d" for x
  proof -
    from that(1) obtain r where r: "r \<in> set (t_deadlines d)" "x = ?g r" by auto
    from g [OF r(1)] r have "dlSpendEventID x = dlSpendEventID r" by (simp add: same_clock_def deadline_key_def)
    with that(2) r(1) show ?thesis by (simp add: deadlines_ok_def)
  qed
  moreover have "\<exists>x \<in> set (map ?g (t_deadlines d)). same_clock r x" if "r \<in> set (t_deadlines d)" for r
    using g [OF that] that by (intro bexI [of _ "?g r"]) simp_all
  moreover obtain e where e: "e = d\<lparr>t_deadlines := map ?g (t_deadlines d)\<rparr>"
    "t_deadlines e = map ?g (t_deadlines d)" "t_spends e = t_spends d" by simp
  ultimately have "deadlines_ok d \<longrightarrow> deadlines_ok e \<and> clocks_kept d e"
    unfolding clocks_kept_def deadlines_ok_def e(2,3) by blast
  then show ?thesis by (simp only: clocks_step_def update_row_def e(1))
qed

lemma update_clocks_step_faults:
  assumes "\<And>r. r \<in> set (t_deadlines d) \<Longrightarrow> dlID r = i \<Longrightarrow> same_clock r (f r)"
  shows "clocks_step (d\<lparr>faults := fs\<rparr>) (d\<lparr>faults := fs, t_deadlines := update_row dlID i f (t_deadlines d)\<rparr>)"
  using update_clocks_step [of "d\<lparr>faults := fs\<rparr>" i f] assms by simp

lemma UpsertDeadline_step: "clocks_step d (fst (UpsertDeadline r d))"
proof -
  define r1 where "r1 = (if dlState r = DeadlineStateOther '''' then r\<lparr>dlState := DeadlineCounting\<rparr> else r)"
  let ?r = "r1\<lparr>dlResolvedByTxID := ''''\<rparr>"
  have ins: "clocks_step e (e\<lparr>t_deadlines := t_deadlines e @ [place_deadline (next_id dlID (t_deadlines e)) ?r]\<rparr>)"
    if "find (\<lambda>x. deadline_key x = deadline_key r1) (t_deadlines e) = None"
      "list_ex (\<lambda>s. spID s = dlSpendEventID r1) (t_spends e)" for e :: "'a db_scheme"
  proof -
    have "deadline_key ?r \<notin> deadline_key ` set (t_deadlines e)"
      using that(1) by (auto simp: find_None_all deadline_key_def)
    moreover have "Bex (set (t_deadlines e)) (same_clock r)" if "r \<in> set (t_deadlines e)" for r
      using that by (intro bexI [of _ r]) simp_all
    moreover have "dlSpendEventID ?r \<in> spID ` set (t_spends e)"
      using that(2) by (auto simp: list_ex_iff intro: rev_image_eqI)
    ultimately show ?thesis using deadlines.insert_ok [of "t_deadlines e" ?r]
      by (simp add: clocks_step_def deadlines_ok_def clocks_kept_def) (simp add: place_deadline_def)
  qed
  have ins': "clocks_step (d\<lparr>faults := fs\<rparr>)
      (d\<lparr>faults := fs, t_deadlines := t_deadlines d @ [place_deadline (next_id dlID (t_deadlines d)) ?r]\<rparr>)"
    if "find (\<lambda>x. deadline_key x = deadline_key r1) (t_deadlines d) = None"
      "list_ex (\<lambda>s. spID s = dlSpendEventID r1) (t_spends d)" for fs
    using ins [of "d\<lparr>faults := fs\<rparr>"] that by simp
  have upd: "same_clock x (x\<lparr>dlHeight := h, dlAssumed := a, dlUpdatedAt := u\<rparr>)" for x h a u
    by (simp add: same_clock_def deadline_key_def)
  show ?thesis
    unfolding UpsertDeadline_def Let_def r1_def [symmetric]
    using ins' upd by (auto intro!: db_call_clocks_step update_clocks_step_faults split: option.split)
qed

lemma ListDeadlines_step [simp]: "clocks_step d (fst (ListDeadlines st d))"
  by (simp add: ListDeadlines_def)

lemma SetDeadlineEscalation_step: "clocks_step d (fst (SetDeadlineEscalation i tier at d))"
  unfolding SetDeadlineEscalation_def
  by (rule db_call_clocks_step) (auto intro!: update_clocks_step_faults simp: same_clock_def deadline_key_def)

text \<open>Setting the state of a row is a step of its clock when the row is counting.\<close>

lemma SetDeadlineState_step:
  assumes "\<And>r. r \<in> set (t_deadlines d) \<Longrightarrow> dlID r = i \<Longrightarrow> dlState r = DeadlineCounting"
  shows "clocks_step d (fst (SetDeadlineState i st by at d))"
  unfolding SetDeadlineState_def requireOneRow_def
  using assms
  by (auto intro!: db_call_clocks_step update_clocks_step_faults simp: same_clock_def deadline_key_def)

end
