(* ===== verification/Store_Channels.thy ===== *)
theory Store_Channels
  imports Store_Db
begin

text \<open>
  \<open>internal/store/channels.go\<close>: the user's channels, the nodes they belong to and the payments
  in flight on them. A poll writes what the Lightning node says; the close state, the relevance
  and the mirroring choice have operations of their own and a poll leaves them alone.
\<close>

section \<open>Names the counterparty chose\<close>

definition MaxPeerAliasBytes :: int where "MaxPeerAliasBytes = 32"

text \<open>
  The UTF-8 decoding and the Unicode table of graphic characters are Go's: \<open>runes\<close> splits a
  string into the encodings of its characters and \<open>graphic\<close> tells the ones that are kept.
\<close>

fun alias_loop :: "(string \<Rightarrow> bool) \<Rightarrow> string list \<Rightarrow> string \<Rightarrow> string" where
  "alias_loop graphic [] b = b"
| "alias_loop graphic (r # rs) b =
     (if \<not> graphic r then alias_loop graphic rs b
      else if MaxPeerAliasBytes < int (length b) + int (length r) then b
      else alias_loop graphic rs (b @ r))"

definition cleanAlias :: "(string \<Rightarrow> string list) \<Rightarrow> (string \<Rightarrow> bool) \<Rightarrow> string \<Rightarrow> string" where
  "cleanAlias runes graphic alias = trim_space (alias_loop graphic (runes alias) '''')"

section \<open>Nodes and channels\<close>

definition UpsertLNNode ::
  "(string \<Rightarrow> string) \<Rightarrow> ln_node \<Rightarrow> 'x db_scheme \<Rightarrow> 'x db_scheme \<times> (store_err + unit)" where
  "UpsertLNNode clean n d =
     (if nodeID n = '''' then (d, Inl StoreInvalid)
      else if \<not> Impl_Valid (nodeImpl n) then (d, Inl StoreInvalid)
      else
        db_call (\<lambda>d.
          let n = n\<lparr>nodeAlias := clean (nodeAlias n)\<rparr>
          in if list_ex (\<lambda>r. nodeID r = nodeID n) (t_nodes d)
             then (d\<lparr>t_nodes := map (\<lambda>r. if nodeID r = nodeID n then n else r) (t_nodes d)\<rparr>, Inr ())
             else (d\<lparr>t_nodes := t_nodes d @ [n]\<rparr>, Inr ())) d)"

definition channel_key :: "channel \<Rightarrow> string \<times> int" where
  "channel_key c = (chFundingTxID c, chFundingVout c)"

text \<open>A new row has the schema's defaults where the statement names no column.\<close>

definition place_channel :: "int \<Rightarrow> channel \<Rightarrow> channel" where
  "place_channel i c = c\<lparr>chID := i, chCloseState := CloseOpen, chCloseTxID := '''', chCloseHeight := 0,
     chRelevance := RelevanceUnknown, chRelevanceReason := '''', chMirrorFundingOptIn := False\<rparr>"

interpretation channels: keyed_table chID channel_key place_channel
  by unfold_locales (simp_all add: place_channel_def channel_key_def)

definition same_channel :: "channel \<Rightarrow> channel \<Rightarrow> bool" where
  "same_channel r c \<longleftrightarrow>
     chFundingScriptHex r = chFundingScriptHex c \<and> chCapacitySat r = chCapacitySat c
     \<and> chChanType r = chChanType c \<and> chCSVDelayLocal r = chCSVDelayLocal c
     \<and> chCSVDelayRemote r = chCSVDelayRemote c \<and> chPeerPubkey r = chPeerPubkey c
     \<and> chPeerAlias r = chPeerAlias c \<and> chOpenHeight r = chOpenHeight c \<and> chSCID r = chSCID c"

definition poll_channel :: "channel \<Rightarrow> channel \<Rightarrow> channel" where
  "poll_channel c r = r\<lparr>chLNNodeID := chLNNodeID c, chFundingScriptHex := chFundingScriptHex c,
     chCapacitySat := chCapacitySat c, chChanType := chChanType c,
     chCSVDelayLocal := chCSVDelayLocal c, chCSVDelayRemote := chCSVDelayRemote c,
     chPeerPubkey := chPeerPubkey c, chPeerAlias := chPeerAlias c, chOpenHeight := chOpenHeight c,
     chSCID := chSCID c, chUpdatedAt := chUpdatedAt c\<rparr>"

definition node_exists :: "string \<Rightarrow> 'x db_scheme \<Rightarrow> bool" where
  "node_exists i d \<longleftrightarrow> list_ex (\<lambda>n. nodeID n = i) (t_nodes d)"

definition UpsertChannel ::
  "(string \<Rightarrow> string) \<Rightarrow> channel \<Rightarrow> 'x db_scheme \<Rightarrow> 'x db_scheme \<times> (store_err + int \<times> bool)" where
  "UpsertChannel clean c d =
     (if chFundingTxID c = '''' then (d, Inl StoreInvalid)
      else if chLNNodeID c = '''' then (d, Inl StoreInvalid)
      else if \<not> ChanType_Valid (chChanType c) then (d, Inl StoreInvalid)
      else
        (let c = c\<lparr>chPeerAlias := clean (chPeerAlias c)\<rparr>
         in db_call (\<lambda>d.
              case find (\<lambda>r. channel_key r = channel_key c) (t_channels d) of
                Some r \<Rightarrow>
                  if same_channel r c then (d, Inr (chID r, False))
                  else if \<not> node_exists (chLNNodeID c) d then (d, Inl StoreConstraint)
                  else (d\<lparr>t_channels := update_row chID (chID r) (poll_channel c) (t_channels d)\<rparr>,
                        Inr (chID r, True))
              | None \<Rightarrow>
                  if \<not> node_exists (chLNNodeID c) d then (d, Inl StoreConstraint)
                  else
                    (let i = next_id chID (t_channels d)
                     in (d\<lparr>t_channels := t_channels d @ [place_channel i c]\<rparr>, Inr (i, True)))) d))"

record channel_filter =
  cfLNNodeID :: string
  cfRelevance :: relevance
  cfOpenOnly :: bool

definition all_channels :: channel_filter where
  "all_channels = \<lparr>cfLNNodeID = '''', cfRelevance = RelevanceOther '''', cfOpenOnly = False\<rparr>"

definition ListChannels :: "channel_filter \<Rightarrow> 'x db_scheme \<Rightarrow> 'x db_scheme \<times> (store_err + channel list)" where
  "ListChannels f = db_read (\<lambda>d. Inr
     (filter (\<lambda>c. (cfLNNodeID f = '''' \<or> chLNNodeID c = cfLNNodeID f)
        \<and> (cfRelevance f = RelevanceOther '''' \<or> chRelevance c = cfRelevance f)
        \<and> (\<not> cfOpenOnly f \<or> chCloseState c = CloseOpen)) (t_channels d)))"

definition SetChannelCloseSF ::
  "int \<Rightarrow> close_state \<Rightarrow> string \<Rightarrow> int \<Rightarrow> int \<Rightarrow> 'x db_scheme \<Rightarrow> 'x db_scheme \<times> (store_err + unit)" where
  "SetChannelCloseSF i state txid height at d =
     (if \<not> CloseState_Valid state then (d, Inl StoreInvalid)
      else db_call (\<lambda>d. requireOneRow chID i (t_channels d) (\<lambda>rows. d\<lparr>t_channels := rows\<rparr>)
             (\<lambda>r. r\<lparr>chCloseState := state, chCloseTxID := txid, chCloseHeight := height, chUpdatedAt := at\<rparr>) d) d)"

definition SetChannelMirrorOptIn ::
  "int \<Rightarrow> bool \<Rightarrow> int \<Rightarrow> 'x db_scheme \<Rightarrow> 'x db_scheme \<times> (store_err + unit)" where
  "SetChannelMirrorOptIn i optIn at =
     db_call (\<lambda>d. requireOneRow chID i (t_channels d) (\<lambda>rows. d\<lparr>t_channels := rows\<rparr>)
       (\<lambda>r. r\<lparr>chMirrorFundingOptIn := optIn, chUpdatedAt := at\<rparr>) d)"

definition SetChannelRelevance ::
  "int \<Rightarrow> relevance \<Rightarrow> string \<Rightarrow> int \<Rightarrow> 'x db_scheme \<Rightarrow> 'x db_scheme \<times> (store_err + unit)" where
  "SetChannelRelevance i rel reason at d =
     (if \<not> Relevance_Valid rel then (d, Inl StoreInvalid)
      else db_call (\<lambda>d. requireOneRow chID i (t_channels d) (\<lambda>rows. d\<lparr>t_channels := rows\<rparr>)
             (\<lambda>r. r\<lparr>chRelevance := rel, chRelevanceReason := reason, chUpdatedAt := at\<rparr>) d) d)"

section \<open>Payments in flight\<close>

definition valid_direction :: "htlc_snapshot \<Rightarrow> bool" where
  "valid_direction h \<longleftrightarrow> htDirection h = ''incoming'' \<or> htDirection h = ''outgoing''"

text \<open>One transaction: an invalid direction or an unknown channel undoes the deletion too.\<close>

definition ReplaceHTLCSnapshot ::
  "int \<Rightarrow> int \<Rightarrow> htlc_snapshot list \<Rightarrow> 'x db_scheme \<Rightarrow> 'x db_scheme \<times> (store_err + unit)" where
  "ReplaceHTLCSnapshot channelID takenAt htlcs =
     db_call (\<lambda>d.
       if list_ex (\<lambda>h. \<not> valid_direction h) htlcs then (d, Inl StoreInvalid)
       else if htlcs \<noteq> [] \<and> \<not> list_ex (\<lambda>c. chID c = channelID) (t_channels d) then (d, Inl StoreConstraint)
       else (d\<lparr>t_htlcs := filter (\<lambda>(c, _, _). c \<noteq> channelID) (t_htlcs d)
                 @ map (\<lambda>h. (channelID, takenAt, h)) htlcs\<rparr>, Inr ()))"

definition ListHTLCs :: "int \<Rightarrow> 'x db_scheme \<Rightarrow> 'x db_scheme \<times> (store_err + htlc_snapshot list)" where
  "ListHTLCs channelID = db_read (\<lambda>d. Inr (sort_key htCLTVExpiry
     (map (\<lambda>(_, _, h). h) (filter (\<lambda>(c, _, _). c = channelID) (t_htlcs d)))))"

text \<open>Reading a height back clamps what does not fit.\<close>

definition heightFrom :: "int option \<Rightarrow> int" where
  "heightFrom v =
     (case v of
        None \<Rightarrow> 0
      | Some n \<Rightarrow> if 2147483647 < n then 2147483647 else if n < - 2147483648 then - 2147483648 else n)"

definition optionalInt32From :: "int option \<Rightarrow> int option" where
  "optionalInt32From v = (case v of None \<Rightarrow> None | Some n \<Rightarrow> Some (heightFrom (Some n)))"

section \<open>What a poll keeps\<close>

definition same_verdict :: "channel \<Rightarrow> channel \<Rightarrow> bool" where
  "same_verdict r r' \<longleftrightarrow>
     chID r' = chID r \<and> channel_key r' = channel_key r
     \<and> chCloseState r' = chCloseState r \<and> chCloseTxID r' = chCloseTxID r \<and> chCloseHeight r' = chCloseHeight r
     \<and> chRelevance r' = chRelevance r \<and> chRelevanceReason r' = chRelevanceReason r
     \<and> chMirrorFundingOptIn r' = chMirrorFundingOptIn r"

definition verdicts_kept :: "'x db_scheme \<Rightarrow> 'x db_scheme \<Rightarrow> bool" where
  "verdicts_kept d d' \<longleftrightarrow> (\<forall>r \<in> set (t_channels d). \<exists>r' \<in> set (t_channels d'). same_verdict r r')"

definition channels_ok :: "'x db_scheme \<Rightarrow> bool" where
  "channels_ok d \<longleftrightarrow> table_ok chID channel_key (t_channels d)"

text \<open>What the registry writes when it polls a node.\<close>

datatype poll_op = OUpsertNode ln_node | OUpsertChannel channel | OReplaceHTLCs int int "htlc_snapshot list"

fun poll_step :: "(string \<Rightarrow> string) \<Rightarrow> 'x db_scheme \<Rightarrow> poll_op \<Rightarrow> 'x db_scheme" where
  "poll_step clean d (OUpsertNode n) = fst (UpsertLNNode clean n d)"
| "poll_step clean d (OUpsertChannel c) = fst (UpsertChannel clean c d)"
| "poll_step clean d (OReplaceHTLCs i at hs) = fst (ReplaceHTLCSnapshot i at hs d)"

lemma verdicts_kept_refl [simp]: "verdicts_kept d d"
  by (auto simp: verdicts_kept_def same_verdict_def)

lemma verdicts_kept_trans: "verdicts_kept d e \<Longrightarrow> verdicts_kept e f \<Longrightarrow> verdicts_kept d f"
  unfolding verdicts_kept_def same_verdict_def by metis

definition polled :: "'x db_scheme \<Rightarrow> 'x db_scheme \<Rightarrow> bool" where
  "polled d d' \<longleftrightarrow> (channels_ok d \<longrightarrow> channels_ok d' \<and> verdicts_kept d d')"

lemma same_channels_polled: "t_channels d' = t_channels d \<Longrightarrow> polled d d'"
  by (auto simp: polled_def channels_ok_def verdicts_kept_def same_verdict_def)

lemma db_call_polled:
  assumes "\<And>e. polled e (fst (f e))"
  shows "polled d (fst (db_call f d))"
proof -
  obtain d' r where c: "db_call f d = (d', r)" by fastforce
  then show ?thesis
  proof (cases rule: db_call_cases)
    case (failed fs)
    with c show ?thesis by (simp add: same_channels_polled)
  next
    case (ran fs)
    with c assms [of "d\<lparr>faults := fs\<rparr>"] show ?thesis
      by (simp add: polled_def channels_ok_def verdicts_kept_def)
  qed
qed

lemma update_polled:
  assumes "\<And>r. same_verdict r (f r)"
  shows "polled d (d\<lparr>t_channels := update_row chID i f (t_channels d)\<rparr>)"
proof -
  have "table_ok chID channel_key (update_row chID i f (t_channels d))" if "channels_ok d"
    using that assms by (intro channels.update_ok) (auto simp: channels_ok_def same_verdict_def)
  moreover have "\<exists>r' \<in> set (update_row chID i f (t_channels d)). same_verdict r r'"
    if "r \<in> set (t_channels d)" for r
    using that assms [of r]
    by (intro bexI [of _ "if chID r = i then f r else r"]) (auto simp: set_update_row same_verdict_def)
  ultimately show ?thesis by (simp add: polled_def channels_ok_def verdicts_kept_def)
qed

lemma insert_polled:
  assumes "find (\<lambda>r. channel_key r = channel_key c) (t_channels d) = None"
  shows "polled d (d\<lparr>t_channels := t_channels d @ [place_channel (next_id chID (t_channels d)) c]\<rparr>)"
proof -
  have "channel_key c \<notin> channel_key ` set (t_channels d)" using assms by (auto simp: find_None_all)
  with channels.insert_ok [of "t_channels d" c] show ?thesis
    by (auto simp: polled_def channels_ok_def verdicts_kept_def same_verdict_def)
qed

lemma polled_refl [simp]: "polled d d"
  by (rule same_channels_polled) simp

lemma UpsertChannel_polled: "polled d (fst (UpsertChannel clean c d))"
proof -
  have "same_verdict r (poll_channel c r)" for c r
    by (simp add: same_verdict_def poll_channel_def channel_key_def)
  then show ?thesis
    unfolding UpsertChannel_def Let_def
    by (auto intro!: db_call_polled update_polled insert_polled split: option.split)
qed

lemma poll_step_polled: "polled d (poll_step clean d op)"
proof (cases op)
  case (OUpsertNode n)
  then show ?thesis
    by (simp add: UpsertLNNode_def Let_def) (intro impI db_call_polled, simp add: same_channels_polled)
next
  case (OUpsertChannel c)
  then show ?thesis by (simp add: UpsertChannel_polled)
next
  case (OReplaceHTLCs i at hs)
  then show ?thesis
    by (simp add: ReplaceHTLCSnapshot_def) (intro db_call_polled, simp add: same_channels_polled)
qed

interpretation polls: ordered_machine "poll_step clean" "\<lambda>_. True" channels_ok verdicts_kept for clean
  by unfold_locales
     (use poll_step_polled verdicts_kept_trans in \<open>auto simp: polled_def\<close>)

section \<open>Properties\<close>

definition demo_channel :: channel where
  "demo_channel = \<lparr>chID = 1, chLNNodeID = ''n'', chFundingTxID = ''aa'', chFundingVout = 0,
     chFundingScriptHex = ''00'', chCapacitySat = 1000, chChanType = ChanAnchors, chCSVDelayLocal = Some 144,
     chCSVDelayRemote = Some 720, chPeerPubkey = ''p'', chPeerAlias = ''peer'', chOpenHeight = 600, chSCID = '''',
     chCloseState = CloseForce, chCloseTxID = ''cc'', chCloseHeight = 700, chRelevance = Relevant,
     chRelevanceReason = ''r'', chMirrorFundingOptIn = True, chUpdatedAt = 1\<rparr>"

text \<open>
  A poll never undoes a verdict: whatever the Lightning node reports afterwards and
  whichever calls fail, every channel keeps its close state, its relevance and the mirroring
  choice, and no funding outpoint has two rows.
\<close>

theorem poll_keeps_verdicts:
  fixes d :: "'x db_scheme"
  assumes "channels_ok d"
  shows "channels_ok (foldl (poll_step clean) d ops) \<and> verdicts_kept d (foldl (poll_step clean) d ops)"
  using polls.run_inv [of d ops] polls.run_le [of d ops] assms by (simp add: list_all_iff)

theorem poll_keeps_verdicts_witness:
  "channels_ok (foldl (poll_step id) (empty_db\<lparr>t_channels := [demo_channel]\<rparr>)
     [OUpsertChannel (demo_channel\<lparr>chCloseState := CloseOpen\<rparr>)])"
  using poll_keeps_verdicts [of "empty_db\<lparr>t_channels := [demo_channel]\<rparr>" id
      "[OUpsertChannel (demo_channel\<lparr>chCloseState := CloseOpen\<rparr>)]"]
  by (simp add: channels_ok_def table_ok_def demo_channel_def)

end
