(* ===== verification/Store_Spends.thy ===== *)
theory Store_Spends
  imports Store_Db
begin

text \<open>
  \<open>internal/store/spends.go\<close>: the record of every transaction seen spending a watched outpoint,
  and the outputs that became worth watching because of one.
\<close>

section \<open>Spends\<close>

definition spend_key :: "spend \<Rightarrow> branch \<times> string \<times> int \<times> string" where
  "spend_key sp = (spBranch sp, spOutpointTxID sp, spOutpointVout sp, spSpendTxID sp)"

definition place_spend :: "int \<Rightarrow> spend \<Rightarrow> spend" where
  "place_spend i sp = sp\<lparr>spID := i\<rparr>"

interpretation spends: keyed_table spID spend_key place_spend
  by unfold_locales (simp_all add: place_spend_def spend_key_def)

definition channel_exists :: "int \<Rightarrow> 'x db_scheme \<Rightarrow> bool" where
  "channel_exists i d \<longleftrightarrow> list_ex (\<lambda>c. chID c = i) (t_channels d)"

text \<open>Returns the id of the row and whether it was there already.\<close>

definition RecordSpend :: "spend \<Rightarrow> 'x db_scheme \<Rightarrow> 'x db_scheme \<times> (store_err + int \<times> bool)" where
  "RecordSpend sp d =
     (if \<not> Branch_Valid (spBranch sp) then (d, Inl StoreInvalid)
      else if spOutpointTxID sp = '''' \<or> spSpendTxID sp = '''' then (d, Inl StoreInvalid)
      else if spSpendTxHex sp = '''' then (d, Inl StoreInvalid)
      else if \<not> Status_Valid (spStatus sp) then (d, Inl StoreInvalid)
      else
        (let sp = (if spShape sp = ShapeOther '''' then sp\<lparr>spShape := ShapeUnknown\<rparr> else sp)
         in if \<not> Shape_Valid (spShape sp) then (d, Inl StoreInvalid)
            else
              db_call (\<lambda>d.
                case find (\<lambda>r. spend_key r = spend_key sp) (t_spends d) of
                  Some r \<Rightarrow> (d, Inr (spID r, True))
                | None \<Rightarrow>
                    if spChannelID sp \<noteq> 0 \<and> \<not> channel_exists (spChannelID sp) d
                    then (d, Inl StoreConstraint)
                    else
                      (let i = next_id spID (t_spends d)
                       in (d\<lparr>t_spends := t_spends d @ [place_spend i sp]\<rparr>, Inr (i, False)))) d))"

definition UpdateSpendStatus ::
  "int \<Rightarrow> spend_status \<Rightarrow> string \<Rightarrow> int \<Rightarrow> int \<Rightarrow> 'x db_scheme \<Rightarrow> 'x db_scheme \<times> (store_err + unit)" where
  "UpdateSpendStatus i status blockHash height at d =
     (if \<not> Status_Valid status then (d, Inl StoreInvalid)
      else db_call (\<lambda>d. requireOneRow spID i (t_spends d) (\<lambda>rows. d\<lparr>t_spends := rows\<rparr>)
             (\<lambda>r. r\<lparr>spStatus := status, spBlockHash := blockHash, spBlockHeight := height, spUpdatedAt := at\<rparr>) d) d)"

definition UpdateSpendShape ::
  "int \<Rightarrow> spend_shape \<Rightarrow> int \<Rightarrow> 'x db_scheme \<Rightarrow> 'x db_scheme \<times> (store_err + unit)" where
  "UpdateSpendShape i shape at d =
     (if \<not> Shape_Valid shape then (d, Inl StoreInvalid)
      else db_call (\<lambda>d. requireOneRow spID i (t_spends d) (\<lambda>rows. d\<lparr>t_spends := rows\<rparr>)
             (\<lambda>r. r\<lparr>spShape := shape, spUpdatedAt := at\<rparr>) d) d)"

definition GetSpend :: "int \<Rightarrow> 'x db_scheme \<Rightarrow> 'x db_scheme \<times> (store_err + spend)" where
  "GetSpend i = db_read (\<lambda>d.
     case find (\<lambda>r. spID r = i) (t_spends d) of None \<Rightarrow> Inl StoreNotFound | Some sp \<Rightarrow> Inr sp)"

record spend_filter =
  sfBranch :: branch
  sfChannelID :: int
  sfStatus :: spend_status
  sfShape :: spend_shape
  sfLimit :: int

definition DefaultSpendLimit :: int where "DefaultSpendLimit = 200"
definition MaxSpendLimit :: int where "MaxSpendLimit = 1000"

definition ListSpends :: "spend_filter \<Rightarrow> 'x db_scheme \<Rightarrow> 'x db_scheme \<times> (store_err + spend list)" where
  "ListSpends f = db_read (\<lambda>d. Inr (take (nat (clampLimit (sfLimit f) DefaultSpendLimit MaxSpendLimit))
     (filter (\<lambda>r. (sfBranch f = BranchOther '''' \<or> spBranch r = sfBranch f)
        \<and> (sfChannelID f = 0 \<or> spChannelID r = sfChannelID f)
        \<and> (sfStatus f = SpendStatusOther '''' \<or> spStatus r = sfStatus f)
        \<and> (sfShape f = ShapeOther '''' \<or> spShape r = sfShape f)) (t_spends d))))"

section \<open>Watched outpoints\<close>

definition outpoint_key :: "watch_outpoint \<Rightarrow> branch \<times> string \<times> int" where
  "outpoint_key w = (woBranch w, woTxID w, woVout w)"

text \<open>\<open>ON CONFLICT DO NOTHING\<close> comes before the foreign key: a known outpoint is left alone.\<close>

definition AddWatchOutpoint :: "watch_outpoint \<Rightarrow> 'x db_scheme \<Rightarrow> 'x db_scheme \<times> (store_err + unit)" where
  "AddWatchOutpoint w d =
     (if \<not> Branch_Valid (woBranch w) then (d, Inl StoreInvalid)
      else if woScriptHex w = '''' then (d, Inl StoreInvalid)
      else if \<not> Role_Valid (woRole w) then (d, Inl StoreInvalid)
      else
        db_call (\<lambda>d.
          if list_ex (\<lambda>r. outpoint_key r = outpoint_key w) (t_outpoints d) then (d, Inr ())
          else if \<not> list_ex (\<lambda>s. spID s = woSourceSpendEventID w) (t_spends d) then (d, Inl StoreConstraint)
          else (d\<lparr>t_outpoints := t_outpoints d @ [w]\<rparr>, Inr ())) d)"

text \<open>Byte order of the transaction ids, then output number.\<close>

fun string_le :: "string \<Rightarrow> string \<Rightarrow> bool" where
  "string_le [] _ = True"
| "string_le (_ # _) [] = False"
| "string_le (a # as) (b # bs) =
     ((of_char a :: nat) < of_char b \<or> a = b \<and> string_le as bs)"

definition outpoint_le :: "watch_outpoint \<Rightarrow> watch_outpoint \<Rightarrow> bool" where
  "outpoint_le v w \<longleftrightarrow>
     (if woTxID v = woTxID w then woVout v \<le> woVout w else string_le (woTxID v) (woTxID w))"

fun insort_by :: "('a \<Rightarrow> 'a \<Rightarrow> bool) \<Rightarrow> 'a \<Rightarrow> 'a list \<Rightarrow> 'a list" where
  "insort_by le x [] = [x]"
| "insort_by le x (y # ys) = (if le x y then x # y # ys else y # insort_by le x ys)"

definition ListWatchOutpoints :: "branch \<Rightarrow> 'x db_scheme \<Rightarrow> 'x db_scheme \<times> (store_err + watch_outpoint list)" where
  "ListWatchOutpoints br = db_read (\<lambda>d. Inr
     (foldr (insort_by outpoint_le) (filter (\<lambda>w. woBranch w = br) (t_outpoints d)) []))"

lemma set_insort_by [simp]: "set (insort_by le x ys) = insert x (set ys)"
  by (induction ys) auto

lemma set_foldr_insort [simp]: "set (foldr (insort_by le) xs []) = set xs"
  by (induction xs) auto

section \<open>What the operations keep\<close>

text \<open>
  The tables of spends and watched outpoints: one row per spend and per outpoint, and every
  watched outpoint has the spend it came from.
\<close>

definition spends_ok :: "'x db_scheme \<Rightarrow> bool" where
  "spends_ok d \<longleftrightarrow> table_ok spID spend_key (t_spends d)
     \<and> distinct (map outpoint_key (t_outpoints d))
     \<and> (\<forall>w \<in> set (t_outpoints d). woSourceSpendEventID w \<in> spID ` set (t_spends d))"

text \<open>
  The history is append-only: a later database has every earlier spend under its id, with the
  transaction, outpoint, channel and first sighting it had, and every watched outpoint.
\<close>

definition same_spend :: "spend \<Rightarrow> spend \<Rightarrow> bool" where
  "same_spend r r' \<longleftrightarrow>
     spID r' = spID r \<and> spend_key r' = spend_key r \<and> spChannelID r' = spChannelID r
     \<and> spSpendTxHex r' = spSpendTxHex r \<and> spFirstSeenAt r' = spFirstSeenAt r"

definition history_kept :: "'x db_scheme \<Rightarrow> 'x db_scheme \<Rightarrow> bool" where
  "history_kept d d' \<longleftrightarrow>
     (\<forall>r \<in> set (t_spends d). \<exists>r' \<in> set (t_spends d'). same_spend r r')
     \<and> set (t_outpoints d) \<subseteq> set (t_outpoints d')"

lemma history_kept_refl [simp]: "history_kept d d"
  by (auto simp: history_kept_def same_spend_def)

lemma history_kept_trans: "history_kept d e \<Longrightarrow> history_kept e f \<Longrightarrow> history_kept d f"
  unfolding history_kept_def same_spend_def by (metis subset_trans)

lemma history_kept_faults [simp]: "history_kept d (d\<lparr>faults := fs\<rparr>)"
  by (auto simp: history_kept_def same_spend_def)

lemma spends_ok_faults [simp]: "spends_ok (d\<lparr>faults := fs\<rparr>) = spends_ok d"
  by (simp add: spends_ok_def)

lemma spends_ok_empty [simp]: "spends_ok empty_db"
  by (simp add: spends_ok_def empty_db_def table_ok_def)

text \<open>One step of the history: the invariant and what is kept, together.\<close>

definition spends_step :: "'x db_scheme \<Rightarrow> 'x db_scheme \<Rightarrow> bool" where
  "spends_step d d' \<longleftrightarrow> (spends_ok d \<longrightarrow> spends_ok d' \<and> history_kept d d')"

lemma db_call_spends_step:
  assumes "\<And>e. spends_ok e \<Longrightarrow> spends_ok (fst (f e)) \<and> history_kept e (fst (f e))"
  shows "spends_step d (fst (db_call f d))"
proof -
  obtain d' r where c: "db_call f d = (d', r)" by fastforce
  then show ?thesis
  proof (cases rule: db_call_cases)
    case failed
    with c show ?thesis by (simp add: spends_step_def)
  next
    case (ran fs)
    with c assms [of "d\<lparr>faults := fs\<rparr>"] show ?thesis
      by (auto simp: spends_step_def intro: history_kept_trans [OF history_kept_faults])
  qed
qed

lemma RecordSpend_step:
  fixes d :: "'a db_scheme"
  shows "spends_step d (fst (RecordSpend sp d))"
proof -
  define sp1 where "sp1 = (if spShape sp = ShapeOther '''' then sp\<lparr>spShape := ShapeUnknown\<rparr> else sp)"
  have ok: "spends_ok (e\<lparr>t_spends := t_spends e @ [place_spend (next_id spID (t_spends e)) sp1]\<rparr>)"
    if "spends_ok e" "find (\<lambda>r. spend_key r = spend_key sp1) (t_spends e) = None" for e :: "'a db_scheme"
  proof -
    have "spend_key sp1 \<notin> spend_key ` set (t_spends e)" using that(2) by (auto simp: find_None_all)
    with that(1) spends.insert_ok [of "t_spends e" sp1] show ?thesis by (auto simp: spends_ok_def)
  qed
  have kept: "history_kept e (e\<lparr>t_spends := t_spends e @ [r]\<rparr>)" for e :: "'a db_scheme" and r
    by (auto simp: history_kept_def same_spend_def)
  show ?thesis
    unfolding RecordSpend_def Let_def sp1_def [symmetric]
    using ok kept
    by (auto intro!: db_call_spends_step split: option.split) (simp_all add: spends_step_def)
qed

lemma update_spends_step:
  fixes d :: "'a db_scheme"
  assumes "\<And>r. same_spend r (f r)"
  shows "spends_step d (fst (db_call (\<lambda>d. requireOneRow spID i (t_spends d) (\<lambda>rows. d\<lparr>t_spends := rows\<rparr>) f d) d))"
proof (rule db_call_spends_step)
  fix e :: "'a db_scheme"
  assume ok: "spends_ok e"
  have "map spID (update_row spID i f (t_spends e)) = map spID (t_spends e)"
    using assms by (simp add: update_row_def same_spend_def)
  then have ids: "spID ` set (update_row spID i f (t_spends e)) = spID ` set (t_spends e)"
    by (metis set_map)
  have "table_ok spID spend_key (update_row spID i f (t_spends e))"
    using ok assms by (intro spends.update_ok) (auto simp: spends_ok_def same_spend_def)
  moreover have "\<exists>r' \<in> set (update_row spID i f (t_spends e)). same_spend r r'" if "r \<in> set (t_spends e)" for r
    using that assms [of r] by (auto simp: set_update_row same_spend_def)
  ultimately show "spends_ok (fst (requireOneRow spID i (t_spends e) (\<lambda>rows. e\<lparr>t_spends := rows\<rparr>) f e))
    \<and> history_kept e (fst (requireOneRow spID i (t_spends e) (\<lambda>rows. e\<lparr>t_spends := rows\<rparr>) f e))"
    using ok ids by (cases "list_ex (\<lambda>r. spID r = i) (t_spends e)")
      (simp_all add: requireOneRow_def, simp_all add: spends_ok_def history_kept_def)
qed

lemma spends_step_refl [simp]: "spends_step d d"
  by (simp add: spends_step_def)

lemma UpdateSpendStatus_step: "spends_step d (fst (UpdateSpendStatus i status h n at d))"
  by (auto simp: UpdateSpendStatus_def intro!: update_spends_step) (simp add: same_spend_def spend_key_def)

lemma UpdateSpendShape_step: "spends_step d (fst (UpdateSpendShape i shape at d))"
  by (auto simp: UpdateSpendShape_def intro!: update_spends_step) (simp add: same_spend_def spend_key_def)

lemma AddWatchOutpoint_step: "spends_step d (fst (AddWatchOutpoint w d))"
  unfolding AddWatchOutpoint_def
  by (auto intro!: db_call_spends_step)
     (auto simp: spends_ok_def history_kept_def same_spend_def list_ex_iff intro: rev_image_eqI)

section \<open>Runs\<close>

text \<open>The writing operations, as the inputs of a machine.\<close>

datatype spend_op =
    ORecordSpend spend | OSpendStatus int spend_status string int int | OSpendShape int spend_shape int
  | OAddOutpoint watch_outpoint

fun spend_op_step :: "'x db_scheme \<Rightarrow> spend_op \<Rightarrow> 'x db_scheme" where
  "spend_op_step d (ORecordSpend sp) = fst (RecordSpend sp d)"
| "spend_op_step d (OSpendStatus i st h n at) = fst (UpdateSpendStatus i st h n at d)"
| "spend_op_step d (OSpendShape i sh at) = fst (UpdateSpendShape i sh at d)"
| "spend_op_step d (OAddOutpoint w) = fst (AddWatchOutpoint w d)"

lemma spend_op_step: "spends_step d (spend_op_step d op)"
  by (cases op) (simp_all add: RecordSpend_step UpdateSpendStatus_step UpdateSpendShape_step AddWatchOutpoint_step)

interpretation spend_history: ordered_machine spend_op_step "\<lambda>_. True" spends_ok history_kept
  by unfold_locales
     (use spend_op_step history_kept_trans in \<open>auto simp: spends_step_def\<close>)

lemma RecordSpend_row:
  assumes "RecordSpend sp d = (d', Inr (i, e))"
  shows "\<exists>r \<in> set (t_spends d'). spID r = i \<and> spend_key r = spend_key sp"
proof -
  let ?sp = "if spShape sp = ShapeOther '''' then sp\<lparr>spShape := ShapeUnknown\<rparr> else sp"
  have k: "spend_key ?sp = spend_key sp" by (simp add: spend_key_def)
  have kp: "spend_key (place_spend n ?sp) = spend_key sp" "spID (place_spend n ?sp) = n" for n
    using k by (simp_all add: spends.rkey_place spends.rid_place)
  from assms have "db_call (\<lambda>d. case find (\<lambda>r. spend_key r = spend_key ?sp) (t_spends d) of
       Some r \<Rightarrow> (d, Inr (spID r, True))
     | None \<Rightarrow> if spChannelID ?sp \<noteq> 0 \<and> \<not> channel_exists (spChannelID ?sp) d then (d, Inl StoreConstraint)
       else (let i = next_id spID (t_spends d)
             in (d\<lparr>t_spends := t_spends d @ [place_spend i ?sp]\<rparr>, Inr (i, False)))) d = (d', Inr (i, e))"
    unfolding RecordSpend_def Let_def by (simp only: prod.inject sum.distinct simp_thms split: if_splits)
  then show ?thesis
  proof (cases rule: db_call_cases)
    case (ran fs)
    show ?thesis
    proof (cases "find (\<lambda>r. spend_key r = spend_key ?sp) (t_spends (d\<lparr>faults := fs\<rparr>))")
      case None
      with ran have "t_spends d' = t_spends d @ [place_spend (next_id spID (t_spends d)) ?sp]"
        "i = next_id spID (t_spends d)"
        by (auto simp: Let_def simp del: if_split split: if_splits)
      with kp show ?thesis by simp
    next
      case (Some r)
      with ran k find_Some_mem [OF Some] show ?thesis by auto
    qed
  qed simp
qed

section \<open>Properties\<close>

definition demo_spend :: spend where
  "demo_spend = \<lparr>spID = 0, spBranch = BranchSQ, spChannelID = 0, spOutpointTxID = ''aa'', spOutpointVout = 1,
     spSpendTxID = ''bb'', spSpendTxHex = ''0200'', spBlockHash = ''cc'', spBlockHeight = 700,
     spShape = ShapeOther '''', spStatus = SpendConfirmed, spFirstSeenAt = 5, spUpdatedAt = 5\<rparr>"

text \<open>
  The record of spends is append-only whatever is written and whichever calls fail: after
  any run of operations every spend recorded before is still there with its transaction, and no
  spend or watched outpoint is recorded twice.
\<close>

theorem spend_history_kept:
  fixes d :: "'x db_scheme"
  assumes "spends_ok d"
  shows "spends_ok (foldl spend_op_step d ops) \<and> history_kept d (foldl spend_op_step d ops)"
  using spend_history.run_inv [of d ops] spend_history.run_le [of d ops] assms by (simp add: list_all_iff)

theorem spend_history_kept_witness:
  "spends_ok (foldl spend_op_step empty_db [ORecordSpend demo_spend, OSpendStatus 1 SpendReorgedOut '''' 0 9])"
  using spend_history_kept [of empty_db "[ORecordSpend demo_spend, OSpendStatus 1 SpendReorgedOut '''' 0 9]"] by simp

definition valid_spend :: "spend \<Rightarrow> bool" where
  "valid_spend sp \<longleftrightarrow> Branch_Valid (spBranch sp) \<and> spOutpointTxID sp \<noteq> '''' \<and> spSpendTxID sp \<noteq> ''''
     \<and> spSpendTxHex sp \<noteq> '''' \<and> Status_Valid (spStatus sp)
     \<and> (spShape sp = ShapeOther '''' \<or> Shape_Valid (spShape sp))"

lemma RecordSpend_known:
  assumes "valid_spend sp" "spends_ok d" "r \<in> set (t_spends d)" "spend_key r = spend_key sp" "faults d = []"
  shows "RecordSpend sp d = (d, Inr (spID r, True))"
proof -
  let ?sp = "if spShape sp = ShapeOther '''' then sp\<lparr>spShape := ShapeUnknown\<rparr> else sp"
  have k: "spend_key ?sp = spend_key r" using assms(4) by (simp add: spend_key_def)
  obtain x where x: "find (\<lambda>y. spend_key y = spend_key r) (t_spends d) = Some x"
    using assms(3) by (cases "find (\<lambda>y. spend_key y = spend_key r) (t_spends d)") (auto simp: find_None_all)
  then have "x = r"
    using assms(2,3) spends.same_key [of "t_spends d" x r] by (auto simp: spends_ok_def dest: find_Some_mem)
  moreover have "Shape_Valid (spShape ?sp)" using assms(1) by (auto simp: valid_spend_def)
  ultimately show ?thesis
    using assms(1,5) x k by (simp add: RecordSpend_def Let_def db_call_def valid_spend_def)
qed

text \<open>
  Recording is idempotent: once a spend has been recorded, recording the same spend again,
  however its other fields differ and whatever was written in between, returns the first id,
  reports that it existed and leaves the tables as they are, if the call itself does not fail.
\<close>

theorem record_spend_idempotent:
  assumes "spends_ok d" and "RecordSpend sp d = (d', Inr (i, e))"
    and "valid_spend sp'" and "spend_key sp' = spend_key sp"
    and "faults (foldl spend_op_step d' ops) = []"
  shows "RecordSpend sp' (foldl spend_op_step d' ops) = (foldl spend_op_step d' ops, Inr (i, True))"
proof -
  have ok': "spends_ok d'" using RecordSpend_step [of d sp] assms(1,2) by (simp add: spends_step_def)
  obtain r where r: "r \<in> set (t_spends d')" "spID r = i" "spend_key r = spend_key sp"
    using RecordSpend_row [OF assms(2)] by blast
  from spend_history.run_le [of d' ops] ok' have "history_kept d' (foldl spend_op_step d' ops)"
    by (simp add: list_all_iff)
  with r obtain r' where r': "r' \<in> set (t_spends (foldl spend_op_step d' ops))" "spID r' = i"
    "spend_key r' = spend_key sp'"
    using assms(4) unfolding history_kept_def same_spend_def by metis
  have "spends_ok (foldl spend_op_step d' ops)"
    using spend_history.run_inv [of d' ops] ok' by (simp add: list_all_iff)
  from RecordSpend_known [OF assms(3) this r'(1,3) assms(5)] r'(2) show ?thesis by simp
qed

theorem record_spend_idempotent_witness:
  "snd (RecordSpend demo_spend (fst (RecordSpend demo_spend empty_db))) = Inr (1, True)"
proof -
  have "RecordSpend demo_spend empty_db = (fst (RecordSpend demo_spend empty_db), Inr (1, False))"
    "valid_spend demo_spend" "faults (fst (RecordSpend demo_spend empty_db)) = []" by code_simp+
  from record_spend_idempotent [OF spends_ok_empty this(1,2) refl, of "[]"] this(3) show ?thesis by simp
qed

end
