(* ===== verification/Deadline_Engine.thy ===== *)
theory Deadline_Engine
  imports Deadline_Compute Store_Deadlines Store_Channels Store_Spends "HOL-Library.Sublist"
begin

text \<open>
  \<open>internal/deadline/deadline.go\<close>: the engine that keeps the countdowns. It is the only writer of
  their rows and runs one event at a time, so a handler is a function on its world: the tables,
  the tip and cadence it last heard of, the status it shows and the events it has published.
  Every store call may fail as the fault script says, and every handler carries on as the
  source does. The clock is read as a constant during one event. Log lines are left out.
\<close>

section \<open>World\<close>

datatype dl_event =
    DeadlineEscalated (evDeadlineID: int) (evChannelID: int) (evLevel: int) (evRemaining: int) (evEstimate: string)
  | DeadlineExpiredLoss (evDeadlineID: int) (evChannelID: int) (evAmountSat: int)
  | DeadlineResolvedBy (evDeadlineID: int) (evByTxid: string)

record dl_status =
  stCounting :: int
  stAssumed :: int
  stAssumedChannels :: "int list"
  stEarliestHeight :: int
  stTipHeight :: int

record engine = db +
  eBranch :: branch
  eTipHeight :: int
  eAvgInterval :: f64
  eStatus :: dl_status
  ePublished :: "dl_event list"

definition InputsKnown :: "dl_status \<Rightarrow> bool" where
  "InputsKnown s \<longleftrightarrow> stAssumed s = 0"

definition ReorgPatienceBlocks :: int where "ReorgPatienceBlocks = 100"

text \<open>What the engine subscribes to, with the fields it reads.\<close>

record funding_spent =
  fsBranch :: branch
  fsChannelID :: int
  fsSpendEventID :: int
  fsShape :: spend_shape
  fsStatus :: spend_status

record second_order_spent =
  soShape :: spend_shape
  soSpendEventID :: int
  soSourceSpendEventID :: int

datatype dl_input =
    FundingSpent funding_spent
  | SplitBranchExtended branch int f64
  | SecondOrderSpent second_order_spent
  | SpendLeftChain branch int
  | ChannelUpserted int
  | OtherEvent

definition publish :: "dl_event \<Rightarrow> engine \<Rightarrow> engine" where
  "publish ev w = w\<lparr>ePublished := ePublished w @ [ev]\<rparr>"

section \<open>Reading\<close>

definition channel_of_id :: "int \<Rightarrow> engine \<Rightarrow> engine \<times> channel option" where
  "channel_of_id i w =
     (if i = 0 then (w, None)
      else case ListChannels all_channels w of
             (w1, Inl _) \<Rightarrow> (w1, None)
           | (w1, Inr cs) \<Rightarrow> (w1, find (\<lambda>c. chID c = i) cs))"

definition channelOf :: "int \<Rightarrow> engine \<Rightarrow> engine \<times> int" where
  "channelOf spendID w =
     (case GetSpend spendID w of (w1, Inl _) \<Rightarrow> (w1, 0) | (w1, Inr sp) \<Rightarrow> (w1, spChannelID sp))"

definition txidOf :: "int \<Rightarrow> engine \<Rightarrow> engine \<times> string" where
  "txidOf spendID w =
     (case GetSpend spendID w of (w1, Inl _) \<Rightarrow> (w1, '''') | (w1, Inr sp) \<Rightarrow> (w1, spSpendTxID sp))"

fun status_loop :: "deadline list \<Rightarrow> dl_status \<Rightarrow> engine \<Rightarrow> engine \<times> dl_status" where
  "status_loop [] st w = (w, st)"
| "status_loop (r # rs) st w =
     (let st = (if stEarliestHeight st = 0 \<or> dlHeight r < stEarliestHeight st
                then st\<lparr>stEarliestHeight := dlHeight r\<rparr> else st)
      in if \<not> dlAssumed r then status_loop rs st w
         else
           (case channelOf (dlSpendEventID r) w of
              (w1, channelID) \<Rightarrow>
                (let st = st\<lparr>stAssumed := stAssumed st + 1\<rparr>;
                     st = (if channelID \<noteq> 0 \<and> channelID \<notin> set (stAssumedChannels st)
                           then st\<lparr>stAssumedChannels := stAssumedChannels st @ [channelID]\<rparr> else st)
                 in status_loop rs st w1)))"

definition refreshStatus :: "engine \<Rightarrow> engine" where
  "refreshStatus w =
     (case ListDeadlines DeadlineCounting w of
        (w1, Inl _) \<Rightarrow> w1
      | (w1, Inr running) \<Rightarrow>
          (case status_loop running
                  \<lparr>stCounting = int (length running), stAssumed = 0, stAssumedChannels = [],
                   stEarliestHeight = 0, stTipHeight = eTipHeight w1\<rparr> w1 of
             (w2, st) \<Rightarrow> w2\<lparr>eStatus := st\<rparr>))"

section \<open>Starting and escalating\<close>

definition startsAClock :: "spend_shape \<Rightarrow> bool" where
  "startsAClock shape \<longleftrightarrow>
     shape = ShapeCommitmentOurs \<or> shape = ShapeCommitmentUnknown \<or> shape = ShapeCommitmentRevoked"

definition escalateTo :: "int \<Rightarrow> int \<Rightarrow> int \<Rightarrow> int \<Rightarrow> int \<Rightarrow> engine \<Rightarrow> engine" where
  "escalateTo now i channelID height level w =
     (case SetDeadlineEscalation i level now w of
        (w1, Inl _) \<Rightarrow> w1
      | (w1, Inr _) \<Rightarrow>
          (let remaining = Remaining height (eTipHeight w1);
               estimate = (case Project remaining (eAvgInterval w1) of
                             (projected, ok) \<Rightarrow> if ok then HumanDuration projected else '''')
           in publish (DeadlineEscalated i channelID level remaining estimate) w1))"

definition clock_row :: "int \<Rightarrow> int \<Rightarrow> computed \<Rightarrow> deadline" where
  "clock_row now spendID c =
     \<lparr>dlID = 0, dlSpendEventID = spendID, dlKind = coKind c, dlHeight = coHeight c,
      dlState = DeadlineCounting, dlEscalation = LevelDetected, dlAssumed = coAssumed c,
      dlResolvedByTxID = '''', dlUpdatedAt = now\<rparr>"

definition start :: "int \<Rightarrow> funding_spent \<Rightarrow> computed \<Rightarrow> engine \<Rightarrow> engine" where
  "start now ev c w =
     (case UpsertDeadline (clock_row now (fsSpendEventID ev) c) w of
        (w1, Inl _) \<Rightarrow> w1
      | (w1, Inr (i, changed)) \<Rightarrow>
          if \<not> changed then w1 else escalateTo now i (fsChannelID ev) (coHeight c) LevelDetected w1)"

definition onFundingSpent :: "int \<Rightarrow> funding_spent \<Rightarrow> engine \<Rightarrow> engine" where
  "onFundingSpent now ev w =
     (if fsBranch ev \<noteq> eBranch w then w
      else if fsStatus ev \<noteq> SpendConfirmed then w
      else if \<not> startsAClock (fsShape ev) then w
      else
        (case GetSpend (fsSpendEventID ev) w of
           (w1, Inl _) \<Rightarrow> w1
         | (w1, Inr sp) \<Rightarrow>
             (let inp = \<lparr>inConfirmHeight = spBlockHeight sp, inShape = spShape sp,
                         inCSVDelayLocal = None, inCSVDelayRemote = None, inHTLCs = []\<rparr>;
                  (w3, inp) =
                    (case channel_of_id (fsChannelID ev) w1 of
                       (w2, None) \<Rightarrow> (w2, inp)
                     | (w2, Some c) \<Rightarrow>
                         (let inp = inp\<lparr>inCSVDelayLocal := chCSVDelayLocal c, inCSVDelayRemote := chCSVDelayRemote c\<rparr>
                          in case ListHTLCs (chID c) w2 of
                               (w3, Inl _) \<Rightarrow> (w3, inp)
                             | (w3, Inr htlcs) \<Rightarrow> (w3, inp\<lparr>inHTLCs := htlcs\<rparr>)))
              in refreshStatus (fold (start now ev) (Compute inp) w3))))"

section \<open>Recomputing\<close>

definition recompute :: "int \<Rightarrow> int \<Rightarrow> computed \<Rightarrow> engine \<times> int \<Rightarrow> engine \<times> int" where
  "recompute now spendID c wi =
     (case wi of (w, improved) \<Rightarrow>
        (case UpsertDeadline (clock_row now spendID c) w of
           (w1, Inl _) \<Rightarrow> (w1, improved)
         | (w1, Inr (i, changed)) \<Rightarrow> (w1, if changed then improved + 1 else improved)))"

fun upserted_loop ::
  "int \<Rightarrow> channel \<Rightarrow> htlc_snapshot list \<Rightarrow> deadline list \<Rightarrow> int list \<Rightarrow> engine \<times> int \<Rightarrow> engine \<times> int" where
  "upserted_loop now c htlcs [] seen wi = wi"
| "upserted_loop now c htlcs (r # rs) seen (w, improved) =
     (if dlSpendEventID r \<in> set seen then upserted_loop now c htlcs rs seen (w, improved)
      else
        (case GetSpend (dlSpendEventID r) w of
           (w1, Inl _) \<Rightarrow> upserted_loop now c htlcs rs seen (w1, improved)
         | (w1, Inr sp) \<Rightarrow>
             if spChannelID sp \<noteq> chID c then upserted_loop now c htlcs rs seen (w1, improved)
             else
               upserted_loop now c htlcs rs (dlSpendEventID r # seen)
                 (fold (recompute now (spID sp))
                    (Compute \<lparr>inConfirmHeight = spBlockHeight sp, inShape = spShape sp,
                       inCSVDelayLocal = chCSVDelayLocal c, inCSVDelayRemote = chCSVDelayRemote c,
                       inHTLCs = htlcs\<rparr>)
                    (w1, improved))))"

definition onChannelUpserted :: "int \<Rightarrow> int \<Rightarrow> engine \<Rightarrow> engine" where
  "onChannelUpserted now channelID w =
     (if channelID = 0 then w
      else
        (case ListDeadlines DeadlineCounting w of
           (w1, Inl _) \<Rightarrow> w1
         | (w1, Inr running) \<Rightarrow>
             (case channel_of_id channelID w1 of
                (w2, None) \<Rightarrow> w2
              | (w2, Some c) \<Rightarrow>
                  (let (w3, htlcs) = (case ListHTLCs (chID c) w2 of
                                        (w3, Inl _) \<Rightarrow> (w3, []) | (w3, Inr hs) \<Rightarrow> (w3, hs));
                       (w4, improved) = upserted_loop now c htlcs running [] (w3, 0)
                   in if 0 < improved then refreshStatus w4 else w4))))"

section \<open>Ending\<close>

definition expire :: "int \<Rightarrow> deadline \<Rightarrow> spend \<Rightarrow> engine \<Rightarrow> engine" where
  "expire now r sp w =
     (case SetDeadlineState (dlID r) DeadlineExpired '''' now w of
        (w1, Inl _) \<Rightarrow> w1
      | (w1, Inr _) \<Rightarrow>
          if spShape sp = ShapeCommitmentOurs then w1
          else
            (case channel_of_id (spChannelID sp) w1 of
               (w2, found) \<Rightarrow>
                 publish (DeadlineExpiredLoss (dlID r) (spChannelID sp)
                   (case found of None \<Rightarrow> 0 | Some c \<Rightarrow> chCapacitySat c)) w2))"

definition retire :: "int \<Rightarrow> deadline \<Rightarrow> engine \<Rightarrow> engine" where
  "retire now r w =
     (case SetDeadlineState (dlID r) DeadlineResolved '''' now w of
        (w1, Inl _) \<Rightarrow> w1
      | (w1, Inr _) \<Rightarrow> publish (DeadlineResolvedBy (dlID r) '''') w1)"

text \<open>One round of the loop of \<open>advance\<close>.\<close>

definition advance_one :: "int \<Rightarrow> int \<Rightarrow> deadline \<Rightarrow> engine \<Rightarrow> engine" where
  "advance_one now tip r w =
     (case GetSpend (dlSpendEventID r) w of
        (w1, Inl _) \<Rightarrow> w1
      | (w1, Inr sp) \<Rightarrow>
          if spStatus sp = SpendReorgedOut
          then (if ReorgPatienceBlocks < i32 (tip - spBlockHeight sp) then retire now r w1 else w1)
          else
            (let remaining = Remaining (dlHeight r) tip
             in if remaining = 0 then expire now r sp w1
                else
                  (let window = i32 (dlHeight r - spBlockHeight sp);
                       level = Level remaining window
                   in if dlEscalation r < level
                      then escalateTo now (dlID r) (spChannelID sp) (dlHeight r) level w1
                      else w1)))"

definition advance :: "int \<Rightarrow> engine \<Rightarrow> engine" where
  "advance now w =
     (case ListDeadlines DeadlineCounting w of
        (w1, Inl _) \<Rightarrow> w1
      | (w1, Inr running) \<Rightarrow> fold (advance_one now (eTipHeight w1)) running w1)"

definition f64_positive :: "f64 \<Rightarrow> bool" where
  "f64_positive x \<longleftrightarrow> (case x of Fin q \<Rightarrow> 0 < q | PosInf \<Rightarrow> True | NegInf \<Rightarrow> False | NaN \<Rightarrow> False)"

definition onBranchExtended :: "int \<Rightarrow> branch \<Rightarrow> int \<Rightarrow> f64 \<Rightarrow> engine \<Rightarrow> engine" where
  "onBranchExtended now br height avg w =
     (if br \<noteq> eBranch w then w
      else
        (let w1 = w\<lparr>eTipHeight := height\<rparr>;
             w2 = (if f64_positive avg then w1\<lparr>eAvgInterval := avg\<rparr> else w1)
         in refreshStatus (advance now w2)))"

section \<open>Answered countdowns\<close>

definition justice_one :: "int \<Rightarrow> int \<Rightarrow> string \<Rightarrow> deadline \<Rightarrow> engine \<Rightarrow> engine" where
  "justice_one now source txid r w =
     (if dlSpendEventID r \<noteq> source then w
      else
        (case SetDeadlineState (dlID r) DeadlineResolved txid now w of
           (w1, Inl _) \<Rightarrow> w1
         | (w1, Inr _) \<Rightarrow> publish (DeadlineResolvedBy (dlID r) txid) w1))"

definition sweep_one :: "int \<Rightarrow> second_order_spent \<Rightarrow> spend \<Rightarrow> deadline \<Rightarrow> engine \<Rightarrow> engine" where
  "sweep_one now ev source r w =
     (if dlSpendEventID r \<noteq> soSourceSpendEventID ev \<or> dlKind r \<noteq> DeadlineCSV then w
      else if spShape source = ShapeCommitmentOurs
      then
        (case txidOf (soSpendEventID ev) w of
           (w1, txid) \<Rightarrow>
             (case SetDeadlineState (dlID r) DeadlineResolved txid now w1 of
                (w2, Inl _) \<Rightarrow> w2
              | (w2, Inr _) \<Rightarrow> publish (DeadlineResolvedBy (dlID r) txid) w2))
      else expire now r source w)"

definition settleBySweep :: "int \<Rightarrow> second_order_spent \<Rightarrow> engine \<Rightarrow> engine" where
  "settleBySweep now ev w =
     (case GetSpend (soSourceSpendEventID ev) w of
        (w1, Inl _) \<Rightarrow> w1
      | (w1, Inr source) \<Rightarrow>
          (case ListDeadlines DeadlineCounting w1 of
             (w2, Inl _) \<Rightarrow> w2
           | (w2, Inr running) \<Rightarrow> refreshStatus (fold (sweep_one now ev source) running w2)))"

definition onSecondOrderSpent :: "int \<Rightarrow> second_order_spent \<Rightarrow> engine \<Rightarrow> engine" where
  "onSecondOrderSpent now ev w =
     (if soShape ev \<noteq> ShapeJustice \<and> soShape ev \<noteq> ShapeDelayedSweep then w
      else if soSourceSpendEventID ev = 0 then w
      else if soShape ev = ShapeDelayedSweep then settleBySweep now ev w
      else
        (case ListDeadlines DeadlineCounting w of
           (w1, Inl _) \<Rightarrow> w1
         | (w1, Inr running) \<Rightarrow>
             (case txidOf (soSpendEventID ev) w1 of
                (w2, txid) \<Rightarrow>
                  refreshStatus (fold (justice_one now (soSourceSpendEventID ev) txid) running w2))))"

text \<open>A spend that left the chain is only logged; the sweep in \<open>advance\<close> retires it later.\<close>

definition onSpendReorgedOut :: "branch \<Rightarrow> int \<Rightarrow> engine \<Rightarrow> engine" where
  "onSpendReorgedOut br i w = w"

fun handle :: "int \<Rightarrow> dl_input \<Rightarrow> engine \<Rightarrow> engine" where
  "handle now (FundingSpent ev) w = onFundingSpent now ev w"
| "handle now (SplitBranchExtended br height avg) w = onBranchExtended now br height avg w"
| "handle now (SecondOrderSpent ev) w = onSecondOrderSpent now ev w"
| "handle now (SpendLeftChain br i) w = onSpendReorgedOut br i w"
| "handle now (ChannelUpserted i) w = onChannelUpserted now i w"
| "handle now OtherEvent w = w"

section \<open>Every handler is a step of the clocks\<close>

text \<open>
  What the announcements say is true of the rows, and is said once: the deadlines announced as
  ended are distinct, and each has a row in the state that was announced.
\<close>

fun ended :: "dl_event \<Rightarrow> (int \<times> deadline_state) list" where
  "ended (DeadlineEscalated _ _ _ _ _) = []"
| "ended (DeadlineExpiredLoss i _ _) = [(i, DeadlineExpired)]"
| "ended (DeadlineResolvedBy i _) = [(i, DeadlineResolved)]"

definition endings :: "engine \<Rightarrow> (int \<times> deadline_state) list" where
  "endings w = concat (map ended (ePublished w))"

definition truthful :: "engine \<Rightarrow> bool" where
  "truthful w \<longleftrightarrow> distinct (map fst (endings w))
     \<and> (\<forall>(i, st) \<in> set (endings w). \<exists>r \<in> set (t_deadlines w). dlID r = i \<and> dlState r = st)"

definition engine_ok :: "engine \<Rightarrow> bool" where
  "engine_ok w \<longleftrightarrow> deadlines_ok w \<and> truthful w"

text \<open>
  A step under the condition that the rows with the ids in \<open>I\<close> are still counting: it keeps
  the invariant, moves the rows forward only, extends the announcements and leaves the rows
  with ids in \<open>J\<close> counting.
\<close>

definition counting_ids :: "int set \<Rightarrow> engine \<Rightarrow> bool" where
  "counting_ids I w \<longleftrightarrow> (\<forall>r \<in> set (t_deadlines w). dlID r \<in> I \<longrightarrow> dlState r = DeadlineCounting)"

definition estep :: "int set \<Rightarrow> int set \<Rightarrow> engine \<Rightarrow> engine \<Rightarrow> bool" where
  "estep I J w w' \<longleftrightarrow>
     (engine_ok w \<longrightarrow> counting_ids I w \<longrightarrow>
        engine_ok w' \<and> clocks_kept w w' \<and> counting_ids J w' \<and> prefix (ePublished w) (ePublished w'))"

lemma estep_refl: "J \<subseteq> I \<Longrightarrow> estep I J w w"
  by (auto simp: estep_def counting_ids_def)

lemma estep_trans: "estep I J u v \<Longrightarrow> estep J K v w \<Longrightarrow> estep I K u w"
  unfolding estep_def by (meson clocks_kept_trans prefix_order.trans)

lemma estep_mono: "estep I J w w' \<Longrightarrow> I \<subseteq> I' \<Longrightarrow> J' \<subseteq> J \<Longrightarrow> estep I' J' w w'"
  unfolding estep_def counting_ids_def by blast

lemma estep_fold:
  assumes "\<And>x I w. x \<in> set xs \<Longrightarrow> dlID x \<notin> I \<Longrightarrow> estep (insert (dlID x) I) I w (f x w)"
    and "distinct (map dlID xs)"
  shows "estep (set (map dlID xs)) {} w (fold f xs w)"
  using assms
proof (induction xs arbitrary: w)
  case Nil
  show ?case by (simp add: estep_refl)
next
  case (Cons x xs)
  have "estep (insert (dlID x) (set (map dlID xs))) (set (map dlID xs)) w (f x w)"
    using Cons.prems by simp
  moreover have "estep (set (map dlID xs)) {} (f x w) (fold f xs (f x w))"
    using Cons by simp
  ultimately show ?case by (auto intro: estep_trans)
qed

text \<open>Steps that leave the countdowns and the announcements alone.\<close>

definition quiet :: "engine \<Rightarrow> engine \<Rightarrow> bool" where
  "quiet w w' \<longleftrightarrow> t_deadlines w' = t_deadlines w \<and> t_spends w' = t_spends w
     \<and> t_channels w' = t_channels w \<and> t_htlcs w' = t_htlcs w
     \<and> ePublished w' = ePublished w \<and> eTipHeight w' = eTipHeight w
     \<and> eBranch w' = eBranch w \<and> eAvgInterval w' = eAvgInterval w
     \<and> (faults w = [] \<longrightarrow> faults w' = [])"

lemma quiet_refl [simp]: "quiet w w"
  by (simp add: quiet_def)

lemma quiet_trans: "quiet u v \<Longrightarrow> quiet v w \<Longrightarrow> quiet u w"
  by (simp add: quiet_def)

lemma quiet_estep: "quiet w w' \<Longrightarrow> estep I I w w'"
  by (auto simp: quiet_def estep_def engine_ok_def deadlines_ok_def truthful_def endings_def
      clocks_kept_def counting_ids_def intro: same_clock_refl)

lemma db_read_quiet: "quiet w (fst (db_read f w))"
  by (auto simp: db_read_def db_call_def quiet_def split: list.split)

lemma reads_quiet:
  "quiet w (fst (GetSpend i w))"
  "quiet w (fst (ListChannels cf w))"
  "quiet w (fst (ListHTLCs i w))"
  "quiet w (fst (ListDeadlines st w))"
  by (simp_all add: GetSpend_def ListChannels_def ListHTLCs_def ListDeadlines_def db_read_quiet)

lemma channel_of_id_quiet: "quiet w (fst (channel_of_id i w))"
  using reads_quiet(2) [of w all_channels] by (auto simp: channel_of_id_def split: prod.split sum.split)

lemma channelOf_quiet: "quiet w (fst (channelOf i w))"
  using reads_quiet(1) [of w i] by (auto simp: channelOf_def split: prod.split sum.split)

lemma txidOf_quiet: "quiet w (fst (txidOf i w))"
  using reads_quiet(1) [of w i] by (auto simp: txidOf_def split: prod.split sum.split)

lemma status_loop_quiet: "quiet w (fst (status_loop rs st w))"
proof (induction rs st w rule: status_loop.induct)
  case (2 r rs st w)
  let ?st = "if stEarliestHeight st = 0 \<or> dlHeight r < stEarliestHeight st
                then st\<lparr>stEarliestHeight := dlHeight r\<rparr> else st"
  obtain w1 ch where c: "channelOf (dlSpendEventID r) w = (w1, ch)" by fastforce
  have "quiet w w1" using channelOf_quiet [of w "dlSpendEventID r"] c by simp
  then show ?case
    using 2 c by (auto simp: Let_def intro: quiet_trans)
qed simp

lemma refreshStatus_quiet: "quiet w (refreshStatus w)"
proof -
  obtain w1 r where l: "ListDeadlines DeadlineCounting w = (w1, r)" by fastforce
  then have q: "quiet w w1" using reads_quiet(4) [of w DeadlineCounting] by simp
  show ?thesis
  proof (cases r)
    case (Inl e)
    with l q show ?thesis by (simp add: refreshStatus_def)
  next
    case (Inr running)
    let ?st = "\<lparr>stCounting = int (length running), stAssumed = 0, stAssumedChannels = [],
                   stEarliestHeight = 0, stTipHeight = eTipHeight w1\<rparr>"
    obtain w2 st where s: "status_loop running ?st w1 = (w2, st)" by fastforce
    then have "quiet w1 w2" using status_loop_quiet [of w1 running ?st] by simp
    with q have "quiet w (w2\<lparr>eStatus := st\<rparr>)" by (simp add: quiet_def)
    with l Inr s show ?thesis by (simp add: refreshStatus_def)
  qed
qed

text \<open>Steps of the rows that announce nothing and end nothing.\<close>

lemma ended_state: "(i, st) \<in> set (ended e) \<Longrightarrow> st = DeadlineExpired \<or> st = DeadlineResolved"
  by (cases e) simp_all

lemma truthful_clocks_kept:
  assumes "truthful w" "clocks_kept w w'" "ePublished w' = ePublished w"
  shows "truthful w'"
proof -
  have "\<exists>r \<in> set (t_deadlines w'). dlID r = i \<and> dlState r = st" if "(i, st) \<in> set (endings w)" for i st
  proof -
    from that assms(1) obtain r where r: "r \<in> set (t_deadlines w)" "dlID r = i" "dlState r = st"
      by (auto simp: truthful_def)
    have "st \<noteq> DeadlineCounting"
      using that by (auto simp: endings_def dest: ended_state)
    then show ?thesis
      using r assms(2) unfolding clocks_kept_def same_clock_def by metis
  qed
  then show ?thesis using assms(1,3) by (auto simp: truthful_def endings_def)
qed

lemma clocks_estep:
  assumes "clocks_step w w'" "ePublished w' = ePublished w" "counting_ids I w \<Longrightarrow> counting_ids J w'"
  shows "estep I J w w'"
  using assms truthful_clocks_kept [of w w']
  by (auto simp: estep_def engine_ok_def clocks_step_def)

lemma UpsertDeadline_more [simp]: "ePublished (fst (UpsertDeadline r w)) = ePublished w"
  "eTipHeight (fst (UpsertDeadline r w)) = eTipHeight w" "t_spends (fst (UpsertDeadline r w)) = t_spends w"
  by (auto simp: UpsertDeadline_def Let_def db_call_def split: list.split option.split)

lemma SetDeadlineEscalation_more [simp]: "ePublished (fst (SetDeadlineEscalation i l now w)) = ePublished w"
  by (auto simp: SetDeadlineEscalation_def db_call_def split: list.split)

lemma SetDeadlineState_more [simp]: "ePublished (fst (SetDeadlineState i st txid now w)) = ePublished w"
  by (auto simp: SetDeadlineState_def requireOneRow_def db_call_def split: list.split)

lemma SetDeadlineEscalation_estep: "estep I I w (fst (SetDeadlineEscalation i l now w))"
  by (rule clocks_estep [OF SetDeadlineEscalation_step])
     (auto simp: SetDeadlineEscalation_def db_call_def counting_ids_def set_update_row split: list.split)

lemma UpsertDeadline_estep: "estep I I w (fst (UpsertDeadline (clock_row now i c) w))"
  by (rule clocks_estep [OF UpsertDeadline_step])
     (auto simp: UpsertDeadline_def Let_def db_call_def counting_ids_def set_update_row clock_row_def
        place_deadline_def split: list.split option.split)

text \<open>Publishing an escalation ends nothing.\<close>

lemma publish_escalated_estep: "estep I I w (publish (DeadlineEscalated i ch l n s) w)"
  by (auto simp: estep_def engine_ok_def deadlines_ok_def truthful_def endings_def publish_def
      clocks_kept_def counting_ids_def intro: same_clock_refl)

lemma escalateTo_estep: "estep I I w (escalateTo now i ch h l w)"
proof -
  obtain w1 r where s: "SetDeadlineEscalation i l now w = (w1, r)" by fastforce
  then have "estep I I w w1" using SetDeadlineEscalation_estep [of I w i l now] by simp
  with s show ?thesis
    by (auto simp: escalateTo_def Let_def split: sum.split prod.split
        intro: estep_trans [OF _ publish_escalated_estep])
qed

lemma start_estep: "estep I I w (start now ev c w)"
proof -
  obtain w1 r where s: "UpsertDeadline (clock_row now (fsSpendEventID ev) c) w = (w1, r)" by fastforce
  then have "estep I I w w1" using UpsertDeadline_estep [of I w now "fsSpendEventID ev" c] by simp
  with s show ?thesis
    by (auto simp: start_def split: sum.split intro: estep_trans [OF _ escalateTo_estep])
qed

text \<open>
  Ending a counting row: its id has not been announced before, because an announced id has a
  row that is not counting and ids are unique.
\<close>

lemma not_announced:
  assumes "engine_ok w" "counting_ids (insert i I) w"
    and "r \<in> set (t_deadlines w)" "dlID r = i"
  shows "i \<notin> fst ` set (endings w)"
proof
  assume "i \<in> fst ` set (endings w)"
  then obtain st where e: "(i, st) \<in> set (endings w)" by auto
  with assms(1) obtain r' where r': "r' \<in> set (t_deadlines w)" "dlID r' = i" "dlState r' = st"
    by (auto simp: engine_ok_def truthful_def)
  with assms(2) have "st = DeadlineCounting" by (auto simp: counting_ids_def)
  moreover have "st = DeadlineExpired \<or> st = DeadlineResolved"
    using e by (auto simp: endings_def dest: ended_state)
  ultimately show False by auto
qed

lemma SetDeadlineState_ends:
  assumes "SetDeadlineState i st txid now w = (w1, r)"
    and "engine_ok w" "counting_ids (insert i I) w" "i \<notin> I"
  shows "engine_ok w1 \<and> clocks_kept w w1 \<and> counting_ids I w1 \<and> ePublished w1 = ePublished w
    \<and> (r = Inr () \<longrightarrow> (\<exists>x \<in> set (t_deadlines w1). dlID x = i \<and> dlState x = st) \<and> i \<notin> fst ` set (endings w))"
proof -
  have pub: "ePublished w1 = ePublished w"
    using SetDeadlineState_more [of i st txid now w] assms(1) by simp
  have "clocks_step w w1"
    using SetDeadlineState_step [of w i st txid now] assms(1,3) by (simp add: counting_ids_def)
  then have k: "deadlines_ok w1" "clocks_kept w w1"
    using assms(2) by (simp_all add: clocks_step_def engine_ok_def)
  have ok: "engine_ok w1"
    using k truthful_clocks_kept [OF _ k(2) pub] assms(2) by (simp add: engine_ok_def)
  have "counting_ids I w1"
    using assms(1,3,4)
    by (auto simp: SetDeadlineState_def requireOneRow_def db_call_def counting_ids_def set_update_row
        split: list.splits if_splits)
  moreover have "(\<exists>x \<in> set (t_deadlines w1). dlID x = i \<and> dlState x = st) \<and> i \<notin> fst ` set (endings w)"
    if "r = Inr ()"
  proof -
    let ?f = "\<lambda>r. r\<lparr>dlState := st, dlResolvedByTxID := txid, dlUpdatedAt := now\<rparr>"
    have ex: "\<exists>x \<in> set (t_deadlines w). dlID x = i"
      and rows: "t_deadlines w1 = update_row dlID i ?f (t_deadlines w)"
      using assms(1) that
      by (auto simp: SetDeadlineState_def requireOneRow_def db_call_def list_ex_iff split: list.splits if_splits)
    from ex obtain x where x: "x \<in> set (t_deadlines w)" "dlID x = i" by blast
    then have "?f x \<in> set (t_deadlines w1)" by (auto simp: rows update_row_def)
    then have st: "\<exists>x \<in> set (t_deadlines w1). dlID x = i \<and> dlState x = st"
      using x(2) by (intro bexI [of _ "?f x"]) simp_all
    from ex not_announced [OF assms(2,3)] st show ?thesis by blast
  qed
  ultimately show ?thesis using ok k(2) pub by blast
qed

lemma SetDeadlineState_estep:
  assumes "i \<notin> I"
  shows "estep (insert i I) I w (fst (SetDeadlineState i st txid now w))"
  using SetDeadlineState_ends [OF surjective_pairing _ _ assms] by (auto simp: estep_def)

text \<open>Ending a row, then anything quiet, then the announcement.\<close>

lemma announce_estep:
  assumes "SetDeadlineState i st txid now w = (w1, Inr ())" and "i \<notin> I" and "quiet w1 w2"
    and "ended ev = [(i, st)]"
  shows "estep (insert i I) I w (publish ev w2)"
  unfolding estep_def
proof (intro impI)
  assume w: "engine_ok w" "counting_ids (insert i I) w"
  note e = SetDeadlineState_ends [OF assms(1) w assms(2)]
  have q: "t_deadlines w2 = t_deadlines w1" "ePublished w2 = ePublished w1" "t_spends w2 = t_spends w1"
    using assms(3) by (simp_all add: quiet_def)
  have "endings (publish ev w2) = endings w @ [(i, st)]"
    using assms(4) e q by (simp add: endings_def publish_def)
  moreover have "truthful w1" "endings w1 = endings w" using e by (simp_all add: engine_ok_def endings_def)
  ultimately have "truthful (publish ev w2)"
    using e q by (auto simp: truthful_def publish_def)
  then show "engine_ok (publish ev w2) \<and> clocks_kept w (publish ev w2) \<and> counting_ids I (publish ev w2)
      \<and> prefix (ePublished w) (ePublished (publish ev w2))"
    using e q by (auto simp: engine_ok_def deadlines_ok_def clocks_kept_def counting_ids_def publish_def)
qed

lemma expire_estep:
  assumes "dlID r \<notin> I"
  shows "estep (insert (dlID r) I) I w (expire now r sp w)"
proof -
  obtain w1 res where s: "SetDeadlineState (dlID r) DeadlineExpired '''' now w = (w1, res)" by fastforce
  then have a: "estep (insert (dlID r) I) I w w1"
    using SetDeadlineState_estep [OF assms, of w DeadlineExpired "''''" now] by simp
  obtain w2 found where c: "channel_of_id (spChannelID sp) w1 = (w2, found)" by fastforce
  then have q: "quiet w1 w2" using channel_of_id_quiet [of w1 "spChannelID sp"] by simp
  show ?thesis
    using s a c announce_estep [OF _ assms q, of DeadlineExpired "''''" now w] 
    by (cases res) (auto simp: expire_def)
qed

lemma retire_estep:
  assumes "dlID r \<notin> I"
  shows "estep (insert (dlID r) I) I w (retire now r w)"
proof -
  obtain w1 res where s: "SetDeadlineState (dlID r) DeadlineResolved '''' now w = (w1, res)" by fastforce
  then have a: "estep (insert (dlID r) I) I w w1"
    using SetDeadlineState_estep [OF assms, of w DeadlineResolved "''''" now] by simp
  show ?thesis
    using s a announce_estep [OF _ assms quiet_refl, of DeadlineResolved "''''" now w]
    by (cases res) (auto simp: retire_def)
qed

lemma drop_one: "estep I I w w' \<Longrightarrow> estep (insert i I) I w w'"
  by (rule estep_mono) auto

lemma after_read:
  assumes "quiet w w1" "estep I J w1 w'"
  shows "estep I J w w'"
  using estep_trans [OF quiet_estep [OF assms(1)] assms(2)] .

lemma advance_one_estep:
  assumes "dlID r \<notin> I"
  shows "estep (insert (dlID r) I) I w (advance_one now tip r w)"
proof -
  obtain w1 res where g: "GetSpend (dlSpendEventID r) w = (w1, res)" by fastforce
  then have q: "quiet w w1" using reads_quiet(1) [of w "dlSpendEventID r"] by simp
  have "estep (insert (dlID r) I) I w1 (advance_one now tip r w)"
    using g retire_estep [OF assms] expire_estep [OF assms] drop_one [OF escalateTo_estep]
      drop_one [OF estep_refl [OF order_refl]]
    by (auto simp: advance_one_def Let_def split: sum.split)
  with q show ?thesis by (rule after_read)
qed

lemma justice_one_estep:
  assumes "dlID r \<notin> I"
  shows "estep (insert (dlID r) I) I w (justice_one now source txid r w)"
proof -
  obtain w1 res where s: "SetDeadlineState (dlID r) DeadlineResolved txid now w = (w1, res)" by fastforce
  then have a: "estep (insert (dlID r) I) I w w1"
    using SetDeadlineState_estep [OF assms, of w DeadlineResolved txid now] by simp
  show ?thesis
    using s a announce_estep [OF _ assms quiet_refl, of DeadlineResolved txid now w] drop_one [OF estep_refl [OF order_refl]]
    by (cases res) (auto simp: justice_one_def)
qed

lemma sweep_one_estep:
  assumes "dlID r \<notin> I"
  shows "estep (insert (dlID r) I) I w (sweep_one now ev source r w)"
proof -
  obtain w1 txid where t: "txidOf (soSpendEventID ev) w = (w1, txid)" by fastforce
  then have q: "quiet w w1" using txidOf_quiet [of w "soSpendEventID ev"] by simp
  obtain w2 res where s: "SetDeadlineState (dlID r) DeadlineResolved txid now w1 = (w2, res)" by fastforce
  then have a: "estep (insert (dlID r) I) I w1 w2"
    using SetDeadlineState_estep [OF assms, of w1 DeadlineResolved txid now] by simp
  have b: "estep (insert (dlID r) I) I w1
      (case res of Inl _ \<Rightarrow> w2 | Inr _ \<Rightarrow> publish (DeadlineResolvedBy (dlID r) txid) w2)"
    using s a announce_estep [OF _ assms quiet_refl, of DeadlineResolved txid now w1] by (cases res) auto
  show ?thesis
    using t s after_read [OF q b] expire_estep [OF assms] drop_one [OF estep_refl [OF order_refl]]
    by (auto simp: sweep_one_def)
qed

section \<open>Handlers\<close>

lemma running_list:
  assumes "ListDeadlines DeadlineCounting w = (w1, Inr running)" "engine_ok w"
  shows "quiet w w1 \<and> set running = {r \<in> set (t_deadlines w). dlState r = DeadlineCounting}
    \<and> distinct (map dlID running) \<and> counting_ids (set (map dlID running)) w1"
proof -
  have q: "quiet w w1" using reads_quiet(4) [of w DeadlineCounting] assms(1) by simp
  have "t_deadlines w1 = t_deadlines w" using q by (simp add: quiet_def)
  from assms(1) obtain fs where
    "running = sort_key dlHeight (filter (\<lambda>r. dlState r = DeadlineCounting) (t_deadlines w))"
    by (auto simp: ListDeadlines_def elim: db_read_cases)
  moreover have tab: "distinct (map dlID (t_deadlines w))"
    using assms(2) by (simp add: engine_ok_def deadlines_ok_def table_ok_def)
  ultimately have "set running = {r \<in> set (t_deadlines w). dlState r = DeadlineCounting}"
    "distinct (map dlID running)"
    by (auto simp: distinct_map inj_on_def)
  moreover have "counting_ids (set (map dlID running)) w1"
    using \<open>t_deadlines w1 = t_deadlines w\<close> calculation(1) tab
    by (auto simp: counting_ids_def distinct_map inj_on_def)
  ultimately show ?thesis using q by blast
qed

text \<open>A loop over the rows that were counting when it started.\<close>

lemma running_fold:
  assumes "ListDeadlines DeadlineCounting w = (w1, Inr running)"
    and "quiet w1 w2"
    and "\<And>x I w. dlID x \<notin> I \<Longrightarrow> estep (insert (dlID x) I) I w (f x w)"
  shows "estep {} {} w (fold f running w2)"
  unfolding estep_def
proof (intro impI)
  assume ok: "engine_ok w"
  note r = running_list [OF assms(1) ok]
  have "estep (set (map dlID running)) {} w1 (fold f running w2)"
    using after_read [OF assms(2)] estep_fold [of running f w2] assms(3) r by blast
  moreover have "engine_ok w1 \<and> clocks_kept w w1 \<and> ePublished w1 = ePublished w"
    using quiet_estep [of w w1 "{}"] r ok by (auto simp: estep_def counting_ids_def quiet_def)
  ultimately show "engine_ok (fold f running w2) \<and> clocks_kept w (fold f running w2)
      \<and> counting_ids {} (fold f running w2) \<and> prefix (ePublished w) (ePublished (fold f running w2))"
    using r unfolding estep_def by (metis clocks_kept_trans)
qed

lemma then_refresh: "estep I J w w' \<Longrightarrow> estep I J w (refreshStatus w')"
  by (rule estep_trans [OF _ quiet_estep [OF refreshStatus_quiet]])

lemma fold_estep: "(\<And>x w. estep I I w (f x w)) \<Longrightarrow> estep I I w (fold f xs w)"
proof (induction xs arbitrary: w)
  case (Cons x xs)
  then show ?case using estep_trans [of I I w "f x w" I] by simp
qed (simp add: estep_refl)

lemma advance_estep: "estep {} {} w (advance now w)"
proof -
  obtain w1 r where l: "ListDeadlines DeadlineCounting w = (w1, r)" by fastforce
  have "quiet w w1" using reads_quiet(4) [of w DeadlineCounting] l by simp
  then show ?thesis
    using l running_fold [OF _ quiet_refl advance_one_estep, of w w1] quiet_estep
    by (auto simp: advance_def split: sum.split)
qed

lemma onBranchExtended_estep: "estep {} {} w (onBranchExtended now br h avg w)"
proof -
  let ?w2 = "if f64_positive avg then w\<lparr>eTipHeight := h, eAvgInterval := avg\<rparr> else w\<lparr>eTipHeight := h\<rparr>"
  have "estep {} {} w ?w2"
    by (auto simp: estep_def engine_ok_def deadlines_ok_def truthful_def endings_def clocks_kept_def
        counting_ids_def intro: same_clock_refl)
  then have "estep {} {} w (refreshStatus (advance now ?w2))"
    using advance_estep then_refresh estep_trans by blast
  then show ?thesis
    by (simp add: onBranchExtended_def Let_def estep_refl)
qed

lemma onFundingSpent_estep: "estep {} {} w (onFundingSpent now ev w)"
proof -
  obtain w1 r where g: "GetSpend (fsSpendEventID ev) w = (w1, r)" by fastforce
  then have q1: "quiet w w1" using reads_quiet(1) [of w "fsSpendEventID ev"] by simp
  obtain w2 found where c: "channel_of_id (fsChannelID ev) w1 = (w2, found)" by fastforce
  then have q2: "quiet w w2" using channel_of_id_quiet [of w1 "fsChannelID ev"] q1 by (auto intro: quiet_trans)
  have run: "estep {} {} w (refreshStatus (fold (start now ev) cs v))" if "quiet w v" for cs v
    by (rule then_refresh [OF after_read [OF that fold_estep [OF start_estep]]])
  have q3: "quiet w w3" if "ListHTLCs i w2 = (w3, r)" for i w3 r
    using reads_quiet(3) [of w2 i] that q2 by (auto intro: quiet_trans)
  show ?thesis
    using g c run [OF q2] run [OF q3] quiet_estep [OF q1] estep_refl [of "{}" "{}" w]
    by (auto simp: onFundingSpent_def Let_def split: sum.split option.split prod.split)
qed

lemma recompute_estep: "estep I I (fst wi) (fst (recompute now i c wi))"
proof -
  obtain w n where wi: "wi = (w, n)" by fastforce
  obtain w1 r where u: "UpsertDeadline (clock_row now i c) w = (w1, r)" by fastforce
  then have "estep I I w w1" using UpsertDeadline_estep [of I w now i c] by simp
  with wi u show ?thesis by (simp add: recompute_def split: sum.split prod.split)
qed

lemma recompute_fold_estep: "estep I I (fst wi) (fst (fold (recompute now i) cs wi))"
proof (induction cs arbitrary: wi)
  case (Cons c cs)
  show ?case using estep_trans [OF recompute_estep Cons.IH] by simp
qed (simp add: estep_refl)

lemma upserted_loop_estep: "estep I I (fst wi) (fst (upserted_loop now c hs rs seen wi))"
proof (induction rs arbitrary: seen wi)
  case Nil
  show ?case by (simp add: estep_refl)
next
  case (Cons r rs)
  obtain w n where wi: "wi = (w, n)" by fastforce
  obtain w1 res where g: "GetSpend (dlSpendEventID r) w = (w1, res)" by fastforce
  then have q: "quiet w w1" using reads_quiet(1) [of w "dlSpendEventID r"] by simp
  have skip: "estep I I w (fst (upserted_loop now c hs rs seen (w1, n)))"
    using after_read [OF q Cons.IH [of "(w1, n)" seen, simplified]] .
  have go: "estep I I w (fst (upserted_loop now c hs rs seen' (fold (recompute now i) cs (w1, n))))" for seen' i cs
    using after_read [OF q estep_trans [OF recompute_fold_estep [of I "(w1, n)", simplified] Cons.IH]] .
  show ?case
    using g skip go Cons.IH [of "(w, n)" seen] by (auto simp: wi split: sum.split)
qed

lemma onChannelUpserted_estep: "estep {} {} w (onChannelUpserted now i w)"
proof -
  obtain w1 r where l: "ListDeadlines DeadlineCounting w = (w1, r)" by fastforce
  then have q1: "quiet w w1" using reads_quiet(4) [of w DeadlineCounting] by simp
  obtain w2 found where c: "channel_of_id i w1 = (w2, found)" by fastforce
  then have q2: "quiet w w2" using channel_of_id_quiet [of w1 i] q1 by (auto intro: quiet_trans)
  have run: "estep {} {} w (case upserted_loop now ch hs running [] (w3, 0) of
      (w4, improved) \<Rightarrow> if 0 < improved then refreshStatus w4 else w4)" if "quiet w w3" for ch hs running w3
    using after_read [OF that upserted_loop_estep [of "{}" "(w3, 0)", simplified]] then_refresh
    by (auto split: prod.split) (metis fst_conv)+
  have q3: "quiet w w3" if "ListHTLCs j w2 = (w3, r)" for j w3 r
    using reads_quiet(3) [of w2 j] that q2 by (auto intro: quiet_trans)
  show ?thesis
    using l c run [OF q3] quiet_estep [OF q1] quiet_estep [OF q2] estep_refl [of "{}" "{}" w]
    by (auto simp: onChannelUpserted_def Let_def split: sum.split option.split prod.split)
qed

lemma settleBySweep_estep: "estep {} {} w (settleBySweep now ev w)"
proof -
  obtain w1 r where g: "GetSpend (soSourceSpendEventID ev) w = (w1, r)" by fastforce
  then have q1: "quiet w w1" using reads_quiet(1) [of w "soSourceSpendEventID ev"] by simp
  obtain w2 l where l: "ListDeadlines DeadlineCounting w1 = (w2, l)" by fastforce
  then have q2: "quiet w w2" using reads_quiet(4) [of w1 DeadlineCounting] q1 by (auto intro: quiet_trans)
  show ?thesis
    using g l quiet_estep [OF q1] quiet_estep [OF q2]
      then_refresh [OF after_read [OF q1 running_fold [OF _ quiet_refl sweep_one_estep]]]
    by (auto simp: settleBySweep_def split: sum.split)
qed

lemma onSecondOrderSpent_estep: "estep {} {} w (onSecondOrderSpent now ev w)"
proof -
  obtain w1 l where l: "ListDeadlines DeadlineCounting w = (w1, l)" by fastforce
  then have q1: "quiet w w1" using reads_quiet(4) [of w DeadlineCounting] by simp
  obtain w2 txid where t: "txidOf (soSpendEventID ev) w1 = (w2, txid)" by fastforce
  then have q2: "quiet w1 w2" using txidOf_quiet [of w1 "soSpendEventID ev"] by simp
  show ?thesis
    using l t quiet_estep [OF q1] settleBySweep_estep estep_refl [of "{}" "{}" w]
      then_refresh [OF running_fold [OF _ q2 justice_one_estep]]
    by (auto simp: onSecondOrderSpent_def split: sum.split)
qed

lemma handle_estep: "estep {} {} w (handle now i w)"
  by (cases i) (simp_all add: onFundingSpent_estep onBranchExtended_estep onSecondOrderSpent_estep
      onChannelUpserted_estep onSpendReorgedOut_def estep_refl)

text \<open>An input is the clock reading of its event and the event.\<close>

definition engine_step :: "engine \<Rightarrow> int \<times> dl_input \<Rightarrow> engine" where
  "engine_step w i = handle (fst i) (snd i) w"

definition engine_kept :: "engine \<Rightarrow> engine \<Rightarrow> bool" where
  "engine_kept w w' \<longleftrightarrow> clocks_kept w w' \<and> prefix (ePublished w) (ePublished w')"

interpretation engine_run: ordered_machine engine_step "\<lambda>_. True" engine_ok engine_kept
proof
  fix w i
  assume "engine_ok w"
  then show "engine_ok (engine_step w i)" "engine_kept w (engine_step w i)"
    using handle_estep [of w "fst i" "snd i"]
    by (auto simp: estep_def counting_ids_def engine_kept_def engine_step_def)
qed (auto simp: engine_kept_def intro: clocks_kept_trans)

section \<open>One tick, when no call fails\<close>

text \<open>A step that touches no row but the one with id \<open>i\<close>.\<close>

definition only_row :: "int \<Rightarrow> engine \<Rightarrow> engine \<Rightarrow> bool" where
  "only_row i w w' \<longleftrightarrow>
     (\<forall>x. dlID x \<noteq> i \<longrightarrow> (x \<in> set (t_deadlines w') \<longleftrightarrow> x \<in> set (t_deadlines w)))
     \<and> t_spends w' = t_spends w \<and> (faults w = [] \<longrightarrow> faults w' = [])"

lemma only_row_trans: "only_row i u v \<Longrightarrow> only_row i v w \<Longrightarrow> only_row i u w"
  by (simp add: only_row_def)

lemma quiet_only_row: "quiet w w' \<Longrightarrow> only_row i w w'"
  by (simp add: quiet_def only_row_def)

lemma publish_only_row [simp]: "only_row i w (publish ev w') = only_row i w w'"
  by (simp add: only_row_def publish_def)

lemma update_row_other: "(\<And>r. rid (f r) = rid r) \<Longrightarrow> rid x \<noteq> i \<Longrightarrow>
    x \<in> set (update_row rid i f rows) \<longleftrightarrow> x \<in> set rows"
  by (force simp: set_update_row)

lemma SetDeadlineState_only_row: "only_row i w (fst (SetDeadlineState i st txid now w))"
  by (auto simp: only_row_def SetDeadlineState_def requireOneRow_def db_call_def update_row_other split: list.split)

lemma SetDeadlineEscalation_only_row: "only_row i w (fst (SetDeadlineEscalation i l now w))"
  by (auto simp: only_row_def SetDeadlineEscalation_def db_call_def update_row_other split: list.split)

lemma escalateTo_only_row: "only_row i w (escalateTo now i ch h l w)"
proof -
  obtain w1 r where s: "SetDeadlineEscalation i l now w = (w1, r)" by fastforce
  then have "only_row i w w1" using SetDeadlineEscalation_only_row [of i w l now] by simp
  with s show ?thesis by (simp add: escalateTo_def Let_def split: sum.split)
qed

lemma expire_only_row: "only_row (dlID r) w (expire now r sp w)"
proof -
  obtain w1 res where s: "SetDeadlineState (dlID r) DeadlineExpired '''' now w = (w1, res)" by fastforce
  then have a: "only_row (dlID r) w w1"
    using SetDeadlineState_only_row [of "dlID r" w DeadlineExpired "''''" now] by simp
  obtain w2 found where c: "channel_of_id (spChannelID sp) w1 = (w2, found)" by fastforce
  then have "quiet w1 w2" using channel_of_id_quiet [of w1 "spChannelID sp"] by simp
  then have "only_row (dlID r) w w2" using a quiet_only_row only_row_trans by blast
  with s a c show ?thesis by (simp add: expire_def split: sum.split)
qed

lemma retire_only_row: "only_row (dlID r) w (retire now r w)"
proof -
  obtain w1 res where s: "SetDeadlineState (dlID r) DeadlineResolved '''' now w = (w1, res)" by fastforce
  then have "only_row (dlID r) w w1"
    using SetDeadlineState_only_row [of "dlID r" w DeadlineResolved "''''" now] by simp
  with s show ?thesis by (simp add: retire_def split: sum.split)
qed

lemma advance_one_only_row: "only_row (dlID r) w (advance_one now tip r w)"
proof -
  obtain w1 res where g: "GetSpend (dlSpendEventID r) w = (w1, res)" by fastforce
  then have "quiet w w1" using reads_quiet(1) [of w "dlSpendEventID r"] by simp
  then have q: "only_row (dlID r) w w1" by (rule quiet_only_row)
  have "only_row (dlID r) w1 (advance_one now tip r w)"
    using g retire_only_row expire_only_row escalateTo_only_row quiet_only_row [OF quiet_refl]
    by (simp add: advance_one_def Let_def split: sum.split)
  with q show ?thesis by (rule only_row_trans)
qed

lemma fold_other_rows:
  assumes "\<And>x w. only_row (dlID x) w (f x w)" and "dlID r \<notin> set (map dlID xs)"
  shows "(r \<in> set (t_deadlines (fold f xs w)) \<longleftrightarrow> r \<in> set (t_deadlines w))
    \<and> t_spends (fold f xs w) = t_spends w \<and> (faults w = [] \<longrightarrow> faults (fold f xs w) = [])"
  using assms(2)
proof (induction xs arbitrary: w)
  case (Cons x xs)
  have "only_row (dlID x) w (f x w)" by (rule assms(1))
  with Cons show ?case by (auto simp: only_row_def)
qed simp

lemma GetSpend_found:
  assumes "faults w = []" "table_ok spID spend_key (t_spends w)" "sp \<in> set (t_spends w)"
  shows "GetSpend (spID sp) w = (w, Inr sp)"
  using assms spends.find_by_id [OF assms(2,3)] by (simp add: GetSpend_def db_read_def db_call_def)

text \<open>What a tick does to one counting row.\<close>

definition advanced :: "int \<Rightarrow> int \<Rightarrow> spend \<Rightarrow> deadline \<Rightarrow> deadline" where
  "advanced now tip sp r =
     (if spStatus sp = SpendReorgedOut
      then (if ReorgPatienceBlocks < i32 (tip - spBlockHeight sp)
            then r\<lparr>dlState := DeadlineResolved, dlResolvedByTxID := '''', dlUpdatedAt := now\<rparr> else r)
      else if Remaining (dlHeight r) tip = 0
      then r\<lparr>dlState := DeadlineExpired, dlResolvedByTxID := '''', dlUpdatedAt := now\<rparr>
      else
        (let level = Level (Remaining (dlHeight r) tip) (i32 (dlHeight r - spBlockHeight sp))
         in if dlEscalation r < level then r\<lparr>dlEscalation := level, dlUpdatedAt := now\<rparr> else r))"

lemma update_row_hit: "r \<in> set rows \<Longrightarrow> rid r = i \<Longrightarrow> f r \<in> set (update_row rid i f rows)"
  by (auto simp: set_update_row)

lemma advance_one_row:
  assumes "faults w = []" "table_ok spID spend_key (t_spends w)" "sp \<in> set (t_spends w)"
    and "r \<in> set (t_deadlines w)" "dlSpendEventID r = spID sp"
  shows "advanced now tip sp r \<in> set (t_deadlines (advance_one now tip r w))"
proof -
  have st: "\<exists>w1. SetDeadlineState (dlID r) st txid now w = (w1, Inr ())
      \<and> r\<lparr>dlState := st, dlResolvedByTxID := txid, dlUpdatedAt := now\<rparr> \<in> set (t_deadlines w1)"
    if "DeadlineState_Valid st" for st txid
    using that assms(1,4)
    by (auto simp: SetDeadlineState_def requireOneRow_def db_call_def list_ex_iff
        intro!: update_row_hit [of r _ dlID "dlID r" "\<lambda>r. r\<lparr>dlState := st, dlResolvedByTxID := txid, dlUpdatedAt := now\<rparr>"])
  have esc: "r\<lparr>dlEscalation := l, dlUpdatedAt := now\<rparr>
      \<in> set (t_deadlines (escalateTo now (dlID r) ch h l w))" if "dlEscalation r < l" for ch h l
    using assms(1,4) that
      update_row_hit [of r "t_deadlines w" dlID "dlID r" "\<lambda>r. if dlEscalation r < l then r\<lparr>dlEscalation := l, dlUpdatedAt := now\<rparr> else r"]
    by (simp add: escalateTo_def SetDeadlineEscalation_def db_call_def publish_def Let_def split: prod.split)
  obtain w1 where e: "SetDeadlineState (dlID r) DeadlineExpired '''' now w = (w1, Inr ())"
    "r\<lparr>dlState := DeadlineExpired, dlResolvedByTxID := '''', dlUpdatedAt := now\<rparr> \<in> set (t_deadlines w1)"
    using st [of DeadlineExpired] by auto
  obtain w2 found where c: "channel_of_id (spChannelID sp) w1 = (w2, found)" by fastforce
  then have "t_deadlines w2 = t_deadlines w1"
    using channel_of_id_quiet [of w1 "spChannelID sp"] by (simp add: quiet_def)
  with e c have ex: "r\<lparr>dlState := DeadlineExpired, dlResolvedByTxID := '''', dlUpdatedAt := now\<rparr>
      \<in> set (t_deadlines (expire now r sp w))" by (simp add: expire_def publish_def)
  have re: "r\<lparr>dlState := DeadlineResolved, dlResolvedByTxID := '''', dlUpdatedAt := now\<rparr>
      \<in> set (t_deadlines (retire now r w))"
    using st [of DeadlineResolved "''''"] by (auto simp: retire_def publish_def)
  show ?thesis
    using GetSpend_found [OF assms(1-3)] assms(4,5) ex re esc
    by (simp add: advance_one_def advanced_def Let_def)
qed

lemma advance_row:
  assumes "faults w = []" "engine_ok w" "table_ok spID spend_key (t_spends w)"
    and "r \<in> set (t_deadlines w)" "dlState r = DeadlineCounting"
    and "sp \<in> set (t_spends w)" "spID sp = dlSpendEventID r"
  shows "advanced now (eTipHeight w) sp r \<in> set (t_deadlines (advance now w))"
proof -
  obtain running where l: "ListDeadlines DeadlineCounting w = (w, Inr running)"
    using assms(1) by (simp add: ListDeadlines_def db_read_def db_call_def)
  note rl = running_list [OF l assms(2)]
  then have "r \<in> set running" using assms(4,5) by simp
  then obtain pre post where run: "running = pre @ r # post" by (meson split_list)
  then have d: "dlID r \<notin> set (map dlID pre)" "dlID r \<notin> set (map dlID post)" using rl by auto
  let ?f = "advance_one now (eTipHeight w)"
  let ?w1 = "fold ?f pre w"
  note pre = fold_other_rows [of ?f r pre w, OF advance_one_only_row d(1)]
  have "advanced now (eTipHeight w) sp r \<in> set (t_deadlines (?f r ?w1))"
    using advance_one_row [of ?w1 sp r] pre assms by simp
  moreover have "dlID (advanced now (eTipHeight w) sp r) = dlID r" by (simp add: advanced_def Let_def)
  ultimately have "advanced now (eTipHeight w) sp r \<in> set (t_deadlines (fold ?f post (?f r ?w1)))"
    using fold_other_rows [of ?f "advanced now (eTipHeight w) sp r" post "?f r ?w1", OF advance_one_only_row] d(2)
    by simp
  then show ?thesis using l by (simp add: advance_def run)
qed

section \<open>Why a loss is announced\<close>

text \<open>
  A loss announced during a tick, in terms of what held when the tick began.
\<close>

definition due :: "int \<Rightarrow> engine \<Rightarrow> dl_event \<Rightarrow> bool" where
  "due tip w ev \<longleftrightarrow>
     (case ev of
        DeadlineExpiredLoss i ch amt \<Rightarrow>
          (\<exists>r sp. r \<in> set (t_deadlines w) \<and> dlID r = i \<and> dlState r = DeadlineCounting \<and> dlHeight r \<le> tip
             \<and> sp \<in> set (t_spends w) \<and> spID sp = dlSpendEventID r \<and> spShape sp \<noteq> ShapeCommitmentOurs
             \<and> spStatus sp \<noteq> SpendReorgedOut \<and> ch = spChannelID sp)
      | _ \<Rightarrow> True)"

lemma expire_published:
  "ePublished (expire now r sp w) = ePublished w \<or>
   (\<exists>amt. ePublished (expire now r sp w) = ePublished w @ [DeadlineExpiredLoss (dlID r) (spChannelID sp) amt]
      \<and> spShape sp \<noteq> ShapeCommitmentOurs)"
proof -
  obtain w1 res where s: "SetDeadlineState (dlID r) DeadlineExpired '''' now w = (w1, res)" by fastforce
  then have p: "ePublished w1 = ePublished w"
    using SetDeadlineState_more [of "dlID r" DeadlineExpired "''''" now w] by simp
  obtain w2 found where c: "channel_of_id (spChannelID sp) w1 = (w2, found)" by fastforce
  then have "ePublished w2 = ePublished w1"
    using channel_of_id_quiet [of w1 "spChannelID sp"] by (simp add: quiet_def)
  with s p c show ?thesis by (auto simp: expire_def publish_def split: sum.split)
qed

lemma retire_published:
  "\<exists>evs. ePublished (retire now r w) = ePublished w @ evs \<and> (\<forall>ev \<in> set evs. \<exists>t. ev = DeadlineResolvedBy (dlID r) t)"
proof -
  obtain w1 res where s: "SetDeadlineState (dlID r) DeadlineResolved '''' now w = (w1, res)" by fastforce
  then have "ePublished w1 = ePublished w"
    using SetDeadlineState_more [of "dlID r" DeadlineResolved "''''" now w] by simp
  with s show ?thesis by (auto simp: retire_def publish_def split: sum.split)
qed

lemma escalateTo_published:
  "\<exists>evs. ePublished (escalateTo now i ch h l w) = ePublished w @ evs
     \<and> (\<forall>ev \<in> set evs. \<exists>n s. ev = DeadlineEscalated i ch l n s)"
proof -
  obtain w1 res where s: "SetDeadlineEscalation i l now w = (w1, res)" by fastforce
  then have "ePublished w1 = ePublished w" using SetDeadlineEscalation_more [of i l now w] by simp
  with s show ?thesis by (auto simp: escalateTo_def publish_def Let_def split: sum.split prod.split)
qed

lemma due_other [simp]:
  "due tip w (DeadlineResolvedBy i t)" "due tip w (DeadlineEscalated i ch l n e)"
  by (simp_all add: due_def)

lemma i32_nonzero:
  assumes "0 < x" "x < 2 ^ 32" shows "i32 x \<noteq> 0"
proof (cases "x < 2 ^ 31")
  case True
  with assms show ?thesis by simp
next
  case False
  have "(x + 2 ^ 31) mod 2 ^ 32 = (x - 2 ^ 31) mod 2 ^ 32"
    using mod_add_self2 [of "x - 2 ^ 31" "2 ^ 32 :: int"] by (simp add: add.commute)
  also have "\<dots> = x - 2 ^ 31" using assms False by (intro mod_pos_pos_trivial) simp_all
  finally show ?thesis using assms by (simp add: i32_def)
qed

lemma Remaining_zero: "is_i32 h \<Longrightarrow> is_i32 t \<Longrightarrow> Remaining h t = 0 \<Longrightarrow> h \<le> t"
  using i32_nonzero [of "h - t"] by (auto simp: Remaining_def is_i32_def split: if_splits)

lemma advance_one_due:
  assumes "r \<in> set (t_deadlines w0)" "dlState r = DeadlineCounting" "t_spends w = t_spends w0"
    and i: "is_i32 (dlHeight r)" "is_i32 tip"
    and "ev \<in> set (ePublished (advance_one now tip r w))"
  shows "ev \<in> set (ePublished w) \<or> due tip w0 ev"
proof -
  obtain w1 res where g: "GetSpend (dlSpendEventID r) w = (w1, res)" by fastforce
  then have q: "ePublished w1 = ePublished w"
    using reads_quiet(1) [of w "dlSpendEventID r"] by (simp add: quiet_def)
  show ?thesis
  proof (cases res)
    case (Inl e)
    with g q assms(6) show ?thesis by (simp add: advance_one_def)
  next
    case (Inr sp)
    from g [unfolded GetSpend_def] Inr have "find (\<lambda>x. spID x = dlSpendEventID r) (t_spends w) = Some sp"
      by (auto elim!: db_read_cases split: option.splits)
    then have sp: "sp \<in> set (t_spends w0)" "spID sp = dlSpendEventID r"
      using assms(3) by (auto simp: find_Some_iff)
    have ex: "ev \<in> set (ePublished w) \<or> due tip w0 ev"
      if "ev \<in> set (ePublished (expire now r sp w1))" "Remaining (dlHeight r) tip = 0"
        "spStatus sp \<noteq> SpendReorgedOut"
    proof -
      have "due tip w0 (DeadlineExpiredLoss (dlID r) (spChannelID sp) amt)"
        if "spShape sp \<noteq> ShapeCommitmentOurs" for amt
        using that \<open>spStatus sp \<noteq> _\<close> Remaining_zero [OF i \<open>Remaining _ _ = 0\<close>] sp assms(1,2)
        unfolding due_def dl_event.case by blast
      with that(1) show ?thesis using expire_published [of now r sp w1] q by auto
    qed
    have re: "ev \<in> set (ePublished w) \<or> due tip w0 ev" if "ev \<in> set (ePublished (retire now r w1))"
      using that retire_published [of now r w1] q by fastforce
    have es: "ev \<in> set (ePublished w) \<or> due tip w0 ev"
      if "ev \<in> set (ePublished (escalateTo now (dlID r) ch h l w1))" for ch h l
      using that escalateTo_published [of now "dlID r" ch h l w1] q by fastforce
    show ?thesis
      using g q Inr assms(6) ex re es by (auto simp: advance_one_def Let_def split: if_splits)
  qed
qed

lemma advance_fold_due:
  assumes "\<And>r. r \<in> set rs \<Longrightarrow> r \<in> set (t_deadlines w0) \<and> dlState r = DeadlineCounting \<and> is_i32 (dlHeight r)"
    and "is_i32 tip" "t_spends w = t_spends w0"
    and "ev \<in> set (ePublished (fold (advance_one now tip) rs w))"
  shows "ev \<in> set (ePublished w) \<or> due tip w0 ev"
  using assms
proof (induction rs arbitrary: w)
  case (Cons r rs)
  have "t_spends (advance_one now tip r w) = t_spends w0"
    using advance_one_only_row [of r w now tip] Cons.prems(3) by (simp add: only_row_def)
  then have "ev \<in> set (ePublished (advance_one now tip r w)) \<or> due tip w0 ev"
    using Cons by simp
  then show ?case using advance_one_due [of r w0 w tip ev now] Cons.prems by auto
qed simp

definition heights_i32 :: "engine \<Rightarrow> bool" where
  "heights_i32 w \<longleftrightarrow> (\<forall>r \<in> set (t_deadlines w). is_i32 (dlHeight r))"

lemma advance_due:
  assumes "engine_ok w" "heights_i32 w" "is_i32 (eTipHeight w)"
    and "ev \<in> set (ePublished (advance now w))"
  shows "ev \<in> set (ePublished w) \<or> due (eTipHeight w) w ev"
proof -
  obtain w1 l where l: "ListDeadlines DeadlineCounting w = (w1, l)" by fastforce
  then have q: "quiet w w1" using reads_quiet(4) [of w DeadlineCounting] by simp
  show ?thesis
  proof (cases l)
    case (Inl e)
    with l q assms(4) show ?thesis by (simp add: advance_def quiet_def)
  next
    case (Inr running)
    note rl = running_list [OF l [unfolded Inr] assms(1)]
    have "ev \<in> set (ePublished (fold (advance_one now (eTipHeight w)) running w1))"
      using assms(4) l q Inr by (simp add: advance_def quiet_def)
    then show ?thesis
      using advance_fold_due [of running w "eTipHeight w" w1 ev now] rl assms(2,3) q
      by (auto simp: quiet_def heights_i32_def)
  qed
qed

section \<open>Several clocks of one kind\<close>

text \<open>What starting one clock does to the rows, seen through their keys.\<close>

definition clock_at :: "int \<times> deadline_kind \<Rightarrow> engine \<Rightarrow> deadline option" where
  "clock_at k w = find (\<lambda>r. deadline_key r = k) (t_deadlines w)"

definition can_start :: "int \<Rightarrow> engine \<Rightarrow> bool" where
  "can_start i w \<longleftrightarrow> faults w = [] \<and> i \<noteq> 0 \<and> i \<in> spID ` set (t_spends w) \<and> deadlines_ok w"

lemma find_update_row_key:
  assumes "\<And>r. key (f r) = key r"
  shows "find (\<lambda>r. key r = k) (update_row rid i f rows) =
    map_option (\<lambda>r. if rid r = i then f r else r) (find (\<lambda>r. key r = k) rows)"
  using assms by (induction rows) (auto simp: update_row_def)

text \<open>The height a clock shows and whether it is assumed.\<close>

definition reading :: "int \<times> deadline_kind \<Rightarrow> engine \<Rightarrow> (int \<times> bool) option" where
  "reading k w = map_option (\<lambda>r. (dlHeight r, dlAssumed r)) (clock_at k w)"

lemma escalateTo_reading:
  assumes "faults w = []"
  shows "reading k (escalateTo now i ch h l w) = reading k w"
  using assms find_update_row_key [of deadline_key
      "\<lambda>r. if dlEscalation r < l then r\<lparr>dlEscalation := l, dlUpdatedAt := now\<rparr> else r" k dlID i "t_deadlines w"]
  by (auto simp: reading_def clock_at_def escalateTo_def SetDeadlineEscalation_def db_call_def publish_def
      Let_def deadline_key_def option.map_comp intro!: option.map_cong0 split: prod.split)

lemma escalateTo_can_start:
  assumes "can_start j w" shows "can_start j (escalateTo now i ch h l w)"
proof -
  have "clocks_step w (fst (SetDeadlineEscalation i l now w))" by (rule SetDeadlineEscalation_step)
  then have "deadlines_ok (fst (SetDeadlineEscalation i l now w))"
    using assms by (simp add: clocks_step_def can_start_def)
  with assms show ?thesis
    by (auto simp: can_start_def escalateTo_def SetDeadlineEscalation_def db_call_def publish_def Let_def
        deadlines_ok_def split: prod.split)
qed

lemma UpsertDeadline_reading:
  assumes "can_start i w" "DeadlineKind_Valid (coKind c)"
  shows "\<exists>w1 j b. UpsertDeadline (clock_row now i c) w = (w1, Inr (j, b)) \<and> can_start i w1
    \<and> (\<forall>k. reading (i, k) w1 = (if k = coKind c then Some (coHeight c, coAssumed c) else reading (i, k) w))"
proof -
  let ?r = "clock_row now i c"
  let ?w1 = "fst (UpsertDeadline ?r w)"
  have f: "faults w = []" and i: "i \<noteq> 0" "list_ex (\<lambda>s. spID s = i) (t_spends w)"
    and ok: "deadlines_ok w" using assms(1) by (auto simp: can_start_def list_ex_iff)
  have "deadlines_ok ?w1" using UpsertDeadline_step [of w ?r] ok by (simp add: clocks_step_def)
  then have c: "can_start i ?w1"
    using assms(1) by (auto simp: can_start_def UpsertDeadline_def Let_def db_call_def split: option.split)
  have ran: "UpsertDeadline ?r w =
     (case find (\<lambda>x. deadline_key x = (i, coKind c)) (t_deadlines w) of
        Some x \<Rightarrow>
          if dlHeight x = coHeight c \<and> dlAssumed x = coAssumed c then (w, Inr (dlID x, False))
          else (w\<lparr>t_deadlines := update_row dlID (dlID x)
                 (\<lambda>x. x\<lparr>dlHeight := coHeight c, dlAssumed := coAssumed c, dlUpdatedAt := now\<rparr>) (t_deadlines w)\<rparr>,
                Inr (dlID x, True))
      | None \<Rightarrow>
          (w\<lparr>t_deadlines := t_deadlines w @ [place_deadline (next_id dlID (t_deadlines w)) ?r]\<rparr>,
           Inr (next_id dlID (t_deadlines w), True)))"
    using f i assms(2)
    by (auto simp: UpsertDeadline_def clock_row_def Let_def db_call_def deadline_key_def split: option.split)
  show ?thesis
  proof (cases "find (\<lambda>x. deadline_key x = (i, coKind c)) (t_deadlines w)")
    case None
    then have "find (\<lambda>x. deadline_key x = (i, k)) (t_deadlines w @ [place_deadline j ?r]) =
        (if k = coKind c then Some (place_deadline j ?r)
         else find (\<lambda>x. deadline_key x = (i, k)) (t_deadlines w))" for k j
      by (auto simp: find_app place_deadline_def clock_row_def deadline_key_def split: option.split)
    with None ran c show ?thesis
      by (auto simp: reading_def clock_at_def place_deadline_def clock_row_def)
  next
    case (Some x)
    then have x: "x \<in> set (t_deadlines w)" "deadline_key x = (i, coKind c)" by (auto dest: find_Some_mem)
    have other: "dlID y \<noteq> dlID x" if "find (\<lambda>y. deadline_key y = (i, k)) (t_deadlines w) = Some y" "k \<noteq> coKind c" for y k
      using deadlines.same_id [of "t_deadlines w" y x] that find_Some_mem [OF that(1)] x ok
      by (auto simp: deadlines_ok_def)
    show ?thesis
      using Some ran c find_update_row_key [of deadline_key
          "\<lambda>x. x\<lparr>dlHeight := coHeight c, dlAssumed := coAssumed c, dlUpdatedAt := now\<rparr>" "(i, k)" dlID "dlID x" "t_deadlines w" for k]
      by (auto simp: reading_def clock_at_def deadline_key_def other option.map_comp intro!: option.map_cong)
  qed
qed

lemma can_start_faults: "can_start i w \<Longrightarrow> faults w = []"
  by (simp add: can_start_def)

lemma start_reading:
  assumes "can_start (fsSpendEventID ev) w" "DeadlineKind_Valid (coKind c)"
  shows "can_start (fsSpendEventID ev) (start now ev c w)
    \<and> reading (fsSpendEventID ev, k) (start now ev c w) =
        (if k = coKind c then Some (coHeight c, coAssumed c) else reading (fsSpendEventID ev, k) w)"
  using UpsertDeadline_reading [OF assms, of now]
  by (auto simp: start_def escalateTo_reading escalateTo_can_start can_start_faults)

lemma fold_start_reading:
  assumes "can_start (fsSpendEventID ev) w" "list_all (\<lambda>c. DeadlineKind_Valid (coKind c)) cs"
  shows "can_start (fsSpendEventID ev) (fold (start now ev) cs w)
    \<and> reading (fsSpendEventID ev, k) (fold (start now ev) cs w) =
        (case find (\<lambda>c. coKind c = k) (rev cs) of
           None \<Rightarrow> reading (fsSpendEventID ev, k) w | Some c \<Rightarrow> Some (coHeight c, coAssumed c))"
  using assms
proof (induction cs arbitrary: w)
  case (Cons c cs)
  then show ?case using start_reading [of ev w c now k] by (auto simp: find_app split: option.split)
qed simp

lemma Compute_all_kinds: "list_all (\<lambda>c. DeadlineKind_Valid (coKind c)) (Compute inp)"
  by (simp add: list_all_iff Compute_kinds)

lemma refreshStatus_reading: "reading k (refreshStatus w) = reading k w"
  using refreshStatus_quiet [of w] by (simp add: reading_def clock_at_def quiet_def)

definition spent_inputs :: "spend \<Rightarrow> channel \<Rightarrow> htlc_snapshot list \<Rightarrow> inputs" where
  "spent_inputs sp c hs =
     \<lparr>inConfirmHeight = spBlockHeight sp, inShape = spShape sp, inCSVDelayLocal = chCSVDelayLocal c,
      inCSVDelayRemote = chCSVDelayRemote c, inHTLCs = hs\<rparr>"

lemma onFundingSpent_reading:
  assumes "can_start (fsSpendEventID ev) w"
    and "fsBranch ev = eBranch w" "fsStatus ev = SpendConfirmed" "startsAClock (fsShape ev)"
    and "GetSpend (fsSpendEventID ev) w = (w, Inr sp)"
    and "channel_of_id (fsChannelID ev) w = (w, Some c)" "ListHTLCs (chID c) w = (w, Inr hs)"
  shows "reading (fsSpendEventID ev, k) (onFundingSpent now ev w) =
    (case find (\<lambda>c. coKind c = k) (rev (Compute (spent_inputs sp c hs))) of
       None \<Rightarrow> reading (fsSpendEventID ev, k) w | Some c \<Rightarrow> Some (coHeight c, coAssumed c))"
  using assms fold_start_reading [OF assms(1) Compute_all_kinds]
  by (simp add: onFundingSpent_def refreshStatus_reading spent_inputs_def)

lemma find_rev_last:
  assumes "sorted (map f xs)" "x \<in> set xs" "P x"
  shows "\<exists>y. find P (rev xs) = Some y \<and> y \<in> set xs \<and> P y \<and> f x \<le> f y"
  using assms
proof (induction xs)
  case (Cons z zs)
  show ?case
  proof (cases "x \<in> set zs")
    case True
    with Cons show ?thesis by (auto simp: find_app)
  next
    case False
    with Cons.prems have "x = z" by simp
    with Cons.prems show ?thesis
    proof (cases "find P (rev zs)")
      case None
      with \<open>x = z\<close> Cons.prems show ?thesis by (auto simp: find_app)
    next
      case (Some y)
      then have "y \<in> set zs" "P y" by (auto dest: find_Some_mem)
      with Some \<open>x = z\<close> Cons.prems show ?thesis by (auto simp: find_app)
    qed
  qed
qed simp

lemma payments_sorted:
  assumes "sorted (map htCLTVExpiry hs)" "\<forall>h \<in> set hs. 0 < htCLTVExpiry h"
  shows "sorted (map coHeight (List.map_filter (computeHTLC inp) hs))"
    and "c \<in> set (List.map_filter (computeHTLC inp) hs) \<Longrightarrow>
      \<exists>h \<in> set hs. c = \<lparr>coKind = coKind c, coHeight = htCLTVExpiry h, coAssumed = False\<rparr>
        \<and> htlcKind (htDirection h) = Some (coKind c)"
proof -
  have one: "computeHTLC inp h = map_option (\<lambda>k. \<lparr>coKind = k, coHeight = htCLTVExpiry h, coAssumed = False\<rparr>)
      (htlcKind (htDirection h))" if "h \<in> set hs" for h
    using assms(2) that by (auto simp: computeHTLC_def split: option.split)
  show "sorted (map coHeight (List.map_filter (computeHTLC inp) hs))"
    using assms(1) one
  proof (induction hs)
    case (Cons h hs)
    then show ?case
      by (cases "htlcKind (htDirection h)") (auto simp: List.map_filter_def split: option.splits)
  qed (simp add: List.map_filter_def)
  show "\<exists>h \<in> set hs. c = \<lparr>coKind = coKind c, coHeight = htCLTVExpiry h, coAssumed = False\<rparr>
      \<and> htlcKind (htDirection h) = Some (coKind c)"
    if "c \<in> set (List.map_filter (computeHTLC inp) hs)"
    using that one by (fastforce simp: List.map_filter_def split: option.splits)
qed

lemma payment_kind: "htlcKind dir = Some k \<Longrightarrow> k \<noteq> DeadlineCSV"
  by (auto simp: htlcKind_def split: if_splits)

text \<open>
  A confirmed commitment never goes without its clock, and all payments that point the
  same way share one: when the spend of a channel is handled and no call fails, the commitment's
  clock shows the height computed for it, and the one clock of each direction shows the expiry
  of a payment that is not earlier than any other of that direction, so the payments that run
  out first have no clock.
\<close>

theorem payments_share_the_last_clock:
  assumes "can_start (fsSpendEventID ev) w"
    and "fsBranch ev = eBranch w" "fsStatus ev = SpendConfirmed" "startsAClock (fsShape ev)"
    and "GetSpend (fsSpendEventID ev) w = (w, Inr sp)"
    and "channel_of_id (fsChannelID ev) w = (w, Some c)" "ListHTLCs (chID c) w = (w, Inr hs)"
    and "\<forall>h \<in> set hs. 0 < htCLTVExpiry h"
  shows "reading (fsSpendEventID ev, DeadlineCSV) (onFundingSpent now ev w) =
      Some (coHeight (computeCSV (spent_inputs sp c hs)), coAssumed (computeCSV (spent_inputs sp c hs)))
    \<and> (\<forall>h \<in> set hs. \<forall>k. htlcKind (htDirection h) = Some k \<longrightarrow>
        (\<exists>l \<in> set hs. htlcKind (htDirection l) = Some k \<and> htCLTVExpiry h \<le> htCLTVExpiry l
           \<and> reading (fsSpendEventID ev, k) (onFundingSpent now ev w) = Some (htCLTVExpiry l, False)))"
proof -
  let ?inp = "spent_inputs sp c hs"
  let ?ps = "List.map_filter (computeHTLC ?inp) hs"
  note shown = onFundingSpent_reading [OF assms(1-7), of _ now]
  have cs: "Compute ?inp = computeCSV ?inp # ?ps" by (simp add: Compute_def spent_inputs_def)
  have csv: "coKind (computeCSV ?inp) = DeadlineCSV" by (simp add: computeCSV_def split: option.split)
  have "sorted (map htCLTVExpiry hs)"
    using assms(7) by (auto simp: ListHTLCs_def elim!: db_read_cases)
  note ps = payments_sorted [OF this assms(8), where inp = ?inp]
  have "find (\<lambda>c. coKind c = DeadlineCSV) (rev ?ps) = None"
    using ps(2) payment_kind by (fastforce simp: find_None_all)
  then have A: "reading (fsSpendEventID ev, DeadlineCSV) (onFundingSpent now ev w) =
      Some (coHeight (computeCSV ?inp), coAssumed (computeCSV ?inp))"
    by (simp add: shown cs find_app csv)
  have B: "\<exists>l \<in> set hs. htlcKind (htDirection l) = Some k \<and> htCLTVExpiry h \<le> htCLTVExpiry l
      \<and> reading (fsSpendEventID ev, k) (onFundingSpent now ev w) = Some (htCLTVExpiry l, False)"
    if "h \<in> set hs" "htlcKind (htDirection h) = Some k" for h k
  proof -
    let ?c = "\<lparr>coKind = k, coHeight = htCLTVExpiry h, coAssumed = False\<rparr>"
    have "?c \<in> set ?ps"
      using that assms(8) by (force simp: List.map_filter_def computeHTLC_def split: option.split)
    from find_rev_last [OF ps(1) this, of "\<lambda>c. coKind c = k"] obtain y where
      y: "find (\<lambda>c. coKind c = k) (rev ?ps) = Some y" "y \<in> set ?ps" "coKind y = k" "htCLTVExpiry h \<le> coHeight y"
      by auto
    from ps(2) [OF y(2)] obtain l where "l \<in> set hs" "y = \<lparr>coKind = k, coHeight = htCLTVExpiry l, coAssumed = False\<rparr>"
      "htlcKind (htDirection l) = Some k" using y(3) by auto
    with y show ?thesis by (auto simp: shown cs find_app intro!: bexI [of _ l])
  qed
  from A B show ?thesis by blast
qed

definition demo_breach :: spend where
  "demo_breach = demo_spend\<lparr>spID := 1, spChannelID := 1, spShape := ShapeCommitmentRevoked\<rparr>"

definition demo_engine :: engine where
  "demo_engine = \<lparr>t_nodes = [], t_channels = [demo_channel],
     t_htlcs = [(1, 5, \<lparr>htDirection = ''incoming'', htAmountMsat = 1, htCLTVExpiry = 950, htPaymentHash = ''''\<rparr>),
                (1, 5, \<lparr>htDirection = ''incoming'', htAmountMsat = 1, htCLTVExpiry = 900, htPaymentHash = ''''\<rparr>)],
     t_spends = [demo_breach], t_outpoints = [], t_deadlines = [], faults = [], eBranch = BranchSQ,
     eTipHeight = 700, eAvgInterval = Fin 0,
     eStatus = \<lparr>stCounting = 0, stAssumed = 0, stAssumedChannels = [], stEarliestHeight = 0, stTipHeight = 700\<rparr>,
     ePublished = []\<rparr>"

definition demo_event :: funding_spent where
  "demo_event = \<lparr>fsBranch = BranchSQ, fsChannelID = 1, fsSpendEventID = 1, fsShape = ShapeCommitmentRevoked,
     fsStatus = SpendConfirmed\<rparr>"

lemma demo_engine_ok: "engine_ok demo_engine"
  by (simp add: engine_ok_def demo_engine_def deadlines_ok_def table_ok_def truthful_def endings_def)

theorem payments_share_the_last_clock_witness:
  "reading (1, DeadlineHTLCIncoming) (onFundingSpent 9 demo_event demo_engine) = Some (950, False)"
proof -
  let ?w = "demo_engine"
  let ?hs = "[\<lparr>htDirection = ''incoming'', htAmountMsat = 1, htCLTVExpiry = 900, htPaymentHash = ''''\<rparr>,
     \<lparr>htDirection = ''incoming'', htAmountMsat = 1, htCLTVExpiry = 950, htPaymentHash = ''''\<rparr>]"
  have "can_start (fsSpendEventID demo_event) ?w"
    by (simp add: can_start_def demo_engine_def demo_event_def demo_breach_def deadlines_ok_def table_ok_def)
  moreover have "fsBranch demo_event = eBranch ?w" "fsStatus demo_event = SpendConfirmed"
    "startsAClock (fsShape demo_event)" by (simp_all add: demo_event_def demo_engine_def startsAClock_def)
  moreover have "GetSpend (fsSpendEventID demo_event) ?w = (?w, Inr demo_breach)" by code_simp
  moreover have "channel_of_id (fsChannelID demo_event) ?w = (?w, Some demo_channel)" by code_simp
  moreover have "ListHTLCs (chID demo_channel) ?w = (?w, Inr ?hs)" by code_simp
  ultimately have "\<exists>l \<in> set ?hs. 950 \<le> htCLTVExpiry l
      \<and> reading (1, DeadlineHTLCIncoming) (onFundingSpent 9 demo_event ?w) = Some (htCLTVExpiry l, False)"
    using payments_share_the_last_clock [of demo_event ?w demo_breach demo_channel ?hs 9]
    by (auto simp: htlcKind_def directionIncoming_def demo_event_def)
  then show ?thesis by auto
qed

text \<open>
  C10: a countdown that has ended stays ended, whatever is observed afterwards and whichever
  calls fail: along any run every countdown keeps its spend and its kind, its tier only rises,
  and once it is no longer counting neither its state nor what answered it changes, not even
  when the spend it was counting from confirms again.
\<close>

theorem countdowns_move_forward:
  assumes "engine_ok w" and "r \<in> set (t_deadlines w)"
  shows "\<exists>r' \<in> set (t_deadlines (foldl engine_step w evs)).
    dlID r' = dlID r \<and> dlSpendEventID r' = dlSpendEventID r \<and> dlKind r' = dlKind r
    \<and> dlEscalation r \<le> dlEscalation r'
    \<and> (dlState r \<noteq> DeadlineCounting \<longrightarrow> dlState r' = dlState r \<and> dlResolvedByTxID r' = dlResolvedByTxID r)"
proof -
  have "engine_kept w (foldl engine_step w evs)"
    using engine_run.run_le [of w evs] assms(1) by (simp add: list_all_iff)
  then obtain r' where "r' \<in> set (t_deadlines (foldl engine_step w evs))" "same_clock r r'"
    using assms(2) by (auto simp: engine_kept_def clocks_kept_def)
  then show ?thesis by (auto simp: same_clock_def deadline_key_def)
qed

definition retired_engine :: engine where
  "retired_engine = demo_engine\<lparr>t_deadlines :=
     [\<lparr>dlID = 1, dlSpendEventID = 1, dlKind = DeadlineCSV, dlHeight = 1420, dlState = DeadlineResolved,
       dlEscalation = 1, dlAssumed = False, dlResolvedByTxID = '''', dlUpdatedAt = 8\<rparr>]\<rparr>"

theorem countdowns_move_forward_witness:
  "\<exists>r \<in> set (t_deadlines (foldl engine_step retired_engine [(9, FundingSpent demo_event)])).
     dlID r = 1 \<and> dlState r = DeadlineResolved"
proof -
  have "engine_ok retired_engine"
    by (simp add: engine_ok_def retired_engine_def demo_engine_def demo_breach_def deadlines_ok_def table_ok_def
        deadline_key_def truthful_def endings_def)
  from countdowns_move_forward [OF this, of "hd (t_deadlines retired_engine)" "[(9, FundingSpent demo_event)]"]
  show ?thesis by (auto simp: retired_engine_def)
qed

text \<open>
  Every ending is announced at most once, and truthfully: along any run no countdown is
  announced as ended twice, and what is announced is the state its row has at the end.
\<close>

theorem endings_announced_once:
  assumes "engine_ok w"
  shows "distinct (map fst (endings (foldl engine_step w evs)))
    \<and> (\<forall>(i, st) \<in> set (endings (foldl engine_step w evs)).
        \<exists>r \<in> set (t_deadlines (foldl engine_step w evs)). dlID r = i \<and> dlState r = st)"
  using engine_run.run_inv [of w evs] assms by (simp add: engine_ok_def truthful_def list_all_iff)

definition overdue_engine :: engine where
  "overdue_engine = demo_engine\<lparr>t_deadlines :=
     [\<lparr>dlID = 1, dlSpendEventID = 1, dlKind = DeadlineCSV, dlHeight = 1420, dlState = DeadlineCounting,
       dlEscalation = 3, dlAssumed = False, dlResolvedByTxID = '''', dlUpdatedAt = 8\<rparr>]\<rparr>"

lemma overdue_ok: "engine_ok overdue_engine" "heights_i32 overdue_engine"
  by (simp_all add: engine_ok_def overdue_engine_def demo_engine_def demo_breach_def deadlines_ok_def table_ok_def
      deadline_key_def truthful_def endings_def heights_i32_def is_i32_def)

lemma overdue_run:
  "foldl engine_step overdue_engine
     [(9, SplitBranchExtended BranchSQ 1420 (Fin 0)), (10, SplitBranchExtended BranchSQ 1421 (Fin 0))] =
   overdue_engine\<lparr>t_deadlines :=
     [\<lparr>dlID = 1, dlSpendEventID = 1, dlKind = DeadlineCSV, dlHeight = 1420, dlState = DeadlineExpired,
       dlEscalation = 3, dlAssumed = False, dlResolvedByTxID = '''', dlUpdatedAt = 9\<rparr>], eTipHeight := 1421,
     eStatus := \<lparr>stCounting = 0, stAssumed = 0, stAssumedChannels = [], stEarliestHeight = 0, stTipHeight = 1421\<rparr>,
     ePublished := [DeadlineExpiredLoss 1 1 1000]\<rparr>"
  by code_simp

theorem endings_announced_once_witness:
  "endings (foldl engine_step overdue_engine
     [(9, SplitBranchExtended BranchSQ 1420 (Fin 0)), (10, SplitBranchExtended BranchSQ 1421 (Fin 0))])
   = [(1, DeadlineExpired)] \<and> distinct (map fst [(1 :: int, DeadlineExpired)])"
  using endings_announced_once [OF overdue_ok(1), of
    "[(9, SplitBranchExtended BranchSQ 1420 (Fin 0)), (10, SplitBranchExtended BranchSQ 1421 (Fin 0))]"]
  unfolding overdue_run by (simp add: endings_def)

definition tip_seen :: "int \<Rightarrow> f64 \<Rightarrow> engine \<Rightarrow> engine" where
  "tip_seen height avg w =
     (let w1 = w\<lparr>eTipHeight := height\<rparr> in if f64_positive avg then w1\<lparr>eAvgInterval := avg\<rparr> else w1)"

lemma onBranchExtended_alt:
  "onBranchExtended now br height avg w =
     (if br \<noteq> eBranch w then w else refreshStatus (advance now (tip_seen height avg w)))"
  by (simp add: onBranchExtended_def tip_seen_def Let_def)

text \<open>
  C12: a loss is announced on a new block only when it happened: the countdown was running with
  its height at or below the new tip, and the commitment it was counting from is on the chain
  and is not the user's own.
\<close>

theorem loss_only_when_due:
  assumes "engine_ok w" "heights_i32 w" "is_i32 height"
    and "DeadlineExpiredLoss i ch amt \<in> set (ePublished (onBranchExtended now br height avg w))"
    and "DeadlineExpiredLoss i ch amt \<notin> set (ePublished w)"
  shows "\<exists>r sp. r \<in> set (t_deadlines w) \<and> dlID r = i \<and> dlState r = DeadlineCounting \<and> dlHeight r \<le> height
    \<and> sp \<in> set (t_spends w) \<and> spID sp = dlSpendEventID r \<and> spShape sp \<noteq> ShapeCommitmentOurs
    \<and> spStatus sp \<noteq> SpendReorgedOut \<and> ch = spChannelID sp"
proof -
  define w2 where "w2 = tip_seen height avg w"
  have w2: "t_deadlines w2 = t_deadlines w" "t_spends w2 = t_spends w" "ePublished w2 = ePublished w"
    "eTipHeight w2 = height" by (simp_all add: w2_def tip_seen_def Let_def)
  then have "engine_ok w2" "heights_i32 w2" "is_i32 (eTipHeight w2)"
    using assms(1-3) by (simp_all add: engine_ok_def deadlines_ok_def truthful_def endings_def heights_i32_def)
  moreover have "DeadlineExpiredLoss i ch amt \<in> set (ePublished (advance now w2))"
    using assms(4,5) refreshStatus_quiet [of "advance now w2"]
    by (auto simp: onBranchExtended_alt w2_def quiet_def split: if_splits)
  ultimately have "DeadlineExpiredLoss i ch amt \<in> set (ePublished w2)
      \<or> due (eTipHeight w2) w2 (DeadlineExpiredLoss i ch amt)" by (rule advance_due)
  then have "due (eTipHeight w2) w2 (DeadlineExpiredLoss i ch amt)" using assms(5) w2(3) by simp
  then show ?thesis using w2 by (auto simp: due_def)
qed

theorem loss_only_when_due_witness:
  "\<exists>r \<in> set (t_deadlines overdue_engine). dlState r = DeadlineCounting \<and> dlHeight r \<le> 1420"
proof -
  let ?e = "DeadlineExpiredLoss 1 1 1000"
  have "ePublished (onBranchExtended 9 BranchSQ 1420 (Fin 0) overdue_engine) = [?e]"
    "ePublished overdue_engine = []" by code_simp+
  then have "?e \<in> set (ePublished (onBranchExtended 9 BranchSQ 1420 (Fin 0) overdue_engine))"
    "?e \<notin> set (ePublished overdue_engine)" by simp_all
  moreover have "is_i32 1420" by (simp add: is_i32_def)
  ultimately show ?thesis using loss_only_when_due [OF overdue_ok, of 1420 1 1 1000 9 BranchSQ "Fin 0"] by blast
qed

lemma onBranchExtended_row:
  assumes "faults w = []" "engine_ok w" "table_ok spID spend_key (t_spends w)"
    and "r \<in> set (t_deadlines w)" "dlState r = DeadlineCounting"
    and "sp \<in> set (t_spends w)" "spID sp = dlSpendEventID r"
  shows "\<exists>r' \<in> set (t_deadlines (onBranchExtended now (eBranch w) height avg w)).
    dlID r' = dlID r
    \<and> (if spStatus sp = SpendReorgedOut
       then (if ReorgPatienceBlocks < i32 (height - spBlockHeight sp) then dlState r' = DeadlineResolved else r' = r)
       else if Remaining (dlHeight r) height = 0 then dlState r' = DeadlineExpired
       else dlState r' = DeadlineCounting
         \<and> dlEscalation r' = max (dlEscalation r) (Level (Remaining (dlHeight r) height) (i32 (dlHeight r - spBlockHeight sp))))"
proof -
  define w2 where "w2 = tip_seen height avg w"
  have w2: "t_deadlines w2 = t_deadlines w" "t_spends w2 = t_spends w" "ePublished w2 = ePublished w"
    "faults w2 = []" "eTipHeight w2 = height" using assms(1) by (simp_all add: w2_def tip_seen_def Let_def)
  then have "engine_ok w2" using assms(2) by (simp add: engine_ok_def deadlines_ok_def truthful_def endings_def)
  from advance_row [OF w2(4) this] have "advanced now height sp r \<in> set (t_deadlines (advance now w2))"
    using assms w2 by simp
  then have mem: "advanced now height sp r \<in> set (t_deadlines (onBranchExtended now (eBranch w) height avg w))"
    using refreshStatus_quiet [of "advance now w2"]
    by (simp add: onBranchExtended_alt w2_def quiet_def)
  have "dlID (advanced now height sp r) = dlID r \<and> (if spStatus sp = SpendReorgedOut
       then (if ReorgPatienceBlocks < i32 (height - spBlockHeight sp)
         then dlState (advanced now height sp r) = DeadlineResolved else advanced now height sp r = r)
       else if Remaining (dlHeight r) height = 0 then dlState (advanced now height sp r) = DeadlineExpired
       else dlState (advanced now height sp r) = DeadlineCounting
         \<and> dlEscalation (advanced now height sp r)
             = max (dlEscalation r) (Level (Remaining (dlHeight r) height) (i32 (dlHeight r - spBlockHeight sp))))"
    using assms(5) by (simp add: advanced_def Let_def)
  with mem show ?thesis by blast
qed



end
