(* ===== verification/Store_State.thy ===== *)
theory Store_State
  imports Store_Spends "HOL-Library.AList"
begin

text \<open>
  The tables of single values, of the split, of recent blocks and of alerts:
  \<open>internal/store/meta.go\<close>, \<open>internal/store/convert.go\<close>, \<open>internal/store/split.go\<close> and
  \<open>internal/store/alerts.go\<close>. They extend the tables of \<open>Store_Db\<close> and share its script of failing
  calls. The text of errors is not modelled.
\<close>

section \<open>Rows\<close>

datatype split_state =
    StateUnarmed | StateArmed | StateSplit | StateResolving | StateResolvedSFWon | StateResolvedSQWon
  | StateOther string

fun SplitState_Valid :: "split_state \<Rightarrow> bool" where
  "SplitState_Valid (StateOther _) = False"
| "SplitState_Valid _ = True"

record split =
  slState :: split_state
  slForkHeight :: int
  slForkHash :: string
  slDetectedAt :: int
  slUpdatedAt :: int

definition ForkKnown :: "split \<Rightarrow> bool" where "ForkKnown s \<longleftrightarrow> slForkHash s \<noteq> ''''"

record branch_block =
  bbBranch :: branch
  bbHeight :: int
  bbHash :: string
  bbPrevHash :: string
  bbBlockTime :: int
  bbReceivedAt :: int

datatype tier = TierInfo | TierWarning | TierCritical | TierResolved | TierLoss | TierOther string

fun Tier_Valid :: "tier \<Rightarrow> bool" where
  "Tier_Valid (TierOther _) = False"
| "Tier_Valid _ = True"

text \<open>\<open>acked_at\<close> is a nullable column; the Go struct reads \<open>NULL\<close> as zero.\<close>

record alert =
  alID :: int
  alTier :: tier
  alKind :: string
  alDedupKey :: string
  alSubject :: string
  alMessage :: string
  alCreatedAt :: int
  alLastRaisedAt :: int
  alAckedAt :: "int option"

definition Acked :: "alert \<Rightarrow> bool" where
  "Acked a \<longleftrightarrow> (case alAckedAt a of None \<Rightarrow> 0 | Some t \<Rightarrow> t) \<noteq> 0"

record delivery =
  deID :: int
  deAlertID :: int
  deTransport :: string
  deAttemptedAt :: int
  deOK :: bool
  deError :: string

record state_db = db +
  t_meta :: "(string \<times> string) list"
  t_split :: "split option"
  t_blocks :: "branch_block list"
  t_alerts :: "alert list"
  t_deliveries :: "delivery list"

section \<open>Single values\<close>

definition MetaLastScannedSQHeight :: string where "MetaLastScannedSQHeight = ''last_scanned_sq_height''"
definition MetaLastScannedSQHash :: string where "MetaLastScannedSQHash = ''last_scanned_sq_hash''"
definition MetaRescanNextSQHeight :: string where "MetaRescanNextSQHeight = ''rescan_next_sq_height''"
definition MetaRescanTargetSQHeight :: string where "MetaRescanTargetSQHeight = ''rescan_target_sq_height''"

definition SetMeta :: "string \<Rightarrow> string \<Rightarrow> 'x state_db_scheme \<Rightarrow> 'x state_db_scheme \<times> (store_err + unit)" where
  "SetMeta key v d =
     (if key = '''' then (d, Inl StoreInvalid)
      else db_call (\<lambda>d. (d\<lparr>t_meta := AList.update key v (t_meta d)\<rparr>, Inr ())) d)"

definition GetMeta :: "string \<Rightarrow> 'x state_db_scheme \<Rightarrow> 'x state_db_scheme \<times> (store_err + string)" where
  "GetMeta key = db_read (\<lambda>d. case map_of (t_meta d) key of None \<Rightarrow> Inl StoreNotFound | Some v \<Rightarrow> Inr v)"

text \<open>\<open>strconv.ParseInt\<close> in base ten: an optional sign, at least one digit, nothing else, in range.\<close>

definition formatInt64 :: "int \<Rightarrow> string" where "formatInt64 v = itoa v"

definition parseInt64 :: "string \<Rightarrow> int option" where
  "parseInt64 s =
     (let (neg, ds) = (case s of [] \<Rightarrow> (False, [])
                       | c # cs \<Rightarrow> if c = CHR ''-'' then (True, cs) else if c = CHR ''+'' then (False, cs) else (False, s))
      in if ds = [] \<or> \<not> list_all is_digit ds then None
         else
           (let n = int (digits_value ds)
            in if neg then (if 2 ^ 63 < n then None else Some (- n))
               else if 2 ^ 63 \<le> n then None else Some n))"

definition SetMetaInt64 :: "string \<Rightarrow> int \<Rightarrow> 'x state_db_scheme \<Rightarrow> 'x state_db_scheme \<times> (store_err + unit)" where
  "SetMetaInt64 key v = SetMeta key (formatInt64 v)"

definition GetMetaInt64 :: "string \<Rightarrow> int \<Rightarrow> 'x state_db_scheme \<Rightarrow> 'x state_db_scheme \<times> (store_err + int)" where
  "GetMetaInt64 key def d =
     (case GetMeta key d of
        (d1, Inl StoreNotFound) \<Rightarrow> (d1, Inr def)
      | (d1, Inl e) \<Rightarrow> (d1, Inl e)
      | (d1, Inr raw) \<Rightarrow> (d1, case parseInt64 raw of None \<Rightarrow> Inl StoreIO | Some n \<Rightarrow> Inr n))"

section \<open>The split and recent blocks\<close>

definition int32FromDB :: "int \<Rightarrow> int option" where
  "int32FromDB v = (if v < - (2 ^ 31) \<or> 2 ^ 31 - 1 < v then None else Some v)"

definition GetSplitState :: "'x state_db_scheme \<Rightarrow> 'x state_db_scheme \<times> (store_err + split)" where
  "GetSplitState = db_read (\<lambda>d.
     case t_split d of
       None \<Rightarrow> Inl StoreNotFound
     | Some s \<Rightarrow> (case int32FromDB (slForkHeight s) of None \<Rightarrow> Inl StoreIO | Some h \<Rightarrow> Inr s))"

definition SaveSplitState :: "split \<Rightarrow> 'x state_db_scheme \<Rightarrow> 'x state_db_scheme \<times> (store_err + unit)" where
  "SaveSplitState s d =
     (if \<not> SplitState_Valid (slState s) then (d, Inl StoreInvalid)
      else db_call (\<lambda>d. (d\<lparr>t_split := map_option (\<lambda>_. s) (t_split d)\<rparr>, Inr ())) d)"

definition BranchBlockRetention :: nat where "BranchBlockRetention = 500"

text \<open>\<open>ORDER BY height DESC, hash DESC\<close>.\<close>

definition newer :: "branch_block \<Rightarrow> branch_block \<Rightarrow> bool" where
  "newer b c \<longleftrightarrow> bbHeight c < bbHeight b \<or> bbHeight b = bbHeight c \<and> string_le (bbHash c) (bbHash b)"

definition newest_first :: "branch \<Rightarrow> branch_block list \<Rightarrow> branch_block list" where
  "newest_first br bs = foldr (insort_by newer) (filter (\<lambda>b. bbBranch b = br) bs) []"

definition prune :: "branch \<Rightarrow> branch_block list \<Rightarrow> branch_block list" where
  "prune br bs =
     (let kept = map bbHash (take BranchBlockRetention (newest_first br bs))
      in filter (\<lambda>b. bbBranch b \<noteq> br \<or> bbHash b \<in> set kept) bs)"

definition RecordBranchBlock :: "branch_block \<Rightarrow> 'x state_db_scheme \<Rightarrow> 'x state_db_scheme \<times> (store_err + unit)" where
  "RecordBranchBlock b d =
     (if \<not> Branch_Valid (bbBranch b) then (d, Inl StoreInvalid)
      else if bbHash b = '''' then (d, Inl StoreInvalid)
      else
        db_call (\<lambda>d.
          let bs = (if list_ex (\<lambda>x. bbBranch x = bbBranch b \<and> bbHash x = bbHash b) (t_blocks d)
                    then t_blocks d else t_blocks d @ [b])
          in (d\<lparr>t_blocks := prune (bbBranch b) bs\<rparr>, Inr ())) d)"

definition RecentBranchHashes :: "branch \<Rightarrow> int \<Rightarrow> 'x state_db_scheme \<Rightarrow> 'x state_db_scheme \<times> (store_err + string list)" where
  "RecentBranchHashes br n d =
     (if \<not> Branch_Valid br then (d, Inl StoreInvalid)
      else
        (let n = (if n \<le> 0 then BranchBlockRetention else nat n)
         in db_read (\<lambda>d. Inr (map bbHash (take n (newest_first br (t_blocks d))))) d))"

definition CountBranchBlocks :: "branch \<Rightarrow> 'x state_db_scheme \<Rightarrow> 'x state_db_scheme \<times> (store_err + int)" where
  "CountBranchBlocks br = db_read (\<lambda>d. Inr (int (length (filter (\<lambda>b. bbBranch b = br) (t_blocks d)))))"

section \<open>Alerts\<close>

record alert_upsert =
  upID :: int
  upNew :: bool
  upReopened :: bool

definition Notify :: "alert_upsert \<Rightarrow> bool" where "Notify u \<longleftrightarrow> upNew u \<or> upReopened u"

definition place_alert :: "int \<Rightarrow> alert \<Rightarrow> alert" where
  "place_alert i a = a\<lparr>alID := i\<rparr>"

interpretation alerts: keyed_table alID alDedupKey place_alert
  by unfold_locales (simp_all add: place_alert_def)

definition alert_refused :: "alert \<Rightarrow> bool" where
  "alert_refused a \<longleftrightarrow> alDedupKey a = '''' \<or> \<not> Tier_Valid (alTier a) \<or> alKind a = ''''"

definition insert_alert :: "alert \<Rightarrow> 'x state_db_scheme \<Rightarrow> 'x state_db_scheme \<times> (store_err + alert_upsert)" where
  "insert_alert a d =
     (let i = next_id alID (t_alerts d)
      in (d\<lparr>t_alerts := t_alerts d @ [place_alert i (a\<lparr>alAckedAt := None\<rparr>)]\<rparr>,
          Inr \<lparr>upID = i, upNew = True, upReopened = False\<rparr>))"

definition ReconcileAlert :: "alert \<Rightarrow> 'x state_db_scheme \<Rightarrow> 'x state_db_scheme \<times> (store_err + alert_upsert)" where
  "ReconcileAlert a d =
     (if alert_refused a then (d, Inl StoreInvalid)
      else
        db_call (\<lambda>d.
          case find (\<lambda>x. alDedupKey x = alDedupKey a) (t_alerts d) of
            Some x \<Rightarrow>
              (d\<lparr>t_alerts := update_row alID (alID x) (\<lambda>x. x\<lparr>alLastRaisedAt := alLastRaisedAt a\<rparr>) (t_alerts d)\<rparr>,
               Inr \<lparr>upID = alID x, upNew = False, upReopened = False\<rparr>)
          | None \<Rightarrow> insert_alert a d) d)"

definition UpsertAlert :: "alert \<Rightarrow> 'x state_db_scheme \<Rightarrow> 'x state_db_scheme \<times> (store_err + alert_upsert)" where
  "UpsertAlert a d =
     (if alert_refused a then (d, Inl StoreInvalid)
      else
        db_call (\<lambda>d.
          case find (\<lambda>x. alDedupKey x = alDedupKey a) (t_alerts d) of
            Some x \<Rightarrow>
              (d\<lparr>t_alerts := update_row alID (alID x)
                   (\<lambda>x. x\<lparr>alLastRaisedAt := alLastRaisedAt a, alAckedAt := None\<rparr>) (t_alerts d)\<rparr>,
               Inr \<lparr>upID = alID x, upNew = False, upReopened = (alAckedAt x \<noteq> None)\<rparr>)
          | None \<Rightarrow> insert_alert a d) d)"

definition GetAlert :: "int \<Rightarrow> 'x state_db_scheme \<Rightarrow> 'x state_db_scheme \<times> (store_err + alert)" where
  "GetAlert i = db_read (\<lambda>d.
     case find (\<lambda>a. alID a = i) (t_alerts d) of None \<Rightarrow> Inl StoreNotFound | Some a \<Rightarrow> Inr a)"

text \<open>The key of a closed row; an update that would repeat a key fails and undoes the transaction.\<close>

definition closed_key :: "alert \<Rightarrow> string" where
  "closed_key a = alDedupKey a @ '':closed:'' @ itoa (alID a)"

definition retire_alert :: "int \<Rightarrow> (alert \<Rightarrow> alert) \<Rightarrow> alert list \<Rightarrow> alert list option" where
  "retire_alert i f rows =
     (case find (\<lambda>a. alID a = i) rows of
        None \<Rightarrow> Some rows
      | Some a \<Rightarrow>
          if list_ex (\<lambda>x. alID x \<noteq> i \<and> alDedupKey x = closed_key a) rows then None
          else Some (update_row alID i (\<lambda>a. (f a)\<lparr>alDedupKey := closed_key a\<rparr>) rows))"

definition standing :: "string \<Rightarrow> alert \<Rightarrow> bool" where
  "standing key x \<longleftrightarrow> alDedupKey x = key \<and> alTier x \<noteq> TierResolved"

fun resolve_loop :: "alert \<Rightarrow> string list \<Rightarrow> int \<Rightarrow> alert list \<Rightarrow> (int \<times> alert list) option" where
  "resolve_loop a [] i rows = Some (i, rows)"
| "resolve_loop a (key # keys) i rows =
     (case find (standing key) rows of
        None \<Rightarrow> resolve_loop a keys i rows
      | Some x \<Rightarrow>
          if i = 0 then resolve_loop a keys (alID x) rows
          else
            (case retire_alert (alID x)
                    (\<lambda>x. x\<lparr>alTier := TierResolved, alLastRaisedAt := alLastRaisedAt a, alAckedAt := Some (alLastRaisedAt a)\<rparr>) rows of
               None \<Rightarrow> None
             | Some rows \<Rightarrow> resolve_loop a keys i rows))"

definition ResolveAlert :: "alert \<Rightarrow> string list \<Rightarrow> 'x state_db_scheme \<Rightarrow> 'x state_db_scheme \<times> (store_err + int)" where
  "ResolveAlert a closes d =
     (if alDedupKey a = '''' then (d, Inl StoreInvalid)
      else
        db_call (\<lambda>d.
          case resolve_loop a (alDedupKey a # closes) 0 (t_alerts d) of
            None \<Rightarrow> (d, Inl StoreConstraint)
          | Some (i, rows) \<Rightarrow>
              if i = 0 then (d\<lparr>t_alerts := rows\<rparr>, Inr 0)
              else
                (case retire_alert i
                        (\<lambda>x. x\<lparr>alTier := alTier a, alKind := alKind a, alSubject := alSubject a, alMessage := alMessage a,
                               alLastRaisedAt := alLastRaisedAt a, alAckedAt := Some (alLastRaisedAt a)\<rparr>) rows of
                   None \<Rightarrow> (d, Inl StoreConstraint)
                 | Some rows \<Rightarrow> (d\<lparr>t_alerts := rows\<rparr>, Inr i))) d)"

text \<open>
  Two statements outside a transaction: the second runs only when the first changed nothing,
  and tells an alert already acknowledged from one that does not exist.
\<close>

definition AckAlert :: "int \<Rightarrow> int \<Rightarrow> 'x state_db_scheme \<Rightarrow> 'x state_db_scheme \<times> (store_err + bool)" where
  "AckAlert i now d =
     (case db_call (\<lambda>d.
        if list_ex (\<lambda>a. alID a = i \<and> alAckedAt a = None) (t_alerts d)
        then (d\<lparr>t_alerts := update_row alID i
                 (\<lambda>a. if alAckedAt a = None then a\<lparr>alAckedAt := Some now\<rparr> else a) (t_alerts d)\<rparr>, Inr True)
        else (d, Inr False)) d of
        (d1, Inr False) \<Rightarrow>
          db_read (\<lambda>d. if list_ex (\<lambda>a. alID a = i) (t_alerts d) then Inr False else Inl StoreNotFound) d1
      | other \<Rightarrow> other)"

definition DefaultAlertLimit :: int where "DefaultAlertLimit = 100"
definition MaxAlertLimit :: int where "MaxAlertLimit = 500"

definition ListAlerts :: "bool \<Rightarrow> int \<Rightarrow> 'x state_db_scheme \<Rightarrow> 'x state_db_scheme \<times> (store_err + alert list)" where
  "ListAlerts unackedOnly limit = db_read (\<lambda>d. Inr (take (nat (clampLimit limit DefaultAlertLimit MaxAlertLimit))
     (filter (\<lambda>a. \<not> unackedOnly \<or> alAckedAt a = None) (t_alerts d))))"

definition RecordDelivery :: "delivery \<Rightarrow> 'x state_db_scheme \<Rightarrow> 'x state_db_scheme \<times> (store_err + int)" where
  "RecordDelivery e d =
     (if deTransport e = '''' then (d, Inl StoreInvalid)
      else
        db_call (\<lambda>d.
          let i = next_id deID (t_deliveries d)
          in if list_ex (\<lambda>a. alID a = deAlertID e) (t_alerts d)
             then (d\<lparr>t_deliveries := t_deliveries d @ [e\<lparr>deID := i\<rparr>]\<rparr>, Inr i)
             else (d, Inl StoreConstraint)) d)"

definition ListDeliveries :: "int \<Rightarrow> 'x state_db_scheme \<Rightarrow> 'x state_db_scheme \<times> (store_err + delivery list)" where
  "ListDeliveries i = db_read (\<lambda>d. Inr (filter (\<lambda>e. deAlertID e = i) (t_deliveries d)))"

section \<open>Round trips and keys\<close>

lemma parse_format: "is_i64 n \<Longrightarrow> parseInt64 (formatInt64 n) = Some n"
proof -
  assume n: "is_i64 n"
  have d: "list_all is_digit (digits m)" "digits m \<noteq> []" for m
    using digits_all [of m] by (simp_all add: list_all_iff)
  show ?thesis
  proof (cases "n < 0")
    case True
    with n show ?thesis using d [of "nat (- n)"]
      by (simp add: parseInt64_def formatInt64_def itoa_def is_i64_def)
  next
    case False
    obtain c cs where c: "digits (nat n) = c # cs" by (cases "digits (nat n)") simp_all
    then have "is_digit c" using digits_all [of "nat n"] by simp
    then have "c \<noteq> CHR ''-''" "c \<noteq> CHR ''+''" by (auto simp: is_digit_def)
    moreover have "list_all is_digit (c # cs)" "digits_value (c # cs) = nat n"
      using d(1) [of "nat n"] digits_value_digits [of "nat n"] c by auto
    ultimately show ?thesis using False n c
      by (simp add: parseInt64_def formatInt64_def itoa_def is_i64_def)
  qed
qed

lemma SetMeta_same:
  assumes "SetMeta key v d = (d', Inr ())"
  shows "map_of (t_meta d') = (map_of (t_meta d))(key \<mapsto> v)"
  using assms by (auto simp: SetMeta_def update_conv' elim!: db_call_cases split: if_splits)

lemma alerts_update_ok:
  fixes rows :: "alert list"
  assumes "table_ok alID alDedupKey rows" "\<And>a. alID (f a) = alID a \<and> alDedupKey (f a) = alDedupKey a"
  shows "table_ok alID alDedupKey (update_row alID i f rows)"
  using alerts.update_ok [OF assms(1)] assms(2) by blast

lemma retire_ok:
  fixes rows :: "alert list"
  assumes "table_ok alID alDedupKey rows" "retire_alert i f rows = Some rows'" "\<And>a. alID (f a) = alID a"
  shows "table_ok alID alDedupKey rows'"
proof (cases "find (\<lambda>a. alID a = i) rows")
  case None
  with assms show ?thesis by (simp add: retire_alert_def)
next
  case (Some a)
  let ?g = "\<lambda>x. if alID x = i then (f x)\<lparr>alDedupKey := closed_key x\<rparr> else x"
  have a: "a \<in> set rows" "alID a = i" using Some by (auto dest: find_Some_mem)
  have one: "x = a" if "x \<in> set rows" "alID x = i" for x
    using alerts.same_id [OF assms(1) that(1) a(1)] that(2) a(2) by simp
  have free: "\<forall>x \<in> set rows. alID x \<noteq> i \<longrightarrow> alDedupKey x \<noteq> closed_key a"
    and rows': "rows' = map ?g rows"
    using assms(2) Some by (auto simp: retire_alert_def update_row_def list_ex_iff split: if_splits)
  have "map alID rows' = map alID rows" using assms(3) by (auto simp: rows')
  moreover have "inj_on (\<lambda>x. alDedupKey (?g x)) (set rows)"
  proof (rule inj_onI)
    fix x y assume xy: "x \<in> set rows" "y \<in> set rows" "alDedupKey (?g x) = alDedupKey (?g y)"
    have "alDedupKey (?g x) = (if alID x = i then closed_key a else alDedupKey x)"
      "alDedupKey (?g y) = (if alID y = i then closed_key a else alDedupKey y)"
      using one xy by auto
    with xy free one show "x = y"
      using alerts.same_key [OF assms(1), of x y] by (metis (full_types))
  qed
  then have "distinct (map alDedupKey rows')"
    using assms(1) by (simp add: rows' distinct_map table_ok_def comp_def)
  moreover have "\<forall>x \<in> set rows'. 0 < alID x"
    using assms(1,3) by (auto simp: rows' table_ok_def)
  ultimately show ?thesis using assms(1) by (simp add: table_ok_def)
qed

lemma insert_alert_ok:
  assumes "table_ok alID alDedupKey (t_alerts d)" "alDedupKey a \<notin> alDedupKey ` set (t_alerts d)"
  shows "table_ok alID alDedupKey (t_alerts (fst (insert_alert a d)))"
  using alerts.insert_ok [OF assms(1), of "a\<lparr>alAckedAt := None\<rparr>"] assms(2) by (simp add: insert_alert_def Let_def)

lemma update_row_mem: "r \<in> set rows \<Longrightarrow> f r \<in> set (update_row rid (rid r) f rows)"
  by (auto simp: set_update_row)

lemma ResolveAlert_closed:
  assumes "table_ok alID alDedupKey (t_alerts d)" "faults d = []" "ResolveAlert r [] d = (d1, Inr i)" "i \<noteq> 0"
  shows "faults d1 = [] \<and> table_ok alID alDedupKey (t_alerts d1)
    \<and> (\<forall>x \<in> set (t_alerts d1). alDedupKey x \<noteq> alDedupKey r)
    \<and> (\<exists>x \<in> set (t_alerts d). alDedupKey x = alDedupKey r \<and> alID x = i \<and> alTier x \<noteq> TierResolved
        \<and> x\<lparr>alTier := alTier r, alKind := alKind r, alSubject := alSubject r, alMessage := alMessage r,
             alLastRaisedAt := alLastRaisedAt r, alAckedAt := Some (alLastRaisedAt r), alDedupKey := closed_key x\<rparr>
           \<in> set (t_alerts d1))"
proof -
  let ?f = "\<lambda>x. x\<lparr>alTier := alTier r, alKind := alKind r, alSubject := alSubject r, alMessage := alMessage r,
     alLastRaisedAt := alLastRaisedAt r, alAckedAt := Some (alLastRaisedAt r)\<rparr>"
  from assms(2-4) obtain x where x: "find (standing (alDedupKey r)) (t_alerts d) = Some x" "i = alID x"
    by (auto simp: ResolveAlert_def db_call_def split: if_splits option.splits prod.splits)
  then have mem: "x \<in> set (t_alerts d)" "alDedupKey x = alDedupKey r" "alTier x \<noteq> TierResolved"
    by (auto dest!: find_Some_mem simp: standing_def)
  with assms(2-4) x obtain rows where rows: "retire_alert i ?f (t_alerts d) = Some rows" "d1 = d\<lparr>t_alerts := rows\<rparr>"
    by (auto simp: ResolveAlert_def db_call_def split: if_splits option.splits prod.splits)
  have ok: "table_ok alID alDedupKey rows" by (rule retire_ok [OF assms(1) rows(1)]) simp
  have "find (\<lambda>a. alID a = alID x) (t_alerts d) = Some x" by (rule alerts.find_by_id [OF assms(1) mem(1)])
  then have upd: "rows = update_row alID (alID x) (\<lambda>a. (?f a)\<lparr>alDedupKey := closed_key a\<rparr>) (t_alerts d)"
    using rows(1) x(2) by (auto simp: retire_alert_def split: if_splits)
  have "alDedupKey y \<noteq> alDedupKey r" if y: "y \<in> set rows" for y
  proof -
    from y upd obtain z where z: "z \<in> set (t_alerts d)"
      "y = (if alID z = alID x then (?f z)\<lparr>alDedupKey := closed_key z\<rparr> else z)" by (auto simp: set_update_row)
    show ?thesis
    proof (cases "alID z = alID x")
      case True
      then have "z = x" using alerts.same_id [OF assms(1) z(1) mem(1)] by simp
      with z True mem(2) show ?thesis by (simp add: closed_key_def)
    next
      case False
      then show ?thesis using z alerts.same_key [OF assms(1) z(1) mem(1)] mem(2) by auto
    qed
  qed
  moreover have "(?f x)\<lparr>alDedupKey := closed_key x\<rparr> \<in> set rows"
    unfolding upd by (rule update_row_mem [OF mem(1)])
  ultimately show ?thesis using rows(2) ok assms(2) mem x(2) by auto
qed

text \<open>
  A condition that was closed and comes back is news: after an alert is resolved its key is
  free, so raising the condition again makes a new row that is to be notified, and the closed
  row stays in the history with the words of its resolution. Raising once more is not news
  until the user has acknowledged it, and then it is.
\<close>

theorem closed_alert_can_return:
  assumes "table_ok alID alDedupKey (t_alerts d)" "faults d = []"
    and "ResolveAlert r [] d = (d1, Inr i)" "i \<noteq> 0"
    and "\<not> alert_refused a" "alDedupKey a = alDedupKey r"
    and "UpsertAlert a d1 = (d2, Inr up)"
  shows "upNew up \<and> Notify up \<and> upID up \<noteq> i
    \<and> (\<exists>x \<in> set (t_alerts d2). alID x = i \<and> alTier x = alTier r \<and> alMessage x = alMessage r \<and> alAckedAt x \<noteq> None)
    \<and> snd (UpsertAlert a d2) = Inr \<lparr>upID = upID up, upNew = False, upReopened = False\<rparr>
    \<and> (\<forall>t. snd (UpsertAlert a (fst (AckAlert (upID up) t d2))) = Inr \<lparr>upID = upID up, upNew = False, upReopened = True\<rparr>)"
proof -
  note c = ResolveAlert_closed [OF assms(1-4)]
  then have none: "find (\<lambda>x. alDedupKey x = alDedupKey a) (t_alerts d1) = None"
    using assms(6) by (auto simp: find_None_all)
  let ?i = "next_id alID (t_alerts d1)"
  let ?new = "place_alert ?i (a\<lparr>alAckedAt := None\<rparr>)"
  have d2: "d2 = d1\<lparr>t_alerts := t_alerts d1 @ [?new]\<rparr>" "up = \<lparr>upID = ?i, upNew = True, upReopened = False\<rparr>"
    using assms(5,7) none c by (simp_all add: UpsertAlert_def db_call_def insert_alert_def Let_def)
  have old: "alID x < ?i" if "x \<in> set (t_alerts d1)" for x using that by (rule next_id_fresh)
  from c obtain x where x: "x \<in> set (t_alerts d1)" "alID x = i" "alTier x = alTier r" "alMessage x = alMessage r"
    "alAckedAt x = Some (alLastRaisedAt r)" by fastforce
  have key: "alDedupKey ?new = alDedupKey a" "alID ?new = ?i" "alAckedAt ?new = None" by (simp_all add: place_alert_def)
  have again: "find (\<lambda>x. alDedupKey x = alDedupKey a) (t_alerts d2) = Some ?new"
    using none key by (simp add: d2 find_app)
  have once: "snd (UpsertAlert a d2) = Inr \<lparr>upID = ?i, upNew = False, upReopened = False\<rparr>"
    using again key c assms(5) by (simp add: UpsertAlert_def db_call_def d2)
  have acked: "snd (UpsertAlert a (fst (AckAlert ?i t d2))) = Inr \<lparr>upID = ?i, upNew = False, upReopened = True\<rparr>" for t
  proof -
    let ?g = "\<lambda>a. if alAckedAt a = None then a\<lparr>alAckedAt := Some t\<rparr> else a"
    have ack: "fst (AckAlert ?i t d2) = d2\<lparr>t_alerts := update_row alID ?i ?g (t_alerts d2)\<rparr>"
      using c key by (simp add: AckAlert_def db_call_def d2)
    have "update_row alID ?i ?g (t_alerts d2) = t_alerts d1 @ [?g ?new]"
      using old key by (auto simp: d2 update_row_def intro!: map_idI dest!: old)
    then have "find (\<lambda>x. alDedupKey x = alDedupKey a) (t_alerts (fst (AckAlert ?i t d2))) = Some (?g ?new)"
      using none key by (simp add: ack find_app)
    moreover have "faults (fst (AckAlert ?i t d2)) = []" unfolding ack using c by (simp add: d2)
    ultimately show ?thesis using key assms(5) by (simp add: UpsertAlert_def db_call_def)
  qed
  show ?thesis using x old [OF x(1)] once acked by (auto simp: d2 Notify_def)
qed

definition demo_state_db :: state_db where
  "demo_state_db = db.extend empty_db
     \<lparr>t_meta = [], t_split = None, t_blocks = [], t_alerts = [], t_deliveries = []\<rparr>"

definition demo_alert :: alert where
  "demo_alert = \<lparr>alID = 0, alTier = TierWarning, alKind = ''k'', alDedupKey = ''k'', alSubject = '''', alMessage = ''m'',
     alCreatedAt = 1, alLastRaisedAt = 1, alAckedAt = None\<rparr>"

theorem closed_alert_can_return_witness:
  "\<exists>d2 up. UpsertAlert demo_alert (fst (ResolveAlert (demo_alert\<lparr>alTier := TierResolved\<rparr>) []
      (fst (UpsertAlert demo_alert demo_state_db)))) = (d2, Inr up) \<and> Notify up"
proof -
  let ?d = "fst (UpsertAlert demo_alert demo_state_db)"
  let ?r = "demo_alert\<lparr>alTier := TierResolved\<rparr>"
  have r: "snd (ResolveAlert ?r [] ?d) = Inr 1" "faults ?d = []"
    "isl (snd (UpsertAlert demo_alert (fst (ResolveAlert ?r [] ?d)))) = False" by code_simp+
  obtain d1 where d1: "ResolveAlert ?r [] ?d = (d1, Inr 1)" using r(1) by (metis prod.collapse)
  with r(3) obtain d2 up where u: "UpsertAlert demo_alert d1 = (d2, Inr up)"
    by (cases "UpsertAlert demo_alert d1"; cases "snd (UpsertAlert demo_alert d1)") auto
  have "table_ok alID alDedupKey (t_alerts ?d)"
    by (simp add: UpsertAlert_def db_call_def insert_alert_def Let_def demo_alert_def alert_refused_def
        demo_state_db_def db.defs empty_db_def table_ok_def next_id_def place_alert_def)
  from closed_alert_can_return [OF this r(2) d1 _ _ _ u]
  have "Notify up" by (simp add: demo_alert_def alert_refused_def)
  with d1 u show ?thesis by auto
qed

end
