(* ===== verification/Tx_Classify.thy ===== *)
theory Tx_Classify
  imports Store_Db "HOL-Library.Word"
begin

text \<open>
  Transactions as the watcher reads them, what a spend of a channel's funding output and of a
  commitment's own outputs appears to be (\<open>internal/watcher/classify.go\<close>), and which outputs of
  a commitment are watched afterwards (\<open>internal/watcher/secondorder.go\<close>). The fields of
  \<open>wire.MsgTx\<close> keep their widths: bytes are \<open>8 word\<close>, the locktime, a sequence and an output
  index \<open>32 word\<close>. The id of a transaction is computed by a library outside the repository, so
  the functions that need it take it as an argument.
\<close>

section \<open>Transactions\<close>

type_synonym bytes = "8 word list"

record outpoint =
  opHash :: nat
  opIndex :: "32 word"

record tx_in =
  PreviousOutPoint :: outpoint
  Witness :: "bytes list"
  Sequence :: "32 word"

record tx_out =
  Value :: int
  PkScript :: bytes

record msg_tx =
  TxIn :: "tx_in list"
  TxOut :: "tx_out list"
  LockTime :: "32 word"

section \<open>Spends of a funding output\<close>

definition AnchorValueSat :: int where "AnchorValueSat = 330"
definition commitmentLocktimeMarker :: "32 word" where "commitmentLocktimeMarker = 0x20"
definition commitmentSequenceMarker :: "32 word" where "commitmentSequenceMarker = 0x80"
definition mutualCloseWitnessItems :: nat where "mutualCloseWitnessItems = 4"
definition scriptPathWitnessItems :: nat where "scriptPathWitnessItems = 3"

record shape_facts =
  sfTx :: "msg_tx option"
  sfTxID :: string
  sfOurCloseTxID :: string

text \<open>The third loop over the inputs and the first over the outputs stop at the first mark.\<close>

definition looksLikeCommitment :: "msg_tx \<Rightarrow> bool" where
  "looksLikeCommitment tx \<longleftrightarrow>
     list_ex (\<lambda>out. Value out = AnchorValueSat) (TxOut tx)
     \<or> drop_bit 24 (LockTime tx) = commitmentLocktimeMarker
     \<or> list_ex (\<lambda>i. drop_bit 24 (Sequence i) = commitmentSequenceMarker) (TxIn tx)"

definition isPlainPayment :: "bytes \<Rightarrow> bool" where
  "isPlainPayment script \<longleftrightarrow>
     length script = 22 \<and> script ! 0 = 0x00 \<and> script ! 1 = 0x14
     \<or> length script = 34 \<and> script ! 0 = 0x00 \<and> script ! 1 = 0x20
     \<or> length script = 34 \<and> script ! 0 = 0x51 \<and> script ! 1 = 0x20"

definition locktimeIsATimestamp :: "32 word" where "locktimeIsATimestamp = 500000000"

definition looksLikeMutualClose :: "msg_tx \<Rightarrow> bool" where
  "looksLikeMutualClose tx \<longleftrightarrow>
     (if length (TxIn tx) \<noteq> 1 \<or> length (TxOut tx) = 0 \<or> 2 < length (TxOut tx) then False
      else if length (Witness (TxIn tx ! 0)) \<noteq> mutualCloseWitnessItems
              \<or> length (Witness (TxIn tx ! 0) ! 0) \<noteq> 0 then False
      else if locktimeIsATimestamp \<le> LockTime tx then False
      else list_all (\<lambda>out. isPlainPayment (PkScript out)) (TxOut tx))"

text \<open>\<open>strings.EqualFold\<close> on the hexadecimal digits a transaction id is made of.\<close>

definition EqualFold :: "string \<Rightarrow> string \<Rightarrow> bool" where
  "EqualFold s t \<longleftrightarrow> to_lower s = to_lower t"

definition ClassifyShape :: "shape_facts \<Rightarrow> spend_shape" where
  "ClassifyShape f =
     (case sfTx f of
        None \<Rightarrow> ShapeUnknown
      | Some tx \<Rightarrow>
          if length (TxIn tx) \<noteq> 1 then ShapeUnknown
          else if looksLikeCommitment tx
          then (if sfOurCloseTxID f \<noteq> '''' \<and> EqualFold (sfTxID f) (sfOurCloseTxID f)
                then ShapeCommitmentOurs else ShapeCommitmentUnknown)
          else if looksLikeMutualClose tx then ShapeMutualClose
          else ShapeUnknown)"

section \<open>Spends of a commitment's outputs\<close>

record sweep_facts =
  swTx :: "msg_tx option"
  swInputIndex :: int
  swRole :: outpoint_role
  swSpendHeight :: int
  swDeadlineHeight :: int

definition takesRevocationPath :: "bytes list \<Rightarrow> bool" where
  "takesRevocationPath w \<longleftrightarrow>
     length w = scriptPathWitnessItems \<and> length (w ! 1) = 1 \<and> w ! 1 ! 0 = 0x01"

definition takesDelayedPath :: "bytes list \<Rightarrow> bool" where
  "takesDelayedPath w \<longleftrightarrow> length w = scriptPathWitnessItems \<and> length (w ! 1) = 0"

definition ClassifySweep :: "sweep_facts \<Rightarrow> spend_shape" where
  "ClassifySweep f =
     (case swTx f of
        None \<Rightarrow> ShapeUnknown
      | Some tx \<Rightarrow>
          if swInputIndex f < 0 \<or> int (length (TxIn tx)) \<le> swInputIndex f then ShapeUnknown
          else
            (let witness = Witness (TxIn tx ! nat (swInputIndex f))
             in if takesRevocationPath witness then ShapeJustice
                else if takesDelayedPath witness then ShapeDelayedSweep
                else if swRole f = RoleHTLC then ShapeHTLCClaim
                else if swRole f = RoleToLocal \<and> 0 < swDeadlineHeight f \<and> swDeadlineHeight f \<le> swSpendHeight f
                then ShapeDelayedSweep
                else ShapeUnknown))"

section \<open>Outputs worth watching\<close>

text \<open>\<open>hex.EncodeToString\<close> and \<open>hex.DecodeString\<close>.\<close>

definition hex_digit :: "nat \<Rightarrow> char" where
  "hex_digit n = (if n < 10 then char_of (48 + n) else char_of (87 + n))"

definition hex_value :: "char \<Rightarrow> nat option" where
  "hex_value c = (let n = of_char c :: nat
     in if 48 \<le> n \<and> n \<le> 57 then Some (n - 48)
        else if 97 \<le> n \<and> n \<le> 102 then Some (n - 87)
        else if 65 \<le> n \<and> n \<le> 70 then Some (n - 55)
        else None)"

fun hex_encode :: "bytes \<Rightarrow> string" where
  "hex_encode [] = ''''"
| "hex_encode (b # bs) = hex_digit (unat b div 16) # hex_digit (unat b mod 16) # hex_encode bs"

fun hex_decode :: "string \<Rightarrow> bytes option" where
  "hex_decode [] = Some []"
| "hex_decode [_] = None"
| "hex_decode (a # b # cs) =
     (case (hex_value a, hex_value b, hex_decode cs) of
        (Some i, Some j, Some bs) \<Rightarrow> Some (word_of_nat (16 * i + j) # bs)
      | _ \<Rightarrow> None)"

definition roleOf :: "tx_out \<Rightarrow> outpoint_role" where
  "roleOf out = (if Value out = AnchorValueSat then RoleAnchor else RoleUnknown)"

definition CommitmentOutputs :: "string \<Rightarrow> msg_tx option \<Rightarrow> branch \<Rightarrow> int \<Rightarrow> watch_outpoint list" where
  "CommitmentOutputs txid tx br sourceSpendID =
     (case tx of
        None \<Rightarrow> []
      | Some tx \<Rightarrow>
          List.map_filter (\<lambda>(i, out).
            if length (PkScript out) = 0 then None
            else Some \<lparr>woBranch = br, woTxID = txid, woVout = i32 (int i), woScriptHex = hex_encode (PkScript out),
                       woSourceSpendEventID = sourceSpendID, woRole = roleOf out\<rparr>)
            (enumerate 0 (TxOut tx)))"

section \<open>Properties\<close>

lemma hex_digit_value: "n < 16 \<Longrightarrow> hex_value (hex_digit n) = Some n"
  by (auto simp: hex_value_def hex_digit_def Let_def)

lemma hex_roundtrip: "hex_decode (hex_encode bs) = Some bs"
proof (induction bs)
  case (Cons b bs)
  have "unat b < 256" using unsigned_less [of b] by simp
  then have "unat b div 16 < 16" by simp
  with Cons show ?case by (simp add: hex_digit_value)
qed simp

end
