(* ===== verification/Watch_Set.thy ===== *)
theory Watch_Set
  imports Tx_Classify Store_Channels Store_Spends "HOL-Library.AList"
begin

text \<open>
  What is watched on a chain and how a block is searched for it: \<open>internal/watcher/watchset.go\<close>
  and \<open>internal/watcher/scan.go\<close>. A Go map keyed by outpoint is an association list with
  distinct keys. Parsing and printing of block hashes is done by a library outside the
  repository: \<open>parse\<close> and \<open>print\<close> are arguments. What a row that cannot be watched is listed with
  is quoted as \<open>%q\<close> does for printable text without quotes in it.
\<close>

unbundle bit_operations_syntax

section \<open>Targets\<close>

datatype target_kind = KindFunding | KindCommitmentOutput

record target =
  tgOutpoint :: outpoint
  tgKind :: target_kind
  tgChannelID :: int
  tgRole :: outpoint_role
  tgSourceSpendEventID :: int
  tgScript :: bytes

record skipped =
  skWhat :: string
  skWhy :: string

record watch_set =
  wsTargets :: "(outpoint \<times> target) list"
  wsSkipped :: "skipped list"

definition put :: "target \<Rightarrow> watch_set \<Rightarrow> watch_set" where
  "put t ws = ws\<lparr>wsTargets := AList.update (tgOutpoint t) t (wsTargets ws)\<rparr>"

definition NewWatchSet :: "target list \<Rightarrow> watch_set" where
  "NewWatchSet ts = fold put ts \<lparr>wsTargets = [], wsSkipped = []\<rparr>"

definition Len :: "watch_set \<Rightarrow> nat" where "Len w = length (wsTargets w)"

definition Empty :: "watch_set \<Rightarrow> bool" where "Empty w \<longleftrightarrow> length (wsTargets w) = 0"

definition Lookup :: "outpoint \<Rightarrow> watch_set \<Rightarrow> target option" where
  "Lookup op w = map_of (wsTargets w) op"

text \<open>Funding outputs first, then by the printed transaction id and the output index.\<close>

definition target_less :: "(nat \<Rightarrow> string) \<Rightarrow> target \<Rightarrow> target \<Rightarrow> bool" where
  "target_less print a b \<longleftrightarrow>
     (if (tgKind a = KindFunding) \<noteq> (tgKind b = KindFunding) then tgKind a = KindFunding
      else if opHash (tgOutpoint a) \<noteq> opHash (tgOutpoint b)
      then \<not> string_le (print (opHash (tgOutpoint b))) (print (opHash (tgOutpoint a)))
      else opIndex (tgOutpoint a) < opIndex (tgOutpoint b))"

definition sortTargets :: "(nat \<Rightarrow> string) \<Rightarrow> target list \<Rightarrow> target list" where
  "sortTargets print ts = foldr (insort_by (\<lambda>a b. \<not> target_less print b a)) ts []"

definition Targets :: "(nat \<Rightarrow> string) \<Rightarrow> watch_set \<Rightarrow> target list" where
  "Targets print w = sortTargets print (map snd (wsTargets w))"

record chain_watch_set =
  cwOutpoints :: "outpoint list"
  cwScripts :: "bytes list"

definition ChainViewSet :: "(nat \<Rightarrow> string) \<Rightarrow> watch_set \<Rightarrow> chain_watch_set" where
  "ChainViewSet print w =
     (let ts = Targets print w
      in \<lparr>cwOutpoints = map tgOutpoint ts, cwScripts = filter (\<lambda>s. 0 < length s) (map tgScript ts)\<rparr>)"

section \<open>Building the set\<close>

definition MaxHashStringSize :: nat where "MaxHashStringSize = 64"

definition quoted :: "string \<Rightarrow> string" where
  "quoted s = CHR 0x22 # s @ [CHR 0x22]"

definition outpointOf :: "(string \<Rightarrow> nat option) \<Rightarrow> string \<Rightarrow> int \<Rightarrow> string + outpoint" where
  "outpointOf parse txid vout =
     (if vout < 0 then Inl (itoa vout @ '' is not an output index'')
      else if length txid \<noteq> MaxHashStringSize then Inl (quoted txid @ '' is not a transaction id'')
      else
        (case parse txid of
           None \<Rightarrow> Inl (quoted txid @ '' is not a transaction id'')
         | Some h \<Rightarrow> if h = 0 then Inl (quoted txid @ '' is the empty transaction id'')
                     else Inr \<lparr>opHash = h, opIndex = word_of_int vout\<rparr>))"

definition decodeScript :: "string \<Rightarrow> bytes" where
  "decodeScript hexStr =
     (if hexStr = '''' then [] else case hex_decode hexStr of None \<Rightarrow> [] | Some b \<Rightarrow> b)"

definition skip :: "string \<Rightarrow> string \<Rightarrow> watch_set \<Rightarrow> watch_set" where
  "skip what why ws = ws\<lparr>wsSkipped := wsSkipped ws @ [\<lparr>skWhat = what, skWhy = why\<rparr>]\<rparr>"

definition funding_target :: "outpoint \<Rightarrow> channel \<Rightarrow> target" where
  "funding_target op c =
     \<lparr>tgOutpoint = op, tgKind = KindFunding, tgChannelID = chID c, tgRole = RoleOther '''',
      tgSourceSpendEventID = 0, tgScript = decodeScript (chFundingScriptHex c)\<rparr>"

definition add_channel :: "(string \<Rightarrow> nat option) \<Rightarrow> channel \<Rightarrow> watch_set \<Rightarrow> watch_set" where
  "add_channel parse c ws =
     (if chRelevance c = Irrelevant then ws
      else
        (case outpointOf parse (chFundingTxID c) (chFundingVout c) of
           Inl why \<Rightarrow> skip (''channel '' @ itoa (chID c)) why ws
         | Inr op \<Rightarrow> put (funding_target op c) ws))"

definition output_target :: "outpoint \<Rightarrow> watch_outpoint \<Rightarrow> target" where
  "output_target op w =
     \<lparr>tgOutpoint = op, tgKind = KindCommitmentOutput, tgChannelID = 0, tgRole = woRole w,
      tgSourceSpendEventID = woSourceSpendEventID w, tgScript = decodeScript (woScriptHex w)\<rparr>"

definition add_output :: "(string \<Rightarrow> nat option) \<Rightarrow> watch_outpoint \<Rightarrow> watch_set \<Rightarrow> watch_set" where
  "add_output parse w ws =
     (let what = woTxID w @ '':'' @ itoa (woVout w)
      in case outpointOf parse (woTxID w) (woVout w) of
           Inl why \<Rightarrow> skip what why ws
         | Inr op \<Rightarrow>
             if (case Lookup op ws of None \<Rightarrow> False | Some t \<Rightarrow> tgKind t = KindFunding)
             then skip what ''it is already being watched as a channel's funding output'' ws
             else put (output_target op w) ws)"

definition Build ::
  "(string \<Rightarrow> nat option) \<Rightarrow> branch \<Rightarrow> 'x db_scheme \<Rightarrow> 'x db_scheme \<times> (store_err + watch_set)" where
  "Build parse br d =
     (case ListChannels all_channels d of
        (d1, Inl e) \<Rightarrow> (d1, Inl e)
      | (d1, Inr channels) \<Rightarrow>
          (case ListWatchOutpoints br d1 of
             (d2, Inl e) \<Rightarrow> (d2, Inl e)
           | (d2, Inr outpoints) \<Rightarrow>
               (d2, Inr (fold (add_output parse) outpoints
                          (fold (add_channel parse) channels \<lparr>wsTargets = [], wsSkipped = []\<rparr>)))))"

section \<open>Searching a block\<close>

record match =
  maTarget :: target
  maTx :: msg_tx
  maTxID :: nat
  maTxIndex :: nat
  maInputIndex :: nat

definition maxUint32 :: "32 word" where "maxUint32 = NOT 0"

definition isCoinbase :: "msg_tx \<Rightarrow> bool" where
  "isCoinbase tx \<longleftrightarrow>
     length (TxIn tx) = 1 \<and> opIndex (PreviousOutPoint (TxIn tx ! 0)) = maxUint32
     \<and> opHash (PreviousOutPoint (TxIn tx ! 0)) = 0"

definition scanTx :: "(msg_tx \<Rightarrow> nat) \<Rightarrow> msg_tx option \<Rightarrow> watch_set \<Rightarrow> nat \<Rightarrow> match list" where
  "scanTx txid tx ws txIndex =
     (case tx of
        None \<Rightarrow> []
      | Some tx \<Rightarrow>
          if isCoinbase tx then []
          else
            List.map_filter (\<lambda>(inputIndex, i).
              map_option (\<lambda>t. \<lparr>maTarget = t, maTx = tx, maTxID = txid tx, maTxIndex = txIndex, maInputIndex = inputIndex\<rparr>)
                (Lookup (PreviousOutPoint i) ws))
              (enumerate 0 (TxIn tx)))"

text \<open>A block is the list of its transactions.\<close>

definition ScanBlock :: "(msg_tx \<Rightarrow> nat) \<Rightarrow> msg_tx list option \<Rightarrow> watch_set \<Rightarrow> match list" where
  "ScanBlock txid blk ws =
     (case blk of
        None \<Rightarrow> []
      | Some txs \<Rightarrow>
          if Empty ws then []
          else concat (map (\<lambda>(txIndex, tx). scanTx txid (Some tx) ws txIndex) (enumerate 0 txs)))"

definition ScanTx :: "(msg_tx \<Rightarrow> nat) \<Rightarrow> msg_tx option \<Rightarrow> watch_set \<Rightarrow> match list" where
  "ScanTx txid tx ws = (if Empty ws then [] else scanTx txid tx ws 0)"

section \<open>What is watched\<close>

lemma Lookup_put: "Lookup op (put t ws) = (if op = tgOutpoint t then Some t else Lookup op ws)"
  by (simp add: Lookup_def put_def update_conv')

lemma Lookup_skip [simp]: "Lookup op (skip what why ws) = Lookup op ws"
  by (simp add: Lookup_def skip_def)

definition watches :: "(string \<Rightarrow> nat option) \<Rightarrow> outpoint \<Rightarrow> channel \<Rightarrow> bool" where
  "watches parse op c \<longleftrightarrow> chRelevance c \<noteq> Irrelevant \<and> outpointOf parse (chFundingTxID c) (chFundingVout c) = Inr op"

definition follows :: "(string \<Rightarrow> nat option) \<Rightarrow> outpoint \<Rightarrow> watch_outpoint \<Rightarrow> bool" where
  "follows parse op w \<longleftrightarrow> outpointOf parse (woTxID w) (woVout w) = Inr op"

lemma tgOutpoint_target [simp]: "tgOutpoint (funding_target op c) = op" "tgOutpoint (output_target op w) = op"
  "tgKind (funding_target op c) = KindFunding" "tgKind (output_target op w) = KindCommitmentOutput"
  by (simp_all add: funding_target_def output_target_def)

lemma Lookup_channels:
  "Lookup op (fold (add_channel parse) cs ws) =
     (case find (watches parse op) (rev cs) of Some c \<Rightarrow> Some (funding_target op c) | None \<Rightarrow> Lookup op ws)"
proof (induction cs arbitrary: ws)
  case (Cons c cs)
  then show ?case
    by (auto simp: find_app add_channel_def watches_def Lookup_put split: option.split sum.split)
qed simp

lemma Lookup_outputs:
  "Lookup op (fold (add_output parse) os ws) =
     (if (case Lookup op ws of None \<Rightarrow> False | Some t \<Rightarrow> tgKind t = KindFunding) then Lookup op ws
      else case find (follows parse op) (rev os) of Some w \<Rightarrow> Some (output_target op w) | None \<Rightarrow> Lookup op ws)"
proof (induction os arbitrary: ws)
  case (Cons w os)
  then show ?case
    by (auto simp: find_app add_output_def follows_def Lookup_put Let_def split: option.split sum.split if_splits)
qed simp

lemma skipped_kept: "set (wsSkipped ws) \<subseteq> set (wsSkipped (fold (add_channel parse) cs ws))"
  "set (wsSkipped ws) \<subseteq> set (wsSkipped (fold (add_output parse) os ws))"
proof -
  have c: "set (wsSkipped ws) \<subseteq> set (wsSkipped (add_channel parse c ws))"
    and o: "set (wsSkipped ws) \<subseteq> set (wsSkipped (add_output parse w ws))" for c w ws
    by (auto simp: add_channel_def add_output_def skip_def put_def Let_def split: sum.split option.split)
  show "set (wsSkipped ws) \<subseteq> set (wsSkipped (fold (add_channel parse) cs ws))"
    by (induction cs arbitrary: ws) (use c in force)+
  show "set (wsSkipped ws) \<subseteq> set (wsSkipped (fold (add_output parse) os ws))"
    by (induction os arbitrary: ws) (use o in force)+
qed

lemma skipped_channel:
  assumes "c \<in> set cs" "chRelevance c \<noteq> Irrelevant" "outpointOf parse (chFundingTxID c) (chFundingVout c) = Inl why"
  shows "\<lparr>skWhat = ''channel '' @ itoa (chID c), skWhy = why\<rparr> \<in> set (wsSkipped (fold (add_channel parse) cs ws))"
  using assms(1)
proof (induction cs arbitrary: ws)
  case (Cons x cs)
  show ?case
  proof (cases "x = c")
    case True
    with assms(2,3) have "\<lparr>skWhat = ''channel '' @ itoa (chID c), skWhy = why\<rparr> \<in> set (wsSkipped (add_channel parse x ws))"
      by (simp add: add_channel_def skip_def)
    then show ?thesis using skipped_kept(1) by fastforce
  next
    case False
    with Cons show ?thesis by simp
  qed
qed simp

lemma Lookup_empty [simp]: "Lookup op \<lparr>wsTargets = [], wsSkipped = sk\<rparr> = None"
  by (simp add: Lookup_def)

lemma Build_Inr:
  assumes "Build parse br d = (d', Inr ws)"
  shows "\<exists>cs os. set cs = set (t_channels d) \<and> set os = {w \<in> set (t_outpoints d). woBranch w = br}
    \<and> ws = fold (add_output parse) os (fold (add_channel parse) cs \<lparr>wsTargets = [], wsSkipped = []\<rparr>)"
proof -
  obtain d1 cs where l: "ListChannels all_channels d = (d1, Inr cs)"
    using assms by (auto simp: Build_def split: prod.splits sum.splits)
  then obtain d2 os where o: "ListWatchOutpoints br d1 = (d2, Inr os)"
    using assms by (auto simp: Build_def split: prod.splits sum.splits)
  have "set cs = set (t_channels d)" "t_outpoints d1 = t_outpoints d"
    using l by (auto simp: ListChannels_def all_channels_def elim!: db_read_cases)
  moreover have "set os = {w \<in> set (t_outpoints d1). woBranch w = br}"
    using o by (auto simp: ListWatchOutpoints_def elim!: db_read_cases)
  ultimately show ?thesis using l o assms by (auto simp: Build_def)
qed

lemma find_rev_some: "x \<in> set xs \<Longrightarrow> P x \<Longrightarrow> \<exists>y. find P (rev xs) = Some y \<and> y \<in> set xs \<and> P y"
  by (cases "find P (rev xs)") (auto simp: find_None_all dest: find_Some_mem)

lemma Build_Lookup:
  assumes "Build parse br d = (d', Inr ws)"
  shows "Lookup op ws = None \<Longrightarrow> c \<in> set (t_channels d) \<Longrightarrow> \<not> watches parse op c"
    and "Lookup op ws = None \<Longrightarrow> w \<in> set (t_outpoints d) \<Longrightarrow> woBranch w = br \<Longrightarrow> \<not> follows parse op w"
    and "Lookup op ws = Some t \<Longrightarrow>
      (\<exists>c \<in> set (t_channels d). watches parse op c \<and> t = funding_target op c)
      \<or> (\<exists>w \<in> set (t_outpoints d). woBranch w = br \<and> follows parse op w \<and> t = output_target op w
           \<and> (\<forall>c \<in> set (t_channels d). \<not> watches parse op c))"
proof -
  from Build_Inr [OF assms] obtain cs os where
    s: "set cs = set (t_channels d)" "set os = {w \<in> set (t_outpoints d). woBranch w = br}"
    and ws: "ws = fold (add_output parse) os (fold (add_channel parse) cs \<lparr>wsTargets = [], wsSkipped = []\<rparr>)"
    by blast
  have L: "Lookup op ws = (case find (watches parse op) (rev cs) of
      Some c \<Rightarrow> Some (funding_target op c)
    | None \<Rightarrow> map_option (output_target op) (find (follows parse op) (rev os)))"
    by (simp add: ws Lookup_outputs Lookup_channels split: option.split)
  show "Lookup op ws = None \<Longrightarrow> c \<in> set (t_channels d) \<Longrightarrow> \<not> watches parse op c"
    using L s(1) by (auto simp: find_None_all split: option.splits)
  show "Lookup op ws = None \<Longrightarrow> w \<in> set (t_outpoints d) \<Longrightarrow> woBranch w = br \<Longrightarrow> \<not> follows parse op w"
    using L s(2) by (auto simp: find_None_all split: option.splits)
  show "Lookup op ws = Some t \<Longrightarrow>
      (\<exists>c \<in> set (t_channels d). watches parse op c \<and> t = funding_target op c)
      \<or> (\<exists>w \<in> set (t_outpoints d). woBranch w = br \<and> follows parse op w \<and> t = output_target op w
           \<and> (\<forall>c \<in> set (t_channels d). \<not> watches parse op c))"
    using L s by (fastforce simp: find_None_all dest: find_Some_mem split: option.splits)
qed

text \<open>
  The watch set fails towards watching. Every channel that was not positively judged
  irrelevant is either watched at its funding outpoint, as a funding output, or listed as
  skipped with the reason its row could not be read; a recorded output never displaces a
  funding output; and nothing is watched that no such row names.
\<close>

theorem watch_set_fails_safe:
  assumes "Build parse br d = (d', Inr ws)"
  shows "(\<forall>c \<in> set (t_channels d). chRelevance c \<noteq> Irrelevant \<longrightarrow>
      (case outpointOf parse (chFundingTxID c) (chFundingVout c) of
         Inl why \<Rightarrow> \<lparr>skWhat = ''channel '' @ itoa (chID c), skWhy = why\<rparr> \<in> set (wsSkipped ws)
       | Inr op \<Rightarrow> (\<exists>c' \<in> set (t_channels d). watches parse op c' \<and> Lookup op ws = Some (funding_target op c'))))
    \<and> (\<forall>op t. Lookup op ws = Some t \<longrightarrow>
      (\<exists>c \<in> set (t_channels d). watches parse op c \<and> t = funding_target op c)
      \<or> (\<exists>w \<in> set (t_outpoints d). woBranch w = br \<and> follows parse op w \<and> t = output_target op w))"
proof (intro conjI ballI impI allI)
  fix c assume c: "c \<in> set (t_channels d)" "chRelevance c \<noteq> Irrelevant"
  show "case outpointOf parse (chFundingTxID c) (chFundingVout c) of
         Inl why \<Rightarrow> \<lparr>skWhat = ''channel '' @ itoa (chID c), skWhy = why\<rparr> \<in> set (wsSkipped ws)
       | Inr op \<Rightarrow> (\<exists>c' \<in> set (t_channels d). watches parse op c' \<and> Lookup op ws = Some (funding_target op c'))"
  proof (cases "outpointOf parse (chFundingTxID c) (chFundingVout c)")
    case (Inl why)
    from Build_Inr [OF assms] c obtain cs os where "c \<in> set cs"
      "ws = fold (add_output parse) os (fold (add_channel parse) cs \<lparr>wsTargets = [], wsSkipped = []\<rparr>)" by blast
    with skipped_channel [OF _ c(2) Inl] skipped_kept(2) Inl show ?thesis by fastforce
  next
    case (Inr op)
    with c have "watches parse op c" by (simp add: watches_def)
    with c(1) Build_Lookup(1,3) [OF assms, of op] Inr show ?thesis by (cases "Lookup op ws") auto
  qed
next
  fix op t assume "Lookup op ws = Some t"
  then show "(\<exists>c \<in> set (t_channels d). watches parse op c \<and> t = funding_target op c)
      \<or> (\<exists>w \<in> set (t_outpoints d). woBranch w = br \<and> follows parse op w \<and> t = output_target op w)"
    using Build_Lookup(3) [OF assms] by blast
qed

definition demo_txid :: string where
  "demo_txid = replicate 63 (CHR ''0'') @ ''1''"

definition demo_parse :: "string \<Rightarrow> nat option" where
  "demo_parse s = (if s = demo_txid then Some 1 else None)"

theorem watch_set_fails_safe_witness:
  "\<exists>ws. Build demo_parse BranchSQ (empty_db\<lparr>t_channels := [demo_channel\<lparr>chFundingTxID := demo_txid\<rparr>]\<rparr>)
      = (empty_db\<lparr>t_channels := [demo_channel\<lparr>chFundingTxID := demo_txid\<rparr>]\<rparr>, Inr ws)
    \<and> Lookup \<lparr>opHash = 1, opIndex = 0\<rparr> ws = Some (funding_target \<lparr>opHash = 1, opIndex = 0\<rparr> demo_channel)"
proof -
  let ?c = "demo_channel\<lparr>chFundingTxID := demo_txid\<rparr>"
  let ?d = "empty_db\<lparr>t_channels := [?c]\<rparr>"
  obtain ws where b: "Build demo_parse BranchSQ ?d = (?d, Inr ws)"
    by (simp add: Build_def ListChannels_def ListWatchOutpoints_def db_read_def db_call_def empty_db_def)
  have "outpointOf demo_parse demo_txid 0 = Inr \<lparr>opHash = 1, opIndex = 0\<rparr>"
    by (simp add: outpointOf_def demo_parse_def demo_txid_def MaxHashStringSize_def)
  then have "Lookup \<lparr>opHash = 1, opIndex = 0\<rparr> ws = Some (funding_target \<lparr>opHash = 1, opIndex = 0\<rparr> ?c)"
    using watch_set_fails_safe [OF b] by (simp add: demo_channel_def)
  moreover have "funding_target op ?c = funding_target op demo_channel" for op
    by (simp add: funding_target_def)
  ultimately show ?thesis using b by auto
qed

section \<open>What a scan finds\<close>

lemma set_map_filter: "set (List.map_filter f xs) = {y. \<exists>x \<in> set xs. f x = Some y}"
  by (force simp: List.map_filter_def)

lemma map_filter_enumerate:
  "y \<in> set (List.map_filter f (enumerate 0 xs)) \<longleftrightarrow> (\<exists>j < length xs. f (j, xs ! j) = Some y)"
proof
  assume "y \<in> set (List.map_filter f (enumerate 0 xs))"
  then show "\<exists>j < length xs. f (j, xs ! j) = Some y"
    by (auto simp: set_map_filter in_set_enumerate_eq)
next
  assume "\<exists>j < length xs. f (j, xs ! j) = Some y"
  then obtain j where "j < length xs" "f (j, xs ! j) = Some y" by blast
  then have "(j, xs ! j) \<in> set (enumerate 0 xs)" by (simp add: in_set_enumerate_eq)
  with \<open>f (j, xs ! j) = Some y\<close> show "y \<in> set (List.map_filter f (enumerate 0 xs))"
    unfolding set_map_filter by blast
qed

lemma in_scanTx:
  "m \<in> set (scanTx txid (Some tx) ws i) \<longleftrightarrow>
     (\<not> isCoinbase tx \<and> (\<exists>j < length (TxIn tx). \<exists>t. Lookup (PreviousOutPoint (TxIn tx ! j)) ws = Some t
        \<and> m = \<lparr>maTarget = t, maTx = tx, maTxID = txid tx, maTxIndex = i, maInputIndex = j\<rparr>))"
  by (auto simp: scanTx_def map_filter_enumerate)

definition before :: "match \<Rightarrow> match \<Rightarrow> bool" where
  "before m m' \<longleftrightarrow> maTxIndex m < maTxIndex m' \<or> maTxIndex m = maTxIndex m' \<and> maInputIndex m < maInputIndex m'"

lemma sorted_inputs:
  assumes "\<And>j i m. f (j, i) = Some m \<Longrightarrow> maTxIndex m = k \<and> maInputIndex m = j"
  shows "sorted_wrt before (List.map_filter f (enumerate n xs))
    \<and> (\<forall>m \<in> set (List.map_filter f (enumerate n xs)). maTxIndex m = k \<and> n \<le> maInputIndex m)"
proof (induction xs arbitrary: n)
  case (Cons x xs)
  show ?case
    using Cons [of "Suc n"] assms [of n x]
    by (cases "f (n, x)") (auto simp: List.map_filter_simps before_def)
qed (simp add: List.map_filter_simps)

lemma scanTx_order: "sorted_wrt before (scanTx txid (Some tx) ws i)"
proof -
  let ?f = "\<lambda>(inputIndex, x). map_option
      (\<lambda>tg. \<lparr>maTarget = tg, maTx = tx, maTxID = txid tx, maTxIndex = i, maInputIndex = inputIndex\<rparr>)
      (Lookup (PreviousOutPoint x) ws)"
  have "maTxIndex m = i \<and> maInputIndex m = j" if "?f (j, x) = Some m" for j x m
    using that by auto
  then have "sorted_wrt before (List.map_filter ?f (enumerate 0 (TxIn tx)))"
    using sorted_inputs [of ?f i 0 "TxIn tx"] by blast
  then show ?thesis by (simp add: scanTx_def)
qed

lemma scan_order:
  "sorted_wrt before (concat (map (\<lambda>(i, tx). scanTx txid (Some tx) ws i) (enumerate n txs)))
   \<and> (\<forall>m \<in> set (concat (map (\<lambda>(i, tx). scanTx txid (Some tx) ws i) (enumerate n txs))). n \<le> maTxIndex m)"
proof (induction txs arbitrary: n)
  case (Cons tx txs)
  let ?here = "scanTx txid (Some tx) ws n"
  let ?rest = "concat (map (\<lambda>(i, tx). scanTx txid (Some tx) ws i) (enumerate (Suc n) txs))"
  have here: "\<forall>m \<in> set ?here. maTxIndex m = n" by (auto simp: in_scanTx)
  have rest: "sorted_wrt before ?rest" "\<forall>m \<in> set ?rest. Suc n \<le> maTxIndex m"
    using Cons [of "Suc n"] by blast+
  have "sorted_wrt before (?here @ ?rest)"
    unfolding sorted_wrt_append
  proof (intro conjI ballI)
    fix m m' assume "m \<in> set ?here" "m' \<in> set ?rest"
    then have "maTxIndex m = n" "Suc n \<le> maTxIndex m'" using here rest(2) by blast+
    then show "before m m'" by (simp add: before_def)
  qed (rule scanTx_order rest(1))+
  moreover have "\<forall>m \<in> set (?here @ ?rest). n \<le> maTxIndex m"
  proof
    fix m assume "m \<in> set (?here @ ?rest)"
    then have "m \<in> set ?here \<or> m \<in> set ?rest" by (simp only: set_append Un_iff)
    then show "n \<le> maTxIndex m"
    proof
      assume "m \<in> set ?here"
      with here show ?thesis by simp
    next
      assume "m \<in> set ?rest"
      with rest(2) have "Suc n \<le> maTxIndex m" by blast
      then show ?thesis by simp
    qed
  qed
  ultimately show ?case by simp
qed simp

lemma in_ScanBlock:
  "m \<in> set (ScanBlock txid (Some txs) ws) \<longleftrightarrow>
       (maTxIndex m < length txs \<and> maTx m = txs ! maTxIndex m \<and> maTxID m = txid (maTx m)
        \<and> \<not> isCoinbase (maTx m) \<and> maInputIndex m < length (TxIn (maTx m))
        \<and> Lookup (PreviousOutPoint (TxIn (maTx m) ! maInputIndex m)) ws = Some (maTarget m))"
proof (cases "Empty ws")
  case True
  then have "Lookup op ws = None" for op by (simp add: Empty_def Lookup_def)
  with True show ?thesis by (simp add: ScanBlock_def)
next
  case False
  then have "m \<in> set (ScanBlock txid (Some txs) ws) \<longleftrightarrow> (\<exists>i < length txs. m \<in> set (scanTx txid (Some (txs ! i)) ws i))"
    by (force simp: ScanBlock_def in_set_enumerate_eq)
  then show ?thesis by (cases m) (auto simp: in_scanTx)
qed

text \<open>
  C23: a scan finds every spend of a watched outpoint and nothing else: a block's matches are
  exactly the inputs, of transactions that are not the coinbase, whose previous outpoint is in
  the set, each once, with what was watched there, in the order of the block.
\<close>

theorem scan_exact:
  "sorted_wrt before (ScanBlock txid (Some txs) ws)
   \<and> (m \<in> set (ScanBlock txid (Some txs) ws) \<longleftrightarrow>
       (maTxIndex m < length txs \<and> maTx m = txs ! maTxIndex m \<and> maTxID m = txid (maTx m)
        \<and> \<not> isCoinbase (maTx m) \<and> maInputIndex m < length (TxIn (maTx m))
        \<and> Lookup (PreviousOutPoint (TxIn (maTx m) ! maInputIndex m)) ws = Some (maTarget m)))"
  using scan_order [of txid ws 0 txs] in_ScanBlock [of m txid txs ws] by (simp add: ScanBlock_def)

end
