(* ===== verification/Watcher.thy ===== *)
theory Watcher
  imports Store_State Watch_Set
begin

text \<open>
  The watcher of one chain: \<open>internal/watcher/watcher.go\<close>, \<open>internal/watcher/reorg.go\<close>,
  \<open>internal/watcher/rescan.go\<close>, \<open>internal/watcher/mempool.go\<close> and the writing half of
  \<open>internal/watcher/secondorder.go\<close>. The watcher is one goroutine, so its loop is a sequence of
  handled events, each a function of the state. The state extends the tables with what the
  watcher keeps in memory and with what it published.

  What is outside the repository is the record \<open>outside\<close>: printing and parsing of hashes,
  transaction ids and serialisation, and the answers of the chain view. A view may answer
  differently from call to call, so each of its functions takes the number of the call, and the
  state counts them. The clock is read once per event, in whole seconds. Cancellation by
  shutdown, log lines and the pause between attempts are left out.
\<close>

section \<open>State\<close>

record outside =
  libPrint :: "nat \<Rightarrow> string"
  libParse :: "string \<Rightarrow> nat option"
  libTxHash :: "msg_tx \<Rightarrow> nat"
  libRawTx :: "msg_tx \<Rightarrow> string"
  viewHashByHeight :: "nat \<Rightarrow> int \<Rightarrow> view_err + hash"
  viewHeader :: "nat \<Rightarrow> hash \<Rightarrow> view_err + block_meta"
  viewMatch :: "nat \<Rightarrow> hash \<Rightarrow> chain_watch_set \<Rightarrow> view_err + bool"
  viewBlock :: "nat \<Rightarrow> hash \<Rightarrow> view_err + msg_tx list"
  viewHealth :: "nat \<Rightarrow> view_err + bool \<times> int"
  guardPaused :: bool

record config =
  cfMaxReorgDepth :: int
  cfMaxForwardGap :: int
  cfBlockAttempts :: int

definition DefaultMaxReorgDepth :: int where "DefaultMaxReorgDepth = 100"
definition DefaultMaxForwardGap :: int where "DefaultMaxForwardGap = 2000"
definition DefaultBlockAttempts :: int where "DefaultBlockAttempts = 3"
definition maxSamePasses :: nat where "maxSamePasses = 8"
definition rescanChunk :: nat where "rescanChunk = 25"
definition replayingCheckEvery :: int where "replayingCheckEvery = 30"

definition withDefaults :: "config \<Rightarrow> config" where
  "withDefaults c =
     (let c = (if cfMaxForwardGap c \<le> 0 then c\<lparr>cfMaxForwardGap := DefaultMaxForwardGap\<rparr> else c);
          c = (if cfMaxReorgDepth c \<le> 0 then c\<lparr>cfMaxReorgDepth := DefaultMaxReorgDepth\<rparr> else c)
      in if cfBlockAttempts c \<le> 0 then c\<lparr>cfBlockAttempts := DefaultBlockAttempts\<rparr> else c)"

record progress =
  prHeight :: int
  prHash :: string
  prAt :: int
  prStalled :: bool
  prStalledAt :: int
  prWhy :: string
  prRescanNext :: int
  prRescanTarget :: int

definition Rescanning :: "progress \<Rightarrow> bool" where
  "Rescanning p \<longleftrightarrow> 0 < prRescanTarget p \<and> prRescanNext p \<le> prRescanTarget p"

definition Progressing :: "progress \<Rightarrow> bool" where
  "Progressing p \<longleftrightarrow> \<not> prStalled p \<and> 0 < prHeight p"

text \<open>A block by both halves; the zero hash means there is none.\<close>

record wref =
  wrHeight :: int
  wrHash :: hash

definition wr_known :: "wref \<Rightarrow> bool" where "wr_known r \<longleftrightarrow> wrHash r \<noteq> 0"
definition no_ref :: wref where "no_ref = \<lparr>wrHeight = 0, wrHash = 0\<rparr>"

record sweep =
  swNext :: int
  swTarget :: int

definition pending :: "sweep \<Rightarrow> bool" where
  "pending s \<longleftrightarrow> 0 < swTarget s \<and> swNext s \<le> swTarget s"

datatype watch_event =
    WFundingSpent int int branch string spend_shape int
  | WSecondOrderSpent int int outpoint_role spend_shape
  | WSpendReorgedOut int branch
  | WMempoolSighting int int branch string spend_shape
  | WAlertRaised int tier string

record watcher = state_db +
  wBranch :: branch
  wCfg :: config
  wSet :: watch_set
  wLast :: wref
  wProgress :: progress
  wReplaying :: bool
  wReplayingAt :: "int option"
  wReplayingSeen :: bool
  wCheckedStanding :: bool
  wActiveBest :: int
  wStrayNoted :: bool
  wSweep :: sweep
  wBlockedSweep :: bool
  wPausedNoted :: bool
  wNudge :: bool
  wPublished :: "watch_event list"
  wCalls :: nat

datatype scan_err = ReadFailed | WriteFailed | StartOfChain | ReplacedTooDeep

definition wpublish :: "watch_event \<Rightarrow> watcher \<Rightarrow> watcher" where
  "wpublish ev w = w\<lparr>wPublished := wPublished w @ [ev]\<rparr>"

definition ask :: "(nat \<Rightarrow> 'a) \<Rightarrow> watcher \<Rightarrow> watcher \<times> 'a" where
  "ask f w = (w\<lparr>wCalls := wCalls w + 1\<rparr>, f (wCalls w))"

definition toInt32 :: "int \<Rightarrow> int option" where
  "toInt32 v = (if v < - (2 ^ 31) \<or> 2 ^ 31 - 1 < v then None else Some v)"

section \<open>Alerts\<close>

definition StalledAlertKind :: string where "StalledAlertKind = ''watcher_stalled''"
definition DeepReorgAlertKind :: string where "DeepReorgAlertKind = ''watcher_deep_reorg''"

definition watcher_alert :: "tier \<Rightarrow> string \<Rightarrow> int \<Rightarrow> string \<Rightarrow> string \<Rightarrow> alert" where
  "watcher_alert t kind now subject msg =
     \<lparr>alID = 0, alTier = t, alKind = kind, alDedupKey = kind, alSubject = subject, alMessage = msg,
      alCreatedAt = now, alLastRaisedAt = now, alAckedAt = None\<rparr>"

definition raise :: "int \<Rightarrow> string \<Rightarrow> string \<Rightarrow> string \<Rightarrow> watcher \<Rightarrow> watcher" where
  "raise now kind subject msg w =
     (case UpsertAlert (watcher_alert TierCritical kind now subject msg) w of
        (w1, Inl _) \<Rightarrow> w1
      | (w1, Inr up) \<Rightarrow> if \<not> Notify up then w1 else wpublish (WAlertRaised (upID up) TierCritical kind) w1)"

definition resolve :: "int \<Rightarrow> string \<Rightarrow> string \<Rightarrow> string \<Rightarrow> watcher \<Rightarrow> watcher" where
  "resolve now kind subject msg w =
     (case ResolveAlert (watcher_alert TierResolved kind now subject msg) [] w of
        (w1, Inl _) \<Rightarrow> w1
      | (w1, Inr i) \<Rightarrow> if i \<noteq> 0 then wpublish (WAlertRaised i TierResolved kind) w1 else w1)"

definition closeStanding :: "int \<Rightarrow> watcher \<Rightarrow> watcher" where
  "closeStanding now w =
     resolve now DeepReorgAlertKind ''Forktower is watching the other chain again''
       ''It has confirmed which chain that backend is following, and is reading it again. Anything reported while it was stopped stands as a record of what was seen at the time.''
       (resolve now StalledAlertKind ''Forktower is reading the other chain again''
         ''Whatever stopped it has passed, and blocks are being checked again.'' w)"

definition closeStandingOnce :: "int \<Rightarrow> watcher \<Rightarrow> watcher" where
  "closeStandingOnce now w =
     (if wCheckedStanding w then w else closeStanding now (w\<lparr>wCheckedStanding := True\<rparr>))"

definition clearStall :: "int \<Rightarrow> watcher \<Rightarrow> watcher" where
  "clearStall now w =
     (let was = prStalled (wProgress w);
          first = \<not> wCheckedStanding w;
          w1 = w\<lparr>wCheckedStanding := True,
                 wProgress := (wProgress w)\<lparr>prStalled := False, prStalledAt := 0, prWhy := ''''\<rparr>\<rparr>
      in if \<not> was \<and> \<not> first then w1 else closeStanding now w1)"

definition stall :: "int \<Rightarrow> int \<Rightarrow> watcher \<Rightarrow> watcher" where
  "stall now height w =
     (let already = (prStalled (wProgress w) \<and> prStalledAt (wProgress w) = height);
          w1 = w\<lparr>wProgress := (wProgress w)\<lparr>prStalled := True, prStalledAt := height,
                 prWhy := ''a block on the other chain could not be read after several tries''\<rparr>\<rparr>
      in if already then w1
         else raise now StalledAlertKind ''Forktower has stopped scanning the other chain''
           ''A block on the other chain could not be read after several tries, so nothing new is being checked. Forktower is still running, which is exactly why this needs saying: everything else will look normal.'' w1)"

definition deepReorg :: "int \<Rightarrow> int \<Rightarrow> watcher \<Rightarrow> watcher" where
  "deepReorg now height w =
     (let w1 = raise now DeepReorgAlertKind ''Forktower stopped watching the other chain''
           ''The other chain changed further back than a normal reorganisation reaches. Forktower has stopped scanning it rather than risk reporting on the wrong chain, and will start again once it has confirmed which chain that backend is following.'' w
      in w1\<lparr>wProgress := (wProgress w1)\<lparr>prStalled := True, prStalledAt := height,
           prWhy := ''the other chain changed further back than a normal reorganisation reaches, so scanning stopped''\<rparr>\<rparr>)"

section \<open>Recording what a block holds\<close>

definition rebuild :: "outside \<Rightarrow> watcher \<Rightarrow> watcher" where
  "rebuild env w =
     (case Build (libParse env) (wBranch w) w of
        (w1, Inl _) \<Rightarrow> w1
      | (w1, Inr ws) \<Rightarrow> w1\<lparr>wSet := ws\<rparr>)"

definition ourCloseTxID :: "int \<Rightarrow> watcher \<Rightarrow> watcher \<times> string" where
  "ourCloseTxID channelID w =
     (if channelID = 0 then (w, '''')
      else
        (case ListChannels all_channels w of
           (w1, Inl _) \<Rightarrow> (w1, '''')
         | (w1, Inr cs) \<Rightarrow> (w1, case find (\<lambda>c. chID c = channelID) cs of None \<Rightarrow> '''' | Some c \<Rightarrow> chCloseTxID c)))"

definition shapeOf :: "outside \<Rightarrow> match \<Rightarrow> int \<Rightarrow> watcher \<Rightarrow> watcher \<times> spend_shape" where
  "shapeOf env m height w =
     (if tgKind (maTarget m) = KindFunding
      then
        (case ourCloseTxID (tgChannelID (maTarget m)) w of
           (w1, ours) \<Rightarrow>
             (w1, ClassifyShape \<lparr>sfTx = Some (maTx m), sfTxID = libPrint env (maTxID m), sfOurCloseTxID = ours\<rparr>))
      else
        (w, ClassifySweep \<lparr>swTx = Some (maTx m), swInputIndex = int (maInputIndex m), swRole = tgRole (maTarget m),
                           swSpendHeight = height, swDeadlineHeight = 0\<rparr>))"

definition watchCommitmentOutputs :: "outside \<Rightarrow> match \<Rightarrow> int \<Rightarrow> watcher \<Rightarrow> watcher" where
  "watchCommitmentOutputs env m spendID w =
     fold (\<lambda>out w. fst (AddWatchOutpoint out w))
       (CommitmentOutputs (libPrint env (maTxID m)) (Some (maTx m)) (wBranch w) spendID) w"

definition followCommitment :: "outside \<Rightarrow> int \<Rightarrow> match \<Rightarrow> spend_shape \<Rightarrow> watcher \<Rightarrow> watcher" where
  "followCommitment env i m shape w =
     (if shape = ShapeCommitmentOurs \<or> shape = ShapeCommitmentUnknown \<or> shape = ShapeCommitmentRevoked
      then watchCommitmentOutputs env m i w else w)"

definition announce :: "outside \<Rightarrow> match \<Rightarrow> int \<Rightarrow> int \<Rightarrow> spend_shape \<Rightarrow> watcher \<Rightarrow> watcher" where
  "announce env m i height shape w =
     (if tgKind (maTarget m) = KindFunding
      then wpublish (WFundingSpent i (tgChannelID (maTarget m)) (wBranch w) (libPrint env (maTxID m)) shape height) w
      else wpublish (WSecondOrderSpent i (tgSourceSpendEventID (maTarget m)) (tgRole (maTarget m)) shape) w)"

definition resolveSource :: "int \<Rightarrow> match \<Rightarrow> spend_shape \<Rightarrow> watcher \<Rightarrow> watcher" where
  "resolveSource now m shape w =
     (if shape \<noteq> ShapeJustice \<or> tgSourceSpendEventID (maTarget m) = 0 then w
      else
        (case GetSpend (tgSourceSpendEventID (maTarget m)) w of
           (w1, Inl _) \<Rightarrow> w1
         | (w1, Inr source) \<Rightarrow>
             if spShape source \<noteq> ShapeCommitmentUnknown then w1
             else fst (UpdateSpendShape (spID source) ShapeCommitmentRevoked now w1)))"

definition confirmIfPending ::
  "outside \<Rightarrow> int \<Rightarrow> int \<Rightarrow> match \<Rightarrow> block_ref \<Rightarrow> spend_shape \<Rightarrow> watcher \<Rightarrow> watcher \<times> (scan_err + bool)" where
  "confirmIfPending env now i m meta shape w =
     (case GetSpend i w of
        (w1, Inl _) \<Rightarrow> (w1, Inl ReadFailed)
      | (w1, Inr sp) \<Rightarrow>
          if spStatus sp = SpendConfirmed \<and> spBlockHash sp = libPrint env (Hash meta) then (w1, Inr False)
          else
            (case UpdateSpendStatus i SpendConfirmed (libPrint env (Hash meta)) (Height meta) now w1 of
               (w2, Inl _) \<Rightarrow> (w2, Inl WriteFailed)
             | (w2, Inr _) \<Rightarrow>
                 (announce env m i (Height meta) shape (followCommitment env i m (spShape sp) w2), Inr True)))"

definition spend_row :: "outside \<Rightarrow> int \<Rightarrow> match \<Rightarrow> string \<Rightarrow> int \<Rightarrow> spend_shape \<Rightarrow> spend_status \<Rightarrow> branch \<Rightarrow> spend" where
  "spend_row env now m blockHash height shape status br =
     \<lparr>spID = 0, spBranch = br, spChannelID = tgChannelID (maTarget m),
      spOutpointTxID = libPrint env (opHash (tgOutpoint (maTarget m))),
      spOutpointVout = uint (opIndex (tgOutpoint (maTarget m))),
      spSpendTxID = libPrint env (maTxID m), spSpendTxHex = libRawTx env (maTx m),
      spBlockHash = blockHash, spBlockHeight = height, spShape = shape, spStatus = status,
      spFirstSeenAt = now, spUpdatedAt = now\<rparr>"

text \<open>One round of the loop of \<open>recordMatches\<close>: how many of its spends are news.\<close>

definition record_match :: "outside \<Rightarrow> int \<Rightarrow> block_ref \<Rightarrow> match \<Rightarrow> watcher \<Rightarrow> watcher \<times> (scan_err + nat)" where
  "record_match env now meta m w =
     (if toInt32 (uint (opIndex (tgOutpoint (maTarget m)))) = None then (w, Inr 0)
      else
        (case shapeOf env m (Height meta) w of
           (w1, shape) \<Rightarrow>
             (case RecordSpend (spend_row env now m (libPrint env (Hash meta)) (Height meta) shape SpendConfirmed (wBranch w1)) w1 of
                (w2, Inl _) \<Rightarrow> (w2, Inl WriteFailed)
              | (w2, Inr (i, existed)) \<Rightarrow>
                  if existed
                  then
                    (case confirmIfPending env now i m meta shape w2 of
                       (w3, Inl e) \<Rightarrow> (w3, Inl e)
                     | (w3, Inr changed) \<Rightarrow> (w3, Inr (if changed then 1 else 0)))
                  else
                    (announce env m i (Height meta) shape
                       (resolveSource now m shape (followCommitment env i m shape w2)), Inr 1))))"

fun recordMatches :: "outside \<Rightarrow> int \<Rightarrow> block_ref \<Rightarrow> match list \<Rightarrow> watcher \<Rightarrow> watcher \<times> (scan_err + nat)" where
  "recordMatches env now meta [] w = (w, Inr 0)"
| "recordMatches env now meta (m # ms) w =
     (case record_match env now meta m w of
        (w1, Inl e) \<Rightarrow> (w1, Inl e)
      | (w1, Inr k) \<Rightarrow>
          (case recordMatches env now meta ms w1 of
             (w2, Inl e) \<Rightarrow> (w2, Inl e)
           | (w2, Inr n) \<Rightarrow> (w2, Inr (k + n))))"

text \<open>The passes over one block; \<open>n\<close> are left, and every one but the first re-reads the set.\<close>

fun passes :: "nat \<Rightarrow> bool \<Rightarrow> outside \<Rightarrow> int \<Rightarrow> block_ref \<Rightarrow> msg_tx list \<Rightarrow> watcher \<Rightarrow> watcher \<times> (scan_err + unit)" where
  "passes 0 again env now meta blk w = (w, Inr ())"
| "passes (Suc n) again env now meta blk w =
     (let w1 = (if again then rebuild env w else w)
      in case recordMatches env now meta (ScanBlock (libTxHash env) (Some blk) (wSet w1)) w1 of
           (w2, Inl e) \<Rightarrow> (w2, Inl e)
         | (w2, Inr recorded) \<Rightarrow>
             if recorded = 0 then (w2, Inr ()) else passes n True env now meta blk w2)"

definition processBlock :: "outside \<Rightarrow> int \<Rightarrow> block_ref \<Rightarrow> watcher \<Rightarrow> watcher \<times> (scan_err + unit)" where
  "processBlock env now meta w =
     (if Empty (wSet w) then (w, Inr ())
      else
        (case ask (\<lambda>n. viewMatch env n (Hash meta) (ChainViewSet (libPrint env) (wSet w))) w of
           (w1, Inl _) \<Rightarrow> (w1, Inl ReadFailed)
         | (w1, Inr possible) \<Rightarrow>
             if \<not> possible then (w1, Inr ())
             else
               (case ask (\<lambda>n. viewBlock env n (Hash meta)) w1 of
                  (w2, Inl _) \<Rightarrow> (w2, Inl ReadFailed)
                | (w2, Inr blk) \<Rightarrow> passes maxSamePasses False env now meta blk w2)))"

text \<open>\<open>n\<close> attempts.\<close>

fun attempts :: "nat \<Rightarrow> outside \<Rightarrow> int \<Rightarrow> block_ref \<Rightarrow> watcher \<Rightarrow> watcher \<times> (scan_err + unit)" where
  "attempts 0 env now meta w = (w, Inr ())"
| "attempts (Suc n) env now meta w =
     (case processBlock env now meta w of
        (w1, Inr _) \<Rightarrow> (w1, Inr ())
      | (w1, Inl e) \<Rightarrow> if n = 0 then (w1, Inl e) else attempts n env now meta w1)"

definition processWithRetries :: "outside \<Rightarrow> int \<Rightarrow> block_ref \<Rightarrow> watcher \<Rightarrow> watcher \<times> (scan_err + unit)" where
  "processWithRetries env now meta w = attempts (nat (cfBlockAttempts (wCfg w))) env now meta w"

section \<open>The high-water mark\<close>

definition commitMark :: "outside \<Rightarrow> int \<Rightarrow> wref \<Rightarrow> watcher \<Rightarrow> watcher" where
  "commitMark env now ref w =
     (case SetMetaInt64 MetaLastScannedSQHeight (wrHeight ref) w of
        (w1, Inl _) \<Rightarrow> w1
      | (w1, Inr _) \<Rightarrow>
          (case SetMeta MetaLastScannedSQHash (libPrint env (wrHash ref)) w1 of
             (w2, Inl _) \<Rightarrow> w2
           | (w2, Inr _) \<Rightarrow>
               w2\<lparr>wLast := ref, wProgress := (wProgress w2)\<lparr>prHeight := wrHeight ref,
                    prHash := libPrint env (wrHash ref), prAt := now\<rparr>\<rparr>))"

definition ref_of :: "'x block_ref_scheme \<Rightarrow> wref" where
  "ref_of b = \<lparr>wrHeight = Height b, wrHash = Hash b\<rparr>"

fun processTo :: "outside \<Rightarrow> int \<Rightarrow> block_meta list \<Rightarrow> watcher \<Rightarrow> watcher" where
  "processTo env now [] w = clearStall now w"
| "processTo env now (b # bs) w =
     (case processWithRetries env now (block_ref.truncate b) w of
        (w1, Inl _) \<Rightarrow> stall now (Height b) w1
      | (w1, Inr _) \<Rightarrow> processTo env now bs (commitMark env now (ref_of b) w1))"

section \<open>Reorganisations\<close>

definition rollBackAbove :: "int \<Rightarrow> int \<Rightarrow> watcher \<Rightarrow> watcher" where
  "rollBackAbove now height w =
     (case ListSpends \<lparr>sfBranch = wBranch w, sfChannelID = 0, sfStatus = SpendConfirmed, sfShape = ShapeOther '''',
                       sfLimit = MaxSpendLimit\<rparr> w of
        (w1, Inl _) \<Rightarrow> w1
      | (w1, Inr sps) \<Rightarrow>
          fold (\<lambda>sp w.
            if spBlockHeight sp \<le> height then w
            else
              (case UpdateSpendStatus (spID sp) SpendReorgedOut (spBlockHash sp) (spBlockHeight sp) now w of
                 (w2, Inl _) \<Rightarrow> w2
               | (w2, Inr _) \<Rightarrow> wpublish (WSpendReorgedOut (spID sp) (wBranch w2)) w2)) sps w1)"

definition knownHashes :: "outside \<Rightarrow> wref \<Rightarrow> watcher \<Rightarrow> watcher \<times> (scan_err + (hash \<times> int) list)" where
  "knownHashes env lastRef w =
     (case RecentBranchHashes (wBranch w) (cfMaxReorgDepth (wCfg w)) w of
        (w1, Inl _) \<Rightarrow> (w1, Inl ReadFailed)
      | (w1, Inr recent) \<Rightarrow>
          (w1, Inr (fold (\<lambda>s out.
              case libParse env s of
                None \<Rightarrow> out
              | Some h \<Rightarrow> if map_of out h \<noteq> None then out else out @ [(h, 0)])
             recent (if wr_known lastRef then [(wrHash lastRef, wrHeight lastRef)] else []))))"

text \<open>The walk; \<open>path\<close> is what it has collected, oldest first.\<close>

fun walk_loop :: "nat \<Rightarrow> outside \<Rightarrow> (hash \<times> int) list \<Rightarrow> block_meta \<Rightarrow> block_meta list \<Rightarrow> watcher
    \<Rightarrow> watcher \<times> (scan_err + block_meta list \<times> wref)" where
  "walk_loop 0 env known current path w = (w, Inl ReplacedTooDeep)"
| "walk_loop (Suc n) env known current path w =
     (case map_of known (PrevHash current) of
        Some height \<Rightarrow> (w, Inr (path, \<lparr>wrHeight = height, wrHash = PrevHash current\<rparr>))
      | None \<Rightarrow>
          if Height current \<le> 1 then (w, Inl StartOfChain)
          else
            (case ask (\<lambda>k. viewHeader env k (PrevHash current)) w of
               (w1, Inl _) \<Rightarrow> (w1, Inl ReadFailed)
             | (w1, Inr parent) \<Rightarrow> walk_loop n env known parent (parent # path) w1))"

definition walkBack :: "outside \<Rightarrow> int \<Rightarrow> block_meta \<Rightarrow> wref \<Rightarrow> watcher
    \<Rightarrow> watcher \<times> (scan_err + block_meta list \<times> wref)" where
  "walkBack env now tip lastRef w =
     (case knownHashes env lastRef w of
        (w1, Inl e) \<Rightarrow> (w1, Inl e)
      | (w1, Inr known) \<Rightarrow>
          (case walk_loop (nat (cfMaxReorgDepth (wCfg w1))) env known tip [tip] w1 of
             (w2, Inl ReplacedTooDeep) \<Rightarrow> (deepReorg now (Height tip) w2, Inl ReplacedTooDeep)
           | other \<Rightarrow> other))"

text \<open>The headers from \<open>height\<close> to just below the tip.\<close>

function forward_loop :: "outside \<Rightarrow> int \<Rightarrow> int \<Rightarrow> block_meta list \<Rightarrow> watcher \<Rightarrow> watcher \<times> (int + block_meta list)" where
  "forward_loop env height tipHeight path w =
     (if tipHeight \<le> height then (w, Inr path)
      else
        (case ask (\<lambda>n. viewHashByHeight env n height) w of
           (w1, Inl _) \<Rightarrow> (w1, Inl height)
         | (w1, Inr h) \<Rightarrow>
             (case ask (\<lambda>n. viewHeader env n h) w1 of
                (w2, Inl _) \<Rightarrow> (w2, Inl height)
              | (w2, Inr header) \<Rightarrow> forward_loop env (height + 1) tipHeight (path @ [header]) w2)))"
  by pat_completeness auto
termination by (relation "measure (\<lambda>(env, height, tipHeight, path, w). nat (tipHeight - height))") auto

declare forward_loop.simps [simp del]

definition grewForward :: "outside \<Rightarrow> int \<Rightarrow> block_meta \<Rightarrow> wref \<Rightarrow> watcher \<Rightarrow> watcher" where
  "grewForward env now tip lastRef w =
     (if cfMaxForwardGap (wCfg w) < i32 (Height tip - wrHeight lastRef) then commitMark env now (ref_of tip) w
      else
        (case forward_loop env (wrHeight lastRef + 1) (Height tip) [] w of
           (w1, Inl height) \<Rightarrow> stall now height w1
         | (w1, Inr path) \<Rightarrow> processTo env now (path @ [tip]) w1))"

definition replaced :: "outside \<Rightarrow> int \<Rightarrow> block_meta \<Rightarrow> wref \<Rightarrow> watcher \<Rightarrow> watcher" where
  "replaced env now tip lastRef w =
     (case walkBack env now tip lastRef w of
        (w1, Inl _) \<Rightarrow> stall now (Height tip) w1
      | (w1, Inr (path, attach)) \<Rightarrow>
          processTo env now path (if wrHeight attach < wrHeight lastRef then rollBackAbove now (wrHeight attach) w1 else w1))"

definition catchUp :: "outside \<Rightarrow> int \<Rightarrow> block_meta \<Rightarrow> wref \<Rightarrow> watcher \<Rightarrow> watcher" where
  "catchUp env now tip lastRef w =
     (if wrHeight lastRef < Height tip
      then
        (case ask (\<lambda>n. viewHashByHeight env n (wrHeight lastRef)) w of
           (w1, Inr still) \<Rightarrow>
             if still = wrHash lastRef then grewForward env now tip lastRef w1 else replaced env now tip lastRef w1
         | (w1, Inl _) \<Rightarrow> replaced env now tip lastRef w1)
      else replaced env now tip lastRef w)"

section \<open>Catching up behind the mark\<close>

definition setSweep :: "sweep \<Rightarrow> watcher \<Rightarrow> watcher" where
  "setSweep s w =
     (let w1 = w\<lparr>wSweep := s, wProgress := (wProgress w)\<lparr>prRescanNext := swNext s, prRescanTarget := swTarget s\<rparr>\<rparr>;
          w2 = (if pending s then w1\<lparr>wBlockedSweep := False\<rparr> else w1)
      in case SetMetaInt64 MetaRescanNextSQHeight (swNext s) w2 of
           (w3, Inl _) \<Rightarrow> w3
         | (w3, Inr _) \<Rightarrow> fst (SetMetaInt64 MetaRescanTargetSQHeight (swTarget s) w3))"

text \<open>Returns the range that was queued, if one was.\<close>

definition queueSweep :: "int \<Rightarrow> watcher \<Rightarrow> watcher \<times> (int \<times> int) option" where
  "queueSweep start w =
     (let start = (if start < 1 then 1 else start);
          target = wrHeight (wLast w);
          current = wSweep w
      in if target \<le> 0 then (w, None)
         else if target < start then (w, None)
         else
           (let nxt = (if pending current \<and> swNext current < start then swNext current else start);
                target = (if target < swTarget current then swTarget current else target)
            in ((setSweep \<lparr>swNext = nxt, swTarget = target\<rparr> w)\<lparr>wNudge := True\<rparr>, Some (nxt, target))))"

definition rescanFromFork :: "watcher \<Rightarrow> watcher \<times> (int \<times> int) option" where
  "rescanFromFork w =
     (case GetSplitState w of
        (w1, Inl _) \<Rightarrow> (w1, None)
      | (w1, Inr s) \<Rightarrow>
          if \<not> ForkKnown s \<or> slForkHeight s \<le> 0 then (w1, None)
          else queueSweep (i32 (slForkHeight s + 1)) w1)"

definition loadSweep :: "watcher \<Rightarrow> watcher" where
  "loadSweep w =
     (case GetMetaInt64 MetaRescanNextSQHeight 0 w of
        (w1, Inl _) \<Rightarrow> w1
      | (w1, Inr nxt) \<Rightarrow>
          (case GetMetaInt64 MetaRescanTargetSQHeight 0 w1 of
             (w2, Inl _) \<Rightarrow> w2
           | (w2, Inr target) \<Rightarrow>
               (case (toInt32 nxt, toInt32 target) of
                  (Some n, Some t) \<Rightarrow>
                    w2\<lparr>wSweep := \<lparr>swNext = n, swTarget = t\<rparr>,
                       wProgress := (wProgress w2)\<lparr>prRescanNext := n, prRescanTarget := t\<rparr>\<rparr>
                | _ \<Rightarrow> w2)))"

definition blockSweep :: "watcher \<Rightarrow> watcher" where
  "blockSweep w = w\<lparr>wBlockedSweep := True\<rparr>"

text \<open>The loop of one slice; \<open>None\<close> when it met a block that could not be read.\<close>

fun slice_loop :: "nat \<Rightarrow> outside \<Rightarrow> int \<Rightarrow> sweep \<Rightarrow> watcher \<Rightarrow> watcher \<times> sweep option" where
  "slice_loop 0 env now s w = (w, Some s)"
| "slice_loop (Suc n) env now s w =
     (if \<not> pending s then (w, Some s)
      else
        (case ask (\<lambda>k. viewHashByHeight env k (swNext s)) w of
           (w1, Inl _) \<Rightarrow> (blockSweep w1, None)
         | (w1, Inr h) \<Rightarrow>
             (case processWithRetries env now \<lparr>Hash = h, Height = swNext s\<rparr> w1 of
                (w2, Inl _) \<Rightarrow> (blockSweep w2, None)
              | (w2, Inr _) \<Rightarrow>
                  (let s1 = s\<lparr>swNext := i32 (swNext s + 1)\<rparr> in slice_loop n env now s1 (setSweep s1 w2)))))"

definition sweepSlice :: "outside \<Rightarrow> int \<Rightarrow> watcher \<Rightarrow> watcher \<times> bool" where
  "sweepSlice env now w =
     (if \<not> pending (wSweep w) \<or> wBlockedSweep w \<or> guardPaused env then (w, False)
      else
        (case slice_loop rescanChunk env now (wSweep w) w of
           (w1, None) \<Rightarrow> (w1, False)
         | (w1, Some s) \<Rightarrow> (if \<not> pending s then setSweep \<lparr>swNext = 0, swTarget = 0\<rparr> w1 else w1, True)))"

section \<open>Tips, transactions and events\<close>

text \<open>Whether the node is still replaying history, and the height it calls its best.\<close>

definition backendState :: "outside \<Rightarrow> int \<Rightarrow> watcher \<Rightarrow> watcher \<times> bool \<times> int" where
  "backendState env now w =
     (if (case wReplayingAt w of None \<Rightarrow> False | Some t \<Rightarrow> now - t < replayingCheckEvery)
      then (w, wReplaying w, wActiveBest w)
      else
        (case ask (\<lambda>n. viewHealth env n) w of
           (w1, Inl _) \<Rightarrow> (w1, False, 0)
         | (w1, Inr (replaying, best)) \<Rightarrow>
             (w1\<lparr>wReplaying := replaying, wActiveBest := best, wReplayingAt := Some now\<rparr>, replaying, best)))"

definition strayChainstate :: "watcher \<Rightarrow> int \<Rightarrow> int \<Rightarrow> bool" where
  "strayChainstate w activeBest height \<longleftrightarrow>
     (if activeBest \<le> 0 then False else height < i32 (activeBest - cfMaxReorgDepth (wCfg w)))"

text \<open>
  The second half of \<open>handleTip\<close>: the notes are cleared and a mark from another chainstate is
  discarded, then the tip is followed from the mark.
\<close>

definition settle_mark :: "int \<Rightarrow> watcher \<Rightarrow> watcher" where
  "settle_mark activeBest w2 =
     (let w3 = (if wReplayingSeen w2
                then w2\<lparr>wReplayingSeen := False, wProgress := (wProgress w2)\<lparr>prWhy := ''''\<rparr>\<rparr>
                else w2);
          w4 = w3\<lparr>wStrayNoted := False, wPausedNoted := False\<rparr>
      in if wr_known (wLast w4) \<and> strayChainstate w4 activeBest (wrHeight (wLast w4))
         then w4\<lparr>wLast := no_ref\<rparr> else w4)"

definition follow_tip :: "outside \<Rightarrow> int \<Rightarrow> block_meta \<Rightarrow> watcher \<Rightarrow> watcher" where
  "follow_tip env now tip w =
     (let lastRef = wLast w
      in if \<not> wr_known lastRef then commitMark env now (ref_of tip) w
         else if Hash tip = wrHash lastRef then w
         else
           (let w6 = w\<lparr>wBlockedSweep := False\<rparr>
            in if PrevHash tip = wrHash lastRef then processTo env now [tip] w6
               else catchUp env now tip lastRef w6))"

definition handleTip :: "outside \<Rightarrow> int \<Rightarrow> block_meta \<Rightarrow> watcher \<Rightarrow> watcher" where
  "handleTip env now tip w =
     (if guardPaused env then w\<lparr>wPausedNoted := True\<rparr>
      else
        (case backendState env now w of
           (w1, replaying, activeBest) \<Rightarrow>
             (let w2 = closeStandingOnce now w1
              in if replaying
                 then w2\<lparr>wReplayingSeen := True,
                        wProgress := (wProgress w2)\<lparr>prWhy :=
                          ''the other chain's node is still catching up, so there is nothing to watch yet''\<rparr>\<rparr>
                 else if strayChainstate w2 activeBest (Height tip) then w2\<lparr>wStrayNoted := True\<rparr>
                 else follow_tip env now tip (settle_mark activeBest w2))))"

definition mempool_match :: "outside \<Rightarrow> int \<Rightarrow> match \<Rightarrow> watcher \<Rightarrow> watcher" where
  "mempool_match env now m w =
     (if toInt32 (uint (opIndex (tgOutpoint (maTarget m)))) = None then w
      else
        (case shapeOf env m 0 w of
           (w1, shape) \<Rightarrow>
             (case RecordSpend (spend_row env now m '''' 0 shape SpendMempool (wBranch w1)) w1 of
                (w2, Inl _) \<Rightarrow> w2
              | (w2, Inr (i, existed)) \<Rightarrow>
                  if existed then w2
                  else wpublish (WMempoolSighting i (tgChannelID (maTarget m)) (wBranch w2)
                         (libPrint env (maTxID m)) shape) w2)))"

definition handleMempoolTx :: "outside \<Rightarrow> int \<Rightarrow> msg_tx option \<Rightarrow> watcher \<Rightarrow> watcher" where
  "handleMempoolTx env now tx w =
     (if guardPaused env then w
      else fold (mempool_match env now) (ScanTx (libTxHash env) tx (wSet w)) w)"

text \<open>
  What reaches the loop: the events the watcher subscribes to (with the new state of the split,
  and whether a channel is seen for the first time), tips, transactions, a slice of catching up
  when nothing else waits, and a rescan the user asks for.
\<close>

datatype watcher_input =
    SplitStateChanged split_state
  | WChannelUpserted bool
  | WChannelClosedSF
  | WTip block_meta
  | WMempoolTx "msg_tx option"
  | WSlice
  | WRescan int
  | WRescanFromFork

definition onEvent :: "outside \<Rightarrow> watcher_input \<Rightarrow> watcher \<Rightarrow> watcher" where
  "onEvent env ev w =
     (let w1 = rebuild env w
      in case ev of
           SplitStateChanged s \<Rightarrow> if s = StateSplit then fst (rescanFromFork w1) else w1
         | WChannelUpserted new \<Rightarrow> if new then fst (rescanFromFork w1) else w1
         | _ \<Rightarrow> w1)"

definition turn :: "watcher \<Rightarrow> outside \<times> int \<times> watcher_input \<Rightarrow> watcher" where
  "turn w i =
     (case i of (env, now, ev) \<Rightarrow>
        (case ev of
           WTip tip \<Rightarrow> handleTip env now tip w
         | WMempoolTx tx \<Rightarrow> handleMempoolTx env now tx w
         | WSlice \<Rightarrow> fst (sweepSlice env now w)
         | WRescan start \<Rightarrow> fst (queueSweep start w)
         | WRescanFromFork \<Rightarrow> fst (rescanFromFork w)
         | _ \<Rightarrow> onEvent env ev w))"

section \<open>Starting\<close>

definition last_of :: "outside \<Rightarrow> int \<Rightarrow> string \<Rightarrow> wref" where
  "last_of env height hashStr =
     (if hashStr \<noteq> '''' \<and> 0 < height
      then
        (case (libParse env hashStr, toInt32 height) of
           (Some h, Some n) \<Rightarrow>
             if length hashStr \<noteq> MaxHashStringSize then no_ref else \<lparr>wrHeight = n, wrHash = h\<rparr>
         | _ \<Rightarrow> no_ref)
      else no_ref)"

definition hashOrEmpty :: "outside \<Rightarrow> wref \<Rightarrow> string" where
  "hashOrEmpty env b = (if \<not> wr_known b then '''' else libPrint env (wrHash b))"

definition load :: "outside \<Rightarrow> watcher \<Rightarrow> watcher \<times> (scan_err + unit)" where
  "load env w =
     (case GetMetaInt64 MetaLastScannedSQHeight 0 w of
        (w1, Inl e) \<Rightarrow> (w1, Inl ReadFailed)
      | (w1, Inr height) \<Rightarrow>
          (case GetMeta MetaLastScannedSQHash w1 of
             (w2, r) \<Rightarrow>
               if r \<noteq> Inl StoreNotFound \<and> isl r then (w2, Inl ReadFailed)
               else
                 (let lastRef = last_of env height (case r of Inl _ \<Rightarrow> '''' | Inr s \<Rightarrow> s);
                      w3 = w2\<lparr>wLast := lastRef,
                             wProgress := \<lparr>prHeight = wrHeight lastRef, prHash = hashOrEmpty env lastRef, prAt = 0,
                               prStalled = False, prStalledAt = 0, prWhy = '''', prRescanNext = 0, prRescanTarget = 0\<rparr>\<rparr>
                  in (loadSweep (rebuild env w3), Inr ()))))"

end
