(* ===== verification/Watcher_Runs.thy ===== *)
theory Watcher_Runs
  imports Watcher
begin

text \<open>
  What the watcher keeps along every run of its loop: whatever the view answers and whichever
  calls of the store fail, the record of spends is append-only. Then what each operation does
  when it succeeds.
\<close>

section \<open>The record of spends\<close>

lemma spends_step_trans: "spends_step d e \<Longrightarrow> spends_step e f \<Longrightarrow> spends_step d f"
  unfolding spends_step_def by (blast intro: history_kept_trans)

lemma tables_step: "t_spends w' = t_spends w \<Longrightarrow> t_outpoints w' = t_outpoints w \<Longrightarrow> spends_step w w'"
  by (auto simp: spends_step_def spends_ok_def history_kept_def same_spend_def)

text \<open>Operations that leave spends and outpoints alone.\<close>

definition aside :: "watcher \<Rightarrow> watcher \<Rightarrow> bool" where
  "aside w w' \<longleftrightarrow> t_spends w' = t_spends w \<and> t_outpoints w' = t_outpoints w \<and> t_channels w' = t_channels w"

lemma aside_step: "aside w w' \<Longrightarrow> spends_step w w'"
  by (simp add: aside_def tables_step)

lemma aside_refl [simp]: "aside w w"
  by (simp add: aside_def)

lemma aside_trans: "aside u v \<Longrightarrow> aside v w \<Longrightarrow> aside u w"
  by (simp add: aside_def)

lemma db_read_aside: "aside w (fst (db_read f w))"
  by (auto simp: db_read_def db_call_def aside_def split: list.split)

lemma GetMeta_aside: "aside w (fst (GetMeta k w))"
  by (simp add: GetMeta_def db_read_aside)

lemma GetMetaInt64_aside: "aside w (fst (GetMetaInt64 k v w))"
proof -
  obtain w1 r where "GetMeta k w = (w1, r)" by fastforce
  then show ?thesis
    using GetMeta_aside [of w k] by (auto simp: GetMetaInt64_def split: sum.split store_err.split)
qed

lemma SetMeta_aside: "aside w (fst (SetMeta k v w))"
  by (auto simp: SetMeta_def db_call_def aside_def split: list.split)

lemma SetMetaInt64_aside: "aside w (fst (SetMetaInt64 k v w))"
  by (simp add: SetMetaInt64_def SetMeta_aside)

lemma reads_aside:
  "aside w (fst (ListChannels cf w))" "aside w (fst (GetSpend i w))" "aside w (fst (ListSpends sf w))"
  "aside w (fst (ListWatchOutpoints br w))" "aside w (fst (GetSplitState w))"
  "aside w (fst (RecentBranchHashes br n w))"
  by (simp_all add: ListChannels_def GetSpend_def ListSpends_def ListWatchOutpoints_def GetSplitState_def
      RecentBranchHashes_def Let_def db_read_aside)

lemma UpsertAlert_aside: "aside w (fst (UpsertAlert a w))"
  by (auto simp: UpsertAlert_def db_call_def aside_def insert_alert_def Let_def split: list.split option.split)

lemma ResolveAlert_aside: "aside w (fst (ResolveAlert a ks w))"
  by (auto simp: ResolveAlert_def db_call_def aside_def split: list.split option.split prod.split)

lemma Build_aside: "aside w (fst (Build p br w))"
proof -
  obtain w1 r where l: "ListChannels all_channels w = (w1, r)" by fastforce
  then have a: "aside w w1" using reads_aside(1) [of w all_channels] by simp
  obtain w2 r2 where o2: "ListWatchOutpoints br w1 = (w2, r2)" by fastforce
  then have "aside w w2" using reads_aside(4) [of w1 br] a by (auto intro: aside_trans)
  with l o2 a show ?thesis by (simp add: Build_def split: sum.split)
qed

lemma rebuild_aside: "aside w (rebuild env w)"
proof -
  obtain w1 r where "Build (libParse env) (wBranch w) w = (w1, r)" by fastforce
  then show ?thesis
    using Build_aside [of w "libParse env" "wBranch w"] by (auto simp: rebuild_def aside_def split: sum.split)
qed

lemma wpublish_aside [simp]: "aside w (wpublish ev w') = aside w w'"
  by (simp add: aside_def wpublish_def)

lemma ask_aside [simp]: "ask f w = (w', x) \<Longrightarrow> aside w w'"
  by (auto simp: ask_def aside_def)

lemma raise_aside: "aside w (raise now k s m w)"
proof -
  obtain w1 r where "UpsertAlert (watcher_alert TierCritical k now s m) w = (w1, r)" by fastforce
  then show ?thesis
    using UpsertAlert_aside [of w "watcher_alert TierCritical k now s m"] by (simp add: raise_def split: sum.split)
qed

lemma resolve_aside: "aside w (resolve now k s m w)"
proof -
  obtain w1 r where "ResolveAlert (watcher_alert TierResolved k now s m) [] w = (w1, r)" by fastforce
  then show ?thesis
    using ResolveAlert_aside [of w "watcher_alert TierResolved k now s m" "[]"]
    by (simp add: resolve_def split: sum.split)
qed

lemma closeStanding_aside: "aside w (closeStanding now w)"
  unfolding closeStanding_def by (rule aside_trans [OF resolve_aside resolve_aside])

lemma closeStandingOnce_aside: "aside w (closeStandingOnce now w)"
  using closeStanding_aside [of "w\<lparr>wCheckedStanding := True\<rparr>" now] by (simp add: closeStandingOnce_def aside_def)

lemma clearStall_aside: "aside w (clearStall now w)"
  using closeStanding_aside [of "w\<lparr>wCheckedStanding := True,
      wProgress := (wProgress w)\<lparr>prStalled := False, prStalledAt := 0, prWhy := []\<rparr>\<rparr>" now]
  by (auto simp: clearStall_def Let_def aside_def)

lemma stall_aside: "aside w (stall now h w)"
  unfolding stall_def Let_def
  by (auto intro!: aside_trans [OF _ raise_aside]) (simp_all add: aside_def)

lemma deepReorg_aside: "aside w (deepReorg now h w)"
  unfolding deepReorg_def Let_def
  by (rule aside_trans [OF raise_aside]) (simp add: aside_def)

lemma commitMark_aside: "aside w (commitMark env now ref w)"
proof -
  obtain w1 r where s: "SetMetaInt64 MetaLastScannedSQHeight (wrHeight ref) w = (w1, r)" by fastforce
  then have a: "aside w w1" using SetMetaInt64_aside [of w MetaLastScannedSQHeight "wrHeight ref"] by simp
  obtain w2 r2 where s2: "SetMeta MetaLastScannedSQHash (libPrint env (wrHash ref)) w1 = (w2, r2)" by fastforce
  then have "aside w w2"
    using SetMeta_aside [of w1 MetaLastScannedSQHash "libPrint env (wrHash ref)"] a by (auto intro: aside_trans)
  with s s2 a show ?thesis by (auto simp: commitMark_def aside_def split: sum.split)
qed

lemma setSweep_aside: "aside w (setSweep s w)"
proof -
  define w2 where "w2 = (let w1 = w\<lparr>wSweep := s, wProgress := (wProgress w)\<lparr>prRescanNext := swNext s, prRescanTarget := swTarget s\<rparr>\<rparr>
      in if pending s then w1\<lparr>wBlockedSweep := False\<rparr> else w1)"
  then have a: "aside w w2" by (simp add: aside_def Let_def)
  obtain w3 r where s: "SetMetaInt64 MetaRescanNextSQHeight (swNext s) w2 = (w3, r)" by fastforce
  then have "aside w w3" using SetMetaInt64_aside [of w2 MetaRescanNextSQHeight "swNext s"] a by (auto intro: aside_trans)
  then show ?thesis
    using s SetMetaInt64_aside [of w3 MetaRescanTargetSQHeight "swTarget s"]
    by (auto simp: setSweep_def w2_def Let_def split: sum.split intro: aside_trans)
qed

text \<open>Reading through a call: what follows the read decides.\<close>

lemma ourCloseTxID_aside: "aside w (fst (ourCloseTxID i w))"
proof -
  obtain w1 r where "ListChannels all_channels w = (w1, r)" by fastforce
  then show ?thesis using reads_aside(1) [of w all_channels] by (simp add: ourCloseTxID_def split: sum.split)
qed

lemma shapeOf_aside: "aside w (fst (shapeOf env m h w))"
proof -
  obtain w1 r where "ourCloseTxID (tgChannelID (maTarget m)) w = (w1, r)" by fastforce
  then show ?thesis using ourCloseTxID_aside [of w "tgChannelID (maTarget m)"] by (simp add: shapeOf_def)
qed

lemma fold_spends_step:
  assumes "\<And>x w. spends_step w (f x w)" shows "spends_step (w :: watcher) (fold f xs w)"
proof (induction xs arbitrary: w)
  case (Cons x xs)
  show ?case using spends_step_trans [OF assms Cons.IH] by simp
qed simp

lemma wpublish_step [simp]: "spends_step w (wpublish ev w') = spends_step w w'"
  by (simp add: spends_step_def wpublish_def spends_ok_def history_kept_def)

lemma announce_step [simp]: "spends_step w (announce env m i h sh w') = spends_step w w'"
  by (simp add: announce_def)

lemma followCommitment_step: "spends_step w (followCommitment env i m sh w)"
  by (auto simp: followCommitment_def watchCommitmentOutputs_def intro!: fold_spends_step AddWatchOutpoint_step)

lemma resolveSource_step: "spends_step w (resolveSource now m sh w)"
proof -
  obtain w1 r where g: "GetSpend (tgSourceSpendEventID (maTarget m)) w = (w1, r)" by fastforce
  then have "spends_step w w1" using aside_step [OF reads_aside(2)] by (metis fst_conv)
  with g show ?thesis
    by (auto simp: resolveSource_def split: sum.split intro: spends_step_trans [OF _ UpdateSpendShape_step])
qed

lemma confirmIfPending_step: "spends_step w (fst (confirmIfPending env now i m meta sh w))"
proof -
  obtain w1 r where g: "GetSpend i w = (w1, r)" by fastforce
  then have a: "spends_step w w1" using aside_step [OF reads_aside(2)] by (metis fst_conv)
  obtain w2 r2 where u: "UpdateSpendStatus i SpendConfirmed (libPrint env (Hash meta)) (Height meta) now w1 = (w2, r2)"
    by fastforce
  then have "spends_step w w2" using UpdateSpendStatus_step spends_step_trans [OF a] by (metis fst_conv)
  with g u a show ?thesis
    by (auto simp: confirmIfPending_def split: sum.split intro: spends_step_trans [OF _ followCommitment_step])
qed

lemma record_match_step: "spends_step w (fst (record_match env now meta m w))"
proof -
  obtain w1 sh where s: "shapeOf env m (Height meta) w = (w1, sh)" by fastforce
  then have a: "spends_step w w1" using aside_step [OF shapeOf_aside] by (metis fst_conv)
  let ?row = "spend_row env now m (libPrint env (Hash meta)) (Height meta) sh SpendConfirmed (wBranch w1)"
  obtain w2 r where r: "RecordSpend ?row w1 = (w2, r)" by fastforce
  then have b: "spends_step w w2" using RecordSpend_step spends_step_trans [OF a] by (metis fst_conv)
  have c: "spends_step w w3" if "confirmIfPending env now i m meta sh w2 = (w3, x)" for i w3 x
    using confirmIfPending_step spends_step_trans [OF b] that by (metis fst_conv)
  have d: "spends_step w (resolveSource now m sh (followCommitment env i m sh w2))" for i
    using spends_step_trans [OF spends_step_trans [OF b followCommitment_step] resolveSource_step] .
  show ?thesis using s r b c d by (auto simp: record_match_def split: sum.split prod.split)
qed

lemma recordMatches_step: "spends_step w (fst (recordMatches env now meta ms w))"
proof (induction ms arbitrary: w)
  case (Cons m ms)
  obtain w1 r where r: "record_match env now meta m w = (w1, r)" by fastforce
  then have a: "spends_step w w1" using record_match_step by (metis fst_conv)
  with r Cons.IH [of w1] show ?case by (auto split: sum.split prod.split intro: spends_step_trans)
qed simp

lemma rebuild_step: "spends_step w (rebuild env w)"
  by (rule aside_step [OF rebuild_aside])

lemma passes_step: "spends_step w (fst (passes n again env now meta blk w))"
proof (induction n arbitrary: again w)
  case (Suc n)
  let ?w1 = "if again then rebuild env w else w"
  have a: "spends_step w ?w1" by (simp add: rebuild_step)
  obtain w2 r where r: "recordMatches env now meta (ScanBlock (libTxHash env) (Some blk) (wSet ?w1)) ?w1 = (w2, r)"
    by fastforce
  then have "spends_step w w2" using recordMatches_step spends_step_trans [OF a] by (metis fst_conv)
  with r Suc.IH [of w2 True] show ?case by (auto simp: Let_def split: sum.split intro: spends_step_trans)
qed simp

lemma processBlock_step: "spends_step w (fst (processBlock env now meta w))"
proof -
  obtain w1 r where a: "ask (\<lambda>n. viewMatch env n (Hash meta) (ChainViewSet (libPrint env) (wSet w))) w = (w1, r)" by fastforce
  obtain w2 r2 where b: "ask (\<lambda>n. viewBlock env n (Hash meta)) w1 = (w2, r2)" by fastforce
  have "spends_step w w1" "spends_step w w2"
    using ask_aside [OF a] ask_aside [OF b] by (auto intro: aside_step aside_trans)
  with a b passes_step show ?thesis by (auto simp: processBlock_def split: sum.split intro: spends_step_trans)
qed

lemma attempts_step: "spends_step w (fst (attempts n env now meta w))"
proof (induction n arbitrary: w)
  case (Suc n)
  obtain w1 r where p: "processBlock env now meta w = (w1, r)" by fastforce
  then have "spends_step w w1" using processBlock_step by (metis fst_conv)
  with p Suc.IH [of w1] show ?case by (auto split: sum.split intro: spends_step_trans)
qed simp

lemma processWithRetries_step: "spends_step w (fst (processWithRetries env now meta w))"
  by (simp add: processWithRetries_def attempts_step)

lemma stall_step: "spends_step w w1 \<Longrightarrow> spends_step w (stall now h w1)"
  by (rule spends_step_trans [OF _ aside_step [OF stall_aside]])

lemma commitMark_step: "spends_step w (commitMark env now ref w)"
  by (rule aside_step [OF commitMark_aside])

lemma processTo_step: "spends_step w (processTo env now bs w)"
proof (induction bs arbitrary: w)
  case Nil
  show ?case by (simp add: aside_step [OF clearStall_aside])
next
  case (Cons b bs)
  obtain w1 r where p: "processWithRetries env now (block_ref.truncate b) w = (w1, r)" by fastforce
  then have a: "spends_step w w1" using processWithRetries_step by (metis fst_conv)
  have "spends_step w (processTo env now bs (commitMark env now (ref_of b) w1))"
    by (rule spends_step_trans [OF spends_step_trans [OF a commitMark_step] Cons.IH])
  with p stall_step [OF a] show ?case by (auto split: sum.split)
qed

lemma rollBackAbove_step: "spends_step w (rollBackAbove now h w)"
proof -
  let ?f = "\<lambda>sp w. if spBlockHeight sp \<le> h then w
      else (case UpdateSpendStatus (spID sp) SpendReorgedOut (spBlockHash sp) (spBlockHeight sp) now w of
              (w2, Inl _) \<Rightarrow> w2 | (w2, Inr _) \<Rightarrow> wpublish (WSpendReorgedOut (spID sp) (wBranch w2)) w2)"
  have one: "spends_step w (?f sp w)" for sp and w :: watcher
  proof -
    obtain w2 r where u: "UpdateSpendStatus (spID sp) SpendReorgedOut (spBlockHash sp) (spBlockHeight sp) now w = (w2, r)"
      by fastforce
    then have "spends_step w w2" using UpdateSpendStatus_step by (metis fst_conv)
    with u show ?thesis by (simp split: sum.split)
  qed
  obtain w1 r where l: "ListSpends \<lparr>sfBranch = wBranch w, sfChannelID = 0, sfStatus = SpendConfirmed, sfShape = ShapeOther [],
      sfLimit = MaxSpendLimit\<rparr> w = (w1, r)" by fastforce
  then have "spends_step w w1" using aside_step [OF reads_aside(3)] by (metis fst_conv)
  moreover have "spends_step w1 (fold ?f sps w1)" for sps by (rule fold_spends_step) (rule one)
  ultimately show ?thesis using l by (auto simp: rollBackAbove_def split: sum.split intro: spends_step_trans)
qed

lemma knownHashes_aside: "aside w (fst (knownHashes env r w))"
proof -
  obtain w1 x where "RecentBranchHashes (wBranch w) (cfMaxReorgDepth (wCfg w)) w = (w1, x)" by fastforce
  then show ?thesis
    using reads_aside(6) [of w "wBranch w" "cfMaxReorgDepth (wCfg w)"] by (simp add: knownHashes_def split: sum.split)
qed

lemma walk_loop_aside: "aside w (fst (walk_loop n env known cur path w))"
proof (induction n arbitrary: cur path w)
  case (Suc n)
  obtain w1 r where a: "ask (\<lambda>k. viewHeader env k (PrevHash cur)) w = (w1, r)" by fastforce
  have "aside w (fst (walk_loop n env known p path' w1))" for p path'
    by (rule aside_trans [OF ask_aside [OF a] Suc.IH])
  with a ask_aside [OF a] show ?case by (simp split: option.split sum.split)
qed simp

lemma walkBack_aside: "aside w (fst (walkBack env now tip r w))"
proof -
  obtain w1 x where k: "knownHashes env r w = (w1, x)" by fastforce
  then have a: "aside w w1" using knownHashes_aside [of w env r] by simp
  have "aside w (fst (walk_loop n env known tip [tip] w1))" for n known by (rule aside_trans [OF a walk_loop_aside])
  then have "aside w w2" if "walk_loop n env known tip [tip] w1 = (w2, y)" for n known w2 y
    using that by (metis fst_conv)
  with k a show ?thesis
    by (auto simp: walkBack_def split: sum.split prod.split scan_err.split intro: aside_trans [OF _ deepReorg_aside])
qed

lemma forward_loop_aside: "aside w (fst (forward_loop env h t path w))"
proof (induction env h t path w rule: forward_loop.induct)
  case (1 env h t path w)
  obtain w1 r where a: "ask (\<lambda>n. viewHashByHeight env n h) w = (w1, r)" by fastforce
  have "aside w (fst (forward_loop env h t path w))" if "r = Inr x" "\<not> t \<le> h" for x
  proof -
    obtain w2 r2 where b: "ask (\<lambda>n. viewHeader env n x) w1 = (w2, r2)" by fastforce
    have ab: "aside w w2" by (rule aside_trans [OF ask_aside [OF a] ask_aside [OF b]])
    show ?thesis
    proof (cases r2)
      case (Inr y)
      have "aside w2 (fst (forward_loop env (h + 1) t (path @ [y]) w2))"
        using "1.IH" [OF that(2), of w1 r x w2 r2 y] that(1) a b Inr by simp
      with ab that a b Inr show ?thesis by (subst forward_loop.simps) (auto intro: aside_trans)
    qed (use that a b ab in \<open>subst forward_loop.simps, simp\<close>)
  qed
  with a ask_aside [OF a] show ?case
    by (cases r) (auto simp: forward_loop.simps [of env h])
qed

lemma grewForward_step: "spends_step w (grewForward env now tip r w)"
proof -
  obtain w1 x where f: "forward_loop env (wrHeight r + 1) (Height tip) [] w = (w1, x)" by fastforce
  then have a: "spends_step w w1" using aside_step [OF forward_loop_aside] by (metis fst_conv)
  have "spends_step w (processTo env now path w1)" for path by (rule spends_step_trans [OF a processTo_step])
  with f stall_step [OF a] show ?thesis by (simp add: grewForward_def commitMark_step split: sum.split)
qed

lemma replaced_step: "spends_step w (replaced env now tip r w)"
proof -
  obtain w1 x where f: "walkBack env now tip r w = (w1, x)" by fastforce
  then have a: "spends_step w w1" using aside_step [OF walkBack_aside] by (metis fst_conv)
  have "spends_step w (if c then rollBackAbove now h w1 else w1)" for c h
    using spends_step_trans [OF a rollBackAbove_step] a by simp
  then have "spends_step w (processTo env now path (if c then rollBackAbove now h w1 else w1))" for c h path
    by (rule spends_step_trans [OF _ processTo_step])
  with f stall_step [OF a] show ?thesis by (simp add: replaced_def split: sum.split prod.split)
qed

lemma catchUp_step: "spends_step w (catchUp env now tip r w)"
proof -
  obtain w1 x where a: "ask (\<lambda>n. viewHashByHeight env n (wrHeight r)) w = (w1, x)" by fastforce
  have "spends_step w w1" by (rule aside_step [OF ask_aside [OF a]])
  then have "spends_step w (grewForward env now tip r w1)" "spends_step w (replaced env now tip r w1)"
    by (rule spends_step_trans [OF _ grewForward_step] spends_step_trans [OF _ replaced_step])+
  with a show ?thesis by (simp add: catchUp_def replaced_step split: sum.split)
qed

lemma setSweep_step: "spends_step w w1 \<Longrightarrow> spends_step w (setSweep s w1)"
  by (rule spends_step_trans [OF _ aside_step [OF setSweep_aside]])

lemma memory_step: "t_spends w' = t_spends w1 \<Longrightarrow> t_outpoints w' = t_outpoints w1 \<Longrightarrow> spends_step w w1 \<Longrightarrow> spends_step w w'"
  by (rule spends_step_trans [OF _ tables_step])

lemma queueSweep_step: "spends_step w (fst (queueSweep a w))"
  by (auto simp: queueSweep_def Let_def intro: memory_step [OF _ _ setSweep_step [OF spends_step_refl]])

lemma rescanFromFork_step: "spends_step w (fst (rescanFromFork w))"
proof -
  obtain w1 x where g: "GetSplitState w = (w1, x)" by fastforce
  then have a: "spends_step w w1" using aside_step [OF reads_aside(5)] by (metis fst_conv)
  have "spends_step w (fst (queueSweep i w1))" for i by (rule spends_step_trans [OF a queueSweep_step])
  with g a show ?thesis by (simp add: rescanFromFork_def split: sum.split)
qed

lemma slice_loop_step: "spends_step w (fst (slice_loop n env now s w))"
proof (induction n arbitrary: s w)
  case (Suc n)
  obtain w1 x where a: "ask (\<lambda>k. viewHashByHeight env k (swNext s)) w = (w1, x)" by fastforce
  have w1: "spends_step w w1" by (rule aside_step [OF ask_aside [OF a]])
  have b: "spends_step w (blockSweep u)" if "spends_step w u" for u
    using that by (rule memory_step [rotated 2]) (simp_all add: blockSweep_def)
  have "spends_step w (fst (case processWithRetries env now \<lparr>Hash = h, Height = swNext s\<rparr> w1 of
       (w2, Inl _) \<Rightarrow> (blockSweep w2, None)
     | (w2, Inr _) \<Rightarrow> (let s1 = s\<lparr>swNext := i32 (swNext s + 1)\<rparr> in slice_loop n env now s1 (setSweep s1 w2))))" for h
  proof -
    obtain w2 y where p: "processWithRetries env now \<lparr>Hash = h, Height = swNext s\<rparr> w1 = (w2, y)" by fastforce
    then have w2: "spends_step w w2" using spends_step_trans [OF w1 processWithRetries_step] by (metis fst_conv)
    have "spends_step w (fst (slice_loop n env now t (setSweep t w2)))" for t
      by (rule spends_step_trans [OF setSweep_step [OF w2] Suc.IH])
    with p b [OF w2] show ?thesis by (simp add: Let_def split: sum.split)
  qed
  with a b [OF w1] show ?case by (simp split: sum.split)
qed simp

lemma sweepSlice_step: "spends_step w (fst (sweepSlice env now w))"
proof -
  obtain w1 x where s: "slice_loop rescanChunk env now (wSweep w) w = (w1, x)" by fastforce
  then have "spends_step w w1" using slice_loop_step by (metis fst_conv)
  with s show ?thesis by (auto simp: sweepSlice_def split: option.split intro: setSweep_step)
qed

lemma backendState_aside: "aside w (fst (backendState env now w))"
proof -
  obtain w1 x where a: "ask (\<lambda>n. viewHealth env n) w = (w1, x)" by fastforce
  with ask_aside [OF a] show ?thesis
    by (auto simp: backendState_def aside_def split: sum.split prod.split)
qed

lemma settle_mark_aside: "aside w (settle_mark best w)"
  by (simp add: settle_mark_def aside_def Let_def)

lemma follow_tip_step: "spends_step w (follow_tip env now tip w)"
proof -
  let ?w = "w\<lparr>wBlockedSweep := False\<rparr>"
  have a: "spends_step w ?w" by (rule tables_step) simp_all
  have "spends_step w (processTo env now bs ?w)" "spends_step w (catchUp env now tip r ?w)" for bs r
    by (rule spends_step_trans [OF a processTo_step] spends_step_trans [OF a catchUp_step])+
  then show ?thesis by (simp add: follow_tip_def Let_def commitMark_step del: processTo.simps)
qed

lemma handleTip_step: "spends_step w (handleTip env now tip w)"
proof -
  obtain w1 replaying best where b: "backendState env now w = (w1, replaying, best)" by (metis prod_cases3)
  then have "aside w w1" using backendState_aside [of w env now] by simp
  then have a: "aside w (closeStandingOnce now w1)" by (rule aside_trans [OF _ closeStandingOnce_aside])
  let ?w2 = "closeStandingOnce now w1"
  have "spends_step w (follow_tip env now tip (settle_mark best ?w2))"
    by (rule spends_step_trans [OF aside_step [OF aside_trans [OF a settle_mark_aside]] follow_tip_step])
  moreover have "aside w (?w2\<lparr>wReplayingSeen := True, wProgress := p\<rparr>)" "aside w (?w2\<lparr>wStrayNoted := True\<rparr>)"
    "aside w (w\<lparr>wPausedNoted := True\<rparr>)" for p using a by (simp_all add: aside_def)
  ultimately show ?thesis using b by (simp add: handleTip_def Let_def aside_step)
qed

lemma mempool_match_step: "spends_step w (mempool_match env now m w)"
proof -
  obtain w1 sh where s: "shapeOf env m 0 w = (w1, sh)" by fastforce
  then have a: "spends_step w w1" using aside_step [OF shapeOf_aside] by (metis fst_conv)
  obtain w2 r where r: "RecordSpend (spend_row env now m [] 0 sh SpendMempool (wBranch w1)) w1 = (w2, r)" by fastforce
  then have "spends_step w w2" using RecordSpend_step spends_step_trans [OF a] by (metis fst_conv)
  with s r show ?thesis by (auto simp: mempool_match_def split: sum.split prod.split)
qed

lemma onEvent_step: "spends_step w (onEvent env ev w)"
  using spends_step_trans [OF rebuild_step rescanFromFork_step, of w env] rebuild_step [of w env]
  by (simp add: onEvent_def Let_def split: watcher_input.split)

lemma turn_step: "spends_step w (turn w i)"
  by (auto simp: turn_def handleTip_step sweepSlice_step queueSweep_step rescanFromFork_step onEvent_step
      handleMempoolTx_def fold_spends_step mempool_match_step split: prod.split watcher_input.split)

interpretation watcher_run: ordered_machine turn "\<lambda>_. True" spends_ok history_kept
  by unfold_locales (use turn_step history_kept_trans in \<open>auto simp: spends_step_def\<close>)

end
