(* ===== verification/Watcher_Facts.thy ===== *)
theory Watcher_Facts
  imports Watcher_Runs
begin

text \<open>
  What the watcher's operations do when the store answers: recording a block twice changes
  nothing, what a commitment created is found when it is spent, a rescan covers what it was
  asked for, a restart resumes where the last run stopped, and what a replaced part of the chain
  takes with it.
\<close>

section \<open>Recording a block twice\<close>

text \<open>The spends recorded as confirmed in the block with a hash.\<close>

definition confirmed_in :: "string \<Rightarrow> watcher \<Rightarrow> (branch \<times> string \<times> int \<times> string) set" where
  "confirmed_in h w = {spend_key r | r. r \<in> set (t_spends w) \<and> spStatus r = SpendConfirmed \<and> spBlockHash r = h}"

definition onwards :: "string \<Rightarrow> watcher \<Rightarrow> watcher \<Rightarrow> bool" where
  "onwards h w w' \<longleftrightarrow> faults w = [] \<longrightarrow> faults w' = [] \<and> wBranch w' = wBranch w \<and> confirmed_in h w \<subseteq> confirmed_in h w'"

lemma onwards_refl [simp]: "onwards h w w"
  by (simp add: onwards_def)

lemma onwards_trans: "onwards h u v \<Longrightarrow> onwards h v w \<Longrightarrow> onwards h u w"
  by (auto simp: onwards_def)

lemma confirmed_in_cong: "t_spends w' = t_spends w \<Longrightarrow> confirmed_in h w' = confirmed_in h w"
  by (simp add: confirmed_in_def)

lemma read_calm: "faults w = [] \<Longrightarrow> db_read f w = (w, f w)"
  by (simp add: db_read_def db_call_def)

lemma RecordSpend_onwards: "onwards h w (fst (RecordSpend sp w))"
  by (auto simp: RecordSpend_def Let_def db_call_def onwards_def confirmed_in_def split: option.split)

lemma update_row_moved: "r \<in> set rows \<Longrightarrow> (if rid r = i then f r else r) \<in> set (update_row rid i f rows)"
  by (simp add: set_update_row)

lemma confirmed_update:
  assumes "\<And>r. spend_key (f r) = spend_key r"
    and "\<And>r. spStatus r = SpendConfirmed \<Longrightarrow> spBlockHash r = h \<Longrightarrow> spStatus (f r) = SpendConfirmed \<and> spBlockHash (f r) = h"
  shows "confirmed_in h w \<subseteq> confirmed_in h (w\<lparr>t_spends := update_row spID i f (t_spends w)\<rparr>)"
proof
  fix k assume "k \<in> confirmed_in h w"
  then obtain r where r: "r \<in> set (t_spends w)" "k = spend_key r" "spStatus r = SpendConfirmed" "spBlockHash r = h"
    by (auto simp: confirmed_in_def)
  let ?r = "if spID r = i then f r else r"
  have "?r \<in> set (update_row spID i f (t_spends w))" by (rule update_row_moved [OF r(1)])
  moreover have "spend_key ?r = k" "spStatus ?r = SpendConfirmed" "spBlockHash ?r = h" using assms r by simp_all
  ultimately show "k \<in> confirmed_in h (w\<lparr>t_spends := update_row spID i f (t_spends w)\<rparr>)"
    unfolding confirmed_in_def by force
qed

lemma UpdateSpendStatus_onwards: "onwards h w (fst (UpdateSpendStatus i SpendConfirmed h n at w))"
  using confirmed_update [of "\<lambda>r. r\<lparr>spStatus := SpendConfirmed, spBlockHash := h, spBlockHeight := n, spUpdatedAt := at\<rparr>" h w i]
  by (simp add: UpdateSpendStatus_def db_call_def requireOneRow_def onwards_def spend_key_def)

lemma UpdateSpendShape_onwards: "onwards h w (fst (UpdateSpendShape i sh at w))"
  using confirmed_update [of "\<lambda>r. r\<lparr>spShape := sh, spUpdatedAt := at\<rparr>" h w i]
  by (simp add: UpdateSpendShape_def db_call_def requireOneRow_def onwards_def spend_key_def)

lemma AddWatchOutpoint_onwards: "onwards h w (fst (AddWatchOutpoint out w))"
  by (auto simp: AddWatchOutpoint_def db_call_def onwards_def confirmed_in_def)

lemma fold_onwards:
  assumes "\<And>x w. onwards h w (f x w)" shows "onwards h (w :: watcher) (fold f xs w)"
proof (induction xs arbitrary: w)
  case (Cons x xs)
  show ?case using onwards_trans [OF assms Cons.IH] by simp
qed simp

lemma followCommitment_onwards: "onwards h w (followCommitment env i m sh w)"
  by (auto simp: followCommitment_def watchCommitmentOutputs_def intro!: fold_onwards AddWatchOutpoint_onwards)

lemma announce_onwards [simp]: "onwards h w (announce env m i n sh w') = onwards h w w'"
  by (simp add: announce_def wpublish_def onwards_def confirmed_in_def)

lemma resolveSource_onwards: "onwards h w (resolveSource now m sh w)"
proof (cases "faults w = []")
  case True
  then show ?thesis
    by (auto simp: resolveSource_def GetSpend_def read_calm UpdateSpendShape_onwards split: sum.split option.split)
qed (simp add: onwards_def)

lemma shapeOf_calm: "faults w = [] \<Longrightarrow> fst (shapeOf env m n w) = w"
  by (auto simp: shapeOf_def ourCloseTxID_def ListChannels_def read_calm)

lemma shapeOf_valid: "shapeOf env m n w = (w', sh) \<Longrightarrow> Shape_Valid sh"
  by (auto simp: shapeOf_def ClassifyShape_def ClassifySweep_def Let_def split: if_splits prod.splits)

definition row_key :: "outside \<Rightarrow> branch \<Rightarrow> match \<Rightarrow> branch \<times> string \<times> int \<times> string" where
  "row_key env br m = (br, libPrint env (opHash (tgOutpoint (maTarget m))),
     uint (opIndex (tgOutpoint (maTarget m))), libPrint env (maTxID m))"

lemma spend_row_key: "spend_key (spend_row env now m bh n sh st br) = row_key env br m"
  by (simp add: spend_row_def spend_key_def row_key_def)

text \<open>What has to hold for a match to be recorded, and that it is recorded as confirmed here.\<close>

definition recordable :: "outside \<Rightarrow> match \<Rightarrow> watcher \<Rightarrow> bool" where
  "recordable env m w \<longleftrightarrow> Branch_Valid (wBranch w) \<and> libPrint env (opHash (tgOutpoint (maTarget m))) \<noteq> ''''
     \<and> libPrint env (maTxID m) \<noteq> '''' \<and> libRawTx env (maTx m) \<noteq> ''''"

definition done_with :: "outside \<Rightarrow> block_ref \<Rightarrow> match \<Rightarrow> watcher \<Rightarrow> bool" where
  "done_with env meta m w \<longleftrightarrow> toInt32 (uint (opIndex (tgOutpoint (maTarget m)))) = None
     \<or> recordable env m w \<and> row_key env (wBranch w) m \<in> confirmed_in (libPrint env (Hash meta)) w"

lemma done_with_onwards:
  "onwards (libPrint env (Hash meta)) w w' \<Longrightarrow> faults w = [] \<Longrightarrow> done_with env meta m w \<Longrightarrow> done_with env meta m w'"
  by (auto simp: onwards_def done_with_def recordable_def)

lemma RecordSpend_Inr:
  assumes "faults w = []" "RecordSpend sp w = (w', Inr (i, e))" "Shape_Valid (spShape sp)"
  shows "valid_spend sp"
    and "\<not> e \<Longrightarrow> i = next_id spID (t_spends w) \<and> w' = w\<lparr>t_spends := t_spends w @ [place_spend i sp]\<rparr>"
    and "e \<Longrightarrow> w' = w \<and> (\<exists>r. find (\<lambda>x. spend_key x = spend_key sp) (t_spends w) = Some r \<and> spID r = i)"
proof -
  have "spShape sp \<noteq> ShapeOther ''''" using assms(3) by (cases "spShape sp") simp_all
  with assms show "valid_spend sp"
    "\<not> e \<Longrightarrow> i = next_id spID (t_spends w) \<and> w' = w\<lparr>t_spends := t_spends w @ [place_spend i sp]\<rparr>"
    "e \<Longrightarrow> w' = w \<and> (\<exists>r. find (\<lambda>x. spend_key x = spend_key sp) (t_spends w) = Some r \<and> spID r = i)"
    by (auto simp: RecordSpend_def Let_def db_call_def valid_spend_def split: if_splits option.splits)
qed

lemma valid_row: "valid_spend (spend_row env now m bh n sh st (wBranch w)) \<longleftrightarrow>
    recordable env m w \<and> Status_Valid st \<and> (sh = ShapeOther '''' \<or> Shape_Valid sh)"
  by (auto simp: valid_spend_def spend_row_def recordable_def)

lemma confirmed_inI:
  "r \<in> set (t_spends w) \<Longrightarrow> spend_key r = k \<Longrightarrow> spStatus r = SpendConfirmed \<Longrightarrow> spBlockHash r = h \<Longrightarrow> k \<in> confirmed_in h w"
  by (auto simp: confirmed_in_def)

lemma record_match_done:
  assumes ok: "spends_ok w" and calm: "faults w = []" and r: "record_match env now meta m w = (w1, Inr k)"
  shows "onwards (libPrint env (Hash meta)) w w1 \<and> done_with env meta m w1"
proof (cases "toInt32 (uint (opIndex (tgOutpoint (maTarget m))))")
  case None
  with r show ?thesis by (simp add: record_match_def done_with_def)
next
  case (Some v)
  let ?h = "libPrint env (Hash meta)"
  obtain sh where s: "shapeOf env m (Height meta) w = (w, sh)"
    using shapeOf_calm [OF calm] by (metis prod.collapse)
  note sh = shapeOf_valid [OF s]
  let ?row = "spend_row env now m ?h (Height meta) sh SpendConfirmed (wBranch w)"
  have rs: "spShape ?row = sh" by (simp add: spend_row_def)
  from r s Some obtain w2 i e where rec: "RecordSpend ?row w = (w2, Inr (i, e))"
    by (auto simp: record_match_def split: sum.splits prod.splits)
  note i = RecordSpend_Inr [OF calm rec, unfolded rs, OF sh]
  from i(1) have rc: "recordable env m w" by (simp add: valid_row)
  have on2: "onwards ?h w w2" using RecordSpend_onwards [of ?h w ?row] rec by simp
  show ?thesis
  proof (cases e)
    case False
    with i(2) have w2: "w2 = w\<lparr>t_spends := t_spends w @ [place_spend i ?row]\<rparr>" by simp
    have "place_spend i ?row \<in> set (t_spends w2)" by (simp add: w2)
    moreover have "spend_key (place_spend i ?row) = row_key env (wBranch w2) m"
      "spStatus (place_spend i ?row) = SpendConfirmed" "spBlockHash (place_spend i ?row) = ?h"
      by (simp_all add: spends.rkey_place spend_row_key w2) (simp_all add: place_spend_def spend_row_def)
    ultimately have in2: "row_key env (wBranch w2) m \<in> confirmed_in ?h w2" unfolding confirmed_in_def by force
    have w1: "w1 = announce env m i (Height meta) sh (resolveSource now m sh (followCommitment env i m sh w2))"
      using r s Some rec False by (auto simp: record_match_def split: option.splits)
    have on: "onwards ?h w2 w1"
      unfolding w1 announce_onwards by (rule onwards_trans [OF followCommitment_onwards resolveSource_onwards])
    have "done_with env meta m w2" using in2 rc by (simp add: done_with_def recordable_def w2)
    moreover have "faults w2 = []" using calm by (simp add: w2)
    ultimately show ?thesis using onwards_trans [OF on2 on] done_with_onwards [OF on] by blast
  next
    case True
    with i(3) obtain x where x: "w2 = w" "find (\<lambda>y. spend_key y = spend_key ?row) (t_spends w) = Some x" "spID x = i"
      by blast
    from find_Some_mem [OF x(2)] have xm: "x \<in> set (t_spends w)" "spend_key x = row_key env (wBranch w) m"
      by (simp_all add: spend_row_key)
    have g: "GetSpend i w = (w, Inr x)"
      using spends.find_by_id [of "t_spends w" x] ok xm(1) x(3)
      by (simp add: GetSpend_def read_calm [OF calm] spends_ok_def)
    show ?thesis
    proof (cases "spStatus x = SpendConfirmed \<and> spBlockHash x = ?h")
      case True
      then have "w1 = w" using r s Some rec \<open>e\<close> x(1) g by (auto simp: record_match_def confirmIfPending_def)
      moreover have "row_key env (wBranch w) m \<in> confirmed_in ?h w" using confirmed_inI [OF xm] True by blast
      ultimately show ?thesis using rc by (simp add: done_with_def)
    next
      case False
      let ?f = "\<lambda>r. r\<lparr>spStatus := SpendConfirmed, spBlockHash := ?h, spBlockHeight := Height meta, spUpdatedAt := now\<rparr>"
      let ?w3 = "w\<lparr>t_spends := update_row spID i ?f (t_spends w)\<rparr>"
      have u: "UpdateSpendStatus i SpendConfirmed ?h (Height meta) now w = (?w3, Inr ())"
        using xm(1) x(3) calm by (auto simp: UpdateSpendStatus_def db_call_def requireOneRow_def list_ex_iff)
      have w1: "w1 = announce env m i (Height meta) sh (followCommitment env i m (spShape x) ?w3)"
        using r s Some rec \<open>e\<close> x(1) g False u by (auto simp: record_match_def confirmIfPending_def)
      have "?f x \<in> set (t_spends ?w3)" using update_row_moved [OF xm(1), of spID i ?f] x(3) by simp
      moreover have "spend_key (?f x) = row_key env (wBranch w) m" using xm(2) by (simp add: spend_key_def)
      ultimately have "row_key env (wBranch ?w3) m \<in> confirmed_in ?h ?w3" by (force simp: confirmed_in_def)
      then have d3: "done_with env meta m ?w3" using rc by (simp add: done_with_def recordable_def)
      have on3: "onwards ?h w ?w3"
        using UpdateSpendStatus_onwards [of ?h w i "Height meta" now] u by simp
      have on: "onwards ?h ?w3 w1" unfolding w1 announce_onwards by (rule followCommitment_onwards)
      show ?thesis using onwards_trans [OF on3 on] done_with_onwards [OF on _ d3] calm by simp
    qed
  qed
qed

lemma record_match_again:
  assumes ok: "spends_ok w" and calm: "faults w = []" and d: "done_with env meta m w"
  shows "record_match env now meta m w = (w, Inr 0)"
proof (cases "toInt32 (uint (opIndex (tgOutpoint (maTarget m))))")
  case None
  then show ?thesis by (simp add: record_match_def)
next
  case (Some v)
  let ?h = "libPrint env (Hash meta)"
  obtain sh where s: "shapeOf env m (Height meta) w = (w, sh)"
    using shapeOf_calm [OF calm] by (metis prod.collapse)
  let ?row = "spend_row env now m ?h (Height meta) sh SpendConfirmed (wBranch w)"
  from d Some obtain r where r: "r \<in> set (t_spends w)" "spend_key r = spend_key ?row"
    "spStatus r = SpendConfirmed" "spBlockHash r = ?h" and rc: "recordable env m w"
    by (auto simp: done_with_def confirmed_in_def spend_row_key)
  have "valid_spend ?row" using rc shapeOf_valid [OF s] by (simp add: valid_row)
  from RecordSpend_known [OF this ok r(1,2) calm] have "RecordSpend ?row w = (w, Inr (spID r, True))" .
  moreover have "GetSpend (spID r) w = (w, Inr r)"
    using spends.find_by_id [of "t_spends w" r] ok r(1)
    by (simp add: GetSpend_def read_calm [OF calm] spends_ok_def)
  ultimately show ?thesis using s Some r by (simp add: record_match_def confirmIfPending_def)
qed

lemma recordMatches_done:
  assumes "spends_ok w" "faults w = []" "recordMatches env now meta ms w = (w1, Inr n)"
  shows "spends_ok w1 \<and> onwards (libPrint env (Hash meta)) w w1 \<and> (\<forall>m \<in> set ms. done_with env meta m w1)"
  using assms
proof (induction ms arbitrary: w n)
  case (Cons m ms)
  then obtain w2 k n2 where s: "record_match env now meta m w = (w2, Inr k)" "recordMatches env now meta ms w2 = (w1, Inr n2)"
    by (auto split: sum.splits prod.splits)
  from record_match_done [OF Cons.prems(1,2) s(1)] have d: "onwards (libPrint env (Hash meta)) w w2" "done_with env meta m w2"
    by blast+
  have ok2: "spends_ok w2" using record_match_step [of w env now meta m] s(1) Cons.prems(1) by (simp add: spends_step_def)
  have calm2: "faults w2 = []" using d(1) Cons.prems(2) by (simp add: onwards_def)
  from Cons.IH [OF ok2 calm2 s(2)] have t: "spends_ok w1" "onwards (libPrint env (Hash meta)) w2 w1"
    "\<forall>m \<in> set ms. done_with env meta m w1" by blast+
  then show ?case using onwards_trans [OF d(1) t(2)] done_with_onwards [OF t(2) calm2 d(2)] by simp
qed simp

text \<open>
  C15: recording is idempotent: once the spends found in a block have been recorded and no call
  failed, recording them again, at any later time, is not news: it changes nothing at all,
  publishes nothing and reports that nothing was fresh, so a pass that follows a pass that
  found nothing new, a re-scan after a restart and a sweep over scanned blocks are all harmless.
\<close>

theorem recording_is_idempotent:
  assumes "spends_ok w" and "faults w = []"
    and "recordMatches env now meta ms w = (w1, Inr n)"
  shows "recordMatches env later meta ms w1 = (w1, Inr 0)"
proof -
  note d = recordMatches_done [OF assms]
  have calm: "faults w1 = []" using d assms(2) by (simp add: onwards_def)
  have "recordMatches env later meta ms' w1 = (w1, Inr 0)" if "set ms' \<subseteq> set ms" for ms'
    using that by (induction ms') (use d calm record_match_again in auto)
  then show ?thesis by simp
qed

section \<open>A replaced part of the chain\<close>

definition rolled :: "int \<Rightarrow> spend \<Rightarrow> spend" where
  "rolled now r = r\<lparr>spStatus := SpendReorgedOut, spUpdatedAt := now\<rparr>"

lemma rolled_same [simp]:
  "spID (rolled now r) = spID r" "spBlockHash (rolled now r) = spBlockHash r" "spBlockHeight (rolled now r) = spBlockHeight r"
  "rolled now (rolled now r) = rolled now r"
  by (simp_all add: rolled_def)

definition roll_one :: "int \<Rightarrow> int \<Rightarrow> spend \<Rightarrow> watcher \<Rightarrow> watcher" where
  "roll_one now height sp w =
     (if spBlockHeight sp \<le> height then w
      else
        (case UpdateSpendStatus (spID sp) SpendReorgedOut (spBlockHash sp) (spBlockHeight sp) now w of
           (w2, Inl _) \<Rightarrow> w2
         | (w2, Inr _) \<Rightarrow> wpublish (WSpendReorgedOut (spID sp) (wBranch w2)) w2))"

text \<open>While the loop runs, a row is as it was when it was listed except for its status.\<close>

definition listed :: "spend list \<Rightarrow> watcher \<Rightarrow> bool" where
  "listed sps w \<longleftrightarrow> spID ` set sps \<subseteq> spID ` set (t_spends w)
     \<and> (\<forall>sp \<in> set sps. \<forall>r \<in> set (t_spends w). spID r = spID sp \<longrightarrow>
          spBlockHash r = spBlockHash sp \<and> spBlockHeight r = spBlockHeight sp)"

lemma wpublish_same: "t_spends (wpublish ev w) = t_spends w" "faults (wpublish ev w) = faults w"
    "listed sps (wpublish ev w) = listed sps w"
  by (simp_all add: wpublish_def listed_def)

lemma listed_same:
  assumes "spID ` set (t_spends w') = spID ` set (t_spends w)" "listed (sp # sps) w"
    and "\<And>r. r \<in> set (t_spends w') \<Longrightarrow> \<exists>r0 \<in> set (t_spends w). spID r0 = spID r \<and> spBlockHash r0 = spBlockHash r \<and> spBlockHeight r0 = spBlockHeight r"
  shows "listed sps w'"
  unfolding listed_def
proof (intro conjI ballI impI)
  show "spID ` set sps \<subseteq> spID ` set (t_spends w')" using assms(1,2) by (simp add: listed_def)
next
  fix sp' r assume s: "sp' \<in> set sps" "r \<in> set (t_spends w')" "spID r = spID sp'"
  with assms(3) obtain r0 where "r0 \<in> set (t_spends w)" "spID r0 = spID r" "spBlockHash r0 = spBlockHash r"
    "spBlockHeight r0 = spBlockHeight r" by blast
  with assms(2) s show "spBlockHash r = spBlockHash sp'" "spBlockHeight r = spBlockHeight sp'"
    by (simp_all add: listed_def)
qed

lemma roll_one_rows:
  assumes "faults w = []" "listed (sp # sps) w"
  shows "faults (roll_one now height sp w) = [] \<and> listed sps (roll_one now height sp w)
    \<and> t_spends (roll_one now height sp w) =
        map (\<lambda>r. if spID r = spID sp \<and> height < spBlockHeight sp then rolled now r else r) (t_spends w)"
proof (cases "spBlockHeight sp \<le> height")
  case True
  with assms show ?thesis by (auto simp: roll_one_def listed_def intro!: map_idI [symmetric])
next
  case False
  have ex: "list_ex (\<lambda>r. spID r = spID sp) (t_spends w)" using assms(2) by (force simp: listed_def list_ex_iff)
  let ?g = "\<lambda>r. if spID r = spID sp then rolled now r else r"
  have "update_row spID (spID sp)
      (\<lambda>r. r\<lparr>spStatus := SpendReorgedOut, spBlockHash := spBlockHash sp, spBlockHeight := spBlockHeight sp, spUpdatedAt := now\<rparr>)
      (t_spends w) = map ?g (t_spends w)"
    using assms(2) by (auto simp: update_row_def rolled_def listed_def)
  then have e: "roll_one now height sp w =
      wpublish (WSpendReorgedOut (spID sp) (wBranch w)) (w\<lparr>t_spends := map ?g (t_spends w)\<rparr>)"
    using False ex assms(1) by (simp add: roll_one_def UpdateSpendStatus_def db_call_def requireOneRow_def)
  let ?w = "w\<lparr>t_spends := map ?g (t_spends w)\<rparr>"
  have "spID ` set (t_spends ?w) = spID ` set (t_spends w)"
    by (simp add: image_image if_distrib [of spID] cong: if_cong del: if_image_distrib)
  then have "listed sps ?w"
    by (rule listed_same [OF _ assms(2)]) auto
  with e False assms(1) show ?thesis by (simp add: wpublish_same)
qed

lemma fold_roll_rows:
  assumes "faults w = []" "listed sps w"
  shows "faults (fold (roll_one now height) sps w) = []
    \<and> t_spends (fold (roll_one now height) sps w) =
        map (\<lambda>r. if \<exists>sp \<in> set sps. spID sp = spID r \<and> height < spBlockHeight sp then rolled now r else r) (t_spends w)"
  using assms
proof (induction sps arbitrary: w)
  case Nil
  then show ?case by simp
next
  case (Cons sp sps)
  note one = roll_one_rows [OF Cons.prems, of now height]
  from Cons.IH [of "roll_one now height sp w"] one show ?case by (auto simp: comp_def)
qed

lemma rollBackAbove_rows:
  assumes "faults w = []" "table_ok spID spend_key (t_spends w)" "length (t_spends w) \<le> 1000" "Branch_Valid (wBranch w)"
  shows "faults (rollBackAbove now height w) = [] \<and> t_spends (rollBackAbove now height w) =
    map (\<lambda>r. if spBranch r = wBranch w \<and> spStatus r = SpendConfirmed \<and> height < spBlockHeight r then rolled now r else r)
      (t_spends w)"
proof -
  have False: "wBranch w \<noteq> BranchOther []" using assms(4) by auto
  let ?sps = "filter (\<lambda>r. spBranch r = wBranch w \<and> spStatus r = SpendConfirmed) (t_spends w)"
  have "length ?sps \<le> 1000" using assms(3) length_filter_le [of _ "t_spends w"] order_trans by blast
  then have "ListSpends \<lparr>sfBranch = wBranch w, sfChannelID = 0, sfStatus = SpendConfirmed, sfShape = ShapeOther [],
      sfLimit = MaxSpendLimit\<rparr> w = (w, Inr ?sps)"
    using assms(1) False by (simp add: ListSpends_def read_calm clampLimit_def MaxSpendLimit_def)
  then have e: "rollBackAbove now height w = fold (roll_one now height) ?sps w"
    by (simp add: rollBackAbove_def roll_one_def [abs_def])
  have l: "listed ?sps w"
    using spends.same_id [OF assms(2)] by (auto simp: listed_def)
  have "(\<exists>sp \<in> set ?sps. spID sp = spID r \<and> height < spBlockHeight sp) \<longleftrightarrow>
      spBranch r = wBranch w \<and> spStatus r = SpendConfirmed \<and> height < spBlockHeight r" if "r \<in> set (t_spends w)" for r
    using spends.same_id [OF assms(2) _ that] that by auto
  with fold_roll_rows [OF assms(1) l, of now height] show ?thesis unfolding e by (auto cong: map_cong)
qed

lemma known_heights:
  "map_of (fold (\<lambda>s out. case libParse env s of
       None \<Rightarrow> out
     | Some h \<Rightarrow> if map_of out h \<noteq> None then out else out @ [(h, 0)]) recent out) h =
   (case map_of out h of
      Some n \<Rightarrow> Some n
    | None \<Rightarrow> if \<exists>s \<in> set recent. libParse env s = Some h then Some (0 :: int) else None)"
  by (induction recent arbitrary: out) (auto simp: map_add_def split: option.splits)

lemma knownHashes_heights:
  assumes "RecentBranchHashes (wBranch w) (cfMaxReorgDepth (wCfg w)) w = (w, Inr recent)"
    and "wr_known lastRef"
  obtains known where "knownHashes env lastRef w = (w, Inr known)"
    and "\<And>h. map_of known h = (if h = wrHash lastRef then Some (wrHeight lastRef)
          else if \<exists>s \<in> set recent. libParse env s = Some h then Some 0 else None)"
  using assms by (auto simp: knownHashes_def known_heights split: option.split)

lemma walkBack_parent:
  assumes "knownHashes env lastRef w = (w, Inr known)" "map_of known (PrevHash tip) = Some n" "0 < cfMaxReorgDepth (wCfg w)"
  shows "walkBack env now tip lastRef w = (w, Inr ([tip], \<lparr>wrHeight = n, wrHash = PrevHash tip\<rparr>))"
proof -
  obtain k where "nat (cfMaxReorgDepth (wCfg w)) = Suc k" using assms(3) by (metis gr0_implies_Suc zero_less_nat_eq)
  with assms(1,2) show ?thesis by (simp add: walkBack_def)
qed

lemma catchUp_shallow:
  assumes "0 < cfMaxReorgDepth (wCfg w)" and "wr_known lastRef" and "0 < wrHeight lastRef"
    and "Height tip \<le> wrHeight lastRef" and "PrevHash tip \<noteq> wrHash lastRef"
    and "RecentBranchHashes (wBranch w) (cfMaxReorgDepth (wCfg w)) w = (w, Inr recent)"
    and "\<exists>s \<in> set recent. libParse env s = Some (PrevHash tip)"
  shows "catchUp env now tip lastRef w = processTo env now [tip] (rollBackAbove now 0 w)"
proof -
  obtain known where known: "knownHashes env lastRef w = (w, Inr known)"
    "\<And>h. map_of known h = (if h = wrHash lastRef then Some (wrHeight lastRef)
          else if \<exists>s \<in> set recent. libParse env s = Some h then Some 0 else None)"
    using knownHashes_heights [OF assms(6,2), of env] by metis
  have "walkBack env now tip lastRef w = (w, Inr ([tip], \<lparr>wrHeight = 0, wrHash = PrevHash tip\<rparr>))"
    using walkBack_parent [OF known(1) _ assms(1)] known(2) assms(5,7) by simp
  then show ?thesis
    using assms(3,4) by (simp add: catchUp_def replaced_def del: processTo.simps)
qed

text \<open>
  A reorganisation of one block is handled as though the whole chain had been replaced: when
  the parent of a tip is a remembered block other than the last one processed, the height the
  walk reports for it is zero, so every confirmed spend of the chain, however deep, is marked
  as reorganised out, and of the new branch only the tip itself is read: a remembered block
  below it that was never processed stays unread.
\<close>

theorem shallow_reorg_forgets_everything:
  assumes "faults w = []" and "spends_ok w" and "length (t_spends w) \<le> 1000" and "Branch_Valid (wBranch w)"
    and "0 < cfMaxReorgDepth (wCfg w)" and "wr_known lastRef" and "0 < wrHeight lastRef"
    and "Height tip \<le> wrHeight lastRef" and "PrevHash tip \<noteq> wrHash lastRef"
    and "RecentBranchHashes (wBranch w) (cfMaxReorgDepth (wCfg w)) w = (w, Inr recent)"
    and "\<exists>s \<in> set recent. libParse env s = Some (PrevHash tip)"
  shows "\<exists>w1. catchUp env now tip lastRef w = processTo env now [tip] w1
    \<and> t_spends w1 = map (\<lambda>r. if spBranch r = wBranch w \<and> spStatus r = SpendConfirmed \<and> 0 < spBlockHeight r
                             then r\<lparr>spStatus := SpendReorgedOut, spUpdatedAt := now\<rparr> else r) (t_spends w)"
proof -
  have "catchUp env now tip lastRef w = processTo env now [tip] (rollBackAbove now 0 w)"
    by (rule catchUp_shallow [OF assms(5-11)])
  moreover have "t_spends (rollBackAbove now 0 w) = map (\<lambda>r. if spBranch r = wBranch w \<and> spStatus r = SpendConfirmed
      \<and> 0 < spBlockHeight r then rolled now r else r) (t_spends w)"
    using rollBackAbove_rows [OF assms(1) _ assms(3,4)] assms(2) by (simp add: spends_ok_def)
  ultimately show ?thesis unfolding rolled_def by blast
qed

text \<open>A small world for the examples: hashes below ten, printed as 64 digits, and a view of three blocks.\<close>

definition demo_print :: "nat \<Rightarrow> string" where
  "demo_print n = replicate 63 (CHR ''0'') @ [char_of (48 + n)]"

definition demo_read :: "string \<Rightarrow> nat option" where
  "demo_read s = find (\<lambda>n. demo_print n = s) [0..<10]"

definition demo_outside :: outside where
  "demo_outside = \<lparr>libPrint = demo_print, libParse = demo_read, libTxHash = (\<lambda>tx. 1), libRawTx = (\<lambda>tx. ''00''),
     viewHashByHeight = (\<lambda>_ _. Inr 7), viewHeader = (\<lambda>_ _. Inl ErrNotFound), viewMatch = (\<lambda>_ _ _. Inr True),
     viewBlock = (\<lambda>_ _. Inr []), viewHealth = (\<lambda>_. Inr (False, 200)), guardPaused = False\<rparr>"

definition demo_watcher :: watcher where
  "demo_watcher = state_db.extend demo_state_db
     \<lparr>wBranch = BranchSQ, wCfg = withDefaults \<lparr>cfMaxReorgDepth = 0, cfMaxForwardGap = 0, cfBlockAttempts = 0\<rparr>,
      wSet = NewWatchSet [], wLast = \<lparr>wrHeight = 200, wrHash = 7\<rparr>,
      wProgress = \<lparr>prHeight = 200, prHash = demo_print 7, prAt = 0, prStalled = False, prStalledAt = 0, prWhy = '''',
        prRescanNext = 0, prRescanTarget = 0\<rparr>,
      wReplaying = False, wReplayingAt = None, wReplayingSeen = False, wCheckedStanding = False, wActiveBest = 0,
      wStrayNoted = False, wSweep = \<lparr>swNext = 0, swTarget = 0\<rparr>, wBlockedSweep = False, wPausedNoted = False,
      wNudge = False, wPublished = [], wCalls = 0\<rparr>"

text \<open>A spend confirmed at height 50, and a tip that replaces block 200 alone.\<close>

definition demo_deep :: watcher where
  "demo_deep = demo_watcher\<lparr>
     t_spends := [demo_spend\<lparr>spID := 1, spStatus := SpendConfirmed, spBlockHeight := 50\<rparr>],
     t_blocks := [\<lparr>bbBranch = BranchSQ, bbHeight = 199, bbHash = demo_print 5, bbPrevHash = demo_print 4,
       bbBlockTime = 0, bbReceivedAt = 0\<rparr>]\<rparr>"

definition demo_tip :: block_meta where
  "demo_tip = \<lparr>Hash = 8, Height = 200, PrevHash = 5, Time = 0\<rparr>"

lemmas demo_defs = demo_watcher_def demo_state_db_def empty_db_def state_db.defs db.defs

theorem shallow_reorg_forgets_everything_witness:
  "\<exists>w1. catchUp demo_outside 1000 demo_tip \<lparr>wrHeight = 200, wrHash = 7\<rparr> demo_deep = processTo demo_outside 1000 [demo_tip] w1
    \<and> map spStatus (t_spends w1) = [SpendReorgedOut]"
proof -
  have "RecentBranchHashes (wBranch demo_deep) (cfMaxReorgDepth (wCfg demo_deep)) demo_deep = (demo_deep, Inr [demo_print 5])"
    by (simp add: RecentBranchHashes_def demo_deep_def demo_defs read_calm Let_def newest_first_def withDefaults_def DefaultMaxReorgDepth_def)
  moreover have "demo_read (demo_print 5) = Some 5" by code_simp
  ultimately show ?thesis
    using shallow_reorg_forgets_everything [of demo_deep "\<lparr>wrHeight = 200, wrHash = 7\<rparr>" demo_tip "[demo_print 5]" demo_outside 1000]
    by (auto simp: demo_deep_def demo_defs demo_tip_def demo_outside_def spends_ok_def table_ok_def withDefaults_def
        DefaultMaxReorgDepth_def wr_known_def demo_spend_def)
qed

text \<open>A commitment spending output 0 of transaction 3, found in block 8.\<close>

definition demo_tx :: msg_tx where
  "demo_tx = \<lparr>TxIn = [\<lparr>PreviousOutPoint = \<lparr>opHash = 3, opIndex = 0\<rparr>, Witness = [], Sequence = 0x80000000\<rparr>],
     TxOut = [\<lparr>Value = 330, PkScript = [0x51]\<rparr>], LockTime = 0x20000000\<rparr>"

definition demo_target :: target where
  "demo_target = \<lparr>tgOutpoint = \<lparr>opHash = 3, opIndex = 0\<rparr>, tgKind = KindFunding, tgChannelID = 0, tgRole = RoleOther '''',
     tgSourceSpendEventID = 0, tgScript = []\<rparr>"

definition demo_match :: match where
  "demo_match = \<lparr>maTarget = demo_target, maTx = demo_tx, maTxID = 1, maTxIndex = 0, maInputIndex = 0\<rparr>"

definition demo_block :: block_ref where
  "demo_block = \<lparr>Hash = 8, Height = 201\<rparr>"

lemma demo_recorded:
  "snd (recordMatches demo_outside 5 demo_block [demo_match] demo_watcher) = Inr 1"
  "spends_ok demo_watcher" "faults demo_watcher = []"
  by code_simp+

theorem recording_is_idempotent_witness:
  "\<exists>w1. recordMatches demo_outside 5 demo_block [demo_match] demo_watcher = (w1, Inr 1)
    \<and> recordMatches demo_outside 9 demo_block [demo_match] w1 = (w1, Inr 0)"
proof -
  obtain w1 where w1: "recordMatches demo_outside 5 demo_block [demo_match] demo_watcher = (w1, Inr 1)"
    using demo_recorded(1) by (metis prod.collapse)
  then show ?thesis using recording_is_idempotent [OF demo_recorded(2,3) w1] by blast
qed

text \<open>
  C17: whatever the watcher is told and whatever fails, its record is append-only: along any run
  of its loop, with any answers of the chain view and any failing calls of the store, every
  spend it recorded stays under its id with its transaction and its first sighting, every
  outpoint it follows stays followed, and no spend is ever recorded twice.
\<close>

theorem watcher_history_kept:
  assumes "spends_ok w" and "r \<in> set (t_spends w)"
  shows "table_ok spID spend_key (t_spends (foldl turn w evs))
    \<and> (\<exists>r' \<in> set (t_spends (foldl turn w evs)). spID r' = spID r \<and> spend_key r' = spend_key r
         \<and> spSpendTxHex r' = spSpendTxHex r \<and> spFirstSeenAt r' = spFirstSeenAt r)
    \<and> set (t_outpoints w) \<subseteq> set (t_outpoints (foldl turn w evs))"
proof -
  have "spends_ok (foldl turn w evs)" "history_kept w (foldl turn w evs)"
    using watcher_run.run_inv [of w evs] watcher_run.run_le [of w evs] assms(1) by (simp_all add: list_all_iff)
  with assms(2) show ?thesis unfolding spends_ok_def history_kept_def same_spend_def by blast
qed

theorem watcher_history_kept_witness:
  "\<exists>r' \<in> set (t_spends (foldl turn demo_deep [(demo_outside, 1000, WTip demo_tip), (demo_outside, 1001, WSlice)])).
     spID r' = 1 \<and> spSpendTxHex r' = ''0200''"
proof -
  have "spends_ok demo_deep" by code_simp
  moreover have "demo_spend\<lparr>spID := 1, spStatus := SpendConfirmed, spBlockHeight := 50\<rparr> \<in> set (t_spends demo_deep)"
    by (simp add: demo_deep_def)
  ultimately have "\<exists>r' \<in> set (t_spends (foldl turn demo_deep [(demo_outside, 1000, WTip demo_tip), (demo_outside, 1001, WSlice)])).
     spID r' = spID (demo_spend\<lparr>spID := 1, spStatus := SpendConfirmed, spBlockHeight := 50\<rparr>)
     \<and> spSpendTxHex r' = spSpendTxHex (demo_spend\<lparr>spID := 1, spStatus := SpendConfirmed, spBlockHeight := 50\<rparr>)"
    using watcher_history_kept by blast
  then show ?thesis by (simp add: demo_spend_def)
qed

section \<open>Restarting\<close>

lemma SetMeta_calm:
  "faults d = [] \<Longrightarrow> key \<noteq> [] \<Longrightarrow> SetMeta key v d = (d\<lparr>t_meta := AList.update key v (t_meta d)\<rparr>, Inr ())"
  by (simp add: SetMeta_def db_call_def)

lemma GetMetaInt64_calm:
  "faults d = [] \<Longrightarrow> map_of (t_meta d) key = Some (formatInt64 n) \<Longrightarrow> is_i64 n \<Longrightarrow> GetMetaInt64 key def d = (d, Inr n)"
  by (simp add: GetMetaInt64_def GetMeta_def read_calm parse_format)

lemma meta_keys:
  "distinct [MetaLastScannedSQHeight, MetaLastScannedSQHash, MetaRescanNextSQHeight, MetaRescanTargetSQHeight, []]"
  by code_simp

lemma commitMark_calm:
  assumes "faults w = []"
  shows "faults (commitMark env now ref w) = []"
    and "map_of (t_meta (commitMark env now ref w)) = (map_of (t_meta w))(MetaLastScannedSQHeight \<mapsto> formatInt64 (wrHeight ref),
           MetaLastScannedSQHash \<mapsto> libPrint env (wrHash ref))"
    and "wLast (commitMark env now ref w) = ref"
  using assms meta_keys by (simp_all add: commitMark_def SetMetaInt64_def SetMeta_calm update_conv')

lemma setSweep_calm:
  assumes "faults w = []"
  shows "faults (setSweep s w) = []"
    and "map_of (t_meta (setSweep s w)) = (map_of (t_meta w))(MetaRescanNextSQHeight \<mapsto> formatInt64 (swNext s),
           MetaRescanTargetSQHeight \<mapsto> formatInt64 (swTarget s))"
    and "wSweep (setSweep s w) = s" and "wLast (setSweep s w) = wLast w"
  using assms meta_keys by (simp_all add: setSweep_def SetMetaInt64_def SetMeta_calm update_conv' Let_def)

lemma rebuild_calm:
  assumes "faults w = []" obtains ws where "rebuild env w = w\<lparr>wSet := ws\<rparr>"
  using assms by (auto simp: rebuild_def Build_def ListChannels_def ListWatchOutpoints_def read_calm)

lemma loadSweep_calm:
  assumes "faults w = []" "is_i32 n" "is_i32 t"
    and "map_of (t_meta w) MetaRescanNextSQHeight = Some (formatInt64 n)"
    and "map_of (t_meta w) MetaRescanTargetSQHeight = Some (formatInt64 t)"
  shows "loadSweep w = w\<lparr>wSweep := \<lparr>swNext = n, swTarget = t\<rparr>,
           wProgress := (wProgress w)\<lparr>prRescanNext := n, prRescanTarget := t\<rparr>\<rparr>"
proof -
  have "is_i64 n" "is_i64 t" using assms(2,3) by (simp_all add: is_i32_def is_i64_def)
  moreover have "toInt32 n = Some n" "toInt32 t = Some t" using assms(2,3) by (simp_all add: is_i32_def toInt32_def)
  ultimately show ?thesis using assms by (simp add: loadSweep_def GetMetaInt64_calm)
qed

text \<open>
  C18: a restart resumes where the last run stopped: once the mark and the range to catch up
  are stored, a watcher started on the same tables, whatever it holds in memory, takes up that
  mark and that range, not stalled.
\<close>

theorem restart_resumes:
  assumes "faults w = []" and "wr_known ref" and "0 < wrHeight ref" and "is_i32 (wrHeight ref)"
    and "is_i32 (swNext s)" and "is_i32 (swTarget s)"
    and "libParse env (libPrint env (wrHash ref)) = Some (wrHash ref)" and "length (libPrint env (wrHash ref)) = 64"
    and "state_db.truncate w2 = state_db.truncate (setSweep s (commitMark env now ref w))"
  shows "\<exists>w3. load env w2 = (w3, Inr ()) \<and> wLast w3 = ref \<and> wSweep w3 = s \<and> \<not> prStalled (wProgress w3)"
proof -
  let ?m = "commitMark env now ref w"
  have eq: "faults w2 = []" "t_meta w2 = t_meta (setSweep s ?m)"
    using arg_cong [OF assms(9), of faults] arg_cong [OF assms(9), of t_meta]
      setSweep_calm(1) [OF commitMark_calm(1) [OF assms(1)]] by (simp_all add: state_db.defs)
  have meta: "map_of (t_meta w2) = (map_of (t_meta w))(MetaLastScannedSQHeight \<mapsto> formatInt64 (wrHeight ref),
      MetaLastScannedSQHash \<mapsto> libPrint env (wrHash ref), MetaRescanNextSQHeight \<mapsto> formatInt64 (swNext s),
      MetaRescanTargetSQHeight \<mapsto> formatInt64 (swTarget s))"
    by (simp add: eq setSweep_calm(2) [OF commitMark_calm(1) [OF assms(1)]] commitMark_calm(2) [OF assms(1)])
  have h: "GetMetaInt64 MetaLastScannedSQHeight 0 w2 = (w2, Inr (wrHeight ref))"
    using meta meta_keys assms(4) by (intro GetMetaInt64_calm [OF eq(1)]) (auto simp: is_i32_def is_i64_def)
  have s: "GetMeta MetaLastScannedSQHash w2 = (w2, Inr (libPrint env (wrHash ref)))"
    using meta meta_keys by (simp add: GetMeta_def read_calm [OF eq(1)])
  have last: "last_of env (wrHeight ref) (libPrint env (wrHash ref)) = ref"
    using assms by (cases ref) (auto simp: last_of_def toInt32_def is_i32_def MaxHashStringSize_def)
  define w3 where "w3 = w2\<lparr>wLast := ref,
      wProgress := \<lparr>prHeight = wrHeight ref, prHash = hashOrEmpty env ref, prAt = 0,
        prStalled = False, prStalledAt = 0, prWhy = [], prRescanNext = 0, prRescanTarget = 0\<rparr>\<rparr>"
  have l: "load env w2 = (loadSweep (rebuild env w3), Inr ())"
    by (simp add: load_def h s last w3_def Let_def)
  obtain ws where ws: "rebuild env w3 = w3\<lparr>wSet := ws\<rparr>" using rebuild_calm [of w3 env] eq(1) by (auto simp: w3_def)
  have "loadSweep (rebuild env w3) = w3\<lparr>wSet := ws, wSweep := s,
      wProgress := (wProgress w3)\<lparr>prRescanNext := swNext s, prRescanTarget := swTarget s\<rparr>\<rparr>"
    unfolding ws using meta meta_keys eq(1) assms(5,6) by (subst loadSweep_calm) (auto simp: w3_def)
  with l show ?thesis by (simp add: w3_def)
qed

theorem restart_resumes_witness:
  "\<exists>w3. load demo_outside ((setSweep \<lparr>swNext = 100, swTarget = 201\<rparr>
        (commitMark demo_outside 5 \<lparr>wrHeight = 201, wrHash = 8\<rparr> demo_watcher))\<lparr>wLast := no_ref, wSweep := \<lparr>swNext = 0, swTarget = 0\<rparr>\<rparr>)
      = (w3, Inr ()) \<and> wLast w3 = \<lparr>wrHeight = 201, wrHash = 8\<rparr> \<and> wSweep w3 = \<lparr>swNext = 100, swTarget = 201\<rparr>"
proof -
  let ?ref = "\<lparr>wrHeight = 201, wrHash = 8\<rparr>"
  let ?s = "\<lparr>swNext = 100, swTarget = 201\<rparr>"
  let ?w = "setSweep ?s (commitMark demo_outside 5 ?ref demo_watcher)"
  have "libParse demo_outside (libPrint demo_outside 8) = Some 8" "length (libPrint demo_outside 8) = 64" by code_simp+
  moreover have "state_db.truncate (?w\<lparr>wLast := no_ref, wSweep := \<lparr>swNext = 0, swTarget = 0\<rparr>\<rparr>) = state_db.truncate ?w"
    by (simp add: state_db.defs)
  ultimately show ?thesis
    using restart_resumes [of demo_watcher ?ref ?s demo_outside "?w\<lparr>wLast := no_ref, wSweep := \<lparr>swNext = 0, swTarget = 0\<rparr>\<rparr>" 5]
      demo_recorded(3) by (auto simp: wr_known_def is_i32_def)
qed

section \<open>What only the mark and the sweep change\<close>

definition memory :: "watcher \<Rightarrow> wref \<times> sweep \<times> bool \<times> config \<times> branch" where
  "memory w = (wLast w, wSweep w, wBlockedSweep w, wCfg w, wBranch w)"

lemma store_memory [simp]:
  "memory (fst (db_read f w)) = memory w"
  "memory (fst (RecordSpend sp w)) = memory w"
  "memory (fst (UpdateSpendStatus i st h n at w)) = memory w"
  "memory (fst (UpdateSpendShape i sh at w)) = memory w"
  "memory (fst (AddWatchOutpoint out w)) = memory w"
  "memory (fst (UpsertAlert a w)) = memory w"
  "memory (fst (ResolveAlert a ks w)) = memory w"
  "memory (fst (SetMeta k v w)) = memory w"
  by (auto simp: memory_def db_read_def RecordSpend_def UpdateSpendStatus_def UpdateSpendShape_def AddWatchOutpoint_def
      UpsertAlert_def ResolveAlert_def SetMeta_def insert_alert_def requireOneRow_def Let_def db_call_def
      split: list.split option.split prod.split)

lemma read_memory [simp]:
  "memory (fst (ListChannels cf w)) = memory w" "memory (fst (GetSpend i w)) = memory w"
  "memory (fst (ListWatchOutpoints br w)) = memory w" "memory (fst (SetMetaInt64 k n w)) = memory w"
  by (simp_all add: ListChannels_def GetSpend_def ListWatchOutpoints_def SetMetaInt64_def)

lemma wpublish_memory [simp]: "memory (wpublish ev w) = memory w"
  by (simp add: memory_def wpublish_def)

lemma ask_memory [simp]: "memory (fst (ask f w)) = memory w"
  by (simp add: memory_def ask_def)

lemma memory_set [simp]:
  "memory (w\<lparr>wSet := ws\<rparr>) = memory w" "memory (w\<lparr>wCheckedStanding := b\<rparr>) = memory w"
  "memory (w\<lparr>wProgress := p\<rparr>) = memory w" "memory (w\<lparr>wProgress := p, wCheckedStanding := b\<rparr>) = memory w"
  by (simp_all add: memory_def)

lemma Build_memory [simp]: "memory (fst (Build p br w)) = memory w"
  by (simp add: Build_def case_prod_beta split: sum.split)

lemma rebuild_memory [simp]: "memory (rebuild env w) = memory w"
  by (simp add: rebuild_def case_prod_beta split: sum.split)

lemma alert_memory [simp]:
  "memory (raise now k s m w) = memory w" "memory (resolve now k s m w) = memory w"
  by (simp_all add: raise_def resolve_def case_prod_beta split: sum.split)

lemma stall_memory [simp]:
  "memory (closeStanding now w) = memory w" "memory (clearStall now w) = memory w" "memory (stall now h w) = memory w"
  by (simp_all add: closeStanding_def clearStall_def stall_def Let_def)

lemma shapeOf_memory [simp]: "memory (fst (shapeOf env m h w)) = memory w"
  by (simp add: shapeOf_def ourCloseTxID_def case_prod_beta split: sum.split)

lemma followCommitment_memory [simp]: "memory (followCommitment env i m sh w) = memory w"
proof -
  have "memory (fold (\<lambda>out w. fst (AddWatchOutpoint out w)) outs w) = memory w" for outs
    by (induction outs arbitrary: w) simp_all
  then show ?thesis by (simp add: followCommitment_def watchCommitmentOutputs_def)
qed

lemma announce_memory [simp]: "memory (announce env m i h sh w) = memory w"
  by (simp add: announce_def)

lemma resolveSource_memory [simp]: "memory (resolveSource now m sh w) = memory w"
  by (simp add: resolveSource_def case_prod_beta split: sum.split)

lemma confirmIfPending_memory [simp]: "memory (fst (confirmIfPending env now i m meta sh w)) = memory w"
  by (simp add: confirmIfPending_def case_prod_beta split: sum.split)

lemma record_match_memory [simp]: "memory (fst (record_match env now meta m w)) = memory w"
  by (simp add: record_match_def case_prod_beta split: sum.split)

lemma recordMatches_memory [simp]: "memory (fst (recordMatches env now meta ms w)) = memory w"
  by (induction ms arbitrary: w) (simp_all add: case_prod_beta split: sum.split)

lemma passes_memory [simp]: "memory (fst (passes n again env now meta blk w)) = memory w"
  by (induction n arbitrary: again w) (simp_all add: Let_def case_prod_beta split: sum.split)

lemma processBlock_memory [simp]: "memory (fst (processBlock env now meta w)) = memory w"
  by (simp add: processBlock_def case_prod_beta split: sum.split)

lemma attempts_memory [simp]: "memory (fst (attempts n env now meta w)) = memory w"
  by (induction n arbitrary: w) (simp_all add: case_prod_beta split: sum.split)

lemma processWithRetries_memory [simp]: "memory (fst (processWithRetries env now meta w)) = memory w"
  by (simp add: processWithRetries_def)

text \<open>The state once the first \<open>k\<close> blocks of a path were read and the mark moved after each.\<close>

definition read_through :: "outside \<Rightarrow> int \<Rightarrow> block_meta list \<Rightarrow> nat \<Rightarrow> watcher \<Rightarrow> watcher" where
  "read_through env now bs k w =
     fold (\<lambda>b w. commitMark env now (ref_of b) (fst (processWithRetries env now (block_ref.truncate b) w))) (take k bs) w"

lemma memory_mark: "memory u = memory v \<Longrightarrow> wLast u = wLast v"
  by (simp add: memory_def)

lemma commitMark_mark: "wLast (commitMark env now ref w) = wLast w \<or> wLast (commitMark env now ref w) = ref"
proof -
  obtain w1 r where s: "SetMetaInt64 MetaLastScannedSQHeight (wrHeight ref) w = (w1, r)" by fastforce
  obtain w2 r2 where s2: "SetMeta MetaLastScannedSQHash (libPrint env (wrHash ref)) w1 = (w2, r2)" by fastforce
  have "wLast w1 = wLast w" "wLast w2 = wLast w1"
    using memory_mark [OF read_memory(4)] memory_mark [OF store_memory(8)] s s2 by (metis fst_conv)+
  with s s2 show ?thesis by (simp add: commitMark_def split: sum.split)
qed

lemma clearStall_progress: "\<not> prStalled (wProgress (clearStall now w))"
proof -
  have r: "wProgress (resolve now k s m u) = wProgress u" for k s m u
    by (auto simp: resolve_def ResolveAlert_def db_call_def wpublish_def case_prod_beta
        split: sum.split list.split option.split)
  show ?thesis by (simp add: clearStall_def Let_def closeStanding_def r)
qed

lemma stall_progress: "prStalled (wProgress (stall now h w)) \<and> prStalledAt (wProgress (stall now h w)) = h"
proof -
  have r: "wProgress (raise now k s m u) = wProgress u" for k s m u
    by (auto simp: raise_def UpsertAlert_def db_call_def wpublish_def insert_alert_def case_prod_beta Let_def
        split: sum.split list.split option.split)
  show ?thesis by (simp add: stall_def Let_def r)
qed

text \<open>
  C16: the mark never passes a block that could not be read: a path is worked through in order,
  and stops at the first block whose attempts all fail; the watcher is then stalled at that
  block and its mark is a block before it, so the next tip starts from there again. It is
  stalled exactly when some block failed.
\<close>

theorem mark_never_passes_a_failure:
  "\<exists>k \<le> length bs.
     (\<forall>i < k. snd (processWithRetries env now (block_ref.truncate (bs ! i)) (read_through env now bs i w)) = Inr ())
   \<and> (k < length bs \<longrightarrow>
        isl (snd (processWithRetries env now (block_ref.truncate (bs ! k)) (read_through env now bs k w)))
        \<and> prStalledAt (wProgress (processTo env now bs w)) = Height (bs ! k))
   \<and> (prStalled (wProgress (processTo env now bs w)) \<longleftrightarrow> k < length bs)
   \<and> wLast (processTo env now bs w) \<in> insert (wLast w) (ref_of ` set (take k bs))"
proof (induction bs arbitrary: w)
  case Nil
  show ?case using clearStall_progress memory_mark [OF stall_memory(2)] by simp
next
  case (Cons b bs)
  obtain w1 r where p: "processWithRetries env now (block_ref.truncate b) w = (w1, r)" by fastforce
  then have m1: "wLast w1 = wLast w" using memory_mark [OF processWithRetries_memory] by (metis fst_conv)
  show ?case
  proof (cases r)
    case (Inl e)
    then show ?thesis
      using p m1 stall_progress [of now "Height b" w1] memory_mark [OF stall_memory(3), of now "Height b" w1]
      by (intro exI [of _ 0]) (simp add: read_through_def)
  next
    case (Inr u)
    let ?w = "commitMark env now (ref_of b) w1"
    from Cons.IH [of ?w] obtain k where k: "k \<le> length bs"
      "\<forall>i < k. snd (processWithRetries env now (block_ref.truncate (bs ! i)) (read_through env now bs i ?w)) = Inr ()"
      "k < length bs \<longrightarrow> isl (snd (processWithRetries env now (block_ref.truncate (bs ! k)) (read_through env now bs k ?w)))
         \<and> prStalledAt (wProgress (processTo env now bs ?w)) = Height (bs ! k)"
      "prStalled (wProgress (processTo env now bs ?w)) \<longleftrightarrow> k < length bs"
      "wLast (processTo env now bs ?w) \<in> insert (wLast ?w) (ref_of ` set (take k bs))" by blast
    have step: "read_through env now (b # bs) (Suc i) w = read_through env now bs i ?w" for i
      using p by (simp add: read_through_def)
    have run: "processTo env now (b # bs) w = processTo env now bs ?w" using p Inr by simp
    have first: "snd (processWithRetries env now (block_ref.truncate b) (read_through env now (b # bs) 0 w)) = Inr ()"
      using p Inr by (simp add: read_through_def)
    have "wLast (processTo env now bs ?w) \<in> insert (wLast w) (ref_of ` set (take (Suc k) (b # bs)))"
      using k(5) commitMark_mark [of env now "ref_of b" w1] m1 by auto
    then show ?thesis
      using k(1-4) first by (intro exI [of _ "Suc k"]) (auto simp: step run less_Suc_eq_0_disj simp del: processTo.simps)
  qed
qed

text \<open>Two blocks, of which the second cannot be read.\<close>

definition demo_faulty :: outside where
  "demo_faulty = demo_outside\<lparr>viewMatch := \<lambda>_ h _. if h = 9 then Inl ErrUnreachable else Inr False\<rparr>"

definition demo_path :: "block_meta list" where
  "demo_path = [\<lparr>Hash = 8, Height = 201, PrevHash = 7, Time = 0\<rparr>, \<lparr>Hash = 9, Height = 202, PrevHash = 8, Time = 0\<rparr>]"

theorem mark_never_passes_a_failure_witness:
  "wLast (processTo demo_faulty 5 demo_path (demo_watcher\<lparr>wSet := NewWatchSet [demo_target]\<rparr>))
      \<in> {\<lparr>wrHeight = 200, wrHash = 7\<rparr>, \<lparr>wrHeight = 201, wrHash = 8\<rparr>}"
proof -
  let ?w = "demo_watcher\<lparr>wSet := NewWatchSet [demo_target]\<rparr>"
  have "prStalled (wProgress (processTo demo_faulty 5 demo_path ?w))" by code_simp
  with mark_never_passes_a_failure [of demo_path demo_faulty 5 ?w] obtain k where k: "k < length demo_path"
    "wLast (processTo demo_faulty 5 demo_path ?w) \<in> insert (wLast ?w) (ref_of ` set (take k demo_path))" by blast
  have "take k demo_path = [] \<or> take k demo_path = take 1 demo_path"
    using k(1) by (cases k) (auto simp: demo_path_def)
  moreover have "wLast ?w = \<lparr>wrHeight = 200, wrHash = 7\<rparr>" by (simp add: demo_defs)
  ultimately show ?thesis using k(2) by (auto simp: demo_path_def ref_of_def)
qed

section \<open>Catching up behind the mark\<close>

lemma memory_sweep:
  "memory u = memory v \<Longrightarrow> wSweep u = wSweep v"
  "memory u = memory v \<Longrightarrow> wBlockedSweep u = wBlockedSweep v"
  by (simp_all add: memory_def)

lemma setSweep_memory:
  "wSweep (setSweep s w) = s" "wLast (setSweep s w) = wLast w"
  "wBlockedSweep (setSweep s w) = (wBlockedSweep w \<and> \<not> pending s)"
proof -
  define w2 where "w2 = (let w1 = w\<lparr>wSweep := s, wProgress := (wProgress w)\<lparr>prRescanNext := swNext s, prRescanTarget := swTarget s\<rparr>\<rparr>
      in if pending s then w1\<lparr>wBlockedSweep := False\<rparr> else w1)"
  have "memory (setSweep s w) = memory w2"
    by (simp add: setSweep_def w2_def [unfolded Let_def, symmetric] Let_def case_prod_beta split: sum.split)
       (simp add: memory_def w2_def Let_def)
  then show "wSweep (setSweep s w) = s" "wLast (setSweep s w) = wLast w"
    "wBlockedSweep (setSweep s w) = (wBlockedSweep w \<and> \<not> pending s)"
    by (auto simp: memory_def w2_def Let_def split: if_splits)
qed

text \<open>
  Asking for a rescan covers what was asked and drops nothing already queued: when a range is
  queued, every height from the one asked for (or one) up to the mark is waiting afterwards,
  and so is every height that was waiting before; the mark itself does not move.
\<close>

theorem rescan_covers:
  assumes "queueSweep start w = (w', Some (a, b))"
  shows "pending (wSweep w') \<and> wLast w' = wLast w \<and> wNudge w'
    \<and> {max 1 start..wrHeight (wLast w)} \<subseteq> {swNext (wSweep w')..swTarget (wSweep w')}
    \<and> (pending (wSweep w) \<longrightarrow> {swNext (wSweep w)..swTarget (wSweep w)} \<subseteq> {swNext (wSweep w')..swTarget (wSweep w')})"
  using assms unfolding queueSweep_def Let_def
  by (auto simp: setSweep_memory pending_def split: if_splits)

theorem rescan_covers_witness:
  "\<exists>w'. queueSweep 150 demo_watcher = (w', Some (150, 200)) \<and> {150..200} \<subseteq> {swNext (wSweep w')..swTarget (wSweep w')}"
proof -
  obtain w' where w': "queueSweep 150 demo_watcher = (w', Some (150, 200))"
    by (simp add: queueSweep_def demo_defs pending_def Let_def)
  from rescan_covers [OF this] have "{150..200} \<subseteq> {swNext (wSweep w')..swTarget (wSweep w')}" by (simp add: demo_defs)
  with w' show ?thesis by blast
qed

text \<open>A world in which every block of the chain can be read.\<close>

definition readable :: "outside \<Rightarrow> int \<Rightarrow> bool" where
  "readable env now \<longleftrightarrow> \<not> guardPaused env \<and> (\<forall>n h. \<not> isl (viewHashByHeight env n h))
     \<and> (\<forall>meta u. \<not> isl (snd (processWithRetries env now meta u)))"

definition advanced :: "nat \<Rightarrow> sweep \<Rightarrow> sweep" where
  "advanced n s = (if pending s then s\<lparr>swNext := min (swNext s + int n) (swTarget s + 1)\<rparr> else s)"

lemma slice_loop_reads:
  assumes "readable env now" "wSweep w = s" "\<not> wBlockedSweep w" "- (2 ^ 31) \<le> swNext s" "swTarget s < 2 ^ 31 - 1"
  shows "\<exists>w'. slice_loop n env now s w = (w', Some (advanced n s)) \<and> wSweep w' = advanced n s \<and> \<not> wBlockedSweep w'"
  using assms
proof (induction n arbitrary: s w)
  case 0
  then show ?case by (auto simp: advanced_def pending_def)
next
  case (Suc n)
  show ?case
  proof (cases "pending s")
    case False
    then show ?thesis using Suc.prems by (simp add: advanced_def)
  next
    case True
    obtain w1 r where a: "ask (\<lambda>k. viewHashByHeight env k (swNext s)) w = (w1, r)" by fastforce
    have "\<not> isl (viewHashByHeight env (wCalls w) (swNext s))" using Suc.prems(1) by (simp add: readable_def)
    with a obtain h where h: "r = Inr h" by (cases r) (auto simp: ask_def)
    obtain w2 y where p: "processWithRetries env now \<lparr>Hash = h, Height = swNext s\<rparr> w1 = (w2, y)" by fastforce
    have "\<not> isl (snd (processWithRetries env now \<lparr>Hash = h, Height = swNext s\<rparr> w1))"
      using Suc.prems(1) by (simp add: readable_def)
    with p have y: "y = Inr ()" by (cases y) auto
    have m: "memory w2 = memory w" using a p ask_memory processWithRetries_memory by (metis fst_conv)
    let ?s = "s\<lparr>swNext := i32 (swNext s + 1)\<rparr>"
    have i: "i32 (swNext s + 1) = swNext s + 1" using Suc.prems(4,5) True by (simp add: pending_def)
    obtain w' where w': "slice_loop n env now ?s (setSweep ?s w2) = (w', Some (advanced n ?s))"
      "wSweep w' = advanced n ?s" "\<not> wBlockedSweep w'"
      using Suc.IH [of "setSweep ?s w2" ?s] Suc.prems i memory_sweep(2) [OF m] True
      by (auto simp: setSweep_memory pending_def)
    have "advanced n ?s = advanced (Suc n) s" using True i by (auto simp: advanced_def pending_def)
    then show ?thesis using w' True a h p y by (simp add: Let_def)
  qed
qed

lemma sweepSlice_reads:
  assumes "readable env now" "\<not> wBlockedSweep w" "- (2 ^ 31) \<le> swNext (wSweep w)" "swTarget (wSweep w) < 2 ^ 31 - 1"
    and "pending (wSweep w)"
  shows "wSweep (fst (sweepSlice env now w)) =
      (if pending (advanced rescanChunk (wSweep w)) then advanced rescanChunk (wSweep w) else \<lparr>swNext = 0, swTarget = 0\<rparr>)
    \<and> \<not> wBlockedSweep (fst (sweepSlice env now w))"
  using slice_loop_reads [OF assms(1) refl assms(2-4), of rescanChunk] assms(1,2,5)
  by (auto simp: sweepSlice_def readable_def setSweep_memory)

lemma sweepSlice_idle: "\<not> pending (wSweep w) \<Longrightarrow> ((\<lambda>w. fst (sweepSlice env now w)) ^^ n) w = w"
  by (induction n) (simp_all add: sweepSlice_def)

text \<open>
  A rescan finishes: while every block can be read, no more slices are needed than the
  waiting heights divided by the slice size; after that many nothing is waiting.
\<close>

theorem rescan_finishes:
  assumes "readable env now" and "\<not> wBlockedSweep w" and "- (2 ^ 31) \<le> swNext (wSweep w)"
    and "swTarget (wSweep w) < 2 ^ 31 - 1"
    and "swTarget (wSweep w) - swNext (wSweep w) < int (rescanChunk * k)"
  shows "\<not> pending (wSweep (((\<lambda>w. fst (sweepSlice env now w)) ^^ k) w))"
  using assms
proof (induction k arbitrary: w)
  case 0
  then show ?case by (simp add: pending_def)
next
  case (Suc k)
  let ?f = "\<lambda>w. fst (sweepSlice env now w)"
  have "\<not> pending (wSweep ((?f ^^ k) (?f w)))" if p: "pending (wSweep w)"
  proof (cases "pending (wSweep (?f w))")
    case True
    have s: "wSweep (?f w) = advanced rescanChunk (wSweep w)" "\<not> wBlockedSweep (?f w)"
      using sweepSlice_reads [OF Suc.prems(1-4) p] True by (auto simp: pending_def split: if_splits)
    show ?thesis
      by (rule Suc.IH) (use s p True Suc.prems in \<open>auto simp: advanced_def pending_def\<close>)
  next
    case False
    then show ?thesis by (simp add: sweepSlice_idle)
  qed
  moreover have "(?f ^^ Suc k) w = (?f ^^ k) (?f w)" by (simp only: funpow_Suc_right comp_apply)
  ultimately show ?case
    using sweepSlice_idle [of w "Suc k" env now] by (metis (no_types, lifting))
qed

lemma quiet_readable: "readable (demo_outside\<lparr>viewMatch := \<lambda>_ _ _. Inr False\<rparr>) now"
proof -
  let ?env = "demo_outside\<lparr>viewMatch := \<lambda>_ _ _. Inr False\<rparr>"
  have b: "\<exists>u'. processBlock ?env now b u = (u', Inr ())" for b u
    by (simp add: processBlock_def ask_def)
  have "\<not> isl (snd (attempts n ?env now b u))" for n b u
    using b [of b u] by (cases n) auto
  then show ?thesis by (simp add: readable_def processWithRetries_def demo_outside_def)
qed

theorem rescan_finishes_witness:
  "\<not> pending (wSweep (((\<lambda>w. fst (sweepSlice (demo_outside\<lparr>viewMatch := \<lambda>_ _ _. Inr False\<rparr>) 5 w)) ^^ 3)
      (demo_watcher\<lparr>wSweep := \<lparr>swNext = 150, swTarget = 200\<rparr>\<rparr>)))"
  using rescan_finishes [OF quiet_readable, of "demo_watcher\<lparr>wSweep := \<lparr>swNext = 150, swTarget = 200\<rparr>\<rparr>" 3 5]
  by (simp add: demo_defs rescanChunk_def)

section \<open>How a close ends\<close>

lemma AddWatchOutpoint_calm:
  assumes "faults w = []" "Branch_Valid (woBranch out)" "woScriptHex out \<noteq> []" "Role_Valid (woRole out)"
    and "woSourceSpendEventID out \<in> spID ` set (t_spends w)"
  shows "outpoint_key out \<in> outpoint_key ` set (t_outpoints (fst (AddWatchOutpoint out w)))"
    and "\<exists>rows. fst (AddWatchOutpoint out w) = w\<lparr>t_outpoints := t_outpoints w @ rows\<rparr>"
proof -
  have "list_ex (\<lambda>s. spID s = woSourceSpendEventID out) (t_spends w)" using assms(5) by (force simp: list_ex_iff)
  then show "outpoint_key out \<in> outpoint_key ` set (t_outpoints (fst (AddWatchOutpoint out w)))"
    using assms(1-4) by (cases "list_ex (\<lambda>r. outpoint_key r = outpoint_key out) (t_outpoints w)")
      (simp_all add: AddWatchOutpoint_def db_call_def, auto simp: list_ex_iff image_iff, metis)
  have "\<exists>rows. w = w\<lparr>t_outpoints := t_outpoints w @ rows\<rparr>" by (rule exI [of _ "[]"]) simp
  then show "\<exists>rows. fst (AddWatchOutpoint out w) = w\<lparr>t_outpoints := t_outpoints w @ rows\<rparr>"
    using assms(1-4) by (auto simp: AddWatchOutpoint_def db_call_def)
qed

lemma fold_AddWatchOutpoint:
  assumes "faults w = []" "\<And>out. out \<in> set outs \<Longrightarrow> Branch_Valid (woBranch out) \<and> woScriptHex out \<noteq> []
      \<and> Role_Valid (woRole out) \<and> woSourceSpendEventID out \<in> spID ` set (t_spends w)"
  shows "(\<forall>out \<in> set outs. outpoint_key out \<in> outpoint_key ` set (t_outpoints (fold (\<lambda>out w. fst (AddWatchOutpoint out w)) outs w)))
    \<and> (\<exists>rows. fold (\<lambda>out w. fst (AddWatchOutpoint out w)) outs w = w\<lparr>t_outpoints := t_outpoints w @ rows\<rparr>)"
  using assms
proof (induction outs arbitrary: w)
  case Nil
  show ?case by (auto intro: exI [of _ "[]"])
next
  case (Cons out outs)
  let ?w = "fst (AddWatchOutpoint out w)"
  have a: "outpoint_key out \<in> outpoint_key ` set (t_outpoints ?w)" "\<exists>rows. ?w = w\<lparr>t_outpoints := t_outpoints w @ rows\<rparr>"
    using AddWatchOutpoint_calm [of w out] Cons.prems(1) Cons.prems(2) [of out] by simp_all
  then obtain rows where rows: "?w = w\<lparr>t_outpoints := t_outpoints w @ rows\<rparr>" by blast
  have "faults ?w = []" "t_spends ?w = t_spends w" using Cons.prems(1) by (simp_all add: rows)
  with Cons.IH [of ?w] Cons.prems(2) obtain rows' where r:
    "\<forall>o' \<in> set outs. outpoint_key o' \<in> outpoint_key ` set (t_outpoints (fold (\<lambda>out w. fst (AddWatchOutpoint out w)) outs ?w))"
    "fold (\<lambda>out w. fst (AddWatchOutpoint out w)) outs ?w = ?w\<lparr>t_outpoints := t_outpoints ?w @ rows'\<rparr>" by auto
  with a(1) rows show ?case by (auto intro: exI [of _ "rows @ rows'"])
qed

lemma CommitmentOutputs_mem:
  assumes "k < length (TxOut tx)" "PkScript (TxOut tx ! k) \<noteq> []" "length (TxOut tx) < 2 ^ 31"
  shows "\<lparr>woBranch = br, woTxID = txid, woVout = int k, woScriptHex = hex_encode (PkScript (TxOut tx ! k)),
    woSourceSpendEventID = i, woRole = roleOf (TxOut tx ! k)\<rparr> \<in> set (CommitmentOutputs txid (Some tx) br i)"
proof -
  have "int k < 2 ^ 31" using assms(1,3) by simp
  then have "i32 (int k) = int k" by simp
  with assms(1,2) show ?thesis by (force simp: CommitmentOutputs_def map_filter_enumerate)
qed

lemma CommitmentOutputs_rows:
  "out \<in> set (CommitmentOutputs txid (Some tx) br i) \<Longrightarrow>
     woBranch out = br \<and> woScriptHex out \<noteq> [] \<and> Role_Valid (woRole out) \<and> woSourceSpendEventID out = i"
proof -
  have "hex_encode s \<noteq> []" if "s \<noteq> []" for s using that by (cases s) simp_all
  then show "out \<in> set (CommitmentOutputs txid (Some tx) br i) \<Longrightarrow>
     woBranch out = br \<and> woScriptHex out \<noteq> [] \<and> Role_Valid (woRole out) \<and> woSourceSpendEventID out = i"
    by (auto simp: CommitmentOutputs_def map_filter_enumerate roleOf_def split: if_splits)
qed

lemma followCommitment_adds:
  assumes "faults w = []" "Branch_Valid (wBranch w)" "i \<in> spID ` set (t_spends w)"
    and "sh \<in> {ShapeCommitmentOurs, ShapeCommitmentUnknown, ShapeCommitmentRevoked}"
    and "k < length (TxOut (maTx m))" "PkScript (TxOut (maTx m) ! k) \<noteq> []" "length (TxOut (maTx m)) < 2 ^ 31"
  obtains rows out where "followCommitment env i m sh w = w\<lparr>t_outpoints := t_outpoints w @ rows\<rparr>"
    and "out \<in> set (t_outpoints w @ rows)" "outpoint_key out = (wBranch w, libPrint env (maTxID m), int k)"
proof -
  let ?outs = "CommitmentOutputs (libPrint env (maTxID m)) (Some (maTx m)) (wBranch w) i"
  have v: "Branch_Valid (woBranch out) \<and> woScriptHex out \<noteq> [] \<and> Role_Valid (woRole out)
      \<and> woSourceSpendEventID out \<in> spID ` set (t_spends w)" if "out \<in> set ?outs" for out
    using CommitmentOutputs_rows [OF that] assms(2,3) by simp
  let ?out = "\<lparr>woBranch = wBranch w, woTxID = libPrint env (maTxID m), woVout = int k,
    woScriptHex = hex_encode (PkScript (TxOut (maTx m) ! k)), woSourceSpendEventID = i, woRole = roleOf (TxOut (maTx m) ! k)\<rparr>"
  from fold_AddWatchOutpoint [OF assms(1) v] obtain rows where rows:
    "\<forall>out \<in> set ?outs. outpoint_key out \<in> outpoint_key ` set (t_outpoints (fold (\<lambda>out w. fst (AddWatchOutpoint out w)) ?outs w))"
    "fold (\<lambda>out w. fst (AddWatchOutpoint out w)) ?outs w = w\<lparr>t_outpoints := t_outpoints w @ rows\<rparr>" by blast
  then have "outpoint_key ?out \<in> outpoint_key ` set (t_outpoints w @ rows)"
    using CommitmentOutputs_mem [OF assms(5-7)] by fastforce
  then obtain out where "out \<in> set (t_outpoints w @ rows)" "outpoint_key out = outpoint_key ?out" by force
  moreover have "followCommitment env i m sh w = w\<lparr>t_outpoints := t_outpoints w @ rows\<rparr>"
    using assms(4) rows(2) by (auto simp: followCommitment_def watchCommitmentOutputs_def)
  ultimately show ?thesis using that by (simp add: outpoint_key_def)
qed

text \<open>
  C14: the outcome of a close is seen: once a commitment is recorded, whatever later spends one of
  its outputs is found in the block that carries it, as a spend of a commitment's output that
  settles a recorded spend, unless a channel is funded by that very output.
\<close>

theorem outcome_is_seen:
  assumes "spends_ok w" and "faults w = []" and "Branch_Valid (wBranch w)" and "i \<in> spID ` set (t_spends w)"
    and "sh \<in> {ShapeCommitmentOurs, ShapeCommitmentUnknown, ShapeCommitmentRevoked}"
    and "k < length (TxOut (maTx m))" and "PkScript (TxOut (maTx m) ! k) \<noteq> []" and "length (TxOut (maTx m)) < 2 ^ 31"
    and "libParse env (libPrint env (maTxID m)) = Some (maTxID m)" and "length (libPrint env (maTxID m)) = 64"
    and "maTxID m \<noteq> 0"
    and "\<forall>c \<in> set (t_channels w). \<not> watches (libParse env) \<lparr>opHash = maTxID m, opIndex = word_of_int (int k)\<rparr> c"
    and "j < length blk" and "\<not> isCoinbase (blk ! j)" and "n < length (TxIn (blk ! j))"
    and "PreviousOutPoint (TxIn (blk ! j) ! n) = \<lparr>opHash = maTxID m, opIndex = word_of_int (int k)\<rparr>"
  shows "\<exists>s \<in> set (ScanBlock (libTxHash env) (Some blk) (wSet (rebuild env (followCommitment env i m sh w)))).
      maTx s = blk ! j \<and> maInputIndex s = n \<and> tgKind (maTarget s) = KindCommitmentOutput
      \<and> tgSourceSpendEventID (maTarget s) \<in> spID ` set (t_spends w)"
proof -
  let ?op = "\<lparr>opHash = maTxID m, opIndex = word_of_int (int k)\<rparr> :: outpoint"
  obtain rows out where w1: "followCommitment env i m sh w = w\<lparr>t_outpoints := t_outpoints w @ rows\<rparr>"
    and out: "out \<in> set (t_outpoints w @ rows)" "outpoint_key out = (wBranch w, libPrint env (maTxID m), int k)"
    by (rule followCommitment_adds [OF assms(2-8)])
  let ?w1 = "w\<lparr>t_outpoints := t_outpoints w @ rows\<rparr>"
  have ok1: "spends_ok ?w1"
    using followCommitment_step [of w env i m sh] assms(1) by (simp add: w1 spends_step_def)
  obtain ws where b: "Build (libParse env) (wBranch ?w1) ?w1 = (?w1, Inr ws)"
    using assms(2) by (auto simp: Build_def ListChannels_def ListWatchOutpoints_def read_calm)
  then have ws: "wSet (rebuild env ?w1) = ws" by (simp add: rebuild_def)
  have f: "follows (libParse env) ?op out" "woBranch out = wBranch ?w1"
    using out(2) assms(9-11) by (simp_all add: follows_def outpointOf_def outpoint_key_def MaxHashStringSize_def)
  obtain t where t: "Lookup ?op ws = Some t"
    using Build_Lookup(2) [OF b, of ?op out] f out(1) by (cases "Lookup ?op ws") auto
  with Build_Lookup(3) [OF b t] assms(12) obtain x where x: "x \<in> set (t_outpoints ?w1)" "t = output_target ?op x" by auto
  have src: "tgSourceSpendEventID t \<in> spID ` set (t_spends w)"
    using ok1 x by (auto simp: spends_ok_def output_target_def)
  let ?s = "\<lparr>maTarget = t, maTx = blk ! j, maTxID = libTxHash env (blk ! j), maTxIndex = j, maInputIndex = n\<rparr>"
  have "?s \<in> set (ScanBlock (libTxHash env) (Some blk) ws)"
    using in_ScanBlock [of ?s] assms(13-16) t by simp
  then show ?thesis using src x(2) by (intro bexI [of _ ?s]) (simp_all add: w1 ws)
qed

definition demo_sweep_tx :: msg_tx where
  "demo_sweep_tx = \<lparr>TxIn = [\<lparr>PreviousOutPoint = \<lparr>opHash = 1, opIndex = 0\<rparr>, Witness = [[], [1], []], Sequence = 0\<rparr>],
     TxOut = [], LockTime = 0\<rparr>"

theorem outcome_is_seen_witness:
  "\<exists>s \<in> set (ScanBlock (libTxHash demo_outside) (Some [demo_sweep_tx])
      (wSet (rebuild demo_outside (followCommitment demo_outside 1 demo_match ShapeCommitmentUnknown demo_deep)))).
     maTx s = demo_sweep_tx \<and> tgSourceSpendEventID (maTarget s) = 1"
proof -
  have l: "libParse demo_outside (libPrint demo_outside 1) = Some 1" "length (libPrint demo_outside 1) = 64"
    "spends_ok demo_deep" by code_simp+
  have d: "faults demo_deep = []" "Branch_Valid (wBranch demo_deep)" "spID ` set (t_spends demo_deep) = {1}"
    "t_channels demo_deep = []" by (simp_all add: demo_deep_def demo_defs)
  have m: "maTx demo_match = demo_tx" "maTxID demo_match = 1" "length (TxOut demo_tx) = 1" "PkScript (TxOut demo_tx ! 0) = [0x51]"
    by (simp_all add: demo_match_def demo_tx_def)
  have b: "\<not> isCoinbase demo_sweep_tx" "TxIn demo_sweep_tx = [\<lparr>PreviousOutPoint = \<lparr>opHash = 1, opIndex = 0\<rparr>, Witness = [[], [1], []], Sequence = 0\<rparr>]"
    by (simp_all add: demo_sweep_tx_def isCoinbase_def)
  show ?thesis
    using outcome_is_seen [of demo_deep 1 ShapeCommitmentUnknown 0 demo_match demo_outside 0 "[demo_sweep_tx]" 0] l d m b
    by auto
qed

end
