(* ===== verification/Relevance.thy ===== *)
theory Relevance
  imports Store_Db "HOL-Library.Word"
begin

text \<open>
  The pure half of the registry: which channels are exposed on the chain the user's node does
  not follow (\<open>internal/registry/relevance.go\<close>) and the spelling of a short channel id
  (\<open>internal/registry/scid.go\<close>), whose three numbers are \<open>32 word\<close>s and whose packed form is a
  \<open>64 word\<close>. A character outside ASCII in a sentence for the user is written as its bytes.
\<close>

unbundle bit_operations_syntax

section \<open>Short channel ids\<close>

definition ShortChannelID :: "32 word \<Rightarrow> 32 word \<Rightarrow> 32 word \<Rightarrow> string" where
  "ShortChannelID block txIndex outputIndex =
     itoa (uint block) @ ''x'' @ itoa (uint txIndex) @ ''x'' @ itoa (uint outputIndex)"

text \<open>\<open>strings.Split\<close> at one character.\<close>

fun split_at_char :: "char \<Rightarrow> string \<Rightarrow> string list" where
  "split_at_char c [] = [[]]"
| "split_at_char c (a # s) =
     (if a = c then [] # split_at_char c s
      else (case split_at_char c s of [] \<Rightarrow> [[a]] | p # ps \<Rightarrow> (a # p) # ps))"

text \<open>\<open>strconv.ParseUint\<close> in base ten with 32 bits.\<close>

definition ParseUint32 :: "string \<Rightarrow> 32 word option" where
  "ParseUint32 s =
     (if s = '''' \<or> \<not> list_all is_digit s then None
      else if 2 ^ 32 \<le> digits_value s then None
      else Some (of_nat (digits_value s)))"

definition ParseShortChannelID :: "string \<Rightarrow> (32 word \<times> 32 word \<times> 32 word) option" where
  "ParseShortChannelID scid =
     (case split_at_char (CHR ''x'') (trim_space scid) of
        [a, b, c] \<Rightarrow>
          (case (ParseUint32 a, ParseUint32 b, ParseUint32 c) of
             (Some x, Some y, Some z) \<Rightarrow> Some (x, y, z)
           | _ \<Rightarrow> None)
      | _ \<Rightarrow> None)"

definition ShortChannelIDFromPacked :: "64 word \<Rightarrow> string option" where
  "ShortChannelIDFromPacked packed =
     (if packed = 0 then None
      else Some (ShortChannelID (ucast (drop_bit 40 packed AND 0xFFFFFF))
             (ucast (drop_bit 16 packed AND 0xFFFFFF)) (ucast (packed AND 0xFFFF))))"

definition BlockFromShortChannelID :: "string \<Rightarrow> int" where
  "BlockFromShortChannelID scid =
     (case ParseShortChannelID scid of
        None \<Rightarrow> 0
      | Some (block, _, _) \<Rightarrow> if 2 ^ 31 \<le> uint block then 0 else uint block)"

section \<open>Exposure\<close>

record relevance_facts =
  faForkKnown :: bool
  faForkHeight :: int
  faOpenHeight :: int
  faCloseState :: close_state
  faCloseHeight :: int
  faFundingSeenOnSQ :: bool

definition em_dash :: string where "em_dash = [CHR 0xE2, CHR 0x80, CHR 0x94]"

definition ReasonProvisional :: string where
  "ReasonProvisional = ''we are watching it until there is a split to judge it against''"
definition ReasonFundedBeforeFork :: string where
  "ReasonFundedBeforeFork = ''it was funded before the chains separated, so its funding output exists on the other chain too''"
definition ReasonClosedOnlyOnSF :: string where
  "ReasonClosedOnlyOnSF = ''it was closed on your own chain, but that close has not happened on the other one '' @ em_dash
     @ '' the old commitments there can still be spent''"
definition ReasonClosedBeforeFork :: string where
  "ReasonClosedBeforeFork = ''it was closed before the chains separated, so it is closed on both of them''"
definition ReasonFundedAfterFork :: string where
  "ReasonFundedAfterFork = ''it was funded after the chains separated, so it does not exist on the other chain''"
definition ReasonFundedAfterForkButMirrored :: string where
  "ReasonFundedAfterForkButMirrored = ''it was funded after the chains separated, but its funding transaction reached the other chain as well''"
definition ReasonOpenHeightUnknown :: string where
  "ReasonOpenHeightUnknown = ''we do not know which block funded it, so it is being watched anyway''"

definition RelClassify :: "relevance_facts \<Rightarrow> relevance \<times> string" where
  "RelClassify f =
     (if \<not> faForkKnown f then (Relevant, ReasonProvisional)
      else if 0 < faCloseHeight f \<and> faCloseHeight f \<le> faForkHeight f then (Irrelevant, ReasonClosedBeforeFork)
      else if faOpenHeight f \<le> 0 then (RelevanceUnknown, ReasonOpenHeightUnknown)
      else if faForkHeight f < faOpenHeight f
      then (if faFundingSeenOnSQ f then (Relevant, ReasonFundedAfterForkButMirrored)
            else (Irrelevant, ReasonFundedAfterFork))
      else if faCloseState f \<noteq> CloseOther '''' \<and> faCloseState f \<noteq> CloseOpen then (Relevant, ReasonClosedOnlyOnSF)
      else (Relevant, ReasonFundedBeforeFork))"

section \<open>Properties\<close>

lemma trim_space_id:
  assumes "s \<noteq> []" "\<not> is_space (hd s)" "\<not> is_space (last s)"
  shows "trim_space s = s"
proof -
  have "dropWhile is_space s = s" using assms(1,2) by (cases s) simp_all
  moreover have "dropWhile is_space (rev s) = rev s" using assms(1,3) by (cases s rule: rev_cases) simp_all
  ultimately show ?thesis by (simp add: trim_space_def)
qed

lemma is_digit_no_space: "is_digit c \<Longrightarrow> \<not> is_space c"
  by (auto simp: is_digit_def is_space_def)

lemma split_at_char_none: "c \<notin> set s \<Longrightarrow> split_at_char c s = [s]"
  by (induction s) auto

lemma split_at_char_append: "c \<notin> set s \<Longrightarrow> split_at_char c (s @ c # t) = s # split_at_char c t"
  by (induction s) auto

lemma itoa_uint: "itoa (uint w) = digits (unat w)"
  by (simp add: itoa_def)

lemma ParseUint32_digits: "ParseUint32 (digits (unat (w :: 32 word))) = Some w"
proof -
  have "unat w < 4294967296" using unsigned_less [of w, where 'a = nat] by simp
  then show ?thesis using digits_all [of "unat w"] by (simp add: ParseUint32_def list_all_iff)
qed

lemma scid_parse: "ParseShortChannelID (ShortChannelID b t v) = Some (b, t, v)"
proof -
  let ?s = "ShortChannelID b t v"
  have x: "CHR ''x'' \<notin> set (digits n)" for n using digits_all [of n] by (auto simp: is_digit_def)
  have d: "is_digit (hd (digits n))" "is_digit (last (digits n))" for n
    using digits_all [of n] by simp_all
  have "trim_space ?s = ?s"
    by (rule trim_space_id) (simp_all add: ShortChannelID_def itoa_uint d is_digit_no_space)
  then show ?thesis
    by (simp add: ParseShortChannelID_def ShortChannelID_def itoa_uint split_at_char_append [OF x]
        split_at_char_none [OF x] ParseUint32_digits)
qed

lemma packed_fields:
  fixes packed :: "64 word"
  defines "b \<equiv> ucast (drop_bit 40 packed AND 0xFFFFFF) :: 32 word"
    and "t \<equiv> ucast (drop_bit 16 packed AND 0xFFFFFF) :: 32 word"
    and "v \<equiv> ucast (packed AND 0xFFFF) :: 32 word"
  shows "packed = (push_bit 40 (ucast b) OR push_bit 16 (ucast t) OR ucast v)" and "uint b < 2 ^ 24"
proof -
  have m: "(0xFFFFFF :: 64 word) = mask 24" "(0xFFFF :: 64 word) = mask 16" by (simp_all add: mask_eq_exp_minus_1)
  show "packed = (push_bit 40 (ucast b) OR push_bit 16 (ucast t) OR ucast v)"
  proof (rule bit_word_eqI)
    fix n assume n: "n < LENGTH(64)"
    consider "n < 16" | "16 \<le> n" "n < 40" | "40 \<le> n" by linarith
    then show "bit packed n = bit (push_bit 40 (ucast b) OR push_bit 16 (ucast t) OR ucast v :: 64 word) n"
      using n unfolding b_def t_def v_def m by cases (auto simp: bit_simps)
  qed
  have "b = take_bit 24 (ucast (drop_bit 40 packed) :: 32 word)"
    unfolding b_def m by (rule bit_word_eqI) (auto simp: bit_simps)
  then show "uint b < 2 ^ 24" using take_bit_int_less_exp [of 24] by (simp add: unsigned_take_bit_eq)
qed

text \<open>
  Both spellings of a short channel id name the same channel: the stored form is read back
  as the three numbers it was written from, and the packed form of a confirmed channel is
  turned into a stored form whose numbers, put back into their places, are the packed form.
\<close>

theorem scid_roundtrip:
  "ParseShortChannelID (ShortChannelID b t v) = Some (b, t, v)
   \<and> (packed \<noteq> 0 \<longrightarrow> (\<exists>s b' t' v'. ShortChannelIDFromPacked packed = Some s \<and> ParseShortChannelID s = Some (b', t', v')
        \<and> packed = (push_bit 40 (ucast b') OR push_bit 16 (ucast t') OR ucast v')
        \<and> BlockFromShortChannelID s = uint b'))"
proof -
  show ?thesis
    using packed_fields [of packed]
    by (auto simp: scid_parse ShortChannelIDFromPacked_def BlockFromShortChannelID_def)
qed

theorem scid_roundtrip_witness:
  "\<exists>s b t v. ShortChannelIDFromPacked 934584883609665536 = Some s \<and> ParseShortChannelID s = Some (b, t, v)
     \<and> BlockFromShortChannelID s = uint b"
  using scid_roundtrip [of 0 0 0 "934584883609665536"] by auto

text \<open>
  A channel is left unwatched for two reasons only, both positive: its close was confirmed no
  later than the last block the chains share, or its funding is known to be later than that
  block and was not found on the other chain. It is unknown only when its funding height is.
\<close>

theorem exposure_exact:
  "(fst (RelClassify f) = Irrelevant \<longleftrightarrow>
      faForkKnown f \<and> (0 < faCloseHeight f \<and> faCloseHeight f \<le> faForkHeight f
        \<or> 0 < faOpenHeight f \<and> faForkHeight f < faOpenHeight f \<and> \<not> faFundingSeenOnSQ f))
   \<and> (fst (RelClassify f) = RelevanceUnknown \<longleftrightarrow>
      faForkKnown f \<and> \<not> (0 < faCloseHeight f \<and> faCloseHeight f \<le> faForkHeight f) \<and> faOpenHeight f \<le> 0)
   \<and> Relevance_Valid (fst (RelClassify f))"
  by (auto simp: RelClassify_def)

end
