(* ===== verification/Registry.thy ===== *)
theory Registry
  imports Relevance Store_State Watch_Set
begin

text \<open>
  The registry: \<open>internal/registry/registry.go\<close> and the records of \<open>internal/registry/types.go\<close>.
  It reads the user's Lightning nodes, keeps the stored channels in step with what they say,
  and decides which are exposed on the chain those nodes cannot see. What a node answers, and
  what a chain backend answers, are inputs of the functions that ask; the cleaning of a peer's
  alias is the one of \<open>Store_Channels\<close>. The text of a failing store call is
  replaced by the name of the call. The goroutines of the registry are a sequence of handled
  inputs; log lines are left out.
\<close>

section \<open>State\<close>

record channel_record =
  crFundingTxID :: string
  crFundingVout :: int
  crFundingScriptHex :: string
  crCapacitySat :: int
  crChanType :: chan_type
  crCSVDelayLocal :: "int option"
  crCSVDelayRemote :: "int option"
  crPeerPubkey :: string
  crPeerAlias :: string
  crOpenHeight :: int
  crSCID :: string
  crCloseState :: close_state
  crCloseTxID :: string
  crHTLCs :: "htlc_snapshot list"

record node_info =
  niPubkey :: string
  niAlias :: string
  niImpl :: ln_impl

record snapshot =
  snNode :: node_info
  snChannels :: "channel_record list"

record source_health =
  shName :: string
  shLastSuccessAt :: int
  shLastError :: string
  shChannels :: int

definition Stale :: "int \<Rightarrow> int \<Rightarrow> source_health \<Rightarrow> bool" where
  "Stale now maxAgeSecs h \<longleftrightarrow>
     (if shLastSuccessAt h = 0 then True else maxAgeSecs < i64 (now - shLastSuccessAt h))"

datatype reg_event =
    RChannelUpserted bool int close_state relevance string
  | RChannelClosedSF int string close_state

record registry = state_db +
  rgHealth :: "(string \<times> source_health) list"
  rgTried :: "int list"
  rgEvents :: "reg_event list"

definition rpublish :: "reg_event \<Rightarrow> registry \<Rightarrow> registry" where
  "rpublish ev r = r\<lparr>rgEvents := rgEvents r @ [ev]\<rparr>"

definition no_health :: source_health where
  "no_health = \<lparr>shName = '''', shLastSuccessAt = 0, shLastError = '''', shChannels = 0\<rparr>"

definition health_of :: "string \<Rightarrow> registry \<Rightarrow> source_health" where
  "health_of name r = (case map_of (rgHealth r) name of None \<Rightarrow> no_health | Some h \<Rightarrow> h)"

definition recordSuccess :: "string \<Rightarrow> int \<Rightarrow> int \<Rightarrow> registry \<Rightarrow> registry" where
  "recordSuccess name at channels r =
     r\<lparr>rgHealth := AList.update name
        \<lparr>shName = name, shLastSuccessAt = at, shLastError = '''', shChannels = channels\<rparr> (rgHealth r)\<rparr>"

definition recordFailure :: "string \<Rightarrow> string \<Rightarrow> registry \<Rightarrow> registry" where
  "recordFailure name err r =
     r\<lparr>rgHealth := AList.update name ((health_of name r)\<lparr>shName := name, shLastError := err\<rparr>) (rgHealth r)\<rparr>"

text \<open>One entry per configured source, named even before its first poll.\<close>

definition Health :: "string list \<Rightarrow> registry \<Rightarrow> source_health list" where
  "Health names r = map (\<lambda>n. (health_of n r)\<lparr>shName := n\<rparr>) names"

section \<open>What is kept of a channel\<close>

definition zero_channel :: channel where
  "zero_channel = \<lparr>chID = 0, chLNNodeID = '''', chFundingTxID = '''', chFundingVout = 0, chFundingScriptHex = '''',
     chCapacitySat = 0, chChanType = ChanTypeOther '''', chCSVDelayLocal = None, chCSVDelayRemote = None,
     chPeerPubkey = '''', chPeerAlias = '''', chOpenHeight = 0, chSCID = '''', chCloseState = CloseOther '''',
     chCloseTxID = '''', chCloseHeight = 0, chRelevance = RelevanceOther '''', chRelevanceReason = '''',
     chMirrorFundingOptIn = False, chUpdatedAt = 0\<rparr>"

definition firstNonEmpty :: "string \<Rightarrow> string \<Rightarrow> string" where
  "firstNonEmpty a b = (if a \<noteq> '''' then a else b)"

definition firstNonZero :: "int \<Rightarrow> int \<Rightarrow> int" where
  "firstNonZero a b = (if a \<noteq> 0 then a else b)"

definition firstKnownDelay :: "int option \<Rightarrow> int option \<Rightarrow> int option" where
  "firstKnownDelay a b =
     (if (case a of None \<Rightarrow> False | Some d \<Rightarrow> 0 < d) then a
      else if (case b of None \<Rightarrow> False | Some d \<Rightarrow> 0 < d) then b
      else None)"

definition merge :: "channel \<Rightarrow> channel_record \<Rightarrow> channel" where
  "merge prior rec =
     (let out = zero_channel\<lparr>chFundingTxID := crFundingTxID rec, chFundingVout := crFundingVout rec,
            chChanType := crChanType rec,
            chFundingScriptHex := firstNonEmpty (crFundingScriptHex rec) (chFundingScriptHex prior),
            chPeerPubkey := firstNonEmpty (crPeerPubkey rec) (chPeerPubkey prior),
            chPeerAlias := firstNonEmpty (crPeerAlias rec) (chPeerAlias prior),
            chSCID := firstNonEmpty (crSCID rec) (chSCID prior),
            chCapacitySat := firstNonZero (crCapacitySat rec) (chCapacitySat prior),
            chOpenHeight := firstNonZero (crOpenHeight rec) (chOpenHeight prior),
            chCSVDelayLocal := firstKnownDelay (crCSVDelayLocal rec) (chCSVDelayLocal prior),
            chCSVDelayRemote := firstKnownDelay (crCSVDelayRemote rec) (chCSVDelayRemote prior)\<rparr>;
          out = (if (chChanType out = ChanTypeOther '''' \<or> chChanType out = ChanTypeUnknown)
                   \<and> chChanType prior \<noteq> ChanTypeOther ''''
                 then out\<lparr>chChanType := chChanType prior\<rparr> else out)
      in if chChanType out = ChanTypeOther '''' then out\<lparr>chChanType := ChanTypeUnknown\<rparr> else out)"

definition closeRank :: "close_state \<Rightarrow> int" where
  "closeRank c =
     (if c = ClosePending then 1
      else if c = CloseCoop \<or> c = CloseForce \<or> c = CloseBreach then 2
      else 0)"

section \<open>Polling\<close>

definition outpoint_of :: "channel_record \<Rightarrow> string \<times> int" where
  "outpoint_of rec = (crFundingTxID rec, crFundingVout rec)"

text \<open>A row of an outpoint listed twice is the later one, as in a Go map.\<close>

definition priorChannels :: "string \<Rightarrow> registry \<Rightarrow> registry \<times> (store_err + (string \<times> int \<Rightarrow> channel))" where
  "priorChannels nid r =
     (case ListChannels \<lparr>cfLNNodeID = nid, cfRelevance = RelevanceOther '''', cfOpenOnly = False\<rparr> r of
        (r1, Inl e) \<Rightarrow> (r1, Inl e)
      | (r1, Inr rows) \<Rightarrow>
          (r1, Inr (\<lambda>k. case find (\<lambda>c. channel_key c = k) (rev rows) of None \<Rightarrow> zero_channel | Some c \<Rightarrow> c)))"

definition advanceClose :: "int \<Rightarrow> channel_record \<Rightarrow> channel \<Rightarrow> int \<Rightarrow> registry \<Rightarrow> registry \<times> close_state" where
  "advanceClose i rec prior now r =
     (let current = (if chCloseState prior = CloseOther '''' then CloseOpen else chCloseState prior)
      in if closeRank (crCloseState rec) \<le> closeRank current then (r, current)
         else
           (case SetChannelCloseSF i (crCloseState rec) (crCloseTxID rec) 0 now r of
              (r1, Inl _) \<Rightarrow> (r1, current)
            | (r1, Inr _) \<Rightarrow> (rpublish (RChannelClosedSF i (crCloseTxID rec) (crCloseState rec)) r1, crCloseState rec)))"

definition fundingSeenOnSQ :: "channel \<Rightarrow> bool" where
  "fundingSeenOnSQ prior \<longleftrightarrow> chRelevance prior = Relevant \<and> chRelevanceReason prior = ReasonFundedAfterForkButMirrored"

definition record_facts :: "split \<Rightarrow> channel_record \<Rightarrow> channel \<Rightarrow> close_state \<Rightarrow> relevance_facts" where
  "record_facts sp rec prior closeState =
     \<lparr>faForkKnown = ForkKnown sp, faForkHeight = slForkHeight sp, faOpenHeight = crOpenHeight rec,
      faCloseState = closeState, faCloseHeight = chCloseHeight prior, faFundingSeenOnSQ = fundingSeenOnSQ prior\<rparr>"

definition classify :: "int \<Rightarrow> channel_record \<Rightarrow> channel \<Rightarrow> close_state \<Rightarrow> split \<Rightarrow> int \<Rightarrow> registry
    \<Rightarrow> registry \<times> relevance \<times> string" where
  "classify i rec prior closeState sp now r =
     (case RelClassify (record_facts sp rec prior closeState) of
        (rel, reason) \<Rightarrow>
          if rel = chRelevance prior \<and> reason = chRelevanceReason prior then (r, rel, reason)
          else
            (case SetChannelRelevance i rel reason now r of
               (r1, Inl _) \<Rightarrow> (r1, chRelevance prior, chRelevanceReason prior)
             | (r1, Inr _) \<Rightarrow> (r1, rel, reason)))"

definition apply_record :: "(string \<Rightarrow> string) \<Rightarrow> string \<Rightarrow> channel_record \<Rightarrow> channel \<Rightarrow> split \<Rightarrow> int
    \<Rightarrow> registry \<Rightarrow> registry" where
  "apply_record clean nid rec prior sp now r =
     (case UpsertChannel clean ((merge prior rec)\<lparr>chLNNodeID := nid, chUpdatedAt := now\<rparr>) r of
        (r1, Inl _) \<Rightarrow> r1
      | (r1, Inr (i, changed)) \<Rightarrow>
          (let r2 = fst (ReplaceHTLCSnapshot i now (crHTLCs rec) r1)
           in case advanceClose i rec prior now r2 of
                (r3, closeState) \<Rightarrow>
                  (case classify i rec prior closeState sp now r3 of
                     (r4, rel, reason) \<Rightarrow>
                       if changed then rpublish (RChannelUpserted (chID prior = 0) i closeState rel reason) r4 else r4)))"

text \<open>What a source answered: the text of its error, or a snapshot.\<close>

definition pollSource :: "(string \<Rightarrow> string) \<Rightarrow> split \<Rightarrow> int \<Rightarrow> string \<times> (string + snapshot) \<Rightarrow> registry \<Rightarrow> registry" where
  "pollSource clean sp now src r =
     (case src of
        (name, Inl err) \<Rightarrow> recordFailure name err r
      | (name, Inr snap) \<Rightarrow>
          if niPubkey (snNode snap) = '''' then recordFailure name ''the node did not say who it is'' r
          else
            (case UpsertLNNode clean \<lparr>nodeID = niPubkey (snNode snap), nodeImpl = niImpl (snNode snap),
                                     nodeAlias = niAlias (snNode snap), nodeLastSeenAt = now\<rparr> r of
               (r1, Inl _) \<Rightarrow> recordFailure name ''recording the node'' r1
             | (r1, Inr _) \<Rightarrow>
                 (case priorChannels (niPubkey (snNode snap)) r1 of
                    (r2, Inl _) \<Rightarrow> recordFailure name ''listing channels'' r2
                  | (r2, Inr prior) \<Rightarrow>
                      recordSuccess name now (int (length (snChannels snap)))
                        (fold (\<lambda>rec. apply_record clean (niPubkey (snNode snap)) rec (prior (outpoint_of rec)) sp now)
                          (snChannels snap) r2))))"

definition zero_split :: split where
  "zero_split = \<lparr>slState = StateOther '''', slForkHeight = 0, slForkHash = '''', slDetectedAt = 0, slUpdatedAt = 0\<rparr>"

definition poll :: "(string \<Rightarrow> string) \<Rightarrow> int \<Rightarrow> (string \<times> (string + snapshot)) list \<Rightarrow> registry \<Rightarrow> registry" where
  "poll clean now answers r =
     (case GetSplitState r of
        (r1, Inl _) \<Rightarrow> fold (pollSource clean zero_split now) answers r1
      | (r1, Inr sp) \<Rightarrow> fold (pollSource clean sp now) answers r1)"

section \<open>Deciding again\<close>

definition channel_facts :: "split \<Rightarrow> channel \<Rightarrow> relevance_facts" where
  "channel_facts sp c =
     \<lparr>faForkKnown = ForkKnown sp, faForkHeight = slForkHeight sp, faOpenHeight = chOpenHeight c,
      faCloseState = chCloseState c, faCloseHeight = chCloseHeight c, faFundingSeenOnSQ = fundingSeenOnSQ c\<rparr>"

definition reclassify_one :: "split \<Rightarrow> int \<Rightarrow> channel \<Rightarrow> registry \<Rightarrow> registry" where
  "reclassify_one sp now c r =
     (case RelClassify (channel_facts sp c) of
        (rel, reason) \<Rightarrow>
          if rel = chRelevance c \<and> reason = chRelevanceReason c then r
          else fst (SetChannelRelevance (chID c) rel reason now r))"

definition reclassifyAll :: "int \<Rightarrow> registry \<Rightarrow> registry" where
  "reclassifyAll now r =
     (case GetSplitState r of
        (r1, Inl _) \<Rightarrow> r1
      | (r1, Inr sp) \<Rightarrow>
          (case ListChannels all_channels r1 of
             (r2, Inl _) \<Rightarrow> r2
           | (r2, Inr cs) \<Rightarrow> fold (reclassify_one sp now) cs r2))"

section \<open>Funding scripts\<close>

text \<open>A backend that may still have the block: the hash at a height, and the transactions of a block.\<close>

record block_source =
  bsHashByHeight :: "int \<Rightarrow> view_err + hash"
  bsBlock :: "hash \<Rightarrow> view_err + msg_tx list option"

definition scriptFromBlock :: "(msg_tx \<Rightarrow> string) \<Rightarrow> block_source \<Rightarrow> int \<Rightarrow> string \<Rightarrow> int \<Rightarrow> unit + string" where
  "scriptFromBlock txid src height want vout =
     (case bsHashByHeight src height of
        Inl _ \<Rightarrow> Inl ()
      | Inr h \<Rightarrow>
          (case bsBlock src h of
             Inl _ \<Rightarrow> Inl ()
           | Inr None \<Rightarrow> Inl ()
           | Inr (Some txs) \<Rightarrow>
               (case find (\<lambda>tx. txid tx = want) txs of
                  None \<Rightarrow> Inl ()
                | Some tx \<Rightarrow>
                    if vout < 0 \<or> int (length (TxOut tx)) \<le> vout then Inl ()
                    else Inr (hex_encode (PkScript (TxOut tx ! nat vout))))))"

fun findScript :: "(msg_tx \<Rightarrow> string) \<Rightarrow> block_source list \<Rightarrow> channel \<Rightarrow> unit + string" where
  "findScript txid [] c = Inl ()"
| "findScript txid (src # srcs) c =
     (case scriptFromBlock txid src (chOpenHeight c) (chFundingTxID c) (chFundingVout c) of
        Inr s \<Rightarrow> Inr s
      | Inl _ \<Rightarrow> findScript txid srcs c)"

definition backfill_one :: "(string \<Rightarrow> string) \<Rightarrow> (msg_tx \<Rightarrow> string) \<Rightarrow> block_source list \<Rightarrow> int \<Rightarrow> channel
    \<Rightarrow> registry \<Rightarrow> registry" where
  "backfill_one clean txid srcs now c r =
     (if chFundingScriptHex c \<noteq> '''' \<or> chOpenHeight c \<le> 0 then r
      else
        (case findScript txid srcs c of
           Inl _ \<Rightarrow> r\<lparr>rgTried := List.insert (chID c) (rgTried r)\<rparr>
         | Inr script \<Rightarrow>
             (let r1 = fst (UpsertChannel clean (c\<lparr>chFundingScriptHex := script, chUpdatedAt := now\<rparr>) r)
              in r1\<lparr>rgTried := removeAll (chID c) (rgTried r1)\<rparr>)))"

definition backfill :: "(string \<Rightarrow> string) \<Rightarrow> (msg_tx \<Rightarrow> string) \<Rightarrow> block_source list \<Rightarrow> int \<Rightarrow> registry \<Rightarrow> registry" where
  "backfill clean txid srcs now r =
     (case ListChannels all_channels r of
        (r1, Inl _) \<Rightarrow> r1
      | (r1, Inr cs) \<Rightarrow> fold (backfill_one clean txid srcs now) cs r1)"

section \<open>Runs\<close>

datatype registry_input =
    RPoll int "(string \<times> (string + snapshot)) list"
  | RSplitChanged int
  | RBackfill "block_source list" int

definition registry_step :: "(string \<Rightarrow> string) \<Rightarrow> (msg_tx \<Rightarrow> string) \<Rightarrow> registry \<Rightarrow> registry_input \<Rightarrow> registry" where
  "registry_step clean txid r i =
     (case i of
        RPoll now answers \<Rightarrow> poll clean now answers r
      | RSplitChanged now \<Rightarrow> reclassifyAll now r
      | RBackfill srcs now \<Rightarrow> backfill clean txid srcs now r)"

end
