(* ===== verification/Registry_Facts.thy ===== *)
theory Registry_Facts
  imports Registry
begin

text \<open>
  What the registry keeps along every run: a close only ever moves forward, and what the registry
  says about a channel's exposure.
\<close>

section \<open>One row at a time\<close>

definition close_le :: "channel \<Rightarrow> channel \<Rightarrow> bool" where
  "close_le c c' \<longleftrightarrow> closeRank (chCloseState c) < closeRank (chCloseState c')
     \<or> chCloseState c' = chCloseState c \<and> chCloseTxID c' = chCloseTxID c \<and> chCloseHeight c' = chCloseHeight c"

definition channel_le :: "channel \<Rightarrow> channel \<Rightarrow> bool" where
  "channel_le c c' \<longleftrightarrow> chID c' = chID c \<and> channel_key c' = channel_key c
     \<and> chMirrorFundingOptIn c' = chMirrorFundingOptIn c \<and> close_le c c'"

lemma channel_le_refl [simp]: "channel_le c c"
  by (simp add: channel_le_def close_le_def)

lemma channel_le_trans: "channel_le a b \<Longrightarrow> channel_le b c \<Longrightarrow> channel_le a c"
  by (auto simp: channel_le_def close_le_def)

definition closes_kept :: "'x db_scheme \<Rightarrow> 'y db_scheme \<Rightarrow> bool" where
  "closes_kept d d' \<longleftrightarrow> (\<forall>c \<in> set (t_channels d). \<exists>c' \<in> set (t_channels d'). channel_le c c')"

lemma closes_kept_subset: "set (t_channels d) \<subseteq> set (t_channels d') \<Longrightarrow> closes_kept d d'"
  unfolding closes_kept_def using channel_le_refl by blast

lemma closes_kept_trans: "closes_kept d e \<Longrightarrow> closes_kept e f \<Longrightarrow> closes_kept d f"
  unfolding closes_kept_def by (meson channel_le_trans)

text \<open>Every stored channel belongs to the node that owns its funding outpoint.\<close>

definition own_ok :: "(string \<times> int \<Rightarrow> string) \<Rightarrow> 'x db_scheme \<Rightarrow> bool" where
  "own_ok own d \<longleftrightarrow> channels_ok d \<and> (\<forall>c \<in> set (t_channels d). chLNNodeID c = own (channel_key c))"

definition others :: "string \<times> int \<Rightarrow> 'x db_scheme \<Rightarrow> 'y db_scheme \<Rightarrow> bool" where
  "others k d d' \<longleftrightarrow> filter (\<lambda>c. channel_key c \<noteq> k) (t_channels d') = filter (\<lambda>c. channel_key c \<noteq> k) (t_channels d)"

text \<open>A step that only touches the row of one outpoint, and only moves it forward.\<close>

definition touches :: "(string \<times> int \<Rightarrow> string) \<Rightarrow> string \<times> int \<Rightarrow> 'x db_scheme \<Rightarrow> 'y db_scheme \<Rightarrow> bool" where
  "touches own k d d' \<longleftrightarrow> (own_ok own d \<longrightarrow> own_ok own d' \<and> closes_kept d d' \<and> others k d d')"

lemma touches_trans: "touches own k d e \<Longrightarrow> touches own k e f \<Longrightarrow> touches own k d f"
  by (auto simp: touches_def others_def intro: closes_kept_trans)

lemma same_touches: "t_channels d' = t_channels d \<Longrightarrow> touches own k d d'"
  by (simp add: touches_def own_ok_def channels_ok_def closes_kept_subset others_def)

lemma touches_refl [simp]: "touches own k d d"
  by (rule same_touches) simp

lemma db_call_touches:
  assumes "\<And>e. own_ok own e \<Longrightarrow> t_channels e = t_channels d \<Longrightarrow> touches own k e (fst (f e))"
  shows "touches own k d (fst (db_call f d))"
proof (cases "own_ok own d")
  case True
  obtain d' r where c: "db_call f d = (d', r)" by fastforce
  then show ?thesis
  proof (cases rule: db_call_cases)
    case failed
    with c show ?thesis by (auto intro: same_touches)
  next
    case (ran fs)
    have "own_ok own (d\<lparr>faults := fs\<rparr>)" using True by (simp add: own_ok_def channels_ok_def)
    with assms [of "d\<lparr>faults := fs\<rparr>"] have "touches own k (d\<lparr>faults := fs\<rparr>) (fst (f (d\<lparr>faults := fs\<rparr>)))" by simp
    moreover have "touches own k d (d\<lparr>faults := fs\<rparr>)" by (rule same_touches) simp
    ultimately have "touches own k d (fst (f (d\<lparr>faults := fs\<rparr>)))" by (rule touches_trans [rotated])
    with c ran show ?thesis by simp
  qed
qed (simp add: touches_def)

lemma db_call_touches_any:
  "(\<And>e. own_ok own e \<Longrightarrow> touches own k e (fst (f e))) \<Longrightarrow> touches own k d (fst (db_call f d))"
  by (rule db_call_touches) blast

lemma update_channel_touches:
  assumes "\<And>c. c \<in> set (t_channels d) \<Longrightarrow> chID c = i \<Longrightarrow> channel_le c (f c) \<and> channel_key c = k \<and> chLNNodeID (f c) = own k"
  shows "touches own k d (d\<lparr>t_channels := update_row chID i f (t_channels d)\<rparr>)"
proof -
  let ?g = "\<lambda>c. if chID c = i then f c else c"
  have g: "chID (?g c) = chID c" "channel_key (?g c) = channel_key c" "channel_le c (?g c)" if "c \<in> set (t_channels d)" for c
    using assms [OF that] by (auto simp: channel_le_def close_le_def)
  have ids: "map chID (map ?g (t_channels d)) = map chID (t_channels d)"
    "map channel_key (map ?g (t_channels d)) = map channel_key (t_channels d)" using g by auto
  then have "table_ok chID channel_key (map ?g (t_channels d))" if "table_ok chID channel_key (t_channels d)"
    using that g(1) unfolding table_ok_def by (simp only: ids) (metis (no_types, lifting) imageE list.set_map)
  moreover have "filter (\<lambda>c. channel_key c \<noteq> k) (map ?g rows) = filter (\<lambda>c. channel_key c \<noteq> k) rows"
    if "set rows \<subseteq> set (t_channels d)" for rows
    using that by (induction rows) (use assms in \<open>auto simp: channel_le_def\<close>)
  moreover have "closes_kept d (d\<lparr>t_channels := map ?g (t_channels d)\<rparr>)"
    unfolding closes_kept_def
  proof
    fix c assume "c \<in> set (t_channels d)"
    then show "\<exists>c' \<in> set (t_channels (d\<lparr>t_channels := map ?g (t_channels d)\<rparr>)). channel_le c c'"
      using g(3) by (intro bexI [of _ "?g c"]) simp_all
  qed
  moreover have "chLNNodeID (?g c) = own (channel_key (?g c))"
    if "c \<in> set (t_channels d)" "chLNNodeID c = own (channel_key c)" for c
    using that(2) g(2) [OF that(1)] assms [OF that(1)] by auto
  ultimately show ?thesis
    by (auto simp: touches_def own_ok_def channels_ok_def others_def update_row_def simp del: if_image_distrib)
qed

lemma row_of_id: "own_ok own d \<Longrightarrow> a \<in> set (t_channels d) \<Longrightarrow> b \<in> set (t_channels d) \<Longrightarrow> chID a = chID b \<Longrightarrow> a = b"
  using channels.same_id [of "t_channels d"] by (simp add: own_ok_def channels_ok_def)

text \<open>What a call that returned says of the row with an id.\<close>

definition row_at :: "int \<Rightarrow> string \<times> int \<Rightarrow> (channel \<Rightarrow> bool) \<Rightarrow> 'x db_scheme \<Rightarrow> bool" where
  "row_at i k P d \<longleftrightarrow> (\<exists>c \<in> set (t_channels d). chID c = i \<and> channel_key c = k \<and> P c)"

lemma UpsertChannel_touches:
  assumes "own (channel_key c) = chLNNodeID c"
  shows "touches own (channel_key c) d (fst (UpsertChannel clean c d))"
proof -
  let ?c = "c\<lparr>chPeerAlias := clean (chPeerAlias c)\<rparr>"
  have k: "channel_key ?c = channel_key c" by (simp add: channel_key_def)
  have upd: "touches own (channel_key c) e (e\<lparr>t_channels := update_row chID (chID r) (poll_channel ?c) (t_channels e)\<rparr>)"
    if "own_ok own e" "find (\<lambda>r. channel_key r = channel_key ?c) (t_channels e) = Some r" for e :: "'a db_scheme" and r
  proof (rule update_channel_touches)
    fix x assume "x \<in> set (t_channels e)" "chID x = chID r"
    with that(1) find_Some_mem [OF that(2)] have "channel_key x = channel_key c" using row_of_id k by metis
    then show "channel_le x (poll_channel ?c x) \<and> channel_key x = channel_key c \<and> chLNNodeID (poll_channel ?c x) = own (channel_key c)"
      using assms by (simp add: channel_le_def close_le_def poll_channel_def channel_key_def)
  qed
  have ins: "touches own (channel_key c) e (e\<lparr>t_channels := t_channels e @ [place_channel i ?c]\<rparr>)"
    if "own_ok own e" "find (\<lambda>r. channel_key r = channel_key ?c) (t_channels e) = None" "i = next_id chID (t_channels e)"
    for e :: "'a db_scheme" and i
  proof -
    have "channel_key ?c \<notin> channel_key ` set (t_channels e)" using that(2) by (auto simp: find_None_all)
    then have "table_ok chID channel_key (t_channels e @ [place_channel i ?c])"
      using channels.insert_ok [of "t_channels e" ?c] that by (simp add: own_ok_def channels_ok_def)
    moreover have "channel_key (place_channel i ?c) = channel_key c" using k channels.rkey_place by metis
    moreover have "chLNNodeID (place_channel i ?c) = own (channel_key c)" using assms by (simp add: place_channel_def)
    ultimately show ?thesis
      by (auto simp: touches_def own_ok_def channels_ok_def others_def intro!: closes_kept_subset)
  qed
  show ?thesis
    unfolding UpsertChannel_def Let_def
    by (auto intro!: db_call_touches_any upd ins split: option.split simp del: find_Some_iff)
qed

lemma UpsertChannel_row:
  assumes "UpsertChannel clean c d = (d', Inr (i, changed))" "own_ok own d"
  shows "row_at i (channel_key c) (\<lambda>x. case find (\<lambda>r. channel_key r = channel_key c) (t_channels d) of
      None \<Rightarrow> chCloseState x = CloseOpen
    | Some r \<Rightarrow> chCloseState x = chCloseState r \<and> chRelevanceReason x = chRelevanceReason r) d'"
proof -
  let ?c = "c\<lparr>chPeerAlias := clean (chPeerAlias c)\<rparr>"
  have k: "channel_key ?c = channel_key c" by (simp add: channel_key_def)
  from assms(1) have "db_call (\<lambda>d. case find (\<lambda>r. channel_key r = channel_key ?c) (t_channels d) of
      Some r \<Rightarrow>
        if same_channel r ?c then (d, Inr (chID r, False))
        else if \<not> node_exists (chLNNodeID ?c) d then (d, Inl StoreConstraint)
        else (d\<lparr>t_channels := update_row chID (chID r) (poll_channel ?c) (t_channels d)\<rparr>, Inr (chID r, True))
    | None \<Rightarrow>
        if \<not> node_exists (chLNNodeID ?c) d then (d, Inl StoreConstraint)
        else (let i = next_id chID (t_channels d)
              in (d\<lparr>t_channels := t_channels d @ [place_channel i ?c]\<rparr>, Inr (i, True)))) d = (d', Inr (i, changed))"
    unfolding UpsertChannel_def Let_def by (simp only: prod.inject sum.distinct simp_thms split: if_splits)
  then show ?thesis
  proof (cases rule: db_call_cases)
    case (ran fs)
    show ?thesis
    proof (cases "find (\<lambda>r. channel_key r = channel_key c) (t_channels d)")
      case None
      with ran k have "t_channels d' = t_channels d @ [place_channel i ?c]" "i = next_id chID (t_channels d)"
        by (auto simp: Let_def split: if_splits)
      moreover have "channel_key (place_channel i ?c) = channel_key c" using k channels.rkey_place by metis
      ultimately show ?thesis using None by (simp add: row_at_def place_channel_def)
    next
      case (Some r)
      from find_Some_mem [OF Some] have r: "r \<in> set (t_channels d)" "channel_key r = channel_key c" by simp_all
      from ran Some k have "t_channels d' = t_channels d \<and> i = chID r
          \<or> t_channels d' = update_row chID (chID r) (poll_channel ?c) (t_channels d) \<and> i = chID r"
        by (auto split: if_splits)
      then show ?thesis
      proof
        assume "t_channels d' = t_channels d \<and> i = chID r"
        then show ?thesis using r Some by (auto simp: row_at_def)
      next
        assume "t_channels d' = update_row chID (chID r) (poll_channel ?c) (t_channels d) \<and> i = chID r"
        moreover have "poll_channel ?c r \<in> set (update_row chID (chID r) (poll_channel ?c) (t_channels d))"
          using r(1) by (force simp: update_row_def)
        ultimately show ?thesis
          using r Some unfolding row_at_def
          by (intro bexI [of _ "poll_channel ?c r"]) (simp_all add: poll_channel_def channel_key_def)
      qed
    qed
  qed simp
qed

section \<open>Writing a known row\<close>

text \<open>The row with an id, if there is one, is the outpoint's, and its close is ranked at most \<open>m\<close>.\<close>

definition ready :: "int \<Rightarrow> string \<times> int \<Rightarrow> int \<Rightarrow> 'x db_scheme \<Rightarrow> bool" where
  "ready i k m d \<longleftrightarrow> (\<forall>c \<in> set (t_channels d). chID c = i \<longrightarrow> channel_key c = k \<and> closeRank (chCloseState c) \<le> m)"

lemma ready_if_row_at:
  assumes "own_ok own d" "row_at i k P d" "\<And>c. P c \<Longrightarrow> closeRank (chCloseState c) \<le> m"
  shows "ready i k m d"
  using assms(2,3) row_of_id [OF assms(1)] unfolding row_at_def ready_def by metis

lemma one_row_touches:
  assumes "ready i k m d"
    and upd: "\<And>c. channel_key c = k \<Longrightarrow> closeRank (chCloseState c) \<le> m \<Longrightarrow> channel_le c (f c) \<and> chLNNodeID (f c) = chLNNodeID c"
  shows "touches own k d (fst (db_call (\<lambda>d. requireOneRow chID i (t_channels d) (\<lambda>rows. d\<lparr>t_channels := rows\<rparr>) f d) d))"
proof (rule db_call_touches)
  fix e :: "'a db_scheme"
  assume own: "own_ok own e" and t: "t_channels e = t_channels d"
  have "ready i k m e" using assms(1) t by (simp add: ready_def)
  then have "touches own k e (e\<lparr>t_channels := update_row chID i f (t_channels e)\<rparr>)"
    by (intro update_channel_touches) (use own upd in \<open>auto simp: own_ok_def ready_def\<close>)
  then show "touches own k e (fst (requireOneRow chID i (t_channels e) (\<lambda>rows. e\<lparr>t_channels := rows\<rparr>) f e))"
    by (simp add: requireOneRow_def)
qed

lemma SetChannelCloseSF_touches:
  assumes "ready i k m d" "m < closeRank st"
  shows "touches own k d (fst (SetChannelCloseSF i st txid h now d))"
  unfolding SetChannelCloseSF_def using assms(2)
  by (auto intro!: one_row_touches [OF assms(1)] simp: channel_le_def close_le_def channel_key_def)

lemma SetChannelRelevance_touches:
  assumes "ready i k m d"
  shows "touches own k d (fst (SetChannelRelevance i rel reason now d))"
  unfolding SetChannelRelevance_def
  by (auto intro!: one_row_touches [OF assms] simp: channel_le_def close_le_def channel_key_def)

lemma ReplaceHTLCSnapshot_channels [simp]: "t_channels (fst (ReplaceHTLCSnapshot i now hs d)) = t_channels d"
  by (simp add: ReplaceHTLCSnapshot_def db_call_def split: list.split)

lemma rpublish_channels [simp]: "t_channels (rpublish ev r) = t_channels r"
  by (simp add: rpublish_def)

lemma recordFailure_channels [simp]: "t_channels (recordFailure n e r) = t_channels r"
  by (simp add: recordFailure_def)

lemma recordSuccess_channels [simp]: "t_channels (recordSuccess n at k r) = t_channels r"
  by (simp add: recordSuccess_def)

lemma UpsertLNNode_channels [simp]: "t_channels (fst (UpsertLNNode clean n d)) = t_channels d"
  by (simp add: UpsertLNNode_def db_call_def Let_def split: list.split)

section \<open>One record of a poll\<close>

definition current_close :: "channel \<Rightarrow> close_state" where
  "current_close prior = (if chCloseState prior = CloseOther '''' then CloseOpen else chCloseState prior)"

lemma current_close_rank [simp]: "closeRank (current_close prior) = closeRank (chCloseState prior)"
  by (simp add: current_close_def closeRank_def)

lemma touches_rpublish [simp]: "touches own k d (rpublish ev r) = touches own k d r"
  by (simp add: touches_def own_ok_def channels_ok_def closes_kept_def others_def)

lemma advanceClose_touches:
  assumes "ready i k (closeRank (chCloseState prior)) r"
  shows "touches own k r (fst (advanceClose i rec prior now r))"
proof (cases "closeRank (crCloseState rec) \<le> closeRank (current_close prior)")
  case False
  then have "closeRank (chCloseState prior) < closeRank (crCloseState rec)" by simp
  from SetChannelCloseSF_touches [OF assms this, of own "crCloseTxID rec" 0 now] False show ?thesis
    by (auto simp: advanceClose_def current_close_def Let_def split: prod.split sum.split)
qed (auto simp: advanceClose_def current_close_def Let_def)

lemma classify_touches:
  assumes "ready i k m r"
  shows "touches own k r (fst (classify i rec prior cs sp now r))"
  using SetChannelRelevance_touches [OF assms, of own]
  by (auto simp: classify_def case_prod_beta split: sum.split)

lemma closeRank_max: "closeRank c \<le> 2"
  by (simp add: closeRank_def)

lemma row_at_kept:
  assumes "row_at i k P d" "closes_kept d d'"
  shows "row_at i k (\<lambda>_. True) d'"
  using assms unfolding row_at_def closes_kept_def channel_le_def by metis

lemma ready_kept:
  assumes "row_at i k P d" "own_ok own d" "touches own k' d d'"
  shows "ready i k 2 d'"
proof (rule ready_if_row_at)
  from assms(2,3) have "own_ok own d'" "closes_kept d d'" by (simp_all add: touches_def)
  then show "own_ok own d'" "row_at i k (\<lambda>_. True) d'" using row_at_kept [OF assms(1)] by simp_all
qed (rule closeRank_max)

text \<open>What was read as a channel's row is no further behind than the row is now.\<close>

definition up_to_date :: "channel \<Rightarrow> string \<times> int \<Rightarrow> 'x db_scheme \<Rightarrow> bool" where
  "up_to_date prior k d \<longleftrightarrow>
     (\<forall>c \<in> set (t_channels d). channel_key c = k \<longrightarrow> closeRank (chCloseState c) \<le> closeRank (chCloseState prior))"

lemma up_to_date_others: "others k' d d' \<Longrightarrow> k \<noteq> k' \<Longrightarrow> up_to_date prior k d \<Longrightarrow> up_to_date prior k d'"
proof -
  assume o': "others k' d d'" and k: "k \<noteq> k'" and u: "up_to_date prior k d"
  have "c \<in> set (t_channels d)" if "c \<in> set (t_channels d')" "channel_key c = k" for c
  proof -
    have "c \<in> set (filter (\<lambda>c. channel_key c \<noteq> k') (t_channels d'))" using that k by auto
    then show ?thesis using o' unfolding others_def by (metis (no_types, lifting) filter_is_subset subsetD)
  qed
  then show ?thesis using u by (auto simp: up_to_date_def)
qed

lemma channel_key_merge [simp]: "channel_key ((merge prior rec)\<lparr>chLNNodeID := n, chUpdatedAt := t\<rparr>) = outpoint_of rec"
  by (simp add: merge_def channel_key_def outpoint_of_def Let_def zero_channel_def)

lemma closeRank_nonneg: "0 \<le> closeRank c"
  by (simp add: closeRank_def)

lemma UpsertChannel_ready:
  assumes "UpsertChannel clean c d = (d', Inr (i, changed))" "own_ok own d" "own_ok own d'"
    and "up_to_date prior (channel_key c) d"
  shows "ready i (channel_key c) (closeRank (chCloseState prior)) d'"
proof (rule ready_if_row_at [OF assms(3) UpsertChannel_row [OF assms(1,2)]])
  fix x
  assume x: "case find (\<lambda>r. channel_key r = channel_key c) (t_channels d) of
      None \<Rightarrow> chCloseState x = CloseOpen
    | Some r \<Rightarrow> chCloseState x = chCloseState r \<and> chRelevanceReason x = chRelevanceReason r"
  show "closeRank (chCloseState x) \<le> closeRank (chCloseState prior)"
  proof (cases "find (\<lambda>r. channel_key r = channel_key c) (t_channels d)")
    case None
    with x closeRank_nonneg [of "chCloseState prior"] show ?thesis by (simp add: closeRank_def)
  next
    case (Some r)
    from find_Some_mem [OF Some] x Some assms(4) show ?thesis by (simp add: up_to_date_def)
  qed
qed

lemma apply_record_touches:
  assumes "own (outpoint_of rec) = nid" "up_to_date prior (outpoint_of rec) r"
  shows "touches own (outpoint_of rec) r (apply_record clean nid rec prior sp now r)"
proof (cases "own_ok own r")
  case True
  let ?k = "outpoint_of rec" and ?c = "(merge prior rec)\<lparr>chLNNodeID := nid, chUpdatedAt := now\<rparr>"
  obtain r1 res where u: "UpsertChannel clean ?c r = (r1, res)" by fastforce
  have t1: "touches own ?k r r1" using UpsertChannel_touches [of own ?c r clean] assms(1) u by simp
  show ?thesis
  proof (cases res)
    case (Inl e)
    then show ?thesis using t1 u by (simp add: apply_record_def)
  next
    case (Inr p)
    then obtain i changed where res: "res = Inr (i, changed)" by (cases p) simp
    have own1: "own_ok own r1" using True t1 by (simp add: touches_def)
    define r2 where "r2 = fst (ReplaceHTLCSnapshot i now (crHTLCs rec) r1)"
    have t2: "touches own ?k r1 r2" by (rule same_touches) (simp add: r2_def)
    have rdy: "ready i ?k (closeRank (chCloseState prior)) r2"
      using UpsertChannel_ready [OF u [unfolded res] True own1] assms(2) by (simp add: r2_def ready_def)
    obtain r3 cs where a: "advanceClose i rec prior now r2 = (r3, cs)" by fastforce
    from advanceClose_touches [OF rdy, of own rec now] a have t3: "touches own ?k r2 r3" by simp
    have row: "row_at i ?k (\<lambda>_. True) r1"
      using UpsertChannel_row [OF u [unfolded res] True] by (auto simp: row_at_def)
    have t13: "touches own ?k r1 r3" by (rule touches_trans [OF t2 t3])
    have t4: "touches own ?k r3 (fst (classify i rec prior cs sp now r3))"
      by (rule classify_touches [OF ready_kept [OF row own1 t13]])
    show ?thesis
      using touches_trans [OF touches_trans [OF t1 t13] t4] u res a r2_def
      by (auto simp: apply_record_def Let_def split: prod.split)
  qed
qed (simp add: touches_def)

section \<open>Polls and passes\<close>

definition advances :: "(string \<times> int \<Rightarrow> string) \<Rightarrow> 'x db_scheme \<Rightarrow> 'y db_scheme \<Rightarrow> bool" where
  "advances own d d' \<longleftrightarrow> (own_ok own d \<longrightarrow> own_ok own d' \<and> closes_kept d d')"

lemma touches_advances: "touches own k d d' \<Longrightarrow> advances own d d'"
  by (simp add: touches_def advances_def)

lemma advances_trans: "advances own d e \<Longrightarrow> advances own e f \<Longrightarrow> advances own d f"
  unfolding advances_def using closes_kept_trans by blast

lemma same_advances: "t_channels d' = t_channels d \<Longrightarrow> advances own d d'"
  using same_touches touches_advances by blast

lemma advances_same: "advances own r d \<Longrightarrow> t_channels d' = t_channels d \<Longrightarrow> advances own r d'"
  using advances_trans same_advances by blast

lemma fold_advances:
  assumes "\<And>x r. x \<in> set xs \<Longrightarrow> advances own r (f x r)"
  shows "advances own r (fold f xs r)"
  using assms by (induction xs arbitrary: r) (auto intro: same_advances advances_trans)

text \<open>A snapshot lists an outpoint once, and only channels of the node it is from.\<close>

definition snapshot_ok :: "(string \<times> int \<Rightarrow> string) \<Rightarrow> snapshot \<Rightarrow> bool" where
  "snapshot_ok own snap \<longleftrightarrow> distinct (map outpoint_of (snChannels snap))
     \<and> (\<forall>rec \<in> set (snChannels snap). own (outpoint_of rec) = niPubkey (snNode snap))"

lemma records_advance:
  assumes "distinct (map outpoint_of recs)" "\<forall>rec \<in> set recs. own (outpoint_of rec) = nid"
    and "\<forall>rec \<in> set recs. up_to_date (prior (outpoint_of rec)) (outpoint_of rec) r"
  shows "advances own r (fold (\<lambda>rec. apply_record clean nid rec (prior (outpoint_of rec)) sp now) recs r)"
  using assms
proof (induction recs arbitrary: r)
  case (Cons rec recs)
  let ?r = "apply_record clean nid rec (prior (outpoint_of rec)) sp now r"
  have t: "touches own (outpoint_of rec) r ?r" using Cons.prems by (intro apply_record_touches) simp_all
  show ?case
  proof (cases "own_ok own r")
    case True
    with t have "others (outpoint_of rec) r ?r" by (simp add: touches_def)
    then have "up_to_date (prior (outpoint_of x)) (outpoint_of x) ?r" if "x \<in> set recs" for x
    proof (rule up_to_date_others)
      show "outpoint_of x \<noteq> outpoint_of rec" using Cons.prems(1) that by (metis distinct.simps(2) image_eqI list.map(2) list.set_map)
      show "up_to_date (prior (outpoint_of x)) (outpoint_of x) r" using Cons.prems(3) that by simp
    qed
    with Cons have "advances own ?r (fold (\<lambda>rec. apply_record clean nid rec (prior (outpoint_of rec)) sp now) recs ?r)"
      by simp
    then show ?thesis using advances_trans [OF touches_advances [OF t]] by simp
  qed (simp add: advances_def)
qed (simp add: same_advances)

lemma priorChannels_cases:
  assumes "priorChannels nid r = (r', res)"
  shows "t_channels r' = t_channels r"
    and "res = Inr prior \<Longrightarrow> own_ok own r \<Longrightarrow> own k = nid \<Longrightarrow> up_to_date (prior k) k r'"
proof -
  let ?f = "\<lparr>cfLNNodeID = nid, cfRelevance = RelevanceOther '''', cfOpenOnly = False\<rparr>"
  obtain r1 l where l: "ListChannels ?f r = (r1, l)" by fastforce
  from l [unfolded ListChannels_def] obtain fs where r1: "r1 = r\<lparr>faults := fs\<rparr>"
    and res: "l = Inl StoreIO \<or> l = Inr (filter (\<lambda>c. nid = '''' \<or> chLNNodeID c = nid) (t_channels r))"
    by (cases rule: db_read_cases) auto
  show "t_channels r' = t_channels r"
    using assms l r1 by (auto simp: priorChannels_def split: sum.splits)
  assume p: "res = Inr prior" and own: "own_ok own r" and k: "own k = nid"
  let ?rows = "filter (\<lambda>c. nid = '''' \<or> chLNNodeID c = nid) (t_channels r)"
  from p assms l r1 res have pr: "prior = (\<lambda>k. case find (\<lambda>c. channel_key c = k) (rev ?rows) of None \<Rightarrow> zero_channel | Some c \<Rightarrow> c)"
    and r': "t_channels r' = t_channels r"
    by (auto simp: priorChannels_def)
  show "up_to_date (prior k) k r'"
    unfolding up_to_date_def r'
  proof (intro ballI impI)
    fix c assume c: "c \<in> set (t_channels r)" "channel_key c = k"
    then have m: "c \<in> set (rev ?rows)" using own k by (simp add: own_ok_def)
    then obtain x where x: "find (\<lambda>c. channel_key c = k) (rev ?rows) = Some x"
      using c(2) by (cases "find (\<lambda>c. channel_key c = k) (rev ?rows)") (auto simp: find_None_iff)
    from find_Some_mem [OF x] have "x \<in> set (t_channels r)" "channel_key x = channel_key c" using c by auto
    moreover have "inj_on channel_key (set (t_channels r))"
      using own by (auto simp: own_ok_def channels_ok_def table_ok_def distinct_map)
    ultimately have "x = c" using c by (meson inj_onD)
    then show "closeRank (chCloseState c) \<le> closeRank (chCloseState (prior k))" by (simp add: pr x)
  qed
qed

definition answer_ok :: "(string \<times> int \<Rightarrow> string) \<Rightarrow> string \<times> (string + snapshot) \<Rightarrow> bool" where
  "answer_ok own a = (case snd a of Inl _ \<Rightarrow> True | Inr snap \<Rightarrow> snapshot_ok own snap)"

lemma pollSource_advances:
  assumes "answer_ok own (name, a)"
  shows "advances own r (pollSource clean sp now (name, a) r)"
proof (cases a)
  case (Inr snap)
  let ?nid = "niPubkey (snNode snap)"
  let ?n = "\<lparr>nodeID = ?nid, nodeImpl = niImpl (snNode snap), nodeAlias = niAlias (snNode snap), nodeLastSeenAt = now\<rparr>"
  obtain r1 res1 where u: "UpsertLNNode clean ?n r = (r1, res1)" by fastforce
  obtain r2 res2 where p: "priorChannels ?nid r1 = (r2, res2)" by fastforce
  have c: "t_channels r1 = t_channels r" "t_channels r2 = t_channels r"
    using UpsertLNNode_channels [of clean ?n r] priorChannels_cases(1) [OF p] u by simp_all
  consider "?nid = ''''" | e where "res1 = Inl e" | e where "res2 = Inl e"
    | prior where "?nid \<noteq> ''''" "res1 = Inr ()" "res2 = Inr prior"
    by (metis obj_sumE old.unit.exhaust)
  then show ?thesis
  proof cases
    case 4
    let ?r3 = "fold (\<lambda>rec. apply_record clean ?nid rec (prior (outpoint_of rec)) sp now) (snChannels snap) r2"
    have "advances own r2 ?r3"
    proof (cases "own_ok own r1")
      case True
      from assms Inr have "snapshot_ok own snap" by (simp add: answer_ok_def)
      then show ?thesis
        using priorChannels_cases(2) [OF p 4(3) True] by (intro records_advance) (auto simp: snapshot_ok_def)
    next
      case False
      then have "\<not> own_ok own r2" using c by (simp add: own_ok_def channels_ok_def)
      then show ?thesis by (simp add: advances_def)
    qed
    then have "advances own r ?r3" by (rule advances_trans [OF same_advances [OF c(2)]])
    then show ?thesis using Inr 4 u p by (simp add: pollSource_def advances_same)
  qed (use Inr u p c in \<open>auto simp: pollSource_def intro!: same_advances split: sum.split\<close>)
qed (simp add: pollSource_def same_advances)

lemma GetSplitState_channels [simp]: "t_channels (fst (GetSplitState d)) = t_channels d"
  by (simp add: GetSplitState_def db_read_def db_call_def split: list.split)

lemma ListChannels_channels [simp]: "t_channels (fst (ListChannels f d)) = t_channels d"
  by (simp add: ListChannels_def db_read_def db_call_def split: list.split)

lemma ListChannels_rows: "ListChannels f d = (d', Inr cs) \<Longrightarrow> set cs \<subseteq> set (t_channels d)"
  unfolding ListChannels_def by (erule db_read_cases) auto

lemma poll_advances:
  assumes "\<forall>a \<in> set answers. answer_ok own a"
  shows "advances own r (poll clean now answers r)"
proof -
  obtain r1 res where g: "GetSplitState r = (r1, res)" by fastforce
  have "advances own r r1" using GetSplitState_channels [of r] g by (intro same_advances) simp
  moreover have "advances own r1 (fold (pollSource clean sp now) answers r1)" for sp
    using assms by (intro fold_advances) (metis pollSource_advances surj_pair)
  ultimately show ?thesis using g by (auto simp: poll_def split: sum.split intro: advances_trans)
qed

text \<open>Every listed channel still has its row, wherever a pass over the list has got to.\<close>

definition rows_listed :: "channel list \<Rightarrow> 'x db_scheme \<Rightarrow> bool" where
  "rows_listed cs d \<longleftrightarrow> (\<forall>c \<in> set cs. row_at (chID c) (channel_key c) (\<lambda>_. True) d)"

lemma pass_advances:
  assumes "rows_listed cs r"
    and "\<And>c r. c \<in> set cs \<Longrightarrow> own_ok own r \<Longrightarrow> row_at (chID c) (channel_key c) (\<lambda>_. True) r \<Longrightarrow> advances own r (f c r)"
  shows "advances own r (fold f cs r)"
  using assms
proof (induction cs arbitrary: r)
  case (Cons c cs)
  show ?case
  proof (cases "own_ok own r")
    case True
    with Cons.prems have a: "advances own r (f c r)" by (simp add: rows_listed_def)
    with True have "closes_kept r (f c r)" by (simp add: advances_def)
    with Cons.prems(1) have "rows_listed cs (f c r)" by (auto simp: rows_listed_def intro: row_at_kept)
    with Cons have "advances own (f c r) (fold f cs (f c r))" by simp
    with a show ?thesis by (auto intro: advances_trans)
  qed (simp add: advances_def)
qed (simp add: same_advances)

lemma listed_rows: "ListChannels f d = (d', Inr cs) \<Longrightarrow> rows_listed cs d'"
  using ListChannels_rows [of f d d' cs] ListChannels_channels [of f d]
  by (auto simp: rows_listed_def row_at_def subset_iff)

lemma reclassify_one_advances:
  assumes "own_ok own r" "row_at (chID c) (channel_key c) (\<lambda>_. True) r"
  shows "advances own r (reclassify_one sp now c r)"
  using touches_advances [OF SetChannelRelevance_touches [OF ready_kept [OF assms(2,1) touches_refl]]]
  by (auto simp: reclassify_one_def same_advances split: prod.split)

lemma reclassifyAll_advances: "advances own r (reclassifyAll now r)"
proof -
  obtain r1 res where g: "GetSplitState r = (r1, res)" by fastforce
  obtain r2 l where l: "ListChannels all_channels r1 = (r2, l)" by fastforce
  have c: "t_channels r1 = t_channels r" "t_channels r2 = t_channels r"
    using GetSplitState_channels [of r] ListChannels_channels [of all_channels r1] g l by simp_all
  have "advances own r2 (fold (reclassify_one sp now) cs r2)" if "l = Inr cs" for sp cs
    using listed_rows l that reclassify_one_advances by (intro pass_advances) blast+
  then show ?thesis
    using g l c by (auto simp: reclassifyAll_def split: sum.split intro: advances_trans [OF same_advances] same_advances)
qed

lemma backfill_one_advances:
  assumes "own (channel_key c) = chLNNodeID c"
  shows "advances own r (backfill_one clean txid srcs now c r)"
proof -
  have "touches own (channel_key c) r (fst (UpsertChannel clean (c\<lparr>chFundingScriptHex := s, chUpdatedAt := now\<rparr>) r))" for s
    using UpsertChannel_touches [of own "c\<lparr>chFundingScriptHex := s, chUpdatedAt := now\<rparr>" r clean] assms
    by (simp add: channel_key_def)
  then have "advances own r ((fst (UpsertChannel clean (c\<lparr>chFundingScriptHex := s, chUpdatedAt := now\<rparr>) r))\<lparr>rgTried := x\<rparr>)" for s x
    by (rule advances_same [OF touches_advances]) simp_all
  then show ?thesis by (auto simp: backfill_one_def Let_def same_advances split: sum.split)
qed

lemma backfill_advances: "advances own r (backfill clean txid srcs now r)"
proof (cases "own_ok own r")
  case True
  obtain r1 l where l: "ListChannels all_channels r = (r1, l)" by fastforce
  have c: "t_channels r1 = t_channels r" using ListChannels_channels [of all_channels r] l by simp
  have "advances own r1 (fold (backfill_one clean txid srcs now) cs r1)" if "l = Inr cs" for cs
    using ListChannels_rows [of all_channels r r1 cs] l that True
    by (intro fold_advances backfill_one_advances) (auto simp: own_ok_def)
  then show ?thesis
    using l c by (auto simp: backfill_def split: sum.split intro: advances_trans [OF same_advances] same_advances)
qed (simp add: advances_def)

definition input_ok :: "(string \<times> int \<Rightarrow> string) \<Rightarrow> registry_input \<Rightarrow> bool" where
  "input_ok own i = (case i of RPoll _ answers \<Rightarrow> list_all (answer_ok own) answers | _ \<Rightarrow> True)"

lemma registry_step_advances: "input_ok own i \<Longrightarrow> advances own r (registry_step clean txid r i)"
  by (auto simp: registry_step_def input_ok_def list_all_iff intro: poll_advances reclassifyAll_advances backfill_advances
      split: registry_input.splits)

lemma registry_run_advances:
  "list_all (input_ok own) inputs \<Longrightarrow> advances own r (foldl (registry_step clean txid) r inputs)"
  by (induction inputs arbitrary: r) (auto intro: same_advances advances_trans registry_step_advances)

section \<open>The funding that reached both chains\<close>

text \<open>No stored row carries the reason of a mirrored funding.\<close>

definition unmirrored :: "'x db_scheme \<Rightarrow> bool" where
  "unmirrored d \<longleftrightarrow> (\<forall>c \<in> set (t_channels d). chRelevanceReason c \<noteq> ReasonFundedAfterForkButMirrored)"

lemma unmirrored_cong: "t_channels d' = t_channels d \<Longrightarrow> unmirrored d' = unmirrored d"
  by (simp add: unmirrored_def)

lemma unmirrored_faults [simp]: "unmirrored (d\<lparr>faults := fs\<rparr>) = unmirrored d"
  by (simp add: unmirrored_def)

lemma unmirrored_call:
  assumes "\<And>e. unmirrored e \<Longrightarrow> unmirrored (fst (f e))" "unmirrored d"
  shows "unmirrored (fst (db_call f d))"
proof -
  obtain d' x where "db_call f d = (d', x)" by fastforce
  then show ?thesis
  proof (cases rule: db_call_cases)
    case (ran fs)
    with assms(1) [of "d\<lparr>faults := fs\<rparr>"] assms(2) show ?thesis using \<open>db_call f d = (d', x)\<close> by simp
  qed (use assms(2) \<open>db_call f d = (d', x)\<close> in simp)
qed

lemma mirrored_not_empty: "ReasonFundedAfterForkButMirrored \<noteq> ''''"
  by (simp add: ReasonFundedAfterForkButMirrored_def)

lemma unmirrored_update:
  "unmirrored d \<Longrightarrow> (\<And>c. chRelevanceReason c \<noteq> ReasonFundedAfterForkButMirrored
      \<Longrightarrow> chRelevanceReason (f c) \<noteq> ReasonFundedAfterForkButMirrored)
   \<Longrightarrow> unmirrored (d\<lparr>t_channels := update_row chID i f (t_channels d)\<rparr>)"
  by (auto simp: unmirrored_def update_row_def)

lemma UpsertChannel_unmirrored: "unmirrored d \<Longrightarrow> unmirrored (fst (UpsertChannel clean c d))"
  unfolding UpsertChannel_def Let_def
  by (auto intro!: unmirrored_call unmirrored_update simp: poll_channel_def split: option.split simp del: find_Some_iff)
    (auto simp: unmirrored_def place_channel_def mirrored_not_empty [symmetric])

lemma SetChannelCloseSF_unmirrored: "unmirrored d \<Longrightarrow> unmirrored (fst (SetChannelCloseSF i st txid h now d))"
  unfolding SetChannelCloseSF_def by (auto intro!: unmirrored_call unmirrored_update simp: requireOneRow_def)

lemma SetChannelRelevance_unmirrored:
  "unmirrored d \<Longrightarrow> reason \<noteq> ReasonFundedAfterForkButMirrored \<Longrightarrow> unmirrored (fst (SetChannelRelevance i rel reason now d))"
  unfolding SetChannelRelevance_def by (auto intro!: unmirrored_call unmirrored_update simp: requireOneRow_def)

lemma RelClassify_unmirrored: "\<not> faFundingSeenOnSQ f \<Longrightarrow> snd (RelClassify f) \<noteq> ReasonFundedAfterForkButMirrored"
  by (auto simp: RelClassify_def ReasonFundedAfterForkButMirrored_def ReasonProvisional_def ReasonClosedBeforeFork_def
      ReasonOpenHeightUnknown_def ReasonFundedAfterFork_def ReasonClosedOnlyOnSF_def ReasonFundedBeforeFork_def)

lemma advanceClose_unmirrored: "unmirrored r \<Longrightarrow> unmirrored (fst (advanceClose i rec prior now r))"
  using SetChannelCloseSF_unmirrored [of r i "crCloseState rec" "crCloseTxID rec" 0 now]
  by (auto simp: advanceClose_def Let_def unmirrored_def split: prod.split sum.split)

lemma classify_unmirrored:
  assumes "unmirrored r" "chRelevanceReason prior \<noteq> ReasonFundedAfterForkButMirrored"
  shows "unmirrored (fst (classify i rec prior cs sp now r))"
proof -
  have "\<not> faFundingSeenOnSQ (record_facts sp rec prior cs)" using assms(2) by (simp add: record_facts_def fundingSeenOnSQ_def)
  from SetChannelRelevance_unmirrored [OF assms(1) RelClassify_unmirrored [OF this], of i "fst (RelClassify (record_facts sp rec prior cs))" now] assms(1) show ?thesis
    by (auto simp: classify_def split: prod.split sum.split)
qed

lemma apply_record_unmirrored:
  assumes "unmirrored r" "chRelevanceReason prior \<noteq> ReasonFundedAfterForkButMirrored"
  shows "unmirrored (apply_record clean nid rec prior sp now r)"
proof -
  obtain r1 res where u: "UpsertChannel clean ((merge prior rec)\<lparr>chLNNodeID := nid, chUpdatedAt := now\<rparr>) r = (r1, res)"
    by fastforce
  with UpsertChannel_unmirrored [OF assms(1), of clean] have r1: "unmirrored r1" by (metis fst_conv)
  show ?thesis
  proof (cases res)
    case (Inr p)
    let ?r2 = "fst (ReplaceHTLCSnapshot (fst p) now (crHTLCs rec) r1)"
    have "unmirrored ?r2" using r1 by (simp add: unmirrored_def)
    then have r3: "unmirrored (fst (advanceClose (fst p) rec prior now ?r2))" by (rule advanceClose_unmirrored)
    then have "unmirrored (fst (classify (fst p) rec prior cs sp now (fst (advanceClose (fst p) rec prior now ?r2))))" for cs
      by (rule classify_unmirrored [OF _ assms(2)])
    then show ?thesis using Inr u
      by (auto simp: apply_record_def Let_def unmirrored_def split: prod.split) (metis fst_conv)+
  qed (use u r1 in \<open>simp add: apply_record_def\<close>)
qed

lemma priorChannels_unmirrored:
  assumes "priorChannels nid r = (r', Inr prior)" "unmirrored r"
  shows "unmirrored r'" and "chRelevanceReason (prior k) \<noteq> ReasonFundedAfterForkButMirrored"
proof -
  let ?f = "\<lparr>cfLNNodeID = nid, cfRelevance = RelevanceOther '''', cfOpenOnly = False\<rparr>"
  show "unmirrored r'" using unmirrored_cong [OF priorChannels_cases(1) [OF assms(1)]] assms(2) by simp
  obtain r1 rows where l: "ListChannels ?f r = (r1, Inr rows)"
    and p: "prior = (\<lambda>k. case find (\<lambda>c. channel_key c = k) (rev rows) of None \<Rightarrow> zero_channel | Some c \<Rightarrow> c)"
    using assms(1) by (auto simp: priorChannels_def split: prod.splits sum.splits)
  show "chRelevanceReason (prior k) \<noteq> ReasonFundedAfterForkButMirrored"
  proof (cases "find (\<lambda>c. channel_key c = k) (rev rows)")
    case None
    then show ?thesis using mirrored_not_empty by (simp add: p zero_channel_def)
  next
    case (Some c)
    from find_Some_mem [OF Some] ListChannels_rows [OF l] have "c \<in> set (t_channels r)" by auto
    then show ?thesis using assms(2) Some by (simp add: p unmirrored_def)
  qed
qed

lemma fold_unmirrored:
  assumes "\<And>x r. x \<in> set xs \<Longrightarrow> unmirrored r \<Longrightarrow> unmirrored (f x r)" "unmirrored r"
  shows "unmirrored (fold f xs r)"
  using assms by (induction xs arbitrary: r) simp_all

lemma pollSource_unmirrored:
  assumes "unmirrored r"
  shows "unmirrored (pollSource clean sp now (name, a) r)"
proof (cases a)
  case (Inr snap)
  let ?nid = "niPubkey (snNode snap)"
  let ?n = "\<lparr>nodeID = ?nid, nodeImpl = niImpl (snNode snap), nodeAlias = niAlias (snNode snap), nodeLastSeenAt = now\<rparr>"
  obtain r1 res1 where u: "UpsertLNNode clean ?n r = (r1, res1)" by fastforce
  obtain r2 res2 where p: "priorChannels ?nid r1 = (r2, res2)" by fastforce
  have c: "t_channels r1 = t_channels r" "t_channels r2 = t_channels r"
    using UpsertLNNode_channels [of clean ?n r] priorChannels_cases(1) [OF p] u by simp_all
  have m: "unmirrored r1" "unmirrored r2" using assms by (simp_all add: unmirrored_def c)
  have "unmirrored (fold (\<lambda>rec. apply_record clean ?nid rec (prior (outpoint_of rec)) sp now) (snChannels snap) r2)"
    if "res2 = Inr prior" for prior
    using priorChannels_unmirrored [OF p [unfolded that] m(1)] apply_record_unmirrored by (intro fold_unmirrored) blast+
  then show ?thesis
    using Inr u p assms m
    by (auto simp: pollSource_def unmirrored_def split: sum.split)
qed (use assms in \<open>simp add: pollSource_def unmirrored_def\<close>)

lemma poll_unmirrored: "unmirrored r \<Longrightarrow> unmirrored (poll clean now answers r)"
proof -
  assume u: "unmirrored r"
  obtain r1 res where g: "GetSplitState r = (r1, res)" by fastforce
  with GetSplitState_channels [of r] u have "unmirrored r1" by (simp add: unmirrored_def)
  then have "unmirrored (fold (pollSource clean sp now) answers r1)" for sp
    using pollSource_unmirrored by (intro fold_unmirrored) (metis surj_pair)+
  then show ?thesis using g by (simp add: poll_def split: sum.split)
qed

lemma reclassify_one_unmirrored:
  assumes "chRelevanceReason c \<noteq> ReasonFundedAfterForkButMirrored" "unmirrored r"
  shows "unmirrored (reclassify_one sp now c r)"
proof -
  have "\<not> faFundingSeenOnSQ (channel_facts sp c)" using assms(1) by (simp add: channel_facts_def fundingSeenOnSQ_def)
  from SetChannelRelevance_unmirrored [OF assms(2) RelClassify_unmirrored [OF this]] assms(2) show ?thesis
    by (simp add: reclassify_one_def case_prod_beta)
qed

lemma reclassifyAll_unmirrored: "unmirrored r \<Longrightarrow> unmirrored (reclassifyAll now r)"
proof -
  assume u: "unmirrored r"
  obtain r1 res where g: "GetSplitState r = (r1, res)" by fastforce
  obtain r2 l where l: "ListChannels all_channels r1 = (r2, l)" by fastforce
  have c: "unmirrored r1" "unmirrored r2"
    using GetSplitState_channels [of r] ListChannels_channels [of all_channels r1] g l u by (simp_all add: unmirrored_def)
  have "unmirrored (fold (reclassify_one sp now) cs r2)" if "l = Inr cs" for sp cs
  proof (rule fold_unmirrored)
    fix x r assume "x \<in> set cs" and r: "unmirrored (r :: registry)"
    then have "chRelevanceReason x \<noteq> ReasonFundedAfterForkButMirrored"
      using ListChannels_rows [OF l [unfolded that]] c(1) by (auto simp: unmirrored_def)
    then show "unmirrored (reclassify_one sp now x r)" using r by (rule reclassify_one_unmirrored)
  qed (rule c(2))
  then show ?thesis using g l c by (auto simp: reclassifyAll_def split: sum.split)
qed

lemma backfill_unmirrored: "unmirrored r \<Longrightarrow> unmirrored (backfill clean txid srcs now r)"
proof -
  assume u: "unmirrored r"
  have one: "unmirrored (backfill_one clean txid srcs now c e)" if "unmirrored e" for c e
    using that UpsertChannel_unmirrored [OF that, of clean]
    by (auto simp: backfill_one_def Let_def unmirrored_def split: sum.split)
  obtain r1 l where l: "ListChannels all_channels r = (r1, l)" by fastforce
  with ListChannels_channels [of all_channels r] u have "unmirrored r1" by (simp add: unmirrored_def)
  then have "unmirrored (fold (backfill_one clean txid srcs now) cs r1)" for cs
    using one by (intro fold_unmirrored) simp_all
  then show ?thesis using l \<open>unmirrored r1\<close> by (simp add: backfill_def split: sum.split)
qed

lemma run_unmirrored: "unmirrored r \<Longrightarrow> unmirrored (foldl (registry_step clean txid) r inputs)"
  by (induction inputs arbitrary: r)
    (simp_all add: registry_step_def poll_unmirrored reclassifyAll_unmirrored backfill_unmirrored split: registry_input.split)

section \<open>Properties\<close>

text \<open>
  C24: whatever the nodes answer and whatever call fails, no channel the registry knows is lost and
  none of its closes moves back: when every funding outpoint belongs to one of the user's nodes
  and a snapshot lists it once, each stored channel is still there after any sequence of polls,
  reclassifications and backfills, under the same id and outpoint, and its close is either
  further along (open, pending, closed) or exactly what it was, transaction and height included.
\<close>

theorem close_moves_forward:
  assumes "own_ok own r" "list_all (input_ok own) inputs" "c \<in> set (t_channels r)"
  shows "\<exists>c' \<in> set (t_channels (foldl (registry_step clean txid) r inputs)).
      chID c' = chID c \<and> channel_key c' = channel_key c
      \<and> (closeRank (chCloseState c) < closeRank (chCloseState c')
         \<or> chCloseState c' = chCloseState c \<and> chCloseTxID c' = chCloseTxID c \<and> chCloseHeight c' = chCloseHeight c)"
  using registry_run_advances [OF assms(2), of r clean txid] assms(1,3)
  by (fastforce simp: advances_def closes_kept_def channel_le_def close_le_def)

text \<open>A closed channel of one node, listed again as open by a node that has fallen behind.\<close>

definition sample_record :: "close_state \<Rightarrow> channel_record" where
  "sample_record st = \<lparr>crFundingTxID = ''f'', crFundingVout = 0, crFundingScriptHex = '''', crCapacitySat = 1000,
     crChanType = ChanAnchors, crCSVDelayLocal = None, crCSVDelayRemote = None, crPeerPubkey = ''p'', crPeerAlias = '''',
     crOpenHeight = 0, crSCID = '''', crCloseState = st, crCloseTxID = '''', crHTLCs = []\<rparr>"

definition sample_channel :: channel where
  "sample_channel = zero_channel\<lparr>chID := 1, chLNNodeID := ''n'', chFundingTxID := ''f'', chChanType := ChanAnchors,
     chOpenHeight := 90, chCloseState := CloseForce, chCloseTxID := ''t'', chCloseHeight := 95, chRelevance := Relevant\<rparr>"

definition sample_snapshot :: "string \<Rightarrow> close_state \<Rightarrow> snapshot" where
  "sample_snapshot n st = \<lparr>snNode = \<lparr>niPubkey = n, niAlias = '''', niImpl = ImplLND\<rparr>, snChannels = [sample_record st]\<rparr>"

definition sample_registry :: registry where
  "sample_registry = \<lparr>t_nodes = [\<lparr>nodeID = ''n'', nodeImpl = ImplLND, nodeAlias = '''', nodeLastSeenAt = 0\<rparr>],
     t_channels = [sample_channel], t_htlcs = [], t_spends = [], t_outpoints = [], t_deadlines = [], faults = [],
     t_meta = [], t_split = None, t_blocks = [], t_alerts = [], t_deliveries = [], rgHealth = [], rgTried = [], rgEvents = []\<rparr>"

theorem close_moves_forward_witness:
  "\<exists>c' \<in> set (t_channels (foldl (registry_step id (\<lambda>_. '''')) sample_registry [RPoll 7 [(''lnd'', Inr (sample_snapshot ''n'' CloseOpen))]])).
      chID c' = 1 \<and> closeRank (chCloseState c') = 2"
proof -
  have "own_ok (\<lambda>_. ''n'') sample_registry"
    by (simp add: own_ok_def channels_ok_def table_ok_def sample_registry_def sample_channel_def)
  moreover have "list_all (input_ok (\<lambda>_. ''n'')) [RPoll 7 [(''lnd'', Inr (sample_snapshot ''n'' CloseOpen))]]"
    by (simp add: input_ok_def answer_ok_def snapshot_ok_def sample_snapshot_def)
  moreover have "sample_channel \<in> set (t_channels sample_registry)" by (simp add: sample_registry_def)
  ultimately obtain c' where "c' \<in> set (t_channels (foldl (registry_step id (\<lambda>_. '''')) sample_registry
        [RPoll 7 [(''lnd'', Inr (sample_snapshot ''n'' CloseOpen))]]))" "chID c' = chID sample_channel"
      "closeRank (chCloseState sample_channel) \<le> closeRank (chCloseState c')"
    using close_moves_forward [of "\<lambda>_. ''n''" sample_registry "[RPoll 7 [(''lnd'', Inr (sample_snapshot ''n'' CloseOpen))]]"
        sample_channel id "\<lambda>_. ''''"] by (metis order.strict_implies_order order.refl)
  then show ?thesis
    using closeRank_max [of "chCloseState c'"]
    by (intro bexI [of _ c']) (simp_all add: sample_channel_def closeRank_def [of CloseForce])
qed

text \<open>
  The registry never says that a funding transaction reached both chains. The reason it has for
  such a channel is only given to a channel that already carries it, and no run from a database
  without it ever writes it; so once the fork point is known every channel funded later is
  irrelevant, whatever the other chain holds.
\<close>

theorem mirrored_funding_never_noticed:
  assumes "unmirrored r" "c \<in> set (t_channels (foldl (registry_step clean txid) r inputs))"
  shows "chRelevanceReason c \<noteq> ReasonFundedAfterForkButMirrored
    \<and> (ForkKnown sp \<and> slForkHeight sp < chOpenHeight c \<and> 0 < chOpenHeight c
       \<longrightarrow> fst (RelClassify (channel_facts sp c)) = Irrelevant)"
proof -
  have "chRelevanceReason c \<noteq> ReasonFundedAfterForkButMirrored"
    using run_unmirrored [OF assms(1), of clean txid inputs] assms(2) by (simp add: unmirrored_def)
  then show ?thesis by (simp add: RelClassify_def channel_facts_def fundingSeenOnSQ_def)
qed

theorem mirrored_funding_never_noticed_witness:
  "chRelevanceReason sample_channel \<noteq> ReasonFundedAfterForkButMirrored"
proof -
  have "unmirrored sample_registry"
    using mirrored_not_empty by (simp add: unmirrored_def sample_registry_def sample_channel_def zero_channel_def)
  then show ?thesis
    using mirrored_funding_never_noticed [of sample_registry sample_channel id "\<lambda>_. ''''" "[]"]
    by (simp add: sample_registry_def)
qed

text \<open>
  A node that stops saying where a channel was funded, as it does of a channel that is closing,
  makes the poll forget it: the stored row keeps the height it had, and the poll classifies from
  the answer alone and calls the exposure unknown. A pass over all channels decides from the
  stored row, so the two disagree about the same channel whenever its height is known.
\<close>

theorem closing_channel_forgets_height:
  assumes "ForkKnown sp" "crOpenHeight rec = 0" "0 < chOpenHeight prior"
    and "chCloseHeight prior \<le> 0 \<or> slForkHeight sp < chCloseHeight prior"
  shows "chOpenHeight (merge prior rec) = chOpenHeight prior"
    and "RelClassify (record_facts sp rec prior cs) = (RelevanceUnknown, ReasonOpenHeightUnknown)"
    and "fst (RelClassify (channel_facts sp prior)) \<noteq> RelevanceUnknown"
  using assms by (auto simp: merge_def Let_def firstNonZero_def record_facts_def channel_facts_def RelClassify_def)

text \<open>
  A channel between two of the user's own nodes: the second node's poll does not find the row the
  first one wrote, takes the channel for a new one and moves its close back.
\<close>

lemma shared_channel_goes_back:
  "map (\<lambda>c. (chLNNodeID c, chCloseState c, chCloseTxID c))
     (t_channels (poll id 7 [(''lnd'', Inr (sample_snapshot ''m'' ClosePending))] sample_registry)) = [(''m'', ClosePending, '''')]"
  by code_simp

end
