(* ===== verification/Mirror_Policy.thy ===== *)
theory Mirror_Policy
  imports Relevance
begin

text \<open>
  What may be copied between the chains, and how a refusal is treated:
  \<open>internal/responder/mirror/policy.go\<close> and \<open>internal/responder/mirror/broadcast.go\<close>. Both
  are pure. Durations are whole seconds: every one of the file is.
\<close>

section \<open>The allowlist\<close>

datatype mirror_rule =
    RuleCoopClose | RuleOwnCommitment | RuleOwnSweep | RuleJusticeWeSent | RuleFundingOptIn
  | DenyDefault | DenyTheirCommitment | DenyUnknownShape | DenyUnknownChannel
  | DenyFundingNotOptedIn | DenyNotOursToSend | DenyDirection | DenySameBranch

record mirror_inputs =
  inShape :: spend_shape
  inFrom :: branch
  inTo :: branch
  inChannelKnown :: bool
  inSourceShape :: spend_shape
  inIsFundingTx :: bool
  inFundingOptIn :: bool

record mirror_verdict =
  vdMirror :: bool
  vdRule :: mirror_rule
  vdReason :: string

definition allow :: "mirror_rule \<Rightarrow> string \<Rightarrow> mirror_verdict" where
  "allow r reason = \<lparr>vdMirror = True, vdRule = r, vdReason = reason\<rparr>"

definition deny :: "mirror_rule \<Rightarrow> string \<Rightarrow> mirror_verdict" where
  "deny r reason = \<lparr>vdMirror = False, vdRule = r, vdReason = reason\<rparr>"

text \<open>A branch as it is printed.\<close>

fun branch_text :: "branch \<Rightarrow> string" where
  "branch_text BranchSF = ''sf''"
| "branch_text BranchSQ = ''sq''"
| "branch_text (BranchOther s) = s"

definition decideFunding :: "mirror_inputs \<Rightarrow> mirror_verdict" where
  "decideFunding i =
     (if \<not> inFundingOptIn i then deny DenyFundingNotOptedIn
        ''this is a channel's funding transaction. Copying it would put money on the other chain that is not there now, so Forktower does it only if you turn it on for that channel''
      else allow RuleFundingOptIn
        ''this is a channel's funding transaction, and you turned on copying it for this channel'')"

definition towardsTheOtherChain :: "mirror_inputs \<Rightarrow> mirror_verdict" where
  "towardsTheOtherChain i =
     (case inShape i of
        ShapeMutualClose \<Rightarrow> allow RuleCoopClose
          (''both of you agreed to close this channel, so the close belongs on both chains '' @ em_dash @ '' otherwise it stays open on the other one'')
      | ShapeCommitmentOurs \<Rightarrow> allow RuleOwnCommitment
          ''you closed this channel yourself, so your close belongs on both chains''
      | ShapeJustice \<Rightarrow>
          if inSourceShape i = ShapeCommitmentUnknown \<or> inSourceShape i = ShapeCommitmentRevoked
          then allow RuleJusticeWeSent
            ''your node punished a broken promise on this chain, and the same punishment belongs on the other one, where nobody else is watching''
          else deny DenyNotOursToSend
            ''this punishes a close you made, which means the other party sent it. Forktower does not move it for them''
      | ShapeCommitmentUnknown \<Rightarrow> deny DenyTheirCommitment
          ''the other party closed this channel on this chain. Copying that to the other chain would put your money at risk there when it is not at risk now, so Forktower will not do it''
      | ShapeCommitmentRevoked \<Rightarrow> deny DenyTheirCommitment
          ''the other party closed this channel on this chain. Copying that to the other chain would put your money at risk there when it is not at risk now, so Forktower will not do it''
      | ShapeUnknown \<Rightarrow> deny DenyUnknownShape
          ''Forktower could not work out what this transaction does, so it does not copy it''
      | ShapeOther _ \<Rightarrow> deny DenyDefault
          ''this is not one of the kinds of transaction Forktower copies between chains''
      | _ \<Rightarrow>
          if inSourceShape i = ShapeCommitmentOurs then allow RuleOwnSweep
            ''this collects money from a channel you closed yourself, so it belongs on both chains''
          else deny DenyNotOursToSend
            ''this collects money from a close the other party made. It is their transaction, not yours, and Forktower does not move it for them'')"

definition towardsYourOwnChain :: "mirror_inputs \<Rightarrow> mirror_verdict" where
  "towardsYourOwnChain i =
     (if inShape i = ShapeMutualClose then allow RuleCoopClose
        ''both of you agreed to close this channel and it settled on the other chain first, so the close belongs here too''
      else deny DenyDefault
        ''Forktower only copies an agreed close back to your own chain. Anything else would be acting on your node's behalf on the chain it is already watching'')"

definition Decide :: "mirror_inputs \<Rightarrow> mirror_verdict" where
  "Decide i =
     (if inFrom i = inTo i then deny DenySameBranch (''mirroring '' @ branch_text (inFrom i) @ '' to itself is not a direction'')
      else if \<not> Branch_Valid (inFrom i) \<or> \<not> Branch_Valid (inTo i)
      then deny DenySameBranch ''this transaction does not name two chains to move between''
      else if \<not> inChannelKnown i
      then deny DenyUnknownChannel ''this transaction is not part of any of your channels, so Forktower does not move it''
      else if inIsFundingTx i then decideFunding i
      else
        (case inTo i of
           BranchSQ \<Rightarrow> towardsTheOtherChain i
         | BranchSF \<Rightarrow> towardsYourOwnChain i
         | BranchOther _ \<Rightarrow> deny DenyDirection ''there is no rule for moving a transaction this way''))"

section \<open>Refusals\<close>

datatype rejection =
    NotRejected | RejectFeeTooLow | RejectMissingParent | RejectConflict | RejectNonStandard | RejectOther

definition containsAny :: "string \<Rightarrow> string list \<Rightarrow> bool" where
  "containsAny haystack needles \<longleftrightarrow> list_ex (str_contains haystack) needles"

text \<open>The text of the error, if there is one. The words looked for are ASCII.\<close>

definition Classify :: "string option \<Rightarrow> rejection" where
  "Classify err =
     (case err of
        None \<Rightarrow> NotRejected
      | Some text \<Rightarrow>
          (let msg = to_lower text
           in if containsAny msg [''min relay fee not met'', ''mempool min fee not met'', ''insufficient fee'',
                   ''fee rate'', ''min-relay-fee'', ''does not have enough fee''] then RejectFeeTooLow
              else if containsAny msg [''missing-inputs'', ''missingorspent'', ''missing inputs'', ''bad-txns-inputs-missing'']
              then RejectMissingParent
              else if containsAny msg [''txn-mempool-conflict'', ''conflict'', ''bad-txns-inputs-spent'', ''double-spend'']
              then RejectConflict
              else if containsAny msg [''non-mandatory-script-verify'', ''scriptpubkey'', ''non-standard'',
                   ''nonstandard'', ''bare-multisig'', ''dust'', ''version''] then RejectNonStandard
              else RejectOther))"

fun Retriable :: "rejection \<Rightarrow> bool" where
  "Retriable RejectFeeTooLow = True"
| "Retriable RejectMissingParent = True"
| "Retriable RejectOther = True"
| "Retriable RejectConflict = False"
| "Retriable RejectNonStandard = False"
| "Retriable NotRejected = True"

fun Explain :: "rejection \<Rightarrow> string \<Rightarrow> string" where
  "Explain RejectFeeTooLow nodeSaid =
     ''the other chain will not take this transaction because its fee is too low for that chain right now. Forktower cannot raise it: the transaction was signed by your node, and changing a signed transaction in any way would make it invalid. It will keep trying, in case fees there fall.''"
| "Explain RejectMissingParent nodeSaid =
     ''the other chain has not seen the transaction this one spends from, so it will not take this one yet. That is normal while the two chains differ. Forktower will keep trying.''"
| "Explain RejectConflict nodeSaid =
     ''something already on the other chain spends the same money, so this cannot go there too. That usually means the channel was closed a different way over there, which is worth looking at.''"
| "Explain RejectNonStandard nodeSaid =
     ''the other chain will not relay this kind of transaction at all. That can happen when the two chains have different rules about what transactions are allowed, and it is not something Forktower can work around.''"
| "Explain RejectOther nodeSaid =
     (if nodeSaid = '''' then ''the other chain refused this transaction and did not say why.''
      else ''the other chain refused this transaction. It said: '' @ nodeSaid)"
| "Explain NotRejected nodeSaid = ''the other chain refused this transaction.''"

definition FirstDelay :: int where "FirstDelay = 30"
definition MaxDelay :: int where "MaxDelay = 900"
definition MaxAttempts :: int where "MaxAttempts = 40"

text \<open>The loop of \<open>Backoff\<close>: \<open>n\<close> doublings are left.\<close>

fun doubled :: "nat \<Rightarrow> int \<Rightarrow> int" where
  "doubled 0 delay = delay"
| "doubled (Suc n) delay = (if MaxDelay \<le> delay * 2 then MaxDelay else doubled n (delay * 2))"

definition Backoff :: "int \<Rightarrow> int" where
  "Backoff attempt = doubled (nat ((if attempt < 1 then 1 else attempt) - 1)) FirstDelay"

section \<open>Properties\<close>

text \<open>
  C22: the policy is exactly its allowlist. A transaction is copied only between the two chains and
  only if it belongs to one of the user's channels. A channel's funding transaction is copied,
  either way, exactly when the user asked for that. Of everything else, towards the user's own
  chain only an agreed close; towards the other chain also the user's own close, what collects
  from it, and the punishment of a close that was not the user's. The counterparty's close is
  copied nowhere.
\<close>

theorem policy_exact:
  "vdMirror (Decide i) \<longleftrightarrow>
     inChannelKnown i \<and> (inFrom i, inTo i) \<in> {(BranchSF, BranchSQ), (BranchSQ, BranchSF)}
     \<and> (if inIsFundingTx i then inFundingOptIn i
        else inShape i = ShapeMutualClose
          \<or> inTo i = BranchSQ
            \<and> (inShape i = ShapeCommitmentOurs
               \<or> inShape i \<in> {ShapeDelayedSweep, ShapeHTLCClaim} \<and> inSourceShape i = ShapeCommitmentOurs
               \<or> inShape i = ShapeJustice \<and> inSourceShape i \<in> {ShapeCommitmentUnknown, ShapeCommitmentRevoked}))"
  by (cases "inFrom i"; cases "inTo i"; cases "inShape i")
    (simp_all add: Decide_def decideFunding_def towardsTheOtherChain_def towardsYourOwnChain_def allow_def deny_def)

lemma doubled_closed: "0 < d \<Longrightarrow> d < MaxDelay \<Longrightarrow> doubled n d = min (d * 2 ^ n) MaxDelay"
proof (induction n arbitrary: d)
  case (Suc n)
  show ?case
  proof (cases "MaxDelay \<le> d * 2")
    case True
    have "d * 2 \<le> d * 2 * 2 ^ n" using Suc.prems by simp
    with True show ?thesis by simp
  next
    case False
    with Suc.IH [of "d * 2"] Suc.prems show ?thesis by simp
  qed
qed simp

lemma Backoff_closed: "Backoff n = min (FirstDelay * 2 ^ nat (n - 1)) MaxDelay"
  using doubled_closed [of 30 "nat (n - 1)"] by (auto simp: Backoff_def FirstDelay_def MaxDelay_def)

lemma Backoff_bounds: "FirstDelay \<le> Backoff n" "Backoff n \<le> MaxDelay"
proof -
  have "(1 :: int) \<le> 2 ^ nat (n - 1)" by simp
  then show "FirstDelay \<le> Backoff n" "Backoff n \<le> MaxDelay" by (simp_all add: Backoff_closed FirstDelay_def MaxDelay_def)
qed

text \<open>
  The wait before an attempt is thirty seconds doubled for every attempt already made and
  capped at a quarter of an hour, so it never shrinks and never grows past the cap however many
  attempts a row claims.
\<close>

theorem backoff_exact:
  "Backoff n = min (FirstDelay * 2 ^ nat (n - 1)) MaxDelay \<and> FirstDelay \<le> Backoff n \<and> Backoff n \<le> MaxDelay
   \<and> (n \<le> m \<longrightarrow> Backoff n \<le> Backoff m)"
proof -
  have "Backoff n \<le> Backoff m" if "n \<le> m"
  proof -
    have "FirstDelay * 2 ^ nat (n - 1) \<le> FirstDelay * 2 ^ nat (m - 1)"
      using that by (intro mult_left_mono power_increasing) (auto simp: FirstDelay_def)
    then show ?thesis unfolding Backoff_closed by (rule min.mono) simp
  qed
  then show ?thesis using Backoff_bounds by (simp add: Backoff_closed)
qed

theorem backoff_exact_witness: "Backoff 3 = 120 \<and> Backoff 3 \<le> Backoff 40"
  using backoff_exact [of 3 40] by (simp add: FirstDelay_def MaxDelay_def)

end
