(* ===== verification/Mirror.thy ===== *)
theory Mirror
  imports Mirror_Policy Watcher
begin

text \<open>
  Copying the user's transactions to the other chain: \<open>internal/responder/mirror/lift.go\<close>,
  \<open>internal/responder/mirror/watch.go\<close>, \<open>internal/responder/mirror/mirror.go\<close>,
  \<open>internal/responder/mirror/runner.go\<close> and the table behind them,
  \<open>internal/store/mirror.go\<close>. There is one runner for each direction; they share the store, and
  each handled block or tick of one of them is a function of the state. What the two chain
  backends answer is in the \<open>outside\<close> record of a direction, extended with reading a serialised
  transaction and with the answer to a broadcast; every call is numbered. The clock is read once
  per handled input. The texts of a store error are replaced by the words in front of them; log
  lines are left out.
\<close>

section \<open>The table\<close>

datatype mirror_st = MirrorDenied | MirrorPending | MirrorAccepted | MirrorRejected | MirrorAbandoned | MirrorOther string

fun MirrorState_Valid :: "mirror_st \<Rightarrow> bool" where
  "MirrorState_Valid (MirrorOther _) = False"
| "MirrorState_Valid _ = True"

record mirror_decision =
  mdID :: int
  mdTxID :: string
  mdSource :: branch
  mdTarget :: branch
  mdChannelID :: int
  mdShape :: spend_shape
  mdReason :: string
  mdState :: mirror_st
  mdAttempts :: int
  mdFirstSeenAt :: int
  mdUpdatedAt :: int
  mdLastError :: string

text \<open>The state: the tables, the scanned heights, the calls made, and what was offered to which chain.\<close>

record mirror_tables = state_db +
  t_mirror :: "mirror_decision list"

record mirror_db = mirror_tables +
  mLast :: "(branch \<times> int) list"
  mCalls :: nat
  mSent :: "(mirror_decision \<times> msg_tx) list"

definition mirror_key :: "mirror_decision \<Rightarrow> string \<times> branch" where
  "mirror_key d = (mdTxID d, mdTarget d)"

definition place_decision :: "int \<Rightarrow> mirror_decision \<Rightarrow> mirror_decision" where
  "place_decision i d = d\<lparr>mdID := i, mdLastError := ''''\<rparr>"

interpretation decisions: keyed_table mdID mirror_key place_decision
  by unfold_locales (simp_all add: place_decision_def mirror_key_def)

definition RecordMirrorDecision :: "mirror_decision \<Rightarrow> 'x mirror_tables_scheme \<Rightarrow> 'x mirror_tables_scheme \<times> (store_err + int \<times> bool)" where
  "RecordMirrorDecision d m =
     (if mdTxID d = '''' then (m, Inl StoreInvalid)
      else if mdReason d = '''' then (m, Inl StoreInvalid)
      else if \<not> MirrorState_Valid (mdState d) then (m, Inl StoreInvalid)
      else if \<not> Branch_Valid (mdSource d) \<or> \<not> Branch_Valid (mdTarget d) then (m, Inl StoreInvalid)
      else if mdSource d = mdTarget d then (m, Inl StoreInvalid)
      else
        db_call (\<lambda>m.
          case find (\<lambda>r. mirror_key r = mirror_key d) (t_mirror m) of
            Some r \<Rightarrow> (m, Inr (mdID r, True))
          | None \<Rightarrow>
              if mdChannelID d \<noteq> 0 \<and> \<not> channel_exists (mdChannelID d) m then (m, Inl StoreConstraint)
              else
                (let i = next_id mdID (t_mirror m)
                 in (m\<lparr>t_mirror := t_mirror m @ [place_decision i d]\<rparr>, Inr (i, False)))) m)"

definition update_decision :: "int \<Rightarrow> (mirror_decision \<Rightarrow> mirror_decision) \<Rightarrow> 'x mirror_tables_scheme \<Rightarrow> 'x mirror_tables_scheme \<times> (store_err + unit)" where
  "update_decision i f =
     db_call (\<lambda>m.
       if list_ex (\<lambda>r. mdID r = i) (t_mirror m) then (m\<lparr>t_mirror := update_row mdID i f (t_mirror m)\<rparr>, Inr ())
       else (m, Inl StoreNotFound))"

definition UpdateMirrorState :: "int \<Rightarrow> mirror_st \<Rightarrow> string \<Rightarrow> int \<Rightarrow> 'x mirror_tables_scheme \<Rightarrow> 'x mirror_tables_scheme \<times> (store_err + unit)" where
  "UpdateMirrorState i st lastError at m =
     (if \<not> MirrorState_Valid st then (m, Inl StoreInvalid)
      else update_decision i
        (\<lambda>r. r\<lparr>mdState := st, mdLastError := lastError, mdAttempts := mdAttempts r + 1, mdUpdatedAt := at\<rparr>) m)"

definition RedecideMirror :: "int \<Rightarrow> mirror_st \<Rightarrow> string \<Rightarrow> int \<Rightarrow> 'x mirror_tables_scheme \<Rightarrow> 'x mirror_tables_scheme \<times> (store_err + unit)" where
  "RedecideMirror i st reason at m =
     (if \<not> MirrorState_Valid st then (m, Inl StoreInvalid)
      else if reason = '''' then (m, Inl StoreInvalid)
      else update_decision i (\<lambda>r. r\<lparr>mdState := st, mdReason := reason, mdUpdatedAt := at\<rparr>) m)"

record mirror_filter =
  mfState :: mirror_st
  mfChannelID :: int
  mfTarget :: branch
  mfLimit :: int

definition DefaultMirrorLimit :: int where "DefaultMirrorLimit = 500"

definition ListMirrorDecisions :: "mirror_filter \<Rightarrow> 'x mirror_tables_scheme \<Rightarrow> 'x mirror_tables_scheme \<times> (store_err + mirror_decision list)" where
  "ListMirrorDecisions f = db_read (\<lambda>m. Inr
     (take (nat (if mfLimit f \<le> 0 then DefaultMirrorLimit else mfLimit f))
       (rev (filter (\<lambda>r. (mfState f = MirrorOther '''' \<or> mdState r = mfState f)
          \<and> (mfChannelID f = 0 \<or> mdChannelID r = mfChannelID f)
          \<and> (mfTarget f = BranchOther '''' \<or> mdTarget r = mfTarget f)) (t_mirror m)))))"

definition in_state :: "mirror_st \<Rightarrow> branch \<Rightarrow> mirror_filter" where
  "in_state st to = \<lparr>mfState = st, mfChannelID = 0, mfTarget = to, mfLimit = 0\<rparr>"

section \<open>Taking a transaction off a chain\<close>

record mirror_env = outside +
  libDeserialize :: "bytes \<Rightarrow> msg_tx option"
  viewBroadcast :: "nat \<Rightarrow> msg_tx \<Rightarrow> string option"

record lifted =
  lfTxID :: string
  lfRawHex :: string
  lfChannelID :: int
  lfShape :: spend_shape
  lfSourceShape :: spend_shape
  lfOutpointTxID :: string
  lfOutpointVout :: int

record lift_facts =
  ftOurCloseTxID :: string
  ftSourceShape :: spend_shape
  ftRole :: outpoint_role
  ftSpendHeight :: int
  ftDeadlineHeight :: int
  ftChannelID :: int
  ftFundingOptIn :: bool

definition Lift :: "mirror_env \<Rightarrow> match \<Rightarrow> lift_facts \<Rightarrow> lifted" where
  "Lift env m f =
     (let tx = maTx m; t = maTarget m;
          out = \<lparr>lfTxID = libPrint env (libTxHash env tx), lfRawHex = libRawTx env tx,
                 lfChannelID = (if tgChannelID t = 0 then ftChannelID f else tgChannelID t),
                 lfShape = ShapeOther '''', lfSourceShape = ShapeOther '''',
                 lfOutpointTxID = libPrint env (opHash (tgOutpoint t)),
                 lfOutpointVout = i32 (uint (opIndex (tgOutpoint t)))\<rparr>
      in case tgKind t of
           KindFunding \<Rightarrow>
             out\<lparr>lfShape := ClassifyShape \<lparr>sfTx = Some tx, sfTxID = lfTxID out, sfOurCloseTxID = ftOurCloseTxID f\<rparr>\<rparr>
         | KindCommitmentOutput \<Rightarrow>
             out\<lparr>lfShape := ClassifySweep \<lparr>swTx = Some tx, swInputIndex = int (maInputIndex m), swRole = ftRole f,
                    swSpendHeight = ftSpendHeight f, swDeadlineHeight = ftDeadlineHeight f\<rparr>,
                 lfSourceShape := ftSourceShape f\<rparr>)"

definition Decision :: "lifted \<Rightarrow> branch \<Rightarrow> branch \<Rightarrow> bool \<Rightarrow> int \<Rightarrow> mirror_decision" where
  "Decision l from' to optIn at =
     (let verdict = Decide \<lparr>inShape = lfShape l, inFrom = from', inTo = to, inChannelKnown = (lfChannelID l \<noteq> 0),
            inSourceShape = lfSourceShape l, inIsFundingTx = False, inFundingOptIn = optIn\<rparr>
      in \<lparr>mdID = 0, mdTxID = lfTxID l, mdSource = from', mdTarget = to, mdChannelID = lfChannelID l, mdShape = lfShape l,
          mdReason = vdReason verdict, mdState = (if vdMirror verdict then MirrorPending else MirrorDenied),
          mdAttempts = 0, mdFirstSeenAt = at, mdUpdatedAt = at, mdLastError = ''''\<rparr>)"

section \<open>The observer of one chain\<close>

record found =
  foLifted :: lifted
  foDecision :: mirror_decision
  foNew :: bool

definition mask :: "(nat \<Rightarrow> 'a) \<Rightarrow> mirror_db \<Rightarrow> mirror_db \<times> 'a" where
  "mask f m = (m\<lparr>mCalls := mCalls m + 1\<rparr>, f (mCalls m))"

text \<open>What the spent output's commitment was, and which channel it belongs to.\<close>

definition source_facts :: "branch \<Rightarrow> match \<Rightarrow> lift_facts \<Rightarrow> mirror_db \<Rightarrow> mirror_db \<times> (store_err + lift_facts)" where
  "source_facts from' m out db =
     (if tgSourceSpendEventID (maTarget m) = 0 then (db, Inr out)
      else
        (case ListSpends \<lparr>sfBranch = from', sfChannelID = 0, sfStatus = SpendStatusOther '''', sfShape = ShapeOther '''',
                         sfLimit = MaxSpendLimit\<rparr> db of
           (db1, Inl e) \<Rightarrow> (db1, Inl e)
         | (db1, Inr spends) \<Rightarrow>
             (db1, Inr (case find (\<lambda>sp. spID sp = tgSourceSpendEventID (maTarget m)) spends of
                          None \<Rightarrow> out
                        | Some sp \<Rightarrow> out\<lparr>ftSourceShape := spShape sp, ftChannelID := spChannelID sp\<rparr>))))"

definition factsFor :: "branch \<Rightarrow> match \<Rightarrow> int \<Rightarrow> mirror_db \<Rightarrow> mirror_db \<times> (store_err + lift_facts)" where
  "factsFor from' m height db =
     (case source_facts from' m \<lparr>ftOurCloseTxID = '''', ftSourceShape = ShapeOther '''', ftRole = tgRole (maTarget m),
             ftSpendHeight = height, ftDeadlineHeight = 0, ftChannelID = tgChannelID (maTarget m), ftFundingOptIn = False\<rparr> db of
        (db1, Inl e) \<Rightarrow> (db1, Inl e)
      | (db1, Inr out) \<Rightarrow>
          if ftChannelID out = 0 then (db1, Inr out)
          else
            (case ListChannels all_channels db1 of
               (db2, Inl e) \<Rightarrow> (db2, Inl e)
             | (db2, Inr cs) \<Rightarrow>
                 (db2, Inr (case find (\<lambda>c. chID c = ftChannelID out) cs of
                              None \<Rightarrow> out
                            | Some c \<Rightarrow> out\<lparr>ftOurCloseTxID := chCloseTxID c, ftFundingOptIn := chMirrorFundingOptIn c\<rparr>))))"

definition spend_to_copy :: "branch \<Rightarrow> lifted \<Rightarrow> int \<Rightarrow> int \<Rightarrow> spend" where
  "spend_to_copy from' l height at =
     \<lparr>spID = 0, spBranch = from', spChannelID = lfChannelID l, spOutpointTxID = lfOutpointTxID l,
      spOutpointVout = lfOutpointVout l, spSpendTxID = lfTxID l, spSpendTxHex = lfRawHex l, spBlockHash = '''',
      spBlockHeight = height, spShape = lfShape l, spStatus = SpendConfirmed, spFirstSeenAt = at, spUpdatedAt = at\<rparr>"

definition considerMatch :: "mirror_env \<Rightarrow> branch \<Rightarrow> branch \<Rightarrow> match \<Rightarrow> int \<Rightarrow> int \<Rightarrow> mirror_db \<Rightarrow> mirror_db \<times> (store_err + found)" where
  "considerMatch env from' to m height at db =
     (case factsFor from' m height db of
        (db1, Inl e) \<Rightarrow> (db1, Inl e)
      | (db1, Inr facts) \<Rightarrow>
          (let l = Lift env m facts
           in case RecordSpend (spend_to_copy from' l height at) db1 of
                (db2, Inl e) \<Rightarrow> (db2, Inl e)
              | (db2, Inr _) \<Rightarrow>
                  (let d = Decision l from' to (ftFundingOptIn facts) at
                   in case RecordMirrorDecision d db2 of
                        (db3, Inl e) \<Rightarrow> (db3, Inl e)
                      | (db3, Inr (_, existed)) \<Rightarrow> (db3, Inr \<lparr>foLifted = l, foDecision = d, foNew = \<not> existed\<rparr>))))"

text \<open>One that could not be judged does not stop the rest.\<close>

fun considerAll :: "mirror_env \<Rightarrow> branch \<Rightarrow> branch \<Rightarrow> match list \<Rightarrow> int \<Rightarrow> int \<Rightarrow> mirror_db \<Rightarrow> mirror_db \<times> found list" where
  "considerAll env from' to [] height at db = (db, [])"
| "considerAll env from' to (m # ms) height at db =
     (case considerMatch env from' to m height at db of
        (db1, r) \<Rightarrow>
          (case considerAll env from' to ms height at db1 of
             (db2, out) \<Rightarrow> (db2, (case r of Inl _ \<Rightarrow> out | Inr f \<Rightarrow> f # out))))"

definition scanned :: "branch \<Rightarrow> int \<Rightarrow> mirror_db \<Rightarrow> mirror_db" where
  "scanned from' height m = m\<lparr>mLast := AList.update from' height (mLast m)\<rparr>"

definition LastScanned :: "branch \<Rightarrow> mirror_db \<Rightarrow> int" where
  "LastScanned from' m = (case map_of (mLast m) from' of None \<Rightarrow> 0 | Some h \<Rightarrow> h)"

definition ObserveBlock :: "mirror_env \<Rightarrow> branch \<Rightarrow> branch \<Rightarrow> int \<Rightarrow> int \<Rightarrow> mirror_db \<Rightarrow> mirror_db \<times> (unit + found list)" where
  "ObserveBlock env from' to height at m =
     (case Build (libParse env) from' m of
        (m1, Inl _) \<Rightarrow> (m1, Inl ())
      | (m1, Inr ws) \<Rightarrow>
          if Empty ws then (m1, Inr [])
          else
            (case mask (\<lambda>n. viewHashByHeight env n height) m1 of
               (m2, Inl _) \<Rightarrow> (m2, Inl ())
             | (m2, Inr h) \<Rightarrow>
                 (case mask (\<lambda>n. viewMatch env n h (ChainViewSet (libPrint env) ws)) m2 of
                    (m3, Inl _) \<Rightarrow> (m3, Inl ())
                  | (m3, Inr interesting) \<Rightarrow>
                      if \<not> interesting then (scanned from' height m3, Inr [])
                      else
                        (case mask (\<lambda>n. viewBlock env n h) m3 of
                           (m4, Inl _) \<Rightarrow> (m4, Inl ())
                         | (m4, Inr blk) \<Rightarrow>
                             (let matches = ScanBlock (libTxHash env) (Some blk) ws
                              in if matches = [] then (scanned from' height m4, Inr [])
                                 else
                                   (case considerAll env from' to matches height at m4 of
                                      (m5, out) \<Rightarrow> (scanned from' height m5, Inr out)))))))"

definition reshaped :: "mirror_decision \<Rightarrow> channel \<Rightarrow> spend_shape" where
  "reshaped d c =
     (if mdShape d = ShapeCommitmentUnknown \<and> chCloseTxID c = mdTxID d then ShapeCommitmentOurs else mdShape d)"

definition reconsider_one :: "branch \<Rightarrow> branch \<Rightarrow> channel list \<Rightarrow> int \<Rightarrow> mirror_decision \<Rightarrow> mirror_db \<Rightarrow> mirror_db" where
  "reconsider_one from' to channels at d m =
     (case find (\<lambda>c. chID c = mdChannelID d) (rev channels) of
        None \<Rightarrow> m
      | Some c \<Rightarrow>
          if reshaped d c = mdShape d then m
          else
            (let verdict = Decide \<lparr>inShape = reshaped d c, inFrom = from', inTo = to, inChannelKnown = True,
                   inSourceShape = ShapeOther '''', inIsFundingTx = False, inFundingOptIn = chMirrorFundingOptIn c\<rparr>
             in if \<not> vdMirror verdict then m
                else fst (RedecideMirror (mdID d) MirrorPending (vdReason verdict) at m)))"

definition Reconsider :: "branch \<Rightarrow> branch \<Rightarrow> int \<Rightarrow> mirror_db \<Rightarrow> mirror_db" where
  "Reconsider from' to at m =
     (case ListMirrorDecisions (in_state MirrorDenied to) m of
        (m1, Inl _) \<Rightarrow> m1
      | (m1, Inr refused) \<Rightarrow>
          if refused = [] then m1
          else
            (case ListChannels all_channels m1 of
               (m2, Inl _) \<Rightarrow> m2
             | (m2, Inr channels) \<Rightarrow> fold (reconsider_one from' to channels at) refused m2))"

section \<open>Offering to the other chain\<close>

record outcome =
  ocTxID :: string
  ocState :: mirror_st
  ocRejection :: rejection
  ocNote :: string

definition waiting :: "branch \<Rightarrow> mirror_db \<Rightarrow> mirror_db \<times> (store_err + mirror_decision list)" where
  "waiting to m =
     (case ListMirrorDecisions (in_state MirrorPending to) m of
        (m1, Inl e) \<Rightarrow> (m1, Inl e)
      | (m1, Inr pend) \<Rightarrow>
          (case ListMirrorDecisions (in_state MirrorRejected to) m1 of
             (m2, Inl e) \<Rightarrow> (m2, Inl e)
           | (m2, Inr rejected) \<Rightarrow> (m2, Inr (pend @ rejected))))"

definition due :: "int \<Rightarrow> mirror_decision \<Rightarrow> bool" where
  "due now d \<longleftrightarrow> mdAttempts d = 0 \<or> i64 (mdUpdatedAt d + Backoff (mdAttempts d)) \<le> now"

definition rawFor :: "mirror_env \<Rightarrow> mirror_decision \<Rightarrow> mirror_db \<Rightarrow> mirror_db \<times> (string + msg_tx)" where
  "rawFor env d m =
     (case ListSpends \<lparr>sfBranch = mdSource d, sfChannelID = mdChannelID d, sfStatus = SpendStatusOther '''',
                      sfShape = ShapeOther '''', sfLimit = MaxSpendLimit\<rparr> m of
        (m1, Inl _) \<Rightarrow> (m1, Inl ''reading the transaction to copy'')
      | (m1, Inr spends) \<Rightarrow>
          (m1, case find (\<lambda>sp. spSpendTxID sp = mdTxID d \<and> spSpendTxHex sp \<noteq> '''') spends of
                 None \<Rightarrow> Inl (''the transaction '' @ mdTxID d @ '' is no longer stored'')
               | Some sp \<Rightarrow>
                   (case hex_decode (spSpendTxHex sp) of
                      None \<Rightarrow> Inl (''the stored transaction '' @ mdTxID d @ '' is not readable'')
                    | Some body \<Rightarrow>
                        (case libDeserialize env body of
                           None \<Rightarrow> Inl (''the stored transaction '' @ mdTxID d @ '' is not a transaction'')
                         | Some tx \<Rightarrow> Inr tx))))"

definition record_outcome :: "mirror_decision \<Rightarrow> outcome \<Rightarrow> string \<Rightarrow> int \<Rightarrow> mirror_db \<Rightarrow> mirror_db \<times> (store_err + outcome)" where
  "record_outcome d oc lastError now m =
     (case UpdateMirrorState (mdID d) (ocState oc) lastError now m of
        (m1, Inl e) \<Rightarrow> (m1, Inl e)
      | (m1, Inr _) \<Rightarrow> (m1, Inr oc))"

definition offer :: "mirror_env \<Rightarrow> mirror_decision \<Rightarrow> msg_tx \<Rightarrow> mirror_db \<Rightarrow> mirror_db \<times> string option" where
  "offer env d tx m = mask (\<lambda>n. viewBroadcast env n tx) (m\<lparr>mSent := mSent m @ [(d, tx)]\<rparr>)"

definition refusal :: "mirror_decision \<Rightarrow> string \<Rightarrow> outcome" where
  "refusal d text =
     (let r = Classify (Some text);
          stop = (\<not> Retriable r \<or> MaxAttempts \<le> mdAttempts d + 1)
      in \<lparr>ocTxID = mdTxID d, ocState = (if stop then MirrorAbandoned else MirrorRejected), ocRejection = r,
          ocNote = Explain r text @ (if stop then '' Forktower has stopped trying to copy it.'' else '''')\<rparr>)"

definition lost_bytes :: "mirror_decision \<Rightarrow> outcome" where
  "lost_bytes d = \<lparr>ocTxID = mdTxID d, ocState = MirrorAbandoned, ocRejection = NotRejected,
     ocNote = ''Forktower no longer has the transaction it was going to copy, so it cannot copy it.''\<rparr>"

definition attempt :: "mirror_env \<Rightarrow> int \<Rightarrow> mirror_decision \<Rightarrow> mirror_db \<Rightarrow> mirror_db \<times> (store_err + outcome)" where
  "attempt env now d m =
     (case rawFor env d m of
        (m1, Inl text) \<Rightarrow> record_outcome d (lost_bytes d) text now m1
      | (m1, Inr tx) \<Rightarrow>
          (case offer env d tx m1 of
             (m2, None) \<Rightarrow>
               record_outcome d \<lparr>ocTxID = mdTxID d, ocState = MirrorAccepted, ocRejection = NotRejected, ocNote = ''''\<rparr> '''' now m2
           | (m2, Some text) \<Rightarrow> record_outcome d (refusal d text) text now m2))"

fun attemptAll :: "mirror_env \<Rightarrow> int \<Rightarrow> mirror_decision list \<Rightarrow> mirror_db \<Rightarrow> mirror_db \<times> outcome list" where
  "attemptAll env now [] m = (m, [])"
| "attemptAll env now (d # ds) m =
     (if \<not> due now d then attemptAll env now ds m
      else
        (case attempt env now d m of
           (m1, r) \<Rightarrow>
             (case attemptAll env now ds m1 of
                (m2, out) \<Rightarrow> (m2, (case r of Inl _ \<Rightarrow> out | Inr oc \<Rightarrow> oc # out)))))"

definition Pass :: "mirror_env \<Rightarrow> branch \<Rightarrow> int \<Rightarrow> mirror_db \<Rightarrow> mirror_db \<times> (store_err + outcome list)" where
  "Pass env to now m =
     (case waiting to m of
        (m1, Inl e) \<Rightarrow> (m1, Inl e)
      | (m1, Inr ds) \<Rightarrow> (case attemptAll env now (rev ds) m1 of (m2, out) \<Rightarrow> (m2, Inr out)))"

section \<open>The two runners\<close>

text \<open>A runner handles a block of the chain it reads, or its timer. The second branch is where it copies to.\<close>

datatype mirror_input =
    MirrorBlock branch int int
  | MirrorTick branch int

definition other_branch :: "branch \<Rightarrow> branch" where
  "other_branch b = (if b = BranchSF then BranchSQ else BranchSF)"

definition scan :: "mirror_env \<Rightarrow> branch \<Rightarrow> int \<Rightarrow> int \<Rightarrow> mirror_db \<Rightarrow> mirror_db" where
  "scan env from' height now m =
     (case ObserveBlock env from' (other_branch from') height now m of
        (m1, Inl _) \<Rightarrow> m1
      | (m1, Inr out) \<Rightarrow> if 0 < length out then fst (Pass env (other_branch from') now m1) else m1)"

definition tick :: "mirror_env \<Rightarrow> branch \<Rightarrow> int \<Rightarrow> mirror_db \<Rightarrow> mirror_db" where
  "tick env from' now m = fst (Pass env (other_branch from') now (Reconsider from' (other_branch from') now m))"

definition mirror_step :: "(branch \<Rightarrow> mirror_env) \<Rightarrow> mirror_db \<Rightarrow> mirror_input \<Rightarrow> mirror_db" where
  "mirror_step envs m i =
     (case i of
        MirrorBlock from' height now \<Rightarrow> if Branch_Valid from' then scan (envs from') from' height now m else m
      | MirrorTick from' now \<Rightarrow> if Branch_Valid from' then tick (envs from') from' now m else m)"

end
