(* ===== verification/Mirror_Facts.thy ===== *)
theory Mirror_Facts
  imports Mirror
begin

text \<open>
  What holds along every run of the two runners: nothing is offered to a chain that the policy did
  not allow to go there, what is offered is what was recorded, a decision that has been settled
  stays settled, and every copy that can be offered is settled after \<open>MaxAttempts\<close> attempts.
\<close>

section \<open>Rows\<close>

text \<open>Some evidence about the transaction of the row is allowed, and the row carries its reason.\<close>

definition allowed :: "mirror_decision \<Rightarrow> bool" where
  "allowed d \<longleftrightarrow> (\<exists>i. vdMirror (Decide i) \<and> mdReason d = vdReason (Decide i) \<and> inFrom i = mdSource d \<and> inTo i = mdTarget d
     \<and> \<not> inIsFundingTx i \<and> (inShape i = mdShape d \<or> mdShape d = ShapeCommitmentUnknown \<and> inShape i = ShapeCommitmentOurs))"

lemma allowed_update [simp]:
  "allowed (d\<lparr>mdState := st\<rparr>) = allowed d" "allowed (d\<lparr>mdLastError := e\<rparr>) = allowed d"
  "allowed (d\<lparr>mdAttempts := n\<rparr>) = allowed d" "allowed (d\<lparr>mdUpdatedAt := at\<rparr>) = allowed d"
  "allowed (d\<lparr>mdID := i\<rparr>) = allowed d"
  by (simp_all add: allowed_def)

definition waits :: "mirror_decision \<Rightarrow> bool" where
  "waits d \<longleftrightarrow> mdState d = MirrorPending \<or> mdState d = MirrorRejected"

definition settled :: "mirror_decision \<Rightarrow> bool" where
  "settled d \<longleftrightarrow> mdState d = MirrorAccepted \<or> mdState d = MirrorAbandoned"

definition row_ok :: "mirror_decision \<Rightarrow> bool" where
  "row_ok d \<longleftrightarrow> Branch_Valid (mdSource d) \<and> Branch_Valid (mdTarget d) \<and> mdSource d \<noteq> mdTarget d \<and> 0 \<le> mdAttempts d
     \<and> (mdState d = MirrorDenied \<and> mdAttempts d = 0
        \<or> waits d \<and> mdAttempts d < MaxAttempts \<and> allowed d
        \<or> settled d \<and> 0 < mdAttempts d \<and> mdAttempts d \<le> MaxAttempts \<and> allowed d)"

definition row_le :: "mirror_decision \<Rightarrow> mirror_decision \<Rightarrow> bool" where
  "row_le d d' \<longleftrightarrow> mdID d' = mdID d \<and> mirror_key d' = mirror_key d \<and> mdSource d' = mdSource d \<and> mdShape d' = mdShape d
     \<and> mdChannelID d' = mdChannelID d \<and> mdAttempts d \<le> mdAttempts d' \<and> (settled d \<longrightarrow> d' = d)
     \<and> (mdState d \<noteq> MirrorDenied \<longrightarrow> mdState d' \<noteq> MirrorDenied)"

lemma row_le_refl [simp]: "row_le d d"
  by (simp add: row_le_def)

lemma row_le_trans: "row_le a b \<Longrightarrow> row_le b c \<Longrightarrow> row_le a c"
  by (auto simp: row_le_def)

definition rows_le :: "mirror_decision list \<Rightarrow> mirror_decision list \<Rightarrow> bool" where
  "rows_le ds ds' \<longleftrightarrow> (\<forall>d \<in> set ds. \<exists>d' \<in> set ds'. row_le d d')"

lemma rows_le_refl [simp]: "rows_le ds ds"
  unfolding rows_le_def using row_le_refl by blast

lemma rows_le_trans: "rows_le a b \<Longrightarrow> rows_le b c \<Longrightarrow> rows_le a c"
  unfolding rows_le_def by (meson row_le_trans)

section \<open>The invariant\<close>

text \<open>The bytes offered are the ones kept with a recorded spend of that transaction.\<close>

definition stored_as :: "mirror_env \<Rightarrow> spend list \<Rightarrow> mirror_decision \<Rightarrow> msg_tx \<Rightarrow> bool" where
  "stored_as env sps d tx \<longleftrightarrow> (\<exists>sp \<in> set sps. spSpendTxID sp = mdTxID d \<and> spBranch sp = mdSource d
     \<and> (\<exists>body. hex_decode (spSpendTxHex sp) = Some body \<and> libDeserialize env body = Some tx))"

definition rows_ok :: "mirror_db \<Rightarrow> bool" where
  "rows_ok m \<longleftrightarrow> table_ok mdID mirror_key (t_mirror m) \<and> (\<forall>d \<in> set (t_mirror m). row_ok d)"

definition sent_ok :: "(branch \<Rightarrow> mirror_env) \<Rightarrow> mirror_db \<Rightarrow> bool" where
  "sent_ok envs m \<longleftrightarrow> (\<forall>(d, tx) \<in> set (mSent m). allowed d \<and> stored_as (envs (mdSource d)) (t_spends m) d tx)"

definition moves :: "(branch \<Rightarrow> mirror_env) \<Rightarrow> mirror_db \<Rightarrow> mirror_db \<Rightarrow> bool" where
  "moves envs m m' \<longleftrightarrow> (rows_ok m \<longrightarrow> rows_ok m' \<and> rows_le (t_mirror m) (t_mirror m')
     \<and> set (t_spends m) \<subseteq> set (t_spends m') \<and> (sent_ok envs m \<longrightarrow> sent_ok envs m'))"

lemma moves_trans: "moves envs a b \<Longrightarrow> moves envs b c \<Longrightarrow> moves envs a c"
  unfolding moves_def using rows_le_trans by blast

lemma sent_ok_grows:
  assumes "sent_ok envs m" "mSent m' = mSent m" "set (t_spends m) \<subseteq> set (t_spends m')"
  shows "sent_ok envs m'"
  using assms unfolding sent_ok_def stored_as_def by fastforce

text \<open>A step that only reads: the store's script and the calls to the outside move on.\<close>

definition only_read :: "mirror_db \<Rightarrow> mirror_db \<Rightarrow> bool" where
  "only_read m m' \<longleftrightarrow> (\<exists>fs n. m' = m\<lparr>faults := fs, mCalls := n\<rparr>)"

lemma only_read_fields:
  assumes "only_read m m'"
  shows "t_mirror m' = t_mirror m" "mSent m' = mSent m" "t_spends m' = t_spends m"
    "t_outpoints m' = t_outpoints m" "t_channels m' = t_channels m"
  using assms by (auto simp: only_read_def)

lemma only_read_refl [simp]: "only_read m m"
proof -
  have "m = m\<lparr>faults := faults m, mCalls := mCalls m\<rparr>" by simp
  then show ?thesis unfolding only_read_def by blast
qed

lemma only_read_trans: "only_read a b \<Longrightarrow> only_read b c \<Longrightarrow> only_read a c"
  unfolding only_read_def by (elim exE) (simp, blast)

lemma read_only: "db_read f m = (m', r) \<Longrightarrow> only_read m m'"
proof (erule db_read_cases)
  fix fs assume "m' = m\<lparr>faults := fs\<rparr>"
  then have "m' = m\<lparr>faults := fs, mCalls := mCalls m\<rparr>" by simp
  then show "only_read m m'" unfolding only_read_def by blast
qed

lemma mask_only: "mask f m = (m', x) \<Longrightarrow> only_read m m'"
proof -
  assume "mask f m = (m', x)"
  then have "m' = m\<lparr>faults := faults m, mCalls := mCalls m + 1\<rparr>" by (simp add: mask_def)
  then show ?thesis unfolding only_read_def by blast
qed

lemma lists_only:
  "ListChannels cf m = (m', r1) \<Longrightarrow> only_read m m'"
  "ListSpends sf m = (m', r2) \<Longrightarrow> only_read m m'"
  "ListMirrorDecisions mf m = (m', r3) \<Longrightarrow> only_read m m'"
  "ListWatchOutpoints br m = (m', r4) \<Longrightarrow> only_read m m'"
  unfolding ListChannels_def ListSpends_def ListMirrorDecisions_def ListWatchOutpoints_def by (erule read_only)+

lemma Build_only: "Build parse br m = (m', r) \<Longrightarrow> only_read m m'"
  unfolding Build_def by (auto split: prod.splits sum.splits dest!: lists_only intro: only_read_trans)

lemma only_read_moves: "only_read m m' \<Longrightarrow> moves envs m m'"
  using only_read_fields [of m m'] by (simp add: moves_def rows_ok_def sent_ok_def)

lemma moves_refl [simp]: "moves envs m m"
  by (simp add: only_read_moves)

section \<open>Writing rows\<close>

lemma update_decision_moves:
  assumes "\<And>d. d \<in> set (t_mirror m) \<Longrightarrow> mdID d = i \<Longrightarrow> row_ok d \<Longrightarrow> row_ok (f d) \<and> row_le d (f d)"
  shows "moves envs m (fst (update_decision i f m))"
proof -
  obtain m' r where u: "update_decision i f m = (m', r)" by fastforce
  then have c: "db_call (\<lambda>m. if list_ex (\<lambda>r. mdID r = i) (t_mirror m)
      then (m\<lparr>t_mirror := update_row mdID i f (t_mirror m)\<rparr>, Inr ()) else (m, Inl StoreNotFound)) m = (m', r)"
    by (simp add: update_decision_def)
  have "moves envs m m'"
    unfolding moves_def
  proof
    assume ok: "rows_ok m"
    then have le: "row_le d (f d)" and okf: "row_ok (f d)" if "d \<in> set (t_mirror m)" "mdID d = i" for d
      using assms that by (simp_all add: rows_ok_def)
    from c show "rows_ok m' \<and> rows_le (t_mirror m) (t_mirror m') \<and> set (t_spends m) \<subseteq> set (t_spends m')
        \<and> (sent_ok envs m \<longrightarrow> sent_ok envs m')"
    proof (cases rule: db_call_cases)
      case (failed fs)
      with ok show ?thesis by (simp add: rows_ok_def sent_ok_def)
    next
      case (ran fs)
      show ?thesis
      proof (cases "list_ex (\<lambda>r. mdID r = i) (t_mirror m)")
        case True
        with ran have m': "t_mirror m' = update_row mdID i f (t_mirror m)" "t_spends m' = t_spends m" "mSent m' = mSent m"
          by auto
        have t: "table_ok mdID mirror_key (update_row mdID i f (t_mirror m))"
        proof -
          have "update_row mdID i f (t_mirror m) = update_row mdID i (\<lambda>d. if d \<in> set (t_mirror m) \<and> mdID d = i then f d else d) (t_mirror m)"
            by (simp add: update_row_def)
          moreover have "table_ok mdID mirror_key \<dots>"
            by (rule decisions.update_ok) (use ok le in \<open>auto simp: rows_ok_def row_le_def\<close>)
          ultimately show ?thesis by simp
        qed
        have "rows_le (t_mirror m) (update_row mdID i f (t_mirror m))"
          unfolding rows_le_def
        proof
          fix d assume d: "d \<in> set (t_mirror m)"
          then have "(if mdID d = i then f d else d) \<in> set (update_row mdID i f (t_mirror m))" by (force simp: update_row_def)
          with le [OF d] show "\<exists>d' \<in> set (update_row mdID i f (t_mirror m)). row_le d d'"
            by (intro bexI [of _ "if mdID d = i then f d else d"]) auto
        qed
        moreover have "\<forall>d \<in> set (update_row mdID i f (t_mirror m)). row_ok d"
          using ok okf by (auto simp: update_row_def rows_ok_def)
        ultimately show ?thesis using m' t ok by (simp add: rows_ok_def sent_ok_def)
      next
        case False
        with ran have "m' = m\<lparr>faults := fs\<rparr>" by auto
        then show ?thesis using ok by (simp add: rows_ok_def sent_ok_def)
      qed
    qed
  qed
  with u show ?thesis by simp
qed

lemma RecordMirrorDecision_moves:
  assumes "Branch_Valid (mdSource d) \<Longrightarrow> Branch_Valid (mdTarget d) \<Longrightarrow> mdSource d \<noteq> mdTarget d \<Longrightarrow> row_ok d"
  shows "moves envs m (fst (RecordMirrorDecision d m))"
proof (cases "Branch_Valid (mdSource d) \<and> Branch_Valid (mdTarget d) \<and> mdSource d \<noteq> mdTarget d")
  case True
  obtain m' r where u: "RecordMirrorDecision d m = (m', r)" by fastforce
  show ?thesis
  proof (cases "mdTxID d = '''' \<or> mdReason d = '''' \<or> \<not> MirrorState_Valid (mdState d)")
    case True
    then show ?thesis by (auto simp: RecordMirrorDecision_def)
  next
    case False
    with True u have c: "db_call (\<lambda>m. case find (\<lambda>r. mirror_key r = mirror_key d) (t_mirror m) of
        Some r \<Rightarrow> (m, Inr (mdID r, True))
      | None \<Rightarrow> if mdChannelID d \<noteq> 0 \<and> \<not> channel_exists (mdChannelID d) m then (m, Inl StoreConstraint)
          else (let i = next_id mdID (t_mirror m) in (m\<lparr>t_mirror := t_mirror m @ [place_decision i d]\<rparr>, Inr (i, False)))) m = (m', r)"
      by (simp add: RecordMirrorDecision_def)
    have "moves envs m m'"
    proof (rule db_call_cases [OF c])
      fix fs assume "m' = m\<lparr>faults := fs\<rparr>"
      then show ?thesis by (simp add: moves_def rows_ok_def sent_ok_def)
    next
      fix fs
      let ?i = "next_id mdID (t_mirror m)"
      assume ran: "(case find (\<lambda>r. mirror_key r = mirror_key d) (t_mirror (m\<lparr>faults := fs\<rparr>)) of
          Some r \<Rightarrow> (m\<lparr>faults := fs\<rparr>, Inr (mdID r, True))
        | None \<Rightarrow> if mdChannelID d \<noteq> 0 \<and> \<not> channel_exists (mdChannelID d) (m\<lparr>faults := fs\<rparr>)
            then (m\<lparr>faults := fs\<rparr>, Inl StoreConstraint)
            else (let i = next_id mdID (t_mirror (m\<lparr>faults := fs\<rparr>))
              in ((m\<lparr>faults := fs\<rparr>)\<lparr>t_mirror := t_mirror (m\<lparr>faults := fs\<rparr>) @ [place_decision i d]\<rparr>, Inr (i, False)))) = (m', r)"
      show ?thesis
      proof (cases "m' = m\<lparr>faults := fs\<rparr>")
        case True
        then show ?thesis by (simp add: moves_def rows_ok_def sent_ok_def)
      next
        case neq: False
        with ran have n: "find (\<lambda>r. mirror_key r = mirror_key d) (t_mirror m) = None"
          and m': "t_mirror m' = t_mirror m @ [place_decision ?i d]" "t_spends m' = t_spends m" "mSent m' = mSent m"
          by (auto simp: Let_def split: option.splits if_splits)
        from n have "mirror_key d \<notin> mirror_key ` set (t_mirror m)" by (auto simp: find_None_all)
        then have t: "table_ok mdID mirror_key (t_mirror m) \<Longrightarrow> table_ok mdID mirror_key (t_mirror m')"
          using decisions.insert_ok m' by metis
        have "row_ok (place_decision ?i d)" using assms True
          by (simp add: row_ok_def place_decision_def waits_def settled_def allowed_def)
        moreover have "rows_le (t_mirror m) (t_mirror m')" using m' row_le_refl by (fastforce simp: rows_le_def)
        ultimately show ?thesis using t m' by (auto simp: moves_def rows_ok_def sent_ok_def)
      qed
    qed
    then show ?thesis using u by simp
  qed
qed (auto simp: RecordMirrorDecision_def)

lemma RecordSpend_moves: "moves envs m (fst (RecordSpend sp m))"
proof -
  obtain m' r where u: "RecordSpend sp m = (m', r)" by fastforce
  have "t_mirror m' = t_mirror m" "mSent m' = mSent m" "set (t_spends m) \<subseteq> set (t_spends m')"
    using u by (auto simp: RecordSpend_def db_call_def Let_def split: if_splits list.splits option.splits)
  then show ?thesis using u sent_ok_grows by (auto simp: moves_def rows_ok_def)
qed

section \<open>Observing\<close>

lemma Decision_row_ok:
  "Branch_Valid from' \<Longrightarrow> Branch_Valid to \<Longrightarrow> from' \<noteq> to \<Longrightarrow> row_ok (Decision l from' to optIn at)"
  unfolding row_ok_def waits_def allowed_def settled_def
  by (auto simp: Decision_def Let_def MaxAttempts_def)

lemma factsFor_only: "factsFor from' m height db = (db', r) \<Longrightarrow> only_read db db'"
  unfolding factsFor_def source_facts_def
  by (auto split: prod.splits sum.splits if_splits dest!: lists_only intro: only_read_trans)

lemma considerMatch_moves: "moves envs db (fst (considerMatch env from' to m height at db))"
proof -
  obtain db1 r1 where f: "factsFor from' m height db = (db1, r1)" by fastforce
  from factsFor_only [OF f] have m1: "moves envs db db1" by (rule only_read_moves)
  show ?thesis
  proof (cases r1)
    case (Inl e)
    with f m1 show ?thesis by (simp add: considerMatch_def)
  next
    case (Inr facts)
    let ?l = "Lift env m facts"
    obtain db2 r2 where s: "RecordSpend (spend_to_copy from' ?l height at) db1 = (db2, r2)" by fastforce
    from RecordSpend_moves [of envs db1 "spend_to_copy from' ?l height at"] s m1 have m2: "moves envs db db2"
      by (auto intro: moves_trans)
    show ?thesis
    proof (cases r2)
      case (Inl e)
      with f Inr s m2 show ?thesis by (simp add: considerMatch_def)
    next
      case (Inr p)
      let ?d = "Decision ?l from' to (ftFundingOptIn facts) at"
      have "row_ok ?d" if "Branch_Valid (mdSource ?d)" "Branch_Valid (mdTarget ?d)" "mdSource ?d \<noteq> mdTarget ?d"
        using that by (intro Decision_row_ok) (simp_all add: Decision_def Let_def)
      from moves_trans [OF m2 RecordMirrorDecision_moves [OF this]] f \<open>r1 = Inr facts\<close> s Inr show ?thesis
        by (auto simp: considerMatch_def Let_def split: prod.split sum.split)
    qed
  qed
qed

lemma considerAll_moves: "moves envs db (fst (considerAll env from' to ms height at db))"
proof (induction ms arbitrary: db)
  case (Cons m ms)
  from moves_trans [OF considerMatch_moves Cons.IH] show ?case by (simp add: case_prod_beta)
qed simp

lemma scanned_moves [simp]: "moves envs m (scanned from' height m') = moves envs m m'"
  by (simp add: moves_def rows_ok_def sent_ok_def scanned_def)

text \<open>A block is either only read, or its matches are judged one by one.\<close>

lemma ObserveBlock_cases:
  obtains (read) m' r where "ObserveBlock env from' to height at m = (m', r)" "only_read m m'"
  | (empty) m' r where "ObserveBlock env from' to height at m = (scanned from' height m', r)" "only_read m m'"
  | (judged) m1 m' ws blk r where "Build (libParse env) from' m = (m1, Inr ws)" "only_read m m'"
      "ObserveBlock env from' to height at m
        = (scanned from' height (fst (considerAll env from' to (ScanBlock (libTxHash env) (Some blk) ws) height at m')), r)"
proof -
  obtain m1 r1 where b: "Build (libParse env) from' m = (m1, r1)" by fastforce
  note o1 = Build_only [OF b]
  show ?thesis
  proof (cases r1)
    case (Inl e)
    with b o1 show ?thesis by (intro read) (simp_all add: ObserveBlock_def)
  next
    case (Inr ws)
    show ?thesis
    proof (cases "Empty ws")
      case True
      with b o1 Inr show ?thesis by (intro read) (simp_all add: ObserveBlock_def)
    next
      case False
      obtain m2 r2 where h: "mask (\<lambda>n. viewHashByHeight env n height) m1 = (m2, r2)" by fastforce
      note o2 = only_read_trans [OF o1 mask_only [OF h]]
      show ?thesis
      proof (cases r2)
        case (Inl e)
        with b h o2 Inr False show ?thesis by (intro read) (simp_all add: ObserveBlock_def)
      next
        case (Inr hash)
        obtain m3 r3 where k: "mask (\<lambda>n. viewMatch env n hash (ChainViewSet (libPrint env) ws)) m2 = (m3, r3)" by fastforce
        note o3 = only_read_trans [OF o2 mask_only [OF k]]
        show ?thesis
        proof (cases r3)
          case (Inl e)
          with b h k o3 Inr \<open>r1 = Inr ws\<close> False show ?thesis by (intro read) (simp_all add: ObserveBlock_def)
        next
          case (Inr interesting)
          note eqs = b h k \<open>r1 = Inr ws\<close> \<open>r2 = Inr hash\<close> Inr False
          obtain m4 r4 where l: "mask (\<lambda>n. viewBlock env n hash) m3 = (m4, r4)" by fastforce
          note o4 = only_read_trans [OF o3 mask_only [OF l]]
          consider "\<not> interesting" | e where "interesting" "r4 = Inl e"
            | blk where "interesting" "r4 = Inr blk" "ScanBlock (libTxHash env) (Some blk) ws = []"
            | blk where "interesting" "r4 = Inr blk" "ScanBlock (libTxHash env) (Some blk) ws \<noteq> []" by (cases r4) auto
          then show ?thesis
          proof cases
            case 1
            with eqs o3 show ?thesis by (intro empty) (simp_all add: ObserveBlock_def)
          next
            case 2
            with eqs l o4 show ?thesis by (intro read) (simp_all add: ObserveBlock_def)
          next
            case 3
            with eqs l o4 show ?thesis by (intro empty) (simp_all add: ObserveBlock_def)
          next
            case 4
            with eqs l o4 show ?thesis by (intro judged) (simp_all add: ObserveBlock_def case_prod_beta Let_def)
          qed
        qed
      qed
    qed
  qed
qed

lemma ObserveBlock_moves: "moves envs m (fst (ObserveBlock env from' to height at m))"
  by (cases rule: ObserveBlock_cases [of env from' to height at m])
    (auto intro: only_read_moves moves_trans [OF only_read_moves considerAll_moves])

section \<open>Passes over listed rows\<close>

definition leaves_others :: "int \<Rightarrow> mirror_db \<Rightarrow> mirror_db \<Rightarrow> bool" where
  "leaves_others i m m' \<longleftrightarrow> (\<forall>e \<in> set (t_mirror m). mdID e \<noteq> i \<longrightarrow> e \<in> set (t_mirror m'))"

lemma leaves_others_refl [simp]: "leaves_others i m m"
  by (simp add: leaves_others_def)

lemma leaves_others_trans: "leaves_others i a b \<Longrightarrow> leaves_others i b c \<Longrightarrow> leaves_others i a c"
  by (simp add: leaves_others_def)

lemma only_read_leaves: "only_read m m' \<Longrightarrow> leaves_others i m m'"
  by (simp add: leaves_others_def only_read_fields)

lemma update_decision_leaves: "leaves_others i m (fst (update_decision i f m))"
  by (auto simp: leaves_others_def update_decision_def db_call_def update_row_def split: list.split)

lemma rows_pass_moves:
  assumes "distinct (map mdID ds)" "set ds \<subseteq> set (t_mirror m)"
    and "\<And>d m. d \<in> set ds \<Longrightarrow> d \<in> set (t_mirror m) \<Longrightarrow> moves envs m (f d m) \<and> leaves_others (mdID d) m (f d m)"
  shows "moves envs m (fold f ds m)"
  using assms
proof (induction ds arbitrary: m)
  case (Cons d ds)
  from Cons.prems have a: "moves envs m (f d m)" and b: "leaves_others (mdID d) m (f d m)" by simp_all
  have "set ds \<subseteq> set (t_mirror (f d m))"
  proof
    fix e assume "e \<in> set ds"
    with Cons.prems(1,2) have "e \<in> set (t_mirror m)" "mdID e \<noteq> mdID d" by (auto simp: image_iff)
    with b show "e \<in> set (t_mirror (f d m))" by (simp add: leaves_others_def)
  qed
  with Cons have "moves envs (f d m) (fold f ds (f d m))" by simp
  with a show ?case by (auto intro: moves_trans)
qed simp

lemma ListMirrorDecisions_rows:
  assumes "ListMirrorDecisions f m = (m', Inr ds)" "rows_ok m"
  shows "distinct (map mdID ds)" "set ds \<subseteq> {d \<in> set (t_mirror m). (mfState f = MirrorOther '''' \<or> mdState d = mfState f)
     \<and> (mfTarget f = BranchOther '''' \<or> mdTarget d = mfTarget f)}"
proof -
  let ?k = "nat (if mfLimit f \<le> 0 then DefaultMirrorLimit else mfLimit f)"
  let ?sel = "filter (\<lambda>r. (mfState f = MirrorOther '''' \<or> mdState r = mfState f)
          \<and> (mfChannelID f = 0 \<or> mdChannelID r = mfChannelID f)
          \<and> (mfTarget f = BranchOther '''' \<or> mdTarget r = mfTarget f)) (t_mirror m)"
  have ds: "ds = take ?k (rev ?sel)"
    using assms(1) unfolding ListMirrorDecisions_def by (cases rule: db_read_cases) auto
  have "distinct (map mdID ?sel)" using assms(2) by (simp add: rows_ok_def table_ok_def distinct_map_filter)
  then have "distinct (rev (map mdID ?sel))" by simp
  then have "distinct (map mdID (rev ?sel))" by (simp only: rev_map)
  then show "distinct (map mdID ds)" using distinct_take by (simp add: ds take_map [symmetric])
  show "set ds \<subseteq> {d \<in> set (t_mirror m). (mfState f = MirrorOther '''' \<or> mdState d = mfState f)
     \<and> (mfTarget f = BranchOther '''' \<or> mdTarget d = mfTarget f)}"
    using set_take_subset [of ?k "rev ?sel"] by (auto simp: ds)
qed

section \<open>Deciding again\<close>

lemma same_row: "rows_ok m \<Longrightarrow> d \<in> set (t_mirror m) \<Longrightarrow> r \<in> set (t_mirror m) \<Longrightarrow> mdID r = mdID d \<Longrightarrow> r = d"
  unfolding rows_ok_def using decisions.same_id by metis

lemma source_of_target:
  assumes "row_ok d" "mdTarget d = other_branch b" "Branch_Valid b"
  shows "mdSource d = b"
  using assms by (cases "mdSource d"; cases "mdTarget d"; cases b) (auto simp: row_ok_def other_branch_def)

lemma reconsider_one_moves:
  assumes "d \<in> set (t_mirror m)" "mdState d = MirrorDenied" "mdTarget d = other_branch b" "Branch_Valid b"
  shows "moves envs m (reconsider_one b (other_branch b) cs at d m) \<and> leaves_others (mdID d) m (reconsider_one b (other_branch b) cs at d m)"
proof (cases "rows_ok m")
  case True
  then have ok: "row_ok d" using assms(1) by (simp add: rows_ok_def)
  have src: "mdSource d = b" using source_of_target [OF ok assms(3,4)] .
  have "moves envs m (fst (update_decision (mdID d) (\<lambda>r. r\<lparr>mdState := MirrorPending, mdReason := vdReason (Decide i), mdUpdatedAt := at\<rparr>) m))"
    if v: "vdMirror (Decide i)" "inFrom i = b" "inTo i = other_branch b" "\<not> inIsFundingTx i"
      "mdShape d = ShapeCommitmentUnknown" "inShape i = ShapeCommitmentOurs" for i
  proof (rule update_decision_moves)
    fix r assume "r \<in> set (t_mirror m)" "mdID r = mdID d"
    then have "r = d" using same_row [OF True assms(1)] by blast
    then show "row_ok (r\<lparr>mdState := MirrorPending, mdReason := vdReason (Decide i), mdUpdatedAt := at\<rparr>)
        \<and> row_le r (r\<lparr>mdState := MirrorPending, mdReason := vdReason (Decide i), mdUpdatedAt := at\<rparr>)"
      using ok assms v src
      by (auto simp: row_ok_def row_le_def waits_def settled_def allowed_def mirror_key_def MaxAttempts_def intro!: exI [of _ i])
  qed
  then show ?thesis
    by (auto simp: reconsider_one_def reshaped_def RedecideMirror_def Let_def update_decision_leaves split: option.split)
qed (auto simp: moves_def reconsider_one_def RedecideMirror_def Let_def update_decision_leaves split: option.split)

lemma Reconsider_moves:
  assumes "Branch_Valid b"
  shows "moves envs m (Reconsider b (other_branch b) at m)"
proof (cases "rows_ok m")
  case True
  obtain m1 r1 where l: "ListMirrorDecisions (in_state MirrorDenied (other_branch b)) m = (m1, r1)" by fastforce
  note o1 = lists_only(3) [OF l]
  show ?thesis
  proof (cases r1)
    case (Inr ds)
    obtain m2 r2 where c: "ListChannels all_channels m1 = (m2, r2)" by fastforce
    note o2 = only_read_trans [OF o1 lists_only(1) [OF c]]
    from ListMirrorDecisions_rows [OF l [unfolded Inr] True]
    have ds: "distinct (map mdID ds)" "set ds \<subseteq> set (t_mirror m2)"
      "\<And>d. d \<in> set ds \<Longrightarrow> mdState d = MirrorDenied \<and> mdTarget d = other_branch b"
      using only_read_fields(1) [OF o2] by (auto simp: in_state_def other_branch_def)
    have "moves envs m2 (fold (reconsider_one b (other_branch b) cs at) ds m2)" for cs
      using ds assms by (intro rows_pass_moves reconsider_one_moves) blast+
    then have "moves envs m (fold (reconsider_one b (other_branch b) cs at) ds m2)" for cs
      using only_read_moves [OF o2] moves_trans by blast
    then show ?thesis using l Inr c o1 o2 by (auto simp: Reconsider_def only_read_moves split: sum.split)
  qed (use l o1 in \<open>simp add: Reconsider_def only_read_moves\<close>)
qed (simp add: moves_def)

section \<open>Attempts\<close>

lemma rawFor_only: "rawFor env d m = (m', r) \<Longrightarrow> only_read m m'"
  unfolding rawFor_def by (auto split: prod.splits sum.splits dest!: lists_only)

lemma rawFor_stored:
  assumes "rawFor env d m = (m', Inr tx)" "Branch_Valid (mdSource d)"
  shows "stored_as env (t_spends m) d tx"
proof -
  let ?f = "\<lparr>sfBranch = mdSource d, sfChannelID = mdChannelID d, sfStatus = SpendStatusOther '''',
                      sfShape = ShapeOther '''', sfLimit = MaxSpendLimit\<rparr>"
  obtain spends sp body where l: "ListSpends ?f m = (m', Inr spends)"
    and f: "find (\<lambda>sp. spSpendTxID sp = mdTxID d \<and> spSpendTxHex sp \<noteq> '''') spends = Some sp"
    and h: "hex_decode (spSpendTxHex sp) = Some body" "libDeserialize env body = Some tx"
    using assms(1) by (auto simp: rawFor_def split: prod.splits sum.splits option.splits)
  have "set spends \<subseteq> {sp \<in> set (t_spends m). spBranch sp = mdSource d}"
    using l [unfolded ListSpends_def] assms(2) by (cases rule: db_read_cases) (auto dest!: in_set_takeD)
  with find_Some_mem [OF f] h show ?thesis unfolding stored_as_def by blast
qed

lemma waiting_row: "row_ok d \<Longrightarrow> waits d \<Longrightarrow> allowed d \<and> mdAttempts d < MaxAttempts \<and> 0 \<le> mdAttempts d \<and> \<not> settled d"
  by (auto simp: row_ok_def waits_def settled_def)

lemma refusal_state:
  "ocState (refusal d why) = MirrorAbandoned \<or> ocState (refusal d why) = MirrorRejected \<and> mdAttempts d + 1 < MaxAttempts"
  by (simp add: refusal_def Let_def not_le)

lemma record_outcome_leaves: "leaves_others (mdID d) m (fst (record_outcome d oc why now m))"
  by (simp add: record_outcome_def UpdateMirrorState_def update_decision_leaves case_prod_beta split: sum.split)

lemma record_outcome_moves:
  assumes "d \<in> set (t_mirror m)" "waits d" "ocState oc \<in> {MirrorAccepted, MirrorAbandoned, MirrorRejected}"
    and "ocState oc = MirrorRejected \<Longrightarrow> mdAttempts d + 1 < MaxAttempts"
  shows "moves envs m (fst (record_outcome d oc why now m)) \<and> leaves_others (mdID d) m (fst (record_outcome d oc why now m))"
proof (cases "rows_ok m")
  case True
  have "moves envs m (fst (update_decision (mdID d)
      (\<lambda>r. r\<lparr>mdState := ocState oc, mdLastError := why, mdAttempts := mdAttempts r + 1, mdUpdatedAt := now\<rparr>) m))"
  proof (rule update_decision_moves)
    fix r assume "r \<in> set (t_mirror m)" "mdID r = mdID d" and ok: "row_ok r"
    then have "r = d" using same_row [OF True assms(1)] by blast
    then show "row_ok (r\<lparr>mdState := ocState oc, mdLastError := why, mdAttempts := mdAttempts r + 1, mdUpdatedAt := now\<rparr>)
        \<and> row_le r (r\<lparr>mdState := ocState oc, mdLastError := why, mdAttempts := mdAttempts r + 1, mdUpdatedAt := now\<rparr>)"
      using waiting_row [OF ok] assms(2-4) ok
      by (cases "ocState oc") (simp_all add: row_ok_def row_le_def waits_def settled_def mirror_key_def)
  qed
  then have "moves envs m (fst (record_outcome d oc why now m))"
    by (simp add: record_outcome_def UpdateMirrorState_def case_prod_beta split: sum.split)
  then show ?thesis by (simp add: record_outcome_leaves)
qed (simp add: moves_def record_outcome_leaves)

lemma offer_moves:
  assumes "offer env d tx m = (m', r)" "allowed d" "stored_as (envs (mdSource d)) (t_spends m) d tx"
  shows "moves envs m m'" "t_mirror m' = t_mirror m"
proof -
  from assms(1) have m': "mSent m' = mSent m @ [(d, tx)]" "t_spends m' = t_spends m" "t_mirror m' = t_mirror m"
    by (auto simp: offer_def mask_def)
  have "sent_ok envs m \<Longrightarrow> sent_ok envs m'" using assms(2,3) by (simp add: sent_ok_def m')
  then show "moves envs m m'" by (simp add: moves_def rows_ok_def m')
  show "t_mirror m' = t_mirror m" by (rule m'(3))
qed

lemma attempt_moves:
  assumes "d \<in> set (t_mirror m)" "waits d" "mdSource d = b"
  shows "moves envs m (fst (attempt (envs b) now d m)) \<and> leaves_others (mdID d) m (fst (attempt (envs b) now d m))"
proof -
  obtain m1 r1 where raw: "rawFor (envs b) d m = (m1, r1)" by fastforce
  note o1 = rawFor_only [OF raw]
  have d1: "d \<in> set (t_mirror m1)" using assms(1) only_read_fields(1) [OF o1] by simp
  show ?thesis
  proof (cases "rows_ok m")
    case True
    then have ok: "row_ok d" using assms(1) by (simp add: rows_ok_def)
    then have al: "allowed d" and bv: "Branch_Valid (mdSource d)" using assms(2) by (auto simp: row_ok_def waits_def settled_def)
    show ?thesis
    proof (cases r1)
      case (Inl why)
      have "moves envs m1 (fst (record_outcome d (lost_bytes d) why now m1))
          \<and> leaves_others (mdID d) m1 (fst (record_outcome d (lost_bytes d) why now m1))"
        by (rule record_outcome_moves [OF d1 assms(2)]) (simp_all add: lost_bytes_def)
      then show ?thesis
        using raw Inl only_read_moves [OF o1] only_read_leaves [OF o1]
        by (auto simp: attempt_def intro: moves_trans leaves_others_trans)
    next
      case (Inr tx)
      obtain m2 r2 where off: "offer (envs b) d tx m1 = (m2, r2)" by fastforce
      have "stored_as (envs (mdSource d)) (t_spends m1) d tx"
        using rawFor_stored [OF raw [unfolded Inr] bv] only_read_fields(3) [OF o1] assms(3) by simp
      note m2 = offer_moves [where envs = envs, OF off al this]
      have d2: "d \<in> set (t_mirror m2)" using d1 m2(2) by simp
      have "moves envs m2 (fst (record_outcome d oc why now m2)) \<and> leaves_others (mdID d) m2 (fst (record_outcome d oc why now m2))"
        if "ocState oc = MirrorAccepted \<or> oc = refusal d why'" for oc why why'
        by (rule record_outcome_moves [OF d2 assms(2)]) (use that refusal_state [of d why'] in auto)
      moreover have "leaves_others (mdID d) m m2" using only_read_leaves [OF o1] m2(2) by (simp add: leaves_others_def)
      moreover have "moves envs m m2" using only_read_moves [OF o1] m2(1) by (rule moves_trans)
      ultimately show ?thesis
        using raw Inr off by (auto simp: attempt_def split: option.split intro: moves_trans leaves_others_trans)
    qed
  next
    case False
    note record_outcome_leaves
    moreover have "leaves_others i m (fst (offer env d tx m))" for i env tx m
      by (simp add: offer_def mask_def leaves_others_def)
    ultimately show ?thesis using raw False only_read_leaves [OF o1]
      by (auto simp: moves_def attempt_def split: sum.split prod.split option.split) (metis fst_conv leaves_others_trans)+
  qed
qed

lemma attemptAll_fold:
  "fst (attemptAll env now ds m) = fold (\<lambda>d m. if due now d then fst (attempt env now d m) else m) ds m"
  by (induction ds arbitrary: m) (simp_all add: case_prod_beta)

lemma waiting_rows:
  assumes "waiting to m = (m', r)"
  shows "only_read m m'"
    and "r = Inr ds \<Longrightarrow> rows_ok m \<Longrightarrow> Branch_Valid to \<Longrightarrow>
      distinct (map mdID ds) \<and> set ds \<subseteq> {d \<in> set (t_mirror m). waits d \<and> mdTarget d = to}"
proof -
  show "only_read m m'"
    using assms unfolding waiting_def by (auto split: prod.splits sum.splits dest!: lists_only intro: only_read_trans)
  assume r: "r = Inr ds" and ok: "rows_ok m" and to: "Branch_Valid to"
  with assms obtain m1 ps rs where p: "ListMirrorDecisions (in_state MirrorPending to) m = (m1, Inr ps)"
    and q: "ListMirrorDecisions (in_state MirrorRejected to) m1 = (m', Inr rs)" and ds: "ds = ps @ rs"
    by (auto simp: waiting_def split: prod.splits sum.splits)
  have m1: "t_mirror m1 = t_mirror m" using only_read_fields(1) [OF lists_only(3) [OF p]] .
  with ok have ok1: "rows_ok m1" by (simp add: rows_ok_def)
  note P = ListMirrorDecisions_rows [OF p ok] and Q = ListMirrorDecisions_rows [OF q ok1]
  have sub: "set ps \<subseteq> {d \<in> set (t_mirror m). mdState d = MirrorPending \<and> mdTarget d = to}"
    "set rs \<subseteq> {d \<in> set (t_mirror m). mdState d = MirrorRejected \<and> mdTarget d = to}"
    using P(2) Q(2) m1 to by (auto simp: in_state_def)
  have "mdID ` set ps \<inter> mdID ` set rs = {}"
  proof (rule ccontr)
    assume "mdID ` set ps \<inter> mdID ` set rs \<noteq> {}"
    then obtain a b where ab: "a \<in> set ps" "b \<in> set rs" "mdID a = mdID b" by auto
    with sub have "a = b" using same_row [OF ok, of b a] by blast
    with ab have "b \<in> set ps" "b \<in> set rs" by simp_all
    with sub have "mdState b = MirrorPending" "mdState b = MirrorRejected" by blast+
    then show False by simp
  qed
  then show "distinct (map mdID ds) \<and> set ds \<subseteq> {d \<in> set (t_mirror m). waits d \<and> mdTarget d = to}"
    using P(1) Q(1) sub by (auto simp: ds waits_def)
qed

lemma Pass_moves:
  assumes "Branch_Valid b"
  shows "moves envs m (fst (Pass (envs b) (other_branch b) now m))"
proof (cases "rows_ok m")
  case True
  obtain m1 r where w: "waiting (other_branch b) m = (m1, r)" by fastforce
  note o1 = waiting_rows(1) [OF w]
  show ?thesis
  proof (cases r)
    case (Inr ds)
    have bv: "Branch_Valid (other_branch b)" by (simp add: other_branch_def)
    have ds: "distinct (map mdID ds)" "set ds \<subseteq> {d \<in> set (t_mirror m). waits d \<and> mdTarget d = other_branch b}"
      using waiting_rows(2) [OF w Inr True bv] by simp_all
    let ?f = "\<lambda>d m. if due now d then fst (attempt (envs b) now d m) else m"
    have "moves envs m1 (fold ?f (rev ds) m1)"
    proof (rule rows_pass_moves)
      show "distinct (map mdID (rev ds))" using ds(1) by (simp only: rev_map [symmetric] distinct_rev)
      show "set (rev ds) \<subseteq> set (t_mirror m1)" using ds(2) only_read_fields(1) [OF o1] by auto
      fix d and m' :: mirror_db
      assume d: "d \<in> set (rev ds)" "d \<in> set (t_mirror m')"
      then have dd: "d \<in> set (t_mirror m)" "waits d" "mdTarget d = other_branch b" using ds(2) by auto
      then have "row_ok d" using True by (simp add: rows_ok_def)
      then have "mdSource d = b" using dd(3) assms by (rule source_of_target)
      then show "moves envs m' (?f d m') \<and> leaves_others (mdID d) m' (?f d m')"
        using attempt_moves [OF d(2) dd(2)] by simp
    qed
    then have "moves envs m1 (fst (attemptAll (envs b) now (rev ds) m1))" by (simp add: attemptAll_fold)
    then show ?thesis using w Inr moves_trans [OF only_read_moves [OF o1]] by (simp add: Pass_def case_prod_beta)
  qed (use w o1 in \<open>simp add: Pass_def only_read_moves\<close>)
qed (simp add: moves_def)

lemma mirror_step_moves: "moves envs m (mirror_step envs m i)"
proof -
  have "moves envs m (scan (envs b) b h now m)" if b: "Branch_Valid b" for b h now
  proof -
    obtain m1 r where s: "ObserveBlock (envs b) b (other_branch b) h now m = (m1, r)" by fastforce
    with ObserveBlock_moves [of envs m "envs b" b "other_branch b" h now] have "moves envs m m1" by simp
    with moves_trans [OF this Pass_moves [OF b]] s show ?thesis by (simp add: scan_def split: sum.split)
  qed
  moreover have "moves envs m (tick (envs b) b now m)" if b: "Branch_Valid b" for b now
    unfolding tick_def by (rule moves_trans [OF Reconsider_moves [OF b] Pass_moves [OF b]])
  ultimately show ?thesis by (simp add: mirror_step_def split: mirror_input.split)
qed

lemma mirror_run_moves: "moves envs m (foldl (mirror_step envs) m inputs)"
  by (induction inputs arbitrary: m) (auto intro: moves_trans mirror_step_moves)

section \<open>Properties of every run\<close>

lemma allowed_shapes:
  assumes "allowed d"
  shows "mdShape d = ShapeMutualClose \<or> mdTarget d = BranchSQ \<and> mdShape d \<in> {ShapeCommitmentOurs, ShapeCommitmentUnknown, ShapeDelayedSweep, ShapeHTLCClaim, ShapeJustice}"
proof -
  from assms obtain i where i: "vdMirror (Decide i)" "inTo i = mdTarget d" "\<not> inIsFundingTx i"
    "inShape i = mdShape d \<or> mdShape d = ShapeCommitmentUnknown \<and> inShape i = ShapeCommitmentOurs"
    by (auto simp: allowed_def)
  from i(1) have "inShape i = ShapeMutualClose
      \<or> inTo i = BranchSQ \<and> inShape i \<in> {ShapeCommitmentOurs, ShapeDelayedSweep, ShapeHTLCClaim, ShapeJustice}"
    using i(3) by (cases "inTo i"; cases "inShape i")
      (simp_all add: Decide_def towardsTheOtherChain_def towardsYourOwnChain_def allow_def deny_def split: if_splits)
  with i show ?thesis by auto
qed

text \<open>
  C19: nothing reaches a chain that the policy did not allow to go there, and only bytes that were
  recorded. In every run of the two runners, whatever the backends and the store answer, each
  transaction offered to a chain belongs to a decision whose reason is the one the policy gives
  for allowed evidence of that direction, it is the reading of the bytes stored with a spend of
  that transaction on the chain it came from, and towards the user's own chain it is an agreed close.
\<close>

theorem nothing_denied_is_sent:
  assumes "rows_ok m" "sent_ok envs m" "(d, tx) \<in> set (mSent (foldl (mirror_step envs) m inputs))"
  shows "(\<exists>i. vdMirror (Decide i) \<and> mdReason d = vdReason (Decide i) \<and> inFrom i = mdSource d \<and> inTo i = mdTarget d
      \<and> (inShape i = mdShape d \<or> mdShape d = ShapeCommitmentUnknown \<and> inShape i = ShapeCommitmentOurs))
    \<and> (\<exists>sp \<in> set (t_spends (foldl (mirror_step envs) m inputs)). \<exists>body. spSpendTxID sp = mdTxID d \<and> spBranch sp = mdSource d
      \<and> hex_decode (spSpendTxHex sp) = Some body \<and> libDeserialize (envs (mdSource d)) body = Some tx)
    \<and> (mdTarget d = BranchSF \<longrightarrow> mdShape d = ShapeMutualClose)"
proof -
  from mirror_run_moves [of envs m inputs] assms have al: "allowed d"
    and st: "stored_as (envs (mdSource d)) (t_spends (foldl (mirror_step envs) m inputs)) d tx"
    by (auto simp: moves_def sent_ok_def)
  from al have "mdTarget d = BranchSF \<longrightarrow> mdShape d = ShapeMutualClose" using allowed_shapes by force
  with al st show ?thesis unfolding allowed_def stored_as_def by blast
qed

text \<open>
  C21: a decision that was accepted or given up is never touched again, by either runner: it keeps
  its state, its reason and its count of attempts, and no row is ever lost, changes the
  transaction or the direction it is about, or falls back to refused.
\<close>

theorem settled_is_final:
  assumes "rows_ok m" "d \<in> set (t_mirror m)"
  shows "\<exists>d' \<in> set (t_mirror (foldl (mirror_step envs) m inputs)). mdID d' = mdID d \<and> mirror_key d' = mirror_key d
     \<and> mdSource d' = mdSource d \<and> mdAttempts d \<le> mdAttempts d' \<and> mdAttempts d' \<le> MaxAttempts
     \<and> (settled d \<longrightarrow> d' = d) \<and> (mdState d \<noteq> MirrorDenied \<longrightarrow> mdState d' \<noteq> MirrorDenied)"
proof -
  let ?m = "foldl (mirror_step envs) m inputs"
  from mirror_run_moves [of envs m inputs] assms obtain d' where d': "d' \<in> set (t_mirror ?m)" "row_le d d'" and ok: "rows_ok ?m"
    by (auto simp: moves_def rows_le_def)
  from ok d'(1) have "row_ok d'" by (simp add: rows_ok_def)
  then have "mdAttempts d' \<le> MaxAttempts" by (auto simp: row_ok_def MaxAttempts_def)
  with d' show ?thesis by (intro bexI [of _ d']) (simp_all add: row_le_def)
qed

section \<open>A store that fails once\<close>

lemma update_decision_once:
  assumes "rows_ok m" "d \<in> set (t_mirror m)" "faults m = []"
  shows "update_decision (mdID d) f m = (m\<lparr>t_mirror := update_row mdID (mdID d) f (t_mirror m)\<rparr>, Inr ())"
  using assms(2,3) by (auto simp: update_decision_def db_call_def list_ex_iff)

text \<open>
  A single failed read of the store gives a copy up for good. When the read of the spends fails
  while a waiting transaction is attempted, nothing is offered, the decision is recorded as
  abandoned because its bytes are gone, although no spend was lost, and no later run of the two
  runners offers it again or changes the row.
\<close>

theorem failed_read_gives_up:
  assumes "rows_ok m" "d \<in> set (t_mirror m)" "waits d" "Branch_Valid (mdSource d)" "faults m = [True]"
  shows "mSent (fst (attempt (envs (mdSource d)) now d m)) = mSent m
    \<and> t_spends (fst (attempt (envs (mdSource d)) now d m)) = t_spends m
    \<and> (\<exists>d' \<in> set (t_mirror (foldl (mirror_step envs) (fst (attempt (envs (mdSource d)) now d m)) inputs)).
          mdID d' = mdID d \<and> mirror_key d' = mirror_key d \<and> mdState d' = MirrorAbandoned)"
proof -
  let ?env = "envs (mdSource d)" and ?m0 = "m\<lparr>faults := []\<rparr>"
  let ?g = "\<lambda>r. r\<lparr>mdState := MirrorAbandoned, mdLastError := ''reading the transaction to copy'',
      mdAttempts := mdAttempts r + 1, mdUpdatedAt := now\<rparr>"
  let ?m1 = "?m0\<lparr>t_mirror := update_row mdID (mdID d) ?g (t_mirror m)\<rparr>"
  have raw: "rawFor ?env d m = (?m0, Inl ''reading the transaction to copy'')"
    using assms(5) by (simp add: rawFor_def ListSpends_def db_read_unfold)
  have "rows_ok ?m0" using assms(1) by (simp add: rows_ok_def)
  from update_decision_once [OF this, of d ?g] assms(2) have "update_decision (mdID d) ?g ?m0 = (?m1, Inr ())" by simp
  then have at: "attempt ?env now d m = (?m1, Inr (lost_bytes d))"
    using raw by (simp add: attempt_def record_outcome_def UpdateMirrorState_def lost_bytes_def)
  have "?g d \<in> set (t_mirror ?m1)" using assms(2) by (force simp: update_row_def)
  moreover from attempt_moves [OF assms(2,3) refl, of envs now] at assms(1) have "rows_ok ?m1" by (simp add: moves_def)
  ultimately obtain d' where d': "d' \<in> set (t_mirror (foldl (mirror_step envs) ?m1 inputs))" "row_le (?g d) d'"
    using mirror_run_moves [of envs ?m1 inputs] by (auto simp: moves_def rows_le_def)
  have "settled (?g d)" by (simp add: settled_def)
  then have "d' = ?g d" using d'(2) by (simp add: row_le_def)
  with d'(1) have "\<exists>d' \<in> set (t_mirror (foldl (mirror_step envs) ?m1 inputs)).
      mdID d' = mdID d \<and> mirror_key d' = mirror_key d \<and> mdState d' = MirrorAbandoned"
    by (intro bexI [of _ d']) (simp_all add: mirror_key_def)
  then show ?thesis using at by simp
qed

section \<open>Sweeps and punishments\<close>

definition second_order :: "spend_shape \<Rightarrow> bool" where
  "second_order sh \<longleftrightarrow> sh = ShapeDelayedSweep \<or> sh = ShapeHTLCClaim \<or> sh = ShapeJustice"

text \<open>Nothing follows a commitment on the user's own chain, and no decision is about what would.\<close>

definition plain :: "mirror_decision \<Rightarrow> bool" where
  "plain d \<longleftrightarrow> (mdTarget d = BranchSQ \<longrightarrow> \<not> second_order (mdShape d))"

definition sweepless :: "mirror_db \<Rightarrow> bool" where
  "sweepless m \<longleftrightarrow> (\<forall>w \<in> set (t_outpoints m). woBranch w \<noteq> BranchSF)
     \<and> (\<forall>d \<in> set (t_mirror m). plain d) \<and> (\<forall>x \<in> set (mSent m). plain (fst x))"

lemma sweepless_step:
  assumes "sweepless m" "t_outpoints m' = t_outpoints m" "\<And>d. d \<in> set (t_mirror m') \<Longrightarrow> d \<in> set (t_mirror m) \<or> plain d"
    "\<And>x. x \<in> set (mSent m') \<Longrightarrow> x \<in> set (mSent m) \<or> plain (fst x)"
  shows "sweepless m'"
  using assms unfolding sweepless_def by metis

lemma only_read_sweepless: "only_read m m' \<Longrightarrow> sweepless m \<Longrightarrow> sweepless m'"
  by (simp add: sweepless_def only_read_fields)

lemma update_decision_sweepless:
  assumes "\<And>r. mdShape (f r) = mdShape r \<and> mdTarget (f r) = mdTarget r" "sweepless m"
  shows "sweepless (fst (update_decision i f m))"
proof (rule sweepless_step [OF assms(2)])
  show "t_outpoints (fst (update_decision i f m)) = t_outpoints m"
    by (simp add: update_decision_def db_call_def split: list.split)
  have "plain (f r)" if "r \<in> set (t_mirror m)" for r
    using assms that by (simp add: plain_def sweepless_def)
  then show "d \<in> set (t_mirror m) \<or> plain d" if "d \<in> set (t_mirror (fst (update_decision i f m)))" for d
    using that by (auto simp: update_decision_def db_call_def update_row_def split: list.splits if_splits)
  show "x \<in> set (mSent m) \<or> plain (fst x)" if "x \<in> set (mSent (fst (update_decision i f m)))" for x
    using that by (simp add: update_decision_def db_call_def split: list.splits if_splits)
qed

lemma RecordSpend_mirror [simp]:
  "t_mirror (fst (RecordSpend sp m)) = t_mirror m" "t_outpoints (fst (RecordSpend sp m)) = t_outpoints m"
  "mSent (fst (RecordSpend sp m)) = mSent m"
  by (simp_all add: RecordSpend_def db_call_def Let_def split: list.split option.split)

lemma RecordMirrorDecision_sweepless:
  assumes "plain d" "sweepless m"
  shows "sweepless (fst (RecordMirrorDecision d m))"
proof (rule sweepless_step [OF assms(2)])
  have p: "plain (place_decision i d)" for i using assms(1) by (simp add: plain_def place_decision_def)
  show "t_outpoints (fst (RecordMirrorDecision d m)) = t_outpoints m"
    by (simp add: RecordMirrorDecision_def db_call_def Let_def split: list.split option.split)
  show "e \<in> set (t_mirror m) \<or> plain e" if "e \<in> set (t_mirror (fst (RecordMirrorDecision d m)))" for e
    using that p by (auto simp: RecordMirrorDecision_def db_call_def Let_def split: list.splits option.splits if_splits)
  show "x \<in> set (mSent m) \<or> plain (fst x)" if "x \<in> set (mSent (fst (RecordMirrorDecision d m)))" for x
    using that by (simp add: RecordMirrorDecision_def db_call_def Let_def split: list.splits option.splits if_splits)
qed

lemma Decision_fields [simp]:
  "mdShape (Decision l from' to opt at) = lfShape l" "mdTarget (Decision l from' to opt at) = to"
  by (simp_all add: Decision_def Let_def)

lemma Lift_funding: "tgKind (maTarget m) = KindFunding \<Longrightarrow> \<not> second_order (lfShape (Lift env m f))"
  by (simp add: Lift_def Let_def) (simp add: ClassifyShape_def second_order_def)

lemma considerMatch_sweepless:
  assumes "sweepless db" "from' = BranchSF \<longrightarrow> tgKind (maTarget m) = KindFunding" "to = other_branch from'"
  shows "sweepless (fst (considerMatch env from' to m height at db))"
proof -
  obtain db1 r1 where f: "factsFor from' m height db = (db1, r1)" by fastforce
  have s1: "sweepless db1" using only_read_sweepless [OF factsFor_only [OF f] assms(1)] .
  have s2: "sweepless (fst (RecordSpend sp db1))" for sp using s1 by (simp add: sweepless_def)
  have "plain (Decision (Lift env m facts) from' to opt at)" for facts opt
    using assms(2,3) by (auto simp: plain_def Lift_funding other_branch_def)
  then have s3: "sweepless (fst (RecordMirrorDecision (Decision (Lift env m facts) from' to opt at) (fst (RecordSpend sp db1))))"
    for facts opt sp using RecordMirrorDecision_sweepless s2 by blast
  show ?thesis
  proof (cases r1)
    case (Inr facts)
    obtain db2 r2 where "RecordSpend (spend_to_copy from' (Lift env m facts) height at) db1 = (db2, r2)" by fastforce
    with s2 [of "spend_to_copy from' (Lift env m facts) height at"]
      s3 [of facts "ftFundingOptIn facts" "spend_to_copy from' (Lift env m facts) height at"] f Inr
    show ?thesis by (auto simp: considerMatch_def Let_def split: prod.split sum.split)
  qed (use f s1 in \<open>simp add: considerMatch_def\<close>)
qed

lemma considerAll_sweepless:
  assumes "sweepless db" "from' = BranchSF \<longrightarrow> (\<forall>m \<in> set ms. tgKind (maTarget m) = KindFunding)" "to = other_branch from'"
  shows "sweepless (fst (considerAll env from' to ms height at db))"
  using assms
proof (induction ms arbitrary: db)
  case (Cons m ms)
  then have "sweepless (fst (considerMatch env from' to m height at db))" by (intro considerMatch_sweepless) simp_all
  with Cons show ?case by (simp add: case_prod_beta)
qed simp

lemma ObserveBlock_sweepless:
  assumes "sweepless m"
  shows "sweepless (fst (ObserveBlock env b (other_branch b) height at m))"
proof -
  have sc: "sweepless (scanned f h m') = sweepless m'" for f h m' by (simp add: scanned_def sweepless_def)
  show ?thesis
  proof (cases rule: ObserveBlock_cases [of env b "other_branch b" height at m])
    case (judged m1 m' ws blk r)
    have "tgKind (maTarget x) = KindFunding" if "b = BranchSF" "x \<in> set (ScanBlock (libTxHash env) (Some blk) ws)" for x
    proof -
      from that(2) obtain op where "Lookup op ws = Some (maTarget x)" by (auto simp: in_ScanBlock)
      with Build_Lookup(3) [OF judged(1)] assms that(1) show ?thesis by (force simp: sweepless_def)
    qed
    then have "sweepless (fst (considerAll env b (other_branch b) (ScanBlock (libTxHash env) (Some blk) ws) height at m'))"
      using only_read_sweepless [OF judged(2) assms] by (intro considerAll_sweepless) simp_all
    with judged(3) show ?thesis by (simp add: sc)
  qed (use only_read_sweepless assms in \<open>simp_all add: sc\<close>)
qed

lemma Reconsider_sweepless:
  assumes "sweepless m"
  shows "sweepless (Reconsider b to at m)"
proof -
  have one: "sweepless (reconsider_one b to cs at d m')" if "sweepless m'" for cs d m'
    using update_decision_sweepless [of "\<lambda>r. r\<lparr>mdState := MirrorPending, mdReason := _, mdUpdatedAt := at\<rparr>"] that
    by (auto simp: reconsider_one_def RedecideMirror_def Let_def split: option.split)
  have all: "sweepless (fold (reconsider_one b to cs at) ds m')" if "sweepless m'" for cs ds m'
    using that one by (induction ds arbitrary: m') simp_all
  show ?thesis
    unfolding Reconsider_def
    by (auto split: prod.split sum.split dest!: lists_only intro!: all intro: only_read_sweepless [OF _ assms] only_read_trans)
qed

lemma attempt_sweepless:
  assumes "sweepless m" "plain d"
  shows "sweepless (fst (attempt env now d m))"
proof -
  have rec: "sweepless (fst (record_outcome d oc why now m'))" if "sweepless m'" for oc why m'
    using update_decision_sweepless [of "\<lambda>r. r\<lparr>mdState := ocState oc, mdLastError := why, mdAttempts := mdAttempts r + 1, mdUpdatedAt := now\<rparr>"] that
    by (simp add: record_outcome_def UpdateMirrorState_def case_prod_beta split: sum.split)
  have off: "sweepless m2" if "offer env d tx m1 = (m2, r)" "sweepless m1" for m1 m2 tx r
    using that assms(2) by (auto simp: offer_def mask_def sweepless_def)
  obtain m1 r1 where raw: "rawFor env d m = (m1, r1)" by fastforce
  have "sweepless m1" using only_read_sweepless [OF rawFor_only [OF raw] assms(1)] .
  then show ?thesis using raw off rec by (auto simp: attempt_def split: sum.split prod.split option.split)
qed

lemma waiting_subset: "waiting to m = (m', Inr ds) \<Longrightarrow> set ds \<subseteq> set (t_mirror m)"
proof -
  have sub: "set xs \<subseteq> set (t_mirror a)" if "ListMirrorDecisions f a = (a', Inr xs)" for f a a' xs
    using that unfolding ListMirrorDecisions_def by (cases rule: db_read_cases) (auto dest!: in_set_takeD)
  assume "waiting to m = (m', Inr ds)"
  then obtain m1 ps rs where p: "ListMirrorDecisions (in_state MirrorPending to) m = (m1, Inr ps)"
    and q: "ListMirrorDecisions (in_state MirrorRejected to) m1 = (m', Inr rs)" and ds: "ds = ps @ rs"
    by (auto simp: waiting_def split: prod.splits sum.splits)
  from sub [OF p] sub [OF q] only_read_fields(1) [OF lists_only(3) [OF p]] show ?thesis by (simp add: ds)
qed

lemma Pass_sweepless:
  assumes "sweepless m"
  shows "sweepless (fst (Pass env to now m))"
proof -
  obtain m1 r where w: "waiting to m = (m1, r)" by fastforce
  have s: "sweepless m1" using only_read_sweepless [OF waiting_rows(1) [OF w] assms] .
  have "sweepless (fst (attemptAll env now ds m'))"
    if "sweepless m'" "\<forall>d \<in> set ds. plain d" for ds m'
    using that by (induction ds arbitrary: m') (simp_all add: attempt_sweepless case_prod_beta)
  moreover have "\<forall>d \<in> set ds. plain d" if "r = Inr ds" for ds
    using waiting_subset [OF w [unfolded that]] assms by (auto simp: sweepless_def)
  ultimately have "sweepless (fst (attemptAll env now (rev ds) m1))" if "r = Inr ds" for ds
    using s that by simp
  then show ?thesis using w s by (simp add: Pass_def case_prod_beta split: sum.split)
qed

lemma mirror_run_sweepless: "sweepless m \<Longrightarrow> sweepless (foldl (mirror_step envs) m inputs)"
proof (induction inputs arbitrary: m)
  case (Cons i inputs)
  have "sweepless (scan env b h now m)" for env b h now
  proof -
    obtain m1 r where o1: "ObserveBlock env b (other_branch b) h now m = (m1, r)" by fastforce
    with ObserveBlock_sweepless [OF Cons.prems, of env b h now] have "sweepless m1" by simp
    then show ?thesis using o1 Pass_sweepless by (simp add: scan_def split: sum.split)
  qed
  moreover have "sweepless (tick env b now m)" for env b now
    using Pass_sweepless Reconsider_sweepless Cons.prems by (simp add: tick_def)
  ultimately have "sweepless (mirror_step envs m i)" using Cons.prems by (simp add: mirror_step_def split: mirror_input.split)
  then show ?case using Cons.IH by simp
qed simp

text \<open>
  What follows a close is never copied to the other chain. The outputs of a commitment are
  watched on the other chain only, so as long as no stored outpoint is on the user's own chain, no
  run of the runners makes a decision about a sweep, a claim or a punishment seen there, let alone
  offers one: two rules of the allowlist, the user's own sweeps and the punishments the user's node
  sent, are out of reach.
\<close>

theorem own_sweeps_never_copied:
  assumes "sweepless m"
  shows "(\<forall>(d, tx) \<in> set (mSent (foldl (mirror_step envs) m inputs)). mdTarget d = BranchSQ \<longrightarrow> \<not> second_order (mdShape d))
    \<and> (\<forall>d \<in> set (t_mirror (foldl (mirror_step envs) m inputs)). mdTarget d = BranchSQ \<longrightarrow> \<not> second_order (mdShape d))"
  using mirror_run_sweepless [OF assms, of envs inputs] by (force simp: sweepless_def plain_def)

section \<open>Every copy comes to an end\<close>

lemma attempt_done:
  assumes "faults m = []" "d \<in> set (t_mirror m)"
  obtains st e where "t_mirror (fst (attempt env now d m)) = update_row mdID (mdID d)
      (\<lambda>r. r\<lparr>mdState := st, mdLastError := e, mdAttempts := mdAttempts r + 1, mdUpdatedAt := now\<rparr>) (t_mirror m)"
    and "faults (fst (attempt env now d m)) = []"
proof -
  have rec: "t_mirror (fst (record_outcome d oc why now m')) = update_row mdID (mdID d)
      (\<lambda>r. r\<lparr>mdState := ocState oc, mdLastError := why, mdAttempts := mdAttempts r + 1, mdUpdatedAt := now\<rparr>) (t_mirror m)
      \<and> faults (fst (record_outcome d oc why now m')) = []"
    if "faults m' = []" "t_mirror m' = t_mirror m" "MirrorState_Valid (ocState oc)" for m' oc why
    using that assms(2)
    by (auto simp: record_outcome_def UpdateMirrorState_def update_decision_def db_call_def list_ex_iff)
  obtain m1 r1 where raw: "rawFor env d m = (m1, r1)" by fastforce
  have m1: "faults m1 = []" "t_mirror m1 = t_mirror m"
    using raw assms(1) only_read_fields(1) [OF rawFor_only [OF raw]]
    by (auto simp: rawFor_def ListSpends_def db_read_unfold split: sum.splits option.splits)
  show ?thesis
  proof (cases r1)
    case (Inl why)
    from rec [OF m1, of "lost_bytes d" why] raw Inl that show ?thesis by (simp add: attempt_def lost_bytes_def)
  next
    case (Inr tx)
    obtain m2 r2 where off: "offer env d tx m1 = (m2, r2)" by fastforce
    with m1 have m2: "faults m2 = []" "t_mirror m2 = t_mirror m" by (auto simp: offer_def mask_def)
    have "MirrorState_Valid (ocState (refusal d why))" for why using refusal_state [of d why] by auto
    then show ?thesis
      using rec [OF m2] raw Inr off that by (cases r2) (simp_all add: attempt_def)
  qed
qed

lemma attempts_done:
  assumes "faults m = []" "distinct (map mdID ds)" "set ds \<subseteq> set (t_mirror m)" "distinct (map mdID (t_mirror m))"
    and "\<forall>d \<in> set ds. due now d"
  shows "faults (fst (attemptAll env now ds m)) = []"
    and "length (t_mirror (fst (attemptAll env now ds m))) = length (t_mirror m)"
    and "r \<in> set (t_mirror (fst (attemptAll env now ds m))) \<Longrightarrow>
      r \<in> set (t_mirror m) - set ds \<or> (\<exists>d \<in> set ds. mdAttempts r = mdAttempts d + 1 \<and> mdUpdatedAt r = now)"
proof -
  have "faults (fst (attemptAll env now ds m)) = [] \<and> length (t_mirror (fst (attemptAll env now ds m))) = length (t_mirror m)
    \<and> (\<forall>r \<in> set (t_mirror (fst (attemptAll env now ds m))).
        r \<in> set (t_mirror m) \<and> mdID r \<notin> mdID ` set ds \<or> (\<exists>d \<in> set ds. mdAttempts r = mdAttempts d + 1 \<and> mdUpdatedAt r = now))"
    using assms
  proof (induction ds arbitrary: m)
    case (Cons d ds)
    let ?m1 = "fst (attempt env now d m)"
    have dm: "d \<in> set (t_mirror m)" using Cons.prems(3) by simp
    obtain st e where m1: "t_mirror ?m1 = update_row mdID (mdID d)
        (\<lambda>r. r\<lparr>mdState := st, mdLastError := e, mdAttempts := mdAttempts r + 1, mdUpdatedAt := now\<rparr>) (t_mirror m)"
      and f1: "faults ?m1 = []" using attempt_done [OF Cons.prems(1) dm] .
    let ?u = "\<lambda>r. r\<lparr>mdState := st, mdLastError := e, mdAttempts := mdAttempts r + 1, mdUpdatedAt := now\<rparr>"
    have ids: "map mdID (t_mirror ?m1) = map mdID (t_mirror m)" by (simp add: m1 update_row_def)
    have sub: "set ds \<subseteq> set (t_mirror ?m1)"
    proof
      fix x assume "x \<in> set ds"
      with Cons.prems(2,3) have "x \<in> set (t_mirror m)" "mdID x \<noteq> mdID d" by (auto simp: image_iff)
      then show "x \<in> set (t_mirror ?m1)" by (force simp: m1 update_row_def)
    qed

    have rows: "r \<in> set (t_mirror m) \<and> mdID r \<noteq> mdID d \<or> r = ?u d" if r: "r \<in> set (t_mirror ?m1)" for r
    proof -
      from r obtain r0 where r0: "r0 \<in> set (t_mirror m)" "r = (if mdID r0 = mdID d then ?u r0 else r0)"
        by (auto simp: m1 set_update_row)
      have "r0 = d" if "mdID r0 = mdID d"
        using that r0(1) Cons.prems(3,4) by (auto simp: distinct_map dest: inj_onD)
      with r0 show ?thesis by auto
    qed
    have "distinct (map mdID ds)" "distinct (map mdID (t_mirror ?m1))" "\<forall>x \<in> set ds. due now x" "due now d"
      using Cons.prems by (simp_all add: ids)
    note ih = Cons.IH [OF f1 this(1) sub this(2,3)]
    have len: "length (t_mirror ?m1) = length (t_mirror m)" by (simp add: m1 update_row_def)
    have fin: "fst (attemptAll env now (d # ds) m) = fst (attemptAll env now ds ?m1)"
      using \<open>due now d\<close> by (simp add: case_prod_beta)
    have "r \<in> set (t_mirror m) \<and> mdID r \<notin> mdID ` set (d # ds)
        \<or> (\<exists>x \<in> set (d # ds). mdAttempts r = mdAttempts x + 1 \<and> mdUpdatedAt r = now)"
      if r: "r \<in> set (t_mirror (fst (attemptAll env now ds ?m1)))" for r
    proof -
      from ih r consider "r \<in> set (t_mirror ?m1)" "mdID r \<notin> mdID ` set ds"
        | x where "x \<in> set ds" "mdAttempts r = mdAttempts x + 1" "mdUpdatedAt r = now" by blast
      then show ?thesis
      proof cases
        case 1
        from rows [OF 1(1)] show ?thesis
        proof
          assume "r = ?u d"
          then have "mdAttempts r = mdAttempts d + 1 \<and> mdUpdatedAt r = now" by simp
          then show ?thesis by simp
        qed (use 1(2) in simp)
      qed auto
    qed
    with ih len show ?case by (simp only: fin) blast
  qed simp
  then show "faults (fst (attemptAll env now ds m)) = []" "length (t_mirror (fst (attemptAll env now ds m))) = length (t_mirror m)"
    "r \<in> set (t_mirror (fst (attemptAll env now ds m))) \<Longrightarrow>
      r \<in> set (t_mirror m) - set ds \<or> (\<exists>d \<in> set ds. mdAttempts r = mdAttempts d + 1 \<and> mdUpdatedAt r = now)" by auto
qed

lemma waiting_all:
  assumes "faults m = []" "int (length (t_mirror m)) \<le> DefaultMirrorLimit" "Branch_Valid to"
  shows "waiting to m = (m, Inr (rev (filter (\<lambda>r. mdState r = MirrorPending \<and> mdTarget r = to) (t_mirror m))
      @ rev (filter (\<lambda>r. mdState r = MirrorRejected \<and> mdTarget r = to) (t_mirror m))))"
proof -
  have "ListMirrorDecisions (in_state st to) m = (m, Inr (rev (filter (\<lambda>r. mdState r = st \<and> mdTarget r = to) (t_mirror m))))"
    if "st \<noteq> MirrorOther ''''" for st
  proof -
    let ?sel = "filter (\<lambda>r. mdState r = st \<and> mdTarget r = to) (t_mirror m)"
    have "length ?sel \<le> nat DefaultMirrorLimit"
      by (rule le_trans [OF length_filter_le]) (use assms(2) in \<open>simp add: DefaultMirrorLimit_def\<close>)
    then have "length (rev ?sel) \<le> nat DefaultMirrorLimit" by simp
    then have "take (nat DefaultMirrorLimit) (rev ?sel) = rev ?sel" by (rule take_all)
    moreover have "to \<noteq> BranchOther ''''" using assms(3) by auto
    ultimately show ?thesis using assms(1) that by (simp add: ListMirrorDecisions_def db_read_unfold in_state_def)
  qed
  then show ?thesis by (simp add: waiting_def)
qed

text \<open>Passes far enough apart for every wait to be over, and a clock that does not run out.\<close>

fun spaced :: "int \<Rightarrow> int list \<Rightarrow> bool" where
  "spaced t [] = True"
| "spaced t (now # nows) = (t + MaxDelay \<le> now \<and> now < 2 ^ 62 \<and> spaced now nows)"

definition waited :: "branch \<Rightarrow> int \<Rightarrow> int \<Rightarrow> mirror_db \<Rightarrow> bool" where
  "waited to t k m \<longleftrightarrow> rows_ok m \<and> faults m = [] \<and> int (length (t_mirror m)) \<le> DefaultMirrorLimit
     \<and> (\<forall>d \<in> set (t_mirror m). waits d \<and> mdTarget d = to \<longrightarrow> 0 \<le> mdUpdatedAt d \<and> mdUpdatedAt d \<le> t \<and> k \<le> mdAttempts d)"

lemma Pass_round:
  assumes "waited (other_branch b) t k m" "Branch_Valid b" "t + MaxDelay \<le> now" "now < 2 ^ 62" "0 \<le> t"
  shows "waited (other_branch b) now (k + 1) (fst (Pass env (other_branch b) now m))"
proof -
  let ?to = "other_branch b"
  have bv: "Branch_Valid ?to" by (simp add: other_branch_def)
  let ?ds = "rev (filter (\<lambda>r. mdState r = MirrorPending \<and> mdTarget r = ?to) (t_mirror m))
      @ rev (filter (\<lambda>r. mdState r = MirrorRejected \<and> mdTarget r = ?to) (t_mirror m))"
  from assms(1) have m: "rows_ok m" "faults m = []" "int (length (t_mirror m)) \<le> DefaultMirrorLimit"
    and late: "\<And>d. d \<in> set (t_mirror m) \<Longrightarrow> waits d \<Longrightarrow> mdTarget d = ?to \<Longrightarrow> 0 \<le> mdUpdatedAt d \<and> mdUpdatedAt d \<le> t \<and> k \<le> mdAttempts d"
    by (auto simp: waited_def)
  note w = waiting_all [OF m(2,3) bv]
  have ds: "distinct (map mdID ?ds)" "set ?ds = {d \<in> set (t_mirror m). waits d \<and> mdTarget d = ?to}"
    using waiting_rows(2) [OF w refl m(1) bv] by (auto simp: waits_def)
  have due: "due now d" if "d \<in> set ?ds" for d
  proof -
    from that ds(2) have d: "0 \<le> mdUpdatedAt d" "mdUpdatedAt d \<le> t" using late by auto
    with Backoff_bounds [of "mdAttempts d"] assms(3,4) show ?thesis by (simp add: due_def FirstDelay_def MaxDelay_def)
  qed
  let ?m = "fst (attemptAll env now (rev ?ds) m)"
  have p: "fst (Pass env ?to now m) = ?m" by (simp add: Pass_def w case_prod_beta)
  have *: "distinct (map mdID (rev ?ds))" "set (rev ?ds) \<subseteq> set (t_mirror m)" "distinct (map mdID (t_mirror m))" "\<forall>d \<in> set (rev ?ds). due now d"
  proof -
    show "distinct (map mdID (rev ?ds))" using ds(1) by (simp only: rev_map [symmetric] distinct_rev)
    show "set (rev ?ds) \<subseteq> set (t_mirror m)" by auto
    show "distinct (map mdID (t_mirror m))" using m(1) by (simp add: rows_ok_def table_ok_def)
    show "\<forall>d \<in> set (rev ?ds). due now d" using due by auto
  qed
  note fin = attempts_done [OF m(2) *]
  have ok: "rows_ok ?m" using Pass_moves [OF assms(2), of "\<lambda>_. env" m now] m(1) p by (simp add: moves_def)
  have "0 \<le> mdUpdatedAt r \<and> mdUpdatedAt r \<le> now \<and> k + 1 \<le> mdAttempts r"
    if r: "r \<in> set (t_mirror ?m)" "waits r" "mdTarget r = ?to" for r
  proof -
    from fin(3) [OF r(1)] consider "r \<in> set (t_mirror m) - set (rev ?ds)"
      | d where "d \<in> set (rev ?ds)" "mdAttempts r = mdAttempts d + 1" "mdUpdatedAt r = now" by blast
    then show ?thesis
    proof cases
      case 1
      with r ds(2) show ?thesis by (simp only: set_rev) blast
    next
      case 2
      from 2(1) have "d \<in> set (t_mirror m)" "waits d" "mdTarget d = ?to" using ds(2) by (simp_all only: set_rev) blast+
      from late [OF this] 2 assms(3,5) show ?thesis by (simp add: MaxDelay_def)
    qed
  qed
  with ok fin(1,2) [of env] m(3) show ?thesis by (simp add: waited_def p)
qed

text \<open>
  C20: every copy that can be offered comes to an end. When the store works and at most as many
  decisions are stored as one listing returns, then after as many passes as a transaction may be
  attempted, each at least the longest wait after the one before, no transaction is still waiting:
  each has been accepted by the other chain or been given up, whatever that chain answered.
\<close>

theorem every_copy_is_settled:
  assumes "rows_ok m" "faults m = []" "int (length (t_mirror m)) \<le> DefaultMirrorLimit" "Branch_Valid b"
    and "0 \<le> t" "\<forall>d \<in> set (t_mirror m). 0 \<le> mdUpdatedAt d \<and> mdUpdatedAt d \<le> t"
    and "spaced t nows" "int (length nows) = MaxAttempts"
    and "d \<in> set (t_mirror (fold (\<lambda>now m. fst (Pass env (other_branch b) now m)) nows m))" "mdTarget d = other_branch b"
  shows "settled d \<or> mdState d = MirrorDenied"
proof -
  have run: "waited (other_branch b) (last (t # nows)) (k + int (length nows)) (fold (\<lambda>now m. fst (Pass env (other_branch b) now m)) nows m)"
    if "waited (other_branch b) t k m" "spaced t nows" "0 \<le> t" for t k m nows
    using that
  proof (induction nows arbitrary: t k m)
    case (Cons now nows)
    then have "waited (other_branch b) now (k + 1) (fst (Pass env (other_branch b) now m))"
      using assms(4) by (intro Pass_round) simp_all
    moreover have "0 \<le> now" using Cons.prems by (simp add: MaxDelay_def)
    ultimately show ?case using Cons.IH [of now "k + 1"] Cons.prems by (simp add: ac_simps)
  qed simp
  let ?m = "fold (\<lambda>now m. fst (Pass env (other_branch b) now m)) nows m"
  have "waited (other_branch b) t 0 m" using assms(1-3,6) by (auto simp: waited_def rows_ok_def row_ok_def)
  from run [OF this assms(7,5)] assms(8) have w: "waited (other_branch b) (last (t # nows)) MaxAttempts ?m" by simp
  with assms(9) have ok: "row_ok d" by (simp add: waited_def rows_ok_def)
  have "\<not> waits d"
  proof
    assume "waits d"
    with w assms(9,10) have "MaxAttempts \<le> mdAttempts d" by (simp add: waited_def)
    with waiting_row [OF ok \<open>waits d\<close>] show False by simp
  qed
  with ok show ?thesis by (auto simp: row_ok_def)
qed

section \<open>A small instance\<close>

definition sample_tx :: msg_tx where
  "sample_tx = \<lparr>TxIn = [], TxOut = [], LockTime = 0\<rparr>"

definition sample_mirror_env :: mirror_env where
  "sample_mirror_env = \<lparr>libPrint = (\<lambda>_. ''h''), libParse = (\<lambda>_. None), libTxHash = (\<lambda>_. 0), libRawTx = (\<lambda>_. ''00''),
     viewHashByHeight = (\<lambda>_ _. Inr 1), viewHeader = (\<lambda>_ _. undefined), viewMatch = (\<lambda>_ _ _. Inr False),
     viewBlock = (\<lambda>_ _. Inr []), viewHealth = (\<lambda>_. Inr (False, 0)), guardPaused = False,
     libDeserialize = (\<lambda>_. Some sample_tx), viewBroadcast = (\<lambda>_ _. Some ''missing inputs'')\<rparr>"

definition sample_decision :: mirror_decision where
  "sample_decision = (Decision \<lparr>lfTxID = ''t'', lfRawHex = ''00'', lfChannelID = 1, lfShape = ShapeMutualClose,
     lfSourceShape = ShapeOther '''', lfOutpointTxID = ''f'', lfOutpointVout = 0\<rparr> BranchSF BranchSQ False 3)\<lparr>mdID := 1\<rparr>"

definition sample_mirror :: mirror_db where
  "sample_mirror = \<lparr>t_nodes = [], t_channels = [], t_htlcs = [],
     t_spends = [\<lparr>spID = 1, spBranch = BranchSF, spChannelID = 1, spOutpointTxID = ''f'', spOutpointVout = 0,
       spSpendTxID = ''t'', spSpendTxHex = ''00'', spBlockHash = '''', spBlockHeight = 5, spShape = ShapeMutualClose,
       spStatus = SpendConfirmed, spFirstSeenAt = 3, spUpdatedAt = 3\<rparr>],
     t_outpoints = [], t_deadlines = [], faults = [], t_meta = [], t_split = None, t_blocks = [], t_alerts = [],
     t_deliveries = [], t_mirror = [sample_decision], mLast = [], mCalls = 0, mSent = []\<rparr>"

lemma sample_fields:
  "mdID sample_decision = 1" "mdState sample_decision = MirrorPending" "mdSource sample_decision = BranchSF"
  "mdTarget sample_decision = BranchSQ" "mdAttempts sample_decision = 0" "mdUpdatedAt sample_decision = 3"
  "mdShape sample_decision = ShapeMutualClose"
  by (simp_all add: sample_decision_def Decision_def Decide_def towardsTheOtherChain_def allow_def)

lemma sample_ok: "rows_ok (sample_mirror\<lparr>faults := fs\<rparr>)" "sent_ok envs (sample_mirror\<lparr>faults := fs\<rparr>)"
proof -
  have "row_ok (Decision l BranchSF BranchSQ False 3)" for l by (rule Decision_row_ok) simp_all
  moreover have "row_ok (d\<lparr>mdID := 1\<rparr>) = row_ok d" for d by (simp add: row_ok_def waits_def settled_def)
  ultimately have "row_ok sample_decision" by (simp add: sample_decision_def)
  then show "rows_ok (sample_mirror\<lparr>faults := fs\<rparr>)"
    by (simp add: rows_ok_def table_ok_def sample_mirror_def sample_fields)
  show "sent_ok envs (sample_mirror\<lparr>faults := fs\<rparr>)" by (simp add: sent_ok_def sample_mirror_def)
qed

lemma sample_sent:
  "mSent (foldl (mirror_step (\<lambda>_. sample_mirror_env)) sample_mirror [MirrorTick BranchSF 5]) = [(sample_decision, sample_tx)]"
  by code_simp

theorem nothing_denied_is_sent_witness:
  "\<exists>i. vdMirror (Decide i) \<and> mdReason sample_decision = vdReason (Decide i) \<and> inFrom i = BranchSF \<and> inTo i = BranchSQ"
proof -
  have "sample_mirror\<lparr>faults := []\<rparr> = sample_mirror" by (simp add: sample_mirror_def)
  then show ?thesis
    using nothing_denied_is_sent [OF sample_ok(1) [of "[]"] sample_ok(2) [of "\<lambda>_. sample_mirror_env" "[]"],
        of sample_decision sample_tx "[MirrorTick BranchSF 5]"] sample_sent
    by (auto simp: sample_fields)
qed

theorem settled_is_final_witness:
  "\<exists>d \<in> set (t_mirror (foldl (mirror_step (\<lambda>_. sample_mirror_env)) sample_mirror [MirrorTick BranchSF 5])).
     mdID d = 1 \<and> mdState d \<noteq> MirrorDenied"
proof -
  have "sample_mirror\<lparr>faults := []\<rparr> = sample_mirror" "sample_decision \<in> set (t_mirror sample_mirror)"
    by (simp_all add: sample_mirror_def)
  then show ?thesis
    using settled_is_final [OF sample_ok(1) [of "[]"], of sample_decision "\<lambda>_. sample_mirror_env" "[MirrorTick BranchSF 5]"]
    by (auto simp: sample_fields)
qed

theorem failed_read_gives_up_witness:
  "\<exists>d \<in> set (t_mirror (fst (attempt sample_mirror_env 5 sample_decision (sample_mirror\<lparr>faults := [True]\<rparr>)))).
     mdID d = 1 \<and> mdState d = MirrorAbandoned"
proof -
  have "sample_decision \<in> set (t_mirror (sample_mirror\<lparr>faults := [True]\<rparr>))" "waits sample_decision"
    "Branch_Valid (mdSource sample_decision)"
    by (simp_all add: sample_mirror_def waits_def sample_fields)
  from failed_read_gives_up [OF sample_ok(1) this, of "\<lambda>_. sample_mirror_env" 5 "[]"] show ?thesis
    by (auto simp: sample_fields)
qed

theorem every_copy_is_settled_witness:
  "list_all (\<lambda>d. if mdTarget d = BranchSQ then settled d \<or> mdState d = MirrorDenied else True)
     (t_mirror (fold (\<lambda>now m. fst (Pass sample_mirror_env BranchSQ now m)) (map (\<lambda>k. 903 * (int k + 1)) [0..<40]) sample_mirror))"
proof -
  have s: "sample_mirror\<lparr>faults := []\<rparr> = sample_mirror" "other_branch BranchSF = BranchSQ"
    by (simp_all add: sample_mirror_def other_branch_def)
  have "spaced 3 (map (\<lambda>k. 903 * (int k + 1)) [0..<40])" by (simp add: MaxDelay_def upt_rec)
  then have "\<forall>d \<in> set (t_mirror (fold (\<lambda>now m. fst (Pass sample_mirror_env BranchSQ now m)) (map (\<lambda>k. 903 * (int k + 1)) [0..<40]) sample_mirror)).
      mdTarget d = BranchSQ \<longrightarrow> settled d \<or> mdState d = MirrorDenied"
    using every_copy_is_settled [OF sample_ok(1) [of "[]"], of BranchSF 3 "map (\<lambda>k. 903 * (int k + 1)) [0..<40]" _ sample_mirror_env]
    by (simp add: s sample_fields DefaultMirrorLimit_def MaxAttempts_def) (simp add: sample_mirror_def sample_fields)
  then show ?thesis by (simp add: list_all_iff)
qed

theorem own_sweeps_never_copied_witness:
  "\<forall>d \<in> set (t_mirror (foldl (mirror_step (\<lambda>_. sample_mirror_env)) sample_mirror [MirrorTick BranchSF 5])).
     mdTarget d = BranchSQ \<longrightarrow> \<not> second_order (mdShape d)"
proof -
  have "sweepless sample_mirror" by (simp add: sweepless_def plain_def sample_mirror_def sample_fields second_order_def)
  from own_sweeps_never_copied [OF this] show ?thesis by blast
qed

end
