(* ===== verification/Words.thy ===== *)
theory Words
  imports Relevance
begin

text \<open>
  The vocabulary of what a person reads, \<open>internal/words/words.go\<close>, and the removal of
  credentials from text that is stored or shown, \<open>internal/redact/redact.go\<close>. A string is the
  list of its bytes. The three regular expressions are written out as scanners with Go's leftmost
  semantics; their classes are ASCII, and case folding beyond ASCII is left out.
\<close>

section \<open>The two chains\<close>

definition OwnChain :: string where "OwnChain = ''your node's chain''"
definition OtherChain :: string where "OtherChain = ''the other chain''"
definition EitherChain :: string where "EitherChain = ''one of the chains''"
definition branchOwn :: string where "branchOwn = ''sf''"
definition branchOther :: string where "branchOther = ''sq''"

definition Chain :: "string \<Rightarrow> string" where
  "Chain b = (if b = branchOwn then OwnChain else if b = branchOther then OtherChain else EitherChain)"

section \<open>Internal names\<close>

definition Internal :: "string list" where
  "Internal =
     [''sf'', ''sq'', ''mutual_close'', ''commitment_ours'', ''commitment_unknown'', ''commitment_revoked'',
      ''delayed_sweep'', ''htlc_claim'', ''reorged_out'', ''pending_close'', ''coop_closed'', ''force_closed'',
      ''breach_closed'', ''static_remote'', ''csv'', ''htlc_incoming'', ''htlc_outgoing'', ''cltv'',
      ''to_local'', ''to_remote'', ''scid'', ''outpoint'', ''scriptpubkey'', ''txid'']"

definition InternalStates :: "string list" where
  "InternalStates =
     [''UNARMED'', ''ARMED'', ''SPLIT'', ''RESOLVING'', ''RESOLVED_SF_WON'', ''RESOLVED_SQ_WON'',
      ''WRONG_BRANCH'', ''ECLIPSE_SUSPECT'', ''DEGRADED'', ''SYNCING'']"

definition wordByte :: "char \<Rightarrow> bool" where
  "wordByte b \<longleftrightarrow> (let n = of_char b :: nat
     in 97 \<le> n \<and> n \<le> 122 \<or> 65 \<le> n \<and> n \<le> 90 \<or> 48 \<le> n \<and> n \<le> 57 \<or> n = 95)"

text \<open>The loop of \<open>containsWord\<close>; slicing past the end, as an empty name would, ends it.\<close>

function word_from :: "string \<Rightarrow> string \<Rightarrow> nat \<Rightarrow> bool" where
  "word_from t name start =
     (case str_index (drop start t) name of
        None \<Rightarrow> False
      | Some i \<Rightarrow>
          (let at = start + i;
               before = (at = 0 \<or> \<not> wordByte (t ! (at - 1)));
               afterAt = at + length name;
               after = (afterAt = length t \<or> \<not> wordByte (t ! afterAt))
           in if before \<and> after then True
              else if length t < at + 1 then False
              else word_from t name (at + 1)))"
  by pat_completeness auto
termination
  by (relation "measure (\<lambda>(t, name, start). length t + 1 - start)") auto

declare word_from.simps [simp del]

definition containsWord :: "string \<Rightarrow> string \<Rightarrow> bool" where
  "containsWord t name = word_from t name 0"

definition FindInternal :: "string \<Rightarrow> string" where
  "FindInternal t =
     (case find (containsWord (to_lower t)) Internal of
        Some name \<Rightarrow> name
      | None \<Rightarrow> (case find (containsWord t) InternalStates of Some name \<Rightarrow> name | None \<Rightarrow> ''''))"

section \<open>Credentials\<close>

definition MaxLen :: nat where "MaxLen = 300"
definition Redacted :: string where "Redacted = ''[redacted]''"

definition is_letter :: "char \<Rightarrow> bool" where
  "is_letter c \<longleftrightarrow> (let n = of_char c :: nat in 97 \<le> n \<and> n \<le> 122 \<or> 65 \<le> n \<and> n \<le> 90)"

text \<open>The class \<open>\s\<close> of a Go regular expression.\<close>

definition re_space :: "char \<Rightarrow> bool" where
  "re_space c \<longleftrightarrow> (of_char c :: nat) \<in> {9, 10, 12, 13, 32}"

definition scheme_char :: "char \<Rightarrow> bool" where
  "scheme_char c \<longleftrightarrow> is_letter c \<or> is_digit c \<or> c = CHR ''+'' \<or> c = CHR ''.'' \<or> c = CHR ''-''"

definition url_char :: "char \<Rightarrow> bool" where
  "url_char c \<longleftrightarrow> \<not> re_space c \<and> (of_char c :: nat) \<noteq> 34 \<and> (of_char c :: nat) \<noteq> 39 \<and> (of_char c :: nat) \<noteq> 96"

text \<open>What follows the last \<open>@\<close>, and what comes before the first of \<open>/?#\<close>.\<close>

definition after_userinfo :: "string \<Rightarrow> string" where
  "after_userinfo rest = rev (takeWhile (\<lambda>c. c \<noteq> CHR ''@'') (rev rest))"

definition ends_host :: "char \<Rightarrow> bool" where
  "ends_host c \<longleftrightarrow> c = CHR ''/'' \<or> c = CHR ''?'' \<or> c = CHR ''#''"

definition redactURL :: "string \<Rightarrow> string" where
  "redactURL m =
     (case str_index m ''://'' of
        None \<Rightarrow> m
      | Some i \<Rightarrow>
          (let scheme = take i m; rest = after_userinfo (drop (i + 3) m)
           in if list_ex ends_host rest
              then scheme @ ''://'' @ takeWhile (\<lambda>c. \<not> ends_host c) rest @ ''/'' @ Redacted
              else scheme @ ''://'' @ rest))"

lemma length_rest: "length (dropWhile P (drop k s)) \<le> length s"
  using length_dropWhile_le [of P "drop k s"] by simp

function redact_urls :: "string \<Rightarrow> string" where
  "redact_urls [] = []"
| "redact_urls (c # cs) =
     (let rest = dropWhile scheme_char (c # cs)
      in if is_letter c \<and> take 3 rest = ''://''
         then redactURL (takeWhile scheme_char (c # cs) @ ''://'' @ takeWhile url_char (drop 3 rest))
                @ redact_urls (dropWhile url_char (drop 3 rest))
         else c # redact_urls cs)"
  by pat_completeness auto
termination
proof (relation "measure length")
  fix c cs rest
  assume rest: "rest = dropWhile scheme_char (c # cs)" and m: "is_letter c \<and> take 3 rest = ''://''"
  then have "length (take 3 rest) = 3" by simp
  then have "3 \<le> length rest" by simp
  moreover have "length rest \<le> length (c # cs)" unfolding rest by (rule length_dropWhile_le)
  moreover have "length (dropWhile url_char (drop 3 rest)) \<le> length rest - 3"
    using length_dropWhile_le [of url_char "drop 3 rest"] by simp
  ultimately show "(dropWhile url_char (drop 3 rest), c # cs) \<in> measure length" by simp
qed simp_all

definition cred_labels :: "string list" where
  "cred_labels =
     [''authorization'', ''proxy-authorization'', ''x-api-key'', ''api-key'', ''api_key'', ''apikey'', ''token'',
      ''password'', ''passwd'', ''secret'', ''macaroon'', ''rune'']"

text \<open>
  A label in any case, blanks and a colon or an equals sign: the bytes of the label and of all of it.
\<close>

definition labelled :: "string \<Rightarrow> string \<Rightarrow> (nat \<times> nat) option" where
  "labelled l s =
     (if to_lower (take (length l) s) \<noteq> l then None
      else
        (let blanks = takeWhile re_space (drop (length l) s); rest = dropWhile re_space (drop (length l) s)
         in if rest \<noteq> [] \<and> (hd rest = CHR '':'' \<or> hd rest = CHR ''='')
            then Some (length l, length l + length blanks + 1) else None))"

definition credential :: "string \<Rightarrow> (nat \<times> nat) option" where
  "credential s = List.fold (\<lambda>l r. case r of Some x \<Rightarrow> Some x | None \<Rightarrow> labelled l s) cred_labels None"

definition line_char :: "char \<Rightarrow> bool" where
  "line_char c \<longleftrightarrow> (of_char c :: nat) \<noteq> 10 \<and> (of_char c :: nat) \<noteq> 13"

text \<open>What may stand before a label.\<close>

definition opens_label :: "char \<Rightarrow> bool" where
  "opens_label c \<longleftrightarrow> \<not> wordByte c \<and> c \<noteq> CHR ''.'' \<and> c \<noteq> CHR ''/''"

definition hidden :: "string \<Rightarrow> nat \<Rightarrow> string" where
  "hidden s n = take n s @ ''='' @ Redacted"

function redact_creds_from :: "string \<Rightarrow> string" where
  "redact_creds_from [] = []"
| "redact_creds_from (c # cs) =
     (case (if opens_label c then credential cs else None) of
        Some (n, k) \<Rightarrow> c # hidden cs n @ redact_creds_from (dropWhile line_char (drop k cs))
      | None \<Rightarrow> c # redact_creds_from cs)"
  by pat_completeness auto
termination
  by (relation "measure length") (auto simp: length_rest le_imp_less_Suc)

definition redact_creds :: "string \<Rightarrow> string" where
  "redact_creds s =
     (case credential s of
        Some (n, k) \<Rightarrow> hidden s n @ redact_creds_from (dropWhile line_char (drop k s))
      | None \<Rightarrow> redact_creds_from s)"

text \<open>An unlabelled bearer token; the flag says whether the byte before is part of a word.\<close>

definition bearer_at :: "string \<Rightarrow> string option" where
  "bearer_at s =
     (if to_lower (take 6 s) = ''bearer''
      then (let blanks = takeWhile re_space (drop 6 s); rest = dropWhile re_space (drop 6 s)
            in if blanks \<noteq> [] \<and> rest \<noteq> [] then Some (dropWhile (\<lambda>c. \<not> re_space c) rest) else None)
      else None)"

lemma bearer_at_shorter:
  assumes "bearer_at s = Some r"
  shows "length r < length s"
proof -
  from assms have "to_lower (take 6 s) = ''bearer''" and r: "r = dropWhile (\<lambda>c. \<not> re_space c) (dropWhile re_space (drop 6 s))"
    by (auto simp: bearer_at_def Let_def split: if_splits)
  then have "length (to_lower (take 6 s)) = length ''bearer''" by simp
  then have "length (take 6 s) = 6" by (simp add: to_lower_def)
  moreover have "length r \<le> length (drop 6 s)"
    unfolding r by (rule le_trans [OF length_dropWhile_le length_dropWhile_le])
  ultimately show ?thesis by simp
qed

function redact_bearer :: "bool \<Rightarrow> string \<Rightarrow> string" where
  "redact_bearer inword [] = []"
| "redact_bearer inword (c # cs) =
     (case (if inword then None else bearer_at (c # cs)) of
        Some rest \<Rightarrow> ''bearer '' @ Redacted @ redact_bearer False rest
      | None \<Rightarrow> c # redact_bearer (wordByte c) cs)"
  by pat_completeness auto
termination
  by (relation "measure (\<lambda>(b, s). length s)") (auto dest: bearer_at_shorter split: if_splits)

definition isRuneStart :: "char \<Rightarrow> bool" where
  "isRuneStart c \<longleftrightarrow> (of_char c :: nat) div 64 \<noteq> 2"

fun rune_cut :: "string \<Rightarrow> nat \<Rightarrow> nat" where
  "rune_cut s 0 = 0"
| "rune_cut s (Suc n) = (if \<not> isRuneStart (s ! Suc n) then rune_cut s n else Suc n)"

definition ellipsis :: string where "ellipsis = [CHR 0xE2, CHR 0x80, CHR 0xA6]"

definition redactString :: "string \<Rightarrow> string" where
  "redactString s =
     (let s = trim_space (redact_bearer False (redact_creds (redact_urls s)))
      in if MaxLen < length s then take (rune_cut s MaxLen) s @ ellipsis else s)"

definition redactError :: "string option \<Rightarrow> string" where
  "redactError e = (case e of None \<Rightarrow> '''' | Some msg \<Rightarrow> redactString msg)"

section \<open>Properties\<close>

text \<open>What stands on either side of a whole word.\<close>

definition at_edge :: "string \<Rightarrow> nat \<Rightarrow> nat \<Rightarrow> bool" where
  "at_edge t i n \<longleftrightarrow> (i = 0 \<or> \<not> wordByte (t ! (i - 1))) \<and> (i + n = length t \<or> \<not> wordByte (t ! (i + n)))"

lemma word_from_iff:
  assumes "name \<noteq> []"
  shows "word_from t name start \<longleftrightarrow>
    (\<exists>i \<ge> start. i + length name \<le> length t \<and> take (length name) (drop i t) = name \<and> at_edge t i (length name))"
  using assms
proof (induction t name start rule: word_from.induct)
  case (1 t name start)
  show ?case
  proof (cases "str_index (drop start t) name")
    case None
    have "take (length name) (drop i t) \<noteq> name" if "start \<le> i" "i + length name \<le> length t" for i
      using str_index_None [OF None, of "i - start"] that by simp
    with None show ?thesis by (subst word_from.simps) auto
  next
    case (Some j)
    from str_index_Some [OF Some] have j: "start + j + length name \<le> length t \<or> start > length t"
      "take (length name) (drop (start + j) t) = name" by (auto simp: add.commute add.left_commute)
    have lt: "start + j + length name \<le> length t"
    proof -
      have "length (take (length name) (drop (start + j) t)) = length name" by (simp only: j(2))
      then have "length name \<le> length t - (start + j)" by (simp add: min_def split: if_splits)
      moreover have "0 < length name" using 1 by simp
      ultimately show ?thesis by linarith
    qed
    have least: "take (length name) (drop i t) \<noteq> name" if "start \<le> i" "i < start + j" for i
      using str_index_least [OF Some, of "i - start"] that by simp
    show ?thesis
    proof (cases "at_edge t (start + j) (length name)")
      case True
      then have "word_from t name start" using Some by (subst word_from.simps) (simp add: at_edge_def Let_def)
      with True lt j(2) show ?thesis by (auto intro!: exI [of _ "start + j"])
    next
      case False
      have "0 < length name" using 1 by simp
      with lt have nl: "\<not> length t < start + j + 1" by linarith
      have "word_from t name start = word_from t name (start + j + 1)"
        using Some False nl by (subst word_from.simps) (auto simp: at_edge_def Let_def)
      also have "\<dots> \<longleftrightarrow> (\<exists>i \<ge> start + j + 1. i + length name \<le> length t \<and> take (length name) (drop i t) = name
          \<and> at_edge t i (length name))"
        by (rule 1(1) [OF Some refl refl refl refl _ nl 1(2)]) (use False in \<open>auto simp: at_edge_def\<close>)
      also have "\<dots> \<longleftrightarrow> (\<exists>i \<ge> start. i + length name \<le> length t \<and> take (length name) (drop i t) = name
          \<and> at_edge t i (length name))"
      proof -
        have "start + j + 1 \<le> i" if "start \<le> i" "take (length name) (drop i t) = name" "at_edge t i (length name)" for i
        proof -
          have "\<not> i < start + j" using least that by blast
          moreover have "i \<noteq> start + j" using that(3) False by blast
          ultimately show ?thesis by simp
        qed
        then show ?thesis by (metis add_leD1)
      qed
      finally show ?thesis .
    qed
  qed
qed

text \<open>
  A name is found exactly where it stands as a whole word: somewhere in the text, with nothing
  word-like on either side of it.
\<close>

theorem whole_words_exact:
  assumes "name \<noteq> []"
  shows "containsWord t name \<longleftrightarrow>
    (\<exists>i. i + length name \<le> length t \<and> take (length name) (drop i t) = name \<and> at_edge t i (length name))"
  using word_from_iff [OF assms, of t 0] by (simp add: containsWord_def)

theorem whole_words_exact_witness:
  "containsWord ''(csv)'' ''csv''"
  using whole_words_exact [of "''csv''" "''(csv)''"] by (auto simp: at_edge_def wordByte_def intro!: exI [of _ 1])

lemma rune_cut_le: "rune_cut s n \<le> n"
  by (induction s n rule: rune_cut.induct) auto

text \<open>Whatever it was given, what is kept is at most the limit and the three bytes of an ellipsis.\<close>

theorem redacted_bounded: "length (redactString s) \<le> MaxLen + 3"
proof -
  have "length (take (rune_cut t MaxLen) t) \<le> MaxLen" for t
    using rune_cut_le [of t MaxLen] by simp
  then show ?thesis by (simp add: redactString_def Let_def ellipsis_def del: length_take)
qed

lemma str_index_first:
  assumes "c \<notin> set p"
  shows "str_index (p @ c # s) (c # cs) = (if take (length cs) s = cs then Some (length p)
    else map_option (\<lambda>i. Suc (length p + i)) (str_index s (c # cs)))"
  using assms
proof (induction p)
  case Nil
  then show ?case by (cases "take (length cs) s = cs") (auto simp: option.map_comp comp_def split: option.split)
next
  case (Cons x p)
  then show ?case by (auto simp: option.map_comp comp_def split: option.split)
qed

lemma redactURL_parts:
  assumes "CHR '':'' \<notin> set scheme"
  shows "redactURL (scheme @ ''://'' @ rest) =
    (if list_ex ends_host (after_userinfo rest)
     then scheme @ ''://'' @ takeWhile (\<lambda>c. \<not> ends_host c) (after_userinfo rest) @ ''/'' @ Redacted
     else scheme @ ''://'' @ after_userinfo rest)"
proof -
  have "str_index (scheme @ ''://'' @ rest) ''://'' = Some (length scheme)"
    using str_index_first [OF assms, of "''//'' @ rest" "''//''"] by simp
  then show ?thesis by (simp add: redactURL_def)
qed

lemma takeWhile_until: "a \<notin> set xs \<Longrightarrow> takeWhile (\<lambda>c. c \<noteq> a) (xs @ a # ys) = xs"
  by (induction xs) auto

lemma takeWhile_no: "a \<notin> set xs \<Longrightarrow> takeWhile (\<lambda>c. c \<noteq> a) xs = xs"
  by (induction xs) auto

lemma after_userinfo_last: "CHR ''@'' \<notin> set s \<Longrightarrow> after_userinfo (p @ CHR ''@'' # s) = s"
  using takeWhile_until [of "CHR ''@''" "rev s" "rev p"] by (simp add: after_userinfo_def)

lemma after_userinfo_none: "CHR ''@'' \<notin> set s \<Longrightarrow> after_userinfo s = s"
  unfolding after_userinfo_def by (subst takeWhile_no) simp_all

text \<open>
  What is kept of an address is its host, if the only at sign is the one that ends the
  credentials. An at sign further on is taken for that one too: then the host is dropped and what
  follows the last at sign of the path or the query is kept in its place, up to the next
  separator, so a secret there is written out.
\<close>

theorem redacted_address:
  assumes "CHR '':'' \<notin> set scheme" "list_all (\<lambda>c. c \<noteq> CHR ''@'' \<and> \<not> ends_host c) host"
    and "list_all (\<lambda>c. c \<noteq> CHR ''@'' \<and> \<not> ends_host c) secret" "ends_host sep" "sep \<noteq> CHR ''@''"
  shows "(CHR ''@'' \<notin> set path \<longrightarrow>
      redactURL (scheme @ ''://'' @ user @ ''@'' @ host @ sep # path) = scheme @ ''://'' @ host @ ''/'' @ Redacted)
    \<and> redactURL (scheme @ ''://'' @ host @ sep # path @ ''@'' @ secret) = scheme @ ''://'' @ secret"
proof -
  have h: "CHR ''@'' \<notin> set host" "takeWhile (\<lambda>c. \<not> ends_host c) (host @ sep # path) = host"
    using assms(2,4) by (auto simp: list_all_iff takeWhile_append2)
  have s: "CHR ''@'' \<notin> set secret" "\<not> list_ex ends_host secret" using assms(3) by (auto simp: list_all_iff list_ex_iff)
  have "redactURL (scheme @ ''://'' @ user @ ''@'' @ host @ sep # path) = scheme @ ''://'' @ host @ ''/'' @ Redacted"
    if "CHR ''@'' \<notin> set path"
  proof -
    from h that assms(5) have "after_userinfo (user @ ''@'' @ host @ sep # path) = host @ sep # path"
      using after_userinfo_last [of "host @ sep # path" user] by auto
    then show ?thesis
      using h assms(4) redactURL_parts [OF assms(1), of "user @ ''@'' @ host @ sep # path"] by simp
  qed
  moreover have "redactURL (scheme @ ''://'' @ host @ sep # path @ ''@'' @ secret) = scheme @ ''://'' @ secret"
    using after_userinfo_last [OF s(1), of "host @ sep # path"] s(2)
      redactURL_parts [OF assms(1), of "host @ sep # path @ ''@'' @ secret"] by simp
  ultimately show ?thesis by blast
qed

theorem redacted_address_witness:
  "redactURL ''https://u:p@ntfy.sh/topic'' = ''https://ntfy.sh/[redacted]''
   \<and> redactURL ''https://ntfy.sh/to@topic'' = ''https://topic''"
  using redacted_address [of "''https''" "''ntfy.sh''" "''topic''" "CHR ''/''" "''topic''" "''u:p''"]
    redacted_address [of "''https''" "''ntfy.sh''" "''topic''" "CHR ''/''" "''to''"]
  by (simp add: ends_host_def Redacted_def)

end
