(* ===== verification/Store_Towers.thy ===== *)
theory Store_Towers
  imports Mirror
begin

text \<open>
  The watchtowers and what each of them can protect: \<open>internal/store/towers.go\<close>. The tables
  extend those of \<open>Store_State\<close> and of the mirror and share their script of failing calls. A
  column that stores zero or an empty string as NULL and reads it back as that value holds the
  value itself.
\<close>

section \<open>Rows\<close>

datatype tower_kind = TowerLND | TowerTeos | TowerKindOther string

fun TowerKind_Valid :: "tower_kind \<Rightarrow> bool" where
  "TowerKind_Valid (TowerKindOther _) = False"
| "TowerKind_Valid _ = True"

datatype tower_status =
    TowerReachable | TowerTemporarilyUnreachable | TowerUnreachable | TowerSubscriptionError
  | TowerMisbehaving | TowerStatusUnknown | TowerStatusOther string

fun TowerStatus_Valid :: "tower_status \<Rightarrow> bool" where
  "TowerStatus_Valid (TowerStatusOther _) = False"
| "TowerStatus_Valid _ = True"

definition PossibleFor :: "tower_status \<Rightarrow> tower_kind \<Rightarrow> bool" where
  "PossibleFor s kind \<longleftrightarrow> (kind = TowerLND \<longrightarrow> s \<noteq> TowerSubscriptionError \<and> s \<noteq> TowerMisbehaving)"

record tower =
  twID :: int
  twKind :: tower_kind
  twPubkey :: string
  twURI :: string
  twManaged :: bool
  twFirstSeenAt :: int
  twLastOKAt :: int
  twStatus :: tower_status
  twStatusDetail :: string
  twBlobTypes :: string
  twExpiryHeight :: "int option"
  twSlotsLeft :: "int option"
  twUpdatedAt :: int

record coverage =
  cvChannelID :: int
  cvTowerID :: int
  cvCoverable :: bool
  cvReason :: string
  cvNumBackups :: int
  cvLastBackupAt :: int
  cvSweepFeeSatPerKW :: "int option"
  cvCheckedAt :: int

record tower_tables = mirror_tables +
  t_towers :: "tower list"
  t_coverage :: "coverage list"

section \<open>Towers\<close>

text \<open>A new row takes the identity and the configuration of what was handed in and nothing else.\<close>

definition place_tower :: "int \<Rightarrow> tower \<Rightarrow> tower" where
  "place_tower i t = t\<lparr>twID := i, twLastOKAt := 0, twStatus := TowerStatusUnknown, twStatusDetail := '''', twBlobTypes := '''',
     twExpiryHeight := None, twSlotsLeft := None\<rparr>"

interpretation towers: keyed_table twID twPubkey place_tower
  by unfold_locales (simp_all add: place_tower_def)

definition UpsertTower :: "tower \<Rightarrow> 'x tower_tables_scheme \<Rightarrow> 'x tower_tables_scheme \<times> (store_err + int \<times> bool)" where
  "UpsertTower t d =
     (if twPubkey t = '''' then (d, Inl StoreInvalid)
      else if \<not> TowerKind_Valid (twKind t) then (d, Inl StoreInvalid)
      else
        db_call (\<lambda>d.
          case find (\<lambda>r. twPubkey r = twPubkey t) (t_towers d) of
            Some r \<Rightarrow>
              if twKind r = twKind t \<and> twURI r = twURI t \<and> twManaged r = twManaged t then (d, Inr (twID r, False))
              else
                (d\<lparr>t_towers := update_row twID (twID r)
                     (\<lambda>x. x\<lparr>twKind := twKind t, twURI := twURI t, twManaged := twManaged t, twUpdatedAt := twUpdatedAt t\<rparr>)
                     (t_towers d)\<rparr>, Inr (twID r, True))
          | None \<Rightarrow>
              (let i = next_id twID (t_towers d)
               in (d\<lparr>t_towers := t_towers d @ [place_tower i t]\<rparr>, Inr (i, True)))) d)"

record tower_health =
  thStatus :: tower_status
  thDetail :: string
  thBlobTypes :: string
  thLastOKAt :: int
  thExpiryHeight :: "int option"
  thSlotsLeft :: "int option"

definition SetTowerStatus :: "int \<Rightarrow> tower_health \<Rightarrow> int \<Rightarrow> 'x tower_tables_scheme \<Rightarrow> 'x tower_tables_scheme \<times> (store_err + unit)" where
  "SetTowerStatus i h now d =
     (if \<not> TowerStatus_Valid (thStatus h) then (d, Inl StoreInvalid)
      else
        db_call (\<lambda>d.
          let lastOK = (if thStatus h = TowerReachable then Some now
                        else if thLastOKAt h = 0 then None else Some (thLastOKAt h))
          in if list_ex (\<lambda>r. twID r = i) (t_towers d)
             then (d\<lparr>t_towers := update_row twID i
                      (\<lambda>r. r\<lparr>twStatus := thStatus h, twStatusDetail := thDetail h, twBlobTypes := thBlobTypes h,
                            twLastOKAt := (case lastOK of Some at \<Rightarrow> at | None \<Rightarrow> twLastOKAt r),
                            twExpiryHeight := thExpiryHeight h, twSlotsLeft := thSlotsLeft h, twUpdatedAt := now\<rparr>)
                      (t_towers d)\<rparr>, Inr ())
             else (d, Inl StoreNotFound)) d)"

record tower_filter =
  tfKind :: tower_kind
  tfManagedOnly :: bool

definition all_towers :: tower_filter where
  "all_towers = \<lparr>tfKind = TowerKindOther '''', tfManagedOnly = False\<rparr>"

definition ListTowers :: "tower_filter \<Rightarrow> 'x tower_tables_scheme \<Rightarrow> 'x tower_tables_scheme \<times> (store_err + tower list)" where
  "ListTowers f = db_read (\<lambda>d. Inr
     (filter (\<lambda>r. (tfKind f = TowerKindOther '''' \<or> twKind r = tfKind f) \<and> (\<not> tfManagedOnly f \<or> twManaged r)) (t_towers d)))"

section \<open>What they protect\<close>

definition coverage_key :: "coverage \<Rightarrow> int \<times> int" where
  "coverage_key c = (cvChannelID c, cvTowerID c)"

definition UpsertCoverage :: "coverage \<Rightarrow> 'x tower_tables_scheme \<Rightarrow> 'x tower_tables_scheme \<times> (store_err + unit)" where
  "UpsertCoverage c d =
     (if cvReason c = '''' then (d, Inl StoreInvalid)
      else
        db_call (\<lambda>d.
          if \<not> channel_exists (cvChannelID c) d \<or> \<not> list_ex (\<lambda>t. twID t = cvTowerID c) (t_towers d)
          then (d, Inl StoreConstraint)
          else if list_ex (\<lambda>r. coverage_key r = coverage_key c) (t_coverage d)
          then (d\<lparr>t_coverage := map (\<lambda>r. if coverage_key r = coverage_key c then c else r) (t_coverage d)\<rparr>, Inr ())
          else (d\<lparr>t_coverage := t_coverage d @ [c]\<rparr>, Inr ())) d)"

record coverage_filter =
  cgChannelID :: int
  cgTowerID :: int
  cgUncoverableOnly :: bool

definition ListCoverage :: "coverage_filter \<Rightarrow> 'x tower_tables_scheme \<Rightarrow> 'x tower_tables_scheme \<times> (store_err + coverage list)" where
  "ListCoverage f = db_read (\<lambda>d. Inr
     (sort_key cvChannelID (sort_key cvTowerID
       (filter (\<lambda>r. (cgChannelID f = 0 \<or> cvChannelID r = cgChannelID f)
          \<and> (cgTowerID f = 0 \<or> cvTowerID r = cgTowerID f)
          \<and> (\<not> cgUncoverableOnly f \<or> \<not> cvCoverable r)) (t_coverage d)))))"

section \<open>What they keep\<close>

definition towers_ok :: "'x tower_tables_scheme \<Rightarrow> bool" where
  "towers_ok d \<longleftrightarrow> table_ok twID twPubkey (t_towers d)
     \<and> distinct (map coverage_key (t_coverage d))
     \<and> (\<forall>c \<in> set (t_coverage d). cvReason c \<noteq> '''' \<and> cvTowerID c \<in> twID ` set (t_towers d))"

lemma towers_ok_faults [simp]: "towers_ok (d\<lparr>faults := fs\<rparr>) = towers_ok d"
  by (simp add: towers_ok_def)

text \<open>What only a monitor learns of a tower.\<close>

definition evidence :: "tower \<Rightarrow> tower_status \<times> string \<times> int \<times> string \<times> int option \<times> int option" where
  "evidence t = (twStatus t, twStatusDetail t, twLastOKAt t, twBlobTypes t, twExpiryHeight t, twSlotsLeft t)"

definition unproven :: "tower_status \<times> string \<times> int \<times> string \<times> int option \<times> int option" where
  "unproven = (TowerStatusUnknown, '''', 0, '''', None, None)"

definition towers_step :: "'x tower_tables_scheme \<Rightarrow> 'x tower_tables_scheme \<Rightarrow> bool" where
  "towers_step d d' \<longleftrightarrow> (towers_ok d \<longrightarrow> towers_ok d' \<and> t_coverage d' = t_coverage d
     \<and> (\<forall>t \<in> set (t_towers d). \<exists>t' \<in> set (t_towers d'). twPubkey t' = twPubkey t \<and> twID t' = twID t \<and> evidence t' = evidence t)
     \<and> (\<forall>t' \<in> set (t_towers d'). evidence t' = unproven \<or> evidence t' \<in> evidence ` set (t_towers d)))"

lemma towers_step_faults [simp]: "towers_step d (d\<lparr>faults := fs\<rparr>)"
  by (auto simp: towers_step_def)

lemma towers_step_from_faults: "towers_step (d\<lparr>faults := fs\<rparr>) d' \<longleftrightarrow> towers_step d d'"
  by (simp add: towers_step_def)

lemma insert_tower_step:
  assumes "find (\<lambda>r. twPubkey r = twPubkey t) (t_towers d) = None"
  shows "towers_step d (d\<lparr>t_towers := t_towers d @ [place_tower (next_id twID (t_towers d)) t]\<rparr>)"
proof -
  have "twPubkey t \<notin> twPubkey ` set (t_towers d)" using assms by (auto simp: find_None_iff)
  moreover have "evidence (place_tower i t) = unproven" for i by (simp add: evidence_def unproven_def place_tower_def)
  ultimately show ?thesis
    using towers.insert_ok [of "t_towers d" t]
    by (auto simp: towers_step_def towers_ok_def intro: imageI)
qed

lemma update_tower_step:
  assumes "\<And>x. twID (f x) = twID x \<and> twPubkey (f x) = twPubkey x \<and> evidence (f x) = evidence x"
  shows "towers_step d (d\<lparr>t_towers := update_row twID i f (t_towers d)\<rparr>)"
proof -
  let ?g = "\<lambda>r. if twID r = i then f r else r"
  have g: "twID (?g x) = twID x" "twPubkey (?g x) = twPubkey x" "evidence (?g x) = evidence x" for x
    using assms by simp_all
  have s: "set (update_row twID i f (t_towers d)) = ?g ` set (t_towers d)" by (rule set_update_row)
  have ids: "twID ` ?g ` set (t_towers d) = twID ` set (t_towers d)"
    unfolding image_image g(1) ..
  have "table_ok twID twPubkey (t_towers d) \<Longrightarrow> table_ok twID twPubkey (update_row twID i f (t_towers d))"
    using assms by (intro towers.update_ok) auto
  moreover have "\<exists>t' \<in> ?g ` set (t_towers d). twPubkey t' = twPubkey t \<and> twID t' = twID t \<and> evidence t' = evidence t"
    if "t \<in> set (t_towers d)" for t
    using g that by (intro bexI [of _ "?g t"]) auto
  moreover have "evidence t' \<in> evidence ` set (t_towers d)" if "t' \<in> ?g ` set (t_towers d)" for t'
    using g(3) that by (auto simp del: if_image_distrib)
  ultimately show ?thesis
    unfolding towers_step_def towers_ok_def by (simp add: s ids del: if_image_distrib)
qed

text \<open>
  Reading the configuration again cannot declare a watchtower healthy. Whatever is handed to
  the upsert, every recorded tower keeps its status, its detail, when it last answered and its
  subscription, a tower seen for the first time starts with none of them, and what is recorded of
  the channels is untouched; the tables stay keyed and referentially sound.
\<close>

theorem configuration_is_no_evidence: "towers_step d (fst (UpsertTower t d))"
proof -
  obtain d' r where call: "UpsertTower t d = (d', r)" by fastforce
  show ?thesis
  proof (cases "twPubkey t = '''' \<or> \<not> TowerKind_Valid (twKind t)")
    case True
    then show ?thesis by (auto simp: UpsertTower_def towers_step_def)
  next
    case False
    with call have "db_call (\<lambda>d.
          case find (\<lambda>r. twPubkey r = twPubkey t) (t_towers d) of
            Some r \<Rightarrow>
              if twKind r = twKind t \<and> twURI r = twURI t \<and> twManaged r = twManaged t then (d, Inr (twID r, False))
              else
                (d\<lparr>t_towers := update_row twID (twID r)
                     (\<lambda>x. x\<lparr>twKind := twKind t, twURI := twURI t, twManaged := twManaged t, twUpdatedAt := twUpdatedAt t\<rparr>)
                     (t_towers d)\<rparr>, Inr (twID r, True))
          | None \<Rightarrow>
              (let i = next_id twID (t_towers d)
               in (d\<lparr>t_towers := t_towers d @ [place_tower i t]\<rparr>, Inr (i, True)))) d = (d', r)"
      by (simp add: UpsertTower_def)
    then have "towers_step d d'"
    proof (cases rule: db_call_cases)
      case (failed fs)
      then show ?thesis by simp
    next
      case (ran fs)
      let ?d = "d\<lparr>faults := fs\<rparr>"
      have "towers_step ?d d'"
      proof (cases "find (\<lambda>r. twPubkey r = twPubkey t) (t_towers ?d)")
        case None
        with ran have "d' = ?d\<lparr>t_towers := t_towers ?d @ [place_tower (next_id twID (t_towers ?d)) t]\<rparr>" by (auto simp: Let_def)
        then show ?thesis using insert_tower_step [OF None] by simp
      next
        case (Some x)
        show ?thesis
        proof (cases "d' = ?d")
          case True
          then show ?thesis by (auto simp: towers_step_def)
        next
          case False
          with ran Some have "d' = ?d\<lparr>t_towers := update_row twID (twID x)
              (\<lambda>x. x\<lparr>twKind := twKind t, twURI := twURI t, twManaged := twManaged t, twUpdatedAt := twUpdatedAt t\<rparr>) (t_towers ?d)\<rparr>"
            by (auto split: if_splits)
          then show ?thesis by (simp only:) (rule update_tower_step, simp add: evidence_def)
        qed
      qed
      then show ?thesis unfolding towers_step_from_faults .
    qed
    with call show ?thesis by simp
  qed
qed

text \<open>
  When a tower last answered is now if it answers, and otherwise what the reading says, however
  far back that is; only a reading without a time leaves the recorded one.
\<close>

theorem last_answer_recorded:
  assumes "table_ok twID twPubkey (t_towers d)" "t \<in> set (t_towers d)" "faults d = []" "TowerStatus_Valid (thStatus h)"
  shows "\<exists>t' \<in> set (t_towers (fst (SetTowerStatus (twID t) h now d))).
    twID t' = twID t \<and> twStatus t' = thStatus h
    \<and> twLastOKAt t' = (if thStatus h = TowerReachable then now else if thLastOKAt h = 0 then twLastOKAt t else thLastOKAt h)"
proof -
  have "list_ex (\<lambda>r. twID r = twID t) (t_towers d)" using assms(2) by (auto simp: list_ex_iff)
  then show ?thesis
    using assms by (auto simp: SetTowerStatus_def db_call_def Let_def set_update_row simp del: if_image_distrib
        intro!: image_eqI [of _ _ t] bexI [of _ "(if twID t = twID t then _ else _)"])
qed

end
