(* ===== verification/Alert_Policy.thy ===== *)
theory Alert_Policy
  imports Store_Towers Deadline_Engine Words
begin

text \<open>
  What an event is worth telling the user, and what a transport is told of it:
  \<open>internal/alert/policy.go\<close> and \<open>internal/alert/tower.go\<close>, with the event types of
  \<open>internal/bus/events.go\<close> the mapping reads. An event carries its enumerations as the types of the
  store; the texts are the ones of the code, as lists of bytes.
\<close>

section \<open>Events\<close>

datatype concern =
    ConcernClientOff | ConcernPluginMissing | ConcernNotRegistered | ConcernChannelUncovered
  | ConcernBackupsStalled | ConcernSubscriptionExpiring | ConcernSlotsLow | ConcernAppointmentsUndelivered
  | ConcernAppointmentsInvalid | ConcernTowerMisbehaving | ConcernOursNotRegistered | ConcernRegistrationStale
  | ConcernUnreachableFromNode | ConcernExternalOnly | ConcernFeeRateFixed | ConcernSessionsExhausted
  | ConcernDiskFilling | ConcernOther string

fun concern_text :: "concern \<Rightarrow> string" where
  "concern_text ConcernClientOff = ''tower.client_off''"
| "concern_text ConcernPluginMissing = ''tower.plugin_missing''"
| "concern_text ConcernNotRegistered = ''tower.not_registered''"
| "concern_text ConcernChannelUncovered = ''tower.channel_uncovered''"
| "concern_text ConcernBackupsStalled = ''tower.backups_stalled''"
| "concern_text ConcernSubscriptionExpiring = ''tower.subscription_expiring''"
| "concern_text ConcernSlotsLow = ''tower.slots_low''"
| "concern_text ConcernAppointmentsUndelivered = ''tower.appointments_undelivered''"
| "concern_text ConcernAppointmentsInvalid = ''tower.appointments_invalid''"
| "concern_text ConcernTowerMisbehaving = ''tower.misbehaving''"
| "concern_text ConcernOursNotRegistered = ''tower.ours_not_registered''"
| "concern_text ConcernRegistrationStale = ''tower.registration_stale''"
| "concern_text ConcernUnreachableFromNode = ''tower.unreachable_from_node''"
| "concern_text ConcernExternalOnly = ''tower.external_only''"
| "concern_text ConcernFeeRateFixed = ''tower.fee_rate_fixed''"
| "concern_text ConcernSessionsExhausted = ''tower.sessions_exhausted''"
| "concern_text ConcernDiskFilling = ''tower.disk_filling''"
| "concern_text (ConcernOther s) = s"

text \<open>
  The three events of the deadline engine are its own; \<open>ESpendReorgedOut\<close> carries the spend. The
  empty string of a status never observed is \<open>TowerStatusOther ''''\<close>.
\<close>

record tower_health_changed =
  hcTowerID :: int
  hcStatus :: tower_status
  hcDetail :: string
  hcPrevious :: tower_status

record tower_concern =
  tcTowerID :: int
  tcConcern :: concern
  tcChannelID :: int
  tcMessage :: string
  tcCleared :: bool

datatype bus_event =
    ESplitStateChanged split_state split_state
  | ESplitSuspected bool int string string
  | EViewHealthChanged branch health
  | EFundingSpent funding_spent
  | EMempoolSighting int spend_shape
  | ESpendReorgedOut int
  | EDeadline dl_event
  | ETowerHealthChanged tower_health_changed
  | ETowerConcern tower_concern
  | EOther

section \<open>Kinds, tiers and payloads\<close>

definition KindWatchingStarted :: string where "KindWatchingStarted = ''watching_started''"
definition KindWatchingStopped :: string where "KindWatchingStopped = ''watching_stopped''"
definition KindSplitSuspected :: string where "KindSplitSuspected = ''split_suspected''"
definition KindSplitDetected :: string where "KindSplitDetected = ''split_detected''"
definition KindSplitResolving :: string where "KindSplitResolving = ''split_resolving''"
definition KindSplitResolved :: string where "KindSplitResolved = ''split_resolved''"
definition KindViewDegraded :: string where "KindViewDegraded = ''view_degraded''"
definition KindViewWrongBranch :: string where "KindViewWrongBranch = ''view_wrong_branch''"
definition KindViewRecovered :: string where "KindViewRecovered = ''view_recovered''"
definition KindChannelSpent :: string where "KindChannelSpent = ''channel_spent''"
definition KindChannelSpentSoon :: string where "KindChannelSpentSoon = ''channel_spent_unconfirmed''"
definition KindSpendDisappeared :: string where "KindSpendDisappeared = ''spend_disappeared''"
definition KindDeadlineWarning :: string where "KindDeadlineWarning = ''deadline_warning''"
definition KindDeadlineResolved :: string where "KindDeadlineResolved = ''deadline_resolved''"
definition KindLoss :: string where "KindLoss = ''loss''"
definition KindClosedOnlyOnYours :: string where "KindClosedOnlyOnYours = ''closed_only_on_your_chain''"
definition KindTowerDown :: string where "KindTowerDown = ''tower_down''"
definition KindTowerRecovered :: string where "KindTowerRecovered = ''tower_recovered''"
definition KindTowerNotProtecting :: string where "KindTowerNotProtecting = ''tower_not_protecting''"
definition KindTowerProtecting :: string where "KindTowerProtecting = ''tower_protecting''"
definition KindTowerMisbehaving :: string where "KindTowerMisbehaving = ''tower_misbehaving''"
definition KindTowerSubscription :: string where "KindTowerSubscription = ''tower_subscription''"

lemmas kinds = KindWatchingStarted_def KindWatchingStopped_def KindSplitSuspected_def KindSplitDetected_def
  KindSplitResolving_def KindSplitResolved_def KindViewDegraded_def KindViewWrongBranch_def KindViewRecovered_def
  KindChannelSpent_def KindChannelSpentSoon_def KindSpendDisappeared_def KindDeadlineWarning_def
  KindDeadlineResolved_def KindLoss_def KindClosedOnlyOnYours_def KindTowerDown_def KindTowerRecovered_def
  KindTowerNotProtecting_def KindTowerProtecting_def KindTowerMisbehaving_def KindTowerSubscription_def

record candidate =
  cdTier :: tier
  cdKind :: string
  cdDedupKey :: string
  cdSubject :: string
  cdMessage :: string
  cdCloses :: "string list"
  cdOnlyIfStanding :: bool

text \<open>A candidate with the fields the code leaves out at their zero values.\<close>

definition news :: "tier \<Rightarrow> string \<Rightarrow> string \<Rightarrow> string \<Rightarrow> string \<Rightarrow> candidate" where
  "news tier kind key subject message =
     \<lparr>cdTier = tier, cdKind = kind, cdDedupKey = key, cdSubject = subject, cdMessage = message, cdCloses = [],
      cdOnlyIfStanding = False\<rparr>"

datatype min_tier = MinTierInfo | MinTierWarning | MinTierCritical | MinTierOther string

fun tierRank :: "tier \<Rightarrow> int" where
  "tierRank TierInfo = 1"
| "tierRank TierResolved = 1"
| "tierRank TierWarning = 2"
| "tierRank TierCritical = 3"
| "tierRank TierLoss = 3"
| "tierRank (TierOther _) = 3"

fun minTierRank :: "min_tier \<Rightarrow> int" where
  "minTierRank MinTierInfo = 1"
| "minTierRank MinTierWarning = 2"
| "minTierRank MinTierCritical = 3"
| "minTierRank (MinTierOther _) = 1"

definition Deliverable :: "tier \<Rightarrow> min_tier \<Rightarrow> bool" where
  "Deliverable t threshold \<longleftrightarrow> minTierRank threshold \<le> tierRank t"

definition Urgent :: "tier \<Rightarrow> bool" where
  "Urgent t \<longleftrightarrow> minTierRank MinTierCritical \<le> tierRank t"

definition headlineUrgent :: string where "headlineUrgent = ''Forktower: urgent''"
definition headlineAttention :: string where "headlineAttention = ''Forktower: attention needed''"
definition headlineRoutine :: string where "headlineRoutine = ''Forktower: an update''"

definition Headline :: "tier \<Rightarrow> string" where
  "Headline t = (if tierRank t = 3 then headlineUrgent else if tierRank t = 2 then headlineAttention else headlineRoutine)"

definition ContentFreeMessage :: string where
  "ContentFreeMessage = ''Open your Forktower dashboard to see what happened.''"

fun tier_text :: "tier \<Rightarrow> string" where
  "tier_text TierInfo = ''info''"
| "tier_text TierWarning = ''warning''"
| "tier_text TierCritical = ''critical''"
| "tier_text TierResolved = ''resolved''"
| "tier_text TierLoss = ''loss''"
| "tier_text (TierOther s) = s"

record payload =
  plVersion :: string
  plTier :: string
  plKind :: string
  plSubject :: string
  plMessage :: string

definition PayloadVersion :: string where "PayloadVersion = ''v1''"

definition PayloadFor :: "alert \<Rightarrow> bool \<Rightarrow> payload" where
  "PayloadFor a includeDetail =
     (let p = \<lparr>plVersion = PayloadVersion, plTier = tier_text (alTier a), plKind = alKind a, plSubject = '''',
               plMessage = ContentFreeMessage\<rparr>
      in if includeDetail then p\<lparr>plSubject := alSubject a, plMessage := alMessage a\<rparr> else p)"

section \<open>From an event to an alert\<close>

definition emdash :: string where "emdash = [CHR 0xE2, CHR 0x80, CHR 0x94]"

definition keyed :: "string \<Rightarrow> int \<Rightarrow> string" where
  "keyed kind i = kind @ '':'' @ itoa i"

definition shortHash :: "string \<Rightarrow> string" where
  "shortHash h = (if length h \<le> 12 then h else ellipsis @ drop (length h - 12) h)"

definition mapSplitSuspected :: "bool \<Rightarrow> int \<Rightarrow> string \<Rightarrow> string \<Rightarrow> candidate option" where
  "mapSplitSuspected suspected height sfHash sqHash =
     (if \<not> suspected then
        Some ((news TierResolved KindSplitResolved (KindSplitResolved @ '':suspected'') ''''
          ''The chains agree again. What looked like it might be a split has passed.'')
            \<lparr>cdCloses := [KindSplitSuspected]\<rparr>)
      else
        (let msg = (if 0 < height
           then ''The chains may be splitting: at block '' @ itoa height @ '' your node has '' @ shortHash sfHash
             @ '' and the other chain has '' @ shortHash sqHash @ ''. Forktower is watching both. Nothing to do yet.''
           else ''The chains may be splitting: your node and the rest of the network are following different blocks. Forktower is watching both. Nothing to do yet.'')
         in Some (news TierWarning KindSplitSuspected KindSplitSuspected '''' msg)))"

definition mapSplitState :: "split_state \<Rightarrow> split_state \<Rightarrow> candidate option" where
  "mapSplitState old new =
     (case new of
        StateArmed \<Rightarrow>
          if old \<noteq> StateUnarmed then None
          else Some (news TierInfo KindWatchingStarted KindWatchingStarted '''' ''Forktower is now watching both chains.'')
      | StateUnarmed \<Rightarrow>
          Some (news TierWarning KindWatchingStopped KindWatchingStopped ''''
            ''Forktower has stopped watching. Open the dashboard to see why.'')
      | StateSplit \<Rightarrow>
          Some ((news TierWarning KindSplitDetected KindSplitDetected ''''
            ''The chains have separated: your node's chain and the other chain no longer agree. Open Forktower to see what this means for you.'')
              \<lparr>cdCloses := [KindSplitSuspected]\<rparr>)
      | StateResolving \<Rightarrow>
          Some (news TierInfo KindSplitResolving KindSplitResolving ''''
            (''The split may be ending '' @ emdash @ '' one of the chains has stopped producing blocks.''))
      | StateResolvedSFWon \<Rightarrow>
          Some ((news TierResolved KindSplitResolved KindSplitResolved '''' ''The split has ended.'')
              \<lparr>cdCloses := [KindSplitDetected, KindSplitResolving, KindSplitSuspected]\<rparr>)
      | StateResolvedSQWon \<Rightarrow>
          Some ((news TierResolved KindSplitResolved KindSplitResolved '''' ''The split has ended.'')
              \<lparr>cdCloses := [KindSplitDetected, KindSplitResolving, KindSplitSuspected]\<rparr>)
      | StateOther _ \<Rightarrow> None)"

definition viewLabel :: "branch \<Rightarrow> string" where
  "viewLabel b = Chain (branch_text b)"

definition view_key :: "string \<Rightarrow> branch \<Rightarrow> string" where
  "view_key kind view = kind @ '':'' @ branch_text view"

definition view_degraded :: "branch \<Rightarrow> candidate" where
  "view_degraded view = news TierWarning KindViewDegraded (view_key KindViewDegraded view) (viewLabel view)
     (''Forktower is having trouble seeing '' @ viewLabel view @ ''.'')"

definition mapViewHealth :: "branch \<Rightarrow> health \<Rightarrow> candidate option" where
  "mapViewHealth view new =
     (case new of
        HealthOK \<Rightarrow>
          Some ((news TierResolved KindViewRecovered (view_key KindViewRecovered view) (viewLabel view)
            (''Forktower can see '' @ viewLabel view @ '' again.''))
              \<lparr>cdCloses := [view_key KindViewWrongBranch view, view_key KindViewDegraded view]\<rparr>)
      | HealthWrongBranch \<Rightarrow>
          Some (news TierCritical KindViewWrongBranch (view_key KindViewWrongBranch view) (viewLabel view)
            ''Setup problem: Forktower paused watching to be safe, because it is not looking at the chain it should be. Open Forktower to fix this.'')
      | HealthSyncing \<Rightarrow> Some (view_degraded view)
      | HealthDegraded \<Rightarrow> Some (view_degraded view)
      | HealthEclipseSuspect \<Rightarrow> Some (view_degraded view)
      | HealthDown \<Rightarrow> Some (view_degraded view)
      | HealthOther _ \<Rightarrow> None)"

definition strange_spend :: "int \<Rightarrow> candidate" where
  "strange_spend ch = news TierCritical KindChannelSpent (keyed KindChannelSpent ch)
     ''One of your channels was closed on the other chain''
     ''One of your channels was closed on the chain your node does not follow, in a way Forktower does not recognise. Open Forktower now.''"

definition others_close :: "int \<Rightarrow> candidate" where
  "others_close ch = news TierCritical KindChannelSpent (keyed KindChannelSpent ch)
     ''One of your channels is being closed on the other chain''
     ''Somebody has published a channel close on the chain your node does not follow, and Forktower cannot tell whether it is an old one. There is a time limit on responding. Open Forktower now.''"

definition mapFundingSpent :: "funding_spent \<Rightarrow> candidate option" where
  "mapFundingSpent ev =
     (if fsStatus ev \<noteq> SpendConfirmed then None
      else
        (case fsShape ev of
           ShapeMutualClose \<Rightarrow>
             Some (news TierInfo KindChannelSpent (keyed KindChannelSpent (fsChannelID ev))
               ''A channel was closed on the other chain''
               ''One of your channels was closed by agreement on the other chain. Nothing needs doing.'')
         | ShapeCommitmentOurs \<Rightarrow>
             Some (news TierWarning KindChannelSpent (keyed KindChannelSpent (fsChannelID ev))
               ''Your own channel close reached the other chain''
               ''A channel close your own node made has confirmed on the other chain too. Open Forktower to see when those funds can be claimed.'')
         | ShapeCommitmentUnknown \<Rightarrow> Some (others_close (fsChannelID ev))
         | ShapeCommitmentRevoked \<Rightarrow> Some (others_close (fsChannelID ev))
         | ShapeJustice \<Rightarrow> Some (strange_spend (fsChannelID ev))
         | ShapeDelayedSweep \<Rightarrow> Some (strange_spend (fsChannelID ev))
         | ShapeHTLCClaim \<Rightarrow> Some (strange_spend (fsChannelID ev))
         | ShapeUnknown \<Rightarrow> Some (strange_spend (fsChannelID ev))
         | ShapeOther _ \<Rightarrow> None))"

definition mapMempoolSighting :: "int \<Rightarrow> spend_shape \<Rightarrow> candidate option" where
  "mapMempoolSighting ch shape =
     (if shape = ShapeMutualClose then None
      else Some (news TierCritical KindChannelSpentSoon (keyed KindChannelSpentSoon ch)
        ''A channel close is about to land on the other chain''
        ''Forktower has seen a channel close waiting to be mined on the chain your node does not follow. It has not confirmed yet, which means you have a little more time than you otherwise would. Open Forktower now.''))"

definition mapSpendReorgedOut :: "int \<Rightarrow> candidate option" where
  "mapSpendReorgedOut spend =
     Some (news TierWarning KindSpendDisappeared (keyed KindSpendDisappeared spend)
       ''A channel close has left the other chain''
       (''A close Forktower was watching is not in a block on the other chain any more. That does not mean the danger has passed ''
          @ emdash @ '' it may be replaced by another, or come back. Forktower is still watching. Open it to see where things stand.''))"

definition mapDeadlineEscalated :: "int \<Rightarrow> int \<Rightarrow> int \<Rightarrow> string \<Rightarrow> candidate option" where
  "mapDeadlineEscalated deadline level remaining estimate =
     (let key = KindDeadlineWarning @ '':'' @ itoa deadline @ '':'' @ itoa level;
          timing = (if estimate \<noteq> '''' then itoa remaining @ '' blocks left, which is '' @ estimate
                      @ '' at the rate that chain is currently going''
                    else itoa remaining @ '' blocks left'');
          (subject, message) =
            (if remaining = 0
             then (''The time on one of your channels has run out'',
                   ''The window to respond to a channel close on the other chain has closed. Open Forktower.'')
             else (''Time is running out on one of your channels'',
                   ''Forktower is counting down on a channel close on the other chain: '' @ timing @ ''. Open Forktower now.''))
      in Some (news TierCritical KindDeadlineWarning key subject message))"

definition mapDeadlineResolved :: "int \<Rightarrow> string \<Rightarrow> candidate option" where
  "mapDeadlineResolved deadline byTxid =
     Some (news TierResolved KindDeadlineResolved (keyed KindDeadlineResolved deadline) ''A countdown has stopped''
       (if byTxid \<noteq> ''''
        then ''A countdown on one of your channels was answered before it ran out. Open Forktower to see what happened.''
        else ''A countdown on one of your channels has stopped: what started it is no longer on the other chain.''))"

definition mapExpiredLoss :: "int \<Rightarrow> candidate option" where
  "mapExpiredLoss deadline =
     Some (news TierLoss KindLoss (keyed KindLoss deadline) ''A channel was lost on the other chain''
       ''The window to respond to a channel close on the other chain has passed with nothing having answered it. Open Forktower for the details, which you will want if you are reporting this to anyone.'')"

definition ClosedOnlyOnYourChain :: "int \<Rightarrow> candidate" where
  "ClosedOnlyOnYourChain ch =
     news TierWarning KindClosedOnlyOnYours (keyed KindClosedOnlyOnYours ch)
       ''A closed channel is still open on the other chain''
       (''One of your channels is closed on your own chain, but that close has not happened on the other one '' @ emdash
          @ '' so the old commitments your counterparty holds can still be spent there. Open Forktower to see what can be done.'')"

section \<open>Watchtowers\<close>

definition trim_dots :: "string \<Rightarrow> string" where
  "trim_dots s = rev (dropWhile (\<lambda>c. c = CHR ''.'') (rev s))"

definition quote_mark :: char where "quote_mark = CHR 0x22"

definition tidyDetail :: "string \<Rightarrow> string" where
  "tidyDetail detail =
     (let trimmed = trim_dots (trim_space detail); label = [quote_mark] @ ''message'' @ [quote_mark] @ '':''
      in case str_index trimmed label of
           None \<Rightarrow> trimmed
         | Some begins \<Rightarrow>
             (let rest = drop (begins + length label) trimmed
              in case str_index rest [quote_mark] of
                   None \<Rightarrow> trimmed
                 | Some opens \<Rightarrow>
                     (case str_index (drop (opens + 1) rest) [quote_mark] of
                        None \<Rightarrow> trimmed
                      | Some closing \<Rightarrow>
                          (let msg = trim_space (take closing (drop (opens + 1) rest))
                           in if 0 < closing \<and> msg \<noteq> '''' then trim_dots msg else trimmed))))"

definition detailSentence :: "string \<Rightarrow> string" where
  "detailSentence detail = (if detail = '''' then '''' else ''What Forktower saw: '' @ tidyDetail detail @ ''.'')"

definition neverReachable :: "tower_status \<Rightarrow> bool" where
  "neverReachable previous \<longleftrightarrow> previous = TowerStatusOther '''' \<or> previous = TowerStatusUnknown"

definition mapTowerHealth :: "tower_health_changed \<Rightarrow> candidate option" where
  "mapTowerHealth ev =
     (let key = keyed KindTowerDown (hcTowerID ev)
      in case hcStatus ev of
           TowerReachable \<Rightarrow>
             if hcPrevious ev = TowerStatusOther '''' \<or> hcPrevious ev = TowerStatusUnknown then None
             else Some (news TierResolved KindTowerRecovered key ''Your watchtower is answering again''
               (''The watchtower that would answer a breach on '' @ OtherChain @ '' is working again.''))
         | TowerUnreachable \<Rightarrow>
             if neverReachable (hcPrevious ev) then None
             else Some (news TierWarning KindTowerDown key ''Your watchtower is not answering''
               (''The watchtower that would punish a broken promise on '' @ OtherChain
                  @ '' has stopped answering. Until it is back, a channel closed against you there would not be answered. ''
                  @ detailSentence (hcDetail ev)))
         | TowerSubscriptionError \<Rightarrow>
             Some (news TierWarning KindTowerSubscription (keyed KindTowerSubscription (hcTowerID ev))
               ''Your watchtower has stopped accepting backups''
               ''The subscription with your watchtower has run out, so it is no longer taking new channel states. The states it already has are still protected. Register with it again to start a new subscription.'')
         | TowerMisbehaving \<Rightarrow>
             Some (news TierCritical KindTowerMisbehaving (keyed KindTowerMisbehaving (hcTowerID ev))
               ''Your watchtower is not behaving as it should''
               ''Your watchtower returned a receipt whose signature does not check out. That is proof rather than suspicion, and it means this tower cannot be relied on to answer a breach. Register with another one.'')
         | TowerTemporarilyUnreachable \<Rightarrow>
             if hcPrevious ev = TowerUnreachable
             then Some (news TierResolved KindTowerRecovered key ''Your watchtower is answering again''
               (''It is running and answering. It cannot see '' @ OtherChain @ '' yet, so it could not act on a breach there ''
                  @ emdash @ '' that finishes on its own. '' @ detailSentence (hcDetail ev)))
             else None
         | TowerStatusUnknown \<Rightarrow> None
         | TowerStatusOther _ \<Rightarrow> None)"

definition not_protecting :: "string \<Rightarrow> string" where
  "not_protecting what = KindTowerNotProtecting @ '':'' @ what"

definition tower_gap :: "tier \<Rightarrow> string \<Rightarrow> int \<Rightarrow> string \<Rightarrow> string \<Rightarrow> candidate option" where
  "tower_gap tier what i subject message =
     Some (news tier KindTowerNotProtecting (not_protecting (what @ '':'' @ itoa i)) subject message)"

definition gap_closed :: "string \<Rightarrow> string \<Rightarrow> string \<Rightarrow> candidate" where
  "gap_closed what subject message = news TierResolved KindTowerProtecting (not_protecting what) subject message"

definition clearedConcern :: "tower_concern \<Rightarrow> candidate option" where
  "clearedConcern ev =
     (let tid = '':'' @ itoa (tcTowerID ev);
          client = gap_closed (''client'' @ tid) ''Your node is backing up to a watchtower''
            ''The watchtower client on your Lightning node is on, and channel states are reaching the tower. That was the one step Forktower could not take for you.'';
          reached = (gap_closed (''reachable'' @ tid) ''Your node is reaching the watchtower again''
            ''Your node and the tower here are talking again, and channel states are reaching it.'')
              \<lparr>cdOnlyIfStanding := True,
               cdCloses := [not_protecting (''stale-registration'' @ tid), not_protecting (''unreachable'' @ tid)]\<rparr>
      in case tcConcern ev of
           ConcernClientOff \<Rightarrow> Some client
         | ConcernPluginMissing \<Rightarrow> Some client
         | ConcernNotRegistered \<Rightarrow>
             Some (gap_closed (''unregistered'' @ tid) ''Your watchtower has your channels registered''
               ''Your node has registered with the tower and is sending it channel states.'')
         | ConcernOursNotRegistered \<Rightarrow>
             Some (gap_closed ''ours-not-registered'' ''Forktower's watchtower is registered with your node''
               (''Your node is backing up to the tower here, which watches '' @ OtherChain
                  @ ''. That was the one step Forktower could not take for you.''))
         | ConcernRegistrationStale \<Rightarrow> Some reached
         | ConcernUnreachableFromNode \<Rightarrow> Some reached
         | _ \<Rightarrow> None)"

definition raisedConcern :: "tower_concern \<Rightarrow> candidate option" where
  "raisedConcern ev =
     (let i = tcTowerID ev; msg = tcMessage ev;
          subscription = (\<lambda>what subject. Some (news TierWarning KindTowerSubscription
            (KindTowerSubscription @ '':'' @ what @ '':'' @ itoa i) subject msg));
          client = tower_gap TierWarning ''client'' i ''Nothing is being backed up to a watchtower'' msg;
          undelivered = tower_gap TierWarning ''undelivered'' i ''Some channel updates have not reached your watchtower'' msg;
          aside = tower_gap TierInfo (concern_text (tcConcern ev)) i ''Something worth knowing about your watchtower'' msg
      in case tcConcern ev of
           ConcernClientOff \<Rightarrow> client
         | ConcernPluginMissing \<Rightarrow> client
         | ConcernNotRegistered \<Rightarrow>
             tower_gap TierWarning ''unregistered'' i ''Your watchtower has nothing registered with it''
               (msg @ '' Open Forktower for the steps.'')
         | ConcernChannelUncovered \<Rightarrow>
             tower_gap TierWarning ''channel'' (tcChannelID ev) ''One of your channels is not protected by your watchtower'' msg
         | ConcernBackupsStalled \<Rightarrow>
             tower_gap TierWarning ''stalled'' (tcChannelID ev) ''Your watchtower has stopped receiving backups'' msg
         | ConcernSubscriptionExpiring \<Rightarrow> subscription ''expiry'' ''Your watchtower subscription is running out''
         | ConcernSlotsLow \<Rightarrow> subscription ''slots'' ''Your watchtower is running out of room''
         | ConcernAppointmentsUndelivered \<Rightarrow> undelivered
         | ConcernAppointmentsInvalid \<Rightarrow> undelivered
         | ConcernTowerMisbehaving \<Rightarrow>
             Some (news TierCritical KindTowerMisbehaving (keyed KindTowerMisbehaving i)
               ''Your watchtower is not behaving as it should'' msg)
         | ConcernOursNotRegistered \<Rightarrow>
             Some (news TierWarning KindTowerNotProtecting (not_protecting ''ours-not-registered'')
               ''Forktower's watchtower is not registered with your node'' msg)
         | ConcernRegistrationStale \<Rightarrow>
             tower_gap TierWarning ''stale-registration'' i
               (''Your watchtower moved '' @ emdash @ '' your node needs its new address'') msg
         | ConcernUnreachableFromNode \<Rightarrow>
             tower_gap TierWarning ''unreachable'' i ''Your node has never backed up to your watchtower'' msg
         | ConcernExternalOnly \<Rightarrow>
             Some (news TierInfo KindTowerNotProtecting (not_protecting ''external-only'')
               ''Your watchtowers belong to somebody else'' msg)
         | ConcernFeeRateFixed \<Rightarrow> aside
         | ConcernSessionsExhausted \<Rightarrow> aside
         | ConcernDiskFilling \<Rightarrow> aside
         | ConcernOther s \<Rightarrow> tower_gap TierWarning s i ''Something is wrong with your watchtower'' msg)"

definition mapTowerConcern :: "tower_concern \<Rightarrow> candidate option" where
  "mapTowerConcern ev = (if tcCleared ev then clearedConcern ev else raisedConcern ev)"

definition MapEventToAlert :: "bus_event \<Rightarrow> candidate option" where
  "MapEventToAlert e =
     (case e of
        ESplitStateChanged old new \<Rightarrow> mapSplitState old new
      | EViewHealthChanged view new \<Rightarrow> mapViewHealth view new
      | EFundingSpent ev \<Rightarrow> mapFundingSpent ev
      | EMempoolSighting ch shape \<Rightarrow> mapMempoolSighting ch shape
      | ESpendReorgedOut spend \<Rightarrow> mapSpendReorgedOut spend
      | EDeadline (DeadlineEscalated i ch level remaining estimate) \<Rightarrow> mapDeadlineEscalated i level remaining estimate
      | EDeadline (DeadlineResolvedBy i byTxid) \<Rightarrow> mapDeadlineResolved i byTxid
      | EDeadline (DeadlineExpiredLoss i ch amount) \<Rightarrow> mapExpiredLoss i
      | ETowerHealthChanged ev \<Rightarrow> mapTowerHealth ev
      | ESplitSuspected suspected height sfHash sqHash \<Rightarrow> mapSplitSuspected suspected height sfHash sqHash
      | ETowerConcern ev \<Rightarrow> mapTowerConcern ev
      | EOther \<Rightarrow> None)"

end
