(* ===== verification/Alerter.thy ===== *)
theory Alerter
  imports Alert_Policy
begin

text \<open>
  The alerter: \<open>internal/alert/alerter.go\<close>, \<open>internal/alert/sweep.go\<close>, \<open>internal/alert/mirror.go\<close> and
  \<open>internal/alert/selftest.go\<close>. The state is the store, the queue of alerts waiting for delivery, what
  was published on the bus and what the transports were handed. Its four goroutines are steps: an
  event, a scan for what to repeat, one delivery, a sweep, a round of the test. The clock is read
  once per step. The transports of one delivery, and of one test, run side by side as in the code: each
  has a goroutine of two steps, its send and the record of it, and a schedule says which moves next;
  the delivery ends when all have ended. What a transport answers and the schedule are functions of how
  many sends came before. Log lines are left out.
\<close>

section \<open>State\<close>

record route =
  rtName :: string
  rtMinTier :: min_tier
  rtIncludeDetail :: bool

record alert_config =
  acCriticalRepeat :: int
  acSelfTestInterval :: int

record transports =
  trRoutes :: "route list"
  trConfig :: alert_config
  trSend :: "nat \<Rightarrow> string \<Rightarrow> payload \<Rightarrow> string option"
  trSchedule :: "nat \<Rightarrow> nat list"

record alert_raised =
  arAlertID :: int
  arTier :: tier
  arKind :: string
  arDedupKey :: string
  arMessage :: string

record alerter = tower_tables +
  aQueue :: "alert list"
  aPublished :: "alert_raised list"
  aSent :: "(string \<times> payload) list"

definition DefaultCriticalRepeat :: int where "DefaultCriticalRepeat = 30 * 60 * 1000000000"
definition DefaultSelfTestInterval :: int where "DefaultSelfTestInterval = 168 * 60 * 60 * 1000000000"
definition sendQueue :: nat where "sendQueue = 64"

definition alert_defaults :: "alert_config \<Rightarrow> alert_config" where
  "alert_defaults c =
     \<lparr>acCriticalRepeat = (if acCriticalRepeat c \<le> 0 then DefaultCriticalRepeat else acCriticalRepeat c),
      acSelfTestInterval = (if acSelfTestInterval c \<le> 0 then DefaultSelfTestInterval else acSelfTestInterval c)\<rparr>"

section \<open>Raising\<close>

definition publish_raised :: "alert \<Rightarrow> 'x alerter_scheme \<Rightarrow> 'x alerter_scheme" where
  "publish_raised r a = a\<lparr>aPublished := aPublished a @ [\<lparr>arAlertID = alID r, arTier = alTier r, arKind = alKind r,
     arDedupKey = alDedupKey r, arMessage = alMessage r\<rparr>]\<rparr>"

definition enqueue :: "transports \<Rightarrow> alert \<Rightarrow> 'x alerter_scheme \<Rightarrow> 'x alerter_scheme" where
  "enqueue env al a =
     (if trRoutes env = [] then a
      else if length (aQueue a) < sendQueue then a\<lparr>aQueue := aQueue a @ [al]\<rparr>
      else a)"

definition alert_of :: "candidate \<Rightarrow> int \<Rightarrow> alert" where
  "alert_of c now = \<lparr>alID = 0, alTier = cdTier c, alKind = cdKind c, alDedupKey = cdDedupKey c, alSubject = cdSubject c,
     alMessage = cdMessage c, alCreatedAt = now, alLastRaisedAt = now, alAckedAt = None\<rparr>"

definition record_alert :: "transports \<Rightarrow> alert \<Rightarrow> bool \<Rightarrow> 'x alerter_scheme \<Rightarrow> 'x alerter_scheme" where
  "record_alert env r keepAck a =
     (case (if keepAck then ReconcileAlert r a else UpsertAlert r a) of
        (a1, Inl _) \<Rightarrow> a1
      | (a1, Inr up) \<Rightarrow>
          if \<not> Notify up then a1
          else (let r1 = r\<lparr>alID := upID up\<rparr> in enqueue env r1 (publish_raised r1 a1)))"

definition put_alert :: "transports \<Rightarrow> int \<Rightarrow> candidate \<Rightarrow> bool \<Rightarrow> 'x alerter_scheme \<Rightarrow> 'x alerter_scheme" where
  "put_alert env now c keepAck a =
     (let r = alert_of c now
      in if cdTier c = TierResolved
         then
           (case ResolveAlert r (cdCloses c) a of
              (a1, Inl _) \<Rightarrow> a1
            | (a1, Inr i) \<Rightarrow>
                if i = 0 \<and> cdOnlyIfStanding c then a1
                else if 0 < i then (let r1 = r\<lparr>alID := i\<rparr> in enqueue env r1 (publish_raised r1 a1))
                else record_alert env r keepAck a1)
         else record_alert env r keepAck a)"

definition raise_alert :: "transports \<Rightarrow> int \<Rightarrow> candidate \<Rightarrow> 'x alerter_scheme \<Rightarrow> 'x alerter_scheme" where
  "raise_alert env now c = put_alert env now c False"

definition raiseIfAbsent :: "transports \<Rightarrow> int \<Rightarrow> candidate \<Rightarrow> 'x alerter_scheme \<Rightarrow> 'x alerter_scheme" where
  "raiseIfAbsent env now c = put_alert env now c True"

definition alert_event :: "transports \<Rightarrow> int \<Rightarrow> bus_event \<Rightarrow> 'x alerter_scheme \<Rightarrow> 'x alerter_scheme" where
  "alert_event env now e a = (case MapEventToAlert e of None \<Rightarrow> a | Some c \<Rightarrow> raise_alert env now c a)"

section \<open>Repeating\<close>

definition lastAttemptAt :: "int \<Rightarrow> 'x alerter_scheme \<Rightarrow> 'x alerter_scheme \<times> int" where
  "lastAttemptAt i a =
     (case ListDeliveries i a of
        (a1, Inl _) \<Rightarrow> (a1, 0)
      | (a1, Inr ds) \<Rightarrow> (a1, fold (\<lambda>e m. if m < deAttemptedAt e then deAttemptedAt e else m) ds 0))"

definition repeatSecs :: "transports \<Rightarrow> int" where
  "repeatSecs env = quo (acCriticalRepeat (trConfig env)) 1000000000"

fun escalate_each :: "transports \<Rightarrow> int \<Rightarrow> alert list \<Rightarrow> 'x alerter_scheme \<Rightarrow> 'x alerter_scheme" where
  "escalate_each env now [] a = a"
| "escalate_each env now (al # als) a =
     escalate_each env now als
       (if \<not> Urgent (alTier al) then a
        else
          (case lastAttemptAt (alID al) a of
             (a1, tried) \<Rightarrow>
               (let since = (if tried = 0 then alLastRaisedAt al else tried)
                in if i64 (now - since) < repeatSecs env then a1 else enqueue env al a1)))"

definition escalate :: "transports \<Rightarrow> int \<Rightarrow> 'x alerter_scheme \<Rightarrow> 'x alerter_scheme" where
  "escalate env now a =
     (if trRoutes env = [] then a
      else
        (case ListAlerts True 0 a of
           (a1, Inl _) \<Rightarrow> a1
         | (a1, Inr als) \<Rightarrow> escalate_each env now als a1))"

section \<open>Delivering\<close>

text \<open>
  A goroutine of one delivery: the transport, what it is to send, and how far it is. Its next step
  is the send, then the record of the answer; one that has ended does nothing.
\<close>

datatype progress_of_send = ToSend | ToRecord "string option" | Ended "string option"

type_synonym sender = "route \<times> payload \<times> progress_of_send"

definition sendPayload :: "transports \<Rightarrow> int \<Rightarrow> alert \<Rightarrow> nat \<Rightarrow> sender list \<times> 'x alerter_scheme \<Rightarrow> sender list \<times> 'x alerter_scheme" where
  "sendPayload env now al i = (\<lambda>(gs, a).
     if length gs \<le> i then (gs, a)
     else
       (case gs ! i of
          (r, p, ToSend) \<Rightarrow>
            (gs[i := (r, p, ToRecord (trSend env (length (aSent a)) (rtName r) p))],
             a\<lparr>aSent := aSent a @ [(rtName r, p)]\<rparr>)
        | (r, p, ToRecord err) \<Rightarrow>
            (gs[i := (r, p, Ended err)],
             fst (RecordDelivery \<lparr>deID = 0, deAlertID = alID al, deTransport = rtName r, deAttemptedAt = now,
                    deOK = (err = None), deError = redactError err\<rparr> a))
        | (r, p, Ended err) \<Rightarrow> (gs, a)))"

definition send :: "alert \<Rightarrow> route \<Rightarrow> sender" where
  "send al r = (r, PayloadFor al (rtIncludeDetail r), ToSend)"

text \<open>The schedule first, and then whoever has not ended, twice.\<close>

definition turns :: "transports \<Rightarrow> nat \<Rightarrow> nat \<Rightarrow> nat list" where
  "turns env sent n = trSchedule env sent @ [0..<n] @ [0..<n]"

definition run_senders :: "transports \<Rightarrow> int \<Rightarrow> alert \<Rightarrow> sender list \<Rightarrow> 'x alerter_scheme \<Rightarrow> sender list \<times> 'x alerter_scheme" where
  "run_senders env now al gs a = fold (sendPayload env now al) (turns env (length (aSent a)) (length gs)) (gs, a)"

definition answer_of :: "sender \<Rightarrow> string option" where
  "answer_of = (\<lambda>(r, p, t). case t of Ended err \<Rightarrow> err | _ \<Rightarrow> None)"

definition Deliver :: "transports \<Rightarrow> int \<Rightarrow> alert \<Rightarrow> 'x alerter_scheme \<Rightarrow> 'x alerter_scheme \<times> int" where
  "Deliver env now al a =
     (case run_senders env now al (map (send al) (filter (\<lambda>r. Deliverable (alTier al) (rtMinTier r)) (trRoutes env))) a of
        (gs, a1) \<Rightarrow> (a1, int (length (filter (\<lambda>g. answer_of g = None) gs))))"

definition deliverQueued :: "transports \<Rightarrow> int \<Rightarrow> 'x alerter_scheme \<Rightarrow> 'x alerter_scheme" where
  "deliverQueued env now a =
     (case aQueue a of
        [] \<Rightarrow> a
      | al # als \<Rightarrow> fst (Deliver env now al (a\<lparr>aQueue := als\<rparr>)))"

section \<open>What no event announces\<close>

definition sq_spends :: "spend_status \<Rightarrow> spend_filter" where
  "sq_spends st = \<lparr>sfBranch = BranchSQ, sfChannelID = 0, sfStatus = st, sfShape = ShapeOther '''', sfLimit = MaxSpendLimit\<rparr>"

definition spentOnTheOtherChain :: "'x alerter_scheme \<Rightarrow> 'x alerter_scheme \<times> (store_err + int list)" where
  "spentOnTheOtherChain a =
     (case ListSpends (sq_spends (SpendStatusOther '''')) a of
        (a1, Inl e) \<Rightarrow> (a1, Inl e)
      | (a1, Inr sps) \<Rightarrow>
          (a1, Inr (map spChannelID (filter (\<lambda>s. spChannelID s \<noteq> 0 \<and> spStatus s \<noteq> SpendReorgedOut) sps))))"

definition sweep_closed :: "transports \<Rightarrow> int \<Rightarrow> 'x alerter_scheme \<Rightarrow> 'x alerter_scheme" where
  "sweep_closed env now a =
     (case ListChannels all_channels a of
        (a1, Inl _) \<Rightarrow> a1
      | (a1, Inr chs) \<Rightarrow>
          if chs = [] then a1
          else
            (case spentOnTheOtherChain a1 of
               (a2, Inl _) \<Rightarrow> a2
             | (a2, Inr spent) \<Rightarrow>
                 fold (\<lambda>c a. if chRelevance c = Irrelevant then a
                             else if chCloseState c = CloseOpen then a
                             else if chID c \<in> set spent then a
                             else raise_alert env now (ClosedOnlyOnYourChain (chID c)) a) chs a2))"

definition KindMirrorStuck :: string where "KindMirrorStuck = ''mirror_stuck''"
definition KindMirrorGaveUp :: string where "KindMirrorGaveUp = ''mirror_gave_up''"

definition mirrorWhy :: "mirror_decision \<Rightarrow> string" where
  "mirrorWhy d = (if mdLastError d = '''' then ''The other chain did not say why.''
     else ''The other chain said: '' @ redactString (mdLastError d) @ ''.'')"

definition attemptCount :: "int \<Rightarrow> string" where
  "attemptCount n = (if n = 1 then ''1 time'' else itoa n @ '' times'')"

definition triedEnough :: int where "triedEnough = 3"

definition mirror_stuck :: "mirror_decision \<Rightarrow> candidate" where
  "mirror_stuck d = news TierWarning KindMirrorStuck (KindMirrorStuck @ '':'' @ mdTxID d)
     (''A transaction is not reaching '' @ OtherChain)
     (''Forktower has tried '' @ attemptCount (mdAttempts d) @ '' to copy one of your channel's transactions to '' @ OtherChain
        @ '' and it has not been accepted. '' @ mirrorWhy d)"

definition mirror_gave_up :: "mirror_decision \<Rightarrow> candidate" where
  "mirror_gave_up d = news TierWarning KindMirrorGaveUp (KindMirrorGaveUp @ '':'' @ mdTxID d)
     (''A transaction could not be copied to '' @ OtherChain)
     (''Forktower has stopped trying to copy one of your channel's transactions to '' @ OtherChain @ ''. '' @ mirrorWhy d
        @ '' This may need you to do something: open Forktower to see what.'')"

definition any_target :: "mirror_st \<Rightarrow> mirror_filter" where
  "any_target st = in_state st (BranchOther '''')"

definition mirrorSweep :: "transports \<Rightarrow> int \<Rightarrow> 'x alerter_scheme \<Rightarrow> 'x alerter_scheme" where
  "mirrorSweep env now a =
     (case ListMirrorDecisions (any_target MirrorRejected) a of
        (a1, Inl _) \<Rightarrow> a1
      | (a1, Inr stuck) \<Rightarrow>
          (let a2 = fold (\<lambda>d a. if mdAttempts d < triedEnough then a else raiseIfAbsent env now (mirror_stuck d) a) stuck a1
           in case ListMirrorDecisions (any_target MirrorAbandoned) a2 of
                (a3, Inl _) \<Rightarrow> a3
              | (a3, Inr gone) \<Rightarrow> fold (\<lambda>d. raiseIfAbsent env now (mirror_gave_up d)) gone a3))"

definition channelOfSpend :: "spend list \<Rightarrow> int \<Rightarrow> int" where
  "channelOfSpend sps i = (case find (\<lambda>s. spID s = i) sps of None \<Rightarrow> 0 | Some s \<Rightarrow> spChannelID s)"

definition spend_event :: "spend \<Rightarrow> bus_event" where
  "spend_event s = EFundingSpent \<lparr>fsBranch = spBranch s, fsChannelID = spChannelID s, fsSpendEventID = spID s,
     fsShape = spShape s, fsStatus = spStatus s\<rparr>"

definition deadline_event :: "spend list \<Rightarrow> deadline \<Rightarrow> bus_event" where
  "deadline_event sps d = EDeadline (DeadlineEscalated (dlID d) (channelOfSpend sps (dlSpendEventID d)) (dlEscalation d)
     (dlHeight d) '''')"

definition raise_again :: "transports \<Rightarrow> int \<Rightarrow> bus_event \<Rightarrow> 'x alerter_scheme \<Rightarrow> 'x alerter_scheme" where
  "raise_again env now e a = (case MapEventToAlert e of None \<Rightarrow> a | Some c \<Rightarrow> raiseIfAbsent env now c a)"

definition detectionSweep :: "transports \<Rightarrow> int \<Rightarrow> 'x alerter_scheme \<Rightarrow> 'x alerter_scheme" where
  "detectionSweep env now a =
     (case ListSpends (sq_spends SpendConfirmed) a of
        (a1, Inl _) \<Rightarrow> a1
      | (a1, Inr sps) \<Rightarrow>
          (let a2 = fold (\<lambda>s. raise_again env now (spend_event s)) sps a1
           in case ListDeadlines DeadlineCounting a2 of
                (a3, Inl _) \<Rightarrow> a3
              | (a3, Inr ds) \<Rightarrow>
                  fold (\<lambda>d a. if dlEscalation d \<le> 0 then a else raise_again env now (deadline_event sps d) a) ds a3))"

definition tower_silent :: "tower \<Rightarrow> candidate" where
  "tower_silent t = news TierWarning KindTowerDown (keyed KindTowerDown (twID t)) ''Your watchtower is not answering''
     (''The watchtower that would punish a broken promise on '' @ OtherChain
        @ '' is not answering. Until it is back, a channel closed against you there would not be answered. ''
        @ detailSentence (twStatusDetail t))"

definition channel_unprotected :: "coverage \<Rightarrow> candidate" where
  "channel_unprotected c = news TierWarning KindTowerNotProtecting (not_protecting (''channel:'' @ itoa (cvChannelID c)))
     ''One of your channels is not protected by your watchtower''
     (''One of your channels is not being backed up to your watchtower, so a broken promise against it on '' @ OtherChain
        @ '' would not be answered. '' @ cvReason c @ ''.'')"

definition uncovered_at :: "int \<Rightarrow> coverage_filter" where
  "uncovered_at i = \<lparr>cgChannelID = 0, cgTowerID = i, cgUncoverableOnly = True\<rparr>"

definition tower_state :: "transports \<Rightarrow> int \<Rightarrow> tower \<Rightarrow> 'x alerter_scheme \<Rightarrow> 'x alerter_scheme" where
  "tower_state env now t a =
     (let a1 = (if twStatus t = TowerUnreachable then raiseIfAbsent env now (tower_silent t) a else a)
      in case ListCoverage (uncovered_at (twID t)) a1 of
           (a2, Inl _) \<Rightarrow> a2
         | (a2, Inr cs) \<Rightarrow> fold (\<lambda>c. raiseIfAbsent env now (channel_unprotected c)) cs a2)"

definition towerSweep :: "transports \<Rightarrow> int \<Rightarrow> 'x alerter_scheme \<Rightarrow> 'x alerter_scheme" where
  "towerSweep env now a =
     (case ListTowers all_towers a of
        (a1, Inl _) \<Rightarrow> a1
      | (a1, Inr ts) \<Rightarrow> fold (tower_state env now) ts a1)"

definition reconcile :: "transports \<Rightarrow> int \<Rightarrow> 'x alerter_scheme \<Rightarrow> 'x alerter_scheme" where
  "reconcile env now a = towerSweep env now (mirrorSweep env now (detectionSweep env now a))"

section \<open>The test of the transports\<close>

definition KindSelfTest :: string where "KindSelfTest = ''self_test''"
definition KindTransportFailing :: string where "KindTransportFailing = ''transport_failing''"
definition MetaLastSelfTestAt :: string where "MetaLastSelfTestAt = ''last_self_test_at''"

text \<open>The format \<open>%q\<close>; of control bytes only the newline, the tab and the return are spelled out.\<close>

definition go_quote :: "string \<Rightarrow> string" where
  "go_quote s = [quote_mark] @ concat (map (\<lambda>c.
     if c = quote_mark \<or> c = CHR 0x5C then [CHR 0x5C, c]
     else if c = CHR 0x0A then [CHR 0x5C] @ ''n''
     else if c = CHR 0x09 then [CHR 0x5C] @ ''t''
     else if c = CHR 0x0D then [CHR 0x5C] @ ''r''
     else [c]) s) @ [quote_mark]"

fun selectRoutes :: "route list \<Rightarrow> string list \<Rightarrow> route list option" where
  "selectRoutes routes [] = Some routes"
| "selectRoutes routes (want # names) =
     (case find (\<lambda>r. rtName r = want) routes of
        None \<Rightarrow> None
      | Some r \<Rightarrow> if names = [] then Some [r] else map_option ((#) r) (selectRoutes routes names))"

definition transport_failing :: "string \<Rightarrow> candidate" where
  "transport_failing name = news TierWarning KindTransportFailing (KindTransportFailing @ '':'' @ name) name
     (''Forktower could not send a test message through '' @ go_quote name
        @ '', so alerts may not reach you. Check its settings in Forktower.'')"

definition clearTransportFailure :: "int \<Rightarrow> string \<Rightarrow> 'x alerter_scheme \<Rightarrow> 'x alerter_scheme" where
  "clearTransportFailure now name a = fst (ResolveAlert
     \<lparr>alID = 0, alTier = TierResolved, alKind = KindTransportFailing, alDedupKey = KindTransportFailing @ '':'' @ name,
      alSubject = name,
      alMessage = ''Forktower's test message reached '' @ go_quote name @ ''. Alerts can get to you through it.'',
      alCreatedAt = now, alLastRaisedAt = now, alAckedAt = None\<rparr> [] a)"

definition recordSelfTest :: "transports \<Rightarrow> int \<Rightarrow> (string \<times> string option) list \<Rightarrow> int \<Rightarrow> bool \<Rightarrow> 'x alerter_scheme \<Rightarrow> 'x alerter_scheme" where
  "recordSelfTest env now results began full a =
     (let a1 = fold (\<lambda>(name, err) a. if err = None then clearTransportFailure now name a
                        else raise_alert env now (transport_failing name) a) results a
      in if \<not> full then a1 else fst (SetMetaInt64 MetaLastSelfTestAt began a1))"

definition synthetic :: "int \<Rightarrow> alert" where
  "synthetic now = \<lparr>alID = 0, alTier = TierInfo, alKind = KindSelfTest, alDedupKey = KindSelfTest, alSubject = '''',
     alMessage = ''This is Forktower's regular test message. It means your notifications are working. Nothing is wrong.'',
     alCreatedAt = now, alLastRaisedAt = now, alAckedAt = None\<rparr>"

definition test_payload :: "alert \<Rightarrow> payload" where
  "test_payload al = \<lparr>plVersion = PayloadVersion, plTier = tier_text (alTier al), plKind = alKind al, plSubject = '''',
     plMessage = alMessage al\<rparr>"

definition TestTransports :: "transports \<Rightarrow> int \<Rightarrow> string list \<Rightarrow> 'x alerter_scheme \<Rightarrow> 'x alerter_scheme \<times> (string \<times> string option) list option" where
  "TestTransports env now names a =
     (case selectRoutes (trRoutes env) names of
        None \<Rightarrow> (a, None)
      | Some [] \<Rightarrow> (a, Some [])
      | Some routes \<Rightarrow>
          (case UpsertAlert (synthetic now) a of
             (a1, Inl _) \<Rightarrow> (a1, None)
           | (a1, Inr up) \<Rightarrow>
               (let al = (synthetic now)\<lparr>alID := upID up\<rparr>
                in case run_senders env now al (map (\<lambda>r. (r, test_payload al, ToSend)) routes) a1 of
                     (gs, a2) \<Rightarrow>
                       (let results = map (\<lambda>g. (rtName (fst g), answer_of g)) gs
                        in (recordSelfTest env now results now (names = []) a2, Some results)))))"

definition selfTestDue :: "transports \<Rightarrow> int \<Rightarrow> 'x alerter_scheme \<Rightarrow> 'x alerter_scheme \<times> bool" where
  "selfTestDue env now a =
     (case GetMetaInt64 MetaLastSelfTestAt 0 a of
        (a1, Inl _) \<Rightarrow> (a1, False)
      | (a1, Inr tested) \<Rightarrow>
          (a1, tested = 0 \<or> quo (acSelfTestInterval (trConfig env)) 1000000000 \<le> i64 (now - tested)))"

definition self_test_round :: "transports \<Rightarrow> int \<Rightarrow> 'x alerter_scheme \<Rightarrow> 'x alerter_scheme" where
  "self_test_round env now a =
     (if trRoutes env = [] then a
      else
        (case selfTestDue env now a of
           (a1, due_now) \<Rightarrow> if due_now then fst (TestTransports env now [] a1) else a1))"

section \<open>The alerter as a machine\<close>

datatype alerter_input =
    AEvent bus_event | AScan | ADeliver | ASweep | ASelfTest | ATest "string list" | ARaise candidate | AAck int

definition alerter_step :: "transports \<Rightarrow> alerter \<Rightarrow> int \<times> alerter_input \<Rightarrow> alerter" where
  "alerter_step env a = (\<lambda>(now, i).
     case i of
       AEvent e \<Rightarrow> alert_event env now e a
     | AScan \<Rightarrow> escalate env now a
     | ADeliver \<Rightarrow> deliverQueued env now a
     | ASweep \<Rightarrow> reconcile env now (sweep_closed env now a)
     | ASelfTest \<Rightarrow> self_test_round env now a
     | ATest names \<Rightarrow> fst (TestTransports env now names a)
     | ARaise c \<Rightarrow> raise_alert env now c a
     | AAck i \<Rightarrow> fst (AckAlert i now a))"

end
