(* ===== verification/Alerter_Facts.thy ===== *)
theory Alerter_Facts
  imports Alerter
begin

text \<open>
  What the alerter guarantees: nothing is announced that is not recorded; the sweeps leave alone what the
  user has dealt with and miss nothing that is stored; what is repeated and what a transport is told.
\<close>

section \<open>What the calls leave alone\<close>

definition memo :: "'x alerter_scheme \<Rightarrow> alert list \<times> alert_raised list \<times> (string \<times> payload) list" where
  "memo a = (aQueue a, aPublished a, aSent a)"

definition alert_ids :: "'x state_db_scheme \<Rightarrow> int set" where
  "alert_ids a = alID ` set (t_alerts a)"

abbreviation keyed_alerts :: "'x state_db_scheme \<Rightarrow> bool" where
  "keyed_alerts a \<equiv> table_ok alID alDedupKey (t_alerts a)"

lemma alert_ids_simps [simp]:
  "alert_ids (a\<lparr>faults := fs\<rparr>) = alert_ids a"
  "alert_ids (b\<lparr>aQueue := q\<rparr>) = alert_ids b"
  "alert_ids (b\<lparr>aPublished := p\<rparr>) = alert_ids b"
  "alert_ids (b\<lparr>aSent := s\<rparr>) = alert_ids b"
  by (simp_all add: alert_ids_def)

lemma read_memo [simp]: "memo (fst (db_read f a)) = memo a"
  by (auto simp: db_read_unfold memo_def split: list.split)

lemma read_alerts [simp]: "t_alerts (fst (db_read f a)) = t_alerts (a :: 'x state_db_scheme)"
  by (auto simp: db_read_unfold split: list.split)

lemma read_deliveries [simp]: "t_deliveries (fst (db_read f a)) = t_deliveries (a :: 'x state_db_scheme)"
  by (auto simp: db_read_unfold split: list.split)

lemmas alert_reads = ListAlerts_def ListDeliveries_def ListSpends_def ListChannels_def ListDeadlines_def
  ListMirrorDecisions_def ListTowers_def ListCoverage_def GetMeta_def

lemma call_memo:
  assumes "\<And>b. memo (fst (f b)) = memo b"
  shows "memo (fst (db_call f a)) = memo a"
  using assms by (auto simp: db_call_def memo_def split: list.split)

lemma db_call_rule:
  assumes "\<And>fs. Q (a\<lparr>faults := fs\<rparr>, Inl StoreIO)" "\<And>fs. Q (f (a\<lparr>faults := fs\<rparr>))"
  shows "Q (db_call f a)"
  using db_call_cases [of f a "fst (db_call f a)" "snd (db_call f a)"] assms by (metis prod.collapse)

lemma write_memo [simp]:
  "memo (fst (UpsertAlert r a)) = memo a"
  "memo (fst (ReconcileAlert r a)) = memo a"
  "memo (fst (ResolveAlert r ks a)) = memo a"
  "memo (fst (AckAlert i now a)) = memo a"
  "memo (fst (RecordDelivery e a)) = memo a"
  "memo (fst (SetMetaInt64 k v a)) = memo a"
  by (auto simp: UpsertAlert_def ReconcileAlert_def ResolveAlert_def AckAlert_def RecordDelivery_def SetMetaInt64_def
      SetMeta_def insert_alert_def Let_def db_call_def db_read_def memo_def split: list.split option.split prod.split sum.split)

lemma GetMetaInt64_read [simp]:
  "memo (fst (GetMetaInt64 k v a)) = memo a"
  "t_alerts (fst (GetMetaInt64 k v a)) = t_alerts a"
  "t_deliveries (fst (GetMetaInt64 k v a)) = t_deliveries a"
  by (auto simp: GetMetaInt64_def GetMeta_def db_read_unfold memo_def split: list.split sum.split store_err.split prod.split option.split)

section \<open>Rows stay\<close>

definition rows_kept :: "'x state_db_scheme \<Rightarrow> 'x state_db_scheme \<Rightarrow> bool" where
  "rows_kept a a' \<longleftrightarrow> (keyed_alerts a \<longrightarrow> keyed_alerts a' \<and> alert_ids a \<subseteq> alert_ids a')"

lemma insert_alert_kept:
  assumes "find (\<lambda>x. alDedupKey x = alDedupKey r) (t_alerts a) = None"
  shows "rows_kept a (fst (insert_alert r a))"
proof -
  have "alDedupKey r \<notin> alDedupKey ` set (t_alerts a)" using assms by (auto simp: find_None_iff)
  with insert_alert_ok show ?thesis by (auto simp: rows_kept_def alert_ids_def insert_alert_def Let_def)
qed

lemma update_row_ids: "(\<And>x. rid (f x) = rid x) \<Longrightarrow> rid ` set (update_row rid i f rows) = rid ` set rows"
  unfolding set_update_row image_image by (intro image_cong) auto

lemma update_alert_kept:
  assumes "\<And>x. alID (f x) = alID x \<and> alDedupKey (f x) = alDedupKey x"
  shows "rows_kept a (a\<lparr>t_alerts := update_row alID i f (t_alerts a)\<rparr>)"
proof -
  have "alID ` set (update_row alID i f (t_alerts a)) = alID ` set (t_alerts a)"
    using assms by (intro update_row_ids) simp
  with alerts_update_ok [OF _ assms, of "t_alerts a"] show ?thesis by (simp add: rows_kept_def alert_ids_def)
qed

lemma rows_kept_faults [simp]: "rows_kept (a\<lparr>faults := fs\<rparr>) a' = rows_kept a a'" "rows_kept a (a\<lparr>faults := fs\<rparr>)"
  by (simp_all add: rows_kept_def)

lemma retire_ids: "retire_alert i f rows = Some rows' \<Longrightarrow> (\<And>x. alID (f x) = alID x) \<Longrightarrow> alID ` set rows' = alID ` set rows"
  using update_row_ids [of alID "\<lambda>a. (f a)\<lparr>alDedupKey := closed_key a\<rparr>" i rows]
  by (simp add: retire_alert_def split: option.splits if_splits)

lemma resolve_loop_ok:
  assumes "resolve_loop r ks i rows = Some (j, rows')" "table_ok alID alDedupKey rows" "i = 0 \<or> i \<in> alID ` set rows"
  shows "table_ok alID alDedupKey rows' \<and> alID ` set rows' = alID ` set rows \<and> (j = 0 \<or> j \<in> alID ` set rows)"
  using assms
proof (induction r ks i rows rule: resolve_loop.induct)
  case (1 r i rows)
  then show ?case by auto
next
  case (2 r k ks i rows)
  let ?f = "\<lambda>x. x\<lparr>alTier := TierResolved, alLastRaisedAt := alLastRaisedAt r, alAckedAt := Some (alLastRaisedAt r)\<rparr>"
  show ?case
  proof (cases "find (standing k) rows")
    case None
    with 2 show ?thesis by simp
  next
    case (Some x)
    then have x: "x \<in> set rows" by (auto dest: find_Some_mem)
    show ?thesis
    proof (cases "i = 0")
      case True
      with 2 Some x show ?thesis by simp
    next
      case False
      with 2(4) Some obtain rows1 where r1: "retire_alert (alID x) ?f rows = Some rows1"
        "resolve_loop r ks i rows1 = Some (j, rows')"
        by (auto split: option.splits)
      have ok: "table_ok alID alDedupKey rows1" by (rule retire_ok [OF 2(5) r1(1)]) simp
      have ids: "alID ` set rows1 = alID ` set rows" by (rule retire_ids [OF r1(1)]) simp
      with 2(3) [OF Some False r1 ok] 2(6) show ?thesis by simp
    qed
  qed
qed

text \<open>The row an answer names is there.\<close>

definition kept_naming :: "('v \<Rightarrow> int option) \<Rightarrow> 'x state_db_scheme \<Rightarrow> 'x state_db_scheme \<times> (store_err + 'v) \<Rightarrow> bool" where
  "kept_naming named a p \<longleftrightarrow> rows_kept a (fst p)
     \<and> (keyed_alerts a \<longrightarrow> (\<forall>v i. snd p = Inr v \<longrightarrow> named v = Some i \<longrightarrow> i \<in> alert_ids (fst p)))"

lemma kept_naming_call:
  assumes "\<And>b. kept_naming named b (f b)"
  shows "kept_naming named a (db_call f a)"
proof (rule db_call_rule)
  fix fs
  show "kept_naming named a (f (a\<lparr>faults := fs\<rparr>))"
    using assms [of "a\<lparr>faults := fs\<rparr>"] by (simp add: kept_naming_def)
qed (simp add: kept_naming_def)

lemma kept_naming_error [simp]: "kept_naming named a (a, Inl e)"
  by (simp add: kept_naming_def rows_kept_def)

lemma insert_alert_naming:
  assumes "find (\<lambda>x. alDedupKey x = alDedupKey r) (t_alerts a) = None"
  shows "kept_naming (\<lambda>up. Some (upID up)) a (insert_alert r a)"
  using insert_alert_kept [OF assms] by (simp add: kept_naming_def insert_alert_def Let_def alert_ids_def place_alert_def)

lemma update_alert_naming:
  assumes "find P (t_alerts a) = Some x" "named v = Some (alID x)" "\<And>x. alID (f x) = alID x \<and> alDedupKey (f x) = alDedupKey x"
  shows "kept_naming named a (a\<lparr>t_alerts := update_row alID (alID x) f (t_alerts a)\<rparr>, Inr v)"
  using update_alert_kept [of f a "alID x", OF assms(3)] assms
  by (auto simp: kept_naming_def alert_ids_def update_row_ids dest: find_Some_mem)

lemma UpsertAlert_kept: "kept_naming (\<lambda>up. Some (upID up)) a (UpsertAlert r a)"
  by (auto simp: UpsertAlert_def intro!: kept_naming_call insert_alert_naming update_alert_naming split: option.split)

lemma ReconcileAlert_kept: "kept_naming (\<lambda>up. Some (upID up)) a (ReconcileAlert r a)"
  by (auto simp: ReconcileAlert_def intro!: kept_naming_call insert_alert_naming update_alert_naming split: option.split)

lemma ResolveAlert_kept: "kept_naming (\<lambda>i. if i = 0 then None else Some i) a (ResolveAlert r ks a)"
proof -
  let ?g = "\<lambda>x. x\<lparr>alTier := alTier r, alKind := alKind r, alSubject := alSubject r, alMessage := alMessage r,
      alLastRaisedAt := alLastRaisedAt r, alAckedAt := Some (alLastRaisedAt r)\<rparr>"
  let ?f = "\<lambda>d. case resolve_loop r (alDedupKey r # ks) 0 (t_alerts d) of
            None \<Rightarrow> (d, Inl StoreConstraint)
          | Some (i, rows) \<Rightarrow>
              if i = 0 then (d\<lparr>t_alerts := rows\<rparr>, Inr 0)
              else (case retire_alert i ?g rows of
                   None \<Rightarrow> (d, Inl StoreConstraint)
                 | Some rows \<Rightarrow> (d\<lparr>t_alerts := rows\<rparr>, Inr i))"
  have "kept_naming (\<lambda>i. if i = 0 then None else Some i) b (?f b)" for b :: "'a state_db_scheme"
  proof (cases "resolve_loop r (alDedupKey r # ks) 0 (t_alerts b)")
    case None
    then show ?thesis by simp
  next
    case (Some p)
    obtain i rows where p: "p = (i, rows)" by fastforce
    note loop = resolve_loop_ok [OF Some [unfolded p]]
    show ?thesis
    proof (cases "retire_alert i ?g rows")
      case None
      with Some p loop show ?thesis by (auto simp: kept_naming_def rows_kept_def alert_ids_def)
    next
      case (Some rows')
      have "table_ok alID alDedupKey rows'" if "table_ok alID alDedupKey rows" by (rule retire_ok [OF that Some]) simp
      moreover have "alID ` set rows' = alID ` set rows" by (rule retire_ids [OF Some]) simp
      ultimately show ?thesis
        using loop Some \<open>resolve_loop _ _ _ _ = Some p\<close> p by (auto simp: kept_naming_def rows_kept_def alert_ids_def)
    qed
  qed
  from kept_naming_call [of _ ?f, OF this] show ?thesis by (simp add: ResolveAlert_def)
qed

lemma AckAlert_kept: "rows_kept a (fst (AckAlert i now a))"
proof -
  let ?u = "\<lambda>x. if alAckedAt x = None then x\<lparr>alAckedAt := Some now\<rparr> else x"
  have ids: "alID ` set (update_row alID i ?u rows) = alID ` set rows" for rows by (rule update_row_ids) simp
  have ok: "table_ok alID alDedupKey rows \<Longrightarrow> table_ok alID alDedupKey (update_row alID i ?u rows)" for rows :: "alert list"
    by (erule alerts_update_ok) simp
  show ?thesis
    by (auto simp: AckAlert_def db_call_def db_read_unfold rows_kept_def alert_ids_def ids ok simp del: if_image_distrib
        split: list.split)
qed

section \<open>Nothing is announced that is not recorded\<close>

definition recorded :: "'x alerter_scheme \<Rightarrow> bool" where
  "recorded a \<longleftrightarrow> keyed_alerts a
     \<and> (\<forall>p \<in> set (aPublished a). arAlertID p \<in> alert_ids a)
     \<and> (\<forall>q \<in> set (aQueue a). alID q \<in> alert_ids a)
     \<and> (\<forall>e \<in> set (t_deliveries a). deAlertID e \<in> alert_ids a)"

lemma write_deliveries [simp]:
  "t_deliveries (fst (UpsertAlert r a)) = t_deliveries a"
  "t_deliveries (fst (ReconcileAlert r a)) = t_deliveries a"
  "t_deliveries (fst (ResolveAlert r ks a)) = t_deliveries a"
  "t_deliveries (fst (AckAlert i now a)) = t_deliveries a"
  "t_deliveries (fst (SetMetaInt64 k v a)) = t_deliveries a"
  "t_alerts (fst (SetMetaInt64 k v a)) = t_alerts a"
  by (auto simp: UpsertAlert_def ReconcileAlert_def ResolveAlert_def AckAlert_def SetMetaInt64_def
      SetMeta_def insert_alert_def Let_def db_call_def db_read_def split: list.split option.split prod.split sum.split)

lemma recorded_via:
  assumes "recorded a" "rows_kept a a'" "memo a' = memo a" "t_deliveries a' = t_deliveries a"
  shows "recorded a'"
  using assms by (auto simp: recorded_def rows_kept_def memo_def)

lemma recorded_read:
  assumes "recorded a" "memo a' = memo a" "t_alerts a' = t_alerts a" "t_deliveries a' = t_deliveries a"
  shows "recorded a'"
  using assms by (auto simp: recorded_def memo_def alert_ids_def)

lemma recorded_announced:
  assumes "recorded a" "alID r \<in> alert_ids a"
  shows "recorded (enqueue env r (publish_raised r a))"
  using assms by (auto simp: recorded_def enqueue_def publish_raised_def)

lemma recorded_enqueue: "recorded a \<Longrightarrow> alID r \<in> alert_ids a \<Longrightarrow> recorded (enqueue env r a)"
  by (auto simp: recorded_def enqueue_def)

lemma alert_ids_enqueue [simp]: "alert_ids (enqueue env r a) = alert_ids a"
  by (simp add: enqueue_def)

lemma record_alert_recorded:
  assumes "recorded a"
  shows "recorded (record_alert env r k a)"
proof -
  let ?p = "if k then ReconcileAlert r a else UpsertAlert r a"
  have n: "kept_naming (\<lambda>up. Some (upID up)) a ?p"
    using UpsertAlert_kept ReconcileAlert_kept by auto
  have kept: "recorded (fst ?p)"
    by (rule recorded_via [OF assms]) (use n in \<open>auto simp: kept_naming_def\<close>)
  have "keyed_alerts a" using assms by (simp add: recorded_def)
  with n have named: "upID up \<in> alert_ids (fst ?p)" if "snd ?p = Inr up" for up
    using that by (auto simp: kept_naming_def)
  obtain a1 res where p: "?p = (a1, res)" by fastforce
  show ?thesis
  proof (cases res)
    case (Inl e)
    with p kept show ?thesis by (simp add: record_alert_def del: if_split)
  next
    case (Inr up)
    with p kept named [of up] have "recorded a1" "upID up \<in> alert_ids a1" by (simp_all del: if_split)
    then have "recorded (enqueue env (r\<lparr>alID := upID up\<rparr>) (publish_raised (r\<lparr>alID := upID up\<rparr>) a1))"
      by (intro recorded_announced) simp_all
    with p Inr \<open>recorded a1\<close> show ?thesis by (simp add: record_alert_def Let_def del: if_split)
  qed
qed

lemma put_alert_recorded:
  assumes "recorded a"
  shows "recorded (put_alert env now c k a)"
proof (cases "cdTier c = TierResolved")
  case False
  then show ?thesis by (simp add: put_alert_def Let_def record_alert_recorded [OF assms])
next
  case True
  let ?r = "alert_of c now"
  obtain a1 res where p: "ResolveAlert ?r (cdCloses c) a = (a1, res)" by fastforce
  have n: "kept_naming (\<lambda>i. if i = 0 then None else Some i) a (a1, res)"
    using ResolveAlert_kept [of a ?r "cdCloses c"] p by simp
  have a1: "recorded a1"
    by (rule recorded_via [OF assms]) (use n p write_memo(3) [of ?r "cdCloses c" a] write_deliveries(3) [of ?r "cdCloses c" a] in
        \<open>simp_all add: kept_naming_def\<close>)
  show ?thesis
  proof (cases res)
    case (Inl e)
    with p True a1 show ?thesis by (simp add: put_alert_def Let_def)
  next
    case (Inr i)
    have "keyed_alerts a" using assms by (simp add: recorded_def)
    with n Inr have "i \<noteq> 0 \<longrightarrow> i \<in> alert_ids a1" by (auto simp: kept_naming_def split: if_splits)
    then have "0 < i \<Longrightarrow> recorded (enqueue env (?r\<lparr>alID := i\<rparr>) (publish_raised (?r\<lparr>alID := i\<rparr>) a1))"
      by (intro recorded_announced [OF a1]) simp
    with p True Inr a1 record_alert_recorded [OF a1] show ?thesis by (simp add: put_alert_def Let_def)
  qed
qed

lemma recorded_fold:
  assumes "recorded a" "\<And>x b. recorded b \<Longrightarrow> recorded (f x b)"
  shows "recorded (fold f xs a)"
  using assms by (induction xs arbitrary: a) auto


lemma raise_recorded: "recorded a \<Longrightarrow> recorded (raise_alert env now c a)" "recorded a \<Longrightarrow> recorded (raiseIfAbsent env now c a)"
  by (simp_all add: raise_alert_def raiseIfAbsent_def put_alert_recorded)

lemma reads_recorded:
  assumes "recorded a"
  shows "recorded (fst (db_read f a))" "recorded (fst (GetMetaInt64 k v a))" "recorded (fst (SetMetaInt64 k v a))"
  by (rule recorded_read [OF assms]; simp)+

lemma reads_alert_ids [simp]: "alert_ids (fst (db_read f a)) = alert_ids a"
  by (simp add: alert_ids_def)

lemma events_recorded: "recorded a \<Longrightarrow> recorded (alert_event env now e a)" "recorded a \<Longrightarrow> recorded (raise_again env now e a)"
  by (auto simp: alert_event_def raise_again_def raise_recorded split: option.split)

text \<open>Reading first and then acting on what was read, whatever it is.\<close>

lemma then_recorded:
  assumes "recorded a" "\<And>v b. recorded b \<Longrightarrow> recorded (g v b)"
  shows "recorded (case db_read f a of (b, Inl e) \<Rightarrow> b | (b, Inr v) \<Rightarrow> g v b)"
  using assms reads_recorded(1) [OF assms(1), of f] by (cases "db_read f a") (auto split: sum.split)

lemma sweeps_recorded:
  fixes a :: "'a alerter_scheme"
  assumes "recorded a"
  shows "recorded (sweep_closed env now a)" "recorded (reconcile env now a)"
proof -
  have sp: "recorded (fst (spentOnTheOtherChain b))" if "recorded b" for b :: "'a alerter_scheme"
    using reads_recorded(1) [OF that] by (auto simp: spentOnTheOtherChain_def ListSpends_def case_prod_beta split: sum.split)
  have sp_then: "recorded (case spentOnTheOtherChain b of (b, Inl e) \<Rightarrow> b | (b, Inr v) \<Rightarrow> g v b)"
    if "recorded b" "\<And>v c. recorded c \<Longrightarrow> recorded (g v c)" for b :: "'a alerter_scheme" and g
    using sp [OF that(1)] that(2) by (cases "spentOnTheOtherChain b") (auto split: sum.split)
  show "recorded (sweep_closed env now a)"
    unfolding sweep_closed_def ListChannels_def
    by (intro then_recorded assms) (auto intro!: sp_then recorded_fold raise_recorded)
  have d: "recorded (detectionSweep env now b)" if "recorded b" for b :: "'a alerter_scheme"
    unfolding detectionSweep_def ListSpends_def ListDeadlines_def Let_def
    by (intro then_recorded that recorded_fold) (auto intro!: events_recorded)
  have m: "recorded (mirrorSweep env now b)" if "recorded b" for b :: "'a alerter_scheme"
    unfolding mirrorSweep_def ListMirrorDecisions_def Let_def
    by (intro then_recorded that recorded_fold) (auto intro!: raise_recorded)
  have t: "recorded (tower_state env now x b)" if "recorded b" for b :: "'a alerter_scheme" and x
    unfolding tower_state_def ListCoverage_def Let_def
    by (intro then_recorded recorded_fold raise_recorded) (use that in \<open>auto intro: raise_recorded\<close>)
  have w: "recorded (towerSweep env now b)" if "recorded b" for b :: "'a alerter_scheme"
    unfolding towerSweep_def ListTowers_def by (intro then_recorded that recorded_fold t)
  show "recorded (reconcile env now a)" unfolding reconcile_def by (intro w m d assms)
qed

lemma lastAttemptAt_recorded: "recorded a \<Longrightarrow> recorded (fst (lastAttemptAt i a))" "alert_ids (fst (lastAttemptAt i a)) = alert_ids a"
  using reads_recorded(1) by (auto simp: lastAttemptAt_def ListDeliveries_def case_prod_beta split: sum.split)

lemma escalate_each_recorded:
  "recorded a \<Longrightarrow> \<forall>al \<in> set als. alID al \<in> alert_ids a \<Longrightarrow> recorded (escalate_each env now als a)"
proof (induction als arbitrary: a)
  case (Cons al als)
  let ?b = "if \<not> Urgent (alTier al) then a
        else case lastAttemptAt (alID al) a of (a1, tried) \<Rightarrow>
           (let since = (if tried = 0 then alLastRaisedAt al else tried)
            in if i64 (now - since) < repeatSecs env then a1 else enqueue env al a1)"
  have "recorded ?b \<and> alert_ids ?b = alert_ids a"
    using Cons.prems
    by (auto simp: case_prod_beta Let_def lastAttemptAt_recorded intro!: recorded_enqueue)
  with Cons show ?case by simp
qed simp

lemma escalate_recorded:
  assumes "recorded a"
  shows "recorded (escalate env now a)"
proof -
  obtain b res where p: "ListAlerts True 0 a = (b, res)" by fastforce
  then have b: "recorded b" "t_alerts b = t_alerts a"
    using reads_recorded(1) [OF assms] read_alerts by (metis ListAlerts_def fst_conv)+
  have "\<forall>al \<in> set als. alID al \<in> alert_ids b" if "res = Inr als" for als
    using p that b(2) by (auto simp: ListAlerts_def db_read_unfold alert_ids_def split: list.splits if_splits dest!: in_set_takeD)
  with b p show ?thesis using assms by (auto simp: escalate_def escalate_each_recorded split: sum.split)
qed

lemma RecordDelivery_recorded:
  assumes "recorded b"
  shows "recorded (fst (RecordDelivery e b)) \<and> alert_ids (fst (RecordDelivery e b)) = alert_ids b"
proof (cases "deTransport e = []")
  case True
  with assms show ?thesis by (simp add: RecordDelivery_def)
next
  case False
  have call: "(\<lambda>p. recorded (fst p) \<and> alert_ids (fst p) = alert_ids b) (db_call f b)"
    if "\<And>fs. recorded (fst (f (b\<lparr>faults := fs\<rparr>))) \<and> alert_ids (fst (f (b\<lparr>faults := fs\<rparr>))) = alert_ids b" for f :: "'a alerter_scheme \<Rightarrow> 'a alerter_scheme \<times> (store_err + int)"
  proof (rule db_call_rule)
    show "recorded (fst (b\<lparr>faults := fs\<rparr>, Inl StoreIO)) \<and> alert_ids (fst (b\<lparr>faults := fs\<rparr>, Inl StoreIO)) = alert_ids b" for fs
      using \<open>recorded b\<close> by (simp add: recorded_def)
  qed (rule that)
  show ?thesis unfolding RecordDelivery_def Let_def if_not_P [OF False]
    by (rule call [simplified]) (use assms in \<open>auto simp: recorded_def alert_ids_def list_ex_iff intro: rev_image_eqI\<close>)
qed

lemma sendPayload_recorded:
  assumes "recorded (snd ga)"
  shows "recorded (snd (sendPayload env now al i ga))"
proof -
  obtain gs a where ga: "ga = (gs, a)" by fastforce
  have "recorded (a\<lparr>aSent := s\<rparr>)" for s using assms ga by (simp add: recorded_def)
  with assms ga RecordDelivery_recorded show ?thesis
    by (auto simp: sendPayload_def split: prod.split progress_of_send.split)
qed

lemma run_senders_recorded:
  assumes "recorded a"
  shows "recorded (snd (run_senders env now al gs a))"
proof -
  have "recorded (snd ga) \<Longrightarrow> recorded (snd (fold (sendPayload env now al) is ga))" for "is" ga
    by (induction "is" arbitrary: ga) (simp_all add: sendPayload_recorded)
  from this [of "(gs, a)"] show ?thesis using assms by (simp add: run_senders_def)
qed

lemma recordSelfTest_recorded:
  assumes "recorded a"
  shows "recorded (recordSelfTest env now res began full a)"
proof -
  have "recorded (clearTransportFailure now n b)" if "recorded b" for b :: "'a alerter_scheme" and n
    unfolding clearTransportFailure_def
    by (rule recorded_via [OF that]) (use ResolveAlert_kept in \<open>auto simp: kept_naming_def\<close>)
  then have "recorded (fold (\<lambda>(name, err) b. if err = None then clearTransportFailure now name b
      else raise_alert env now (transport_failing name) b) res a)"
    by (intro recorded_fold assms) (auto intro: raise_recorded split: prod.split)
  then show ?thesis by (simp add: recordSelfTest_def Let_def reads_recorded(3))
qed

lemma TestTransports_recorded:
  assumes "recorded a"
  shows "recorded (fst (TestTransports env now names a))"
proof -
  have u: "recorded (fst (UpsertAlert r a))" for r
    by (rule recorded_via [OF assms]) (use UpsertAlert_kept in \<open>auto simp: kept_naming_def\<close>)
  show ?thesis
    using assms u [of "synthetic now"]
    by (auto simp: TestTransports_def case_prod_beta Let_def intro!: recordSelfTest_recorded run_senders_recorded
        split: option.split list.split sum.split)
qed

lemma self_test_recorded: "recorded a \<Longrightarrow> recorded (self_test_round env now a)"
  by (auto simp: self_test_round_def selfTestDue_def case_prod_beta intro!: TestTransports_recorded reads_recorded(2) split: sum.split)

interpretation alerting: machine "alerter_step env" "\<lambda>_. True" "recorded :: alerter \<Rightarrow> bool" for env
proof
  fix a :: alerter and i :: "int \<times> alerter_input"
  assume a: "recorded a"
  have "recorded (fst (AckAlert n now a))" for n now
    by (rule recorded_via [OF a]) (use AckAlert_kept in simp_all)
  moreover have "recorded (deliverQueued env now a)" for now
    using a run_senders_recorded [of "a\<lparr>aQueue := tl (aQueue a)\<rparr>"]
    by (auto simp: deliverQueued_def Deliver_def recorded_def case_prod_beta split: list.split)
  ultimately show "recorded (alerter_step env a i)"
    using a by (auto simp: alerter_step_def events_recorded escalate_recorded sweeps_recorded self_test_recorded
        TestTransports_recorded raise_recorded split: prod.split alerter_input.split)
qed

definition no_alerts :: alerter where
  "no_alerts =
     \<lparr>t_nodes = [], t_channels = [], t_htlcs = [], t_spends = [], t_outpoints = [], t_deadlines = [], faults = [],
      t_meta = [], t_split = None, t_blocks = [], t_alerts = [], t_deliveries = [], t_mirror = [],
      t_towers = [], t_coverage = [], aQueue = [], aPublished = [], aSent = []\<rparr>"

text \<open>
  C29: nothing is announced that is not on record. Whatever events, scans, deliveries, sweeps,
  tests and acknowledgements follow one another, and whichever store calls fail on the way,
  every alert that was published, that waits for delivery or that a delivery is recorded of is a
  row of the store, and no two rows share an identity or a key.
\<close>

theorem announced_is_recorded:
  "recorded (foldl (alerter_step env) (no_alerts\<lparr>faults := fs\<rparr>) is)"
  by (rule alerting.run_inv) (simp_all add: no_alerts_def recorded_def table_ok_def list_all_iff)

section \<open>The sweeps disturb nothing and miss nothing\<close>

text \<open>The same alert as the user left it; only when it was last true may have moved.\<close>

definition same_alert :: "alert \<Rightarrow> alert \<Rightarrow> bool" where
  "same_alert x x' \<longleftrightarrow> x' = x\<lparr>alLastRaisedAt := alLastRaisedAt x'\<rparr>"

definition undisturbed :: "'x alerter_scheme \<Rightarrow> 'x alerter_scheme \<Rightarrow> bool" where
  "undisturbed a a' \<longleftrightarrow> (keyed_alerts a \<longrightarrow> keyed_alerts a'
     \<and> (\<forall>x \<in> set (t_alerts a). \<exists>x' \<in> set (t_alerts a'). same_alert x x')
     \<and> (\<exists>qs. aQueue a' = aQueue a @ qs \<and> (\<forall>q \<in> set qs. alID q \<notin> alert_ids a))
     \<and> (\<exists>ps. aPublished a' = aPublished a @ ps \<and> (\<forall>p \<in> set ps. arAlertID p \<notin> alert_ids a)))"

definition same_world :: "'x alerter_scheme \<Rightarrow> 'x alerter_scheme \<Rightarrow> bool" where
  "same_world a a' \<longleftrightarrow> t_spends a' = t_spends a \<and> t_deadlines a' = t_deadlines a \<and> t_mirror a' = t_mirror a
     \<and> t_towers a' = t_towers a \<and> t_coverage a' = t_coverage a \<and> (faults a = [] \<longrightarrow> faults a' = [])"

text \<open>
  A row is in the words of an announcement; and every row that is new is open, not resolved, published, and
  queued for delivery unless there is no transport or no room.
\<close>

definition announces :: "alert_raised \<Rightarrow> alert \<Rightarrow> bool" where
  "announces p x \<longleftrightarrow> p = \<lparr>arAlertID = alID x, arTier = alTier x, arKind = alKind x, arDedupKey = alDedupKey x, arMessage = alMessage x\<rparr>"

definition queued_as :: "alert \<Rightarrow> alert \<Rightarrow> bool" where
  "queued_as q x \<longleftrightarrow> alID q = alID x \<and> alTier q = alTier x \<and> alKind q = alKind x \<and> alSubject q = alSubject x \<and> alMessage q = alMessage x"

definition newly_told :: "transports \<Rightarrow> 'x alerter_scheme \<Rightarrow> 'x alerter_scheme \<Rightarrow> alert \<Rightarrow> bool" where
  "newly_told env a a' x \<longleftrightarrow> alAckedAt x = None \<and> alTier x \<noteq> TierResolved
     \<and> (\<exists>p \<in> set (drop (length (aPublished a)) (aPublished a')). announces p x)
     \<and> (trRoutes env = [] \<or> sendQueue \<le> length (aQueue a')
        \<or> (\<exists>q \<in> set (drop (length (aQueue a)) (aQueue a')). queued_as q x))"

definition told :: "transports \<Rightarrow> 'x alerter_scheme \<Rightarrow> 'x alerter_scheme \<Rightarrow> bool" where
  "told env a a' \<longleftrightarrow> (\<forall>x \<in> set (t_alerts a'). alID x \<notin> alert_ids a \<longrightarrow> newly_told env a a' x)"

definition calm :: "transports \<Rightarrow> 'x alerter_scheme \<Rightarrow> 'x alerter_scheme \<Rightarrow> bool" where
  "calm env a a' \<longleftrightarrow> undisturbed a a' \<and> same_world a a' \<and> (keyed_alerts a \<longrightarrow> told env a a')"

lemma same_alert_trans: "same_alert x y \<Longrightarrow> same_alert y z \<Longrightarrow> same_alert x z"
  unfolding same_alert_def by (metis alert.surjective alert.update_convs(8))

lemma same_alert_refl [simp]: "same_alert x x"
  by (simp add: same_alert_def)

lemma same_alert_id: "same_alert x y \<Longrightarrow> alID y = alID x \<and> alDedupKey y = alDedupKey x \<and> alMessage y = alMessage x"
  unfolding same_alert_def by (metis alert.select_convs(1,4,6) alert.surjective alert.update_convs(8))

lemma undisturbed_ids: "undisturbed a a' \<Longrightarrow> keyed_alerts a \<Longrightarrow> alert_ids a \<subseteq> alert_ids a'"
  unfolding undisturbed_def alert_ids_def by (smt (verit, best) image_iff same_alert_id subsetI)

lemma undisturbed_keys: "undisturbed a a' \<Longrightarrow> keyed_alerts a \<Longrightarrow> x \<in> set (t_alerts a) \<Longrightarrow> alDedupKey x \<in> alDedupKey ` set (t_alerts a')"
  unfolding undisturbed_def by (metis imageI same_alert_id)

lemma undisturbed_trans:
  assumes "undisturbed a b" "undisturbed b c"
  shows "undisturbed a c"
  unfolding undisturbed_def
proof
  assume k: "keyed_alerts a"
  note ids = undisturbed_ids [OF assms(1) k]
  from assms(1) k obtain qs ps where 1: "keyed_alerts b" "aQueue b = aQueue a @ qs" "\<forall>q \<in> set qs. alID q \<notin> alert_ids a"
    "aPublished b = aPublished a @ ps" "\<forall>p \<in> set ps. arAlertID p \<notin> alert_ids a"
    "\<forall>x \<in> set (t_alerts a). \<exists>x' \<in> set (t_alerts b). same_alert x x'" by (auto simp: undisturbed_def)
  from assms(2) 1(1) obtain qs' ps' where 2: "keyed_alerts c" "aQueue c = aQueue b @ qs'" "\<forall>q \<in> set qs'. alID q \<notin> alert_ids b"
    "aPublished c = aPublished b @ ps'" "\<forall>p \<in> set ps'. arAlertID p \<notin> alert_ids b"
    "\<forall>x \<in> set (t_alerts b). \<exists>x' \<in> set (t_alerts c). same_alert x x'" by (auto simp: undisturbed_def)
  have "\<forall>x \<in> set (t_alerts a). \<exists>x' \<in> set (t_alerts c). same_alert x x'" using 1(6) 2(6) by (meson same_alert_trans)
  moreover have "\<exists>qs. aQueue c = aQueue a @ qs \<and> (\<forall>q \<in> set qs. alID q \<notin> alert_ids a)"
    using 1(2,3) 2(2,3) ids by (intro exI [of _ "qs @ qs'"]) auto
  moreover have "\<exists>ps. aPublished c = aPublished a @ ps \<and> (\<forall>p \<in> set ps. arAlertID p \<notin> alert_ids a)"
    using 1(4,5) 2(4,5) ids by (intro exI [of _ "ps @ ps'"]) auto
  ultimately show "keyed_alerts c
     \<and> (\<forall>x \<in> set (t_alerts a). \<exists>x' \<in> set (t_alerts c). same_alert x x')
     \<and> (\<exists>qs. aQueue c = aQueue a @ qs \<and> (\<forall>q \<in> set qs. alID q \<notin> alert_ids a))
     \<and> (\<exists>ps. aPublished c = aPublished a @ ps \<and> (\<forall>p \<in> set ps. arAlertID p \<notin> alert_ids a))"
    using 2(1) by blast
qed

lemma told_same_rows: "alert_ids a' = alert_ids a \<Longrightarrow> told env a a'"
  by (auto simp: told_def alert_ids_def)

lemma newly_told_same:
  assumes "newly_told env a b x" "same_alert x x'"
  shows "newly_told env a b x'"
proof -
  obtain t where "x' = x\<lparr>alLastRaisedAt := t\<rparr>" using assms(2) by (auto simp: same_alert_def)
  then show ?thesis using assms(1) by (simp add: newly_told_def announces_def queued_as_def)
qed

lemma told_trans:
  assumes "undisturbed a b" "undisturbed b c" "keyed_alerts a" "told env a b" "told env b c"
  shows "told env a c"
  unfolding told_def
proof (intro ballI impI)
  fix x assume x: "x \<in> set (t_alerts c)" "alID x \<notin> alert_ids a"
  from assms(1,3) obtain qs ps where b: "keyed_alerts b" "aQueue b = aQueue a @ qs" "aPublished b = aPublished a @ ps"
    by (auto simp: undisturbed_def)
  from assms(2) b(1) obtain qs' ps' where c: "keyed_alerts c" "aQueue c = aQueue b @ qs'" "aPublished c = aPublished b @ ps'"
    "\<forall>y \<in> set (t_alerts b). \<exists>y' \<in> set (t_alerts c). same_alert y y'" by (auto simp: undisturbed_def)
  show "newly_told env a c x"
  proof (cases "alID x \<in> alert_ids b")
    case False
    with assms(5) x(1) have "newly_told env b c x" by (simp add: told_def)
    then show ?thesis by (auto simp: newly_told_def b c)
  next
    case True
    then obtain y where y: "y \<in> set (t_alerts b)" "alID y = alID x" by (auto simp: alert_ids_def)
    with c(4) obtain y' where y': "y' \<in> set (t_alerts c)" "same_alert y y'" by blast
    have "alID y' = alID x" using same_alert_id [OF y'(2)] y(2) by simp
    then have "y' = x" by (rule alerts.same_id [OF c(1) y'(1) x(1)])
    have "newly_told env a b y" using assms(4) y x(2) by (simp add: told_def)
    then have "newly_told env a b x" using newly_told_same y'(2) \<open>y' = x\<close> by blast
    then show ?thesis by (auto simp: newly_told_def b c)
  qed
qed

lemma calm_refl [simp]: "calm env a a"
  by (auto simp: calm_def undisturbed_def same_world_def intro: same_alert_refl told_same_rows)

lemma calm_trans: "calm env a b \<Longrightarrow> calm env b c \<Longrightarrow> calm env a c"
  unfolding calm_def by (auto intro: undisturbed_trans told_trans simp: same_world_def) (auto simp: undisturbed_def intro: told_trans)

lemma calm_fold: "(\<And>x b. calm env b (f x b)) \<Longrightarrow> calm env a (fold f xs a)"
  by (induction xs arbitrary: a) (auto intro: calm_trans)

lemma calm_faults: "calm env a (a\<lparr>faults := tl (faults a)\<rparr>)"
  by (auto simp: calm_def undisturbed_def same_world_def intro: same_alert_refl told_same_rows)

lemma db_call_next:
  obtains (failed) "db_call f a = (a\<lparr>faults := tl (faults a)\<rparr>, Inl StoreIO)" "faults a \<noteq> []"
  | (ran) "db_call f a = f (a\<lparr>faults := tl (faults a)\<rparr>)"
proof (cases "faults a")
  case Nil
  then have e: "a\<lparr>faults := tl (faults a)\<rparr> = a" by simp
  show ?thesis by (rule ran) (simp only: e, simp add: db_call_def Nil)
next
  case (Cons x xs)
  then show ?thesis by (cases x) (auto simp: db_call_def intro: failed ran)
qed

lemma calm_read: "calm env a (fst (db_read f a))"
  using calm_faults [of _ a] unfolding db_read_def by (cases rule: db_call_next [of "\<lambda>d. (d, f d)" a]) simp_all


lemma calm_insert:
  assumes "find (\<lambda>x. alDedupKey x = alDedupKey r) (t_alerts a) = None" "insert_alert r a = (a1, Inr up)"
    and "alTier r \<noteq> TierResolved"
  shows "calm env a (enqueue env (r\<lparr>alID := upID up\<rparr>) (publish_raised (r\<lparr>alID := upID up\<rparr>) a1))"
proof -
  let ?r = "place_alert (next_id alID (t_alerts a)) (r\<lparr>alAckedAt := None\<rparr>)"
  have a1: "a1 = a\<lparr>t_alerts := t_alerts a @ [?r]\<rparr>" "upID up = next_id alID (t_alerts a)"
    using assms(2) by (auto simp: insert_alert_def Let_def)
  have "next_id alID (t_alerts a) \<notin> alert_ids a"
    using next_id_fresh [of _ "t_alerts a" alID] by (fastforce simp: alert_ids_def)
  moreover have "keyed_alerts a \<Longrightarrow> table_ok alID alDedupKey (t_alerts a @ [?r])"
  proof -
    assume "keyed_alerts a"
    moreover have "alDedupKey r \<notin> alDedupKey ` set (t_alerts a)" using assms(1) by (auto simp: find_None_iff)
    ultimately show "table_ok alID alDedupKey (t_alerts a @ [?r])" using insert_alert_ok [of a r] by (simp add: insert_alert_def Let_def)
  qed
  moreover have "told env a (enqueue env (r\<lparr>alID := upID up\<rparr>) (publish_raised (r\<lparr>alID := upID up\<rparr>) a1))"
    using assms(3)
    by (auto simp: told_def alert_ids_def newly_told_def announces_def queued_as_def a1 enqueue_def publish_raised_def place_alert_def)
  ultimately show ?thesis
    by (auto simp: calm_def undisturbed_def same_world_def a1 enqueue_def publish_raised_def intro: same_alert_refl)
qed

lemma calm_bump:
  "calm env a (a\<lparr>t_alerts := update_row alID i (\<lambda>x. x\<lparr>alLastRaisedAt := t\<rparr>) (t_alerts a)\<rparr>)"
proof -
  have "keyed_alerts a \<Longrightarrow> table_ok alID alDedupKey (update_row alID i (\<lambda>x. x\<lparr>alLastRaisedAt := t\<rparr>) (t_alerts a))"
    by (erule alerts_update_ok) simp
  moreover have "\<exists>x' \<in> set (update_row alID i (\<lambda>x. x\<lparr>alLastRaisedAt := t\<rparr>) (t_alerts a)). same_alert x x'"
    if "x \<in> set (t_alerts a)" for x
    using that unfolding set_update_row
    by (intro bexI [of _ "if alID x = i then x\<lparr>alLastRaisedAt := t\<rparr> else x"]) (auto simp: same_alert_def)
  moreover have "alert_ids (a\<lparr>t_alerts := update_row alID i (\<lambda>x. x\<lparr>alLastRaisedAt := t\<rparr>) (t_alerts a)\<rparr>) = alert_ids a"
    by (simp add: alert_ids_def update_row_ids)
  ultimately show ?thesis by (auto simp: calm_def undisturbed_def same_world_def intro: told_same_rows)
qed

lemma record_alert_calm:
  assumes "alTier r \<noteq> TierResolved"
  shows "calm env a (record_alert env r True a)"
proof (cases "alert_refused r")
  case True
  then show ?thesis by (simp add: record_alert_def ReconcileAlert_def)
next
  case False
  let ?f = "\<lambda>d. case find (\<lambda>x. alDedupKey x = alDedupKey r) (t_alerts d) of
            Some x \<Rightarrow>
              (d\<lparr>t_alerts := update_row alID (alID x) (\<lambda>x. x\<lparr>alLastRaisedAt := alLastRaisedAt r\<rparr>) (t_alerts d)\<rparr>,
               Inr \<lparr>upID = alID x, upNew = False, upReopened = False\<rparr>)
          | None \<Rightarrow> insert_alert r d"
  have call: "ReconcileAlert r a = db_call ?f a" using False by (simp add: ReconcileAlert_def)
  show ?thesis
  proof (cases rule: db_call_next [of ?f a])
    case failed
    then show ?thesis using calm_faults [of _ a] by (simp add: record_alert_def call)
  next
    case ran
    let ?b = "a\<lparr>faults := tl (faults a)\<rparr>"
    show ?thesis
    proof (cases "find (\<lambda>x. alDedupKey x = alDedupKey r) (t_alerts ?b)")
      case None
      obtain b1 up where i: "insert_alert r ?b = (b1, Inr up)" "Notify up" by (auto simp: insert_alert_def Let_def Notify_def)
      have "record_alert env r True a = enqueue env (r\<lparr>alID := upID up\<rparr>) (publish_raised (r\<lparr>alID := upID up\<rparr>) b1)"
        using None i by (simp add: record_alert_def call ran Let_def)
      then show ?thesis using calm_insert [OF None i(1) assms] calm_faults [of _ a] by (auto intro: calm_trans)
    next
      case (Some x)
      then have "record_alert env r True a
          = ?b\<lparr>t_alerts := update_row alID (alID x) (\<lambda>x. x\<lparr>alLastRaisedAt := alLastRaisedAt r\<rparr>) (t_alerts ?b)\<rparr>"
        by (simp add: record_alert_def call ran Notify_def)
      then show ?thesis using calm_bump [of _ ?b] calm_faults [of _ a] by (metis calm_trans)
    qed
  qed
qed

lemma raiseIfAbsent_calm: "cdTier c \<noteq> TierResolved \<Longrightarrow> calm env a (raiseIfAbsent env now c a)"
  by (simp add: raiseIfAbsent_def put_alert_def Let_def record_alert_calm alert_of_def)

lemma news_simps [simp]:
  "cdTier (news t k d s m) = t" "cdKind (news t k d s m) = k" "cdDedupKey (news t k d s m) = d"
  "cdSubject (news t k d s m) = s" "cdMessage (news t k d s m) = m" "cdCloses (news t k d s m) = []"
  "cdOnlyIfStanding (news t k d s m) = False"
  by (simp_all add: news_def)

lemma swept_tiers [simp]:
  "cdTier (mirror_stuck d) = TierWarning" "cdTier (mirror_gave_up d) = TierWarning" "cdTier (tower_silent t) = TierWarning"
  "cdTier (channel_unprotected v) = TierWarning"
  by (simp_all add: mirror_stuck_def mirror_gave_up_def tower_silent_def channel_unprotected_def)

lemma spend_tier: "MapEventToAlert (spend_event s) = Some c \<Longrightarrow> cdTier c \<noteq> TierResolved"
  by (auto simp: MapEventToAlert_def spend_event_def mapFundingSpent_def others_close_def strange_spend_def
      split: if_splits spend_shape.splits)

lemma deadline_tier: "MapEventToAlert (deadline_event sps d) = Some c \<Longrightarrow> cdTier c \<noteq> TierResolved"
  by (auto simp: MapEventToAlert_def deadline_event_def mapDeadlineEscalated_def Let_def split: if_splits)

lemma calm_then:
  assumes "\<And>v b. calm env b (g v b)"
  shows "calm env a (case db_read f a of (b, Inl e) \<Rightarrow> b | (b, Inr v) \<Rightarrow> g v b)"
  using calm_read [of _ a f] assms by (cases "db_read f a") (auto split: sum.split intro: calm_trans)

lemma raise_again_calm:
  assumes "\<And>c. MapEventToAlert e = Some c \<Longrightarrow> cdTier c \<noteq> TierResolved"
  shows "calm env a (raise_again env now e a)"
  using assms by (auto simp: raise_again_def intro: raiseIfAbsent_calm split: option.split)

lemma detectionSweep_calm: "calm env a (detectionSweep env now a)"
  unfolding detectionSweep_def ListSpends_def ListDeadlines_def Let_def
  by (intro calm_then calm_trans [OF calm_fold calm_then] calm_fold)
    (auto intro!: raise_again_calm dest: spend_tier deadline_tier)

lemma mirrorSweep_calm: "calm env a (mirrorSweep env now a)"
  unfolding mirrorSweep_def ListMirrorDecisions_def Let_def
  by (intro calm_then calm_trans [OF calm_fold calm_then] calm_fold) (auto intro!: raiseIfAbsent_calm)

lemma tower_state_calm: "calm env a (tower_state env now t a)"
proof -
  have "calm env a (if twStatus t = TowerUnreachable then raiseIfAbsent env now (tower_silent t) a else a)"
    by (auto intro: raiseIfAbsent_calm)
  then show ?thesis unfolding tower_state_def ListCoverage_def Let_def
    by (rule calm_trans) (intro calm_then calm_fold raiseIfAbsent_calm, simp)
qed

lemma towerSweep_calm: "calm env a (towerSweep env now a)"
  unfolding towerSweep_def ListTowers_def by (intro calm_then calm_fold tower_state_calm)

lemma reconcile_calm: "calm env a (reconcile env now a)"
  unfolding reconcile_def by (meson detectionSweep_calm mirrorSweep_calm towerSweep_calm calm_trans)

text \<open>
  C31: the reconciler never touches what the user has dealt with. Whatever it finds stored and
  whichever calls fail, every recorded alert keeps its tier, its words, its key and its
  acknowledgement, and nothing is published or queued for delivery except alerts that were not
  on record before.
\<close>

theorem reconciler_disturbs_nothing: "undisturbed a (reconcile env now a)"
  using reconcile_calm unfolding calm_def by blast

section \<open>What is stored is reported\<close>

definition known :: "string \<Rightarrow> 'x state_db_scheme \<Rightarrow> bool" where
  "known k a \<longleftrightarrow> k \<in> alDedupKey ` set (t_alerts a)"

definition sound :: "'x alerter_scheme \<Rightarrow> bool" where
  "sound a \<longleftrightarrow> keyed_alerts a \<and> faults a = []"

lemma calm_sound: "calm env a b \<Longrightarrow> sound a \<Longrightarrow> sound b"
  by (auto simp: calm_def undisturbed_def same_world_def sound_def)

lemma calm_known: "calm env a b \<Longrightarrow> sound a \<Longrightarrow> known k a \<Longrightarrow> known k b"
  by (auto simp: calm_def known_def sound_def dest: undisturbed_keys)

lemma calm_world: "calm env a b \<Longrightarrow> same_world a b"
  by (simp add: calm_def)

text \<open>What a key leads to afterwards: the row it led to before, or one that was told.\<close>

lemma calm_tells:
  assumes "calm env a b" "sound a" "known k b"
  shows "\<exists>x \<in> set (t_alerts b). alDedupKey x = k
    \<and> (if known k a then \<exists>y \<in> set (t_alerts a). same_alert y x else newly_told env a b x)"
proof -
  have u: "keyed_alerts a" "keyed_alerts b" "told env a b" "\<forall>y \<in> set (t_alerts a). \<exists>y' \<in> set (t_alerts b). same_alert y y'"
    using assms(1,2) by (auto simp: calm_def sound_def undisturbed_def)
  show ?thesis
  proof (cases "known k a")
    case True
    then obtain y where y: "y \<in> set (t_alerts a)" "alDedupKey y = k" by (auto simp: known_def)
    with u(4) obtain x where "x \<in> set (t_alerts b)" "same_alert y x" by blast
    with y True same_alert_id [of y x] show ?thesis by auto
  next
    case False
    from assms(3) obtain x where x: "x \<in> set (t_alerts b)" "alDedupKey x = k" by (auto simp: known_def)
    have "alID x \<notin> alert_ids a"
    proof
      assume "alID x \<in> alert_ids a"
      then obtain y where y: "y \<in> set (t_alerts a)" "alID y = alID x" by (auto simp: alert_ids_def)
      with u(4) obtain y' where y': "y' \<in> set (t_alerts b)" "same_alert y y'" by blast
      have "y' = x" by (rule alerts.same_id [OF u(2) y'(1) x(1)]) (use y y' same_alert_id in auto)
      with y y' x same_alert_id [of y x] False show False by (auto simp: known_def)
    qed
    with u(3) x False show ?thesis by (auto simp: told_def)
  qed
qed

lemma sound_read: "sound a \<Longrightarrow> db_read f a = (a, f a)"
  by (simp add: sound_def db_read_unfold)

definition acceptable :: "candidate \<Rightarrow> bool" where
  "acceptable c \<longleftrightarrow> cdDedupKey c \<noteq> '''' \<and> Tier_Valid (cdTier c) \<and> cdKind c \<noteq> ''''"

lemma acceptable_iff: "acceptable c \<longleftrightarrow> \<not> alert_refused (alert_of c now)"
  by (auto simp: acceptable_def alert_refused_def alert_of_def)

lemma raiseIfAbsent_known:
  assumes "sound a" "acceptable c" "cdTier c \<noteq> TierResolved"
  shows "known (cdDedupKey c) (raiseIfAbsent env now c a)"
proof -
  let ?r = "alert_of c now"
  have "\<not> alert_refused ?r" "faults a = []" using assms acceptable_iff by (auto simp: sound_def)
  moreover have "alDedupKey ?r = cdDedupKey c" by (simp add: alert_of_def)
  ultimately have "known (cdDedupKey c) (record_alert env ?r True a)"
  proof (cases "find (\<lambda>x. alDedupKey x = alDedupKey ?r) (t_alerts a)")
    case None
    then show ?thesis using \<open>\<not> alert_refused ?r\<close> \<open>faults a = []\<close> \<open>alDedupKey ?r = cdDedupKey c\<close>
      by (auto simp: record_alert_def ReconcileAlert_def db_call_def insert_alert_def Let_def Notify_def enqueue_def
          publish_raised_def known_def place_alert_def)
  next
    case (Some x)
    then have "x \<in> set (t_alerts a)" "alDedupKey x = cdDedupKey c"
      using \<open>alDedupKey ?r = cdDedupKey c\<close> by (auto dest: find_Some_mem)
    moreover have "record_alert env ?r True a
        = a\<lparr>t_alerts := update_row alID (alID x) (\<lambda>x. x\<lparr>alLastRaisedAt := alLastRaisedAt ?r\<rparr>) (t_alerts a)\<rparr>"
      using Some \<open>\<not> alert_refused ?r\<close> \<open>faults a = []\<close>
      by (simp add: record_alert_def ReconcileAlert_def db_call_def Notify_def)
    ultimately show ?thesis
      using update_row_mem [of x "t_alerts a" "\<lambda>x. x\<lparr>alLastRaisedAt := alLastRaisedAt ?r\<rparr>" alID]
      by (auto simp: known_def intro: rev_image_eqI)
  qed
  with assms(3) show ?thesis by (simp add: raiseIfAbsent_def put_alert_def Let_def)
qed

lemma fold_known:
  assumes "\<And>x b. calm env b (f x b)" "\<And>b. sound b \<Longrightarrow> known k (f x b)" "sound a" "x \<in> set xs"
  shows "known k (fold f xs a)"
  using assms(3,4)
proof (induction xs arbitrary: a)
  case (Cons y ys)
  have s: "sound (f y a)" using calm_sound [OF assms(1) Cons.prems(1)] .
  show ?case
  proof (cases "x = y")
    case True
    have "known k (f y a)" using assms(2) [OF Cons.prems(1)] True by simp
    from calm_known [OF calm_fold [OF assms(1)] s this] show ?thesis by simp
  next
    case False
    with Cons s show ?thesis by simp
  qed
qed simp

text \<open>
  What the tables say is wrong, in the words an event would have used: a confirmed spend on the
  other chain, a countdown already announced, a transaction refused often or given up, a tower
  that is down, a channel no tower covers. A listing of spends or of decisions is bounded.
\<close>

definition spend_problems :: "'x alerter_scheme \<Rightarrow> candidate list" where
  "spend_problems a = List.map_filter (\<lambda>s. MapEventToAlert (spend_event s))
     (take 1000 (filter (\<lambda>s. spBranch s = BranchSQ \<and> spStatus s = SpendConfirmed) (t_spends a)))"

definition countdown_problems :: "'x alerter_scheme \<Rightarrow> candidate list" where
  "countdown_problems a = List.map_filter (\<lambda>d. MapEventToAlert (deadline_event [] d))
     (filter (\<lambda>d. dlState d = DeadlineCounting \<and> 0 < dlEscalation d) (t_deadlines a))"

definition newest_in :: "mirror_st \<Rightarrow> 'x alerter_scheme \<Rightarrow> mirror_decision list" where
  "newest_in st a = take 500 (rev (filter (\<lambda>d. mdState d = st) (t_mirror a)))"

definition mirror_problems :: "'x alerter_scheme \<Rightarrow> candidate list" where
  "mirror_problems a = map mirror_stuck (filter (\<lambda>d. triedEnough \<le> mdAttempts d) (newest_in MirrorRejected a))
     @ map mirror_gave_up (newest_in MirrorAbandoned a)"

definition tower_problems :: "'x alerter_scheme \<Rightarrow> candidate list" where
  "tower_problems a = map tower_silent (filter (\<lambda>t. twStatus t = TowerUnreachable) (t_towers a))
     @ map channel_unprotected (filter (\<lambda>c. \<not> cvCoverable c \<and> cvTowerID c \<noteq> 0 \<and> cvTowerID c \<in> twID ` set (t_towers a)) (t_coverage a))"

lemma deadline_key_any: "map_option cdDedupKey (MapEventToAlert (deadline_event sps d)) = map_option cdDedupKey (MapEventToAlert (deadline_event [] d))"
  by (simp add: MapEventToAlert_def deadline_event_def mapDeadlineEscalated_def Let_def)

lemma spend_acceptable: "MapEventToAlert (spend_event s) = Some c \<Longrightarrow> acceptable c"
  by (auto simp: MapEventToAlert_def spend_event_def mapFundingSpent_def others_close_def strange_spend_def acceptable_def
      keyed_def kinds split: if_splits spend_shape.splits)

lemma deadline_acceptable: "MapEventToAlert (deadline_event sps d) = Some c \<Longrightarrow> acceptable c"
  by (auto simp: MapEventToAlert_def deadline_event_def mapDeadlineEscalated_def Let_def acceptable_def kinds split: if_splits)

lemma swept_acceptable [simp]:
  "acceptable (mirror_stuck d)" "acceptable (mirror_gave_up d)" "acceptable (tower_silent t)" "acceptable (channel_unprotected v)"
  by (simp_all add: acceptable_def mirror_stuck_def mirror_gave_up_def tower_silent_def channel_unprotected_def
      KindMirrorStuck_def KindMirrorGaveUp_def kinds keyed_def not_protecting_def)

lemma raise_again_known:
  assumes "sound b" "MapEventToAlert e = Some c" "acceptable c" "cdTier c \<noteq> TierResolved"
  shows "known (cdDedupKey c) (raise_again env now e b)"
  using raiseIfAbsent_known [OF assms(1,3,4)] assms(2) by (simp add: raise_again_def)

lemma spend_step_calm: "calm env b (raise_again env now (spend_event s) b)"
  by (auto intro: raise_again_calm dest: spend_tier)

lemma deadline_step_calm: "calm env b (if dlEscalation d \<le> 0 then b else raise_again env now (deadline_event sps d) b)"
  by (auto intro: raise_again_calm dest: deadline_tier)

lemma detectionSweep_known:
  assumes "sound a" "c \<in> set (spend_problems a) \<union> set (countdown_problems a)"
  shows "known (cdDedupKey c) (detectionSweep env now a)"
proof -
  let ?sps = "take 1000 (filter (\<lambda>s. spBranch s = BranchSQ \<and> spStatus s = SpendConfirmed) (t_spends a))"
  let ?a2 = "fold (\<lambda>s. raise_again env now (spend_event s)) ?sps a"
  let ?f = "\<lambda>d b. if dlEscalation d \<le> 0 then b else raise_again env now (deadline_event ?sps d) b"
  have q2: "calm env a ?a2" by (intro calm_fold spend_step_calm)
  have s2: "sound ?a2" by (rule calm_sound [OF q2 assms(1)])
  have d2: "t_deadlines ?a2 = t_deadlines a" using calm_world [OF q2] by (simp add: same_world_def)
  let ?ds = "sort_key dlHeight (filter (\<lambda>r. dlState r = DeadlineCounting) (t_deadlines a))"
  have sweep: "detectionSweep env now a = fold ?f ?ds ?a2"
    using d2
    by (simp add: sound_read [OF assms(1)] sound_read [OF s2] detectionSweep_def ListSpends_def ListDeadlines_def sq_spends_def clampLimit_def MaxSpendLimit_def Let_def)
  from assms(2) show ?thesis
  proof
    assume "c \<in> set (spend_problems a)"
    then obtain s where s: "s \<in> set ?sps" "MapEventToAlert (spend_event s) = Some c"
      by (auto simp: spend_problems_def List.map_filter_def)
    have "known (cdDedupKey c) ?a2"
      by (rule fold_known [OF spend_step_calm _ assms(1) s(1)])
        (rule raise_again_known [OF _ s(2) spend_acceptable [OF s(2)] spend_tier [OF s(2)]])
    then show ?thesis unfolding sweep by (rule calm_known [OF calm_fold [OF deadline_step_calm] s2])
  next
    assume "c \<in> set (countdown_problems a)"
    then obtain d where d: "d \<in> set ?ds" "0 < dlEscalation d" "MapEventToAlert (deadline_event [] d) = Some c"
      by (auto simp: countdown_problems_def List.map_filter_def)
    from d(3) deadline_key_any [of ?sps d] obtain c' where
      c': "MapEventToAlert (deadline_event ?sps d) = Some c'" "cdDedupKey c' = cdDedupKey c" by auto
    have "known (cdDedupKey c') (fold ?f ?ds ?a2)"
    proof (rule fold_known [OF deadline_step_calm _ s2 d(1)])
      fix b :: "'a alerter_scheme" assume "sound b"
      then show "known (cdDedupKey c') (?f d b)"
        using raise_again_known [OF _ c'(1) deadline_acceptable [OF c'(1)] deadline_tier [OF c'(1)]] d(2) by simp
    qed
    with c'(2) show ?thesis unfolding sweep by simp
  qed
qed

lemma mirrorSweep_known:
  assumes "sound a" "c \<in> set (mirror_problems a)"
  shows "known (cdDedupKey c) (mirrorSweep env now a)"
proof -
  let ?f = "\<lambda>d b. if mdAttempts d < triedEnough then b else raiseIfAbsent env now (mirror_stuck d) b"
  let ?g = "\<lambda>d. raiseIfAbsent env now (mirror_gave_up d)"
  let ?a2 = "fold ?f (newest_in MirrorRejected a) a"
  have qf: "calm env b (?f d b)" for d and b :: "'a alerter_scheme" by (auto intro: raiseIfAbsent_calm)
  have qg: "calm env b (?g d b)" for d and b :: "'a alerter_scheme" by (auto intro: raiseIfAbsent_calm)
  have q2: "calm env a ?a2" by (rule calm_fold [OF qf])
  have s2: "sound ?a2" by (rule calm_sound [OF q2 assms(1)])
  have "t_mirror ?a2 = t_mirror a" using calm_world [OF q2] by (simp add: same_world_def)
  then have sweep: "mirrorSweep env now a = fold ?g (newest_in MirrorAbandoned a) ?a2"
    by (simp add: sound_read [OF assms(1)] sound_read [OF s2 [unfolded newest_in_def]] mirrorSweep_def ListMirrorDecisions_def any_target_def in_state_def newest_in_def DefaultMirrorLimit_def Let_def)
  from assms(2) consider (stuck) d where "d \<in> set (newest_in MirrorRejected a)" "triedEnough \<le> mdAttempts d" "c = mirror_stuck d"
    | (gone) d where "d \<in> set (newest_in MirrorAbandoned a)" "c = mirror_gave_up d" by (auto simp: mirror_problems_def)
  then show ?thesis
  proof cases
    case stuck
    have "known (cdDedupKey c) ?a2"
      by (rule fold_known [OF qf _ assms(1) stuck(1)]) (use stuck in \<open>simp add: raiseIfAbsent_known\<close>)
    then show ?thesis unfolding sweep by (rule calm_known [OF calm_fold [OF qg] s2])
  next
    case gone
    show ?thesis unfolding sweep
      by (rule fold_known [OF qg _ s2 gone(1)]) (use gone in \<open>simp add: raiseIfAbsent_known\<close>)
  qed
qed

lemma towerSweep_known:
  assumes "sound a" "c \<in> set (tower_problems a)"
  shows "known (cdDedupKey c) (towerSweep env now a)"
proof -
  have sweep: "towerSweep env now a = fold (tower_state env now) (t_towers a) a"
    by (simp add: sound_read [OF assms(1)] towerSweep_def ListTowers_def all_towers_def)
  have each: "(twStatus t = TowerUnreachable \<longrightarrow> known (cdDedupKey (tower_silent t)) (tower_state env now t b))
      \<and> (\<forall>v \<in> set (t_coverage b). \<not> cvCoverable v \<longrightarrow> cvTowerID v = twID t \<longrightarrow> cvTowerID v \<noteq> 0
          \<longrightarrow> known (cdDedupKey (channel_unprotected v)) (tower_state env now t b))"
    if b: "sound b" for t and b :: "'a alerter_scheme"
  proof -
    define b1 where "b1 = (if twStatus t = TowerUnreachable then raiseIfAbsent env now (tower_silent t) b else b)"
    let ?g = "\<lambda>v. raiseIfAbsent env now (channel_unprotected v)"
    let ?cs = "sort_key cvChannelID (sort_key cvTowerID (filter (\<lambda>v. (twID t = 0 \<or> cvTowerID v = twID t) \<and> \<not> cvCoverable v) (t_coverage b)))"
    have qg: "calm env b (?g v b)" for v and b :: "'a alerter_scheme" by (auto intro: raiseIfAbsent_calm)
    have q1: "calm env b b1" by (auto simp: b1_def intro: raiseIfAbsent_calm)
    have s1: "sound b1" by (rule calm_sound [OF q1 b])
    have c1: "t_coverage b1 = t_coverage b" using calm_world [OF q1] by (simp add: same_world_def)
    have "tower_state env now t b = (case ListCoverage (uncovered_at (twID t)) b1 of
           (a2, Inl _) \<Rightarrow> a2 | (a2, Inr cs) \<Rightarrow> fold ?g cs a2)" by (simp add: tower_state_def b1_def Let_def)
    then have st: "tower_state env now t b = fold ?g ?cs b1"
      by (simp add: sound_read [OF s1] ListCoverage_def uncovered_at_def c1)
    have "known (cdDedupKey (tower_silent t)) (tower_state env now t b)" if "twStatus t = TowerUnreachable"
      unfolding st by (rule calm_known [OF calm_fold [OF qg] s1]) (use that raiseIfAbsent_known [OF b] in \<open>simp add: b1_def\<close>)
    moreover have "known (cdDedupKey (channel_unprotected v)) (tower_state env now t b)"
      if "v \<in> set (t_coverage b)" "\<not> cvCoverable v" "cvTowerID v = twID t" for v
    proof -
      have "v \<in> set ?cs" using that by simp
      then show ?thesis unfolding st
        by (intro fold_known [OF qg _ s1]) (simp_all add: raiseIfAbsent_known)
    qed
    ultimately show ?thesis by blast
  qed
  from assms(2) consider (down) t where "t \<in> set (t_towers a)" "twStatus t = TowerUnreachable" "c = tower_silent t"
    | (bare) v t where "v \<in> set (t_coverage a)" "\<not> cvCoverable v" "cvTowerID v \<noteq> 0" "t \<in> set (t_towers a)" "cvTowerID v = twID t"
        "c = channel_unprotected v" by (auto simp: tower_problems_def)
  then show ?thesis
  proof cases
    case down
    show ?thesis unfolding sweep
      by (rule fold_known [OF tower_state_calm _ assms(1) down(1)]) (use down each in blast)
  next
    case bare
    obtain ys zs where ts: "t_towers a = ys @ t # zs" using bare(4) by (auto simp: in_set_conv_decomp)
    let ?b = "fold (tower_state env now) ys a"
    have q: "calm env a ?b" by (rule calm_fold [OF tower_state_calm])
    have s: "sound ?b" by (rule calm_sound [OF q assms(1)])
    have "t_coverage ?b = t_coverage a" using calm_world [OF q] by (simp add: same_world_def)
    with each [OF s, of t] bare have k: "known (cdDedupKey c) (tower_state env now t ?b)" by auto
    have "sound (tower_state env now t ?b)" by (rule calm_sound [OF tower_state_calm s])
    from calm_known [OF calm_fold [OF tower_state_calm] this k] show ?thesis unfolding sweep ts by simp
  qed
qed

text \<open>
  C30: an event nobody received is still an alert somebody gets. When the store answers, a pass of the
  reconciler leaves a row under the key of every problem the tables hold: the confirmed spends on the
  other chain, the countdowns already announced, what could not be copied across, the towers that are
  down and the channels they do not cover. If no row bore that key before, the row is new,
  unacknowledged and not a resolution, it was published in its own words, and it is queued for delivery if there
  is a transport and room in the queue. If a row bore the key, it is that row, as it was. Closing an alert takes
  the key from its row, so a problem that was closed and is there again is told again. Of the spends the first thousand
  are looked at, of the refused and of the abandoned copies the newest five hundred each.
\<close>

theorem reconciler_misses_nothing:
  assumes "keyed_alerts a" "faults a = []"
    and "c \<in> set (spend_problems a @ countdown_problems a @ mirror_problems a @ tower_problems a)"
  shows "(\<exists>x \<in> set (t_alerts (reconcile env now a)). alDedupKey x = cdDedupKey c
      \<and> (if known (cdDedupKey c) a then \<exists>y \<in> set (t_alerts a). same_alert y x
         else newly_told env a (reconcile env now a) x))
    \<and> (\<forall>r b i. keyed_alerts b \<and> faults b = [] \<and> ResolveAlert r [] b = (a, Inr i) \<and> i \<noteq> 0 \<and> alDedupKey r = cdDedupKey c
         \<longrightarrow> \<not> known (cdDedupKey c) a)"
proof -
  let ?b = "detectionSweep env now a" and ?c = "mirrorSweep env now (detectionSweep env now a)"
  have s: "sound a" using assms by (simp add: sound_def)
  have qb: "calm env a ?b" by (rule detectionSweep_calm)
  have sb: "sound ?b" by (rule calm_sound [OF qb s])
  have qc: "calm env ?b ?c" by (rule mirrorSweep_calm)
  have sc: "sound ?c" by (rule calm_sound [OF qc sb])
  have mb: "mirror_problems ?b = mirror_problems a"
    using calm_world [OF qb] by (simp add: same_world_def mirror_problems_def newest_in_def)
  have tc: "tower_problems ?c = tower_problems a"
    using calm_world [OF qb] calm_world [OF qc] by (simp add: same_world_def tower_problems_def)
  have "known (cdDedupKey c) (towerSweep env now ?c)"
  proof (cases "c \<in> set (tower_problems a)")
    case True
    then show ?thesis using towerSweep_known [OF sc] tc by simp
  next
    case False
    have "known (cdDedupKey c) ?c"
    proof (cases "c \<in> set (mirror_problems a)")
      case True
      then show ?thesis using mirrorSweep_known [OF sb] mb by simp
    next
      case no: False
      with False assms(3) have "known (cdDedupKey c) ?b" using detectionSweep_known [OF s] by auto
      then show ?thesis by (rule calm_known [OF qc sb])
    qed
    then show ?thesis by (rule calm_known [OF towerSweep_calm sc])
  qed
  then have "known (cdDedupKey c) (reconcile env now a)" by (simp add: reconcile_def)
  then have "\<exists>x \<in> set (t_alerts (reconcile env now a)). alDedupKey x = cdDedupKey c
      \<and> (if known (cdDedupKey c) a then \<exists>y \<in> set (t_alerts a). same_alert y x
         else newly_told env a (reconcile env now a) x)"
    by (rule calm_tells [OF reconcile_calm s])
  moreover have "\<not> known (cdDedupKey c) a"
    if "keyed_alerts b" "faults b = []" "ResolveAlert r [] b = (a, Inr i)" "i \<noteq> 0" "alDedupKey r = cdDedupKey c" for r b i
    using ResolveAlert_closed [OF that(1-4)] that(5) by (auto simp: known_def)
  ultimately show ?thesis by blast
qed

definition seen_close :: spend where
  "seen_close = \<lparr>spID = 1, spBranch = BranchSQ, spChannelID = 7, spOutpointTxID = ''f'', spOutpointVout = 0,
     spSpendTxID = ''c'', spSpendTxHex = '''', spBlockHash = ''b'', spBlockHeight = 100, spShape = ShapeCommitmentUnknown,
     spStatus = SpendConfirmed, spFirstSeenAt = 1, spUpdatedAt = 1\<rparr>"

definition one_route :: transports where
  "one_route = \<lparr>trRoutes = [\<lparr>rtName = ''hook'', rtMinTier = MinTierInfo, rtIncludeDetail = False\<rparr>],
     trConfig = alert_defaults \<lparr>acCriticalRepeat = 0, acSelfTestInterval = 0\<rparr>, trSend = \<lambda>_ _ _. None, trSchedule = \<lambda>_. []\<rparr>"

theorem reconciler_misses_nothing_witness:
  "\<exists>x \<in> set (t_alerts (reconcile one_route 5 (no_alerts\<lparr>t_spends := [seen_close]\<rparr>))).
     alDedupKey x = ''channel_spent:7''
     \<and> newly_told one_route (no_alerts\<lparr>t_spends := [seen_close]\<rparr>) (reconcile one_route 5 (no_alerts\<lparr>t_spends := [seen_close]\<rparr>)) x"
proof -
  let ?a = "no_alerts\<lparr>t_spends := [seen_close]\<rparr>"
  have "MapEventToAlert (spend_event seen_close) = Some (others_close 7)"
    by (simp add: MapEventToAlert_def spend_event_def mapFundingSpent_def seen_close_def)
  then have "others_close 7 \<in> set (spend_problems ?a)"
    by (simp add: spend_problems_def List.map_filter_def seen_close_def)
  moreover have "cdDedupKey (others_close 7) = ''channel_spent:7''" by code_simp
  moreover have "\<not> known k ?a" for k by (simp add: known_def no_alerts_def)
  ultimately show ?thesis
    using reconciler_misses_nothing [of ?a "others_close 7" one_route 5] by (simp add: no_alerts_def table_ok_def)
qed

end
