(* ===== verification/Alerter_Delivery.thy ===== *)
theory Alerter_Delivery
  imports Alerter_Facts "HOL-Library.Multiset"
begin

text \<open>
  What comes out of the alerter: what the store accepts of it, what is repeated, what a transport is
  handed, and the news that never gets out.
\<close>

section \<open>What the mapping produces\<close>

lemma concern_acceptable: "mapTowerConcern ev = Some c \<Longrightarrow> acceptable c"
  by (cases "tcConcern ev")
    (auto simp: mapTowerConcern_def clearedConcern_def raisedConcern_def gap_closed_def tower_gap_def acceptable_def
      not_protecting_def keyed_def kinds Let_def split: if_splits)

lemma tower_acceptable: "mapTowerHealth ev = Some c \<Longrightarrow> acceptable c"
  by (auto simp: mapTowerHealth_def acceptable_def keyed_def kinds Let_def split: if_splits tower_status.splits)

lemma split_acceptable:
  "mapSplitState old new = Some c \<Longrightarrow> acceptable c"
  "mapSplitSuspected b h x y = Some c \<Longrightarrow> acceptable c"
  by (auto simp: mapSplitState_def mapSplitSuspected_def acceptable_def kinds Let_def split: if_splits split_state.splits)

lemma view_acceptable: "mapViewHealth v h = Some c \<Longrightarrow> acceptable c"
  by (auto simp: mapViewHealth_def view_degraded_def acceptable_def view_key_def kinds split: health.splits)

lemma spends_acceptable:
  "mapFundingSpent fs = Some c \<Longrightarrow> acceptable c"
  "mapMempoolSighting ch sh = Some c \<Longrightarrow> acceptable c"
  "mapSpendReorgedOut i = Some c \<Longrightarrow> acceptable c"
  by (auto simp: mapFundingSpent_def mapMempoolSighting_def mapSpendReorgedOut_def others_close_def strange_spend_def
      acceptable_def keyed_def kinds split: if_splits spend_shape.splits)

lemma deadlines_acceptable:
  "mapDeadlineEscalated i l r e = Some c \<Longrightarrow> acceptable c"
  "mapDeadlineResolved i t = Some c \<Longrightarrow> acceptable c"
  "mapExpiredLoss i = Some c \<Longrightarrow> acceptable c"
  by (auto simp: mapDeadlineEscalated_def mapDeadlineResolved_def mapExpiredLoss_def acceptable_def keyed_def kinds Let_def
      split: if_splits)

text \<open>Every candidate the mapping decides on has a key, a kind and one of the five tiers.\<close>

lemma mapped_acceptable: "MapEventToAlert e = Some c \<Longrightarrow> acceptable c"
  using concern_acceptable tower_acceptable split_acceptable view_acceptable spends_acceptable deadlines_acceptable
  by (cases e) (auto simp: MapEventToAlert_def split: dl_event.splits)


section \<open>What is repeated\<close>

definition attempted :: "delivery list \<Rightarrow> int \<Rightarrow> int" where
  "attempted ds i = fold (\<lambda>e m. if m < deAttemptedAt e then deAttemptedAt e else m) (filter (\<lambda>e. deAlertID e = i) ds) 0"

definition repeat_due :: "transports \<Rightarrow> int \<Rightarrow> delivery list \<Rightarrow> alert \<Rightarrow> bool" where
  "repeat_due env now ds al \<longleftrightarrow> Urgent (alTier al)
     \<and> repeatSecs env \<le> i64 (now - (if attempted ds (alID al) = 0 then alLastRaisedAt al else attempted ds (alID al)))"

lemma lastAttemptAt_sound: "faults a = [] \<Longrightarrow> lastAttemptAt i a = (a, attempted (t_deliveries a) i)"
  by (simp add: lastAttemptAt_def ListDeliveries_def db_read_unfold attempted_def)

lemma enqueue_take:
  assumes "trRoutes env \<noteq> []"
  shows "(enqueue env al a)\<lparr>aQueue := aQueue (enqueue env al a) @ take (sendQueue - length (aQueue (enqueue env al a))) xs\<rparr>
    = a\<lparr>aQueue := aQueue a @ take (sendQueue - length (aQueue a)) (al # xs)\<rparr>"
proof (cases "length (aQueue a) < sendQueue")
  case True
  then have "sendQueue - length (aQueue a) = Suc (sendQueue - Suc (length (aQueue a)))" by simp
  with True assms show ?thesis by (simp add: enqueue_def)
qed (simp add: enqueue_def)

lemma escalate_each_exact:
  assumes "faults a = []" "trRoutes env \<noteq> []"
  shows "escalate_each env now als a
    = a\<lparr>aQueue := aQueue a @ take (sendQueue - length (aQueue a)) (filter (repeat_due env now (t_deliveries a)) als)\<rparr>"
  using assms(1)
proof (induction als arbitrary: a)
  case (Cons al als)
  show ?case
  proof (cases "repeat_due env now (t_deliveries a) al")
    case False
    then have "escalate_each env now (al # als) a = escalate_each env now als a"
      using Cons.prems by (auto simp: repeat_due_def lastAttemptAt_sound Let_def)
    with False Cons show ?thesis by simp
  next
    case True
    then have "escalate_each env now (al # als) a = escalate_each env now als (enqueue env al a)"
      using Cons.prems by (auto simp: repeat_due_def lastAttemptAt_sound Let_def)
    also have "\<dots> = (enqueue env al a)\<lparr>aQueue := aQueue (enqueue env al a)
        @ take (sendQueue - length (aQueue (enqueue env al a))) (filter (repeat_due env now (t_deliveries a)) als)\<rparr>"
      using Cons.IH [of "enqueue env al a"] Cons.prems by (simp add: enqueue_def)
    finally show ?thesis using True enqueue_take [OF assms(2)] by simp
  qed
qed simp

text \<open>
  C33: a scan repeats, in order and as far as the queue has room, every urgent alert that is not
  acknowledged and was last attempted, or raised if never attempted, at least the interval ago;
  nothing else changes. But it looks at the hundred oldest unacknowledged alerts of any tier: a
  critical alert behind a hundred others is never repeated.
\<close>

theorem escalation_exact:
  assumes "faults a = []" "trRoutes env \<noteq> []"
  shows "escalate env now a = a\<lparr>aQueue := aQueue a @ take (sendQueue - length (aQueue a))
      (filter (repeat_due env now (t_deliveries a)) (take 100 (filter (\<lambda>x. alAckedAt x = None) (t_alerts a))))\<rparr>"
  using assms escalate_each_exact [OF assms]
  by (simp add: escalate_def ListAlerts_def db_read_unfold clampLimit_def DefaultAlertLimit_def)

definition waiting_alert :: "int \<Rightarrow> alert" where
  "waiting_alert i = (alert_of (others_close i) 100)\<lparr>alID := i\<rparr>"

theorem escalation_exact_witness:
  "map alID (aQueue (escalate one_route 2000 (no_alerts\<lparr>t_alerts := [waiting_alert 1, (waiting_alert 2)\<lparr>alAckedAt := Some 5\<rparr>]\<rparr>))) = [1]"
proof -
  let ?a = "no_alerts\<lparr>t_alerts := [waiting_alert 1, (waiting_alert 2)\<lparr>alAckedAt := Some 5\<rparr>]\<rparr>"
  have "escalate one_route 2000 ?a = ?a\<lparr>aQueue := aQueue ?a @ take (sendQueue - length (aQueue ?a))
      (filter (repeat_due one_route 2000 (t_deliveries ?a)) (take 100 (filter (\<lambda>x. alAckedAt x = None) (t_alerts ?a))))\<rparr>"
    by (rule escalation_exact) (simp_all add: no_alerts_def one_route_def)
  moreover have "repeat_due one_route 2000 [] (waiting_alert 1)"
    by (simp add: repeat_due_def waiting_alert_def alert_of_def others_close_def attempted_def repeatSecs_def one_route_def
        alert_defaults_def DefaultCriticalRepeat_def quo_def i64_def Urgent_def)
  ultimately show ?thesis by (simp add: no_alerts_def waiting_alert_def alert_of_def sendQueue_def)
qed

section \<open>What a transport is handed\<close>

definition handed :: "transports \<Rightarrow> alert \<Rightarrow> (string \<times> payload) list" where
  "handed env al = map (\<lambda>r. (rtName r, PayloadFor al (rtIncludeDetail r)))
     (filter (\<lambda>r. Deliverable (alTier al) (rtMinTier r)) (trRoutes env))"

text \<open>
  One turn of a sender moves it one stage on and changes no other sender; after the schedule and
  two more rounds every sender has ended.
\<close>

definition stage :: "sender \<Rightarrow> nat" where
  "stage = (\<lambda>(r, p, t). case t of ToSend \<Rightarrow> 0 | ToRecord _ \<Rightarrow> 1 | Ended _ \<Rightarrow> 2)"

lemma sent_after_record [simp]: "aSent (fst (RecordDelivery e a)) = aSent a"
  using write_memo(5) [of e a] by (simp add: memo_def)

lemma sendPayload_length [simp]: "length (fst (sendPayload env now al i (gs, a))) = length gs"
  by (auto simp: sendPayload_def split: prod.split progress_of_send.split)

lemma sendPayload_routes: "map fst (fst (sendPayload env now al i (gs, a))) = map fst gs"
proof (cases "i < length gs")
  case True
  obtain r p t where g: "gs ! i = (r, p, t)" by (cases "gs ! i") auto
  with True have "(map fst gs)[i := r] = map fst gs" by (metis fst_conv list_update_id nth_map)
  with True g show ?thesis by (cases t) (simp_all add: sendPayload_def map_update)
qed (simp add: sendPayload_def)

lemma sendPayload_stage:
  assumes "i < length gs"
  shows "stage (fst (sendPayload env now al j (gs, a)) ! i) = (if i = j then min 2 (Suc (stage (gs ! i))) else stage (gs ! i))"
proof (cases "gs ! j")
  case (fields r p t)
  with assms show ?thesis by (cases t) (auto simp: sendPayload_def stage_def nth_list_update)
qed

lemma fold_stage:
  "i < length gs \<Longrightarrow> stage (fst (fold (sendPayload env now al) is (gs, a)) ! i) = min 2 (stage (gs ! i) + count_list is i)"
proof (induction "is" arbitrary: gs a)
  case (Cons j "is")
  obtain gs1 a1 where s: "sendPayload env now al j (gs, a) = (gs1, a1)" by fastforce
  then have "length gs1 = length gs" using sendPayload_length [of env now al j gs a] by simp
  moreover have "stage (gs1 ! i) = (if i = j then min 2 (Suc (stage (gs ! i))) else stage (gs ! i))"
    using sendPayload_stage [OF Cons.prems, of env now al j a] s by simp
  ultimately show ?case using Cons.IH [of gs1 a1] Cons.prems s by auto
qed (auto simp: stage_def split: prod.split progress_of_send.split)

lemma fold_routes: "map fst (fst (fold (sendPayload env now al) is (gs, a))) = map fst gs"
proof (induction "is" arbitrary: gs a)
  case (Cons j "is")
  then show ?case using sendPayload_routes [of env now al j gs a]
    by (cases "sendPayload env now al j (gs, a)") simp
qed simp

lemma count_upt: "i < n \<Longrightarrow> count_list [0..<n] i = 1"
  by (induction n) (auto simp: count_list_0_iff less_Suc_eq)

lemma run_senders_ends:
  assumes "run_senders env now al gs a = (gs1, a1)"
  shows "map fst gs1 = map fst gs" "\<forall>g \<in> set gs1. stage g = 2"
proof -
  have f: "fst (fold (sendPayload env now al) (turns env (length (aSent a)) (length gs)) (gs, a)) = gs1"
    using assms by (simp add: run_senders_def)
  with fold_routes show r: "map fst gs1 = map fst gs" by metis
  have n: "length gs1 = length gs" using arg_cong [OF r, of length] by simp
  have "stage (gs1 ! i) = 2" if "i < length gs" for i
    using fold_stage [OF that, of env now al "turns env (length (aSent a)) (length gs)" a] f count_upt [OF that]
    by (simp add: turns_def)
  then show "\<forall>g \<in> set gs1. stage g = 2" by (simp add: all_set_conv_all_nth n)
qed

text \<open>What is still to be sent and what has been recorded, as multisets over the senders.\<close>

definition unsent :: "sender list \<Rightarrow> (string \<times> payload) multiset" where
  "unsent gs = sum_list (map (\<lambda>g. if stage g = 0 then {#(rtName (fst g), fst (snd g))#} else {#}) gs)"

definition noted :: "sender list \<Rightarrow> (string \<times> bool) multiset" where
  "noted gs = sum_list (map (\<lambda>g. if stage g = 2 then {#(rtName (fst g), answer_of g = None)#} else {#}) gs)"

lemma sum_list_exchange:
  fixes f :: "'a \<Rightarrow> 'b multiset"
  shows "i < length gs \<Longrightarrow> sum_list (map f (gs[i := x])) + f (gs ! i) = sum_list (map f gs) + f x"
proof (induction gs arbitrary: i)
  case (Cons g gs)
  then show ?case by (cases i) (auto simp: ac_simps)
qed simp

lemma sum_list_single: "sum_list (map (\<lambda>g. {#f g#}) gs) = mset (map f gs)"
  by (induction gs) auto

lemma sendPayload_unsent:
  assumes "sendPayload env now al i (gs, a) = (gs1, a1)"
  shows "\<exists>xs. aSent a1 = aSent a @ xs \<and> mset xs + unsent gs1 = unsent gs"
proof (cases "i < length gs")
  case False
  with assms show ?thesis by (simp add: sendPayload_def)
next
  case True
  note exchange = sum_list_exchange [OF True, of "\<lambda>g. if stage g = 0 then {#(rtName (fst g), fst (snd g))#} else {#}", folded unsent_def]
  obtain r p t where g: "gs ! i = (r, p, t)" by (cases "gs ! i") auto
  show ?thesis
  proof (cases t)
    case ToSend
    with assms True g exchange [of "(r, p, ToRecord (trSend env (length (aSent a)) (rtName r) p))"] show ?thesis
      by (auto simp: sendPayload_def stage_def)
  next
    case (ToRecord err)
    with assms True g exchange [of "(r, p, Ended err)"] show ?thesis by (auto simp: sendPayload_def stage_def)
  next
    case (Ended err)
    with assms True g show ?thesis by (simp add: sendPayload_def)
  qed
qed

lemma fold_unsent:
  "fold (sendPayload env now al) is (gs, a) = (gs1, a1) \<Longrightarrow> \<exists>xs. aSent a1 = aSent a @ xs \<and> mset xs + unsent gs1 = unsent gs"
proof (induction "is" arbitrary: gs a)
  case (Cons j "is")
  obtain gs2 a2 where s: "sendPayload env now al j (gs, a) = (gs2, a2)" by fastforce
  from sendPayload_unsent [OF s] obtain xs where xs: "aSent a2 = aSent a @ xs" "mset xs + unsent gs2 = unsent gs" by blast
  from Cons.IH [of gs2 a2] Cons.prems s obtain ys where "aSent a1 = aSent a2 @ ys" "mset ys + unsent gs1 = unsent gs2" by auto
  moreover from this(2) xs(2) have "mset xs + mset ys + unsent gs1 = unsent gs" by (metis add.assoc)
  ultimately show ?case using xs(1) by (intro exI [of _ "xs @ ys"]) simp
qed simp

lemma run_senders_sent:
  assumes "run_senders env now al gs a = (gs1, a1)" "\<forall>g \<in> set gs. stage g = 0"
  shows "\<exists>xs. aSent a1 = aSent a @ xs \<and> mset xs = mset (map (\<lambda>g. (rtName (fst g), fst (snd g))) gs)"
proof -
  have "unsent gs = mset (map (\<lambda>g. (rtName (fst g), fst (snd g))) gs)"
    using assms(2) by (simp add: unsent_def sum_list_single cong: map_cong)
  moreover have "unsent gs1 = {#}"
    using run_senders_ends(2) [OF assms(1)] by (simp add: unsent_def cong: map_cong)
  ultimately show ?thesis using fold_unsent [of env now al _ gs a gs1 a1] assms(1) by (auto simp: run_senders_def)
qed

text \<open>When the store answers, every attempt is recorded of the alert it was made for.\<close>

definition entries :: "delivery list \<Rightarrow> (string \<times> bool) multiset" where
  "entries ds = mset (map (\<lambda>e. (deTransport e, deOK e)) ds)"

definition ready_to_note :: "alert \<Rightarrow> 'x alerter_scheme \<Rightarrow> bool" where
  "ready_to_note al a \<longleftrightarrow> faults a = [] \<and> alID al \<in> alert_ids a"

lemma RecordDelivery_notes:
  assumes "ready_to_note al a" "deAlertID e = alID al" "deTransport e \<noteq> ''''"
  shows "ready_to_note al (fst (RecordDelivery e a))
    \<and> (\<exists>i. t_deliveries (fst (RecordDelivery e a)) = t_deliveries a @ [e\<lparr>deID := i\<rparr>])"
  using assms by (auto simp: RecordDelivery_def db_call_def ready_to_note_def Let_def alert_ids_def list_ex_iff)

lemma sendPayload_notes:
  assumes "sendPayload env now al i (gs, a) = (gs1, a1)" "ready_to_note al a" "\<forall>g \<in> set gs. rtName (fst g) \<noteq> ''''"
  shows "ready_to_note al a1 \<and> (\<exists>ds. t_deliveries a1 = t_deliveries a @ ds \<and> (\<forall>e \<in> set ds. deAlertID e = alID al)
    \<and> noted gs1 = noted gs + entries ds)"
proof (cases "i < length gs")
  case False
  with assms show ?thesis by (simp add: sendPayload_def entries_def)
next
  case True
  note exchange = sum_list_exchange [OF True, of "\<lambda>g. if stage g = 2 then {#(rtName (fst g), answer_of g = None)#} else {#}", folded noted_def]
  obtain r p t where g: "gs ! i = (r, p, t)" by (cases "gs ! i") auto
  with assms(3) True have name: "rtName r \<noteq> ''''" by (metis fst_conv nth_mem)
  show ?thesis
  proof (cases t)
    case ToSend
    with assms True g exchange [of "(r, p, ToRecord (trSend env (length (aSent a)) (rtName r) p))"] show ?thesis
      by (auto simp: sendPayload_def stage_def entries_def ready_to_note_def)
  next
    case (ToRecord err)
    define e where "e = \<lparr>deID = 0, deAlertID = alID al, deTransport = rtName r, deAttemptedAt = now,
                    deOK = (err = None), deError = redactError err\<rparr>"
    have "gs1 = gs[i := (r, p, Ended err)]" "a1 = fst (RecordDelivery e a)"
      using assms(1) True g ToRecord by (auto simp: sendPayload_def e_def)
    moreover have "noted (gs[i := (r, p, Ended err)]) = noted gs + {#(rtName r, err = None)#}"
      using exchange [of "(r, p, Ended err)"] g ToRecord by (simp add: stage_def answer_of_def)
    moreover have "deAlertID e = alID al" "deTransport e = rtName r" "deOK e = (err = None)" by (simp_all add: e_def)
    ultimately show ?thesis using RecordDelivery_notes [OF assms(2), of e] name by (auto simp: entries_def)
  next
    case (Ended err)
    with assms True g show ?thesis by (simp add: sendPayload_def entries_def)
  qed
qed

lemma fold_notes:
  "fold (sendPayload env now al) is (gs, a) = (gs1, a1) \<Longrightarrow> ready_to_note al a \<Longrightarrow> \<forall>g \<in> set gs. rtName (fst g) \<noteq> ''''
   \<Longrightarrow> \<exists>ds. t_deliveries a1 = t_deliveries a @ ds \<and> (\<forall>e \<in> set ds. deAlertID e = alID al) \<and> noted gs1 = noted gs + entries ds"
proof (induction "is" arbitrary: gs a)
  case Nil
  then show ?case by (simp add: entries_def)
next
  case (Cons j "is")
  obtain gs2 a2 where s: "sendPayload env now al j (gs, a) = (gs2, a2)" by fastforce
  from sendPayload_notes [OF s Cons.prems(2,3)] obtain ds where ds: "ready_to_note al a2"
    "t_deliveries a2 = t_deliveries a @ ds" "\<forall>e \<in> set ds. deAlertID e = alID al" "noted gs2 = noted gs + entries ds" by blast
  have "map fst gs2 = map fst gs" using sendPayload_routes [of env now al j gs a] s by simp
  then have "fst ` set gs2 = fst ` set gs" by (metis set_map)
  then have "\<forall>g \<in> set gs2. rtName (fst g) \<noteq> ''''" using Cons.prems(3) by (metis image_iff)
  from Cons.IH [OF _ ds(1) this] Cons.prems(1) s obtain es where "t_deliveries a1 = t_deliveries a2 @ es"
    "\<forall>e \<in> set es. deAlertID e = alID al" "noted gs1 = noted gs2 + entries es" by auto
  with ds show ?case by (intro exI [of _ "ds @ es"]) (auto simp: entries_def ac_simps)
qed

text \<open>What two deliveries send looks alike to every transport not asked for detail.\<close>

definition detailed :: "transports \<Rightarrow> string set" where
  "detailed env = rtName ` set (filter rtIncludeDetail (trRoutes env))"

definition alike :: "string set \<Rightarrow> (string \<times> payload) list \<Rightarrow> (string \<times> payload) list \<Rightarrow> bool" where
  "alike det xs ys \<longleftrightarrow> list_all2 (\<lambda>x y. fst x = fst y \<and> (fst x \<notin> det \<longrightarrow> x = y)) xs ys"

definition in_step :: "string set \<Rightarrow> sender list \<Rightarrow> sender list \<Rightarrow> bool" where
  "in_step det gs hs \<longleftrightarrow> list_all2 (\<lambda>g h. fst g = fst h \<and> stage g = stage h
     \<and> (rtName (fst g) \<notin> det \<longrightarrow> fst (snd g) = fst (snd h))) gs hs"

lemma sendPayload_alike:
  assumes "in_step det gs hs" "alike det (aSent a) (aSent b)"
    and "sendPayload env now al i (gs, a) = (gs1, a1)" "sendPayload env later al' i (hs, b) = (hs1, b1)"
  shows "in_step det gs1 hs1 \<and> alike det (aSent a1) (aSent b1)"
proof (cases "i < length gs")
  case False
  then show ?thesis using assms list_all2_lengthD [of _ gs hs] by (simp add: sendPayload_def in_step_def)
next
  case True
  then have i: "i < length hs" using assms(1) list_all2_lengthD unfolding in_step_def by fastforce
  obtain r p t q t' where g: "gs ! i = (r, p, t)" "hs ! i = (r, q, t')"
    and s: "stage (gs ! i) = stage (hs ! i)" "rtName r \<notin> det \<longrightarrow> p = q"
    using list_all2_nthD [OF assms(1) [unfolded in_step_def] True] by (cases "gs ! i", cases "hs ! i") auto
  have upd: "in_step det (gs[i := (r, p, x)]) (hs[i := (r, q, y)])" if "stage (r, p, x) = stage (r, q, y)" for x y
    using assms(1) that s(2) unfolding in_step_def by (intro list_all2_update_cong) auto
  have cat: "alike det (aSent a @ [(rtName r, p)]) (aSent b @ [(rtName r, q)])"
    using assms(2) s(2) unfolding alike_def by (intro list_all2_appendI) auto
  show ?thesis
    using s(1) assms True i g cat
    by (cases t; cases t') (auto simp: sendPayload_def stage_def intro!: upd)
qed

lemma fold_alike:
  "in_step det gs hs \<Longrightarrow> alike det (aSent a) (aSent b)
   \<Longrightarrow> alike det (aSent (snd (fold (sendPayload env now al) is (gs, a)))) (aSent (snd (fold (sendPayload env later al') is (hs, b))))"
proof (induction "is" arbitrary: gs hs a b)
  case (Cons j "is")
  obtain gs1 a1 hs1 b1 where s: "sendPayload env now al j (gs, a) = (gs1, a1)" "sendPayload env later al' j (hs, b) = (hs1, b1)"
    by (metis surj_pair)
  from sendPayload_alike [OF Cons.prems s] Cons.IH [of gs1 hs1 a1 b1] s show ?case by simp
qed simp

text \<open>
  C34: what leaves the machine, in whatever order the transports' goroutines take their turns. Delivering
  an alert hands every transport whose threshold its tier reaches one payload, and nothing
  else to anybody. When the store answers, every attempt is recorded of that alert, and the number
  returned is that of the attempts recorded as delivered. And no transport that was not asked for
  detail learns what the alert is about: of two alerts of one tier and kind, about whichever channel and in
  whatever words, the same transports are told in the same order, and those without detail
  the very same bytes.
\<close>

theorem detail_stays_home:
  "(\<exists>xs. aSent (fst (Deliver env now al a)) = aSent a @ xs \<and> mset xs = mset (handed env al))
   \<and> (faults a = [] \<and> alID al \<in> alert_ids a \<and> (\<forall>r \<in> set (trRoutes env). rtName r \<noteq> '''') \<longrightarrow>
        (\<exists>ds. t_deliveries (fst (Deliver env now al a)) = t_deliveries a @ ds \<and> (\<forall>e \<in> set ds. deAlertID e = alID al)
          \<and> mset (map deTransport ds) = mset (map fst (handed env al))
          \<and> snd (Deliver env now al a) = int (length (filter deOK ds))))
   \<and> (\<forall>al' b later. alTier al' = alTier al \<and> alKind al' = alKind al \<and> aSent b = aSent a
        \<longrightarrow> alike (detailed env) (aSent (fst (Deliver env now al a))) (aSent (fst (Deliver env later al' b))))"
proof -
  let ?wanted = "\<lambda>al. map (send al) (filter (\<lambda>r. Deliverable (alTier al) (rtMinTier r)) (trRoutes env))"
  obtain gs1 a1 where run: "run_senders env now al (?wanted al) a = (gs1, a1)" by fastforce
  have d: "Deliver env now al a = (a1, int (length (filter (\<lambda>g. answer_of g = None) gs1)))" using run by (simp add: Deliver_def)
  have fresh: "\<forall>g \<in> set (?wanted al). stage g = 0" by (auto simp: send_def stage_def)
  have h: "map (\<lambda>g. (rtName (fst g), fst (snd g))) (?wanted al) = handed env al" by (simp add: handed_def send_def)
  have 1: "\<exists>xs. aSent a1 = aSent a @ xs \<and> mset xs = mset (handed env al)"
    using run_senders_sent [OF run fresh] unfolding h .
  have 2: "\<exists>ds. t_deliveries a1 = t_deliveries a @ ds \<and> (\<forall>e \<in> set ds. deAlertID e = alID al)
      \<and> mset (map deTransport ds) = mset (map fst (handed env al))
      \<and> int (length (filter (\<lambda>g. answer_of g = None) gs1)) = int (length (filter deOK ds))"
    if ok: "faults a = []" "alID al \<in> alert_ids a" "\<forall>r \<in> set (trRoutes env). rtName r \<noteq> ''''"
  proof -
    have "\<forall>g \<in> set (?wanted al). rtName (fst g) \<noteq> ''''" using ok(3) by (auto simp: send_def)
    from fold_notes [OF run [unfolded run_senders_def] _ this] ok(1,2) obtain ds where
      ds: "t_deliveries a1 = t_deliveries a @ ds" "\<forall>e \<in> set ds. deAlertID e = alID al" "noted gs1 = noted (?wanted al) + entries ds"
      unfolding ready_to_note_def by blast
    have "noted (?wanted al) = {#}" by (simp add: noted_def send_def stage_def comp_def)
    moreover have "noted gs1 = mset (map (\<lambda>g. (rtName (fst g), answer_of g = None)) gs1)"
      using run_senders_ends(2) [OF run] by (simp add: noted_def sum_list_single cong: map_cong)
    ultimately have n: "mset (map (\<lambda>g. (rtName (fst g), answer_of g = None)) gs1) = mset (map (\<lambda>e. (deTransport e, deOK e)) ds)"
      using ds(3) by (simp add: entries_def)
    have "mset (map rtName (map fst gs1)) = mset (map deTransport ds)"
      using arg_cong [OF n, of "image_mset fst"] by (simp add: multiset.map_comp comp_def)
    moreover have "map rtName (map fst gs1) = map fst (handed env al)"
      unfolding run_senders_ends(1) [OF run] by (simp add: handed_def send_def comp_def)
    moreover have "length (filter (\<lambda>g. answer_of g = None) gs1) = length (filter deOK ds)"
      using arg_cong [OF n, of "\<lambda>m. size (filter_mset snd m)"]
      by (simp flip: mset_filter mset_map add: filter_map comp_def)
    ultimately show ?thesis using ds by metis
  qed
  have 3: "alike (detailed env) (aSent a1) (aSent (fst (Deliver env later al' b)))"
    if eq: "alTier al' = alTier al" "alKind al' = alKind al" "aSent b = aSent a" for al' later and b :: "'b alerter_scheme"
  proof -
    have i: "in_step (detailed env) (?wanted al) (?wanted al')"
      using eq(1,2)
      by (auto simp: in_step_def list_all2_map1 list_all2_map2 list_all2_same send_def stage_def detailed_def PayloadFor_def Let_def)
    have e: "alike (detailed env) (aSent a) (aSent b)" using eq(3) by (simp add: alike_def list_all2_same)
    have "alike (detailed env) (aSent (snd (run_senders env now al (?wanted al) a)))
        (aSent (snd (run_senders env later al' (?wanted al') b)))"
      using fold_alike [OF i e, of env now al "turns env (length (aSent a)) (length (?wanted al))" later al'] eq
      by (simp add: run_senders_def)
    then show ?thesis using run by (simp add: Deliver_def case_prod_beta)
  qed
  show ?thesis unfolding d fst_conv snd_conv
    using 1 2 3 by blast
qed

text \<open>Two transports, the second asked for detail, whose goroutines take turns.\<close>

definition two_routes :: transports where
  "two_routes = one_route\<lparr>trRoutes := [\<lparr>rtName = ''hook'', rtMinTier = MinTierInfo, rtIncludeDetail = False\<rparr>,
     \<lparr>rtName = ''mail'', rtMinTier = MinTierInfo, rtIncludeDetail = True\<rparr>], trSchedule := \<lambda>_. [1, 0, 0, 1]\<rparr>"

theorem detail_stays_home_witness:
  "(\<exists>xs. aSent (fst (Deliver two_routes 5 (waiting_alert 7) (no_alerts\<lparr>t_alerts := [waiting_alert 7]\<rparr>))) = xs
      \<and> mset xs = {# (''hook'', \<lparr>plVersion = ''v1'', plTier = ''critical'', plKind = ''channel_spent'', plSubject = '''',
                      plMessage = ContentFreeMessage\<rparr>),
                    (''mail'', PayloadFor (waiting_alert 7) True) #})
   \<and> size (mset (t_deliveries (fst (Deliver two_routes 5 (waiting_alert 7) (no_alerts\<lparr>t_alerts := [waiting_alert 7]\<rparr>))))) = 2
   \<and> alike {''mail''} (aSent (fst (Deliver two_routes 5 (waiting_alert 7) (no_alerts\<lparr>t_alerts := [waiting_alert 7]\<rparr>))))
       (aSent (fst (Deliver two_routes 9 (waiting_alert 8) (no_alerts\<lparr>t_alerts := [waiting_alert 7]\<rparr>))))"
proof -
  let ?a = "no_alerts\<lparr>t_alerts := [waiting_alert 7]\<rparr>"
  note t = detail_stays_home [of two_routes 5 "waiting_alert 7" ?a]
  have h: "handed two_routes (waiting_alert 7) = [(''hook'', \<lparr>plVersion = ''v1'', plTier = ''critical'', plKind = ''channel_spent'', plSubject = '''',
                      plMessage = ContentFreeMessage\<rparr>), (''mail'', PayloadFor (waiting_alert 7) True)]"
    by (simp add: handed_def two_routes_def one_route_def waiting_alert_def alert_of_def others_close_def Deliverable_def
        PayloadFor_def PayloadVersion_def kinds)
  have ok: "faults ?a = []" "alID (waiting_alert 7) \<in> alert_ids ?a" "\<forall>r \<in> set (trRoutes two_routes). rtName r \<noteq> ''''"
    "detailed two_routes = {''mail''}" "aSent ?a = []" "t_deliveries ?a = []"
    by (auto simp: no_alerts_def alert_ids_def two_routes_def detailed_def)
  from t [THEN conjunct2, THEN conjunct1] ok obtain ds where "t_deliveries (fst (Deliver two_routes 5 (waiting_alert 7) ?a)) = ds"
    "mset (map deTransport ds) = mset (map fst (handed two_routes (waiting_alert 7)))" by auto
  moreover from this(2) have "length (map deTransport ds) = length (map fst (handed two_routes (waiting_alert 7)))"
    by (rule mset_eq_length)
  ultimately have "size (mset (t_deliveries (fst (Deliver two_routes 5 (waiting_alert 7) ?a)))) = 2"
    using h by simp
  moreover have same: "alTier (waiting_alert 8) = alTier (waiting_alert 7)" "alKind (waiting_alert 8) = alKind (waiting_alert 7)"
    by (simp_all add: waiting_alert_def alert_of_def others_close_def)
  moreover have "\<exists>xs. aSent (fst (Deliver two_routes 5 (waiting_alert 7) ?a)) = xs \<and> mset xs = mset (handed two_routes (waiting_alert 7))"
    using t [THEN conjunct1] ok(5) by simp
  moreover have "alike {''mail''} (aSent (fst (Deliver two_routes 5 (waiting_alert 7) ?a)))
      (aSent (fst (Deliver two_routes 9 (waiting_alert 8) ?a)))"
    using t [THEN conjunct2, THEN conjunct2, rule_format, of "waiting_alert 8" ?a 9] same ok(4) by simp
  ultimately show ?thesis unfolding h mset.simps by blast
qed

section \<open>What never gets out\<close>

text \<open>The first news under a key is written down, published and queued; the next one only moves the time of the row.\<close>

lemma raise_first:
  assumes "faults a = []" "acceptable c" "\<not> known (cdDedupKey c) a" "cdCloses c = []" "\<not> cdOnlyIfStanding c"
  shows "t_alerts (raise_alert env now c a) = t_alerts a @ [place_alert (next_id alID (t_alerts a)) (alert_of c now)]
    \<and> faults (raise_alert env now c a) = []
    \<and> (keyed_alerts a \<longrightarrow> keyed_alerts (raise_alert env now c a))
    \<and> (\<exists>p. aPublished (raise_alert env now c a) = aPublished a @ [p] \<and> arMessage p = cdMessage c)"
proof -
  let ?r = "alert_of c now"
  have k: "alDedupKey ?r = cdDedupKey c" "?r\<lparr>alAckedAt := None\<rparr> = ?r" "alMessage ?r = cdMessage c" by (simp_all add: alert_of_def)
  have none: "find (\<lambda>x. alDedupKey x = cdDedupKey c) (t_alerts a) = None" "find (standing (cdDedupKey c)) (t_alerts a) = None"
    using assms(3) by (force simp: known_def find_None_iff standing_def)+
  have ok: "\<not> alert_refused ?r" using assms(2) by (rule acceptable_iff [THEN iffD1])
  have r: "ResolveAlert ?r [] a = (a, Inr 0)"
    using assms(1,2) none(2) k by (simp add: ResolveAlert_def db_call_def acceptable_def)
  have "raise_alert env now c a = record_alert env ?r False a"
    using assms(4,5) r by (simp add: raise_alert_def put_alert_def Let_def)
  moreover have "UpsertAlert ?r a = insert_alert ?r a" using assms(1) none(1) k ok by (simp add: UpsertAlert_def db_call_def)
  ultimately have e: "raise_alert env now c a = (let r = ?r\<lparr>alID := next_id alID (t_alerts a)\<rparr> in
      enqueue env r (publish_raised r (a\<lparr>t_alerts := t_alerts a @ [place_alert (next_id alID (t_alerts a)) ?r]\<rparr>)))"
    using k(2) by (simp add: record_alert_def insert_alert_def Let_def Notify_def)
  have "alDedupKey ?r \<notin> alDedupKey ` set (t_alerts a)" using assms(3) k by (simp add: known_def)
  with insert_alert_ok [of a ?r] k(2)
  have "keyed_alerts a \<Longrightarrow> table_ok alID alDedupKey (t_alerts a @ [place_alert (next_id alID (t_alerts a)) ?r])"
    by (simp add: insert_alert_def Let_def)
  with assms(1) k(3) show ?thesis by (simp add: e Let_def enqueue_def publish_raised_def)
qed

lemma raise_over_open:
  assumes "faults a = []" "acceptable c" "cdTier c \<noteq> TierResolved" "find (\<lambda>x. alDedupKey x = cdDedupKey c) (t_alerts a) = Some x"
    and "alAckedAt x = None"
  shows "memo (raise_alert env now c a) = memo a \<and> faults (raise_alert env now c a) = []
    \<and> (keyed_alerts a \<longrightarrow> keyed_alerts (raise_alert env now c a))
    \<and> x\<lparr>alLastRaisedAt := now\<rparr> \<in> set (t_alerts (raise_alert env now c a))"
proof -
  let ?u = "\<lambda>x. x\<lparr>alLastRaisedAt := now, alAckedAt := None\<rparr>"
  have k: "alDedupKey (alert_of c now) = cdDedupKey c" "alLastRaisedAt (alert_of c now) = now" by (simp_all add: alert_of_def)
  have ok: "\<not> alert_refused (alert_of c now)" using assms(2) by (rule acceptable_iff [THEN iffD1])
  have e: "raise_alert env now c a = a\<lparr>t_alerts := update_row alID (alID x) ?u (t_alerts a)\<rparr>"
    using assms k ok by (simp add: raise_alert_def put_alert_def record_alert_def UpsertAlert_def db_call_def Notify_def Let_def)
  have "x \<in> set (t_alerts a)" using assms(4) by (auto dest: find_Some_mem)
  from update_row_mem [OF this, of ?u alID] have "?u x \<in> set (t_alerts (raise_alert env now c a))" by (simp add: e)
  moreover have "?u x = x\<lparr>alLastRaisedAt := now\<rparr>" using assms(5) by simp
  moreover have "keyed_alerts a \<Longrightarrow> table_ok alID alDedupKey (update_row alID (alID x) ?u (t_alerts a))"
    by (erule alerts_update_ok) simp
  ultimately show ?thesis using assms(1) by (simp add: e memo_def)
qed

text \<open>So of two pieces of news under one key the second is told to nobody, and the row keeps the words of the first.\<close>

lemma second_is_swallowed:
  assumes "faults a = []" "MapEventToAlert e1 = Some c1" "MapEventToAlert e2 = Some c2" "cdDedupKey c2 = cdDedupKey c1"
    and "\<not> known (cdDedupKey c1) a" "cdCloses c1 = []" "\<not> cdOnlyIfStanding c1" "cdTier c2 \<noteq> TierResolved"
  shows "let a1 = alert_event env t1 e1 a; a2 = alert_event env t2 e2 a1
    in memo a2 = memo a1 \<and> (keyed_alerts a \<longrightarrow> keyed_alerts a2)
      \<and> (\<exists>x \<in> set (t_alerts a2). alDedupKey x = cdDedupKey c2 \<and> alTier x = cdTier c1
      \<and> alMessage x = cdMessage c1 \<and> alAckedAt x = None)"
proof -
  let ?a1 = "alert_event env t1 e1 a"
  let ?row = "place_alert (next_id alID (t_alerts a)) (alert_of c1 t1)"
  have a1: "t_alerts ?a1 = t_alerts a @ [?row]" "faults ?a1 = []" "keyed_alerts a \<longrightarrow> keyed_alerts ?a1"
    using raise_first [OF assms(1) mapped_acceptable [OF assms(2)] assms(5-7), of env t1] assms(2) by (auto simp: alert_event_def)
  have row: "alDedupKey ?row = cdDedupKey c1" "alAckedAt ?row = None" "alTier ?row = cdTier c1" "alMessage ?row = cdMessage c1"
    by (simp_all add: place_alert_def alert_of_def)
  have "find (\<lambda>x. alDedupKey x = cdDedupKey c1) (t_alerts a) = None" using assms(5) by (force simp: known_def find_None_iff)
  then have f: "find (\<lambda>x. alDedupKey x = cdDedupKey c2) (t_alerts ?a1) = Some ?row"
    using row(1) assms(4) by (simp add: a1 find_app)
  note o = raise_over_open [OF a1(2) mapped_acceptable [OF assms(3)] assms(8) f row(2), of env t2]
  have a2: "alert_event env t2 e2 ?a1 = raise_alert env t2 c2 ?a1" using assms(3) by (simp add: alert_event_def)
  have "\<exists>x \<in> set (t_alerts (raise_alert env t2 c2 ?a1)). alDedupKey x = cdDedupKey c2 \<and> alTier x = cdTier c1
      \<and> alMessage x = cdMessage c1 \<and> alAckedAt x = None"
    using o row assms(4) by (intro bexI [of _ "?row\<lparr>alLastRaisedAt := t2\<rparr>"]) simp_all
  with o a1(3) show ?thesis unfolding Let_def a2 by blast
qed

text \<open>
  An alert keeps the words and the tier of the first news under its key. A channel whose
  agreed close was seen to confirm and whose later close is a breach, as when the first was
  reorganised away, has one row: the second event announces nothing, queues nothing and leaves
  the row saying that nothing needs doing, at a tier that is never repeated.
\<close>

theorem later_breach_is_swallowed:
  assumes "faults a = []" "\<not> known (keyed KindChannelSpent ch) a"
    and "fsStatus e1 = SpendConfirmed" "fsShape e1 = ShapeMutualClose" "fsChannelID e1 = ch"
    and "fsStatus e2 = SpendConfirmed" "fsChannelID e2 = ch" "MapEventToAlert (EFundingSpent e2) = Some c"
  shows "let a1 = alert_event env t1 (EFundingSpent e1) a; a2 = alert_event env t2 (EFundingSpent e2) a1
    in memo a2 = memo a1
      \<and> (\<exists>x \<in> set (t_alerts a2). alDedupKey x = cdDedupKey c \<and> alTier x = TierInfo \<and> alAckedAt x = None
          \<and> alMessage x = ''One of your channels was closed by agreement on the other chain. Nothing needs doing.'')"
proof -
  let ?c1 = "news TierInfo KindChannelSpent (keyed KindChannelSpent ch) ''A channel was closed on the other chain''
    ''One of your channels was closed by agreement on the other chain. Nothing needs doing.''"
  have "cdDedupKey c = cdDedupKey ?c1" "cdTier c \<noteq> TierResolved"
    using assms(6-8) by (auto simp: MapEventToAlert_def mapFundingSpent_def others_close_def strange_spend_def
        split: spend_shape.splits)
  moreover have "MapEventToAlert (EFundingSpent e1) = Some ?c1"
    using assms(3-5) by (simp add: MapEventToAlert_def mapFundingSpent_def)
  ultimately show ?thesis
    using second_is_swallowed [OF assms(1) _ assms(8), of "EFundingSpent e1" ?c1 env t1 t2] assms(2)
    by (auto simp: Let_def)
qed

definition spent_as :: "spend_shape \<Rightarrow> funding_spent" where
  "spent_as sh = \<lparr>fsBranch = BranchSQ, fsChannelID = 7, fsSpendEventID = 1, fsShape = sh, fsStatus = SpendConfirmed\<rparr>"

theorem later_breach_is_swallowed_witness:
  "let a1 = alert_event one_route 10 (EFundingSpent (spent_as ShapeMutualClose)) no_alerts;
       a2 = alert_event one_route 20 (EFundingSpent (spent_as ShapeCommitmentRevoked)) a1
   in memo a2 = memo a1 \<and> length (aQueue a1) = 1"
proof -
  have m: "MapEventToAlert (EFundingSpent (spent_as ShapeCommitmentRevoked)) = Some (others_close 7)"
    by (simp add: MapEventToAlert_def mapFundingSpent_def spent_as_def)
  have "length (aQueue (alert_event one_route 10 (EFundingSpent (spent_as ShapeMutualClose)) no_alerts)) = 1"
    by code_simp
  then show ?thesis
    using later_breach_is_swallowed [of no_alerts 7 "spent_as ShapeMutualClose" "spent_as ShapeCommitmentRevoked" _ one_route 10 20, OF _ _ _ _ _ _ _ m]
    by (simp add: no_alerts_def table_ok_def known_def spent_as_def Let_def)
qed

text \<open>
  C32: a recovery that nothing preceded hides the next failure. Let no alert about a watchtower stand, and let the
  tower be reported as answering again, as when it was first seen down while it was starting, or only
  settling. That leaves a resolved row under its key. When the tower then fails, with an event that would have
  been published had the recovery not come first, nothing is published, queued or sent, and the row
  goes on saying that the tower answers again, at a tier that is never repeated; the reconciler leaves
  that row as it is. No call of the store fails.
\<close>

theorem recovery_hides_the_next_failure:
  assumes "keyed_alerts a" "faults a = []" "\<not> known (keyed KindTowerDown (hcTowerID down)) a"
    and "hcTowerID up = hcTowerID down" "MapEventToAlert (ETowerHealthChanged up) = Some c1" "cdTier c1 = TierResolved"
    and "hcStatus down = TowerUnreachable" "MapEventToAlert (ETowerHealthChanged down) = Some c2"
  shows "let a1 = alert_event env t1 (ETowerHealthChanged up) a; a2 = alert_event env t2 (ETowerHealthChanged down) a1
    in memo a2 = memo a1
      \<and> (\<exists>p. aPublished (alert_event env t2 (ETowerHealthChanged down) a) = aPublished a @ [p] \<and> arMessage p = cdMessage c2)
      \<and> (\<exists>x \<in> set (t_alerts (reconcile env t3 a2)). alDedupKey x = cdDedupKey c2 \<and> alTier x = TierResolved
          \<and> alMessage x = cdMessage c1 \<and> alAckedAt x = None)"
proof -
  let ?k = "keyed KindTowerDown (hcTowerID down)"
  have c1: "cdDedupKey c1 = ?k" "cdCloses c1 = []" "\<not> cdOnlyIfStanding c1"
    using assms(4-6) by (auto simp: MapEventToAlert_def mapTowerHealth_def Let_def split: tower_status.splits if_splits)
  have c2: "cdDedupKey c2 = ?k" "cdTier c2 \<noteq> TierResolved" "cdCloses c2 = []" "\<not> cdOnlyIfStanding c2"
    using assms(7,8) by (auto simp: MapEventToAlert_def mapTowerHealth_def Let_def split: if_splits)
  have key: "cdDedupKey c2 = cdDedupKey c1" "\<not> known (cdDedupKey c1) a" "\<not> known (cdDedupKey c2) a"
    using c1(1) c2(1) assms(3) by simp_all
  define a1 where "a1 = alert_event env t1 (ETowerHealthChanged up) a"
  define a2 where "a2 = alert_event env t2 (ETowerHealthChanged down) a1"
  note s = second_is_swallowed [OF assms(2,5,8) key(1,2) c1(2,3) c2(2), of env t1 t2,
      unfolded Let_def, folded a1_def, folded a2_def]
  then obtain x where x: "x \<in> set (t_alerts a2)" "alDedupKey x = cdDedupKey c2" "alTier x = TierResolved"
    "alMessage x = cdMessage c1" "alAckedAt x = None" using assms(6) by auto
  have "keyed_alerts a2" using s assms(1) by blast
  with reconcile_calm [of env a2 t3] x(1) obtain y where y: "y \<in> set (t_alerts (reconcile env t3 a2))" "same_alert x y"
    unfolding calm_def undisturbed_def by blast
  from y(2) obtain t where "y = x\<lparr>alLastRaisedAt := t\<rparr>" by (auto simp: same_alert_def)
  with y(1) x have "\<exists>y \<in> set (t_alerts (reconcile env t3 a2)). alDedupKey y = cdDedupKey c2 \<and> alTier y = TierResolved
      \<and> alMessage y = cdMessage c1 \<and> alAckedAt y = None"
    by (intro bexI [of _ "x\<lparr>alLastRaisedAt := t\<rparr>"]) simp_all
  moreover have "\<exists>p. aPublished (alert_event env t2 (ETowerHealthChanged down) a) = aPublished a @ [p] \<and> arMessage p = cdMessage c2"
    using raise_first [OF assms(2) mapped_acceptable [OF assms(8)] key(3) c2(3,4), of env t2] assms(8) by (simp add: alert_event_def)
  ultimately show ?thesis using s unfolding Let_def a1_def [symmetric] a2_def [symmetric] by blast
qed

text \<open>Tower 4: down while it starts, answering, and down.\<close>

definition tower_turns :: "tower_status \<Rightarrow> tower_status \<Rightarrow> tower_health_changed" where
  "tower_turns st prev = \<lparr>hcTowerID = 4, hcStatus = st, hcDetail = '''', hcPrevious = prev\<rparr>"

theorem recovery_hides_the_next_failure_witness:
  "MapEventToAlert (ETowerHealthChanged (tower_turns TowerUnreachable TowerStatusUnknown)) = None
   \<and> (let a1 = alert_event one_route 10 (ETowerHealthChanged (tower_turns TowerReachable TowerUnreachable)) no_alerts;
          a2 = alert_event one_route 20 (ETowerHealthChanged (tower_turns TowerUnreachable TowerReachable)) a1
      in memo a2 = memo a1
        \<and> (\<exists>x \<in> set (t_alerts (reconcile one_route 30 a2)). alDedupKey x = ''tower_down:4'' \<and> alTier x = TierResolved))"
proof -
  let ?up = "tower_turns TowerReachable TowerUnreachable" and ?down = "tower_turns TowerUnreachable TowerReachable"
  obtain c1 where c1: "MapEventToAlert (ETowerHealthChanged ?up) = Some c1" "cdTier c1 = TierResolved"
    by (simp add: MapEventToAlert_def mapTowerHealth_def tower_turns_def)
  obtain c2 where c2: "MapEventToAlert (ETowerHealthChanged ?down) = Some c2" "cdDedupKey c2 = keyed KindTowerDown 4"
    by (simp add: MapEventToAlert_def mapTowerHealth_def tower_turns_def neverReachable_def)
  have "keyed KindTowerDown 4 = ''tower_down:4''" by code_simp
  moreover have "MapEventToAlert (ETowerHealthChanged (tower_turns TowerUnreachable TowerStatusUnknown)) = None"
    by (simp add: MapEventToAlert_def mapTowerHealth_def tower_turns_def neverReachable_def)
  ultimately show ?thesis
    using recovery_hides_the_next_failure [OF _ _ _ _ c1 _ c2(1), of no_alerts one_route 10 20 30] c2(2)
    by (auto simp: no_alerts_def table_ok_def known_def tower_turns_def Let_def)
qed

end
