(* ===== verification/Sentinel.thy ===== *)
theory Sentinel
  imports Sentinel_Logic Fork_Point Alert_Policy
begin

text \<open>
  The shell around the decision logic: \<open>internal/sentinel/sentinel.go\<close>. A tick reads both views,
  decides with \<open>Step\<close>, writes down what was decided and announces it. What the two views
  answer during a tick, a start or a load comes with the input: within one input the same question gets the same
  answer. Printing and reading of a block hash belong to a library outside the
  repository and are arguments. The clock, in nanoseconds, is read once per input; timers,
  goroutines, log lines and what is kept only for display are left out. The three values of a
  fork candidate are written in the order of their keys, where the code ranges over a map.
\<close>

section \<open>Configuration, views and state\<close>

record sentinel_config =
  scSplitConfirmDepth :: int
  scSplitConfirmSecs :: int
  scSplitSuspectSecs :: int
  scStallFactor :: rat
  scReorgMargin :: int
  scDivergenceHeight :: int
  scDeploymentName :: string
  scNetwork :: network_params
  scMaxAncestorWalk :: int
  scAncestryDepth :: int

definition DefaultAncestryDepth :: int where "DefaultAncestryDepth = 100"
definition BranchReverifyBlocks :: int where "BranchReverifyBlocks = 100"
definition BranchRetryInterval :: int where "BranchRetryInterval = 2 * 60 * 1000000000"


definition sentinel_defaults :: "sentinel_config \<Rightarrow> sentinel_config" where
  "sentinel_defaults c = c\<lparr>
     scSplitConfirmDepth := (if scSplitConfirmDepth c < 1 then 3 else scSplitConfirmDepth c),
     scSplitConfirmSecs := (if scSplitConfirmSecs c < 0 then 0 else scSplitConfirmSecs c),
     scSplitSuspectSecs := (if scSplitSuspectSecs c < 0 then 0 else scSplitSuspectSecs c),
     scStallFactor := (if scStallFactor c \<le> 0 then defaultStallFactor else scStallFactor c),
     scMaxAncestorWalk := (if scMaxAncestorWalk c \<le> 0 then DefaultMaxAncestorWalk else scMaxAncestorWalk c),
     scAncestryDepth := (if scAncestryDepth c \<le> 0 then DefaultAncestryDepth else scAncestryDepth c)\<rparr>"

record deployment =
  dpMaxActivationHeight :: int
  dpPeriod :: int

text \<open>The optional interfaces of a view are \<open>None\<close> where it does not implement them.\<close>

record view =
  vHealth :: "view_err + health"
  vBest :: "view_err + block_meta"
  vHashAt :: hash_reader
  vHeader :: header_fetcher
  vTips :: "(view_err + chain_tip list) option"
  vIdentity :: "identity option"
  vDeployment :: "(view_err + deployment option) option"

record views =
  sfView :: view
  sqView :: view

record hash_lib =
  hashText :: "hash \<Rightarrow> string"
  hashParse :: "string \<Rightarrow> hash option"

record checks =
  ckSameNetwork :: bool
  ckDistinctNodes :: bool
  ckDistinctVerified :: bool
  ckOnExpectedBranch :: bool
  ckBranchVerifiedAt :: int
  ckBranchCheckedAt :: int
  ckDetail :: string

record sentinel = state_db +
  seCfg :: sentinel_config
  seCache :: header_cache
  seState :: sstate
  seChecks :: checks
  seBlocksSinceVerify :: int
  seLastBranchAttempt :: "int option"
  seConfirmedThisRun :: bool
  seSFBackend :: health
  seSQBackend :: health
  seSFIdentity :: "identity option"
  seSQIdentity :: "identity option"
  sePaused :: bool
  sePublished :: "bus_event list"

definition NewSentinel :: "sentinel_config \<Rightarrow> state_db \<Rightarrow> sentinel" where
  "NewSentinel cfg d =
     \<lparr>t_nodes = t_nodes d, t_channels = t_channels d, t_htlcs = t_htlcs d, t_spends = t_spends d, t_outpoints = t_outpoints d,
      t_deadlines = t_deadlines d, faults = faults d, t_meta = t_meta d, t_split = t_split d, t_blocks = t_blocks d,
      t_alerts = t_alerts d, t_deliveries = t_deliveries d,
      seCfg = sentinel_defaults cfg, seCache = NewHeaderCache 0, seState = NewState,
      seChecks = \<lparr>ckSameNetwork = False, ckDistinctNodes = False, ckDistinctVerified = False, ckOnExpectedBranch = False,
        ckBranchVerifiedAt = 0, ckBranchCheckedAt = 0, ckDetail = ''''\<rparr>,
      seBlocksSinceVerify = 0, seLastBranchAttempt = None, seConfirmedThisRun = False,
      seSFBackend = HealthOther '''', seSQBackend = HealthOther '''', seSFIdentity = None, seSQIdentity = None,
      sePaused = False, sePublished = []\<rparr>"

definition spublish :: "bus_event \<Rightarrow> sentinel \<Rightarrow> sentinel" where
  "spublish e w = w\<lparr>sePublished := sePublished w @ [e]\<rparr>"

definition unix :: "int \<Rightarrow> int" where
  "unix now = now div nanos_per_sec"

section \<open>Starting\<close>

text \<open>
  One reading per poll of a node that is still starting; when the readings end, the context has.
\<close>

fun verifyNetworkWhenReady :: "network_params \<Rightarrow> hash_reader list \<Rightarrow> verify_err option" where
  "verifyNetworkWhenReady net [] = Some (ErrReading ErrUnreachable)"
| "verifyNetworkWhenReady net (v # vs) =
     (case VerifyNetwork v net of
        None \<Rightarrow> None
      | Some e \<Rightarrow>
          if e = ErrReading ErrWarmingUp \<or> e = ErrReading ErrUnreachable then verifyNetworkWhenReady net vs else Some e)"

definition rememberIdentities :: "views \<Rightarrow> sentinel \<Rightarrow> sentinel" where
  "rememberIdentities vs w = w\<lparr>seSFIdentity := vIdentity (sfView vs), seSQIdentity := vIdentity (sqView vs)\<rparr>"

definition Preflight :: "hash_reader list \<Rightarrow> hash_reader list \<Rightarrow> views \<Rightarrow> sentinel \<Rightarrow> sentinel \<times> verify_err option" where
  "Preflight sfPolls sqPolls vs w =
     (case verifyNetworkWhenReady (scNetwork (seCfg w)) sfPolls of
        Some e \<Rightarrow> (w, Some e)
      | None \<Rightarrow>
          (case verifyNetworkWhenReady (scNetwork (seCfg w)) sqPolls of
             Some e \<Rightarrow> (w, Some e)
           | None \<Rightarrow>
               (let w1 = rememberIdentities vs (w\<lparr>seChecks := (seChecks w)\<lparr>ckSameNetwork := True\<rparr>\<rparr>)
                in case VerifyDistinct (vIdentity (sfView vs)) (vIdentity (sqView vs)) of
                     None \<Rightarrow>
                       (w1\<lparr>seChecks := (seChecks w1)\<lparr>ckDistinctNodes := True, ckDistinctVerified := True\<rparr>\<rparr>, None)
                   | Some e \<Rightarrow>
                       if e = ErrCannotVerifyDistinct
                       then (w1\<lparr>seChecks := (seChecks w1)\<lparr>ckDistinctVerified := False,
                               ckDetail := ''could not confirm the two views are different nodes''\<rparr>\<rparr>, None)
                       else (w1, Some e))))"

definition MetaSQBranchVerifiedAt :: string where "MetaSQBranchVerifiedAt = ''sq_backend_branch_verified_at''"
definition MetaTrustAnchorHeight :: string where "MetaTrustAnchorHeight = ''trust_anchor_height''"
definition MetaForkCandidateHash :: string where "MetaForkCandidateHash = ''fork_candidate_hash''"
definition MetaForkCandidateHeight :: string where "MetaForkCandidateHeight = ''fork_candidate_height''"
definition MetaForkCandidateSince :: string where "MetaForkCandidateSince = ''fork_candidate_since''"

fun phase_of :: "split_state \<Rightarrow> phase" where
  "phase_of StateUnarmed = PhaseUnarmed"
| "phase_of StateArmed = PhaseArmed"
| "phase_of StateSplit = PhaseSplit"
| "phase_of StateResolving = PhaseResolving"
| "phase_of StateResolvedSFWon = PhaseResolvedSFWon"
| "phase_of StateResolvedSQWon = PhaseResolvedSQWon"
| "phase_of (StateOther s) = PhaseOther s"

fun state_of :: "phase \<Rightarrow> split_state" where
  "state_of PhaseUnarmed = StateUnarmed"
| "state_of PhaseArmed = StateArmed"
| "state_of PhaseSplit = StateSplit"
| "state_of PhaseResolving = StateResolving"
| "state_of PhaseResolvedSFWon = StateResolvedSFWon"
| "state_of PhaseResolvedSQWon = StateResolvedSQWon"
| "state_of (PhaseOther s) = StateOther s"

text \<open>A failed read of the hash leaves the empty string, which is taken for no candidate.\<close>

definition loadForkCandidate :: "hash_lib \<Rightarrow> sstate \<Rightarrow> sentinel \<Rightarrow> sentinel \<times> (store_err + sstate)" where
  "loadForkCandidate L st w =
     (case GetMetaInt64 MetaForkCandidateSince 0 w of
        (w1, Inl e) \<Rightarrow> (w1, Inl e)
      | (w1, Inr since) \<Rightarrow>
          if since \<le> 0 then (w1, Inr st)
          else
            (case GetMeta MetaForkCandidateHash w1 of
               (w2, Inl e) \<Rightarrow> (w2, Inr st)
             | (w2, Inr raw) \<Rightarrow>
                 if raw = '''' then (w2, Inr st)
                 else
                   (case hashParse L raw of
                      None \<Rightarrow> (w2, Inr st)
                    | Some h \<Rightarrow>
                        (case GetMetaInt64 MetaForkCandidateHeight 0 w2 of
                           (w3, Inl e) \<Rightarrow> (w3, Inl e)
                         | (w3, Inr height) \<Rightarrow>
                             if height < 0 \<or> 2 ^ 31 - 1 < height then (w3, Inr st)
                             else
                               (w3, Inr (st\<lparr>s_ForkCandidate := Some \<lparr>Hash = h, Height = height\<rparr>,
                                           s_ForkCandidateSince := since\<rparr>))))))"

datatype load_err = LoadStore store_err | LoadHash string | LoadAnchor int

definition load_fork :: "hash_lib \<Rightarrow> split \<Rightarrow> load_err + block_ref option" where
  "load_fork L s =
     (if \<not> ForkKnown s then Inr None
      else (case hashParse L (slForkHash s) of
              None \<Rightarrow> Inl (LoadHash (slForkHash s))
            | Some h \<Rightarrow> Inr (Some \<lparr>Hash = h, Height = slForkHeight s\<rparr>)))"

definition Load :: "hash_lib \<Rightarrow> sentinel \<Rightarrow> sentinel \<times> load_err option" where
  "Load L w =
     (case GetSplitState w of
        (w1, Inl e) \<Rightarrow> (w1, Some (LoadStore e))
      | (w1, Inr s) \<Rightarrow>
          (let ph = phase_of (slState s); ph1 = (if Phase_Valid ph then ph else PhaseUnarmed)
           in case load_fork L s of
                Inl e \<Rightarrow> (w1, Some e)
              | Inr fork \<Rightarrow>
                  (case GetMetaInt64 MetaTrustAnchorHeight 0 w1 of
                     (w2, Inl e) \<Rightarrow> (w2, Some (LoadStore e))
                   | (w2, Inr anchor) \<Rightarrow>
                       if 2 ^ 31 - 1 < anchor \<or> anchor < - (2 ^ 31) then (w2, Some (LoadAnchor anchor))
                       else
                         (case loadForkCandidate L (NewState\<lparr>s_Phase := ph1, s_Fork := fork, s_DetectedAt := slDetectedAt s,
                                 s_TrustAnchor := anchor\<rparr>) w2 of
                            (w3, Inl e) \<Rightarrow> (w3, Some (LoadStore e))
                          | (w3, Inr st) \<Rightarrow>
                              (case GetMetaInt64 MetaSQBranchVerifiedAt 0 w3 of
                                 (w4, Inl e) \<Rightarrow> (w4, Some (LoadStore e))
                               | (w4, Inr verifiedAt) \<Rightarrow>
                                   (if 0 < verifiedAt
                                    then w4\<lparr>seState := st, seChecks := (seChecks w4)\<lparr>ckOnExpectedBranch := True,
                                           ckBranchVerifiedAt := verifiedAt, ckBranchCheckedAt := verifiedAt\<rparr>\<rparr>
                                    else w4\<lparr>seState := st\<rparr>, None))))))"

definition DivergenceHeightFrom :: "deployment option \<Rightarrow> int \<times> bool" where
  "DivergenceHeightFrom d =
     (case d of
        None \<Rightarrow> (0, False)
      | Some d \<Rightarrow>
          if dpMaxActivationHeight d \<le> 0 \<or> dpPeriod d \<le> 0 then (0, False)
          else
            (let height = i32 (dpMaxActivationHeight d - i32 (2 * dpPeriod d))
             in if height \<le> 0 then (0, False) else (height, True)))"

text \<open>The flag says that the descriptor could not be read; the caller only logs it.\<close>

definition deriveForkDescriptor :: "views \<Rightarrow> sentinel \<Rightarrow> sentinel \<times> bool" where
  "deriveForkDescriptor vs w =
     (if scDeploymentName (seCfg w) = '''' then (w, False)
      else
        (case vDeployment (sfView vs) of
           None \<Rightarrow> (w, False)
         | Some (Inl e) \<Rightarrow> (w, True)
         | Some (Inr d) \<Rightarrow>
             (case DivergenceHeightFrom d of
                (derived, ok) \<Rightarrow>
                  if \<not> ok then (w, True)
                  else if scDivergenceHeight (seCfg w) = 0
                  then (w\<lparr>seCfg := (seCfg w)\<lparr>scDivergenceHeight := derived\<rparr>\<rparr>, False)
                  else (w, False))))"

section \<open>Observing\<close>

definition rememberBackend :: "branch \<Rightarrow> health \<Rightarrow> sentinel \<Rightarrow> sentinel" where
  "rememberBackend br h w =
     (case br of
        BranchSF \<Rightarrow> w\<lparr>seSFBackend := h\<rparr>
      | BranchSQ \<Rightarrow> w\<lparr>seSQBackend := h\<rparr>
      | BranchOther _ \<Rightarrow> w)"

definition readView :: "view \<Rightarrow> branch \<Rightarrow> sentinel \<Rightarrow> sentinel \<times> health \<times> block_meta option" where
  "readView v br w =
     (case vHealth v of
        Inl _ \<Rightarrow> (rememberBackend br HealthDown w, HealthDown, None)
      | Inr h \<Rightarrow>
          (let w1 = rememberBackend br h w
           in if \<not> Usable h then (w1, h, None)
              else (case vBest v of Inl _ \<Rightarrow> (w1, HealthDown, None) | Inr tip \<Rightarrow> (w1, h, Some tip))))"

definition recentHashes :: "hash_lib \<Rightarrow> branch \<Rightarrow> sentinel \<Rightarrow> sentinel \<times> hash list" where
  "recentHashes L br w =
     (case RecentBranchHashes br (scAncestryDepth (seCfg w)) w of
        (w1, Inl _) \<Rightarrow> (w1, [])
      | (w1, Inr raw) \<Rightarrow> (w1, List.map_filter (hashParse L) raw))"

definition compareAtSharedHeight :: "views \<Rightarrow> block_meta \<Rightarrow> block_meta \<Rightarrow> height_disagreement option \<times> bool" where
  "compareAtSharedHeight vs sfTip sqTip =
     (let height = (if Height sqTip < Height sfTip then Height sqTip else Height sfTip)
      in if height < 0 then (None, False)
         else
           (case vHashAt (sfView vs) height of
              Inl _ \<Rightarrow> (None, False)
            | Inr sfHash \<Rightarrow>
                (case vHashAt (sqView vs) height of
                   Inl _ \<Rightarrow> (None, False)
                 | Inr sqHash \<Rightarrow>
                     if sfHash = sqHash then (None, True)
                     else (Some \<lparr>DisHeight = height, SFHash = sfHash, SQHash = sqHash\<rparr>, False))))"

definition chain_tips :: "view \<Rightarrow> chain_tip list" where
  "chain_tips v = (case vTips v of Some (Inr tips) \<Rightarrow> tips | _ \<Rightarrow> [])"

definition blank_observation :: "int \<Rightarrow> sentinel_config \<Rightarrow> observation" where
  "blank_observation now c =
     \<lparr>o_At = unix now, o_SFTip = None, o_SQTip = None, o_SFHealth = HealthOther '''', o_SQHealth = HealthOther '''',
      o_SFTips = [], o_SQAncestry = [], o_SFAncestry = [], o_ForkCandidate = None, o_ForkSearchFailed = False,
      o_Disagreement = None, o_SharedHeightAgreed = False, o_OperatorOutcome = PhaseOther '''',
      o_SplitConfirmDepth = scSplitConfirmDepth c, o_SplitConfirmSecs = scSplitConfirmSecs c,
      o_SplitSuspectSecs = scSplitSuspectSecs c, o_StallFactor = scStallFactor c,
      o_DivergenceHeight = scDivergenceHeight c, o_ReorgMargin = scReorgMargin c\<rparr>"

definition compare_tips :: "views \<Rightarrow> observation \<Rightarrow> sentinel \<Rightarrow> sentinel \<times> observation" where
  "compare_tips vs obs w =
     (case (o_SFTip obs, o_SQTip obs) of
        (Some sf, Some sq) \<Rightarrow>
          if Hash sf = Hash sq then (w, obs\<lparr>o_SharedHeightAgreed := True\<rparr>)
          else
            (case FindForkPoint (vHeader (sfView vs)) (vHeader (sqView vs)) sf sq (scMaxAncestorWalk (seCfg w))
                    (Some (seCache w)) of
               (cache, res) \<Rightarrow>
                 (let w1 = w\<lparr>seCache := (case cache of Some c \<Rightarrow> c | None \<Rightarrow> seCache w)\<rparr>;
                      obs1 = (case res of
                                Inr fork \<Rightarrow> obs\<lparr>o_ForkCandidate := Some fork\<rparr>
                              | Inl _ \<Rightarrow> obs\<lparr>o_ForkSearchFailed := True\<rparr>)
                  in case compareAtSharedHeight vs sf sq of
                       (dis, agreed) \<Rightarrow> (w1, obs1\<lparr>o_Disagreement := dis, o_SharedHeightAgreed := agreed\<rparr>)))
      | _ \<Rightarrow> (w, obs))"

definition observe :: "hash_lib \<Rightarrow> int \<Rightarrow> views \<Rightarrow> sentinel \<Rightarrow> sentinel \<times> observation" where
  "observe L now vs w =
     (let (w1, sfHealth, sfTip) = readView (sfView vs) BranchSF w;
          (w2, sqHealth, sqTip) = readView (sqView vs) BranchSQ w1;
          (w3, sfSeen) = recentHashes L BranchSF w2;
          (w4, sqSeen) = recentHashes L BranchSQ w3
      in compare_tips vs
           ((blank_observation now (seCfg w))\<lparr>o_SFHealth := sfHealth, o_SFTip := sfTip, o_SQHealth := sqHealth,
              o_SQTip := sqTip, o_SFTips := chain_tips (sfView vs), o_SFAncestry := sfSeen, o_SQAncestry := sqSeen\<rparr>) w4)"

section \<open>Writing down and announcing\<close>

definition split_row :: "hash_lib \<Rightarrow> int \<Rightarrow> sstate \<Rightarrow> split" where
  "split_row L now st =
     (let r = \<lparr>slState = state_of (s_Phase st), slForkHeight = 0, slForkHash = '''', slDetectedAt = s_DetectedAt st,
               slUpdatedAt = unix now\<rparr>
      in case s_Fork st of
           None \<Rightarrow> r
         | Some f \<Rightarrow> r\<lparr>slForkHeight := Height f, slForkHash := hashText L (Hash f)\<rparr>)"

definition persistState :: "hash_lib \<Rightarrow> int \<Rightarrow> sstate \<Rightarrow> sentinel \<Rightarrow> sentinel" where
  "persistState L now st w = fst (SaveSplitState (split_row L now st) w)"

definition persistTrustAnchor :: "int \<Rightarrow> sentinel \<Rightarrow> sentinel" where
  "persistTrustAnchor height w = fst (SetMetaInt64 MetaTrustAnchorHeight height w)"

definition announcePhase :: "phase \<Rightarrow> phase \<Rightarrow> sentinel \<Rightarrow> sentinel" where
  "announcePhase old new w = spublish (ESplitStateChanged (state_of old) (state_of new)) w"

definition recordBlock :: "hash_lib \<Rightarrow> int \<Rightarrow> branch \<Rightarrow> block_meta \<Rightarrow> sentinel \<Rightarrow> sentinel" where
  "recordBlock L now br b w =
     (let w1 = (if br = BranchSQ then w\<lparr>seBlocksSinceVerify := seBlocksSinceVerify w + 1\<rparr> else w);
          w2 = fst (RecordBranchBlock
                 \<lparr>bbBranch = (if br = BranchSQ then BranchSQ else BranchSF), bbHeight = Height b, bbHash = hashText L (Hash b),
                  bbPrevHash = hashText L (PrevHash b), bbBlockTime = Time b, bbReceivedAt = unix now\<rparr> w1)
      in spublish EOther w2)"

definition announceHealth :: "branch \<Rightarrow> health \<Rightarrow> sentinel \<Rightarrow> sentinel" where
  "announceHealth br new w = spublish (EViewHealthChanged br new) w"

definition BothViews :: branch where "BothViews = BranchOther ''both''"

fun apply_effect :: "hash_lib \<Rightarrow> int \<Rightarrow> sstate \<Rightarrow> effect \<Rightarrow> sentinel \<Rightarrow> sentinel" where
  "apply_effect L now st EffectPersistState w = persistState L now st w"
| "apply_effect L now st (EffectPhaseChanged old new _) w = announcePhase old new w"
| "apply_effect L now st (EffectBranchExtended br b _ _) w = recordBlock L now br b w"
| "apply_effect L now st (EffectHealthChanged br _ new) w = announceHealth br new w"
| "apply_effect L now st (EffectBothViewsDown _) w = spublish (EViewHealthChanged BothViews HealthDown) w"
| "apply_effect L now st (EffectTrustAnchorChanged height _) w = persistTrustAnchor height w"

definition apply_effects :: "hash_lib \<Rightarrow> int \<Rightarrow> sstate \<Rightarrow> effect list \<Rightarrow> sentinel \<Rightarrow> sentinel" where
  "apply_effects L now st effects w = fold (apply_effect L now st) effects w"

definition sameCandidate :: "sstate \<Rightarrow> sstate \<Rightarrow> bool" where
  "sameCandidate a b \<longleftrightarrow> s_ForkCandidateSince a = s_ForkCandidateSince b
     \<and> (case (s_ForkCandidate a, s_ForkCandidate b) of
          (None, None) \<Rightarrow> True
        | (Some x, Some y) \<Rightarrow> Hash x = Hash y
        | _ \<Rightarrow> False)"

definition persistForkCandidate :: "hash_lib \<Rightarrow> sstate \<Rightarrow> sstate \<Rightarrow> sentinel \<Rightarrow> sentinel" where
  "persistForkCandidate L prev st w =
     (if sameCandidate prev st then w
      else
        (let (h, height) = (case s_ForkCandidate st of None \<Rightarrow> ('''', 0) | Some f \<Rightarrow> (hashText L (Hash f), Height f));
             w1 = fst (SetMeta MetaForkCandidateHash h w);
             w2 = fst (SetMetaInt64 MetaForkCandidateHeight height w1)
         in fst (SetMetaInt64 MetaForkCandidateSince (s_ForkCandidateSince st) w2)))"

definition announceSuspicion :: "hash_lib \<Rightarrow> sstate \<Rightarrow> sstate \<Rightarrow> sentinel \<Rightarrow> sentinel" where
  "announceSuspicion L prev st w =
     (if s_SplitSuspected prev = s_SplitSuspected st then w
      else if s_Phase st = PhaseSplit \<or> s_Phase st = PhaseResolving \<or> Resolved (s_Phase st) then w
      else
        (case (if s_SplitSuspected st then s_Disagreement st else None) of
           None \<Rightarrow> spublish (ESplitSuspected (s_SplitSuspected st) 0 '''' '''') w
         | Some d \<Rightarrow> spublish (ESplitSuspected (s_SplitSuspected st) (DisHeight d) (hashText L (SFHash d)) (hashText L (SQHash d))) w))"

definition just_split :: "effect list \<Rightarrow> bool" where
  "just_split effects \<longleftrightarrow> list_ex (\<lambda>e. case e of EffectPhaseChanged _ new _ \<Rightarrow> new = PhaseSplit | _ \<Rightarrow> False) effects"

definition verify_due :: "int \<Rightarrow> sentinel \<Rightarrow> bool" where
  "verify_due now w \<longleftrightarrow>
     BranchReverifyBlocks \<le> seBlocksSinceVerify w
     \<or> ((\<not> seConfirmedThisRun w \<or> \<not> ckOnExpectedBranch (seChecks w))
        \<and> (case seLastBranchAttempt w of None \<Rightarrow> True | Some t \<Rightarrow> t + BranchRetryInterval \<le> now))"

definition branch_confirmed :: "int \<Rightarrow> sentinel \<Rightarrow> sentinel" where
  "branch_confirmed now w =
     fst (SetMetaInt64 MetaSQBranchVerifiedAt (unix now)
       (w\<lparr>seChecks := (seChecks w)\<lparr>ckOnExpectedBranch := True, ckBranchVerifiedAt := unix now, ckBranchCheckedAt := unix now,
            ckDetail := ''''\<rparr>, seConfirmedThisRun := True, sePaused := False\<rparr>))"

definition branch_refuted :: "int \<Rightarrow> sentinel \<Rightarrow> sentinel" where
  "branch_refuted now w =
     spublish (EViewHealthChanged BranchSQ HealthWrongBranch)
       (fst (SetMetaInt64 MetaSQBranchVerifiedAt 0
         (w\<lparr>seChecks := (seChecks w)\<lparr>ckOnExpectedBranch := False, ckBranchCheckedAt := unix now,
              ckDetail := ''the second view is not on the chain it should be; watching is paused''\<rparr>,
            seConfirmedThisRun := False, sePaused := True\<rparr>)))"

definition maybeReverifyBranch :: "int \<Rightarrow> views \<Rightarrow> sstate \<Rightarrow> effect list \<Rightarrow> sentinel \<Rightarrow> sentinel" where
  "maybeReverifyBranch now vs st effects w =
     (if \<not> just_split effects \<and> \<not> verify_due now w then w
      else
        (let w1 = w\<lparr>seBlocksSinceVerify := 0, seLastBranchAttempt := Some now\<rparr>
         in case VerifyBranch (vHashAt (sfView vs)) (vHashAt (sqView vs)) (s_TrustAnchor st) (s_Fork st) of
              None \<Rightarrow> branch_confirmed now w1
            | Some e \<Rightarrow> if e = ErrWrongBranch then branch_refuted now w1 else w1))"

definition tick :: "hash_lib \<Rightarrow> int \<Rightarrow> views \<Rightarrow> sentinel \<Rightarrow> sentinel" where
  "tick L now vs w =
     (case observe L now vs w of
        (w1, obs) \<Rightarrow>
          (case Step (seState w1) obs of
             (st, effects) \<Rightarrow>
               maybeReverifyBranch now vs st effects
                 (announceSuspicion L (seState w1) st
                   (persistForkCandidate L (seState w1) st
                     (apply_effects L now st effects (w1\<lparr>seState := st\<rparr>))))))"

datatype sentinel_input = SLoad | SDerive views | STick int views

fun sentinel_step :: "hash_lib \<Rightarrow> sentinel \<Rightarrow> sentinel_input \<Rightarrow> sentinel" where
  "sentinel_step L w SLoad = fst (Load L w)"
| "sentinel_step L w (SDerive vs) = fst (deriveForkDescriptor vs w)"
| "sentinel_step L w (STick now vs) = tick L now vs w"

end
