(* ===== verification/Api_Actions.thy ===== *)
theory Api_Actions
  imports Watcher Store_Deadlines
begin

text \<open>
  The requests that change something: \<open>internal/api/split.go\<close>, \<open>internal/api/admin.go\<close>,
  \<open>internal/api/alerts.go\<close> (acknowledging), \<open>internal/api/mirror.go\<close> (the opt-in), the replies of
  \<open>internal/api/server.go\<close> and the switch of \<open>internal/standdown/standdown.go\<close>. A body is what the JSON
  decoder of the standard library made of it: \<open>None\<close> when it could not be read.
\<close>

section \<open>Replies\<close>

definition CodeBadOrigin :: string where "CodeBadOrigin = ''bad_origin''"
definition CodeUnauthorized :: string where "CodeUnauthorized = ''unauthorized''"
definition CodeBadRequest :: string where "CodeBadRequest = ''bad_request''"
definition CodeNotFound :: string where "CodeNotFound = ''not_found''"
definition CodeWrongState :: string where "CodeWrongState = ''wrong_state''"
definition CodeRateLimited :: string where "CodeRateLimited = ''rate_limited''"
definition CodeInternal :: string where "CodeInternal = ''internal''"
definition CodeDeadlinesCounting :: string where "CodeDeadlinesCounting = ''deadlines_counting''"

text \<open>\<open>writeData\<close> answers 200 with a body, \<open>writeError\<close> a status, a code and a message; 204 has neither.\<close>

datatype 'a reply =
    Data (replyData: 'a)
  | NoContent
  | Refusal (replyStatus: nat) (replyCode: string) (replyMessage: string)

definition fail_reply :: "'a reply" where
  "fail_reply = Refusal 500 CodeInternal ''Something went wrong inside Forktower. The details are in its log.''"

definition bad_request :: "string \<Rightarrow> 'a reply" where
  "bad_request message = Refusal 400 CodeBadRequest message"

text \<open>A number in a path: \<open>strconv.ParseInt\<close> in base ten, and positive.\<close>

definition path_id :: "string \<Rightarrow> int option" where
  "path_id raw = (case parseInt64 raw of None \<Rightarrow> None | Some n \<Rightarrow> if n \<le> 0 then None else Some n)"

section \<open>The end of a split\<close>

definition outcome_of :: "string \<Rightarrow> split_state option" where
  "outcome_of s =
     (if s = ''SF_WON'' then Some StateResolvedSFWon else if s = ''SQ_WON'' then Some StateResolvedSQWon else None)"

definition handleConfirmResolution :: "string option \<Rightarrow> 'x state_db_scheme \<Rightarrow> 'x state_db_scheme \<times> unit reply" where
  "handleConfirmResolution body d =
     (case body of
        None \<Rightarrow> (d, bad_request ''That request was not readable.'')
      | Some req \<Rightarrow>
          (case outcome_of req of
             None \<Rightarrow> (d, bad_request ''Say which chain persisted: SF_WON or SQ_WON.'')
           | Some outcome \<Rightarrow>
               (case GetSplitState d of
                  (d1, Inl _) \<Rightarrow> (d1, fail_reply)
                | (d1, Inr current) \<Rightarrow>
                    if slState current \<noteq> StateResolving
                    then (d1, Refusal 409 CodeWrongState ''There is no split waiting to be resolved right now.'')
                    else
                      (case SaveSplitState (current\<lparr>slState := outcome\<rparr>) d1 of
                         (d2, Inl _) \<Rightarrow> (d2, fail_reply)
                       | (d2, Inr _) \<Rightarrow> (d2, NoContent)))))"

section \<open>Alerts and the opt-in\<close>

definition handleAckAlert :: "string \<Rightarrow> int \<Rightarrow> 'x state_db_scheme \<Rightarrow> 'x state_db_scheme \<times> unit reply" where
  "handleAckAlert raw now d =
     (case path_id raw of
        None \<Rightarrow> (d, bad_request ''That is not an alert number.'')
      | Some i \<Rightarrow>
          (case AckAlert i now d of
             (d1, Inl StoreNotFound) \<Rightarrow> (d1, Refusal 404 CodeNotFound ''There is no alert with that number.'')
           | (d1, Inl _) \<Rightarrow> (d1, fail_reply)
           | (d1, Inr _) \<Rightarrow> (d1, NoContent)))"

definition handleChannelMirrorOptIn ::
  "string \<Rightarrow> bool option \<Rightarrow> int \<Rightarrow> 'x state_db_scheme \<Rightarrow> 'x state_db_scheme \<times> unit reply" where
  "handleChannelMirrorOptIn raw body now d =
     (case path_id raw of
        None \<Rightarrow> (d, bad_request ''That is not a channel number.'')
      | Some i \<Rightarrow>
          (case body of
             None \<Rightarrow> (d, bad_request ''Say whether to turn copying on or off.'')
           | Some enabled \<Rightarrow>
               (case SetChannelMirrorOptIn i enabled now d of
                  (d1, Inl StoreNotFound) \<Rightarrow> (d1, Refusal 404 CodeNotFound ''There is no channel with that number.'')
                | (d1, Inl _) \<Rightarrow> (d1, fail_reply)
                | (d1, Inr _) \<Rightarrow> (d1, NoContent))))"

section \<open>The switch that turns watching off\<close>

definition MetaKeyStoodDown :: string where "MetaKeyStoodDown = ''watching_stood_down''"

definition stood_value :: "bool \<Rightarrow> string" where
  "stood_value down = (if down then ''1'' else '''')"

record switch = state_db +
  swDown :: bool

text \<open>What the switch reads back when the daemon starts.\<close>

definition NewSwitch :: "'x state_db_scheme \<Rightarrow> 'x state_db_scheme \<times> (store_err + bool)" where
  "NewSwitch d =
     (case GetMeta MetaKeyStoodDown d of
        (d1, Inr raw) \<Rightarrow> (d1, Inr (raw = stood_value True))
      | (d1, Inl StoreNotFound) \<Rightarrow> (d1, Inr False)
      | (d1, Inl e) \<Rightarrow> (d1, Inl e))"

definition switchActive :: "switch \<Rightarrow> bool" where
  "switchActive w \<longleftrightarrow> \<not> swDown w"

definition switchSet :: "bool \<Rightarrow> switch \<Rightarrow> switch \<times> (store_err + unit)" where
  "switchSet down w =
     (case SetMeta MetaKeyStoodDown (stood_value down) w of
        (w1, Inl e) \<Rightarrow> (w1, Inl e)
      | (w1, Inr _) \<Rightarrow> (w1\<lparr>swDown := down\<rparr>, Inr ()))"

definition countPhrase :: "int \<Rightarrow> string \<Rightarrow> string" where
  "countPhrase n noun = (if n = 1 then ''one '' @ noun else itoa n @ '' '' @ noun @ ''s'')"

text \<open>The flag says that this daemon has a switch; the answer is whether watching is active afterwards.\<close>

definition no_switch :: "'a reply" where
  "no_switch = Refusal 503 CodeWrongState ''This version of Forktower cannot stand down.''"

definition handleStandDown :: "bool \<Rightarrow> switch \<Rightarrow> switch \<times> bool reply" where
  "handleStandDown present w =
     (if \<not> present then (w, no_switch)
      else
        (case ListDeadlines DeadlineCounting w of
           (w1, Inl _) \<Rightarrow> (w1, fail_reply)
         | (w1, Inr counting) \<Rightarrow>
             if counting \<noteq> []
             then (w1, Refusal 409 CodeDeadlinesCounting
                    (''Forktower is still counting down on '' @ countPhrase (int (length counting)) ''deadline''
                      @ ''. Watching cannot be stood down until those are finished.''))
             else
               (case switchSet True w1 of
                  (w2, Inl _) \<Rightarrow> (w2, fail_reply)
                | (w2, Inr _) \<Rightarrow> (w2, Data False))))"

definition handleResume :: "bool \<Rightarrow> switch \<Rightarrow> switch \<times> bool reply" where
  "handleResume present w =
     (if \<not> present then (w, no_switch)
      else
        (case switchSet False w of
           (w1, Inl _) \<Rightarrow> (w1, fail_reply)
         | (w1, Inr _) \<Rightarrow> (w1, Data True)))"

text \<open>The guard of the watcher: a fault or a decision stops the reading.\<close>

definition watchGuardPaused :: "bool \<Rightarrow> switch \<Rightarrow> bool" where
  "watchGuardPaused sentinelPaused w \<longleftrightarrow> sentinelPaused \<or> swDown w"

section \<open>Reading again\<close>

text \<open>\<open>None\<close> is a body that could not be read, in time or at all; an empty one is an empty object.\<close>

definition readOptionalBody :: "string option \<Rightarrow> (string \<Rightarrow> 'a option) \<Rightarrow> 'a \<Rightarrow> 'a option" where
  "readOptionalBody body decode blank =
     (case body of
        None \<Rightarrow> None
      | Some raw \<Rightarrow> if trim_space raw = '''' then Some blank else decode raw)"

definition handleRescan ::
  "bool \<Rightarrow> string option \<Rightarrow> (string \<Rightarrow> int option) \<Rightarrow> watcher \<Rightarrow> watcher \<times> (int \<times> int) reply" where
  "handleRescan present body decode w =
     (if \<not> present
      then (w, Refusal 503 CodeWrongState
              ''Forktower is not watching the other chain, so there is nothing to re-read.'')
      else
        (case readOptionalBody body decode 0 of
           None \<Rightarrow> (w, bad_request ''That request was not readable.'')
         | Some height \<Rightarrow>
             if height < 0 then (w, bad_request ''The height to start from cannot be negative.'')
             else
               (case (if height = 0 then rescanFromFork w else queueSweep height w) of
                  (w1, Some swept) \<Rightarrow> (w1, Data swept)
                | (w1, None) \<Rightarrow>
                    (w1, Refusal 409 CodeWrongState
                       ''There is nothing behind where Forktower has already read. If the chains have not separated yet, there is no earlier point to go back to.''))))"

section \<open>Standing down\<close>

text \<open>What the switch holds is what the store holds.\<close>

definition switch_agrees :: "switch \<Rightarrow> bool" where
  "switch_agrees w \<longleftrightarrow> swDown w = (map_of (t_meta w) MetaKeyStoodDown = Some (stood_value True))"

lemma switchSet_cases:
  assumes "switchSet down w = (w', res)"
  shows "case res of
      Inr _ \<Rightarrow> swDown w' = down \<and> map_of (t_meta w') MetaKeyStoodDown = Some (stood_value down)
    | Inl _ \<Rightarrow> swDown w' = swDown w \<and> t_meta w' = t_meta w"
  using assms
  by (auto simp: switchSet_def SetMeta_def db_call_def MetaKeyStoodDown_def update_conv' split: list.splits if_splits)

lemma switchSet_agrees: "switch_agrees w \<Longrightarrow> switchSet down w = (w', res) \<Longrightarrow> switch_agrees w'"
  using switchSet_cases [of down w w' res]
  by (cases res) (auto simp: switch_agrees_def stood_value_def)

lemma reading_switch:
  fixes w :: switch
  assumes "ListDeadlines s w = (w1, r)"
  shows "swDown w1 = swDown w \<and> t_meta w1 = t_meta w \<and> t_deadlines w1 = t_deadlines w"
  using assms by (auto simp: ListDeadlines_def db_read_unfold split: list.splits)

lemma counting_rows:
  fixes w :: switch
  assumes "ListDeadlines DeadlineCounting w = (w1, Inr [])"
  shows "list_all (\<lambda>r. dlState r \<noteq> DeadlineCounting) (t_deadlines w)"
proof -
  have "sort_key dlHeight (filter (\<lambda>r. dlState r = DeadlineCounting) (t_deadlines w)) = []"
    using assms by (auto simp: ListDeadlines_def db_read_unfold split: list.splits if_splits)
  then have "set (filter (\<lambda>r. dlState r = DeadlineCounting) (t_deadlines w)) = {}" by (metis set_sort empty_set)
  then show ?thesis by (auto simp: list_all_iff)
qed

text \<open>
  C35: watching is turned off only on purpose and only when nothing is counting down, and what was decided outlives the process.
  A request to stand down either succeeds, when no countdown is running and with the decision on
  disk, or leaves the switch as it was, whichever call of the store fails; a request to resume
  turns watching on or leaves the switch as it was; and after either, a process that starts on
  the same store finds the decision that is in force.
\<close>

theorem stand_down_is_guarded:
  assumes "switch_agrees w" "handleStandDown present w = (w1, down)" "handleResume present w = (w2, up)"
  shows "(if down = Data False
          then swDown w1 \<and> list_all (\<lambda>r. dlState r \<noteq> DeadlineCounting) (t_deadlines w) else swDown w1 = swDown w)
    \<and> (if up = Data True then \<not> swDown w2 else swDown w2 = swDown w)
    \<and> snd (NewSwitch (w1\<lparr>faults := []\<rparr>)) = Inr (swDown w1) \<and> snd (NewSwitch (w2\<lparr>faults := []\<rparr>)) = Inr (swDown w2)"
proof -
  have n: "snd (NewSwitch (x\<lparr>faults := []\<rparr>)) = Inr (swDown x)" if "switch_agrees x" for x
    using that by (auto simp: NewSwitch_def GetMeta_def db_read_unfold switch_agrees_def split: option.split)
  have up: "switch_agrees w2 \<and> (if up = Data True then \<not> swDown w2 else swDown w2 = swDown w)"
  proof (cases present)
    case True
    obtain x res where x: "switchSet False w = (x, res)" by fastforce
    with assms(1,3) True switchSet_cases [OF x] switchSet_agrees [OF assms(1) x] show ?thesis
      by (cases res) (auto simp: handleResume_def fail_reply_def)
  qed (use assms in \<open>auto simp: handleResume_def no_switch_def\<close>)
  have down: "switch_agrees w1 \<and> (if down = Data False
      then swDown w1 \<and> list_all (\<lambda>r. dlState r \<noteq> DeadlineCounting) (t_deadlines w) else swDown w1 = swDown w)"
  proof (cases present)
    case True
    obtain x r where x: "ListDeadlines DeadlineCounting w = (x, r)" by fastforce
    note f = reading_switch [OF x]
    have a: "switch_agrees x" using f assms(1) by (simp add: switch_agrees_def)
    show ?thesis
    proof (cases "r = Inr []")
      case none: True
      obtain y res where y: "switchSet True x = (y, res)" by fastforce
      with switchSet_cases [OF y] switchSet_agrees [OF a y] f counting_rows x none assms(2) True show ?thesis
        by (cases res) (auto simp: handleStandDown_def fail_reply_def)
    next
      case False
      with a f assms(2) True x show ?thesis
        by (cases r) (auto simp: handleStandDown_def fail_reply_def)
    qed
  qed (use assms in \<open>auto simp: handleStandDown_def no_switch_def\<close>)
  show ?thesis using up down n by simp
qed

definition demo_switch :: switch where
  "demo_switch = state_db.extend demo_state_db \<lparr>swDown = False\<rparr>"

theorem stand_down_is_guarded_witness:
  "swDown (fst (handleStandDown True demo_switch)) \<and> snd (handleStandDown True demo_switch) = Data False
    \<and> snd (NewSwitch ((fst (handleStandDown True demo_switch))\<lparr>faults := []\<rparr>)) = Inr True"
proof -
  have "switch_agrees demo_switch" "snd (handleStandDown True demo_switch) = Data False" by code_simp+
  then show ?thesis
    using stand_down_is_guarded [of demo_switch True "fst (handleStandDown True demo_switch)" "snd (handleStandDown True demo_switch)"
        "fst (handleResume True demo_switch)" "snd (handleResume True demo_switch)"] by (simp add: prod_eq_iff)
qed

end
