(* ===== verification/Sentinel_Facts.thy ===== *)
theory Sentinel_Facts
  imports Sentinel Api_Actions
begin

text \<open>
  What the shell of the sentinel does over time: it follows the decision logic, announces what the logic
  decided and nothing else, picks up after a restart, and what is never announced or taken up.
\<close>

section \<open>What a tick leaves alone\<close>

text \<open>A call of the store leaves the shell's own fields alone.\<close>

lemma store_frame [simp]:
  fixes w :: sentinel
  shows
    "seState (fst (SetMeta k v w)) = seState w"
    "sePublished (fst (SetMeta k v w)) = sePublished w"
    "seChecks (fst (SetMeta k v w)) = seChecks w"
    "sePaused (fst (SetMeta k v w)) = sePaused w"
    "seConfirmedThisRun (fst (SetMeta k v w)) = seConfirmedThisRun w"
    "seLastBranchAttempt (fst (SetMeta k v w)) = seLastBranchAttempt w"
    "seBlocksSinceVerify (fst (SetMeta k v w)) = seBlocksSinceVerify w"
    "seCfg (fst (SetMeta k v w)) = seCfg w"
    "seState (fst (SetMetaInt64 k n w)) = seState w"
    "sePublished (fst (SetMetaInt64 k n w)) = sePublished w"
    "seChecks (fst (SetMetaInt64 k n w)) = seChecks w"
    "sePaused (fst (SetMetaInt64 k n w)) = sePaused w"
    "seConfirmedThisRun (fst (SetMetaInt64 k n w)) = seConfirmedThisRun w"
    "seLastBranchAttempt (fst (SetMetaInt64 k n w)) = seLastBranchAttempt w"
    "seBlocksSinceVerify (fst (SetMetaInt64 k n w)) = seBlocksSinceVerify w"
    "seCfg (fst (SetMetaInt64 k n w)) = seCfg w"
    "seState (fst (SaveSplitState r w)) = seState w"
    "sePublished (fst (SaveSplitState r w)) = sePublished w"
    "seChecks (fst (SaveSplitState r w)) = seChecks w"
    "sePaused (fst (SaveSplitState r w)) = sePaused w"
    "seConfirmedThisRun (fst (SaveSplitState r w)) = seConfirmedThisRun w"
    "seLastBranchAttempt (fst (SaveSplitState r w)) = seLastBranchAttempt w"
    "seBlocksSinceVerify (fst (SaveSplitState r w)) = seBlocksSinceVerify w"
    "seCfg (fst (SaveSplitState r w)) = seCfg w"
    "seState (fst (RecordBranchBlock b w)) = seState w"
    "sePublished (fst (RecordBranchBlock b w)) = sePublished w"
    "seChecks (fst (RecordBranchBlock b w)) = seChecks w"
    "sePaused (fst (RecordBranchBlock b w)) = sePaused w"
    "seConfirmedThisRun (fst (RecordBranchBlock b w)) = seConfirmedThisRun w"
    "seLastBranchAttempt (fst (RecordBranchBlock b w)) = seLastBranchAttempt w"
    "seBlocksSinceVerify (fst (RecordBranchBlock b w)) = seBlocksSinceVerify w"
    "seCfg (fst (RecordBranchBlock b w)) = seCfg w"
    "seState (fst (RecentBranchHashes br n w)) = seState w"
    "sePublished (fst (RecentBranchHashes br n w)) = sePublished w"
    "seChecks (fst (RecentBranchHashes br n w)) = seChecks w"
    "sePaused (fst (RecentBranchHashes br n w)) = sePaused w"
    "seConfirmedThisRun (fst (RecentBranchHashes br n w)) = seConfirmedThisRun w"
    "seLastBranchAttempt (fst (RecentBranchHashes br n w)) = seLastBranchAttempt w"
    "seBlocksSinceVerify (fst (RecentBranchHashes br n w)) = seBlocksSinceVerify w"
    "seCfg (fst (RecentBranchHashes br n w)) = seCfg w"
    "seState (fst (GetMeta k w)) = seState w"
    "sePublished (fst (GetMeta k w)) = sePublished w"
    "seChecks (fst (GetMeta k w)) = seChecks w"
    "sePaused (fst (GetMeta k w)) = sePaused w"
    "seConfirmedThisRun (fst (GetMeta k w)) = seConfirmedThisRun w"
    "seLastBranchAttempt (fst (GetMeta k w)) = seLastBranchAttempt w"
    "seBlocksSinceVerify (fst (GetMeta k w)) = seBlocksSinceVerify w"
    "seCfg (fst (GetMeta k w)) = seCfg w"
    "seState (fst (GetMetaInt64 k n w)) = seState w"
    "sePublished (fst (GetMetaInt64 k n w)) = sePublished w"
    "seChecks (fst (GetMetaInt64 k n w)) = seChecks w"
    "sePaused (fst (GetMetaInt64 k n w)) = sePaused w"
    "seConfirmedThisRun (fst (GetMetaInt64 k n w)) = seConfirmedThisRun w"
    "seLastBranchAttempt (fst (GetMetaInt64 k n w)) = seLastBranchAttempt w"
    "seBlocksSinceVerify (fst (GetMetaInt64 k n w)) = seBlocksSinceVerify w"
    "seCfg (fst (GetMetaInt64 k n w)) = seCfg w"
    "seState (fst (GetSplitState w)) = seState w"
    "sePublished (fst (GetSplitState w)) = sePublished w"
    "seChecks (fst (GetSplitState w)) = seChecks w"
    "sePaused (fst (GetSplitState w)) = sePaused w"
    "seConfirmedThisRun (fst (GetSplitState w)) = seConfirmedThisRun w"
    "seLastBranchAttempt (fst (GetSplitState w)) = seLastBranchAttempt w"
    "seBlocksSinceVerify (fst (GetSplitState w)) = seBlocksSinceVerify w"
    "seCfg (fst (GetSplitState w)) = seCfg w"
  by (simp_all add: SetMetaInt64_def SetMeta_def SaveSplitState_def RecordBranchBlock_def RecentBranchHashes_def
      GetMetaInt64_def GetMeta_def GetSplitState_def db_call_def db_read_def Let_def case_prod_beta
      split: list.split sum.split store_err.split)

text \<open>What each effect puts on the bus.\<close>

fun effect_events :: "effect \<Rightarrow> bus_event list" where
  "effect_events EffectPersistState = []"
| "effect_events (EffectPhaseChanged old new _) = [ESplitStateChanged (state_of old) (state_of new)]"
| "effect_events (EffectBranchExtended _ _ _ _) = [EOther]"
| "effect_events (EffectHealthChanged br _ new) = [EViewHealthChanged br new]"
| "effect_events (EffectBothViewsDown _) = [EViewHealthChanged BothViews HealthDown]"
| "effect_events (EffectTrustAnchorChanged _ _) = []"

lemma spublish_fields [simp]:
  "seState (spublish e w) = seState w"
  "seChecks (spublish e w) = seChecks w"
  "sePaused (spublish e w) = sePaused w"
  "seConfirmedThisRun (spublish e w) = seConfirmedThisRun w"
  "seLastBranchAttempt (spublish e w) = seLastBranchAttempt w"
  "seBlocksSinceVerify (spublish e w) = seBlocksSinceVerify w"
  "seCfg (spublish e w) = seCfg w"
  "sePublished (spublish e w) = sePublished w @ [e]"
  "faults (spublish e w) = faults w"
  "t_meta (spublish e w) = t_meta w"
  "t_split (spublish e w) = t_split w"
  by (simp_all add: spublish_def)

lemma apply_effect_frame [simp]:
  "seState (apply_effect L now st e w) = seState w"
  "seChecks (apply_effect L now st e w) = seChecks w"
  "sePaused (apply_effect L now st e w) = sePaused w"
  "seConfirmedThisRun (apply_effect L now st e w) = seConfirmedThisRun w"
  "seLastBranchAttempt (apply_effect L now st e w) = seLastBranchAttempt w"
  "seCfg (apply_effect L now st e w) = seCfg w"
  "sePublished (apply_effect L now st e w) = sePublished w @ effect_events e"
  by (cases e; simp add: persistState_def announcePhase_def recordBlock_def announceHealth_def persistTrustAnchor_def Let_def)+

lemma apply_effect_blocks: "seBlocksSinceVerify w \<le> seBlocksSinceVerify (apply_effect L now st e w)"
  by (cases e) (simp_all add: persistState_def announcePhase_def recordBlock_def announceHealth_def persistTrustAnchor_def Let_def)

lemma apply_effects_frame [simp]:
  "seState (apply_effects L now st es w) = seState w"
  "seChecks (apply_effects L now st es w) = seChecks w"
  "sePaused (apply_effects L now st es w) = sePaused w"
  "seConfirmedThisRun (apply_effects L now st es w) = seConfirmedThisRun w"
  "seLastBranchAttempt (apply_effects L now st es w) = seLastBranchAttempt w"
  "seCfg (apply_effects L now st es w) = seCfg w"
  "sePublished (apply_effects L now st es w) = sePublished w @ concat (map effect_events es)"
  by (induction es arbitrary: w) (simp_all add: apply_effects_def)

lemma apply_effects_blocks: "seBlocksSinceVerify w \<le> seBlocksSinceVerify (apply_effects L now st es w)"
proof (induction es arbitrary: w)
  case (Cons e es)
  then show ?case using apply_effect_blocks [of w L now st e] by (fastforce simp: apply_effects_def intro: order_trans)
qed (simp add: apply_effects_def)

lemma persistForkCandidate_frame [simp]:
  "seState (persistForkCandidate L prev st w) = seState w"
  "seChecks (persistForkCandidate L prev st w) = seChecks w"
  "sePaused (persistForkCandidate L prev st w) = sePaused w"
  "seConfirmedThisRun (persistForkCandidate L prev st w) = seConfirmedThisRun w"
  "seLastBranchAttempt (persistForkCandidate L prev st w) = seLastBranchAttempt w"
  "seBlocksSinceVerify (persistForkCandidate L prev st w) = seBlocksSinceVerify w"
  "seCfg (persistForkCandidate L prev st w) = seCfg w"
  "sePublished (persistForkCandidate L prev st w) = sePublished w"
  by (simp_all add: persistForkCandidate_def case_prod_beta Let_def)

definition suspicion_events :: "hash_lib \<Rightarrow> sstate \<Rightarrow> sstate \<Rightarrow> bus_event list" where
  "suspicion_events L prev st =
     (if s_SplitSuspected prev = s_SplitSuspected st \<or> believed (s_Phase st) then []
      else
        (case (if s_SplitSuspected st then s_Disagreement st else None) of
           None \<Rightarrow> [ESplitSuspected (s_SplitSuspected st) 0 '''' '''']
         | Some d \<Rightarrow> [ESplitSuspected (s_SplitSuspected st) (DisHeight d) (hashText L (SFHash d)) (hashText L (SQHash d))]))"

lemma believed_iff: "believed p \<longleftrightarrow> p = PhaseSplit \<or> p = PhaseResolving \<or> Resolved p"
  by (cases p) simp_all

lemma announceSuspicion_frame [simp]:
  "seState (announceSuspicion L prev st w) = seState w"
  "seChecks (announceSuspicion L prev st w) = seChecks w"
  "sePaused (announceSuspicion L prev st w) = sePaused w"
  "seConfirmedThisRun (announceSuspicion L prev st w) = seConfirmedThisRun w"
  "seLastBranchAttempt (announceSuspicion L prev st w) = seLastBranchAttempt w"
  "seBlocksSinceVerify (announceSuspicion L prev st w) = seBlocksSinceVerify w"
  "seCfg (announceSuspicion L prev st w) = seCfg w"
  "faults (announceSuspicion L prev st w) = faults w"
  "t_meta (announceSuspicion L prev st w) = t_meta w"
  "t_split (announceSuspicion L prev st w) = t_split w"
  by (simp_all add: announceSuspicion_def split: option.split)

lemma announceSuspicion_published [simp]:
  "sePublished (announceSuspicion L prev st w) = sePublished w @ suspicion_events L prev st"
  by (simp add: announceSuspicion_def suspicion_events_def believed_iff split: option.split)

text \<open>What the views are asked changes only what is kept for display and the cache.\<close>

lemma readView_frame [simp]:
  "seState (fst (readView v br w)) = seState w"
  "seChecks (fst (readView v br w)) = seChecks w"
  "sePaused (fst (readView v br w)) = sePaused w"
  "seConfirmedThisRun (fst (readView v br w)) = seConfirmedThisRun w"
  "seLastBranchAttempt (fst (readView v br w)) = seLastBranchAttempt w"
  "seBlocksSinceVerify (fst (readView v br w)) = seBlocksSinceVerify w"
  "seCfg (fst (readView v br w)) = seCfg w"
  "seCache (fst (readView v br w)) = seCache w"
  "sePublished (fst (readView v br w)) = sePublished w"
  "faults (fst (readView v br w)) = faults w"
  "t_meta (fst (readView v br w)) = t_meta w"
  "t_split (fst (readView v br w)) = t_split w"
  by (auto simp: readView_def rememberBackend_def Let_def split: sum.split branch.split)

lemma recentHashes_frame [simp]:
  "seState (fst (recentHashes L br w)) = seState w"
  "seChecks (fst (recentHashes L br w)) = seChecks w"
  "sePaused (fst (recentHashes L br w)) = sePaused w"
  "seConfirmedThisRun (fst (recentHashes L br w)) = seConfirmedThisRun w"
  "seLastBranchAttempt (fst (recentHashes L br w)) = seLastBranchAttempt w"
  "seBlocksSinceVerify (fst (recentHashes L br w)) = seBlocksSinceVerify w"
  "seCfg (fst (recentHashes L br w)) = seCfg w"
  "sePublished (fst (recentHashes L br w)) = sePublished w"
proof -
  have "fst (recentHashes L br w) = fst (RecentBranchHashes br (scAncestryDepth (seCfg w)) w)"
    by (simp add: recentHashes_def case_prod_beta split: sum.split)
  then show "seState (fst (recentHashes L br w)) = seState w" "seChecks (fst (recentHashes L br w)) = seChecks w"
    "sePaused (fst (recentHashes L br w)) = sePaused w"
    "seConfirmedThisRun (fst (recentHashes L br w)) = seConfirmedThisRun w"
    "seLastBranchAttempt (fst (recentHashes L br w)) = seLastBranchAttempt w"
    "seBlocksSinceVerify (fst (recentHashes L br w)) = seBlocksSinceVerify w"
    "seCfg (fst (recentHashes L br w)) = seCfg w"
    "sePublished (fst (recentHashes L br w)) = sePublished w"
    by simp_all
qed

lemma compare_tips_frame [simp]:
  "seState (fst (compare_tips vs obs w)) = seState w"
  "seChecks (fst (compare_tips vs obs w)) = seChecks w"
  "sePaused (fst (compare_tips vs obs w)) = sePaused w"
  "seConfirmedThisRun (fst (compare_tips vs obs w)) = seConfirmedThisRun w"
  "seLastBranchAttempt (fst (compare_tips vs obs w)) = seLastBranchAttempt w"
  "seBlocksSinceVerify (fst (compare_tips vs obs w)) = seBlocksSinceVerify w"
  "seCfg (fst (compare_tips vs obs w)) = seCfg w"
  "sePublished (fst (compare_tips vs obs w)) = sePublished w"
  "faults (fst (compare_tips vs obs w)) = faults w"
  "t_meta (fst (compare_tips vs obs w)) = t_meta w"
  "t_split (fst (compare_tips vs obs w)) = t_split w"
  "o_At (snd (compare_tips vs obs w)) = o_At obs"
  "o_OperatorOutcome (snd (compare_tips vs obs w)) = o_OperatorOutcome obs"
  "o_SQHealth (snd (compare_tips vs obs w)) = o_SQHealth obs"
  "o_SFTip (snd (compare_tips vs obs w)) = o_SFTip obs"
  "o_SQTip (snd (compare_tips vs obs w)) = o_SQTip obs"
  "o_SFTips (snd (compare_tips vs obs w)) = o_SFTips obs"
  "o_DivergenceHeight (snd (compare_tips vs obs w)) = o_DivergenceHeight obs"
  "o_ReorgMargin (snd (compare_tips vs obs w)) = o_ReorgMargin obs"
  by (simp_all add: compare_tips_def case_prod_beta Let_def split: option.split sum.split)

lemma observe_frame [simp]:
  "seState (fst (observe L now vs w)) = seState w"
  "seChecks (fst (observe L now vs w)) = seChecks w"
  "sePaused (fst (observe L now vs w)) = sePaused w"
  "seConfirmedThisRun (fst (observe L now vs w)) = seConfirmedThisRun w"
  "seLastBranchAttempt (fst (observe L now vs w)) = seLastBranchAttempt w"
  "seBlocksSinceVerify (fst (observe L now vs w)) = seBlocksSinceVerify w"
  "seCfg (fst (observe L now vs w)) = seCfg w"
  "sePublished (fst (observe L now vs w)) = sePublished w"
  "o_At (snd (observe L now vs w)) = unix now"
  "o_OperatorOutcome (snd (observe L now vs w)) = PhaseOther ''''"
  by (simp_all add: observe_def case_prod_beta Let_def blank_observation_def)

text \<open>A tick is the decision on what was observed, then its effects, then the check of the branch.\<close>

definition seen :: "hash_lib \<Rightarrow> int \<Rightarrow> views \<Rightarrow> sentinel \<Rightarrow> observation" where
  "seen L now vs w = snd (observe L now vs w)"

definition next_state :: "hash_lib \<Rightarrow> int \<Rightarrow> views \<Rightarrow> sentinel \<Rightarrow> sstate" where
  "next_state L now vs w = stp (seState w) (seen L now vs w)"

definition effects_of :: "hash_lib \<Rightarrow> int \<Rightarrow> views \<Rightarrow> sentinel \<Rightarrow> effect list" where
  "effects_of L now vs w = snd (Step (seState w) (seen L now vs w))"

definition announced_at :: "hash_lib \<Rightarrow> int \<Rightarrow> views \<Rightarrow> sentinel \<Rightarrow> sentinel" where
  "announced_at L now vs w =
     announceSuspicion L (seState w) (next_state L now vs w)
       (persistForkCandidate L (seState w) (next_state L now vs w)
         (apply_effects L now (next_state L now vs w) (effects_of L now vs w)
           ((fst (observe L now vs w))\<lparr>seState := next_state L now vs w\<rparr>)))"

lemma tick_eq:
  "tick L now vs w =
     maybeReverifyBranch now vs (next_state L now vs w) (effects_of L now vs w) (announced_at L now vs w)"
  by (simp add: tick_def announced_at_def effects_of_def next_state_def stp_def seen_def case_prod_beta)

lemma seen_fields [simp]:
  "o_At (seen L now vs w) = unix now"
  "o_OperatorOutcome (seen L now vs w) = PhaseOther ''''"
  by (simp_all add: seen_def)

lemma announced_at_frame [simp]:
  "seState (announced_at L now vs w) = next_state L now vs w"
  "seChecks (announced_at L now vs w) = seChecks w"
  "sePaused (announced_at L now vs w) = sePaused w"
  "seConfirmedThisRun (announced_at L now vs w) = seConfirmedThisRun w"
  "seLastBranchAttempt (announced_at L now vs w) = seLastBranchAttempt w"
  "seCfg (announced_at L now vs w) = seCfg w"
  "sePublished (announced_at L now vs w) =
     sePublished w @ concat (map effect_events (effects_of L now vs w)) @ suspicion_events L (seState w) (next_state L now vs w)"
  by (simp_all add: announced_at_def)

definition branch_events :: "int \<Rightarrow> views \<Rightarrow> sstate \<Rightarrow> effect list \<Rightarrow> sentinel \<Rightarrow> bus_event list" where
  "branch_events now vs st es w =
     (if (just_split es \<or> verify_due now w)
         \<and> VerifyBranch (vHashAt (sfView vs)) (vHashAt (sqView vs)) (s_TrustAnchor st) (s_Fork st) = Some ErrWrongBranch
      then [EViewHealthChanged BranchSQ HealthWrongBranch] else [])"

lemma maybeReverifyBranch_frame [simp]:
  "seState (maybeReverifyBranch now vs st es w) = seState w"
  "seCfg (maybeReverifyBranch now vs st es w) = seCfg w"
  "sePublished (maybeReverifyBranch now vs st es w) = sePublished w @ branch_events now vs st es w"
  by (auto simp: maybeReverifyBranch_def branch_events_def branch_confirmed_def branch_refuted_def Let_def split: option.split)

lemma tick_state [simp]: "seState (tick L now vs w) = next_state L now vs w"
  by (simp add: tick_eq)

lemma tick_cfg [simp]: "seCfg (tick L now vs w) = seCfg w"
  by (simp add: tick_eq)

lemma tick_published:
  "sePublished (tick L now vs w) =
     sePublished w @ concat (map effect_events (effects_of L now vs w)) @ suspicion_events L (seState w) (next_state L now vs w)
       @ branch_events now vs (next_state L now vs w) (effects_of L now vs w) (announced_at L now vs w)"
  by (simp add: tick_eq)

section \<open>The shell follows the decision logic\<close>

fun phase_news :: "bus_event \<Rightarrow> bool" where
  "phase_news (ESplitStateChanged _ _) = True"
| "phase_news _ = False"

text \<open>The phase changes the decision logic goes through on a list of observations, as announcements.\<close>

fun phase_trace :: "sstate \<Rightarrow> observation list \<Rightarrow> bus_event list" where
  "phase_trace s [] = []"
| "phase_trace s (ob # os) =
     (if s_Phase (stp s ob) = s_Phase s then []
      else [ESplitStateChanged (state_of (s_Phase s)) (state_of (s_Phase (stp s ob)))]) @ phase_trace (stp s ob) os"

lemma tracking_events_calm: "tracking_effect e \<Longrightarrow> filter phase_news (effect_events e) = []"
  by (cases e) (simp_all add: tracking_effect_def)

lemma tracking_all_calm: "list_all tracking_effect es \<Longrightarrow> filter phase_news (concat (map effect_events es)) = []"
  by (induction es) (simp_all add: tracking_events_calm)

lemma effects_of_eq:
  "effects_of L now vs w = tracking_effects (seState w) (seen L now vs w) @
     (if s_Phase (next_state L now vs w) = s_Phase (seState w) then []
      else [EffectPersistState, EffectPhaseChanged (s_Phase (seState w)) (s_Phase (next_state L now vs w))
             (snd (decidePhase (tracked (seState w) (seen L now vs w)) (seen L now vs w)))])"
  by (simp add: effects_of_def next_state_def stp_def Step_eq Let_def)

lemma tick_phase_news:
  "filter phase_news (sePublished (tick L now vs w)) =
     filter phase_news (sePublished w) @ phase_trace (seState w) [seen L now vs w]"
proof -
  have "filter phase_news (suspicion_events L s t) = []" for s t
    by (simp add: suspicion_events_def split: option.split)
  moreover have "filter phase_news (branch_events now vs t es x) = []" for t es x
    by (simp add: branch_events_def)
  ultimately show ?thesis
    by (simp add: tick_published effects_of_eq tracking_all_calm [OF tracking_effects_kind] next_state_def)
qed

text \<open>
  C4: the running shell is an implementation of the decision logic and adds nothing to it: over any ticks, with
  any answers of the views and any failing store calls, there are observations, one a tick and dated by it, on which
  the decision logic goes through the states the shell holds, and what the shell announces about the
  phase is, in order, exactly the changes the decision logic went through. None of the observations carries an operator's outcome.
\<close>

theorem shell_refines_logic:
  "\<exists>os. length os = length ts
     \<and> seState (foldl (sentinel_step L) w (map (\<lambda>(now, vs). STick now vs) ts)) = foldl stp (seState w) os
     \<and> map o_At os = map (\<lambda>(now, vs). unix now) ts
     \<and> list_all (\<lambda>ob. o_OperatorOutcome ob = PhaseOther '''') os
     \<and> filter phase_news (sePublished (foldl (sentinel_step L) w (map (\<lambda>(now, vs). STick now vs) ts)))
         = filter phase_news (sePublished w) @ phase_trace (seState w) os"
proof (induction ts arbitrary: w)
  case (Cons t ts)
  obtain now vs where t: "t = (now, vs)" by (cases t)
  from Cons.IH [of "tick L now vs w"] obtain os where os: "length os = length ts"
    "seState (foldl (sentinel_step L) (tick L now vs w) (map (\<lambda>(now, vs). STick now vs) ts)) = foldl stp (seState (tick L now vs w)) os"
    "map o_At os = map (\<lambda>(now, vs). unix now) ts" "list_all (\<lambda>ob. o_OperatorOutcome ob = PhaseOther '''') os"
    "filter phase_news (sePublished (foldl (sentinel_step L) (tick L now vs w) (map (\<lambda>(now, vs). STick now vs) ts)))
       = filter phase_news (sePublished (tick L now vs w)) @ phase_trace (seState (tick L now vs w)) os" by blast
  show ?case
    by (rule exI [of _ "seen L now vs w # os"])
       (use os in \<open>simp add: t tick_phase_news next_state_def\<close>)
qed simp

section \<open>An outcome nobody takes up\<close>

datatype daemon_input = DTick int views | DConfirm "string option"

text \<open>The shell and the request that records an outcome, on one store.\<close>

fun daemon_step :: "hash_lib \<Rightarrow> sentinel \<Rightarrow> daemon_input \<Rightarrow> sentinel" where
  "daemon_step L w (DTick now vs) = tick L now vs w"
| "daemon_step L w (DConfirm body) = fst (handleConfirmResolution body w)"

lemma confirm_frame [simp]:
  fixes w :: sentinel
  shows "seState (fst (handleConfirmResolution body w)) = seState w"
    and "sePublished (fst (handleConfirmResolution body w)) = sePublished w"
proof -
  have "fst (handleConfirmResolution body w) \<in> {w, fst (GetSplitState w)} \<union> range (\<lambda>r. fst (SaveSplitState r (fst (GetSplitState w))))"
    by (auto simp: handleConfirmResolution_def case_prod_beta split: option.split sum.split)
  then show "seState (fst (handleConfirmResolution body w)) = seState w"
    and "sePublished (fst (handleConfirmResolution body w)) = sePublished w" by auto
qed

fun ends_split :: "bus_event \<Rightarrow> bool" where
  "ends_split (ESplitStateChanged _ new) = (new = StateResolvedSFWon \<or> new = StateResolvedSQWon)"
| "ends_split _ = False"

lemma ends_is_news: "filter ends_split xs = filter ends_split (filter phase_news xs)"
proof -
  have "ends_split e \<Longrightarrow> phase_news e" for e by (cases e) simp_all
  then show ?thesis by (induction xs) auto
qed

lemma stp_unresolved:
  assumes "\<not> Resolved (s_Phase s)" "o_OperatorOutcome ob = PhaseOther ''''"
  shows "\<not> Resolved (s_Phase (stp s ob))"
  using assms
  by (cases "s_Phase s")
     (auto simp: stp_def Step_phase decidePhase_def decideFromUnarmed_def decideFromArmed_def decideFromSplit_def
        Let_def case_prod_beta)

lemma state_of_unresolved: "\<not> Resolved p \<Longrightarrow> state_of p \<noteq> StateResolvedSFWon \<and> state_of p \<noteq> StateResolvedSQWon"
  by (cases p) simp_all

lemma tick_unresolved:
  assumes "\<not> Resolved (s_Phase (seState w))"
  shows "\<not> Resolved (s_Phase (next_state L now vs w))"
    and "filter ends_split (sePublished (tick L now vs w)) = filter ends_split (sePublished w)"
proof -
  show s: "\<not> Resolved (s_Phase (next_state L now vs w))"
    unfolding next_state_def by (rule stp_unresolved [OF assms]) simp
  then have "filter ends_split (phase_trace (seState w) [seen L now vs w]) = []"
    using state_of_unresolved by (simp add: next_state_def)
  then show "filter ends_split (sePublished (tick L now vs w)) = filter ends_split (sePublished w)"
    using ends_is_news [of "sePublished (tick L now vs w)"] ends_is_news [of "sePublished w"]
    by (simp add: tick_phase_news)
qed

text \<open>
  C7: an outcome the operator records is not taken up while the daemon runs. Whatever is recorded, whenever,
  and however many ticks follow, a shell that does not already hold an outcome never comes to hold one and never
  announces that the split has ended: the request writes the stored row only, and no observation
  ever carries it.
\<close>

theorem outcome_never_taken_up:
  assumes "\<not> Resolved (s_Phase (seState w))"
  shows "\<not> Resolved (s_Phase (seState (foldl (daemon_step L) w is)))
    \<and> filter ends_split (sePublished (foldl (daemon_step L) w is)) = filter ends_split (sePublished w)"
  using assms
proof (induction "is" arbitrary: w)
  case (Cons i "is")
  have "\<not> Resolved (s_Phase (seState (daemon_step L w i)))
    \<and> filter ends_split (sePublished (daemon_step L w i)) = filter ends_split (sePublished w)"
    using tick_unresolved [OF Cons.prems] Cons.prems by (cases i) simp_all
  with Cons.IH [of "daemon_step L w i"] show ?case by simp
qed simp

section \<open>Sample values\<close>

definition demo_lib :: hash_lib where
  "demo_lib = \<lparr>hashText = \<lambda>h. itoa (int h),
     hashParse = \<lambda>s. if s \<noteq> '''' \<and> list_all is_digit s then Some (digits_value s) else None\<rparr>"

definition silent_view :: view where
  "silent_view = \<lparr>vHealth = Inl ErrUnreachable, vBest = Inl ErrUnreachable, vHashAt = \<lambda>_. Inl ErrUnreachable,
     vHeader = \<lambda>_. Inl ErrUnreachable, vTips = None, vIdentity = None, vDeployment = None\<rparr>"

definition demo_scfg :: sentinel_config where
  "demo_scfg = \<lparr>scSplitConfirmDepth = 3, scSplitConfirmSecs = 600, scSplitSuspectSecs = 60, scStallFactor = 0,
     scReorgMargin = 6, scDivergenceHeight = 0, scDeploymentName = '''', scNetwork = \<lparr>NetName = ''main'', Genesis = 7\<rparr>,
     scMaxAncestorWalk = 0, scAncestryDepth = 0\<rparr>"

definition demo_row :: "split_state \<Rightarrow> split" where
  "demo_row s = \<lparr>slState = s, slForkHeight = 0, slForkHash = '''', slDetectedAt = 0, slUpdatedAt = 0\<rparr>"

definition demo_sentinel :: "phase \<Rightarrow> sentinel" where
  "demo_sentinel p = (NewSentinel demo_scfg (demo_state_db\<lparr>t_split := Some (demo_row (state_of p))\<rparr>))
     \<lparr>seState := NewState\<lparr>s_Phase := p\<rparr>\<rparr>"

definition silent_views :: views where
  "silent_views = \<lparr>sfView = silent_view, sqView = silent_view\<rparr>"

text \<open>The request is accepted, the row says so, and the next change of phase writes over it.\<close>

theorem outcome_never_taken_up_witness:
  "snd (handleConfirmResolution (Some ''SF_WON'') (demo_sentinel PhaseResolving)) = NoContent
    \<and> map_option slState (t_split (fst (handleConfirmResolution (Some ''SF_WON'') (demo_sentinel PhaseResolving)))) = Some StateResolvedSFWon
    \<and> map_option slState (t_split (foldl (daemon_step demo_lib) (demo_sentinel PhaseResolving)
          [DConfirm (Some ''SF_WON''), DTick 1000000000000 silent_views])) = Some StateSplit
    \<and> filter ends_split (sePublished (foldl (daemon_step demo_lib) (demo_sentinel PhaseResolving)
          [DConfirm (Some ''SF_WON''), DTick 1000000000000 silent_views])) = []"
proof -
  have p: "s_Phase (seState (demo_sentinel PhaseResolving)) = PhaseResolving" "sePublished (demo_sentinel PhaseResolving) = []"
    by (simp_all add: demo_sentinel_def NewSentinel_def)
  have "snd (handleConfirmResolution (Some ''SF_WON'') (demo_sentinel PhaseResolving)) = NoContent" by code_simp
  moreover have "map_option slState (t_split (fst (handleConfirmResolution (Some ''SF_WON'') (demo_sentinel PhaseResolving)))) = Some StateResolvedSFWon"
    by code_simp
  moreover have "map_option slState (t_split (foldl (daemon_step demo_lib) (demo_sentinel PhaseResolving)
          [DConfirm (Some ''SF_WON''), DTick 1000000000000 silent_views])) = Some StateSplit" by code_simp
  ultimately show ?thesis
    using outcome_never_taken_up [of "demo_sentinel PhaseResolving" demo_lib "[DConfirm (Some ''SF_WON''), DTick 1000000000000 silent_views]"] p
    by simp
qed

section \<open>What is raised and never withdrawn\<close>

text \<open>An event withdraws a key when the alert it maps to closes rows under it.\<close>

definition withdraws :: "string \<Rightarrow> bus_event \<Rightarrow> bool" where
  "withdraws key e \<longleftrightarrow>
     (case MapEventToAlert e of None \<Rightarrow> False | Some c \<Rightarrow> cdTier c = TierResolved \<and> key \<in> set (cdDedupKey c # cdCloses c))"

definition raises :: "string \<Rightarrow> tier \<Rightarrow> bus_event \<Rightarrow> bool" where
  "raises key t e \<longleftrightarrow> (case MapEventToAlert e of None \<Rightarrow> False | Some c \<Rightarrow> cdTier c = t \<and> cdDedupKey c = key)"

definition both_down_key :: string where "both_down_key = view_key KindViewDegraded BothViews"
definition wrong_branch_key :: string where "wrong_branch_key = view_key KindViewWrongBranch BranchSQ"

text \<open>The events a sentinel publishes: about its two views, or that both are down.\<close>

fun own_event :: "bus_event \<Rightarrow> bool" where
  "own_event (EViewHealthChanged br h) = (br = BranchSF \<or> br = BranchSQ \<or> br = BothViews \<and> h = HealthDown)"
| "own_event (ESplitStateChanged _ _) = True"
| "own_event (ESplitSuspected _ _ _ _) = True"
| "own_event EOther = True"
| "own_event _ = False"

lemma own_effect: "list_all own_event (effect_events e)" if "\<forall>br old new. e = EffectHealthChanged br old new \<longrightarrow> Branch_Valid br"
proof (cases e)
  case (EffectHealthChanged br old new)
  with that show ?thesis by (cases br) auto
qed (simp_all add: BothViews_def)

lemma tracking_health:
  "EffectHealthChanged br old new \<in> set (tracking_effects s ob) \<Longrightarrow>
     br = BranchSF \<and> new = o_SFHealth ob \<and> new \<noteq> s_SFHealth s \<or> br = BranchSQ \<and> new = o_SQHealth ob \<and> new \<noteq> s_SQHealth s"
proof -
  have h: "EffectHealthChanged br old new \<in> set (snd (trackHealth s ob)) \<Longrightarrow>
     br = BranchSF \<and> new = o_SFHealth ob \<and> new \<noteq> s_SFHealth s \<or> br = BranchSQ \<and> new = o_SQHealth ob \<and> new \<noteq> s_SQHealth s"
    by (auto simp: trackHealth_def Let_def split: if_splits)
  have b: "snd (trackBranch x ob' st cad seen fork now) \<noteq> Some (EffectHealthChanged br old new)" for x ob' st cad seen fork now
    by (simp add: trackBranch_def Let_def split: option.split)
  have "EffectHealthChanged br old new \<notin> set (snd (trackBlocks t ob))" for t
    by (auto simp: trackBlocks_def Let_def case_prod_beta List.map_filter_def b)
  moreover have "EffectHealthChanged br old new \<notin> set (snd (trackTrustAnchor t ob))" for t
    by (simp add: trackTrustAnchor_def Let_def case_prod_beta)
  ultimately show "EffectHealthChanged br old new \<in> set (tracking_effects s ob) \<Longrightarrow>
     br = BranchSF \<and> new = o_SFHealth ob \<and> new \<noteq> s_SFHealth s \<or> br = BranchSQ \<and> new = o_SQHealth ob \<and> new \<noteq> s_SQHealth s"
    by (simp add: tracking_effects_def Let_def h)
qed

lemma effects_of_health:
  assumes "EffectHealthChanged br old new \<in> set (effects_of L now vs w)"
  shows "br = BranchSF \<or> br = BranchSQ \<and> new = o_SQHealth (seen L now vs w) \<and> new \<noteq> s_SQHealth (seState w)"
  using assms tracking_health by (fastforce simp: effects_of_eq split: if_splits)

lemma own_effects: "list_all own_event (concat (map effect_events (effects_of L now vs w)))"
proof -
  have "\<forall>e \<in> set (effects_of L now vs w). list_all own_event (effect_events e)"
  proof
    fix e assume e: "e \<in> set (effects_of L now vs w)"
    show "list_all own_event (effect_events e)"
      by (rule own_effect) (use effects_of_health e in fastforce)
  qed
  then show ?thesis by (fastforce simp: list_all_iff)
qed

lemma own_suspicion: "list_all own_event (suspicion_events L s t)"
  by (simp add: suspicion_events_def split: option.split)

lemma own_branch: "list_all own_event (branch_events now vs t es w)"
  by (simp add: branch_events_def)

lemma tick_own: "list_all own_event (sePublished w) \<Longrightarrow> list_all own_event (sePublished (tick L now vs w))"
  by (simp add: tick_published own_effects own_suspicion own_branch)

lemma Load_frame [simp]:
  "sePublished (fst (Load L w)) = sePublished w"
  "sePaused (fst (Load L w)) = sePaused w"
  "seConfirmedThisRun (fst (Load L w)) = seConfirmedThisRun w"
proof -
  have "sePublished (fst (loadForkCandidate L st w)) = sePublished w \<and> sePaused (fst (loadForkCandidate L st w)) = sePaused w
    \<and> seConfirmedThisRun (fst (loadForkCandidate L st w)) = seConfirmedThisRun w" for st w
    by (simp add: loadForkCandidate_def case_prod_beta split: sum.split option.split)
  then show "sePublished (fst (Load L w)) = sePublished w" "sePaused (fst (Load L w)) = sePaused w"
    "seConfirmedThisRun (fst (Load L w)) = seConfirmedThisRun w"
    by (simp_all add: Load_def Let_def case_prod_beta split: sum.split)
qed

lemma derive_frame [simp]:
  "sePublished (fst (deriveForkDescriptor vs w)) = sePublished w"
  "sePaused (fst (deriveForkDescriptor vs w)) = sePaused w"
  "seConfirmedThisRun (fst (deriveForkDescriptor vs w)) = seConfirmedThisRun w"
  by (simp_all add: deriveForkDescriptor_def case_prod_beta split: sum.split option.split)

lemma run_own: "list_all own_event (sePublished (foldl (sentinel_step L) (NewSentinel cfg d) is))"
proof -
  have "list_all own_event (sePublished w) \<Longrightarrow> list_all own_event (sePublished (sentinel_step L w i))" for w i
    by (cases i) (simp_all add: tick_own)
  then have "list_all own_event (sePublished w) \<Longrightarrow> list_all own_event (sePublished (foldl (sentinel_step L) w is))" for w
    by (induction "is" arbitrary: w) simp_all
  then show ?thesis by (simp add: NewSentinel_def)
qed

lemma own_keeps_both_down: "own_event e \<Longrightarrow> \<not> withdraws both_down_key e"
proof (cases e)
  case (ESplitStateChanged old new)
  then show ?thesis
    by (cases new) (simp_all add: withdraws_def MapEventToAlert_def mapSplitState_def news_def kinds both_down_key_def
        view_key_def BothViews_def)
next
  case (EViewHealthChanged br h)
  assume "own_event e"
  with EViewHealthChanged show ?thesis
    by (cases h) (auto simp: withdraws_def MapEventToAlert_def mapViewHealth_def view_degraded_def news_def kinds both_down_key_def
        view_key_def BothViews_def)
next
  case (ESplitSuspected s n a b)
  then show ?thesis
    by (simp add: withdraws_def MapEventToAlert_def mapSplitSuspected_def news_def kinds both_down_key_def view_key_def BothViews_def Let_def)
qed (simp_all add: withdraws_def MapEventToAlert_def)

text \<open>The health of the two views and the clock of their common outage, which only \<open>trackHealth\<close> moves.\<close>

lemma stp_health:
  "s_SFHealth (stp s ob) = s_SFHealth (fst (trackHealth s ob))"
  "s_SQHealth (stp s ob) = s_SQHealth (fst (trackHealth s ob))"
  "s_BothDownSince (stp s ob) = s_BothDownSince (fst (trackHealth s ob))"
proof -
  let ?P = "\<lambda>s t :: sstate. s_SFHealth s = s_SFHealth t \<and> s_SQHealth s = s_SQHealth t \<and> s_BothDownSince s = s_BothDownSince t"
  have "?P (fst (trackTrustAnchor t ob)) t" for t by (subst (1 2 3) trackTrustAnchor_frame) simp
  moreover have "?P (fst (trackBlocks t ob)) t" for t by (subst (1 2 3) trackBlocks_frame) simp
  moreover have "?P (trackForkCandidate t ob) t" for t by (subst (1 2 3) trackForkCandidate_frame) simp
  moreover have "?P (trackDisagreement t ob) t" for t by (subst (1 2 3) trackDisagreement_frame) simp
  ultimately have "?P (tracked s ob) (fst (trackHealth s ob))" by (simp add: tracked_def Let_def)
  moreover have "?P (applyPhase t p ob) t" for t p by (cases p) (simp_all add: applyPhase_def Let_def)
  ultimately have "?P (stp s ob) (fst (trackHealth s ob))" by (simp add: stp_def Step_eq Let_def)
  then show "s_SFHealth (stp s ob) = s_SFHealth (fst (trackHealth s ob))"
    "s_SQHealth (stp s ob) = s_SQHealth (fst (trackHealth s ob))"
    "s_BothDownSince (stp s ob) = s_BothDownSince (fst (trackHealth s ob))" by simp_all
qed

definition outage :: "sstate \<Rightarrow> bool" where
  "outage s \<longleftrightarrow> s_SFHealth s = HealthDown \<and> s_SQHealth s = HealthDown"

definition grace_over :: "sstate \<Rightarrow> int \<Rightarrow> bool" where
  "grace_over s t \<longleftrightarrow> s_BothDownSince s \<noteq> 0 \<and> 600 \<le> i64 (t - s_BothDownSince s)"

lemma trackHealth_outage:
  "outage (fst (trackHealth s ob)) \<Longrightarrow> s_BothDownSince (fst (trackHealth s ob)) =
     (if s_BothDownSince s = 0 \<or> grace_over s (o_At ob) then o_At ob else s_BothDownSince s)"
  "\<not> outage (fst (trackHealth s ob)) \<Longrightarrow> s_BothDownSince (fst (trackHealth s ob)) = 0"
  "(\<exists>d. EffectBothViewsDown d \<in> set (snd (trackHealth s ob))) \<longleftrightarrow> outage (fst (trackHealth s ob)) \<and> grace_over s (o_At ob)"
proof -
  define s1 where "s1 = (if o_SFHealth ob \<noteq> HealthOther [] \<and> o_SFHealth ob \<noteq> s_SFHealth s then s\<lparr>s_SFHealth := o_SFHealth ob\<rparr> else s)"
  define s2 where "s2 = (if o_SQHealth ob \<noteq> HealthOther [] \<and> o_SQHealth ob \<noteq> s_SQHealth s1 then s1\<lparr>s_SQHealth := o_SQHealth ob\<rparr> else s1)"
  define es where "es = (if o_SFHealth ob \<noteq> HealthOther [] \<and> o_SFHealth ob \<noteq> s_SFHealth s
        then [EffectHealthChanged BranchSF (s_SFHealth s) (o_SFHealth ob)] else [])
      @ (if o_SQHealth ob \<noteq> HealthOther [] \<and> o_SQHealth ob \<noteq> s_SQHealth s1
        then [EffectHealthChanged BranchSQ (s_SQHealth s1) (o_SQHealth ob)] else [])"
  have c: "s_BothDownSince s2 = s_BothDownSince s" by (simp add: s2_def s1_def)
  have es: "EffectBothViewsDown d \<notin> set es" for d by (simp add: es_def)
  have t: "trackHealth s ob = (if outage s2 \<and> s_BothDownSince s2 = 0 then (s2\<lparr>s_BothDownSince := o_At ob\<rparr>, es)
      else if outage s2 \<and> 600 \<le> i64 (o_At ob - s_BothDownSince s2)
      then (s2\<lparr>s_BothDownSince := o_At ob\<rparr>, es @ [EffectBothViewsDown ''neither chain can be reached; the recorded state is kept''])
      else if \<not> outage s2 then (s2\<lparr>s_BothDownSince := 0\<rparr>, es) else (s2, es))"
    unfolding trackHealth_def Let_def s1_def [symmetric] s2_def [symmetric]
    by (simp add: es_def bothDownGrace_def nanos_per_sec_def quo_def outage_def)
  have o: "outage (s2\<lparr>s_BothDownSince := n\<rparr>) = outage s2" for n by (simp add: outage_def)
  then have down: "outage (fst (trackHealth s ob)) = outage s2" by (simp add: t)
  show "outage (fst (trackHealth s ob)) \<Longrightarrow> s_BothDownSince (fst (trackHealth s ob)) =
     (if s_BothDownSince s = 0 \<or> grace_over s (o_At ob) then o_At ob else s_BothDownSince s)"
    "\<not> outage (fst (trackHealth s ob)) \<Longrightarrow> s_BothDownSince (fst (trackHealth s ob)) = 0"
    "(\<exists>d. EffectBothViewsDown d \<in> set (snd (trackHealth s ob))) \<longleftrightarrow> outage (fst (trackHealth s ob)) \<and> grace_over s (o_At ob)"
    using down by (simp_all add: t c es grace_over_def)
qed

lemma tracked_outage:
  "(\<exists>d. EffectBothViewsDown d \<in> set (tracking_effects s ob)) \<longleftrightarrow> outage (stp s ob) \<and> grace_over s (o_At ob)"
proof -
  have b: "snd (trackBranch x ob' st cad seen fork now) \<noteq> Some (EffectBothViewsDown d)" for x ob' st cad seen fork now d
    by (simp add: trackBranch_def Let_def split: option.split)
  have "EffectBothViewsDown d \<notin> set (snd (trackBlocks t ob))" for t d
    by (auto simp: trackBlocks_def Let_def case_prod_beta List.map_filter_def b)
  moreover have "EffectBothViewsDown d \<notin> set (snd (trackTrustAnchor t ob))" for t d
    by (simp add: trackTrustAnchor_def Let_def case_prod_beta)
  ultimately have "(\<exists>d. EffectBothViewsDown d \<in> set (tracking_effects s ob))
      \<longleftrightarrow> (\<exists>d. EffectBothViewsDown d \<in> set (snd (trackHealth s ob)))"
    by (simp add: tracking_effects_def Let_def)
  also have "\<dots> \<longleftrightarrow> outage (stp s ob) \<and> grace_over s (o_At ob)"
    using trackHealth_outage(3) [of s ob] by (simp add: outage_def stp_health)
  finally show ?thesis .
qed

lemma outage_clock:
  "s_BothDownSince (stp s ob) = (if \<not> outage (stp s ob) then 0
     else if s_BothDownSince s = 0 \<or> grace_over s (o_At ob) then o_At ob else s_BothDownSince s)"
  using trackHealth_outage(1,2) [of s ob] by (simp add: outage_def stp_health)

text \<open>What a tick adds to the announcements.\<close>

definition tick_news :: "hash_lib \<Rightarrow> int \<Rightarrow> views \<Rightarrow> sentinel \<Rightarrow> bus_event list" where
  "tick_news L now vs w = drop (length (sePublished w)) (sePublished (tick L now vs w))"

lemma tick_says_outage:
  "EViewHealthChanged BothViews HealthDown \<in> set (tick_news L now vs w)
     \<longleftrightarrow> outage (seState (tick L now vs w)) \<and> grace_over (seState w) (unix now)"
proof -
  have "EViewHealthChanged BothViews HealthDown \<in> set (effect_events e) \<longleftrightarrow> (\<exists>d. e = EffectBothViewsDown d)"
    if "e \<in> set (effects_of L now vs w)" for e
    using effects_of_health [of _ _ _ L now vs w] that by (cases e) (auto simp: BothViews_def)
  then have "EViewHealthChanged BothViews HealthDown \<in> set (concat (map effect_events (effects_of L now vs w)))
      \<longleftrightarrow> (\<exists>d. EffectBothViewsDown d \<in> set (effects_of L now vs w))" by auto
  moreover have "(\<exists>d. EffectBothViewsDown d \<in> set (effects_of L now vs w))
      \<longleftrightarrow> (\<exists>d. EffectBothViewsDown d \<in> set (tracking_effects (seState w) (seen L now vs w)))"
    by (simp add: effects_of_eq)
  moreover have "EViewHealthChanged BothViews HealthDown \<notin> set (suspicion_events L s t)" for s t
    by (simp add: suspicion_events_def split: option.split)
  moreover have "EViewHealthChanged BothViews HealthDown \<notin> set (branch_events now vs t es v)" for t es v
    by (simp add: branch_events_def BothViews_def)
  ultimately show ?thesis
    by (simp add: tick_news_def tick_published tracked_outage next_state_def)
qed

text \<open>
  C9: the warning that neither chain can be reached is never withdrawn. A tick announces it exactly when both views
  are down and a clock has run for ten minutes; the clock starts with the first tick that finds
  both down, starts again with each announcement, and stops when a view is up. The announcement
  raises an alert under a key of its own, and nothing the shell publishes, in any run, maps to
  an alert that closes that key: the recovery of a view closes only what is kept under the
  view's own name.
\<close>

theorem both_down_never_withdrawn:
  "list_all (\<lambda>e. \<not> withdraws both_down_key e) (sePublished (foldl (sentinel_step L) (NewSentinel cfg d) is))
    \<and> raises both_down_key TierWarning (EViewHealthChanged BothViews HealthDown)
    \<and> (EViewHealthChanged BothViews HealthDown \<in> set (tick_news L now vs w)
        \<longleftrightarrow> outage (seState (tick L now vs w)) \<and> grace_over (seState w) (unix now))
    \<and> s_BothDownSince (seState (tick L now vs w)) =
        (if \<not> outage (seState (tick L now vs w)) then 0
         else if s_BothDownSince (seState w) = 0 \<or> grace_over (seState w) (unix now) then unix now
         else s_BothDownSince (seState w))"
  using run_own [of L cfg d "is"] own_keeps_both_down
    outage_clock [of "seState w" "seen L now vs w"] tick_says_outage [of L now vs w]
  by (auto simp: list_all_iff raises_def MapEventToAlert_def mapViewHealth_def view_degraded_def news_def both_down_key_def
      next_state_def)

text \<open>A view that answers, with the health it is given.\<close>

definition reports :: "health \<Rightarrow> view \<Rightarrow> bool" where
  "reports h v \<longleftrightarrow> vHealth v = Inr h \<and> (\<exists>tip. vBest v = Inr tip)"

lemma seen_health: "reports h (sqView vs) \<Longrightarrow> o_SQHealth (seen L now vs w) = h"
  by (auto simp: reports_def seen_def observe_def case_prod_beta Let_def readView_def)

lemma stp_sq_health: "o_SQHealth ob = s_SQHealth s \<Longrightarrow> s_SQHealth (stp s ob) = s_SQHealth s"
proof -
  assume "o_SQHealth ob = s_SQHealth s"
  then have h: "s_SQHealth (fst (trackHealth s ob)) = s_SQHealth s" by (simp add: trackHealth_def Let_def)
  have "s_SQHealth (tracked s ob) = s_SQHealth (fst (trackHealth s ob))"
  proof -
    have "s_SQHealth (fst (trackTrustAnchor t ob)) = s_SQHealth t" for t by (subst trackTrustAnchor_frame) simp
    moreover have "s_SQHealth (fst (trackBlocks t ob)) = s_SQHealth t" for t by (subst trackBlocks_frame) simp
    moreover have "s_SQHealth (trackForkCandidate t ob) = s_SQHealth t" for t by (subst trackForkCandidate_frame) simp
    moreover have "s_SQHealth (trackDisagreement t ob) = s_SQHealth t" for t by (subst trackDisagreement_frame) simp
    ultimately show ?thesis by (simp add: tracked_def Let_def)
  qed
  moreover have "s_SQHealth (applyPhase t p ob) = s_SQHealth t" for t p by (cases p) (simp_all add: applyPhase_def Let_def)
  ultimately show ?thesis using h by (simp add: stp_def Step_eq Let_def)
qed

lemma wrong_branch_closer:
  "own_event e \<Longrightarrow> withdraws wrong_branch_key e \<Longrightarrow> e = EViewHealthChanged BranchSQ HealthOK"
proof (cases e)
  case (ESplitStateChanged old new)
  assume "withdraws wrong_branch_key e"
  with ESplitStateChanged show ?thesis
    by (cases new) (simp_all add: withdraws_def MapEventToAlert_def mapSplitState_def news_def kinds wrong_branch_key_def
        view_key_def split: if_splits)
next
  case (EViewHealthChanged br h)
  assume "own_event e" "withdraws wrong_branch_key e"
  with EViewHealthChanged show ?thesis
    by (cases h) (auto simp: withdraws_def MapEventToAlert_def mapViewHealth_def view_degraded_def news_def kinds wrong_branch_key_def
        view_key_def BothViews_def)
next
  case (ESplitSuspected s n a b)
  assume "withdraws wrong_branch_key e"
  with ESplitSuspected show ?thesis
    by (simp add: withdraws_def MapEventToAlert_def mapSplitSuspected_def news_def kinds wrong_branch_key_def view_key_def Let_def
        split: if_splits)
qed (simp_all add: withdraws_def MapEventToAlert_def)

lemma effects_no_recovery:
  assumes "o_SQHealth (seen L now vs w) = s_SQHealth (seState w)"
  shows "EViewHealthChanged BranchSQ HealthOK \<notin> set (concat (map effect_events (effects_of L now vs w)))"
proof
  assume "EViewHealthChanged BranchSQ HealthOK \<in> set (concat (map effect_events (effects_of L now vs w)))"
  then obtain e where e: "e \<in> set (effects_of L now vs w)" "EViewHealthChanged BranchSQ HealthOK \<in> set (effect_events e)" by auto
  from e(2) obtain old where "e = EffectHealthChanged BranchSQ old HealthOK" by (cases e) auto
  with e(1) effects_of_health assms show False by fastforce
qed

lemma tick_no_recovery:
  assumes "reports (s_SQHealth (seState w)) (sqView vs)"
  shows "\<exists>evs. sePublished (tick L now vs w) = sePublished w @ evs \<and> list_all (\<lambda>e. \<not> withdraws wrong_branch_key e) evs
    \<and> s_SQHealth (next_state L now vs w) = s_SQHealth (seState w)"
proof -
  note h = seen_health [OF assms, of L now w]
  let ?evs = "concat (map effect_events (effects_of L now vs w)) @ suspicion_events L (seState w) (next_state L now vs w)
       @ branch_events now vs (next_state L now vs w) (effects_of L now vs w) (announced_at L now vs w)"
  have "EViewHealthChanged BranchSQ HealthOK \<notin> set ?evs"
    using effects_no_recovery [OF h]
    by (auto simp: suspicion_events_def branch_events_def split: option.splits if_splits)
  moreover have "list_all own_event ?evs" by (simp add: own_effects own_suspicion own_branch)
  ultimately have "list_all (\<lambda>e. \<not> withdraws wrong_branch_key e) ?evs"
    using wrong_branch_closer by (auto simp: list_all_iff)
  then show ?thesis using stp_sq_health h tick_published by (auto simp: next_state_def)
qed

text \<open>
  C8: that watching has resumed is never said. However many ticks follow, and whatever the check of the
  branch finds in them, as long as the second view's node goes on reporting the health it reported
  before, nothing the shell publishes maps to an alert that closes the urgent one a failed check
  raised. A node on the wrong chain is a healthy node, so the alert that says watching is paused stands after it has resumed.
\<close>

theorem resumption_is_silent:
  assumes "list_all (\<lambda>(now, vs). reports (s_SQHealth (seState w)) (sqView vs)) ts"
  shows "\<exists>evs. sePublished (foldl (sentinel_step L) w (map (\<lambda>(now, vs). STick now vs) ts)) = sePublished w @ evs
    \<and> list_all (\<lambda>e. \<not> withdraws wrong_branch_key e) evs
    \<and> raises wrong_branch_key TierCritical (EViewHealthChanged BranchSQ HealthWrongBranch)"
proof -
  have "\<exists>evs. sePublished (foldl (sentinel_step L) w (map (\<lambda>(now, vs). STick now vs) ts)) = sePublished w @ evs
    \<and> list_all (\<lambda>e. \<not> withdraws wrong_branch_key e) evs"
    using assms
  proof (induction ts arbitrary: w)
    case (Cons t ts)
    obtain now vs where t: "t = (now, vs)" by (cases t)
    from Cons.prems t tick_no_recovery [of w vs L now] obtain evs where evs: "sePublished (tick L now vs w) = sePublished w @ evs"
      "list_all (\<lambda>e. \<not> withdraws wrong_branch_key e) evs" "s_SQHealth (next_state L now vs w) = s_SQHealth (seState w)" by auto
    with Cons.IH [of "tick L now vs w"] Cons.prems t show ?case by auto
  qed simp
  then show ?thesis
    by (auto simp: raises_def MapEventToAlert_def mapViewHealth_def news_def wrong_branch_key_def)
qed

section \<open>The pause is lifted\<close>

lemma maybeReverify_paused:
  "sePaused (maybeReverifyBranch now vs st es w) \<longrightarrow> sePaused w \<and> seConfirmedThisRun (maybeReverifyBranch now vs st es w) = seConfirmedThisRun w
     \<or> \<not> seConfirmedThisRun (maybeReverifyBranch now vs st es w)"
  by (auto simp: maybeReverifyBranch_def branch_confirmed_def branch_refuted_def Let_def split: option.split)

lemma paused_unconfirmed: "sePaused (foldl (sentinel_step L) (NewSentinel cfg d) is) \<Longrightarrow>
   \<not> seConfirmedThisRun (foldl (sentinel_step L) (NewSentinel cfg d) is)"
proof -
  have step: "(sePaused w \<longrightarrow> \<not> seConfirmedThisRun w) \<Longrightarrow> sePaused (sentinel_step L w i) \<longrightarrow> \<not> seConfirmedThisRun (sentinel_step L w i)" for w i
  proof (cases i)
    case (STick now vs)
    assume "sePaused w \<longrightarrow> \<not> seConfirmedThisRun w"
    then show ?thesis
      using maybeReverify_paused [of now vs "next_state L now vs w" "effects_of L now vs w" "announced_at L now vs w"]
      by (auto simp: STick tick_eq)
  qed simp_all
  have "(sePaused w \<longrightarrow> \<not> seConfirmedThisRun w) \<Longrightarrow> sePaused (foldl (sentinel_step L) w is) \<longrightarrow> \<not> seConfirmedThisRun (foldl (sentinel_step L) w is)" for w
    by (induction "is" arbitrary: w) (simp_all add: step)
  then show "sePaused (foldl (sentinel_step L) (NewSentinel cfg d) is) \<Longrightarrow>
   \<not> seConfirmedThisRun (foldl (sentinel_step L) (NewSentinel cfg d) is)" by (simp add: NewSentinel_def)
qed

text \<open>
  C6: a pause is never for good. In any run from the start, while watching is paused every tick at least two minutes after the last
  attempt checks the branch again, whatever calls of the store fail; when the check passes
  watching resumes and is recorded as verified now, when it fails on evidence the pause stays.
\<close>

theorem pause_is_lifted:
  assumes "w = foldl (sentinel_step L) (NewSentinel cfg d) is" "sePaused w"
    and "case seLastBranchAttempt w of None \<Rightarrow> True | Some t \<Rightarrow> t + BranchRetryInterval \<le> now"
  shows "seLastBranchAttempt (tick L now vs w) = Some now \<and>
    (case VerifyBranch (vHashAt (sfView vs)) (vHashAt (sqView vs)) (s_TrustAnchor (next_state L now vs w)) (s_Fork (next_state L now vs w)) of
       None \<Rightarrow> \<not> sePaused (tick L now vs w) \<and> ckOnExpectedBranch (seChecks (tick L now vs w))
         \<and> ckBranchVerifiedAt (seChecks (tick L now vs w)) = unix now
     | Some e \<Rightarrow> sePaused (tick L now vs w))"
proof -
  have "\<not> seConfirmedThisRun w" using paused_unconfirmed assms(1,2) by blast
  then have "verify_due now (announced_at L now vs w)"
    using assms(3) by (simp add: verify_due_def)
  then show ?thesis using assms(2)
    by (auto simp: tick_eq maybeReverifyBranch_def branch_confirmed_def branch_refuted_def Let_def split: option.split)
qed

section \<open>A pause and its end on sample views\<close>

definition sample_tip :: "hash \<Rightarrow> block_meta" where
  "sample_tip h = \<lparr>Hash = h, Height = 100, PrevHash = 99, Time = 900\<rparr>"

definition sample_view :: "hash \<Rightarrow> nat \<Rightarrow> view" where
  "sample_view tip shift = silent_view\<lparr>vHealth := Inr HealthOK, vBest := Inr (sample_tip tip),
     vHashAt := \<lambda>h. Inr (nat h + shift)\<rparr>"

definition good_views :: views where
  "good_views = \<lparr>sfView = sample_view 100 0, sqView = sample_view 100 0\<rparr>"

definition wrong_views :: views where
  "wrong_views = \<lparr>sfView = sample_view 100 0, sqView = sample_view 500 400\<rparr>"

definition paused_sentinel :: sentinel where
  "paused_sentinel = foldl (sentinel_step demo_lib)
     (NewSentinel demo_scfg (demo_state_db\<lparr>t_split := Some (demo_row StateUnarmed)\<rparr>)) [STick 1000000000000 wrong_views]"

lemma paused_facts:
  "sePaused paused_sentinel \<and> seLastBranchAttempt paused_sentinel = Some 1000000000000
    \<and> s_SQHealth (seState paused_sentinel) = HealthOK"
  by code_simp

lemma good_check:
  "VerifyBranch (vHashAt (sfView good_views)) (vHashAt (sqView good_views))
     (s_TrustAnchor (next_state demo_lib 1120000000000 good_views paused_sentinel))
     (s_Fork (next_state demo_lib 1120000000000 good_views paused_sentinel)) = None"
  by code_simp

theorem pause_is_lifted_witness:
  "sePaused paused_sentinel \<and> \<not> sePaused (tick demo_lib 1120000000000 good_views paused_sentinel)"
  using pause_is_lifted [OF paused_sentinel_def, of 1120000000000 good_views] paused_facts good_check
  by (simp add: BranchRetryInterval_def)

theorem resumption_is_silent_witness:
  "\<exists>evs. sePublished (tick demo_lib 1120000000000 good_views paused_sentinel) = sePublished paused_sentinel @ evs
    \<and> list_all (\<lambda>e. \<not> withdraws wrong_branch_key e) evs"
proof -
  have "reports HealthOK (sqView good_views)"
    by (simp add: reports_def good_views_def sample_view_def)
  then show ?thesis
    using resumption_is_silent [of paused_sentinel "[(1120000000000, good_views)]" demo_lib] paused_facts by auto
qed

end
