(* ===== verification/Sentinel_Restart.thy ===== *)
theory Sentinel_Restart
  imports Sentinel_Facts
begin

text \<open>
  What the shell writes down is enough to go on from: after any ticks the store holds the phase, the separation, when it
  was seen, the trust anchor and the candidate with its clock, and a new process reads them back.
\<close>

section \<open>Heights stay heights\<close>

definition is_height :: "int \<Rightarrow> bool" where
  "is_height n \<longleftrightarrow> 0 \<le> n \<and> n \<le> 2 ^ 31 - 1"

text \<open>A block at a possible height, the one its hash stands for: \<open>ht\<close> gives each block its height.\<close>

definition placed :: "(hash \<Rightarrow> int) \<Rightarrow> 'x block_ref_scheme \<Rightarrow> bool" where
  "placed ht b \<longleftrightarrow> is_height (Height b) \<and> ht (Hash b) = Height b"

lemma placed_ref: "placed ht \<lparr>Hash = Hash a, Height = Height a\<rparr> = placed ht a"
  by (simp add: placed_def)

lemma placed_height: "placed ht b \<Longrightarrow> is_height (Height b)"
  by (simp only: placed_def)

definition typed_fetch :: "(hash \<Rightarrow> int) \<Rightarrow> header_fetcher \<Rightarrow> bool" where
  "typed_fetch ht f \<longleftrightarrow> (\<forall>h m. f h = Inr m \<longrightarrow> placed ht m)"

definition typed_cache :: "(hash \<Rightarrow> int) \<Rightarrow> header_cache option \<Rightarrow> bool" where
  "typed_cache ht c \<longleftrightarrow> (\<forall>x e. c = Some x \<longrightarrow> e \<in> set (cacheOrder x) \<longrightarrow> placed ht (EntryMeta e))"

lemma set_evict: "set (evict limit es) \<subseteq> set es"
proof (induction limit es rule: evict.induct)
  case (1 limit es)
  then show ?case by (subst evict.simps) (auto dest: in_set_butlastD)
qed

lemma cacheGet_typed:
  assumes "typed_cache ht (Some c)"
  shows "typed_cache ht (Some (fst (cacheGet c br h))) \<and> (\<forall>m. snd (cacheGet c br h) = Some m \<longrightarrow> placed ht m)"
  using assms find_Some_mem [of "has_key br h" "cacheOrder c"]
  by (auto simp: cacheGet_def typed_cache_def split: option.split)

lemma cachePut_typed: "typed_cache ht (Some c) \<Longrightarrow> placed ht m \<Longrightarrow> typed_cache ht (Some (cachePut c br m))"
  using set_evict by (fastforce simp: cachePut_def typed_cache_def split: option.split)

lemma fetchHeader_typed:
  assumes "typed_fetch ht f" "typed_cache ht c"
  shows "typed_cache ht (fst (fetchHeader f c br h)) \<and> (\<forall>m. snd (fetchHeader f c br h) = Inr m \<longrightarrow> placed ht m)"
proof (cases c)
  case None
  then show ?thesis using assms by (auto simp: fetchHeader_def typed_fetch_def typed_cache_def split: sum.split)
next
  case (Some x)
  obtain x' hit where g: "cacheGet x br h = (x', hit)" by (cases "cacheGet x br h")
  with cacheGet_typed [of ht x br h] assms(2) Some have "typed_cache ht (Some x')" "\<forall>m. hit = Some m \<longrightarrow> placed ht m" by simp_all
  then show ?thesis using assms(1) cachePut_typed Some g
    by (auto simp: fetchHeader_def typed_fetch_def split: option.split sum.split)
qed

lemma walk_down_typed:
  assumes "typed_fetch ht fetch"
  shows "typed_cache ht cache \<Longrightarrow> placed ht a \<Longrightarrow>
    typed_cache ht (fst (walk_down fetch br err maxWalk target cache a steps))
    \<and> (\<forall>b n. snd (walk_down fetch br err maxWalk target cache a steps) = Inr (b, n) \<longrightarrow> placed ht b)"
  using assms
proof (induction fetch br err maxWalk target cache a steps rule: walk_down.induct)
  case (1 fetch br err maxWalk target cache a steps)
  obtain c1 r where f: "fetchHeader fetch cache br (PrevHash a) = (c1, r)" by (cases "fetchHeader fetch cache br (PrevHash a)")
  have t: "typed_cache ht c1" "\<forall>m. r = Inr m \<longrightarrow> placed ht m"
    using fetchHeader_typed [OF "1.prems"(3,1), of br "PrevHash a"] f by simp_all
  show ?case
    by (subst (1 2) walk_down.simps) (use 1 f t in \<open>auto split: sum.split\<close>)
qed

lemma walk_both_typed:
  assumes "typed_fetch ht sf" "typed_fetch ht sq"
  shows "typed_cache ht cache \<Longrightarrow> placed ht a \<Longrightarrow>
    typed_cache ht (fst (walk_both sf sq maxWalk cache a b steps))
    \<and> (\<forall>f. snd (walk_both sf sq maxWalk cache a b steps) = Inr f \<longrightarrow> placed ht f)"
  using assms
proof (induction sf sq maxWalk cache a b steps rule: walk_both.induct)
  case (1 sf sq maxWalk cache a b steps)
  obtain c1 r where f: "fetchHeader sf cache BranchSF (PrevHash a) = (c1, r)" by (cases "fetchHeader sf cache BranchSF (PrevHash a)")
  obtain c2 q where g: "fetchHeader sq c1 BranchSQ (PrevHash b) = (c2, q)" by (cases "fetchHeader sq c1 BranchSQ (PrevHash b)")
  have t: "typed_cache ht c1" "\<forall>m. r = Inr m \<longrightarrow> placed ht m"
    using fetchHeader_typed [OF "1.prems"(3,1), of BranchSF "PrevHash a"] f by simp_all
  then have u: "typed_cache ht c2"
    using fetchHeader_typed [OF "1.prems"(4), of c1 BranchSQ "PrevHash b"] g by simp
  show ?case
  proof (cases "Hash a = Hash b")
    case True
    then have "walk_both sf sq maxWalk cache a b steps = (cache, Inr \<lparr>Hash = Hash a, Height = Height a\<rparr>)"
      by (simp add: walk_both.simps)
    with "1.prems" show ?thesis by (simp add: placed_ref)
  next
    case False
    with 1 f g t u show ?thesis
      by (subst (1 2) walk_both.simps) (simp split: sum.split)
  qed
qed

lemma FindForkPoint_typed:
  assumes "typed_fetch ht sf" "typed_fetch ht sq" "typed_cache ht cache" "placed ht sfTip" "placed ht sqTip"
  shows "typed_cache ht (fst (FindForkPoint sf sq sfTip sqTip limit cache))
    \<and> (\<forall>f. snd (FindForkPoint sf sq sfTip sqTip limit cache) = Inr f \<longrightarrow> placed ht f)"
proof -
  let ?m = "if limit \<le> 0 then DefaultMaxAncestorWalk else limit"
  obtain c1 r where f: "walk_down sf BranchSF WalkedSF ?m (Height sqTip) cache sfTip 0 = (c1, r)"
    by (cases "walk_down sf BranchSF WalkedSF ?m (Height sqTip) cache sfTip 0")
  have t: "typed_cache ht c1" "\<forall>a n. r = Inr (a, n) \<longrightarrow> placed ht a"
    using walk_down_typed [OF assms(1,3,4), of BranchSF WalkedSF ?m "Height sqTip" 0] f by simp_all
  show ?thesis
  proof (cases r)
    case (Inl e)
    with f t show ?thesis by (simp add: FindForkPoint_def Let_def)
  next
    case (Inr p)
    obtain a n where p: "p = (a, n)" by (cases p)
    obtain c2 q where g: "walk_down sq BranchSQ WalkedSQ ?m (Height a) c1 sqTip n = (c2, q)"
      by (cases "walk_down sq BranchSQ WalkedSQ ?m (Height a) c1 sqTip n")
    have u: "typed_cache ht c2" using walk_down_typed [OF assms(2) t(1) assms(5), of BranchSQ WalkedSQ ?m "Height a" n] g by simp
    show ?thesis
      using f g t u Inr p walk_both_typed [OF assms(1,2) u, of a ?m]
      by (auto simp: FindForkPoint_def Let_def split: sum.split prod.split)
  qed
qed

definition typed_view :: "(hash \<Rightarrow> int) \<Rightarrow> view \<Rightarrow> bool" where
  "typed_view ht v \<longleftrightarrow> typed_fetch ht (vHeader v) \<and> (\<forall>m. vBest v = Inr m \<longrightarrow> placed ht m)"

lemma recentHashes_disk [simp]:
  "seCache (fst (recentHashes L br w)) = seCache w"
  "t_meta (fst (recentHashes L br w)) = t_meta w"
  "t_split (fst (recentHashes L br w)) = t_split w"
  "faults w = [] \<Longrightarrow> faults (fst (recentHashes L br w)) = []"
proof -
  have "fst (recentHashes L br w) = fst (RecentBranchHashes br (scAncestryDepth (seCfg w)) w)"
    by (simp add: recentHashes_def case_prod_beta split: sum.split)
  then show "seCache (fst (recentHashes L br w)) = seCache w" "t_meta (fst (recentHashes L br w)) = t_meta w"
    "t_split (fst (recentHashes L br w)) = t_split w" "faults w = [] \<Longrightarrow> faults (fst (recentHashes L br w)) = []"
    by (simp_all add: RecentBranchHashes_def db_read_unfold Let_def split: list.split)
qed

lemma readView_tip:
  assumes "typed_view ht v" "snd (snd (readView v br w)) = Some t"
  shows "placed ht t"
  using assms by (auto simp: readView_def typed_view_def Let_def split: sum.splits if_splits)

lemma compare_tips_typed:
  assumes "typed_view ht (sfView vs)" "typed_view ht (sqView vs)" "typed_cache ht (Some (seCache w))"
    and "\<forall>t. o_SFTip obs = Some t \<longrightarrow> placed ht t" "\<forall>t. o_SQTip obs = Some t \<longrightarrow> placed ht t"
    and "o_ForkCandidate obs = None"
  shows "typed_cache ht (Some (seCache (fst (compare_tips vs obs w))))
    \<and> (\<forall>f. o_ForkCandidate (snd (compare_tips vs obs w)) = Some f \<longrightarrow> placed ht f)"
proof (cases "\<exists>sf sq. o_SFTip obs = Some sf \<and> o_SQTip obs = Some sq \<and> Hash sf \<noteq> Hash sq")
  case True
  then obtain sf sq where t: "o_SFTip obs = Some sf" "o_SQTip obs = Some sq" "Hash sf \<noteq> Hash sq" by blast
  obtain c res where f: "FindForkPoint (vHeader (sfView vs)) (vHeader (sqView vs)) sf sq (scMaxAncestorWalk (seCfg w)) (Some (seCache w)) = (c, res)"
    by fastforce
  have "typed_cache ht c \<and> (\<forall>f. res = Inr f \<longrightarrow> placed ht f)"
    using FindForkPoint_typed [of ht "vHeader (sfView vs)" "vHeader (sqView vs)" "Some (seCache w)" sf sq "scMaxAncestorWalk (seCfg w)"] assms t f
    by (simp add: typed_view_def)
  moreover have "seCache (fst (compare_tips vs obs w)) = (case c of Some c \<Rightarrow> c | None \<Rightarrow> seCache w)"
    "o_ForkCandidate (snd (compare_tips vs obs w)) = (case res of Inr f \<Rightarrow> Some f | Inl _ \<Rightarrow> None)"
    using t f assms(6) by (simp_all add: compare_tips_def Let_def case_prod_beta split: sum.split)
  ultimately show ?thesis using assms(3) by (cases c; cases res) simp_all
next
  case False
  then have "seCache (fst (compare_tips vs obs w)) = seCache w" "o_ForkCandidate (snd (compare_tips vs obs w)) = None"
    using assms(6) by (cases "o_SFTip obs"; cases "o_SQTip obs"; simp add: compare_tips_def)+
  with assms(3) show ?thesis by simp
qed

definition typed_obs :: "(hash \<Rightarrow> int) \<Rightarrow> observation \<Rightarrow> bool" where
  "typed_obs ht ob \<longleftrightarrow> (\<forall>f. o_ForkCandidate ob = Some f \<longrightarrow> placed ht f)"

lemma seen_typed:
  assumes "typed_view ht (sfView vs)" "typed_view ht (sqView vs)" "typed_cache ht (Some (seCache w))"
  shows "typed_obs ht (seen L now vs w) \<and> typed_cache ht (Some (seCache (fst (observe L now vs w))))"
proof -
  let ?r1 = "readView (sfView vs) BranchSF w"
  let ?r2 = "readView (sqView vs) BranchSQ (fst ?r1)"
  let ?w3 = "fst (recentHashes L BranchSF (fst ?r2))"
  let ?w4 = "fst (recentHashes L BranchSQ ?w3)"
  let ?ob = "(blank_observation now (seCfg w))\<lparr>o_SFHealth := fst (snd ?r1), o_SFTip := snd (snd ?r1), o_SQHealth := fst (snd ?r2),
    o_SQTip := snd (snd ?r2), o_SFTips := chain_tips (sfView vs), o_SFAncestry := snd (recentHashes L BranchSF (fst ?r2)),
    o_SQAncestry := snd (recentHashes L BranchSQ ?w3)\<rparr>"
  have "observe L now vs w = compare_tips vs ?ob ?w4"
    by (simp add: observe_def case_prod_beta Let_def)
  moreover have "\<forall>t. o_SFTip ?ob = Some t \<longrightarrow> placed ht t" "\<forall>t. o_SQTip ?ob = Some t \<longrightarrow> placed ht t"
    using readView_tip [OF assms(1)] readView_tip [OF assms(2)] by simp_all
  moreover have "o_ForkCandidate ?ob = None" by (simp add: blank_observation_def)
  ultimately show ?thesis
    using compare_tips_typed [OF assms(1,2), of ?w4 ?ob] assms(3) by (simp add: seen_def typed_obs_def)
qed

definition typed_state :: "(hash \<Rightarrow> int) \<Rightarrow> sstate \<Rightarrow> bool" where
  "typed_state ht s \<longleftrightarrow> (\<forall>f. s_Fork s = Some f \<longrightarrow> placed ht f) \<and> (\<forall>f. s_ForkCandidate s = Some f \<longrightarrow> placed ht f)
     \<and> is_height (s_TrustAnchor s)"

lemma i32_top: "i32 x \<le> 2 ^ 31 - 1"
  using is_i32_i32 [of x] by (simp add: is_i32_def)

definition anchored :: "int \<Rightarrow> bool" where
  "anchored b \<longleftrightarrow> b = - 1 \<or> is_height b"

lemma consider_typed: "anchored b \<Longrightarrow> c \<le> 2 ^ 31 - 1 \<Longrightarrow> anchored (consider_bound b c)"
  by (auto simp: anchored_def consider_bound_def is_height_def)

lemma consider_if: "anchored b \<Longrightarrow> anchored (if p then consider_bound b (i32 c) else b)"
  by (auto intro: consider_typed i32_top)

lemma consider_case:
  "anchored b \<Longrightarrow> (\<And>f. x = Some f \<Longrightarrow> p f \<Longrightarrow> g f \<le> 2 ^ 31 - 1) \<Longrightarrow>
     anchored (case x of Some f \<Rightarrow> if p f then consider_bound b (g f) else b | None \<Rightarrow> b)"
  by (cases x) (auto intro: consider_typed)

lemma TrustAnchorHeight_typed:
  assumes "\<forall>f. fork = Some f \<longrightarrow> is_height (Height f)"
  shows "is_height (fst (TrustAnchorHeight ob fork))"
proof -
  let ?b1 = "if 0 < o_DivergenceHeight ob then consider_bound (- 1) (i32 (o_DivergenceHeight ob - 1)) else - 1"
  let ?e = "earliestRejectedHeight (o_SFTips ob)"
  let ?b2 = "if snd ?e then consider_bound ?b1 (i32 (fst ?e - 1)) else ?b1"
  let ?b3 = "case fork of Some f \<Rightarrow> consider_bound ?b2 (Height f) | None \<Rightarrow> ?b2"
  let ?b4 = "case o_SFTip ob of Some t \<Rightarrow> if 0 < o_ReorgMargin ob then consider_bound ?b3 (i32 (Height t - o_ReorgMargin ob)) else ?b3 | None \<Rightarrow> ?b3"
  have "anchored (- 1)" by (simp add: anchored_def)
  then have "anchored ?b1" by (rule consider_if)
  then have "anchored ?b2" by (rule consider_if)
  then have "anchored ?b3"
    using consider_case [of ?b2 fork "\<lambda>_. True" Height] assms by (simp only: if_True is_height_def)
  then have b4: "anchored ?b4" by (rule consider_case) (rule i32_top)
  moreover have "TrustAnchorHeight ob fork = (if ?b4 = - 1 then (0, False) else (if ?b4 < 0 then 0 else ?b4, True))"
    by (simp add: TrustAnchorHeight_def Let_def case_prod_beta split: option.split)
  moreover have "is_height (fst (if b = - 1 then (0, False) else (if b < 0 then 0 else b, True)))" if "anchored b" for b :: int
    using that by (auto simp: anchored_def is_height_def)
  ultimately show ?thesis using b4 by (simp only:)
qed

section \<open>What the decision logic keeps\<close>

definition tracked_blocks :: "sstate \<Rightarrow> observation \<Rightarrow> sstate" where
  "tracked_blocks s ob =
     fst (trackBlocks (trackForkCandidate (trackDisagreement (fst (trackHealth s ob)) ob) ob) ob)"

lemma tracked_blocks_fields [simp]:
  "s_TrustAnchor (tracked_blocks s ob) = s_TrustAnchor s"
  "s_Fork (tracked_blocks s ob) = s_Fork s"
proof -
  have a: "s_TrustAnchor (fst (trackHealth t ob)) = s_TrustAnchor t" for t by (subst trackHealth_frame) simp
  have b: "s_TrustAnchor (fst (trackBlocks t ob)) = s_TrustAnchor t" for t by (subst trackBlocks_frame) simp
  have c: "s_TrustAnchor (trackForkCandidate t ob) = s_TrustAnchor t" for t by (subst trackForkCandidate_frame) simp
  have d: "s_TrustAnchor (trackDisagreement t ob) = s_TrustAnchor t" for t by (subst trackDisagreement_frame) simp
  show "s_TrustAnchor (tracked_blocks s ob) = s_TrustAnchor s" by (simp add: tracked_blocks_def a b c d)
  show "s_Fork (tracked_blocks s ob) = s_Fork s" by (simp add: tracked_blocks_def)
qed

lemma applyPhase_anchor [simp]: "s_TrustAnchor (applyPhase s p ob) = s_TrustAnchor s"
  by (cases p) (simp_all add: applyPhase_def Let_def)

lemma stp_anchor: "s_TrustAnchor (stp s ob) = s_TrustAnchor (fst (trackTrustAnchor (tracked_blocks s ob) ob))"
  by (simp add: stp_def Step_eq Let_def tracked_def tracked_blocks_def)

lemma stp_candidate:
  "s_ForkCandidate (stp s ob) = s_ForkCandidate (trackForkCandidate s ob)"
  "s_ForkCandidateSince (stp s ob) = s_ForkCandidateSince (trackForkCandidate s ob)"
  by (simp_all add: stp_def Step_fields)

lemma stp_fork: "s_Fork (stp s ob) \<in> {s_Fork s, s_ForkCandidate (stp s ob), o_ForkCandidate ob}"
proof -
  have "s_Fork (applyPhase t p ob) \<in> {s_Fork t, s_ForkCandidate t, o_ForkCandidate ob}" for t p
    by (cases p) (simp_all add: applyPhase_def Let_def)
  from this [of "tracked s ob"] show ?thesis by (auto simp: stp_def Step_eq Let_def)
qed

lemma stp_typed:
  assumes "typed_state ht s" "typed_obs ht ob"
  shows "typed_state ht (stp s ob)"
proof -
  have c: "\<forall>f. s_ForkCandidate (stp s ob) = Some f \<longrightarrow> placed ht f"
    using assms by (auto simp: stp_candidate trackForkCandidate_def typed_state_def typed_obs_def Let_def split: option.splits if_splits)
  moreover have "\<forall>f. s_Fork (stp s ob) = Some f \<longrightarrow> placed ht f"
    using stp_fork [of s ob] c assms by (auto simp: typed_state_def typed_obs_def)
  moreover have "is_height (s_TrustAnchor (stp s ob))"
    using assms TrustAnchorHeight_typed [of "s_Fork s" ob]
    by (simp add: placed_height [of ht] stp_anchor trackTrustAnchor_def Let_def case_prod_beta typed_state_def)
  ultimately show ?thesis by (simp add: typed_state_def)
qed

text \<open>The clock of a candidate runs exactly while there is one.\<close>

definition clocked :: "sstate \<Rightarrow> bool" where
  "clocked s \<longleftrightarrow> 0 \<le> s_ForkCandidateSince s \<and> is_i64 (s_ForkCandidateSince s)
     \<and> (s_ForkCandidate s = None \<longleftrightarrow> s_ForkCandidateSince s = 0)"

lemma stp_clocked:
  assumes "clocked s" "0 < o_At ob" "is_i64 (o_At ob)"
  shows "clocked (stp s ob)"
  using assms
  by (auto simp: clocked_def stp_candidate trackForkCandidate_def Let_def is_i64_def split: option.split)

lemma stp_unmoved:
  assumes "s_Phase (stp s ob) = s_Phase s"
  shows "s_Fork (stp s ob) = s_Fork s \<and> s_DetectedAt (stp s ob) = s_DetectedAt s"
  using assms by (simp add: stp_def Step_eq Let_def split: if_splits)

lemma moves_valid: "moves p q \<Longrightarrow> Phase_Valid q"
  by (induction rule: moves.induct) (auto elim: Resolved.elims)

lemma stp_valid: "Phase_Valid (s_Phase (stp s ob))"
  by (rule moves_valid [OF Step_moves])

section \<open>What is written\<close>

lemma meta_keys_distinct:
  "distinct [MetaSQBranchVerifiedAt, MetaTrustAnchorHeight, MetaForkCandidateHash, MetaForkCandidateHeight, MetaForkCandidateSince, []]"
  by (simp add: MetaSQBranchVerifiedAt_def MetaTrustAnchorHeight_def MetaForkCandidateHash_def MetaForkCandidateHeight_def
      MetaForkCandidateSince_def)

lemma SetMeta_disk [simp]:
  fixes w :: sentinel
  assumes "faults w = []"
  shows "faults (fst (SetMeta k v w)) = []"
    and "t_split (fst (SetMeta k v w)) = t_split w"
    and "k \<noteq> '''' \<Longrightarrow> map_of (t_meta (fst (SetMeta k v w))) = (map_of (t_meta w))(k \<mapsto> v)"
  using assms by (simp_all add: SetMeta_def db_call_def update_conv')

lemma SetMeta_cache [simp]:
  fixes w :: sentinel
  shows "seCache (fst (SetMeta k v w)) = seCache w" "seCache (fst (SetMetaInt64 k n w)) = seCache w"
    and "seCache (fst (SaveSplitState r w)) = seCache w" "seCache (fst (RecordBranchBlock b w)) = seCache w"
  by (simp_all add: SetMetaInt64_def SetMeta_def SaveSplitState_def RecordBranchBlock_def db_call_def Let_def split: list.split)

definition anchor_write :: "effect \<Rightarrow> (string \<rightharpoonup> string) \<Rightarrow> (string \<rightharpoonup> string)" where
  "anchor_write e m = (case e of EffectTrustAnchorChanged h _ \<Rightarrow> m(MetaTrustAnchorHeight \<mapsto> formatInt64 h) | _ \<Rightarrow> m)"

lemma apply_effect_disk:
  assumes "faults w = []" "Phase_Valid (s_Phase st)"
  shows "faults (apply_effect L now st e w) = []
    \<and> t_split (apply_effect L now st e w) = (if e = EffectPersistState then map_option (\<lambda>_. split_row L now st) (t_split w) else t_split w)
    \<and> map_of (t_meta (apply_effect L now st e w)) = anchor_write e (map_of (t_meta w))
    \<and> seCache (apply_effect L now st e w) = seCache w"
proof (cases e)
  case EffectPersistState
  have "SplitState_Valid (state_of (s_Phase st))" using assms(2) by (cases "s_Phase st") simp_all
  moreover have "slState (split_row L now st) = state_of (s_Phase st)" by (simp add: split_row_def Let_def split: option.split)
  ultimately show ?thesis using assms(1) EffectPersistState
    by (simp add: persistState_def SaveSplitState_def db_call_def anchor_write_def)
next
  case (EffectBranchExtended br b n r)
  have "faults (fst (RecordBranchBlock x v)) = [] \<and> t_split (fst (RecordBranchBlock x v)) = t_split v
    \<and> t_meta (fst (RecordBranchBlock x v)) = t_meta v" if "faults v = []" for x and v :: sentinel
    using that by (simp add: RecordBranchBlock_def db_call_def Let_def)
  with assms(1) EffectBranchExtended show ?thesis by (simp add: recordBlock_def Let_def anchor_write_def spublish_def)
next
  case (EffectTrustAnchorChanged h x)
  then show ?thesis using assms(1) meta_keys_distinct
    by (simp add: persistTrustAnchor_def SetMetaInt64_def anchor_write_def)
qed (use assms in \<open>simp_all add: announcePhase_def announceHealth_def anchor_write_def spublish_def\<close>)

lemma apply_effects_disk:
  assumes "faults w = []" "Phase_Valid (s_Phase st)"
  shows "faults (apply_effects L now st es w) = []
    \<and> t_split (apply_effects L now st es w) = (if EffectPersistState \<in> set es then map_option (\<lambda>_. split_row L now st) (t_split w) else t_split w)
    \<and> map_of (t_meta (apply_effects L now st es w)) = fold anchor_write es (map_of (t_meta w))
    \<and> seCache (apply_effects L now st es w) = seCache w"
  using assms(1)
proof (induction es arbitrary: w)
  case (Cons e es)
  let ?x = "apply_effect L now st e w"
  note e = apply_effect_disk [OF Cons.prems assms(2), of L now e]
  have step: "apply_effects L now st (e # es) w = apply_effects L now st es ?x" by (simp add: apply_effects_def)
  from e have "faults ?x = []" by simp
  note ih = Cons.IH [OF this]
  have again: "map_option (\<lambda>_. r) (map_option (\<lambda>_. r) x) = map_option (\<lambda>_. r) x" for r :: split and x :: "split option"
    by (cases x) simp_all
  show ?case unfolding step
  proof (intro conjI)
    show "t_split (apply_effects L now st es ?x) =
        (if EffectPersistState \<in> set (e # es) then map_option (\<lambda>_. split_row L now st) (t_split w) else t_split w)"
      using ih e again by (cases "e = EffectPersistState") (simp_all del: apply_effect.simps)
  qed (use ih e in \<open>simp_all del: apply_effect.simps\<close>)
qed (simp add: apply_effects_def)

text \<open>What the store holds of a state.\<close>

definition disk_anchor :: "(string \<rightharpoonup> string) \<Rightarrow> sstate \<Rightarrow> bool" where
  "disk_anchor m s \<longleftrightarrow>
     (case m MetaTrustAnchorHeight of None \<Rightarrow> s_TrustAnchor s = 0 | Some x \<Rightarrow> x = formatInt64 (s_TrustAnchor s))"

definition disk_candidate :: "hash_lib \<Rightarrow> (string \<rightharpoonup> string) \<Rightarrow> sstate \<Rightarrow> bool" where
  "disk_candidate L m s \<longleftrightarrow>
     (case m MetaForkCandidateSince of None \<Rightarrow> s_ForkCandidateSince s = 0 | Some x \<Rightarrow> x = formatInt64 (s_ForkCandidateSince s))
     \<and> (case s_ForkCandidate s of
          None \<Rightarrow> True
        | Some f \<Rightarrow> m MetaForkCandidateHash = Some (hashText L (Hash f))
            \<and> m MetaForkCandidateHeight = Some (formatInt64 (Height f)))"

definition disk_verdict :: "(string \<rightharpoonup> string) \<Rightarrow> bool" where
  "disk_verdict m \<longleftrightarrow> (\<forall>x. m MetaSQBranchVerifiedAt = Some x \<longrightarrow> (\<exists>n. is_i64 n \<and> x = formatInt64 n))"

definition on_disk :: "hash_lib \<Rightarrow> (hash \<Rightarrow> int) \<Rightarrow> sentinel \<Rightarrow> bool" where
  "on_disk L ht w \<longleftrightarrow> faults w = [] \<and> (\<exists>u. t_split w = Some (split_row L u (seState w))) \<and> Phase_Valid (s_Phase (seState w))
     \<and> disk_anchor (map_of (t_meta w)) (seState w) \<and> disk_candidate L (map_of (t_meta w)) (seState w)
     \<and> disk_verdict (map_of (t_meta w))
     \<and> typed_state ht (seState w) \<and> clocked (seState w) \<and> typed_cache ht (Some (seCache w))"

lemma anchor_write_none: "(\<And>h d. EffectTrustAnchorChanged h d \<notin> set es) \<Longrightarrow> fold anchor_write es m = m"
proof (induction es)
  case (Cons e es)
  then show ?case by (cases e) (auto simp: anchor_write_def)
qed simp

lemma effects_anchor:
  "fold anchor_write (effects_of L now vs w) m =
     (if s_TrustAnchor (next_state L now vs w) = s_TrustAnchor (seState w) then m
      else m(MetaTrustAnchorHeight \<mapsto> formatInt64 (s_TrustAnchor (next_state L now vs w))))"
proof -
  let ?s = "seState w" and ?ob = "seen L now vs w"
  let ?t = "trackForkCandidate (trackDisagreement (fst (trackHealth ?s ?ob)) ?ob) ?ob"
  have h: "EffectTrustAnchorChanged x d \<notin> set (snd (trackHealth ?s ?ob))" for x d
    by (simp add: trackHealth_def Let_def)
  have b: "snd (trackBranch br o' st c l f n) \<noteq> Some (EffectTrustAnchorChanged x d)" for br o' st c l f n x d
    by (simp add: trackBranch_def Let_def split: option.split)
  have bs: "EffectTrustAnchorChanged x d \<notin> set (snd (trackBlocks ?t ?ob))" for x d
    by (auto simp: trackBlocks_def Let_def case_prod_beta List.map_filter_def b)
  have "tracking_effects ?s ?ob = snd (trackHealth ?s ?ob) @ snd (trackBlocks ?t ?ob) @ snd (trackTrustAnchor (tracked_blocks ?s ?ob) ?ob)"
    by (simp add: tracking_effects_def Let_def tracked_blocks_def)
  moreover have "fold anchor_write (snd (trackTrustAnchor (tracked_blocks ?s ?ob) ?ob)) m =
      (if s_TrustAnchor (stp ?s ?ob) = s_TrustAnchor ?s then m
       else m(MetaTrustAnchorHeight \<mapsto> formatInt64 (s_TrustAnchor (stp ?s ?ob))))" for m
    by (simp add: stp_anchor trackTrustAnchor_def Let_def case_prod_beta anchor_write_def)
  ultimately have "fold anchor_write (tracking_effects ?s ?ob) m =
      (if s_TrustAnchor (stp ?s ?ob) = s_TrustAnchor ?s then m
       else m(MetaTrustAnchorHeight \<mapsto> formatInt64 (s_TrustAnchor (stp ?s ?ob))))"
    by (simp add: anchor_write_none [OF h] anchor_write_none [OF bs])
  then show ?thesis by (simp add: effects_of_eq next_state_def anchor_write_def)
qed

lemma effects_persist:
  "EffectPersistState \<in> set (effects_of L now vs w) \<longleftrightarrow> s_Phase (next_state L now vs w) \<noteq> s_Phase (seState w)"
proof -
  have "EffectPersistState \<notin> set (tracking_effects (seState w) (seen L now vs w))"
    using tracking_effects_kind [of "seState w" "seen L now vs w"] by (auto simp: list_all_iff tracking_effect_def)
  then show ?thesis by (simp add: effects_of_eq)
qed

lemma candidate_disk:
  fixes w :: sentinel
  assumes "faults w = []" "disk_candidate L (map_of (t_meta w)) prev" "clocked prev" "clocked st" "typed_state ht prev" "typed_state ht st"
  shows "faults (persistForkCandidate L prev st w) = []
    \<and> t_split (persistForkCandidate L prev st w) = t_split w
    \<and> seCache (persistForkCandidate L prev st w) = seCache w
    \<and> disk_candidate L (map_of (t_meta (persistForkCandidate L prev st w))) st
    \<and> (\<forall>k \<in> {MetaTrustAnchorHeight, MetaSQBranchVerifiedAt}.
         map_of (t_meta (persistForkCandidate L prev st w)) k = map_of (t_meta w) k)"
proof (cases "sameCandidate prev st")
  case True
  then have "s_ForkCandidateSince prev = s_ForkCandidateSince st" "s_ForkCandidate prev = s_ForkCandidate st"
    using assms(5,6) by (auto simp: sameCandidate_def typed_state_def placed_def split: option.splits intro!: block_ref.equality)
  with assms(2) have "disk_candidate L (map_of (t_meta w)) st" by (simp only: disk_candidate_def)
  with True assms(1) show ?thesis by (simp add: persistForkCandidate_def)
next
  case False
  then show ?thesis using assms(1,4) meta_keys_distinct
    by (cases "s_ForkCandidate st") (simp_all add: persistForkCandidate_def Let_def SetMetaInt64_def disk_candidate_def clocked_def)
qed

lemma verify_disk:
  assumes "faults w = []" "disk_verdict (map_of (t_meta w))" "is_i64 (unix now)"
  shows "faults (maybeReverifyBranch now vs st es w) = []
    \<and> t_split (maybeReverifyBranch now vs st es w) = t_split w
    \<and> seCache (maybeReverifyBranch now vs st es w) = seCache w
    \<and> disk_verdict (map_of (t_meta (maybeReverifyBranch now vs st es w)))
    \<and> (\<forall>k. k \<noteq> MetaSQBranchVerifiedAt \<longrightarrow> map_of (t_meta (maybeReverifyBranch now vs st es w)) k = map_of (t_meta w) k)"
proof -
  have "is_i64 0" by (simp add: is_i64_def)
  then show ?thesis using assms meta_keys_distinct
    by (auto simp: maybeReverifyBranch_def branch_confirmed_def branch_refuted_def Let_def SetMetaInt64_def disk_verdict_def
        spublish_def split: option.split)
qed

definition sound_tick :: "(hash \<Rightarrow> int) \<Rightarrow> int \<Rightarrow> views \<Rightarrow> bool" where
  "sound_tick ht now vs \<longleftrightarrow> 0 < unix now \<and> is_i64 (unix now) \<and> typed_view ht (sfView vs) \<and> typed_view ht (sqView vs)"

lemma observe_disk:
  "t_meta (fst (observe L now vs w)) = t_meta w"
  "t_split (fst (observe L now vs w)) = t_split w"
  "faults w = [] \<Longrightarrow> faults (fst (observe L now vs w)) = []"
  by (simp_all add: observe_def case_prod_beta Let_def)

lemma disk_anchor_cong: "m MetaTrustAnchorHeight = m' MetaTrustAnchorHeight \<Longrightarrow> disk_anchor m s = disk_anchor m' s"
  by (simp add: disk_anchor_def)

lemma disk_candidate_cong:
  "(\<And>k. k \<in> {MetaForkCandidateSince, MetaForkCandidateHash, MetaForkCandidateHeight} \<Longrightarrow> m k = m' k) \<Longrightarrow>
     disk_candidate L m s = disk_candidate L m' s"
proof -
  assume k: "\<And>k. k \<in> {MetaForkCandidateSince, MetaForkCandidateHash, MetaForkCandidateHeight} \<Longrightarrow> m k = m' k"
  have "m MetaForkCandidateSince = m' MetaForkCandidateSince" "m MetaForkCandidateHash = m' MetaForkCandidateHash"
    "m MetaForkCandidateHeight = m' MetaForkCandidateHeight" by (simp_all add: k)
  then show ?thesis by (cases "s_ForkCandidate s") (simp_all add: disk_candidate_def)
qed

lemma disk_anchor_only [simp]:
  "disk_candidate L (m(MetaTrustAnchorHeight \<mapsto> x)) s = disk_candidate L m s"
  "disk_verdict (m(MetaTrustAnchorHeight \<mapsto> x)) = disk_verdict m"
  using meta_keys_distinct by (auto intro!: disk_candidate_cong simp: disk_verdict_def)

lemma disk_verdict_cong: "m MetaSQBranchVerifiedAt = m' MetaSQBranchVerifiedAt \<Longrightarrow> disk_verdict m = disk_verdict m'"
  by (simp add: disk_verdict_def)

lemma tick_on_disk:
  assumes "on_disk L ht w" "sound_tick ht now vs"
  shows "on_disk L ht (tick L now vs w)"
proof -
  let ?s = "seState w" and ?st = "next_state L now vs w" and ?es = "effects_of L now vs w"
  let ?m = "map_of (t_meta w)"
  let ?w1 = "(fst (observe L now vs w))\<lparr>seState := ?st\<rparr>"
  let ?w2 = "apply_effects L now ?st ?es ?w1"
  let ?w3 = "persistForkCandidate L ?s ?st ?w2"
  note d = assms(1) [unfolded on_disk_def]
  have obs: "typed_obs ht (seen L now vs w)" "typed_cache ht (Some (seCache (fst (observe L now vs w))))"
    using seen_typed [of ht vs w L now] assms(2) d by (simp_all add: sound_tick_def)
  have st: "typed_state ht ?st" "clocked ?st" "Phase_Valid (s_Phase ?st)"
    using stp_typed [OF _ obs(1)] stp_clocked [of ?s "seen L now vs w"] stp_valid assms(2) d
    by (simp_all add: next_state_def sound_tick_def)
  have f1: "faults ?w1 = []" using d observe_disk(3) by simp
  note e = apply_effects_disk [OF f1 st(3), of L now ?es]
  have m2: "map_of (t_meta ?w2) = (if s_TrustAnchor ?st = s_TrustAnchor ?s then ?m
      else ?m(MetaTrustAnchorHeight \<mapsto> formatInt64 (s_TrustAnchor ?st)))"
    using e by (simp add: effects_anchor observe_disk)
  have "disk_anchor ?m ?s" using d by simp
  then have "disk_anchor (map_of (t_meta ?w2)) ?st" unfolding m2
    by (cases "s_TrustAnchor ?st = s_TrustAnchor ?s"; cases "?m MetaTrustAnchorHeight") (simp_all add: disk_anchor_def)
  moreover have c2: "disk_candidate L (map_of (t_meta ?w2)) ?s" "disk_verdict (map_of (t_meta ?w2))"
    using d by (simp_all add: m2)
  ultimately have c3: "faults ?w3 = []" "t_split ?w3 = t_split ?w2" "seCache ?w3 = seCache ?w2" "disk_candidate L (map_of (t_meta ?w3)) ?st"
    "disk_anchor (map_of (t_meta ?w3)) ?st" "disk_verdict (map_of (t_meta ?w3))"
    using candidate_disk [of ?w2 L ?s ?st ht] e d st
      disk_anchor_cong [of "map_of (t_meta ?w3)" "map_of (t_meta ?w2)"] disk_verdict_cong [of "map_of (t_meta ?w3)" "map_of (t_meta ?w2)"]
    by simp_all
  have row: "\<exists>u. t_split ?w2 = Some (split_row L u ?st)"
  proof (cases "s_Phase ?st = s_Phase ?s")
    case True
    then have "s_Fork ?st = s_Fork ?s \<and> s_DetectedAt ?st = s_DetectedAt ?s"
      using stp_unmoved by (simp add: next_state_def)
    with True have "split_row L u ?st = split_row L u ?s" for u by (simp add: split_row_def Let_def)
    with e True d show ?thesis by (simp add: effects_persist observe_disk)
  next
    case False
    with e d show ?thesis by (auto simp: effects_persist observe_disk)
  qed
  let ?w4 = "announced_at L now vs w"
  have w4: "faults ?w4 = []" "t_meta ?w4 = t_meta ?w3" "t_split ?w4 = t_split ?w3" "seCache ?w4 = seCache ?w3"
    using c3(1) by (simp_all add: announced_at_def announceSuspicion_def spublish_def split: option.split)
  have "disk_verdict (map_of (t_meta ?w4))" using c3 w4 by simp
  from verify_disk [OF w4(1) this, of now vs ?st ?es]
  have v: "faults (tick L now vs w) = []" "t_split (tick L now vs w) = t_split ?w4" "seCache (tick L now vs w) = seCache ?w4"
    "disk_verdict (map_of (t_meta (tick L now vs w)))"
    "k \<noteq> MetaSQBranchVerifiedAt \<Longrightarrow> map_of (t_meta (tick L now vs w)) k = map_of (t_meta ?w4) k" for k
    using assms(2) by (simp_all add: tick_eq sound_tick_def)
  have keep: "map_of (t_meta (tick L now vs w)) k = map_of (t_meta ?w3) k"
    if "k \<in> {MetaTrustAnchorHeight, MetaForkCandidateSince, MetaForkCandidateHash, MetaForkCandidateHeight}" for k
    using v(5) [of k] w4(2) that meta_keys_distinct by auto
  have "disk_anchor (map_of (t_meta (tick L now vs w))) ?st"
    using disk_anchor_cong [of "map_of (t_meta (tick L now vs w))" "map_of (t_meta ?w3)" ?st] keep c3(5) by simp
  moreover have "disk_candidate L (map_of (t_meta (tick L now vs w))) ?st"
    using disk_candidate_cong [of "map_of (t_meta (tick L now vs w))" "map_of (t_meta ?w3)" L ?st] keep c3(4) by blast
  ultimately show ?thesis using v row st c3 w4 e obs(2) by (simp add: on_disk_def)
qed

section \<open>A new process on the same store\<close>

definition hash_ok :: "hash_lib \<Rightarrow> bool" where
  "hash_ok L \<longleftrightarrow> (\<forall>h. hashParse L (hashText L h) = Some h \<and> hashText L h \<noteq> '''')"

lemma meta_read:
  fixes w :: sentinel
  assumes "faults w = []"
  shows "GetMeta k w = (w, case map_of (t_meta w) k of None \<Rightarrow> Inl StoreNotFound | Some v \<Rightarrow> Inr v)"
    and "GetMetaInt64 k n w = (w, case map_of (t_meta w) k of None \<Rightarrow> Inr n | Some v \<Rightarrow> (case parseInt64 v of None \<Rightarrow> Inl StoreIO | Some i \<Rightarrow> Inr i))"
  using assms by (simp_all add: GetMetaInt64_def GetMeta_def db_read_unfold split: option.split)

lemma height_i64: "is_height n \<Longrightarrow> is_i64 n"
  by (simp add: is_height_def is_i64_def)

lemma loadForkCandidate_disk:
  fixes w :: sentinel
  assumes "hash_ok L" "faults w = []" "disk_candidate L (map_of (t_meta w)) s" "clocked s"
    and "s_ForkCandidate st = None" "s_ForkCandidateSince st = 0" "typed_state ht s"
  shows "\<exists>st'. loadForkCandidate L st w = (w, Inr st') \<and> s_ForkCandidateSince st' = s_ForkCandidateSince s
    \<and> s_ForkCandidate st' = s_ForkCandidate s
    \<and> s_Phase st' = s_Phase st \<and> s_Fork st' = s_Fork st \<and> s_DetectedAt st' = s_DetectedAt st \<and> s_TrustAnchor st' = s_TrustAnchor st"
proof (cases "s_ForkCandidate s")
  case None
  then have "GetMetaInt64 MetaForkCandidateSince 0 w = (w, Inr 0)"
    using assms(2-4) by (auto simp: meta_read disk_candidate_def clocked_def parse_format split: option.splits)
  with None assms(4-6) show ?thesis by (simp add: loadForkCandidate_def clocked_def)
next
  case (Some f)
  then have since: "0 < s_ForkCandidateSince s" "is_i64 (s_ForkCandidateSince s)" using assms(4) by (auto simp: clocked_def)
  have h: "is_height (Height f)" using Some assms(7) by (simp add: typed_state_def placed_def)
  from Some assms(3) have "map_of (t_meta w) MetaForkCandidateSince = Some (formatInt64 (s_ForkCandidateSince s))"
    "map_of (t_meta w) MetaForkCandidateHash = Some (hashText L (Hash f))"
    "map_of (t_meta w) MetaForkCandidateHeight = Some (formatInt64 (Height f))"
    using since by (auto simp: disk_candidate_def split: option.splits)
  with since assms(1,2) height_i64 [OF h] h Some show ?thesis
    by (simp add: loadForkCandidate_def meta_read parse_format hash_ok_def) (simp add: is_height_def)
qed

text \<open>What a new process resumes of the one before it.\<close>

definition resumes :: "sentinel \<Rightarrow> sentinel \<Rightarrow> bool" where
  "resumes w w' \<longleftrightarrow>
     s_Phase (seState w') = s_Phase (seState w) \<and> s_Fork (seState w') = s_Fork (seState w)
     \<and> s_DetectedAt (seState w') = s_DetectedAt (seState w) \<and> s_TrustAnchor (seState w') = s_TrustAnchor (seState w)
     \<and> s_ForkCandidateSince (seState w') = s_ForkCandidateSince (seState w)
     \<and> s_ForkCandidate (seState w') = s_ForkCandidate (seState w)"

lemma phase_of_state_of [simp]: "phase_of (state_of p) = p"
  by (cases p) simp_all

lemma split_row_fields:
  "slState (split_row L u s) = state_of (s_Phase s)" "slDetectedAt (split_row L u s) = s_DetectedAt s"
  "slForkHeight (split_row L u s) = (case s_Fork s of None \<Rightarrow> 0 | Some f \<Rightarrow> Height f)"
  "slForkHash (split_row L u s) = (case s_Fork s of None \<Rightarrow> '''' | Some f \<Rightarrow> hashText L (Hash f))"
  by (simp_all add: split_row_def Let_def split: option.split)

lemma load_fork_row:
  assumes "hash_ok L"
  shows "load_fork L (split_row L u s) = Inr (s_Fork s)"
  using assms by (cases "s_Fork s") (simp_all add: load_fork_def ForkKnown_def split_row_fields hash_ok_def)

lemma Load_disk:
  fixes v w :: sentinel
  assumes "hash_ok L" "on_disk L ht w" "faults v = []" "t_meta v = t_meta w" "t_split v = t_split w" "typed_cache ht (Some (seCache v))"
  shows "\<exists>v'. Load L v = (v', None) \<and> resumes w v' \<and> on_disk L ht v'"
proof -
  let ?s = "seState w" and ?m = "map_of (t_meta w)"
  note d = assms(2) [unfolded on_disk_def]
  obtain u where u: "t_split w = Some (split_row L u ?s)" using d by blast
  have h: "is_height (slForkHeight (split_row L u ?s))"
    using d by (auto simp: split_row_fields typed_state_def placed_def is_height_def split: option.split)
  then have split: "GetSplitState v = (v, Inr (split_row L u ?s))"
    using u assms(3,5) by (simp add: GetSplitState_def db_read_unfold int32FromDB_def is_height_def)
  have a: "is_height (s_TrustAnchor ?s)" using d by (simp add: typed_state_def)
  then have anchor: "GetMetaInt64 MetaTrustAnchorHeight 0 v = (v, Inr (s_TrustAnchor ?s))"
    using d assms(3,4) by (auto simp: meta_read disk_anchor_def parse_format height_i64 split: option.splits)
  let ?st = "NewState\<lparr>s_Phase := s_Phase ?s, s_Fork := s_Fork ?s, s_DetectedAt := s_DetectedAt ?s, s_TrustAnchor := s_TrustAnchor ?s\<rparr>"
  obtain st' where st': "loadForkCandidate L ?st v = (v, Inr st')" "s_ForkCandidateSince st' = s_ForkCandidateSince ?s"
    "s_ForkCandidate st' = s_ForkCandidate ?s"
    "s_Phase st' = s_Phase ?s" "s_Fork st' = s_Fork ?s" "s_DetectedAt st' = s_DetectedAt ?s" "s_TrustAnchor st' = s_TrustAnchor ?s"
    using loadForkCandidate_disk [OF assms(1,3), of ?s ?st ht] d assms(4) by (auto simp: NewState_def)
  obtain n where n: "GetMetaInt64 MetaSQBranchVerifiedAt 0 v = (v, Inr n)"
    using d assms(3,4) by (cases "?m MetaSQBranchVerifiedAt") (auto simp: meta_read disk_verdict_def parse_format)
  have load: "Load L v = ((if 0 < n then v\<lparr>seState := st', seChecks := (seChecks v)\<lparr>ckOnExpectedBranch := True,
      ckBranchVerifiedAt := n, ckBranchCheckedAt := n\<rparr>\<rparr> else v\<lparr>seState := st'\<rparr>), None)"
    using split anchor st'(1) n a d load_fork_row [OF assms(1), of u ?s]
    by (simp add: Load_def Let_def split_row_fields is_height_def)
  let ?v = "fst (Load L v)"
  have f: "seState ?v = st'" "faults ?v = []" "t_meta ?v = t_meta w" "t_split ?v = Some (split_row L u ?s)" "seCache ?v = seCache v"
    using load assms(3-5) u by simp_all
  have "split_row L u ?s = split_row L u st'" using st' by (simp add: split_row_def Let_def)
  with f have "\<exists>u. t_split ?v = Some (split_row L u (seState ?v))" by auto
  moreover have "disk_candidate L ?m ?s" using d by simp
  then have "disk_candidate L ?m st'" by (simp only: disk_candidate_def st'(2,3))
  moreover have "typed_state ht st'" using d st' by (simp add: typed_state_def)
  moreover have "clocked st'"
    using d st'(2,3) by (simp add: clocked_def)
  moreover have "disk_anchor ?m st'" using d st'(7) by (cases "?m MetaTrustAnchorHeight") (simp_all add: disk_anchor_def)
  ultimately have "on_disk L ht ?v" using d f st'(4) assms(6) unfolding on_disk_def by simp
  with load f st' show ?thesis by (auto simp: resumes_def)
qed

lemma fresh_on_disk:
  assumes "faults d = []" "t_meta d = []" "t_split d = Some (split_row L u NewState)"
  shows "on_disk L ht (NewSentinel cfg d)"
  using assms
  by (auto simp: on_disk_def NewSentinel_def disk_anchor_def disk_candidate_def disk_verdict_def typed_state_def clocked_def
      typed_cache_def NewHeaderCache_def NewState_def is_height_def is_i64_def)

text \<open>
  C5: a restart resumes where the last process stopped. On a fresh database, after a start and any number of ticks in which no call of the
  store fails, whatever the views answer as long as a hash always comes with the same possible height, a new process
  that loads the same store, with any configuration, finds no error and holds the phase, the separation and when it was seen,
  the trust anchor, and the candidate, hash and height, with the moment its clock was started.
\<close>

theorem sentinel_restart_resumes:
  assumes "hash_ok L" "faults d = []" "t_meta d = []" "t_split d = Some (split_row L u NewState)"
    and "list_all (\<lambda>(now, vs). sound_tick ht now vs) ts"
    and "w = foldl (sentinel_step L) (NewSentinel cfg d) (SLoad # map (\<lambda>(now, vs). STick now vs) ts)"
  shows "\<exists>w'. Load L (NewSentinel cfg' (state_db.truncate w)) = (w', None) \<and> resumes w w'"
proof -
  have c: "typed_cache ht (Some (seCache (NewSentinel cfg d)))" for cfg d
    by (simp add: NewSentinel_def typed_cache_def NewHeaderCache_def)
  note n = fresh_on_disk [OF assms(2-4), of ht cfg]
  then have "faults (NewSentinel cfg d) = []" by (simp add: on_disk_def)
  with Load_disk [OF assms(1) n _ refl refl c] have l: "on_disk L ht (fst (Load L (NewSentinel cfg d)))" by fastforce
  have "on_disk L ht x \<Longrightarrow> on_disk L ht (foldl (sentinel_step L) x (map (\<lambda>(now, vs). STick now vs) ts))" for x
    using assms(5) by (induction ts arbitrary: x) (auto simp: tick_on_disk)
  with l have w: "on_disk L ht w" by (simp add: assms(6))
  have "faults (NewSentinel cfg' (state_db.truncate w)) = []" "t_meta (NewSentinel cfg' (state_db.truncate w)) = t_meta w"
    "t_split (NewSentinel cfg' (state_db.truncate w)) = t_split w"
    using w by (simp_all add: on_disk_def NewSentinel_def state_db.defs)
  from Load_disk [OF assms(1) w this c] show ?thesis by blast
qed

lemma demo_lib_ok: "hash_ok demo_lib"
  using digits_all by (auto simp: hash_ok_def demo_lib_def itoa_def list_all_iff digits_value_digits)

definition fresh_db :: state_db where
  "fresh_db = demo_state_db\<lparr>t_split := Some (split_row demo_lib 5 NewState)\<rparr>"

text \<open>Two views whose tips differ and share their parent.\<close>

definition parted_view :: "hash \<Rightarrow> view" where
  "parted_view tip = (sample_view tip 0)\<lparr>vHeader := (\<lambda>h.
     if h = 99 then Inr \<lparr>Hash = 99, Height = 99, PrevHash = 98, Time = 800\<rparr> else Inl ErrNotFound)\<rparr>"

definition parted_views :: views where
  "parted_views = \<lparr>sfView = parted_view 100, sqView = parted_view 500\<rparr>"

definition parted_heights :: "hash \<Rightarrow> int" where
  "parted_heights h = (if h = 99 then 99 else 100)"

definition first_life :: sentinel where
  "first_life = foldl (sentinel_step demo_lib) (NewSentinel demo_scfg fresh_db)
     (SLoad # map (\<lambda>(now, vs). STick now vs) [(1000000000000, good_views), (1060000000000, parted_views)])"

theorem sentinel_restart_resumes_witness:
  "s_TrustAnchor (seState first_life) = 94 \<and> s_ForkCandidate (seState first_life) = Some \<lparr>Hash = 99, Height = 99\<rparr>
    \<and> (\<exists>w'. Load demo_lib (NewSentinel demo_scfg (state_db.truncate first_life)) = (w', None) \<and> resumes first_life w')"
proof (intro conjI)
  have v: "typed_view parted_heights (sample_view 100 n)" "typed_view parted_heights (parted_view 100)"
    "typed_view parted_heights (parted_view 500)" for n
    by (simp_all add: typed_view_def typed_fetch_def parted_view_def sample_view_def silent_view_def sample_tip_def placed_def
        is_height_def parted_heights_def)
  have t: "list_all (\<lambda>(now, vs). sound_tick parted_heights now vs) [(1000000000000, good_views), (1060000000000, parted_views)]"
    by (simp add: sound_tick_def unix_def nanos_per_sec_def is_i64_def parted_views_def good_views_def v)
  show "\<exists>w'. Load demo_lib (NewSentinel demo_scfg (state_db.truncate first_life)) = (w', None) \<and> resumes first_life w'"
    by (rule sentinel_restart_resumes [OF demo_lib_ok _ _ _ t first_life_def])
       (simp_all add: fresh_db_def demo_state_db_def db.defs empty_db_def)
  show "s_TrustAnchor (seState first_life) = 94" by code_simp
  show "s_ForkCandidate (seState first_life) = Some \<lparr>Hash = 99, Height = 99\<rparr>" by code_simp
qed

end
