(* ===== verification/Api_Auth.thy ===== *)
theory Api_Auth
  imports Api_Actions Alert_Policy Cadence
begin

text \<open>
  Who may ask: \<open>internal/api/auth.go\<close> and the wrapping of the handlers in \<open>internal/api/server.go\<close>. Times
  are nanoseconds. The comparison with the stored hash, the random token, the parsing of an
  address and what the JSON decoder made of a body are arguments; \<open>strings.EqualFold\<close> is taken on
  ASCII, where it is equality without regard to case. A zero time stands for no time.
\<close>

section \<open>Configuration and state\<close>

datatype auth_mode = AuthPassword | AuthPlatform | AuthNone | AuthOther string

record api_config =
  cfAuth :: auth_mode
  cfAllowedOrigins :: "string list"
  cfSessionTTL :: int

definition one_minute :: int where "one_minute = 60 * nanos_per_sec"
definition DefaultSessionTTL :: int where "DefaultSessionTTL = 7 * 24 * 60 * one_minute"
definition LoginAttemptsPerMinute :: nat where "LoginAttemptsPerMinute = 5"
definition LoginBackoffCap :: int where "LoginBackoffCap = 15 * one_minute"
definition LoginFailuresBeforeAlert :: int where "LoginFailuresBeforeAlert = 10"
definition KindLoginFailures :: string where "KindLoginFailures = ''login_failures''"

record authenticator =
  auCfg :: api_config
  auTTL :: int
  auSessions :: "(string \<times> int) list"
  auAttempts :: "int list"
  auFailures :: int
  auLockedUntil :: "int option"
  auAlertedAtRun :: int
  auRaised :: "candidate list"

definition newAuthenticator :: "api_config \<Rightarrow> authenticator" where
  "newAuthenticator cfg =
     \<lparr>auCfg = cfg, auTTL = (if cfSessionTTL cfg \<le> 0 then DefaultSessionTTL else cfSessionTTL cfg), auSessions = [],
      auAttempts = [], auFailures = 0, auLockedUntil = None, auAlertedAtRun = 0, auRaised = []\<rparr>"

section \<open>Where a request comes from\<close>

record request =
  rqMethod :: string
  rqOrigin :: string
  rqReferer :: string
  rqHost :: string
  rqCookie :: "string option"
  rqHTTPS :: bool

text \<open>An address: its scheme and its host, \<open>None\<close> when it does not parse.\<close>

type_synonym url_parser = "string \<Rightarrow> (string \<times> string) option"

definition isSafeMethod :: "string \<Rightarrow> bool" where
  "isSafeMethod m \<longleftrightarrow> m = ''GET'' \<or> m = ''HEAD'' \<or> m = ''OPTIONS''"

definition trim_slashes :: "string \<Rightarrow> string" where
  "trim_slashes s = rev (dropWhile (\<lambda>c. c = CHR ''/'') (rev s))"

definition equal_fold :: "string \<Rightarrow> string \<Rightarrow> bool" where
  "equal_fold a b \<longleftrightarrow> to_lower a = to_lower b"

text \<open>\<open>None\<close> is the early refusal of a referer that cannot be used.\<close>

definition stated_origin :: "url_parser \<Rightarrow> request \<Rightarrow> string option" where
  "stated_origin parse r =
     (if rqOrigin r \<noteq> '''' then Some (rqOrigin r)
      else if rqReferer r = '''' then Some ''''
      else
        (case parse (rqReferer r) of
           None \<Rightarrow> None
         | Some (scheme, host) \<Rightarrow> if host = '''' then None else Some (scheme @ ''://'' @ host)))"

definition originAllowed :: "api_config \<Rightarrow> url_parser \<Rightarrow> request \<Rightarrow> bool" where
  "originAllowed cfg parse r =
     (case stated_origin parse r of
        None \<Rightarrow> False
      | Some orig \<Rightarrow>
          if orig = '''' \<or> orig = ''null'' then False
          else if list_ex (\<lambda>allowed. equal_fold (trim_slashes allowed) orig) (cfAllowedOrigins cfg) then True
          else
            (case parse orig of
               None \<Rightarrow> False
             | Some (scheme, host) \<Rightarrow> if host = '''' then False else equal_fold host (rqHost r)))"

definition checkOrigin :: "api_config \<Rightarrow> url_parser \<Rightarrow> request \<Rightarrow> ('s \<Rightarrow> 's \<times> 'a reply) \<Rightarrow> 's \<Rightarrow> 's \<times> 'a reply" where
  "checkOrigin cfg parse r next_handler s =
     (if isSafeMethod (rqMethod r) then next_handler s
      else if \<not> originAllowed cfg parse r
      then (s, Refusal 403 CodeBadOrigin ''This request did not come from your Forktower dashboard, so it was refused.'')
      else next_handler s)"

section \<open>Sessions\<close>

definition session_delete :: "string \<Rightarrow> (string \<times> int) list \<Rightarrow> (string \<times> int) list" where
  "session_delete k xs = filter (\<lambda>(k', _). k' \<noteq> k) xs"

definition validSession :: "int \<Rightarrow> string option \<Rightarrow> authenticator \<Rightarrow> authenticator \<times> bool" where
  "validSession now cookie a =
     (case cookie of
        None \<Rightarrow> (a, False)
      | Some token \<Rightarrow>
          if token = '''' then (a, False)
          else
            (case map_of (auSessions a) token of
               None \<Rightarrow> (a, False)
             | Some expires \<Rightarrow>
                 if expires < now then (a\<lparr>auSessions := session_delete token (auSessions a)\<rparr>, False)
                 else (a\<lparr>auSessions := AList.update token (now + auTTL a) (auSessions a)\<rparr>, True)))"

definition unauthorized :: "'a reply" where
  "unauthorized = Refusal 401 CodeUnauthorized ''Please sign in to Forktower.''"

text \<open>The handler behind the check has the state of the server; the authenticator is kept beside it.\<close>

definition requireAuth ::
  "int \<Rightarrow> request \<Rightarrow> ('s \<Rightarrow> 's \<times> 'a reply) \<Rightarrow> authenticator \<times> 's \<Rightarrow> (authenticator \<times> 's) \<times> 'a reply" where
  "requireAuth now r next_handler as =
     (case as of (a, s) \<Rightarrow>
        (case cfAuth (auCfg a) of
           AuthNone \<Rightarrow> (case next_handler s of (s1, rep) \<Rightarrow> ((a, s1), rep))
         | AuthPlatform \<Rightarrow> (case next_handler s of (s1, rep) \<Rightarrow> ((a, s1), rep))
         | AuthPassword \<Rightarrow>
             (case validSession now (rqCookie r) a of
                (a1, ok) \<Rightarrow>
                  if \<not> ok then ((a1, s), unauthorized)
                  else (case next_handler s of (s1, rep) \<Rightarrow> ((a1, s1), rep)))
         | AuthOther _ \<Rightarrow> ((a, s), unauthorized)))"

definition guard ::
  "int \<Rightarrow> url_parser \<Rightarrow> request \<Rightarrow> ('s \<Rightarrow> 's \<times> 'a reply) \<Rightarrow> authenticator \<times> 's \<Rightarrow> (authenticator \<times> 's) \<times> 'a reply" where
  "guard now parse r h as = checkOrigin (auCfg (fst as)) parse r (requireAuth now r h) as"

definition pruneLocked :: "int \<Rightarrow> authenticator \<Rightarrow> authenticator" where
  "pruneLocked now a = a\<lparr>auSessions := filter (\<lambda>(_, expires). \<not> expires < now) (auSessions a)\<rparr>"

text \<open>The token is what the random source gave, \<open>None\<close> when it failed.\<close>

definition newSession :: "int \<Rightarrow> string option \<Rightarrow> string option \<Rightarrow> authenticator \<Rightarrow> authenticator \<times> string option" where
  "newSession now token cookie a =
     (case token of
        None \<Rightarrow> (a, None)
      | Some t \<Rightarrow>
          (let a1 = (case cookie of
                       Some c \<Rightarrow> if c \<noteq> '''' then a\<lparr>auSessions := session_delete c (auSessions a)\<rparr> else a
                     | None \<Rightarrow> a);
               a2 = pruneLocked now a1
           in (a2\<lparr>auSessions := AList.update t (now + auTTL a2) (auSessions a2), auFailures := 0\<rparr>, Some t)))"

definition invalidate :: "string \<Rightarrow> authenticator \<Rightarrow> authenticator" where
  "invalidate token a = a\<lparr>auSessions := session_delete token (auSessions a)\<rparr>"

record cookie =
  ckValue :: string
  ckExpires :: int
  ckSecure :: bool
  ckMaxAge :: int

definition make_cookie :: "request \<Rightarrow> string \<Rightarrow> int \<Rightarrow> cookie" where
  "make_cookie r v expires =
     \<lparr>ckValue = v, ckExpires = expires, ckSecure = rqHTTPS r, ckMaxAge = (if v = '''' then - 1 else 0)\<rparr>"

section \<open>Signing in\<close>

definition rateLimited :: "int \<Rightarrow> authenticator \<Rightarrow> authenticator \<times> int option" where
  "rateLimited now a =
     (case auLockedUntil a of
        Some u \<Rightarrow>
          if now < u then (a, Some (u - now))
          else
            (let kept = filter (\<lambda>t. now - one_minute < t) (auAttempts a)
             in if LoginAttemptsPerMinute \<le> length kept then (a\<lparr>auAttempts := kept\<rparr>, Some one_minute)
                else (a\<lparr>auAttempts := kept @ [now]\<rparr>, None))
      | None \<Rightarrow>
          (let kept = filter (\<lambda>t. now - one_minute < t) (auAttempts a)
           in if LoginAttemptsPerMinute \<le> length kept then (a\<lparr>auAttempts := kept\<rparr>, Some one_minute)
              else (a\<lparr>auAttempts := kept @ [now]\<rparr>, None)))"

definition login_backoff :: "int \<Rightarrow> int" where
  "login_backoff failures =
     min (2 ^ nat (min (failures - int LoginAttemptsPerMinute) 10) * nanos_per_sec) LoginBackoffCap"

definition login_candidate :: candidate where
  "login_candidate = news TierWarning KindLoginFailures KindLoginFailures ''''
     ''Someone has tried and failed to sign in to Forktower several times. If that was not you, make sure your dashboard is not reachable from the internet.''"

definition recordFailure :: "int \<Rightarrow> authenticator \<Rightarrow> authenticator" where
  "recordFailure now a =
     (let failures = auFailures a + 1;
          a1 = a\<lparr>auFailures := failures\<rparr>;
          a2 = (if int LoginAttemptsPerMinute < failures
                then a1\<lparr>auLockedUntil := Some (now + login_backoff failures)\<rparr> else a1);
          shouldAlert = (LoginFailuresBeforeAlert \<le> failures \<and> failures \<noteq> auAlertedAtRun a2)
      in if shouldAlert then a2\<lparr>auAlertedAtRun := failures, auRaised := auRaised a2 @ [login_candidate]\<rparr> else a2)"

text \<open>
  One request to sign in: the reply, the cookie that is set, and whether the password was compared. Each
  reads the clock once.
\<close>

definition handleLogin ::
  "(string \<Rightarrow> bool) \<Rightarrow> int \<Rightarrow> request \<Rightarrow> string option \<Rightarrow> string option \<Rightarrow> authenticator
    \<Rightarrow> authenticator \<times> unit reply \<times> cookie option" where
  "handleLogin matches now r body token a =
     (if cfAuth (auCfg a) \<noteq> AuthPassword
      then (a, Refusal 404 CodeNotFound ''This Forktower is not set up to use a password.'', None)
      else
        (case rateLimited now a of
           (a1, Some wait) \<Rightarrow>
             (a1, Refusal 429 CodeRateLimited ''Too many sign-in attempts. Please wait a moment and try again.'', None)
         | (a1, None) \<Rightarrow>
             (case body of
                None \<Rightarrow> (a1, bad_request ''That sign-in request was not readable.'', None)
              | Some password \<Rightarrow>
                  if \<not> matches password
                  then (recordFailure now a1, Refusal 401 CodeUnauthorized ''That password did not match.'', None)
                  else
                    (case newSession now token (rqCookie r) a1 of
                       (a2, None) \<Rightarrow> (a2, fail_reply, None)
                     | (a2, Some t) \<Rightarrow> (a2, Data (), Some (make_cookie r t (now + auTTL a2)))))))"

definition handleLogout :: "request \<Rightarrow> authenticator \<Rightarrow> authenticator \<times> unit reply \<times> cookie option" where
  "handleLogout r a =
     (let a1 = (case rqCookie r of Some c \<Rightarrow> if c \<noteq> '''' then invalidate c a else a | None \<Rightarrow> a)
      in (a1, NoContent, Some (make_cookie r '''' 0)))"

section \<open>How often a password is compared\<close>

datatype auth_input =
    ALogin request "string option" "string option"
  | ALogout request
  | ARequest request

definition auth_step :: "(string \<Rightarrow> bool) \<Rightarrow> authenticator \<Rightarrow> int \<times> auth_input \<Rightarrow> authenticator" where
  "auth_step matches a = (\<lambda>(now, i).
     case i of
       ALogin r body token \<Rightarrow> fst (handleLogin matches now r body token a)
     | ALogout r \<Rightarrow> fst (handleLogout r a)
     | ARequest r \<Rightarrow> fst (validSession now (rqCookie r) a))"

text \<open>A sign-in request that is let past the limits, whatever becomes of it.\<close>

definition let_past :: "authenticator \<Rightarrow> int \<times> auth_input \<Rightarrow> bool" where
  "let_past a = (\<lambda>(now, i).
     case i of ALogin _ _ _ \<Rightarrow> cfAuth (auCfg a) = AuthPassword \<and> snd (rateLimited now a) = None | _ \<Rightarrow> False)"

fun let_past_times :: "(string \<Rightarrow> bool) \<Rightarrow> authenticator \<Rightarrow> (int \<times> auth_input) list \<Rightarrow> int list" where
  "let_past_times matches a [] = []"
| "let_past_times matches a (i # is) =
     (if let_past a i then [fst i] else []) @ let_past_times matches (auth_step matches a i) is"

lemma other_attempts [simp]:
  "auAttempts (recordFailure now a) = auAttempts a"
  "auAttempts (fst (newSession now token c a)) = auAttempts a"
  "auAttempts (fst (handleLogout r a)) = auAttempts a"
  "auAttempts (fst (validSession now c a)) = auAttempts a"
  by (auto simp: recordFailure_def newSession_def handleLogout_def validSession_def invalidate_def pruneLocked_def Let_def
      split: option.split)

lemma login_attempts:
  "auAttempts (fst (handleLogin matches now r body token a)) =
     (if cfAuth (auCfg a) = AuthPassword then auAttempts (fst (rateLimited now a)) else auAttempts a)"
proof (cases "rateLimited now a")
  case (Pair a1 w)
  then show ?thesis
  proof (cases w)
    case None
    have "auAttempts (fst (case newSession now token (rqCookie r) a1 of (a2, None) \<Rightarrow> (a2, fail_reply, None)
       | (a2, Some t) \<Rightarrow> (a2, Data (), Some (make_cookie r t (now + auTTL a2))))) = auAttempts a1"
      using other_attempts(2) [of now token "rqCookie r" a1] by (cases "newSession now token (rqCookie r) a1") (simp split: option.split)
    with Pair None show ?thesis by (simp add: handleLogin_def split: option.split)
  qed (simp add: handleLogin_def)
qed

definition recent :: "int \<Rightarrow> int list \<Rightarrow> int list" where
  "recent now ts = filter (\<lambda>t. now - one_minute < t) ts"

lemma limited_attempts:
  "snd (rateLimited now a) = None \<Longrightarrow>
     auAttempts (fst (rateLimited now a)) = recent now (auAttempts a) @ [now] \<and> length (recent now (auAttempts a)) < LoginAttemptsPerMinute"
  "snd (rateLimited now a) \<noteq> None \<Longrightarrow>
     auAttempts (fst (rateLimited now a)) \<in> {auAttempts a, recent now (auAttempts a)}"
  by (auto simp: rateLimited_def recent_def Let_def split: option.splits if_splits)

text \<open>
  What is remembered covers what was let past within the last minute: \<open>ps\<close> are all the times so far, \<open>now\<close> is the
  latest clock.
\<close>

definition covers :: "int \<Rightarrow> int list \<Rightarrow> int list \<Rightarrow> bool" where
  "covers now ps ts \<longleftrightarrow> recent now ps = recent now ts \<and> list_all (\<lambda>t. t \<le> now) ps"

definition spread :: "int list \<Rightarrow> bool" where
  "spread ps \<longleftrightarrow> (\<forall>u. length (filter (\<lambda>t. u - one_minute < t \<and> t \<le> u) ps) \<le> LoginAttemptsPerMinute)"

lemma recent_later: "now \<le> u \<Longrightarrow> recent u (recent now ts) = recent u ts"
  by (induction ts) (auto simp: recent_def)

lemma covers_later: "covers now ps ts \<Longrightarrow> now \<le> u \<Longrightarrow> covers u ps ts"
  using recent_later [of now u ps] recent_later [of now u ts] by (auto simp: covers_def list_all_iff)

lemma covers_recent: "covers now ps ts \<Longrightarrow> covers now ps (recent now ts)"
  by (simp add: covers_def recent_def)

lemma spread_snoc:
  assumes "spread ps" "covers now ps ts" "length (recent now ts) < LoginAttemptsPerMinute"
  shows "spread (ps @ [now])" "covers now (ps @ [now]) (recent now ts @ [now])"
proof -
  show "covers now (ps @ [now]) (recent now ts @ [now])"
    using assms(2) recent_later [of now now ts] by (simp add: covers_def) (simp add: recent_def)
  show "spread (ps @ [now])" unfolding spread_def
  proof
    fix u
    show "length (filter (\<lambda>t. u - one_minute < t \<and> t \<le> u) (ps @ [now])) \<le> LoginAttemptsPerMinute"
    proof (cases "u - one_minute < now \<and> now \<le> u")
      case False
      with assms(1) show ?thesis by (auto simp: spread_def)
    next
      case True
      then have "length (filter (\<lambda>t. u - one_minute < t \<and> t \<le> u) ps) \<le> length (recent now ps)"
        unfolding recent_def by (induction ps) auto
      with True assms(2,3) show ?thesis by (simp add: covers_def)
    qed
  qed
qed

lemma auth_mode_kept [simp]: "auCfg (auth_step matches a i) = auCfg a"
  by (cases i; cases "snd i")
     (auto simp: auth_step_def handleLogin_def handleLogout_def validSession_def rateLimited_def recordFailure_def newSession_def
        invalidate_def pruneLocked_def Let_def split: option.split)

lemma step_attempts:
  assumes "spread ps" "covers now ps (auAttempts a)" "i = (now, inp)"
  shows "spread (ps @ (if let_past a i then [now] else []))
    \<and> covers now (ps @ (if let_past a i then [now] else [])) (auAttempts (auth_step matches a i))"
proof (cases inp)
  case (ALogin r body token)
  show ?thesis
  proof (cases "cfAuth (auCfg a) = AuthPassword")
    case True
    show ?thesis
    proof (cases "snd (rateLimited now a) = None")
      case t: True
      with ALogin True assms spread_snoc [OF assms(1,2)] limited_attempts(1) [OF t] show ?thesis
        by (simp add: let_past_def auth_step_def login_attempts)
    next
      case False
      with ALogin True assms limited_attempts(2) [OF False] covers_recent show ?thesis
        by (auto simp: let_past_def auth_step_def login_attempts)
    qed
  qed (use ALogin assms in \<open>simp add: let_past_def auth_step_def login_attempts\<close>)
qed (use assms in \<open>simp_all add: let_past_def auth_step_def\<close>)

text \<open>
  C37: a password is guessed at most five times a minute. Whatever requests follow one another on a clock that
  does not run backwards, however the sign-ins end, whoever sends them and whatever sessions are opened, closed or used
  in between, no minute holds more than five sign-in requests that are let as far as the password.
\<close>

theorem guesses_are_bounded:
  assumes "sorted (map fst is)"
  shows "length (filter (\<lambda>t. u - one_minute < t \<and> t \<le> u) (let_past_times matches (newAuthenticator cfg) is)) \<le> 5"
proof -
  have "spread (ps @ let_past_times matches a is)"
    if "spread ps" "covers now ps (auAttempts a)" "sorted (now # map fst is)" for ps now a
    using that assms
  proof (induction "is" arbitrary: ps now a)
    case (Cons i "is")
    obtain t inp where i: "i = (t, inp)" by (cases i)
    with Cons.prems have "now \<le> t" by simp
    from step_attempts [OF Cons.prems(1) covers_later [OF Cons.prems(2) this] i]
      Cons.IH [of "ps @ (if let_past a i then [t] else [])" t "auth_step matches a i"] Cons.prems i
    show ?case by (cases "let_past a (t, inp)") simp_all
  qed simp
  from this [of "[]" "if is = [] then 0 else fst (hd is)" "newAuthenticator cfg"] assms
  have "spread (let_past_times matches (newAuthenticator cfg) is)"
    by (cases "is") (auto simp: spread_def covers_def recent_def newAuthenticator_def)
  then show ?thesis by (simp add: spread_def LoginAttemptsPerMinute_def)
qed

section \<open>What opens a session\<close>

definition session_keys :: "authenticator \<Rightarrow> string set" where
  "session_keys a = fst ` set (auSessions a)"

lemma delete_keys: "fst ` set (session_delete k xs) = fst ` set xs - {k}"
  by (auto simp: session_delete_def image_iff)

lemma request_keys: "session_keys (fst (validSession now c a)) \<subseteq> session_keys a"
proof -
  have "map_of xs k = Some v \<Longrightarrow> fst ` set (AList.update k v' xs) = fst ` set xs" for xs :: "(string \<times> int) list" and k v v'
    using dom_update [of k v' xs] by (force simp: dom_map_of_conv_image_fst dest: map_of_SomeD)
  then show ?thesis
    by (auto simp: session_keys_def validSession_def delete_keys split: option.splits)
qed

lemma login_keys:
  assumes "k \<in> session_keys (fst (handleLogin matches now r body token a))"
  shows "k \<in> session_keys a \<or> (\<exists>p. body = Some p \<and> matches p \<and> token = Some k)"
proof -
  have l: "session_keys (fst (rateLimited now b)) = session_keys b" "session_keys (recordFailure now b) = session_keys b" for b
    by (auto simp: session_keys_def rateLimited_def recordFailure_def Let_def split: option.split)
  have n: "session_keys (fst (newSession now token c b)) \<subseteq> session_keys b \<union> set_option token" for c b
  proof -
    have "fst ` set (filter q xs) \<subseteq> fst ` set xs" for q and xs :: "(string \<times> int) list" by auto
    moreover have "fst ` set (AList.update t v xs) = insert t (fst ` set xs)" for t v and xs :: "(string \<times> int) list"
      using dom_update [of t v xs] by (simp add: dom_map_of_conv_image_fst)
    ultimately show ?thesis
      by (cases token) (auto simp: session_keys_def newSession_def pruneLocked_def Let_def session_delete_def split: option.split)
  qed
  show ?thesis
  proof (cases "cfAuth (auCfg a) = AuthPassword \<and> snd (rateLimited now a) = None \<and> (\<exists>p. body = Some p \<and> matches p)")
    case True
    then obtain p where p: "body = Some p" "matches p" by blast
    obtain a2 t where t: "newSession now token (rqCookie r) (fst (rateLimited now a)) = (a2, t)" by fastforce
    from True p t have "fst (handleLogin matches now r body token a) = a2"
      by (cases "rateLimited now a"; cases t) (simp_all add: handleLogin_def)
    with assms n [of "rqCookie r" "fst (rateLimited now a)"] t l(1) [of a] p show ?thesis by auto
  next
    case False
    obtain a1 w where rl: "rateLimited now a = (a1, w)" by fastforce
    have "session_keys a1 = session_keys a" using l(1) [of a] rl by simp
    with False rl have "session_keys (fst (handleLogin matches now r body token a)) = session_keys a"
      using l(2) [of a1] by (cases w; cases body) (auto simp: handleLogin_def)
    with assms show ?thesis by simp
  qed
qed

lemma logout_keys:
  "session_keys (fst (handleLogout r a)) \<subseteq> session_keys a - (set_option (rqCookie r) - {''''})"
  by (auto simp: handleLogout_def session_keys_def invalidate_def delete_keys split: option.split)

lemma auth_step_simps:
  "auth_step matches a (now, ALogin r body token) = fst (handleLogin matches now r body token a)"
  "auth_step matches a (now, ALogout r) = fst (handleLogout r a)"
  "auth_step matches a (now, ARequest r) = fst (validSession now (rqCookie r) a)"
  by (simp_all add: auth_step_def)

definition opened_by :: "(string \<Rightarrow> bool) \<Rightarrow> string \<Rightarrow> (int \<times> auth_input) list \<Rightarrow> bool" where
  "opened_by matches token is \<longleftrightarrow>
     (\<exists>xs ys now r p. is = xs @ (now, ALogin r (Some p) (Some token)) # ys \<and> matches p
        \<and> list_all (\<lambda>(_, i). case i of ALogout r \<Rightarrow> rqCookie r \<noteq> Some token | _ \<Rightarrow> True) ys)"

lemma opened_snoc:
  assumes "opened_by matches token is" "case snd i of ALogout r \<Rightarrow> rqCookie r \<noteq> Some token | _ \<Rightarrow> True"
  shows "opened_by matches token (is @ [i])"
proof -
  from assms(1) obtain xs ys now r p where o: "is = xs @ (now, ALogin r (Some p) (Some token)) # ys" "matches p"
    "list_all (\<lambda>(_, i). case i of ALogout r \<Rightarrow> rqCookie r \<noteq> Some token | _ \<Rightarrow> True) ys"
    unfolding opened_by_def by blast
  from o assms(2) show ?thesis unfolding opened_by_def
    by (intro exI [of _ xs] exI [of _ "ys @ [i]"] exI [of _ now] exI [of _ r] exI [of _ p]) (auto simp: case_prod_beta)
qed

lemma keys_opened:
  "token \<in> session_keys (foldl (auth_step matches) (newAuthenticator cfg) is) \<Longrightarrow> token \<noteq> '''' \<Longrightarrow> opened_by matches token is"
proof (induction "is" rule: rev_induct)
  case (snoc i "is")
  let ?a = "foldl (auth_step matches) (newAuthenticator cfg) is"
  obtain now inp where i: "i = (now, inp)" by (cases i)
  show ?case
  proof (cases inp)
    case (ALogin r body t)
    from snoc.prems(1) i ALogin have "token \<in> session_keys (fst (handleLogin matches now r body t ?a))" by (simp add: auth_step_simps)
    from login_keys [OF this] show ?thesis
    proof
      assume "token \<in> session_keys ?a"
      with snoc.IH snoc.prems(2) opened_snoc [of matches token "is" i] show ?thesis by (simp add: i ALogin)
    next
      assume "\<exists>p. body = Some p \<and> matches p \<and> t = Some token"
      then show ?thesis unfolding opened_by_def i ALogin by fastforce
    qed
  next
    case (ALogout r)
    with snoc.prems i logout_keys [of r ?a] have "token \<in> session_keys ?a" "rqCookie r \<noteq> Some token"
      by (auto simp: auth_step_simps)
    with snoc.IH snoc.prems(2) opened_snoc [of matches token "is" i] show ?thesis by (simp add: i ALogout)
  next
    case (ARequest r)
    with snoc.prems(1) i request_keys [of now "rqCookie r" ?a] have "token \<in> session_keys ?a" by (auto simp: auth_step_simps)
    with snoc.IH snoc.prems(2) opened_snoc [of matches token "is" i] show ?thesis by (simp add: i ARequest)
  qed
qed (simp add: session_keys_def newAuthenticator_def)

text \<open>
  C36: only a password opens the dashboard that asks for one. Whatever was sent before, a request that reaches a guarded
  handler carries a cookie that an earlier sign-in with the right password was given and that
  nobody has signed out with since; a request that is refused changes nothing behind the guard, and one from
  another page that could change something is refused whoever sends it.
\<close>

theorem guard_needs_password:
  assumes "a = foldl (auth_step matches) (newAuthenticator cfg) is" "cfAuth cfg = AuthPassword"
    and "guard now parse r handler (a, s) = ((a', s'), rep)"
  shows "s' = s \<and> (rep = unauthorized \<or> replyCode rep = CodeBadOrigin \<and> \<not> isSafeMethod (rqMethod r) \<and> \<not> originAllowed cfg parse r)
    \<or> (s', rep) = handler s \<and> (isSafeMethod (rqMethod r) \<or> originAllowed cfg parse r)
      \<and> (\<exists>token. rqCookie r = Some token \<and> opened_by matches token is)"
proof -
  have mode: "auCfg a = cfg"
    unfolding assms(1) by (induction "is" rule: rev_induct) (simp_all add: newAuthenticator_def)
  show ?thesis
  proof (cases "isSafeMethod (rqMethod r) \<or> originAllowed cfg parse r")
    case False
    with assms(3) mode show ?thesis by (auto simp: guard_def checkOrigin_def)
  next
    case True
    then have g: "requireAuth now r handler (a, s) = ((a', s'), rep)" using assms(3) mode by (auto simp: guard_def checkOrigin_def split: if_splits)
    obtain a1 ok where v: "validSession now (rqCookie r) a = (a1, ok)" by fastforce
    show ?thesis
    proof (cases ok)
      case False
      with g v mode assms(2) show ?thesis by (simp add: requireAuth_def)
    next
      case ok: True
      then obtain token e where t: "rqCookie r = Some token" "token \<noteq> ''''" "map_of (auSessions a) token = Some e"
        using v by (auto simp: validSession_def split: option.splits if_splits)
      then have "token \<in> session_keys a" by (force simp: session_keys_def dest: map_of_SomeD)
      with t(2) have "opened_by matches token is" using keys_opened assms(1) by blast
      moreover have "(s', rep) = handler s" using g v ok mode assms(2) by (auto simp: requireAuth_def split: prod.splits)
      ultimately show ?thesis using True t(1) by blast
    qed
  qed
qed

definition demo_api :: api_config where
  "demo_api = \<lparr>cfAuth = AuthPassword, cfAllowedOrigins = [], cfSessionTTL = 0\<rparr>"

definition demo_request :: request where
  "demo_request = \<lparr>rqMethod = ''GET'', rqOrigin = '''', rqReferer = '''', rqHost = ''fort'', rqCookie = Some ''tok'', rqHTTPS = False\<rparr>"

definition demo_guesses :: "(int \<times> auth_input) list" where
  "demo_guesses = map (\<lambda>t. (t, ALogin demo_request (Some ''guess'') None)) [1, 2, 3, 4, 5, 6, 7]"

theorem guesses_are_bounded_witness:
  "length (let_past_times (\<lambda>p. p = ''pw'') (newAuthenticator demo_api) demo_guesses) = 5
    \<and> length (filter (\<lambda>t. 7 - one_minute < t \<and> t \<le> 7) (let_past_times (\<lambda>p. p = ''pw'') (newAuthenticator demo_api) demo_guesses)) \<le> 5"
proof
  show "length (let_past_times (\<lambda>p. p = ''pw'') (newAuthenticator demo_api) demo_guesses) = 5" by code_simp
  show "length (filter (\<lambda>t. 7 - one_minute < t \<and> t \<le> 7) (let_past_times (\<lambda>p. p = ''pw'') (newAuthenticator demo_api) demo_guesses)) \<le> 5"
    by (rule guesses_are_bounded) (simp add: demo_guesses_def)
qed

theorem guard_needs_password_witness:
  "opened_by (\<lambda>p. p = ''pw'') ''tok'' [(1, ALogin (demo_request\<lparr>rqCookie := None\<rparr>) (Some ''pw'') (Some ''tok''))]"
proof -
  let ?is = "[(1, ALogin (demo_request\<lparr>rqCookie := None\<rparr>) (Some ''pw'') (Some ''tok''))]"
  let ?a = "foldl (auth_step (\<lambda>p. p = ''pw'')) (newAuthenticator demo_api) ?is"
  let ?g = "guard 2 (\<lambda>_. None) demo_request (\<lambda>s. (s + 1, Data ())) (?a, 7 :: int)"
  obtain a' s' rep where g: "?g = ((a', s'), rep)" by (metis prod.exhaust)
  have "snd (fst ?g) = 8 \<and> snd ?g = (Data () :: unit reply)" by code_simp
  with g have r: "s' = 8" "rep = Data ()" by simp_all
  have "cfAuth demo_api = AuthPassword" by (simp add: demo_api_def)
  from guard_needs_password [OF refl this g] r show ?thesis by (auto simp: demo_request_def)
qed

end
