(* ===== verification/Api_Headline.thy ===== *)
theory Api_Headline
  imports Api_Actions Sentinel Deadline_Compute
begin

text \<open>
  What the user is told first: \<open>internal/api/headline.go\<close>, the parts of \<open>internal/api/readiness.go\<close> and
  \<open>internal/api/status.go\<close> that decide what goes into it, and how \<open>internal/api/deadlines.go\<close> describes a
  countdown. The readiness items themselves are arguments.
\<close>

section \<open>Vocabulary\<close>

datatype headline_state = StateGettingReady | StateProtected | StateAttention | StateActionNeeded | StateAtRisk

definition anchorSetup :: string where "anchorSetup = ''#setup''"
definition anchorSetupGuide :: string where "anchorSetupGuide = ''#setup-guide''"
definition anchorExposure :: string where "anchorExposure = ''#exposure''"
definition titleAttention :: string where
  "titleAttention = ''Something needs a look '' @ emdash @ '' not urgent.''"

record action =
  acLabel :: string
  acEndpoint :: string
  acHref :: string

definition link :: "string \<Rightarrow> string \<Rightarrow> action" where
  "link label href = \<lparr>acLabel = label, acEndpoint = '''', acHref = href\<rparr>"

definition actionFixSetup :: action where "actionFixSetup = link ''Fix the setup'' anchorSetup"
definition actionSetUpAlerts :: action where "actionSetUpAlerts = link ''Set up notifications'' anchorSetupGuide"

record readiness_item =
  riID :: string
  riOK :: bool
  riLabel :: string
  riWhy :: string
  riDetail :: string
  riAction :: "action option"
  riInformational :: bool
  riSettling :: bool

definition CheckAlertTransports :: string where "CheckAlertTransports = ''alert_transports''"

definition blockingFailures :: "readiness_item list \<Rightarrow> readiness_item list" where
  "blockingFailures items = filter (\<lambda>i. \<not> riOK i \<and> \<not> riInformational i) items"

definition alertsReachable :: "readiness_item list \<Rightarrow> bool" where
  "alertsReachable items =
     (case find (\<lambda>i. riID i = CheckAlertTransports) items of None \<Rightarrow> True | Some i \<Rightarrow> riOK i \<or> riInformational i)"

record headline =
  hlState :: headline_state
  hlTitle :: string
  hlDetail :: string
  hlAction :: "action option"
  hlSince :: int

record headline_input =
  hiPhase :: split_state
  hiDetectedAt :: int
  hiSFHealth :: health
  hiSQHealth :: health
  hiPaused :: bool
  hiPausedSince :: int
  hiAlertsReachable :: bool
  hiFailingChecks :: "readiness_item list"
  hiDiverging :: bool
  hiSplitSuspected :: bool
  hiDivergingSince :: int
  hiExposedSince :: "int option"

section \<open>The mapping\<close>

definition headlineDetail :: "readiness_item \<Rightarrow> string" where
  "headlineDetail i = (if riWhy i \<noteq> '''' then riWhy i else riLabel i)"

definition splitting :: "split_state \<Rightarrow> bool" where
  "splitting p \<longleftrightarrow> p = StateSplit \<or> p = StateResolving"

definition degraded_view :: "health \<Rightarrow> bool" where
  "degraded_view h \<longleftrightarrow> h \<noteq> HealthOK"

definition say :: "headline_state \<Rightarrow> string \<Rightarrow> string \<Rightarrow> action option \<Rightarrow> int \<Rightarrow> headline" where
  "say st title detail act since = \<lparr>hlState = st, hlTitle = title, hlDetail = detail, hlAction = act, hlSince = since\<rparr>"

definition do_something :: string where "do_something = ''You need to do something now.''"

definition ComputeHeadline :: "headline_input \<Rightarrow> headline" where
  "ComputeHeadline i =
     (case hiExposedSince i of
        Some since \<Rightarrow>
          say StateAtRisk ''Money is at risk right now.''
            ''A channel is being closed unfairly and there is a limited time to respond.''
            (Some (link ''See what is happening'' anchorExposure)) since
      | None \<Rightarrow>
          if hiPaused i then
            say StateActionNeeded do_something
              ''Forktower stopped watching because it is not looking at the chain it should be.''
              (Some actionFixSetup) (hiPausedSince i)
          else if \<not> hiAlertsReachable i then
            say StateActionNeeded do_something
              (if splitting (hiPhase i)
               then ''The chains have separated '' @ emdash @ '' and Forktower has no way to reach you, so you would only find out by looking at this page.''
               else ''Forktower has no way to reach you, so you would only find out something was wrong by looking at this page.'')
              (Some actionSetUpAlerts) (hiDetectedAt i)
          else if hiSplitSuspected i then
            say StateAttention ''This may be a chain split.''
              ''Your node and the rest of the network are following different blocks, and have not reconciled. Forktower is watching both chains and will confirm shortly. Nothing for you to do yet.''
              None (hiDivergingSince i)
          else if hiPhase i = StateUnarmed then
            say StateGettingReady (''Getting set up '' @ emdash @ '' nothing to do yet.'')
              ''Forktower is connecting to both chains. Nothing needs your attention while it does.'' None 0
          else if hiPhase i = StateSplit then
            say StateAttention titleAttention
              ''The chains have separated: your node and the rest of the network no longer agree. Forktower is watching both.''
              None (hiDetectedAt i)
          else if hiPhase i = StateResolving then
            say StateAttention titleAttention
              (''The split may be ending '' @ emdash @ '' one of the chains has stopped producing blocks. Forktower is still watching both.'')
              None (hiDetectedAt i)
          else if hiFailingChecks i \<noteq> [] then
            say StateAttention titleAttention (headlineDetail (hd (hiFailingChecks i))) (riAction (hd (hiFailingChecks i))) 0
          else if degraded_view (hiSFHealth i) \<or> degraded_view (hiSQHealth i) then
            say StateAttention titleAttention
              ''Forktower is having trouble seeing one of the chains. It is still watching, and will keep trying.'' None 0
          else if hiPhase i = StateResolvedSFWon \<or> hiPhase i = StateResolvedSQWon then
            say StateProtected ''Watching. The split has ended.''
              ''The chains agree again. Forktower is still watching, just in case.'' None (hiDetectedAt i)
          else if hiDiverging i then
            say StateProtected ''Watching. Your channels look fine.''
              (''Your node and the rest of the network are on different blocks just now. That usually settles by itself within minutes ''
                 @ emdash @ '' Forktower is watching both and will say so plainly if it does not.'')
              None (hiDivergingSince i)
          else
            say StateProtected ''Watching. Your channels look fine.''
              ''Your node and the rest of the network are on the same chain.'' None 0)"

definition firstOf :: "int \<Rightarrow> int \<Rightarrow> int" where
  "firstOf a b = (if a = 0 then b else if b = 0 then a else if b < a then b else a)"

text \<open>The headline of a status request: what the sentinel holds, and the readiness list.\<close>

definition status_headline :: "sstate \<Rightarrow> checks \<Rightarrow> bool \<Rightarrow> readiness_item list \<Rightarrow> headline" where
  "status_headline s ck paused items = ComputeHeadline
     \<lparr>hiPhase = state_of (s_Phase s), hiDetectedAt = s_DetectedAt s, hiSFHealth = s_SFHealth s, hiSQHealth = s_SQHealth s,
      hiPaused = paused, hiPausedSince = ckBranchCheckedAt ck, hiAlertsReachable = alertsReachable items,
      hiFailingChecks = blockingFailures items,
      hiDiverging = (s_Fork s = None \<and> (s_ForkCandidate s \<noteq> None \<or> s_Disagreement s \<noteq> None)),
      hiSplitSuspected = (s_Fork s = None \<and> s_SplitSuspected s),
      hiDivergingSince = firstOf (s_ForkCandidateSince s) (s_DisagreementSince s), hiExposedSince = None\<rparr>"

section \<open>A countdown in words\<close>

definition deadlineWhat :: "deadline_kind \<Rightarrow> string" where
  "deadlineWhat k =
     (case k of
        DeadlineHTLCIncoming \<Rightarrow> ''How long you have to claim a payment that was coming to you''
      | DeadlineHTLCOutgoing \<Rightarrow> ''How long before a payment you sent times out''
      | _ \<Rightarrow> ''How long you have to respond to a channel close on the other chain'')"

record deadline_display =
  ddWhat :: string
  ddTimeLeft :: string
  ddEstimate :: bool
  ddNote :: string

definition deadlineAssumedNote :: string where
  "deadlineAssumedNote = ''Your Lightning node did not say how long this window is, so Forktower is counting from a cautious floor. The real window may be longer.''"

definition describeDeadline :: "deadline \<Rightarrow> int \<Rightarrow> f64 \<Rightarrow> deadline_display" where
  "describeDeadline d remaining cadenceSecs =
     (let out = \<lparr>ddWhat = deadlineWhat (dlKind d), ddTimeLeft = '''', ddEstimate = False,
                 ddNote = (if dlAssumed d then deadlineAssumedNote else '''')\<rparr>
      in if dlState d \<noteq> DeadlineCounting then out
         else
           (case Project remaining cadenceSecs of
              (projected, ok) \<Rightarrow> if ok then out\<lparr>ddTimeLeft := HumanDuration projected, ddEstimate := True\<rparr> else out))"

definition otherChainProgress :: "sstate \<Rightarrow> int \<times> f64" where
  "otherChainProgress s =
     (case s_SQTip s of Some t \<Rightarrow> Height t | None \<Rightarrow> 0,
      if Measured (s_SQCadence s) then Fin (IntervalSecs (s_SQCadence s)) else Fin 0)"

text \<open>The empty query is the empty state, which stands for the running ones.\<close>

definition handleDeadlines ::
  "deadline_state \<Rightarrow> sstate \<Rightarrow> 'x db_scheme \<Rightarrow> 'x db_scheme \<times> (deadline \<times> int \<times> deadline_display) list reply" where
  "handleDeadlines query s d =
     (let state = (if query = DeadlineStateOther '''' then DeadlineCounting else query)
      in if \<not> DeadlineState_Valid state
         then (d, bad_request (''state must be one of '' @ [quote_mark] @ ''counting'' @ [quote_mark] @ '', '' @ [quote_mark]
                @ ''resolved'' @ [quote_mark] @ '' or '' @ [quote_mark] @ ''expired'' @ [quote_mark]))
         else
           (case ListDeadlines state d of
              (d1, Inl _) \<Rightarrow> (d1, fail_reply)
            | (d1, Inr rows) \<Rightarrow>
                (case otherChainProgress s of
                   (tip, cadence) \<Rightarrow>
                     (d1, Data (map (\<lambda>r. (let remaining = Remaining (dlHeight r) tip
                                          in (r, remaining, describeDeadline r remaining cadence))) rows)))))"

section \<open>What the headline means\<close>

text \<open>
  The calm line is earned. The user is told that all is well exactly when no exposed deadline is handed in, watching is
  not paused, notifications can reach them, no split is suspected or under way, the start is over,
  nothing that blocks has failed and both views are healthy; and the line that
  says both are on one chain is never shown while the chains are holding different blocks.
\<close>

theorem calm_is_earned:
  "(hlState (ComputeHeadline i) = StateProtected \<longleftrightarrow>
      hiExposedSince i = None \<and> \<not> hiPaused i \<and> hiAlertsReachable i \<and> \<not> hiSplitSuspected i
      \<and> hiPhase i \<notin> {StateUnarmed, StateSplit, StateResolving} \<and> hiFailingChecks i = []
      \<and> hiSFHealth i = HealthOK \<and> hiSQHealth i = HealthOK)
   \<and> \<not> (hiDiverging i \<and> hlDetail (ComputeHeadline i) = ''Your node and the rest of the network are on the same chain.''
        \<and> hlState (ComputeHeadline i) = StateProtected)"
  by (cases "hiExposedSince i") (simp_all add: ComputeHeadline_def say_def degraded_view_def)

text \<open>
  The dashboard never says that money is at risk. Whatever the sentinel holds and whatever the readiness checks
  found, the headline of a status request is never the most urgent one, because the request hands in no exposed
  deadline, however many countdowns are running.
\<close>

lemma risk_is_never_said:
  "hlState (status_headline s ck paused items) \<noteq> StateAtRisk"
  by (simp add: status_headline_def ComputeHeadline_def say_def)

end
