(* ===== verification/Net_Addr.thy ===== *)
theory Net_Addr
  imports Go_Base
begin

text \<open>
  What the watchtower responder uses of Go's packages \<open>net\<close>, \<open>strings\<close> and \<open>strconv\<close>: taking an
  address apart and putting it together, telling a number from a name, cutting a string, and
  reading a decimal integer. The first three follow \<open>net.SplitHostPort\<close>, \<open>net.JoinHostPort\<close> and
  \<open>net.ParseIP\<close>; of the last only whether it accepts is kept.
\<close>

section \<open>Cutting strings\<close>

text \<open>\<open>strings.Cut\<close> at one character: what is before and after its first occurrence.\<close>

fun cut_at :: "char \<Rightarrow> string \<Rightarrow> (string \<times> string) option" where
  "cut_at c [] = None"
| "cut_at c (x # xs) = (if x = c then Some ([], xs) else map_option (\<lambda>(a, b). (x # a, b)) (cut_at c xs))"

text \<open>The same at the last occurrence, which is how \<open>LastIndex\<close> is used.\<close>

definition cut_last :: "char \<Rightarrow> string \<Rightarrow> (string \<times> string) option" where
  "cut_last c s = map_option (\<lambda>(a, b). (rev b, rev a)) (cut_at c (rev s))"

definition has_suffix :: "string \<Rightarrow> string \<Rightarrow> bool" where
  "has_suffix s t \<longleftrightarrow> length t \<le> length s \<and> drop (length s - length t) s = t"

lemma cut_at_None [simp]: "cut_at c s = None \<longleftrightarrow> c \<notin> set s"
  by (induction s) (auto split: option.splits)

lemma cut_at_Some: "cut_at c s = Some (a, b) \<longleftrightarrow> s = a @ c # b \<and> c \<notin> set a"
proof (induction s arbitrary: a)
  case (Cons x xs)
  show ?case
  proof (cases "x = c")
    case True
    then show ?thesis by (cases a) auto
  next
    case False
    then show ?thesis using Cons.IH by (cases a) auto
  qed
qed simp

lemma cut_last_None [simp]: "cut_last c s = None \<longleftrightarrow> c \<notin> set s"
  by (simp add: cut_last_def)

lemma cut_last_Some: "cut_last c s = Some (a, b) \<longleftrightarrow> s = a @ c # b \<and> c \<notin> set b"
proof -
  have "cut_last c s = Some (a, b) \<longleftrightarrow> cut_at c (rev s) = Some (rev b, rev a)"
    by (auto simp: cut_last_def)
  also have "\<dots> \<longleftrightarrow> rev s = rev b @ c # rev a \<and> c \<notin> set b"
    by (simp add: cut_at_Some)
  also have "\<dots> \<longleftrightarrow> s = a @ c # b \<and> c \<notin> set b"
    by (metis append.assoc append_Cons append_Nil rev.simps(2) rev_append rev_rev_ident)
  finally show ?thesis .
qed

section \<open>Reading an integer\<close>

text \<open>\<open>strconv.ParseInt\<close> in base ten and at 64 bits.\<close>

definition parse_int64 :: "string \<Rightarrow> int option" where
  "parse_int64 s =
     (let (neg, ds) = (case s of c # cs \<Rightarrow> if c = CHR ''-'' then (True, cs) else if c = CHR ''+'' then (False, cs) else (False, s)
                        | [] \<Rightarrow> (False, []));
          n = int (digits_value ds)
      in if ds = [] \<or> \<not> list_all is_digit ds then None
         else if neg then (if n \<le> 2 ^ 63 then Some (- n) else None)
         else if n < 2 ^ 63 then Some n else None)"

lemma parse_int64_itoa: "is_i64 i \<Longrightarrow> parse_int64 (itoa i) = Some i"
proof -
  assume i: "is_i64 i"
  have hd: "\<exists>c cs. digits n = c # cs \<and> is_digit c" for n
    using digits_all [of n] digits_nonempty [of n] by (cases "digits n") auto
  have nd: "\<not> is_digit (CHR ''-'')" "\<not> is_digit (CHR ''+'')" by (simp_all add: is_digit_def)
  have all: "list_all is_digit (digits n)" for n using digits_all by (simp add: list_all_iff)
  show ?thesis
  proof (cases "i < 0")
    case True
    with i all show ?thesis by (simp add: parse_int64_def itoa_def is_i64_def)
  next
    case False
    obtain c cs where c: "digits (nat i) = c # cs" "is_digit c" using hd by blast
    then have "c \<noteq> CHR ''-''" "c \<noteq> CHR ''+''" using nd by auto
    moreover have "digits_value (c # cs) = nat i" by (simp flip: c(1))
    moreover have "list_all is_digit (c # cs)" using all [of "nat i"] by (simp add: c(1))
    ultimately show ?thesis
      using False i c(1) by (simp add: parse_int64_def itoa_def is_i64_def)
  qed
qed

section \<open>Host and port\<close>

definition SplitHostPort :: "string \<Rightarrow> (string \<times> string) option" where
  "SplitHostPort hostport =
     (case cut_last CHR '':'' hostport of
        None \<Rightarrow> None
      | Some (before, port) \<Rightarrow>
          if hd hostport = CHR ''['' then
            (case cut_at CHR '']'' hostport of
               None \<Rightarrow> None
             | Some (inside, behind) \<Rightarrow>
                 if behind = CHR '':'' # port then
                   (if CHR ''['' \<in> set (drop 1 hostport) \<or> CHR '']'' \<in> set behind then None else Some (drop 1 inside, port))
                 else None)
          else if CHR '':'' \<in> set before then None
          else if CHR ''['' \<in> set hostport \<or> CHR '']'' \<in> set hostport then None
          else Some (before, port))"

definition JoinHostPort :: "string \<Rightarrow> string \<Rightarrow> string" where
  "JoinHostPort host port =
     (if CHR '':'' \<in> set host then ''['' @ host @ '']:'' @ port else host @ '':'' @ port)"

lemma SplitHostPort_join:
  assumes "set host \<inter> {CHR ''['', CHR '']''} = {}" "set port \<inter> {CHR '':'', CHR ''['', CHR '']''} = {}"
  shows "SplitHostPort (JoinHostPort host port) = Some (host, port)"
proof (cases "CHR '':'' \<in> set host")
  case True
  let ?s = "CHR ''['' # host @ CHR '']'' # CHR '':'' # port"
  have "cut_last CHR '':'' ?s = Some (CHR ''['' # host @ [CHR '']''], port)"
    using assms by (auto simp: cut_last_Some)
  moreover have "cut_at CHR '']'' ?s = Some (CHR ''['' # host, CHR '':'' # port)"
    using assms by (auto simp: cut_at_Some)
  ultimately show ?thesis
    using True assms by (auto simp: SplitHostPort_def JoinHostPort_def)
next
  case False
  let ?s = "host @ CHR '':'' # port"
  have "cut_last CHR '':'' ?s = Some (host, port)" using assms by (auto simp: cut_last_Some)
  moreover have "hd ?s \<noteq> CHR ''[''" using assms by (cases host) auto
  ultimately show ?thesis
    using False assms by (auto simp: SplitHostPort_def JoinHostPort_def)
qed

section \<open>Numbers and names\<close>

text \<open>Four decimal fields, none above 255 and none with a leading zero.\<close>

fun split_on :: "char \<Rightarrow> string \<Rightarrow> string list" where
  "split_on d [] = ['''']"
| "split_on d (c # cs) =
     (if c = d then [] # split_on d cs
      else (case split_on d cs of [] \<Rightarrow> [[c]] | p # ps \<Rightarrow> (c # p) # ps))"

definition octet :: "string \<Rightarrow> bool" where
  "octet f \<longleftrightarrow> f \<noteq> '''' \<and> list_all is_digit f \<and> digits_value f \<le> 255 \<and> (hd f = CHR ''0'' \<longrightarrow> length f = 1)"

definition parseIPv4 :: "string \<Rightarrow> bool" where
  "parseIPv4 s \<longleftrightarrow> (let fs = split_on CHR ''.'' s in length fs = 4 \<and> list_all octet fs)"

definition is_hex :: "char \<Rightarrow> bool" where
  "is_hex c \<longleftrightarrow> is_digit c \<or> c \<in> set ''abcdefABCDEF''"

text \<open>
  The groups of an IPv6 address from the one after \<open>n\<close> left to fill; \<open>e\<close> says whether two colons have been
  passed. A group is one to four hexadecimal digits; the last two may be a dotted address.
\<close>

fun ipv6_groups :: "nat \<Rightarrow> bool \<Rightarrow> string \<Rightarrow> bool" where
  "ipv6_groups 0 e s \<longleftrightarrow> s = '''' \<and> \<not> e"
| "ipv6_groups (Suc n) e s \<longleftrightarrow>
     (let g = takeWhile is_hex s; rest = dropWhile is_hex s
      in if g = '''' \<or> 4 < length g then False
         else
           (case rest of
              [] \<Rightarrow> (n = 0) \<noteq> e
            | c # cs \<Rightarrow>
                if c = CHR ''.'' then (if e then 1 \<le> n else n = 1) \<and> parseIPv4 s \<and> (n = 1) \<noteq> e
                else if c \<noteq> CHR '':'' \<or> cs = '''' then False
                else if hd cs = CHR '':''
                then \<not> e \<and> (if tl cs = '''' then n \<noteq> 0 else ipv6_groups n True (tl cs))
                else ipv6_groups n e cs))"

definition parseIPv6 :: "string \<Rightarrow> bool" where
  "parseIPv6 s \<longleftrightarrow>
     (if take 2 s = ''::'' then drop 2 s = '''' \<or> ipv6_groups 8 True (drop 2 s) else ipv6_groups 8 False s)"

text \<open>An address with a zone is not accepted.\<close>

definition ParseIP :: "string \<Rightarrow> bool" where
  "ParseIP s \<longleftrightarrow>
     (case dropWhile (\<lambda>c. c \<notin> set ''.:%'') s of
        [] \<Rightarrow> False
      | c # _ \<Rightarrow> if c = CHR ''.'' then parseIPv4 s
                 else if c = CHR '':'' then CHR ''%'' \<notin> set s \<and> parseIPv6 s
                 else False)"

lemma addresses_read:
  "ParseIP ''10.0.3.76''" "\<not> ParseIP ''forktower.startos''" "\<not> ParseIP ''10.0.3.076''" "\<not> ParseIP ''10.0.3''"
  "ParseIP ''::1''" "ParseIP ''::''" "ParseIP ''fe80::1:2''" "\<not> ParseIP ''fe80::1::2''" "ParseIP ''::ffff:10.0.3.76''"
  "\<not> ParseIP ''1:2:3:4:5:6:7''" "ParseIP ''1:2:3:4:5:6:7:8''" "ParseIP ''1:2:3:4:5:6:7::''" "\<not> ParseIP ''1:2:3:4:5:6:7:8:9''"
  by code_simp+

lemma hosts_split:
  "SplitHostPort ''forktower.startos:9911'' = Some (''forktower.startos'', ''9911'')"
  "SplitHostPort ''[::1]:9911'' = Some (''::1'', ''9911'')"
  "SplitHostPort ''::1:9911'' = None" "SplitHostPort ''forktower.startos'' = None"
  by code_simp+

end
