(* ===== verification/Tower_Coverage.thy ===== *)
theory Tower_Coverage
  imports Store_Db Go_Base
begin

text \<open>
  Whether a watchtower covers a channel: \<open>internal/responder/tower/coverage.go\<close>. A session of a type is
  a set of types here where the code has a map to booleans.
\<close>

section \<open>Session types\<close>

datatype policy_type = PolicyLegacy | PolicyAnchor | PolicyTaproot | PolicyUnknown

fun policy_text :: "policy_type \<Rightarrow> string" where
  "policy_text PolicyLegacy = ''legacy''"
| "policy_text PolicyAnchor = ''anchor''"
| "policy_text PolicyTaproot = ''taproot''"
| "policy_text PolicyUnknown = ''unknown''"

fun chan_text :: "chan_type \<Rightarrow> string" where
  "chan_text ChanLegacy = ''legacy''"
| "chan_text ChanStaticRemote = ''static_remote''"
| "chan_text ChanAnchors = ''anchors''"
| "chan_text ChanTaproot = ''taproot''"
| "chan_text ChanTypeUnknown = ''unknown''"
| "chan_text (ChanTypeOther s) = s"

fun PolicyForChannel :: "chan_type \<Rightarrow> policy_type" where
  "PolicyForChannel ChanTaproot = PolicyTaproot"
| "PolicyForChannel ChanAnchors = PolicyAnchor"
| "PolicyForChannel ChanLegacy = PolicyLegacy"
| "PolicyForChannel ChanStaticRemote = PolicyLegacy"
| "PolicyForChannel ChanTypeUnknown = PolicyUnknown"
| "PolicyForChannel (ChanTypeOther _) = PolicyUnknown"

section \<open>Versions\<close>

record version =
  veMajor :: int
  veMinor :: int
  vePatch :: int
  veRaw :: string
  veKnown :: bool

text \<open>\<open>strconv.Atoi\<close> on a part that holds digits only: an error out of range.\<close>

definition atoi_part :: "string \<Rightarrow> int option" where
  "atoi_part s = (if s = '''' then Some 0 else if int (digits_value s) < 2 ^ 63 then Some (int (digits_value s)) else None)"

text \<open>\<open>strings.Split\<close> at dots.\<close>

fun split_dots :: "string \<Rightarrow> string list" where
  "split_dots [] = ['''']"
| "split_dots (c # cs) =
     (if c = CHR ''.'' then [] # split_dots cs
      else (case split_dots cs of [] \<Rightarrow> [[c]] | p # ps \<Rightarrow> (c # p) # ps))"

definition version_head :: "string \<Rightarrow> string" where
  "version_head raw =
     (let word = takeWhile (\<lambda>c. \<not> is_space c) raw;
          head = (case word of c # cs \<Rightarrow> if c = CHR ''v'' then cs else word | [] \<Rightarrow> [])
      in takeWhile (\<lambda>c. is_digit c \<or> c = CHR ''.'') head)"

definition ParseVersion :: "string \<Rightarrow> version" where
  "ParseVersion reported =
     (let raw = trim_space reported;
          v = \<lparr>veMajor = 0, veMinor = 0, vePatch = 0, veRaw = raw, veKnown = False\<rparr>
      in if raw = '''' then v
         else
           (case split_dots (version_head raw) of
              a # b # rest \<Rightarrow>
                (case (atoi_part a, atoi_part b, atoi_part (case rest of c # _ \<Rightarrow> c | [] \<Rightarrow> '''')) of
                   (Some x, Some y, Some z) \<Rightarrow> v\<lparr>veMajor := x, veMinor := y, vePatch := z, veKnown := True\<rparr>
                 | _ \<Rightarrow> v)
            | _ \<Rightarrow> v))"

definition atLeast :: "version \<Rightarrow> int \<Rightarrow> int \<Rightarrow> bool" where
  "atLeast v major minor \<longleftrightarrow>
     (if \<not> veKnown v then False else if veMajor v \<noteq> major then major < veMajor v else minor \<le> veMinor v)"

definition version_text :: "version \<Rightarrow> string" where
  "version_text v = (if \<not> veKnown v then ''an unknown version'' else ''v'' @ veRaw v)"

text \<open>\<open>(0, 0)\<close> is every release.\<close>

fun firstVersionFor :: "policy_type \<Rightarrow> (int \<times> int) option" where
  "firstVersionFor PolicyLegacy = Some (0, 0)"
| "firstVersionFor PolicyAnchor = Some (0, 12)"
| "firstVersionFor PolicyTaproot = Some (0, 18)"
| "firstVersionFor PolicyUnknown = None"

definition Supports :: "version \<Rightarrow> policy_type \<Rightarrow> bool" where
  "Supports v p =
     (case firstVersionFor p of
        None \<Rightarrow> False
      | Some earliest \<Rightarrow> if earliest = (0, 0) then veKnown v else atLeast v (fst earliest) (snd earliest))"

section \<open>The verdict\<close>

record coverage_inputs =
  ciChanType :: chan_type
  ciTowerVersion :: version
  ciClientVersion :: version
  ciSessionPolicies :: "policy_type set"
  ciRegisteredForSeconds :: int
  ciTowerServing :: bool
  ciTowerNotServingWhy :: string

definition GracePeriodSeconds :: int where "GracePeriodSeconds = 600"

record verdict =
  vdCoverable :: bool
  vdReason :: string
  vdPolicy :: policy_type
  vdStillSettling :: bool

definition refused :: "policy_type \<Rightarrow> string \<Rightarrow> verdict" where
  "refused p reason = \<lparr>vdCoverable = False, vdReason = reason, vdPolicy = p, vdStillSettling = False\<rparr>"

definition Assess :: "coverage_inputs \<Rightarrow> verdict" where
  "Assess i =
     (let p = PolicyForChannel (ciChanType i); pt = policy_text p; ct = chan_text (ciChanType i)
      in if p = PolicyUnknown
         then refused p (''the channel's commitment type is not known, so it cannot be said which kind of tower session it needs ''
                @ [CHR 0xE2, CHR 0x80, CHR 0x94] @ '' treated as not covered rather than assumed to be fine'')
         else if p \<in> ciSessionPolicies i
         then (refused p (''the node holds a '' @ pt @ '' session with this tower, which is the kind a '' @ ct @ '' channel needs''))
                \<lparr>vdCoverable := True\<rparr>
         else if \<not> Supports (ciClientVersion i) p
         then refused p (''a '' @ ct @ '' channel needs a '' @ pt @ '' tower session, and the Lightning node is running ''
                @ version_text (ciClientVersion i) @ '', which cannot make one'')
         else if \<not> Supports (ciTowerVersion i) p
         then refused p (''a '' @ ct @ '' channel needs a '' @ pt @ '' tower session, and the tower is running ''
                @ version_text (ciTowerVersion i) @ '', which does not accept one'')
         else if \<not> ciTowerServing i \<and> ciTowerNotServingWhy i \<noteq> ''''
         then (refused p (''no session yet, and this is not your node's doing: '' @ ciTowerNotServingWhy i
                @ ''. Your node is already asking, on a retry, and a session will be agreed on its own once the tower can answer ''
                @ [CHR 0xE2, CHR 0x80, CHR 0x94] @ '' there is nothing for you to do''))\<lparr>vdStillSettling := True\<rparr>
         else if ciRegisteredForSeconds i < GracePeriodSeconds
         then (refused p (''no '' @ pt @ '' session yet, but the tower was registered less than '' @ itoa (quo GracePeriodSeconds 60)
                @ '' minutes ago and sessions are not negotiated immediately''))\<lparr>vdStillSettling := True\<rparr>
         else refused p (''both ends support '' @ pt @ '' sessions but the node has not negotiated one with this tower, so this channel is not being backed up''))"

section \<open>What a verdict means\<close>

text \<open>
  A channel is called covered on evidence only. The verdict is yes exactly when the type of the channel is known
  and the node holds a session of the type it needs, whatever the versions say; it is left open exactly when
  there is no such session although both ends could make one and the tower either says why it cannot answer
  or was registered less than ten minutes ago; every other verdict is no. So a channel
  of unknown type is never covered, and a fault is never blamed on a node while its tower is not serving.
\<close>

theorem coverage_exact:
  "vdCoverable (Assess i) = (PolicyForChannel (ciChanType i) \<noteq> PolicyUnknown \<and> PolicyForChannel (ciChanType i) \<in> ciSessionPolicies i)
   \<and> vdStillSettling (Assess i) =
       (PolicyForChannel (ciChanType i) \<noteq> PolicyUnknown \<and> PolicyForChannel (ciChanType i) \<notin> ciSessionPolicies i
        \<and> Supports (ciClientVersion i) (PolicyForChannel (ciChanType i)) \<and> Supports (ciTowerVersion i) (PolicyForChannel (ciChanType i))
        \<and> (\<not> ciTowerServing i \<and> ciTowerNotServingWhy i \<noteq> '''' \<or> ciRegisteredForSeconds i < GracePeriodSeconds))
   \<and> vdPolicy (Assess i) = PolicyForChannel (ciChanType i)"
  by (simp add: Assess_def Let_def refused_def)

lemma Supports_later:
  "Supports v p \<Longrightarrow> veKnown w \<Longrightarrow> veMajor w = veMajor v \<Longrightarrow> veMinor v \<le> veMinor w \<Longrightarrow> Supports w p"
  by (cases p) (auto simp: Supports_def atLeast_def split: if_splits)

lemma reported_version: "ParseVersion '' 0.18.5-beta commit=v0.18.5-beta'' =
   \<lparr>veMajor = 0, veMinor = 18, vePatch = 5, veRaw = ''0.18.5-beta commit=v0.18.5-beta'', veKnown = True\<rparr>"
  by code_simp

end
