(* ===== verification/Tower_Monitor.thy ===== *)
theory Tower_Monitor
  imports Net_Addr Tower_Coverage Alert_Policy
begin

text \<open>
  What is seen of a watchtower, and what is made of it: \<open>internal/responder/tower/supervise.go\<close>, the tower
  itself; \<open>internal/responder/tower/monitor.go\<close>, what the user's LND backs up to it; and
  \<open>internal/responder/tower/teosmonitor.go\<close>, the same for Core Lightning. What the tower, the node and the file
  system answer in one round is the argument of each definition; a map keyed by session type is a function.
\<close>

section \<open>The tower itself\<close>

record identity =
  idPubkey :: string
  idListeners :: "string list"
  idURIs :: "string list"

record tower_chain =
  tnVersion :: string
  tnBlockHeight :: int
  tnSyncedToChain :: bool

text \<open>An error other than the one for a watchtower that is switched off is its text.\<close>

datatype identity_answer = IdentityNotActive | IdentityError string | IdentityIs identity

definition startingMarker :: string where "startingMarker = ''in the process of starting up''"

definition isStillStarting :: "string \<Rightarrow> bool" where
  "isStillStarting err \<longleftrightarrow> str_contains (to_lower err) startingMarker"

record observation_of_tower =
  obIdentity :: identity
  obChain :: tower_chain
  obHealth :: tower_health
  obUsedBytes :: int
  obLimitBytes :: int
  obDiskKnown :: bool
  obOverDiskLimit :: bool

definition no_identity :: identity where "no_identity = \<lparr>idPubkey = '''', idListeners = [], idURIs = []\<rparr>"
definition no_chain :: tower_chain where "no_chain = \<lparr>tnVersion = '''', tnBlockHeight = 0, tnSyncedToChain = False\<rparr>"

definition health_of :: "tower_status \<Rightarrow> string \<Rightarrow> tower_health" where
  "health_of s d = \<lparr>thStatus = s, thDetail = d, thBlobTypes = '''', thLastOKAt = 0, thExpiryHeight = None, thSlotsLeft = None\<rparr>"

record supervisor =
  suDataDir :: string
  suLimitMB :: int

text \<open>What one look asks: the tower, its node, and how much its directory holds if that can be measured.\<close>

record tower_answers =
  taIdentity :: identity_answer
  taChain :: "string + tower_chain"
  taUsage :: "string \<Rightarrow> int option"

definition measureDisk :: "supervisor \<Rightarrow> tower_answers \<Rightarrow> observation_of_tower \<Rightarrow> observation_of_tower" where
  "measureDisk s ans obs =
     (if suDataDir s = '''' \<or> suLimitMB s \<le> 0 then obs
      else
        (case taUsage ans (suDataDir s) of
           None \<Rightarrow> obs
         | Some used \<Rightarrow>
             (let limit = i64 (suLimitMB s * 2 ^ 20)
              in obs\<lparr>obUsedBytes := used, obLimitBytes := limit, obDiskKnown := True, obOverDiskLimit := limit < used\<rparr>)))"

definition Observe_tower :: "supervisor \<Rightarrow> tower_answers \<Rightarrow> observation_of_tower" where
  "Observe_tower s ans =
     (let obs = \<lparr>obIdentity = no_identity, obChain = no_chain, obHealth = health_of TowerStatusUnknown '''', obUsedBytes = 0,
                 obLimitBytes = 0, obDiskKnown = False, obOverDiskLimit = False\<rparr>;
          bad = (\<lambda>status detail. measureDisk s ans (obs\<lparr>obHealth := health_of status detail\<rparr>))
      in case taIdentity ans of
           IdentityNotActive \<Rightarrow>
             bad TowerUnreachable ''the tower process is running but its watchtower is switched off, so it is accepting no sessions''
         | IdentityError err \<Rightarrow>
             if isStillStarting err then bad TowerTemporarilyUnreachable ''the tower is still starting up''
             else bad TowerUnreachable (''the tower did not answer: '' @ err)
         | IdentityIs ident \<Rightarrow>
             (let obs = obs\<lparr>obIdentity := ident\<rparr>
              in case taChain ans of
                   Inl err \<Rightarrow>
                     measureDisk s ans (obs\<lparr>obHealth := health_of TowerUnreachable (''the tower answered but its node did not: '' @ err)\<rparr>)
                 | Inr chain \<Rightarrow>
                     (let health =
                            (if \<not> tnSyncedToChain chain
                             then health_of TowerTemporarilyUnreachable
                                    (''the tower's own Bitcoin node is still catching up (height '' @ itoa (tnBlockHeight chain)
                                     @ ''), and the tower does not accept sessions or watch for breaches until it has finished'')
                             else if idURIs ident = []
                             then health_of TowerTemporarilyUnreachable
                                    ''the tower is running but is not reachable at any address yet, so no node can register with it''
                             else health_of TowerReachable '''');
                          obs = measureDisk s ans (obs\<lparr>obChain := chain, obHealth := health\<rparr>)
                      in if obOverDiskLimit obs \<and> thStatus (obHealth obs) = TowerReachable
                         then obs\<lparr>obHealth := (obHealth obs)\<lparr>thDetail :=
                                ''the tower is working, but its storage has passed the '' @ itoa (suLimitMB s)
                                @ '' MB limit Forktower sets for it''\<rparr>\<rparr>
                         else obs)))"

definition NearDiskLimit :: rat where "NearDiskLimit = fl (4 / 5)"

definition NearingDiskLimit :: "observation_of_tower \<Rightarrow> bool" where
  "NearingDiskLimit obs \<longleftrightarrow>
     obDiskKnown obs \<and> 0 < obLimitBytes obs
     \<and> fl (f64_of_int (obLimitBytes obs) * NearDiskLimit) \<le> f64_of_int (obUsedBytes obs)"

section \<open>What the user's LND backs up\<close>

record session =
  sePolicy :: policy_type
  seNumBackups :: int
  seNumPending :: int
  seMaxBackups :: int
  seSweepSatPerVByte :: int

record registered_tower =
  rtPubkey :: string
  rtAddresses :: "string list"
  rtSessions :: "session list"

record client_stats =
  csNumBackups :: int
  csNumPendingBackups :: int
  csNumFailedBackups :: int
  csNumSessionsAcq :: int
  csNumSessionsExh :: int

datatype towers_answer = ClientNotActive | TowersError string | TowersAre "registered_tower list"

record client_answers =
  clTowers :: towers_answer
  clStats :: "client_stats option"
  clVersion :: "string + version"

record concern_found =
  cnKind :: concern
  cnChannelID :: int
  cnTowerID :: int
  cnMessage :: string

record monitor =
  moTowerID :: int
  moTowerPubkey :: string
  moTowerVersion :: version
  moRegisteredForSeconds :: int
  moTowerServing :: bool
  moTowerNotServingWhy :: string
  moTowerURI :: string
  moCanAttachOnion :: bool
  moLowFeeSatPerVByte :: int

definition NewMonitor :: "bool \<Rightarrow> monitor \<Rightarrow> monitor option" where
  "NewMonitor hasClient m = (if \<not> hasClient then None else if moTowerPubkey m = '''' then None else Some m)"

text \<open>A concern about the tower, which has no channel.\<close>

definition about_tower :: "int \<Rightarrow> concern \<Rightarrow> string \<Rightarrow> concern_found" where
  "about_tower i k msg = \<lparr>cnKind = k, cnChannelID = 0, cnTowerID = i, cnMessage = msg\<rparr>"

definition findTower :: "registered_tower list \<Rightarrow> string \<Rightarrow> registered_tower option" where
  "findTower towers pubkey = find (\<lambda>t. rtPubkey t = pubkey) towers"

record policy_figures =
  pfBackups :: int
  pfFeeSatPerKW :: "int option"

type_synonym held = "policy_type \<Rightarrow> policy_figures option"

definition satPerVByteToSatPerKW :: int where "satPerVByteToSatPerKW = 250"

definition no_figures :: policy_figures where "no_figures = \<lparr>pfBackups = 0, pfFeeSatPerKW = None\<rparr>"

definition figures :: "held \<Rightarrow> policy_type \<Rightarrow> policy_figures" where
  "figures h p = (case h p of None \<Rightarrow> no_figures | Some f \<Rightarrow> f)"

definition sessionsByPolicy :: "registered_tower option \<Rightarrow> held" where
  "sessionsByPolicy t =
     (case t of
        None \<Rightarrow> (\<lambda>_. None)
      | Some t \<Rightarrow>
          fold (\<lambda>s h.
              if sePolicy s = PolicyUnknown then h
              else
                (let f = figures h (sePolicy s);
                     f = f\<lparr>pfBackups := i64 (pfBackups f + seNumBackups s)\<rparr>;
                     f = (if pfFeeSatPerKW f = None \<and> 0 < seSweepSatPerVByte s
                          then f\<lparr>pfFeeSatPerKW := Some (i32 (i32 (seSweepSatPerVByte s) * satPerVByteToSatPerKW))\<rparr> else f)
                 in h(sePolicy s \<mapsto> f)))
            (rtSessions t) (\<lambda>_. None))"

definition all_policies :: "policy_type list" where
  "all_policies = [PolicyLegacy, PolicyAnchor, PolicyTaproot, PolicyUnknown]"

definition held_types :: "held \<Rightarrow> policy_type set" where
  "held_types h = set (filter (\<lambda>p. h p \<noteq> None) all_policies)"

definition shortOutpoint :: "channel \<Rightarrow> string" where
  "shortOutpoint c =
     (let txid = chFundingTxID c
      in (if 8 < length txid then take 8 txid @ ellipsis else txid) @ '':'' @ itoa (chFundingVout c))"

text \<open>What one look at a registration could establish.\<close>

datatype registration_verdict = RegistrationUnknown | RegistrationGood | RegistrationStale

definition hostPortOf :: "string \<Rightarrow> string" where
  "hostPortOf uri = (case cut_at CHR ''@'' uri of Some (_, behind) \<Rightarrow> trim_space behind | None \<Rightarrow> trim_space uri)"

definition portOf :: "string \<Rightarrow> string" where
  "portOf uri = (case SplitHostPort (hostPortOf uri) of Some (_, port) \<Rightarrow> if port \<noteq> '''' then port else ''9911'' | None \<Rightarrow> ''9911'')"

definition isOnionURI :: "string \<Rightarrow> bool" where
  "isOnionURI uri =
     (let hp = hostPortOf uri; host = (case SplitHostPort hp of Some (h, _) \<Rightarrow> h | None \<Rightarrow> hp)
      in has_suffix (to_lower (trim_space host)) ''.onion'')"

definition newline :: char where "newline = char_of (10 :: nat)"

definition reRegisterMessage :: "monitor \<Rightarrow> string" where
  "reRegisterMessage m =
     (let lead = ''your node is registered with this watchtower and the tower is running, but not one channel state has ever reached it ''
                 @ emdash @ '' no backup, since the day you registered. Nothing on your node will tell you this: it still lists the tower as usable and retries in silence.'';
          fault = '' The registration itself is fine. What is wrong is the address inside it: your node cannot open a connection to it.'';
          viaTor = '' That is what happens when the node sends its connections through Tor, which will not carry one to a local network address.''
      in if isOnionURI (moTowerURI m)
         then lead @ fault @ viaTor @ '' The tower now has a Tor address, which your node can reach. Re-register it with the new address ''
              @ emdash @ '' the old one will not start working on its own:'' @ [newline, newline]
              @ ''    lncli wtclient remove '' @ moTowerPubkey m @ [newline]
              @ ''    lncli wtclient add '' @ moTowerURI m @ [newline, newline]
              @ ''Nothing is lost by doing this: no backups were ever made under the old registration, and your channels are protected from the moment the first session is agreed, which takes a couple of minutes.''
         else if moCanAttachOnion m
         then lead @ fault @ viaTor @ '' The tower does not have a Tor address yet, and Forktower cannot create one for it ''
              @ emdash @ '' that is done from the Tor service, and Forktower has asked it for one on your behalf. Look for that request, approve it, and re-register your node afterwards.''
         else lead @ fault @ '' The address it has is where the tower is, so something between the two is stopping the connection. The usual cause is the node being set to send every connection through Tor, which will not carry one to a local address. Check that setting on your node first; otherwise check that nothing between them is blocking port ''
              @ portOf (moTowerURI m) @ ''.'')"

definition unreachableFromNode ::
  "monitor \<Rightarrow> bool \<Rightarrow> held \<Rightarrow> channel list \<Rightarrow> registration_verdict" where
  "unreachableFromNode m registered h channels =
     (if \<not> registered \<or> channels = [] \<or> \<not> moTowerServing m \<or> moRegisteredForSeconds m < GracePeriodSeconds then RegistrationUnknown
      else if held_types h \<noteq> {} then RegistrationGood
      else RegistrationStale)"

text \<open>The first row of a channel is the last one written, as in a map filled in order.\<close>

definition coverage_was :: "coverage list \<Rightarrow> int \<Rightarrow> coverage option" where
  "coverage_was previous c = find (\<lambda>r. cvChannelID r = c) (rev previous)"

definition assess_inputs :: "monitor \<Rightarrow> held \<Rightarrow> version \<Rightarrow> channel \<Rightarrow> coverage_inputs" where
  "assess_inputs m h clientVersion ch =
     \<lparr>ciChanType = chChanType ch, ciTowerVersion = moTowerVersion m, ciClientVersion = clientVersion, ciSessionPolicies = held_types h,
      ciRegisteredForSeconds = moRegisteredForSeconds m, ciTowerServing = moTowerServing m, ciTowerNotServingWhy = moTowerNotServingWhy m\<rparr>"

definition assess_channel ::
  "monitor \<Rightarrow> held \<Rightarrow> version \<Rightarrow> coverage list \<Rightarrow> int \<Rightarrow> channel \<Rightarrow> coverage \<times> concern_found list" where
  "assess_channel m h clientVersion previous now ch =
     (let v = Assess (assess_inputs m h clientVersion ch);
          f = figures h (vdPolicy v);
          was = coverage_was previous (chID ch);
          wasBackups = (case was of Some p \<Rightarrow> cvNumBackups p | None \<Rightarrow> 0);
          last = (case was of Some p \<Rightarrow> if 0 < cvLastBackupAt p then cvLastBackupAt p else 0 | None \<Rightarrow> 0);
          last = (if 0 < pfBackups f \<and> (wasBackups \<noteq> pfBackups f \<or> last = 0) then now else last)
      in (\<lparr>cvChannelID = chID ch, cvTowerID = moTowerID m, cvCoverable = vdCoverable v, cvReason = verdict.vdReason v,
           cvNumBackups = pfBackups f, cvLastBackupAt = last, cvSweepFeeSatPerKW = pfFeeSatPerKW f, cvCheckedAt = now\<rparr>,
          if \<not> vdCoverable v \<and> \<not> vdStillSettling v
          then [\<lparr>cnKind = ConcernChannelUncovered, cnChannelID = chID ch, cnTowerID = moTowerID m,
                 cnMessage = ''channel '' @ shortOutpoint ch @ '' is not protected by this tower: '' @ verdict.vdReason v\<rparr>]
          else []))"

definition assessChannels ::
  "monitor \<Rightarrow> channel list \<Rightarrow> held \<Rightarrow> version \<Rightarrow> coverage list \<Rightarrow> int \<Rightarrow> coverage list \<times> concern_found list" where
  "assessChannels m channels h clientVersion previous now =
     (let rs = map (assess_channel m h clientVersion previous now) channels in (map fst rs, concat (map snd rs)))"

fun fee_concerns :: "monitor \<Rightarrow> session list \<Rightarrow> policy_type list \<Rightarrow> concern_found list" where
  "fee_concerns m [] seen = []"
| "fee_concerns m (s # ss) seen =
     (if seSweepSatPerVByte s = 0 \<or> moLowFeeSatPerVByte m \<le> seSweepSatPerVByte s \<or> sePolicy s \<in> set seen
      then fee_concerns m ss seen
      else about_tower (moTowerID m) ConcernFeeRateFixed
             (''the '' @ policy_text (sePolicy s) @ '' sessions with this tower pay '' @ itoa (seSweepSatPerVByte s)
              @ '' sat/vB on a justice transaction, which is below the '' @ itoa (moLowFeeSatPerVByte m)
              @ '' sat/vB the other chain is currently clearing. That rate was fixed when the session was negotiated and is signed into every backup: nobody can raise it afterwards. Re-registering with the tower negotiates fresh sessions at your node's current rate.'')
           # fee_concerns m ss (sePolicy s # seen))"

definition feeConcerns :: "monitor \<Rightarrow> registered_tower option \<Rightarrow> concern_found list" where
  "feeConcerns m t =
     (case t of None \<Rightarrow> [] | Some t \<Rightarrow> if moLowFeeSatPerVByte m = 0 then [] else fee_concerns m (rtSessions t) [])"

record coverage_pass =
  paCoverage :: "coverage list"
  paConcerns :: "concern_found list"
  paClientActive :: bool
  paRegistered :: bool
  paSettled :: "concern list"

definition Check :: "monitor \<Rightarrow> client_answers \<Rightarrow> channel list \<Rightarrow> coverage list \<Rightarrow> int \<Rightarrow> string + coverage_pass" where
  "Check m ans channels previous now =
     (case clTowers ans of
        ClientNotActive \<Rightarrow>
          Inr \<lparr>paCoverage = [],
               paConcerns = [about_tower (moTowerID m) ConcernClientOff
                 ''your Lightning node's watchtower client is switched off, so none of your channels are being backed up to any tower. This is a setting on your node and Forktower cannot change it for you.''],
               paClientActive = False, paRegistered = False, paSettled = []\<rparr>
      | TowersError err \<Rightarrow> Inl (''reading what your node is backing up: '' @ err)
      | TowersAre towers \<Rightarrow>
          (let exhausted =
                 (case clStats ans of
                    Some st \<Rightarrow>
                      if 0 < csNumSessionsExh st
                      then [about_tower (moTowerID m) ConcernSessionsExhausted
                        (itoa (csNumSessionsExh st) @ '' watchtower sessions have filled up and been replaced. That is normal, and worth knowing: a replacement session takes the fee rate your node is configured with today, which is the only way the fee on a justice transaction ever changes.'')]
                      else []
                  | None \<Rightarrow> [])
           in case clVersion ans of
                Inl err \<Rightarrow> Inl (''reading your node's version: '' @ err)
              | Inr clientVersion \<Rightarrow>
                  (let ours = findTower towers (moTowerPubkey m);
                       unregistered =
                         (if ours = None
                          then [about_tower (moTowerID m) ConcernNotRegistered
                            ''your Lightning node has not registered with this tower, so nothing is being backed up to it.'']
                          else []);
                       h = sessionsByPolicy ours;
                       v = unreachableFromNode m (ours \<noteq> None) h channels;
                       stale = (if v = RegistrationStale
                                then [about_tower (moTowerID m) ConcernUnreachableFromNode (reRegisterMessage m)] else []);
                       (cover, uncovered) = assessChannels m channels h clientVersion previous now
                   in Inr \<lparr>paCoverage = cover,
                           paConcerns = exhausted @ unregistered @ stale @ uncovered @ feeConcerns m ours,
                           paClientActive = True, paRegistered = (ours \<noteq> None),
                           paSettled = (if v = RegistrationGood then [ConcernUnreachableFromNode] else [])\<rparr>)))"

definition StalledBackups :: "monitor \<Rightarrow> coverage list \<Rightarrow> coverage list \<Rightarrow> (int \<Rightarrow> bool) \<Rightarrow> concern_found list" where
  "StalledBackups m current previous moved =
     concat (map (\<lambda>c.
       case coverage_was previous (cvChannelID c) of
         None \<Rightarrow> []
       | Some prior \<Rightarrow>
           if \<not> moved (cvChannelID c) \<or> \<not> cvCoverable c \<or> cvNumBackups c \<noteq> cvNumBackups prior then []
           else [\<lparr>cnKind = ConcernBackupsStalled, cnChannelID = cvChannelID c, cnTowerID = moTowerID m,
                  cnMessage = ''channel '' @ itoa (cvChannelID c)
                    @ '' has moved to a new state and the tower's backup count for channels of its type has not changed (still ''
                    @ itoa (cvNumBackups c)
                    @ ''). A tower that is reachable but no longer receiving backups protects only the states it already has.''\<rparr>])
       current)"

section \<open>What the user's Core Lightning node backs up\<close>

definition SubscriptionWarningBlocks :: int where "SubscriptionWarningBlocks = 1000"
definition SlotsLowFraction :: rat where "SlotsLowFraction = fl (1 / 10)"

record teos_tower =
  ttID :: string
  ttStatus :: tower_status
  ttAvailableSlots :: int
  ttSubscriptionExpiry :: int
  ttPendingAppointments :: int
  ttInvalidAppointments :: int
  ttMisbehavingProof :: string

record teos_monitor =
  tmTowerID :: int
  tmTowerPubkey :: string
  tmSlotsAtStart :: int

datatype teos_answer = PluginNotLoaded | TeosError string | TeosAre "teos_tower list"

record teos_pass =
  tpConcerns :: "concern_found list"
  tpHealth :: tower_health
  tpFound :: bool
  tpPluginLoaded :: bool

definition pick :: "teos_monitor \<Rightarrow> teos_tower list \<Rightarrow> teos_tower option" where
  "pick m towers =
     (if tmTowerPubkey m \<noteq> '''' then find (\<lambda>t. ttID t = tmTowerPubkey m) towers
      else (case towers of [t] \<Rightarrow> Some t | _ \<Rightarrow> None))"

definition teos_health :: "teos_tower \<Rightarrow> tower_health" where
  "teos_health t =
     \<lparr>thStatus = ttStatus t,
      thDetail = (case ttStatus t of
          TowerMisbehaving \<Rightarrow> ''this tower returned a receipt whose signature does not check out, which is proof rather than suspicion''
        | TowerSubscriptionError \<Rightarrow> ''this tower is refusing appointments: the subscription has run out of slots or expired''
        | TowerTemporarilyUnreachable \<Rightarrow> ''this tower is not answering, and your node is still retrying''
        | TowerUnreachable \<Rightarrow> ''this tower is not answering and your node has stopped retrying''
        | _ \<Rightarrow> ''''),
      thBlobTypes = '''', thLastOKAt = 0, thExpiryHeight = Some (ttSubscriptionExpiry t), thSlotsLeft = Some (ttAvailableSlots t)\<rparr>"

definition proofNote :: "string \<Rightarrow> string" where
  "proofNote p = (if p = '''' then ''The proof itself could not be fetched from your node.'' else ''The proof is in the details for this tower.'')"

definition teos_concerns :: "teos_monitor \<Rightarrow> teos_tower \<Rightarrow> int \<Rightarrow> concern_found list" where
  "teos_concerns m t tipHeight =
     (let c = about_tower (tmTowerID m); left = i32 (ttSubscriptionExpiry t - tipHeight)
      in (if ttStatus t = TowerMisbehaving
          then [c ConcernTowerMisbehaving (''this tower returned a receipt whose signature does not check out. That is proof it is not behaving as it should, not a guess ''
                  @ emdash @ '' the evidence is recorded. Do not rely on this tower; register with another. '' @ proofNote (ttMisbehavingProof t))]
          else [])
       @ (if 0 < ttSubscriptionExpiry t \<and> 0 < tipHeight
          then (if left \<le> 0
                then [c ConcernSubscriptionExpiring ''your subscription with this tower has expired, so it is no longer accepting backups. Re-register with it to start a new one.'']
                else if left \<le> SubscriptionWarningBlocks
                then [c ConcernSubscriptionExpiring (''your subscription with this tower runs out in about '' @ itoa left
                        @ '' blocks. Re-register before then: once it lapses the tower stops accepting backups, and on a slow chain that can arrive sooner in blocks than it sounds in days.'')]
                else [])
          else [])
       @ (if ttAvailableSlots t = 0
          then [c ConcernSlotsLow ''this tower has no room left for new backups. Re-register with it to get a fresh allowance.'']
          else if 0 < tmSlotsAtStart m \<and> f64_of_int (ttAvailableSlots t) \<le> fl (f64_of_int (tmSlotsAtStart m) * SlotsLowFraction)
          then [c ConcernSlotsLow (''this tower has room for '' @ itoa (ttAvailableSlots t) @ '' more backups out of the ''
                  @ itoa (tmSlotsAtStart m) @ '' it started with. Re-register before it fills up.'')]
          else [])
       @ (if 0 < ttPendingAppointments t
          then [c ConcernAppointmentsUndelivered (itoa (ttPendingAppointments t)
                  @ '' channel updates have not reached this tower yet. Your node moves on without waiting for the tower to confirm, so those states are in use and not yet protected.'')]
          else [])
       @ (if 0 < ttInvalidAppointments t
          then [c ConcernAppointmentsInvalid (''this tower rejected '' @ itoa (ttInvalidAppointments t)
                  @ '' backups as malformed. That points at your node rather than at the tower, and those states are not protected.'')]
          else []))"

definition teos_Check :: "teos_monitor \<Rightarrow> teos_answer \<Rightarrow> int \<Rightarrow> string + teos_pass" where
  "teos_Check m ans tipHeight =
     (let none = health_of (TowerStatusOther '''') ''''
      in case ans of
           PluginNotLoaded \<Rightarrow>
             Inr \<lparr>tpConcerns = [about_tower (tmTowerID m) ConcernPluginMissing
                    ''your Lightning node is not running the watchtower plugin, so none of your channels are being backed up to any tower. This is a plugin on your node and Forktower cannot install it for you.''],
                  tpHealth = none, tpFound = False, tpPluginLoaded = False\<rparr>
         | TeosError err \<Rightarrow> Inl (''reading what your node is backing up: '' @ err)
         | TeosAre towers \<Rightarrow>
             (case pick m towers of
                None \<Rightarrow>
                  Inr \<lparr>tpConcerns = [about_tower (tmTowerID m) ConcernNotRegistered
                         ''your Lightning node has not registered with this tower, so nothing is being backed up to it.''],
                       tpHealth = none, tpFound = False, tpPluginLoaded = True\<rparr>
              | Some t \<Rightarrow>
                  Inr \<lparr>tpConcerns = teos_concerns m t tipHeight, tpHealth = teos_health t, tpFound = True, tpPluginLoaded = True\<rparr>))"

end
