(* ===== verification/Tower_Warden.thy ===== *)
theory Tower_Warden
  imports Tower_Monitor
begin

text \<open>
  The warden of one watchtower: \<open>internal/responder/tower/warden.go\<close>. Its state is the tables of the store, what it
  remembers between rounds and what it has published. A round (\<open>pass_warden\<close>) observes the tower, writes down what was seen,
  announces a change of its health, works out what is protected, raises what is wrong and withdraws what no
  longer is. What the tower and the user's node answer in a round comes with it, and so does the clock; a map
  from names to booleans is the list of the names in it, in the order they were added, where the code ranges
  over a map in no particular order. Log lines, the ticker and timeouts are left out.
\<close>

section \<open>State\<close>

record warden_config =
  waKind :: tower_kind
  waManaged :: bool
  waURI :: string
  waCanAttachOnion :: bool
  waHasClient :: bool
  waHasCLNClient :: bool
  waLowFeeSatPerVByte :: int
  waTeosPubkey :: string
  waTeosSlots :: int
  waBranch :: branch
  waSupervisor :: supervisor

text \<open>A status never announced is \<open>TowerStatusOther ''''\<close>.\<close>

record warden = tower_tables +
  wdTowerID :: int
  wdLastStatus :: tower_status
  wdLastConcerns :: "string list"
  wdSettledSaid :: "concern list"
  wdPrevious :: "coverage list"
  wdFirstSeen :: int
  wdTipHeight :: int
  wdPublished :: "bus_event list"

definition new_warden :: "warden \<Rightarrow> bool" where
  "new_warden w \<longleftrightarrow> wdTowerID w = 0 \<and> wdLastStatus w = TowerStatusOther '''' \<and> wdLastConcerns w = [] \<and> wdSettledSaid w = []
     \<and> wdPrevious w = [] \<and> wdFirstSeen w = 0 \<and> wdTipHeight w = 0 \<and> wdPublished w = []"

definition warden_publish :: "bus_event \<Rightarrow> warden \<Rightarrow> warden" where
  "warden_publish ev w = w\<lparr>wdPublished := wdPublished w @ [ev]\<rparr>"

section \<open>Writing down what was seen\<close>

definition isBareAddress :: "string \<Rightarrow> bool" where
  "isBareAddress uri =
     (let hostPort = (case cut_at CHR ''@'' uri of Some (_, behind) \<Rightarrow> behind | None \<Rightarrow> uri);
          host = (case SplitHostPort hostPort of Some (h, _) \<Rightarrow> h | None \<Rightarrow> hostPort)
      in ParseIP (trim_space host))"

definition uriOf :: "warden_config \<Rightarrow> observation_of_tower \<Rightarrow> string" where
  "uriOf cfg obs =
     (let reported = (case idURIs (obIdentity obs) of u # _ \<Rightarrow> u | [] \<Rightarrow> '''')
      in if reported = '''' then waURI cfg
         else if waURI cfg \<noteq> '''' \<and> isBareAddress reported \<and> \<not> isBareAddress (waURI cfg)
         then (if idPubkey (obIdentity obs) \<noteq> '''' then idPubkey (obIdentity obs) @ ''@'' @ waURI cfg else waURI cfg)
         else reported)"

definition firstSeenOf :: "int \<Rightarrow> int \<Rightarrow> 'x tower_tables_scheme \<Rightarrow> 'x tower_tables_scheme \<times> int" where
  "firstSeenOf i now d =
     (case ListTowers all_towers d of
        (d, Inl _) \<Rightarrow> (d, now)
      | (d, Inr rows) \<Rightarrow>
          (d, case find (\<lambda>t. twID t = i \<and> 0 < twFirstSeenAt t) rows of Some t \<Rightarrow> twFirstSeenAt t | None \<Rightarrow> now))"

definition tower_row :: "tower_kind \<Rightarrow> string \<Rightarrow> string \<Rightarrow> bool \<Rightarrow> int \<Rightarrow> int \<Rightarrow> tower" where
  "tower_row kind pubkey uri managed first now =
     \<lparr>twID = 0, twKind = kind, twPubkey = pubkey, twURI = uri, twManaged = managed, twFirstSeenAt = first, twLastOKAt = 0,
      twStatus = TowerStatusOther '''', twStatusDetail = '''', twBlobTypes = '''', twExpiryHeight = None, twSlotsLeft = None,
      twUpdatedAt = now\<rparr>"

definition record_tower :: "warden_config \<Rightarrow> observation_of_tower \<Rightarrow> int \<Rightarrow> warden \<Rightarrow> warden \<times> (store_err + unit)" where
  "record_tower cfg obs now w =
     (let pubkey = idPubkey (obIdentity obs)
      in if pubkey = '''' \<and> wdTowerID w = 0 then (w, Inr ())
         else
           (let (w, r) =
              (if wdTowerID w = 0
               then (case UpsertTower (tower_row (waKind cfg) pubkey (uriOf cfg obs) (waManaged cfg) now now) w of
                       (w, Inl e) \<Rightarrow> (w, Inl e)
                     | (w, Inr (i, _)) \<Rightarrow>
                         (let (w, first) = firstSeenOf i now (w\<lparr>wdTowerID := i\<rparr>) in (w\<lparr>wdFirstSeen := first\<rparr>, Inr ())))
               else if pubkey \<noteq> ''''
               then (case UpsertTower (tower_row (waKind cfg) pubkey (uriOf cfg obs) (waManaged cfg) (wdFirstSeen w) now) w of
                       (w, Inl e) \<Rightarrow> (w, Inl e)
                     | (w, Inr _) \<Rightarrow> (w, Inr ()))
               else (w, Inr ()))
            in case r of
                 Inl e \<Rightarrow> (w, Inl e)
               | Inr _ \<Rightarrow> SetTowerStatus (wdTowerID w) (obHealth obs) now w))"

section \<open>What is said\<close>

definition announceHealth_warden :: "observation_of_tower \<Rightarrow> warden \<Rightarrow> warden" where
  "announceHealth_warden obs w =
     (let s = thStatus (obHealth obs)
      in if s = wdLastStatus w then w
         else warden_publish
           (ETowerHealthChanged \<lparr>hcTowerID = wdTowerID w, hcStatus = s, hcDetail = thDetail (obHealth obs),
              hcPrevious = (if wdLastStatus w = TowerStatusOther '''' then TowerStatusUnknown else wdLastStatus w)\<rparr>)
           (w\<lparr>wdLastStatus := s\<rparr>))"

definition concern_key :: "concern \<Rightarrow> int \<Rightarrow> string" where
  "concern_key k ch = concern_text k @ '':'' @ itoa ch"

definition all_concerns :: "concern list" where
  "all_concerns =
     [ConcernClientOff, ConcernPluginMissing, ConcernNotRegistered, ConcernChannelUncovered, ConcernBackupsStalled,
      ConcernSubscriptionExpiring, ConcernSlotsLow, ConcernAppointmentsUndelivered, ConcernAppointmentsInvalid,
      ConcernTowerMisbehaving, ConcernOursNotRegistered, ConcernRegistrationStale, ConcernUnreachableFromNode,
      ConcernExternalOnly, ConcernFeeRateFixed, ConcernSessionsExhausted, ConcernDiskFilling]"

definition concern_of :: "string \<Rightarrow> concern" where
  "concern_of s = (case find (\<lambda>k. concern_text k = s) all_concerns of Some k \<Rightarrow> k | None \<Rightarrow> ConcernOther s)"

definition splitConcernKey :: "string \<Rightarrow> string \<times> int" where
  "splitConcernKey key =
     (case cut_last CHR '':'' key of
        None \<Rightarrow> (key, 0)
      | Some (kind, rest) \<Rightarrow> (case parse_int64 rest of None \<Rightarrow> (key, 0) | Some i \<Rightarrow> (kind, i)))"

definition concern_raised :: "int \<Rightarrow> concern_found \<Rightarrow> bus_event" where
  "concern_raised tower c =
     ETowerConcern \<lparr>tcTowerID = tower, tcConcern = cnKind c, tcChannelID = cnChannelID c, tcMessage = cnMessage c, tcCleared = False\<rparr>"

definition concern_cleared :: "int \<Rightarrow> concern \<Rightarrow> int \<Rightarrow> bus_event" where
  "concern_cleared tower k ch =
     ETowerConcern \<lparr>tcTowerID = tower, tcConcern = k, tcChannelID = ch, tcMessage = '''', tcCleared = True\<rparr>"

definition raise_concern :: "concern_found \<Rightarrow> warden \<Rightarrow> warden" where
  "raise_concern c w =
     (let key = concern_key (cnKind c) (cnChannelID c); w = w\<lparr>wdSettledSaid := removeAll (cnKind c) (wdSettledSaid w)\<rparr>
      in if key \<in> set (wdLastConcerns w) then w
         else warden_publish (concern_raised (wdTowerID w) c) (w\<lparr>wdLastConcerns := wdLastConcerns w @ [key]\<rparr>))"

definition settle :: "concern \<Rightarrow> warden \<Rightarrow> warden" where
  "settle k w =
     (let w = w\<lparr>wdLastConcerns := removeAll (concern_key k 0) (wdLastConcerns w)\<rparr>
      in if k \<in> set (wdSettledSaid w) then w
         else warden_publish (concern_cleared (wdTowerID w) k 0) (w\<lparr>wdSettledSaid := wdSettledSaid w @ [k]\<rparr>))"

definition forget :: "string set \<Rightarrow> string \<Rightarrow> warden \<Rightarrow> warden" where
  "forget still key w =
     (if key \<in> still then w
      else
        (let (kind, ch) = splitConcernKey key
         in warden_publish (concern_cleared (wdTowerID w) (concern_of kind) ch)
              (w\<lparr>wdLastConcerns := removeAll key (wdLastConcerns w)\<rparr>)))"

definition forgetResolved :: "concern_found list \<Rightarrow> concern list \<Rightarrow> warden \<Rightarrow> warden" where
  "forgetResolved current settled w =
     (let w = fold settle settled w
      in fold (forget (set (map (\<lambda>c. concern_key (cnKind c) (cnChannelID c)) current))) (wdLastConcerns w) w)"

section \<open>What is protected\<close>

text \<open>The rows are written one after the other, up to the first that fails.\<close>

fun write_coverage :: "coverage list \<Rightarrow> 'x tower_tables_scheme \<Rightarrow> 'x tower_tables_scheme \<times> bool" where
  "write_coverage [] d = (d, True)"
| "write_coverage (c # cs) d = (case UpsertCoverage c d of (d, Inl _) \<Rightarrow> (d, False) | (d, Inr _) \<Rightarrow> write_coverage cs d)"

definition advancedSince :: "coverage list \<Rightarrow> coverage list \<Rightarrow> int \<Rightarrow> bool" where
  "advancedSince previous current ch \<longleftrightarrow>
     list_ex (\<lambda>c. cvChannelID c = ch
       \<and> (case coverage_was previous ch of Some prior \<Rightarrow> cvLastBackupAt prior < cvLastBackupAt c | None \<Rightarrow> False)) current"

definition open_channels :: channel_filter where
  "open_channels = all_channels\<lparr>cfOpenOnly := True\<rparr>"

text \<open>What is found, what is positively settled, and whether there is a verdict at all.\<close>

type_synonym coverage_verdict = "concern_found list \<times> concern list \<times> bool"

definition no_verdict :: coverage_verdict where "no_verdict = ([], [], False)"

definition teosGapReason :: "teos_pass \<Rightarrow> string" where
  "teosGapReason p =
     (if \<not> tpPluginLoaded p then ''your node is not running the watchtower plugin, so nothing is being backed up to any tower''
      else if \<not> tpFound p then ''your node has not registered with this tower''
      else if thStatus (tpHealth p) = TowerSubscriptionError
      then ''the subscription with this tower has run out, so it is no longer accepting backups''
      else if thStatus (tpHealth p) = TowerMisbehaving
      then ''this tower returned a receipt whose signature does not check out''
      else ''this tower is not currently accepting backups from your node'')"

definition teos_rows :: "teos_pass \<Rightarrow> int \<Rightarrow> int \<Rightarrow> channel list \<Rightarrow> coverage list" where
  "teos_rows p tower now channels =
     (let protected = (tpFound p \<and> tpPluginLoaded p \<and> thStatus (tpHealth p) = TowerReachable);
          reason = (if protected then ''your node holds a live subscription with this tower, which covers every channel it has''
                    else teosGapReason p)
      in map (\<lambda>ch. \<lparr>cvChannelID = chID ch, cvTowerID = tower, cvCoverable = protected, cvReason = reason, cvNumBackups = 0,
                     cvLastBackupAt = 0, cvSweepFeeSatPerKW = None, cvCheckedAt = now\<rparr>) channels)"

definition checkTeosCoverage :: "warden_config \<Rightarrow> teos_answer \<Rightarrow> int \<Rightarrow> warden \<Rightarrow> warden \<times> coverage_verdict" where
  "checkTeosCoverage cfg ans now w =
     (if \<not> waHasCLNClient cfg then (w, no_verdict)
      else
        (case ListChannels open_channels w of
           (w, Inl _) \<Rightarrow> (w, no_verdict)
         | (w, Inr channels) \<Rightarrow>
             (case teos_Check \<lparr>tmTowerID = wdTowerID w, tmTowerPubkey = waTeosPubkey cfg, tmSlotsAtStart = waTeosSlots cfg\<rparr>
                     ans (wdTipHeight w) of
                Inl _ \<Rightarrow> (w, no_verdict)
              | Inr p \<Rightarrow>
                  (let w = (if tpFound p then fst (SetTowerStatus (wdTowerID w) (tpHealth p) now w) else w);
                       (w, wrote) = write_coverage (teos_rows p (wdTowerID w) now channels) w
                   in (w, tpConcerns p, [], wrote)))))"

definition monitor_for :: "warden_config \<Rightarrow> observation_of_tower \<Rightarrow> int \<Rightarrow> warden \<Rightarrow> monitor" where
  "monitor_for cfg obs now w =
     \<lparr>moTowerID = wdTowerID w, moTowerPubkey = idPubkey (obIdentity obs), moTowerVersion = ParseVersion (tnVersion (obChain obs)),
      moRegisteredForSeconds = i64 (now - wdFirstSeen w), moTowerServing = (thStatus (obHealth obs) = TowerReachable),
      moTowerNotServingWhy = thDetail (obHealth obs), moTowerURI = uriOf cfg obs, moCanAttachOnion = waCanAttachOnion cfg,
      moLowFeeSatPerVByte = waLowFeeSatPerVByte cfg\<rparr>"

definition checkCoverage ::
  "warden_config \<Rightarrow> observation_of_tower \<Rightarrow> client_answers \<Rightarrow> teos_answer \<Rightarrow> int \<Rightarrow> warden \<Rightarrow> warden \<times> coverage_verdict" where
  "checkCoverage cfg obs ans tans now w =
     (if wdTowerID w = 0 then (w, no_verdict)
      else if waKind cfg = TowerTeos then checkTeosCoverage cfg tans now w
      else if \<not> waHasClient cfg then (w, no_verdict)
      else if idPubkey (obIdentity obs) = '''' then (w, no_verdict)
      else
        (case NewMonitor (waHasClient cfg) (monitor_for cfg obs now w) of
           None \<Rightarrow> (w, no_verdict)
         | Some m \<Rightarrow>
             (case ListChannels open_channels w of
                (w, Inl _) \<Rightarrow> (w, no_verdict)
              | (w, Inr channels) \<Rightarrow>
                  if channels = [] then (w, no_verdict)
                  else
                    (case Check m ans channels (wdPrevious w) now of
                       Inl _ \<Rightarrow> (w, no_verdict)
                     | Inr p \<Rightarrow>
                         (case write_coverage (paCoverage p) w of
                            (w, False) \<Rightarrow> (w, no_verdict)
                          | (w, True) \<Rightarrow>
                              (w\<lparr>wdPrevious := paCoverage p\<rparr>,
                               paConcerns p @ StalledBackups m (paCoverage p) (wdPrevious w) (advancedSince (wdPrevious w) (paCoverage p)),
                               paSettled p, True))))))"

section \<open>A round\<close>

definition disk_concern :: "int \<Rightarrow> observation_of_tower \<Rightarrow> concern_found list" where
  "disk_concern tower obs =
     (if NearingDiskLimit obs
      then [about_tower tower ConcernDiskFilling
              (''the tower's storage is at '' @ itoa (obUsedBytes obs div 2 ^ 20) @ '' MB of the '' @ itoa (obLimitBytes obs div 2 ^ 20)
               @ '' MB Forktower allows it. A watchtower accepts a session from anyone who can reach it, so this is worth looking at rather than waiting on.'')]
      else [])"

record warden_answers =
  anTower :: tower_answers
  anClient :: client_answers
  anTeos :: teos_answer

definition pass_warden :: "warden_config \<Rightarrow> warden_answers \<Rightarrow> int \<Rightarrow> warden \<Rightarrow> warden" where
  "pass_warden cfg ans now w =
     (let obs = Observe_tower (waSupervisor cfg) (anTower ans)
      in case record_tower cfg obs now w of
           (w, Inl _) \<Rightarrow> w
         | (w, Inr _) \<Rightarrow>
             (let w = announceHealth_warden obs w;
                  disk = disk_concern (wdTowerID w) obs;
                  (w, coverage, settled, assessed) = checkCoverage cfg obs (anClient ans) (anTeos ans) now w;
                  concerns = disk @ coverage;
                  w = fold raise_concern concerns w
              in if assessed then forgetResolved concerns settled w else w))"

text \<open>
  The loop handles a round or a block of the chain the tower watches; in between, the other components of the
  program have written to the tables.
\<close>

datatype warden_input = WardenPass int warden_answers | WardenBlock branch int | WardenTables tower_tables

fun warden_step :: "warden_config \<Rightarrow> warden \<Rightarrow> warden_input \<Rightarrow> warden" where
  "warden_step cfg w (WardenPass now ans) = pass_warden cfg ans now w"
| "warden_step cfg w (WardenBlock b h) = (if b = waBranch cfg then w\<lparr>wdTipHeight := h\<rparr> else w)"
| "warden_step cfg w (WardenTables t) = tower_tables.extend t (tower_tables.more w)"

end
