(* ===== verification/Tower_Facts.thy ===== *)
theory Tower_Facts
  imports Tower_Warden
begin

text \<open>
  What the warden of a watchtower guarantees: what it has said stands for what it remembers, a round that reached a verdict
  leaves standing exactly what it found, what is written down is the verdict on every open channel; and
  what it never says.
\<close>

section \<open>What the calls leave alone\<close>

text \<open>What only the warden itself changes, and the channels, which it only reads.\<close>

definition beside :: "warden \<Rightarrow> warden \<Rightarrow> bool" where
  "beside w w' \<longleftrightarrow> wdLastConcerns w' = wdLastConcerns w \<and> wdSettledSaid w' = wdSettledSaid w \<and> wdPrevious w' = wdPrevious w
     \<and> wdPublished w' = wdPublished w \<and> t_channels w' = t_channels w"

lemma beside_refl [simp]: "beside w w"
  by (simp add: beside_def)

lemma beside_trans: "beside u v \<Longrightarrow> beside v w \<Longrightarrow> beside u w"
  by (simp add: beside_def)

lemma UpsertTower_beside: "beside w (fst (UpsertTower t w))"
  by (auto simp: UpsertTower_def db_call_def Let_def beside_def split: list.split option.split)

lemma SetTowerStatus_beside: "beside w (fst (SetTowerStatus i h now w))"
  by (auto simp: SetTowerStatus_def db_call_def Let_def beside_def split: list.split)

lemma UpsertCoverage_beside: "beside w (fst (UpsertCoverage c w)) \<and> t_towers (fst (UpsertCoverage c w)) = t_towers w
    \<and> wdTowerID (fst (UpsertCoverage c w)) = wdTowerID w"
  by (auto simp: UpsertCoverage_def db_call_def Let_def beside_def split: list.split)

lemma firstSeenOf_beside: "beside w (fst (firstSeenOf i now w))"
  by (auto simp: firstSeenOf_def ListTowers_def db_read_unfold beside_def split: list.split)

lemma ListChannels_beside: "ListChannels f w = (w', r) \<Longrightarrow> beside w w' \<and> wdTowerID w' = wdTowerID w \<and> t_towers w' = t_towers w"
  by (auto simp: ListChannels_def db_read_unfold beside_def split: list.splits)

lemma beside_calls:
  "UpsertTower t w = (w', r) \<Longrightarrow> beside w w'" "SetTowerStatus i h now w = (w', r') \<Longrightarrow> beside w w'"
  "firstSeenOf i now w = (w', n) \<Longrightarrow> beside w w'"
  using UpsertTower_beside [of w t] SetTowerStatus_beside [of w i h now] firstSeenOf_beside [of w i now] by auto

lemma record_tower_beside: "record_tower cfg obs now w = (w', r) \<Longrightarrow> beside w w'"
proof -
  have b: "beside w (w\<lparr>wdFirstSeen := i\<rparr>)" "beside (w\<lparr>wdTowerID := i\<rparr>) v = beside w v" for w v i by (simp_all add: beside_def)
  show "record_tower cfg obs now w = (w', r) \<Longrightarrow> beside w w'"
    by (auto simp: record_tower_def Let_def b split: prod.splits sum.splits if_splits
        dest!: beside_calls intro: beside_trans [OF beside_trans [OF beside_trans [OF _ _] b(1)]] beside_trans)
qed

section \<open>What has been said\<close>

lemma itoa_no_colon: "CHR '':'' \<notin> set (itoa i)"
proof -
  have "CHR '':'' \<notin> set (digits n)" for n
    using digits_all [of n] by (auto simp: is_digit_def)
  then show ?thesis by (auto simp: itoa_def)
qed

text \<open>The key a concern is remembered under can be read back, so what is withdrawn is what was raised.\<close>

lemma splitConcernKey_key: "is_i64 ch \<Longrightarrow> splitConcernKey (concern_key k ch) = (concern_text k, ch)"
proof -
  have "cut_last CHR '':'' (concern_key k ch) = Some (concern_text k, itoa ch)"
    using itoa_no_colon by (simp add: concern_key_def cut_last_Some)
  then show "is_i64 ch \<Longrightarrow> splitConcernKey (concern_key k ch) = (concern_text k, ch)"
    by (simp add: splitConcernKey_def parse_int64_itoa)
qed

lemma concern_of_text: "k \<in> set all_concerns \<Longrightarrow> concern_of (concern_text k) = k"
proof -
  have "list_all (\<lambda>k. concern_of (concern_text k) = k) all_concerns" by code_simp
  then show "k \<in> set all_concerns \<Longrightarrow> concern_of (concern_text k) = k" by (simp add: list_all_iff)
qed

definition known_concern :: "concern \<Rightarrow> int \<Rightarrow> bool" where
  "known_concern k ch \<longleftrightarrow> k \<in> set all_concerns \<and> is_i64 ch"

lemma concern_key_inject:
  assumes "known_concern k ch" "known_concern k' ch'"
  shows "concern_key k ch = concern_key k' ch' \<longleftrightarrow> k = k' \<and> ch = ch'"
  using assms splitConcernKey_key [of ch k] splitConcernKey_key [of ch' k'] concern_of_text [of k] concern_of_text [of k']
  by (auto simp: known_concern_def)

text \<open>
  What a user who has followed the announcements believes to be standing. Raising what already stands breaks
  the protocol, and so does withdrawing what does not stand, except for the one concern that a
  round may positively establish not to apply.
\<close>

fun tell :: "string set option \<Rightarrow> bus_event \<Rightarrow> string set option" where
  "tell (Some S) (ETowerConcern e) =
     (let key = concern_key (tcConcern e) (tcChannelID e)
      in if tcCleared e
         then (if key \<in> S \<or> tcConcern e = ConcernUnreachableFromNode then Some (S - {key}) else None)
         else if key \<in> S then None else Some (insert key S))"
| "tell S _ = S"

definition ledger :: "bus_event list \<Rightarrow> string set option" where
  "ledger evs = foldl tell (Some {}) evs"

lemma ledger_Nil [simp]: "ledger [] = Some {}"
  by (simp add: ledger_def)

lemma ledger_snoc [simp]: "ledger (evs @ [e]) = tell (ledger evs) e"
  by (simp add: ledger_def)

definition told_ok :: "warden \<Rightarrow> bool" where
  "told_ok w \<longleftrightarrow> ledger (wdPublished w) = Some (set (wdLastConcerns w)) \<and> distinct (wdLastConcerns w)
     \<and> (\<forall>key \<in> set (wdLastConcerns w). \<exists>k ch. known_concern k ch \<and> key = concern_key k ch)
     \<and> (\<forall>k. known_concern k 0 \<longrightarrow> concern_key k 0 \<in> set (wdLastConcerns w) \<longrightarrow> k \<notin> set (wdSettledSaid w))"

lemma told_ok_beside: "beside w w' \<Longrightarrow> told_ok w' = told_ok w"
  by (simp add: told_ok_def beside_def)

abbreviation found_ok :: "concern_found \<Rightarrow> bool" where
  "found_ok c \<equiv> known_concern (cnKind c) (cnChannelID c)"

abbreviation found_key :: "concern_found \<Rightarrow> string" where
  "found_key c \<equiv> concern_key (cnKind c) (cnChannelID c)"

lemma raise_concern_told:
  assumes "told_ok w" "found_ok c"
  shows "told_ok (raise_concern c w)
    \<and> set (wdLastConcerns (raise_concern c w)) = insert (found_key c) (set (wdLastConcerns w))"
proof (cases "found_key c \<in> set (wdLastConcerns w)")
  case True
  then show ?thesis using assms by (auto simp: raise_concern_def told_ok_def)
next
  case False
  have "k \<notin> set (removeAll (cnKind c) (wdSettledSaid w))"
    if "known_concern k 0" "concern_key k 0 \<in> insert (found_key c) (set (wdLastConcerns w))" for k
    using that assms concern_key_inject [of k 0 "cnKind c" "cnChannelID c"] by (auto simp: told_ok_def)
  then show ?thesis
    using False assms by (auto simp: raise_concern_def warden_publish_def concern_raised_def told_ok_def Let_def)
qed

lemma raise_all_told:
  "told_ok w \<Longrightarrow> list_all found_ok cs \<Longrightarrow> told_ok (fold raise_concern cs w)
    \<and> set (wdLastConcerns (fold raise_concern cs w)) = found_key ` set cs \<union> set (wdLastConcerns w)"
proof (induction cs arbitrary: w)
  case (Cons c cs)
  then show ?case using raise_concern_told [of w c] Cons.IH [of "raise_concern c w"] by simp
qed simp

lemma settle_told:
  assumes "told_ok w"
  shows "told_ok (settle ConcernUnreachableFromNode w)
    \<and> set (wdLastConcerns (settle ConcernUnreachableFromNode w))
      = set (wdLastConcerns w) - {concern_key ConcernUnreachableFromNode 0}"
proof -
  let ?k = ConcernUnreachableFromNode
  have k: "known_concern ?k 0" by (simp add: known_concern_def all_concerns_def is_i64_def)
  show ?thesis
  proof (cases "?k \<in> set (wdSettledSaid w)")
    case True
    then have "concern_key ?k 0 \<notin> set (wdLastConcerns w)" using assms k by (auto simp: told_ok_def)
    then show ?thesis using True assms by (simp add: settle_def)
  next
    case False
    have "k' \<notin> set (wdSettledSaid w @ [?k])"
      if "known_concern k' 0" "concern_key k' 0 \<in> set (wdLastConcerns w) - {concern_key ?k 0}" for k'
      using that assms by (auto simp: told_ok_def)
    then show ?thesis
      using False assms
      by (auto simp: settle_def warden_publish_def concern_cleared_def told_ok_def Let_def distinct_removeAll)
  qed
qed

lemma forget_told:
  assumes "told_ok w" "key \<in> set (wdLastConcerns w)"
  shows "told_ok (forget still key w)
    \<and> set (wdLastConcerns (forget still key w)) = set (wdLastConcerns w) - ({key} - still)"
proof (cases "key \<in> still")
  case False
  obtain k ch where k: "known_concern k ch" "key = concern_key k ch" using assms by (auto simp: told_ok_def)
  then have "splitConcernKey key = (concern_text k, ch)" "concern_of (concern_text k) = k"
    by (simp_all add: splitConcernKey_key concern_of_text known_concern_def)
  then show ?thesis
    using False assms k
    by (auto simp: forget_def warden_publish_def concern_cleared_def told_ok_def Let_def distinct_removeAll)
qed (use assms in \<open>auto simp: forget_def\<close>)

lemma forget_all_told:
  "told_ok w \<Longrightarrow> distinct ks \<Longrightarrow> set ks \<subseteq> set (wdLastConcerns w) \<Longrightarrow> told_ok (fold (forget still) ks w)
    \<and> set (wdLastConcerns (fold (forget still) ks w)) = set (wdLastConcerns w) - (set ks - still)"
proof (induction ks arbitrary: w)
  case (Cons key ks)
  have f: "told_ok (forget still key w)"
    "set (wdLastConcerns (forget still key w)) = set (wdLastConcerns w) - ({key} - still)"
    using forget_told [of w key still] Cons.prems by auto
  have "set ks \<subseteq> set (wdLastConcerns (forget still key w))" using Cons.prems f(2) by auto
  with Cons.IH [OF f(1)] Cons.prems f(2) show ?case by auto
qed simp

lemma settle_all_told:
  "told_ok w \<Longrightarrow> set settled \<subseteq> {ConcernUnreachableFromNode} \<Longrightarrow> told_ok (fold settle settled w)
    \<and> set (wdLastConcerns (fold settle settled w))
      = set (wdLastConcerns w) - (\<lambda>k. concern_key k 0) ` set settled"
proof (induction settled arbitrary: w)
  case (Cons k ks)
  then show ?case using settle_told [of w] Cons.IH [of "settle ConcernUnreachableFromNode w"] by auto
qed simp

lemma forgetResolved_told:
  assumes "told_ok w" "set settled \<subseteq> {ConcernUnreachableFromNode}"
  shows "told_ok (forgetResolved cs settled w)
    \<and> set (wdLastConcerns (forgetResolved cs settled w))
      = set (wdLastConcerns w) \<inter> found_key ` set cs - (\<lambda>k. concern_key k 0) ` set settled"
proof -
  let ?w = "fold settle settled w"
  have s: "told_ok ?w" "set (wdLastConcerns ?w) = set (wdLastConcerns w) - (\<lambda>k. concern_key k 0) ` set settled"
    using settle_all_told [OF assms] by auto
  then have "distinct (wdLastConcerns ?w)" by (simp add: told_ok_def)
  from forget_all_told [OF s(1) this subset_refl] s(2) show ?thesis
    by (auto simp: forgetResolved_def Let_def)
qed

section \<open>What a round finds\<close>

definition channels_known :: "'x db_scheme \<Rightarrow> bool" where
  "channels_known d \<longleftrightarrow> distinct (map chID (t_channels d)) \<and> (\<forall>ch \<in> set (t_channels d). is_i64 (chID ch))"

text \<open>A backup that was ever counted has a time.\<close>

definition dated :: "coverage list \<Rightarrow> bool" where
  "dated rows \<longleftrightarrow> (\<forall>c \<in> set rows. 0 \<le> cvLastBackupAt c \<and> (0 < cvNumBackups c \<longrightarrow> 0 < cvLastBackupAt c))"

definition live_concern :: "concern_found \<Rightarrow> bool" where
  "live_concern c \<longleftrightarrow> found_ok c \<and> cnKind c \<noteq> ConcernBackupsStalled"

lemma coverage_was_mem: "coverage_was rows ch = Some c \<Longrightarrow> c \<in> set rows \<and> cvChannelID c = ch"
  by (auto simp: coverage_was_def find_Some_iff) (metis nth_mem set_rev length_rev)

lemma assess_channel_dated:
  "dated previous \<Longrightarrow> 0 < now \<Longrightarrow> dated [fst (assess_channel m h v previous now ch)]"
  by (auto simp: assess_channel_def Let_def dated_def split: option.split)

lemma assess_channel_id [simp]: "cvChannelID (fst (assess_channel m h v previous now ch)) = chID ch"
  by (simp add: assess_channel_def Let_def)

lemma no_stall:
  assumes "dated previous" "distinct (map chID channels)"
  shows "StalledBackups m (map (fst \<circ> assess_channel m h v previous now) channels) previous
    (advancedSince previous (map (fst \<circ> assess_channel m h v previous now) channels)) = []"
proof -
  let ?row = "fst \<circ> assess_channel m h v previous now"
  have "cvNumBackups (?row ch) \<noteq> cvNumBackups prior"
    if *: "ch \<in> set channels" "coverage_was previous (chID ch) = Some prior"
      "advancedSince previous (map ?row channels) (chID ch)" for ch prior
  proof -
    obtain ch' where "ch' \<in> set channels" "chID ch' = chID ch" "cvLastBackupAt prior < cvLastBackupAt (?row ch')"
      using *(2,3) by (auto simp: advancedSince_def list_ex_iff)
    moreover from this have "ch' = ch" using *(1) assms(2) by (auto simp: distinct_map inj_on_def)
    moreover have "0 \<le> cvLastBackupAt prior" "0 < cvNumBackups prior \<longrightarrow> 0 < cvLastBackupAt prior"
      using coverage_was_mem [OF *(2)] assms(1) by (auto simp: dated_def)
    ultimately show ?thesis
      using *(2) by (auto simp: assess_channel_def Let_def split: if_splits)
  qed
  then show ?thesis by (auto simp: StalledBackups_def split: option.split)
qed

lemma about_tower_live [simp]:
  "live_concern (about_tower i k msg) \<longleftrightarrow> k \<in> set all_concerns \<and> k \<noteq> ConcernBackupsStalled"
  by (auto simp: live_concern_def about_tower_def known_concern_def is_i64_def)

lemma fee_concerns_live: "list_all live_concern (fee_concerns m ss seen)"
  by (induction m ss seen rule: fee_concerns.induct) (simp_all add: all_concerns_def)

lemma fee_concerns_kind: "c \<in> set (fee_concerns m ss seen) \<Longrightarrow> cnKind c = ConcernFeeRateFixed"
  by (induction m ss seen rule: fee_concerns.induct) (auto simp: about_tower_def split: if_splits)

lemma uncovered_live:
  assumes "\<forall>ch \<in> set channels. is_i64 (chID ch)" "c \<in> set (snd (assessChannels m channels h v previous now))"
  shows "live_concern c \<and> cnKind c = ConcernChannelUncovered"
  using assms by (auto simp: assessChannels_def Let_def assess_channel_def live_concern_def known_concern_def all_concerns_def
      split: if_splits)

lemma Check_live:
  assumes "Check m ans channels previous now = Inr p" "\<forall>ch \<in> set channels. is_i64 (chID ch)"
  shows "list_all live_concern (paConcerns p)" and "set (paSettled p) \<subseteq> {ConcernUnreachableFromNode}"
    and "paSettled p \<noteq> [] \<Longrightarrow> c \<in> set (paConcerns p) \<Longrightarrow> cnKind c \<noteq> ConcernUnreachableFromNode"
    and "paCoverage p \<in> {[], map (fst \<circ> assess_channel m (sessionsByPolicy (case clTowers ans of TowersAre ts \<Rightarrow> findTower ts (moTowerPubkey m) | _ \<Rightarrow> None))
        (case clVersion ans of Inr v \<Rightarrow> v | Inl _ \<Rightarrow> ParseVersion '''') previous now) channels}"
proof -
  note u = uncovered_live [OF assms(2)]
  have f: "live_concern c \<and> cnKind c = ConcernFeeRateFixed" if "c \<in> set (feeConcerns m t)" for c t
    using that fee_concerns_kind fee_concerns_live
    by (auto simp: feeConcerns_def list_all_iff split: option.splits if_splits)
  show "list_all live_concern (paConcerns p)"
    using assms(1) u f
    by (auto simp: Check_def Let_def case_prod_unfold list_all_iff all_concerns_def split: towers_answer.splits sum.splits option.splits if_splits)
  show "set (paSettled p) \<subseteq> {ConcernUnreachableFromNode}"
    using assms(1) by (auto simp: Check_def Let_def case_prod_unfold split: towers_answer.splits sum.splits if_splits)
  show "paSettled p \<noteq> [] \<Longrightarrow> c \<in> set (paConcerns p) \<Longrightarrow> cnKind c \<noteq> ConcernUnreachableFromNode"
    using assms(1) u [of c] f [of c]
    by (auto simp: Check_def Let_def case_prod_unfold about_tower_def split: towers_answer.splits sum.splits option.splits if_splits)
  show "paCoverage p \<in> {[], map (fst \<circ> assess_channel m (sessionsByPolicy (case clTowers ans of TowersAre ts \<Rightarrow> findTower ts (moTowerPubkey m) | _ \<Rightarrow> None))
        (case clVersion ans of Inr v \<Rightarrow> v | Inl _ \<Rightarrow> ParseVersion '''') previous now) channels}"
    using assms(1) by (auto simp: Check_def Let_def case_prod_unfold assessChannels_def split: towers_answer.splits sum.splits)
qed

lemma teos_concerns_live: "list_all live_concern (teos_concerns m t tip)"
  unfolding teos_concerns_def Let_def
  by (simp add: if_distrib [of "list_all live_concern"] all_concerns_def cong: if_cong)

lemma teos_live: "teos_Check m ans tip = Inr p \<Longrightarrow> list_all live_concern (tpConcerns p)"
  by (auto simp: teos_Check_def teos_concerns_live Let_def all_concerns_def split: teos_answer.splits option.splits)

lemma write_coverage_beside: "write_coverage cs w = (w', ok) \<Longrightarrow> beside w w' \<and> wdTowerID w' = wdTowerID w \<and> t_towers w' = t_towers w"
proof (induction cs arbitrary: w)
  case (Cons c cs)
  obtain v r where v: "UpsertCoverage c w = (v, r)" by fastforce
  have b: "beside w v" "wdTowerID v = wdTowerID w" "t_towers v = t_towers w" using UpsertCoverage_beside [of w c] v by auto
  show ?case
  proof (cases r)
    case (Inl e)
    then show ?thesis using Cons.prems v b by auto
  next
    case (Inr u)
    then show ?thesis using Cons.prems v b Cons.IH [of v] by (auto intro: beside_trans)
  qed
qed simp

lemma open_channels_listed:
  "ListChannels open_channels w = (w', Inr channels) \<Longrightarrow> channels_known w \<Longrightarrow>
    distinct (map chID channels) \<and> (\<forall>ch \<in> set channels. is_i64 (chID ch))"
  by (auto simp: ListChannels_def db_read_unfold channels_known_def distinct_map_filter split: list.splits if_splits)

text \<open>What a check leaves alone, and what it finds.\<close>

definition sound_check :: "warden \<Rightarrow> warden \<Rightarrow> coverage_verdict \<Rightarrow> bool" where
  "sound_check w w' r \<longleftrightarrow> (\<exists>rows. beside (w\<lparr>wdPrevious := rows\<rparr>) w' \<and> dated rows) \<and> list_all live_concern (fst r)
     \<and> set (fst (snd r)) \<subseteq> {ConcernUnreachableFromNode}
     \<and> (fst (snd r) \<noteq> [] \<longrightarrow> ConcernUnreachableFromNode \<notin> cnKind ` set (fst r))"

lemma sound_no_verdict: "dated (wdPrevious w) \<Longrightarrow> beside w w' \<Longrightarrow> sound_check w w' no_verdict"
  by (auto simp: sound_check_def no_verdict_def beside_def)

lemma checkTeosCoverage_sound:
  assumes "dated (wdPrevious w)" "checkTeosCoverage cfg ans now w = (w', r)"
  shows "sound_check w w' r"
proof (cases "waHasCLNClient cfg")
  case False
  then show ?thesis using assms sound_no_verdict by (auto simp: checkTeosCoverage_def)
next
  case True
  obtain u lr where l: "ListChannels open_channels w = (u, lr)" by fastforce
  have u: "beside w u" using ListChannels_beside [OF l] by simp
  let ?m = "\<lparr>tmTowerID = wdTowerID u, tmTowerPubkey = waTeosPubkey cfg, tmSlotsAtStart = waTeosSlots cfg\<rparr>"
  show ?thesis
  proof (cases "\<exists>channels p. lr = Inr channels \<and> teos_Check ?m ans (wdTipHeight u) = Inr p")
    case False
    then show ?thesis
      using True assms(2) l sound_no_verdict [OF assms(1) u] by (auto simp: checkTeosCoverage_def split: sum.splits)
  next
    case found: True
    then obtain channels p where p: "lr = Inr channels" "teos_Check ?m ans (wdTipHeight u) = Inr p" by blast
    define v where "v = (if tpFound p then fst (SetTowerStatus (wdTowerID u) (tpHealth p) now u) else u)"
    have v: "beside u v" using SetTowerStatus_beside by (simp add: v_def)
    obtain x wrote where x: "write_coverage (teos_rows p (wdTowerID v) now channels) v = (x, wrote)" by fastforce
    have "w' = x" "r = (tpConcerns p, [], wrote)"
      using True assms(2) l p x by (simp_all add: checkTeosCoverage_def v_def [symmetric])
    moreover have "beside w x" using u v write_coverage_beside [OF x] by (blast intro: beside_trans)
    ultimately show ?thesis using teos_live [OF p(2)] assms(1) by (auto simp: sound_check_def beside_def)
  qed
qed

lemma checkCoverage_sound:
  assumes "dated (wdPrevious w)" "channels_known w" "0 < now" "checkCoverage cfg obs ans tans now w = (w', r)"
  shows "sound_check w w' r"
proof -
  have lnd: "sound_check w (v\<lparr>wdPrevious := paCoverage p\<rparr>)
      (paConcerns p @ StalledBackups m (paCoverage p) (wdPrevious v) (advancedSince (wdPrevious v) (paCoverage p)), paSettled p, True)"
    if l: "ListChannels open_channels w = (u, Inr channels)" and c: "Check m ans channels (wdPrevious u) now = Inr p"
      and wr: "write_coverage (paCoverage p) u = (v, True)" for u v channels m p
  proof -
    have b: "beside w u" "beside u v" using ListChannels_beside [OF l] write_coverage_beside [OF wr] by auto
    then have prev: "wdPrevious u = wdPrevious w" "wdPrevious v = wdPrevious w" by (auto simp: beside_def)
    have ch: "distinct (map chID channels)" "\<forall>ch \<in> set channels. is_i64 (chID ch)"
      using open_channels_listed [OF l assms(2)] by auto
    note found = Check_live [OF c ch(2)]
    let ?rows = "\<lambda>h v. map (fst \<circ> assess_channel m h v (wdPrevious w) now) channels"
    obtain h cv where rows: "paCoverage p \<in> {[], ?rows h cv}" using found(4) prev by auto
    have no_rows: "StalledBackups m [] (wdPrevious w) f = []" for f by (simp add: StalledBackups_def)
    have "dated (?rows h cv)"
      using assess_channel_dated [OF assms(1,3)] by (simp add: dated_def)
    then have "dated (paCoverage p)" using rows by (auto simp: dated_def)
    moreover have "StalledBackups m (paCoverage p) (wdPrevious w) (advancedSince (wdPrevious w) (paCoverage p)) = []"
      using rows no_stall [OF assms(1) ch(1), of m h cv now] no_rows by fastforce
    moreover have "beside (w\<lparr>wdPrevious := paCoverage p\<rparr>) (v\<lparr>wdPrevious := paCoverage p\<rparr>)"
      using beside_trans [OF b] by (simp add: beside_def)
    ultimately show ?thesis
      using found(1-3) prev by (auto simp: sound_check_def) metis
  qed
  have none: "sound_check w v no_verdict" if "beside w v" for v using sound_no_verdict [OF assms(1) that] .
  show ?thesis
  proof (cases "wdTowerID w = 0 \<or> waKind cfg = TowerTeos \<or> \<not> waHasClient cfg \<or> idPubkey (obIdentity obs) = ''''")
    case True
    then show ?thesis
      using assms(4) none [OF beside_refl] checkTeosCoverage_sound [OF assms(1)]
      by (auto simp: checkCoverage_def split: if_splits)
  next
    case False
    let ?m = "monitor_for cfg obs now w"
    have "NewMonitor (waHasClient cfg) ?m = Some ?m" using False by (simp add: NewMonitor_def monitor_for_def)
    moreover obtain u lr where l: "ListChannels open_channels w = (u, lr)" by fastforce
    moreover have "beside w u" using ListChannels_beside [OF l] by simp
    ultimately show ?thesis
      using False assms(4) none lnd [of u _ ?m]
      by (auto simp: checkCoverage_def split: sum.splits prod.splits bool.splits if_splits)
         (use \<open>beside w u\<close> beside_trans write_coverage_beside in blast)
  qed
qed

section \<open>A round and a run\<close>

definition raised_kinds :: "bus_event list \<Rightarrow> concern set" where
  "raised_kinds evs = {tcConcern e | e. ETowerConcern e \<in> set evs \<and> \<not> tcCleared e}"

definition warden_ok :: "warden \<Rightarrow> bool" where
  "warden_ok w \<longleftrightarrow> told_ok w \<and> dated (wdPrevious w) \<and> channels_known w \<and> ConcernBackupsStalled \<notin> raised_kinds (wdPublished w)"

text \<open>A round reads a clock that has started, and no component writes two channels under one id.\<close>

fun warden_input_ok :: "warden_input \<Rightarrow> bool" where
  "warden_input_ok (WardenPass now _) \<longleftrightarrow> 0 < now"
| "warden_input_ok (WardenBlock _ _) \<longleftrightarrow> True"
| "warden_input_ok (WardenTables t) \<longleftrightarrow> channels_known t"

lemma raised_snoc [simp]:
  "raised_kinds (evs @ [e]) = raised_kinds evs \<union> (case e of ETowerConcern c \<Rightarrow> if tcCleared c then {} else {tcConcern c} | _ \<Rightarrow> {})"
  by (auto simp: raised_kinds_def split: bus_event.split if_splits)

text \<open>Saying something leaves the rest alone.\<close>

definition only_said :: "warden \<Rightarrow> warden \<Rightarrow> bool" where
  "only_said w w' \<longleftrightarrow> wdPrevious w' = wdPrevious w \<and> t_channels w' = t_channels w"

lemma only_said_refl [simp]: "only_said w w"
  by (simp add: only_said_def)

lemma only_said_trans: "only_said u v \<Longrightarrow> only_said v w \<Longrightarrow> only_said u w"
  by (simp add: only_said_def)

lemma raise_concern_said:
  "only_said w (raise_concern c w) \<and> raised_kinds (wdPublished (raise_concern c w)) \<subseteq> insert (cnKind c) (raised_kinds (wdPublished w))"
  by (auto simp: raise_concern_def Let_def warden_publish_def concern_raised_def only_said_def)

lemma raise_all_said:
  "only_said w (fold raise_concern cs w)
    \<and> raised_kinds (wdPublished (fold raise_concern cs w)) \<subseteq> cnKind ` set cs \<union> raised_kinds (wdPublished w)"
proof (induction cs arbitrary: w)
  case (Cons c cs)
  then show ?case using Cons.IH [of "raise_concern c w"] raise_concern_said [of w c] by (auto intro: only_said_trans)
qed simp

lemma settle_said: "only_said w (settle k w) \<and> raised_kinds (wdPublished (settle k w)) = raised_kinds (wdPublished w)"
  by (simp add: settle_def Let_def warden_publish_def concern_cleared_def only_said_def)

lemma forget_said: "only_said w (forget S k w) \<and> raised_kinds (wdPublished (forget S k w)) = raised_kinds (wdPublished w)"
  by (simp add: forget_def Let_def warden_publish_def concern_cleared_def only_said_def case_prod_unfold)

lemma fold_said:
  assumes "\<And>k w. only_said w (f k w) \<and> raised_kinds (wdPublished (f k w)) = raised_kinds (wdPublished w)"
  shows "only_said w (fold f ks w) \<and> raised_kinds (wdPublished (fold f ks w)) = raised_kinds (wdPublished w)"
proof (induction ks arbitrary: w)
  case (Cons k ks)
  then show ?case using assms [of w k] Cons.IH [of "f k w"] by (auto intro: only_said_trans)
qed simp

lemma forgetResolved_said:
  "only_said w (forgetResolved cs ks w) \<and> raised_kinds (wdPublished (forgetResolved cs ks w)) = raised_kinds (wdPublished w)"
  unfolding forgetResolved_def Let_def
  using fold_said [of settle, OF settle_said] fold_said [of "forget S" for S, OF forget_said] only_said_trans by metis

lemma announceHealth_ok:
  "warden_ok (announceHealth_warden obs w) = warden_ok w"
  "wdLastConcerns (announceHealth_warden obs w) = wdLastConcerns w" "wdTowerID (announceHealth_warden obs w) = wdTowerID w"
  by (auto simp: announceHealth_warden_def Let_def warden_publish_def warden_ok_def told_ok_def channels_known_def)

lemma disk_concern_live: "list_all live_concern (disk_concern i obs)" "ConcernUnreachableFromNode \<notin> cnKind ` set (disk_concern i obs)"
proof -
  have "cnKind (about_tower i k msg) = k" for k msg by (simp add: about_tower_def)
  then show "list_all live_concern (disk_concern i obs)" "ConcernUnreachableFromNode \<notin> cnKind ` set (disk_concern i obs)"
    by (cases "NearingDiskLimit obs"; simp add: disk_concern_def all_concerns_def)+
qed

lemma warden_ok_beside:
  assumes "beside w w'"
  shows "warden_ok w' = warden_ok w"
  using told_ok_beside [OF assms] assms by (simp add: warden_ok_def beside_def channels_known_def)

text \<open>
  A round from a sound state either writes nothing down and says nothing, or says what it found: if it reached a
  verdict, exactly that stands afterwards, and if it did not, what it saw of the tower stands beside
  everything that stood before.
\<close>

lemma pass_stands:
  assumes "warden_ok w" "0 < now" "Observe_tower (waSupervisor cfg) (anTower ans) = obs" "record_tower cfg obs now w = (u, r)"
    and "checkCoverage cfg obs (anClient ans) (anTeos ans) now (announceHealth_warden obs u) = (v, found, settled, assessed)"
  shows "warden_ok (pass_warden cfg ans now w)
    \<and> set (wdLastConcerns (pass_warden cfg ans now w)) =
       (if isl r then set (wdLastConcerns w)
        else if assessed then found_key ` set (disk_concern (wdTowerID u) obs @ found)
        else found_key ` set (disk_concern (wdTowerID u) obs @ found) \<union> set (wdLastConcerns w))"
proof -
  have b: "beside w u" by (rule record_tower_beside [OF assms(4)])
  show ?thesis
  proof (cases r)
    case (Inl e)
    then have "pass_warden cfg ans now w = u" using assms(3,4) by (simp add: pass_warden_def Let_def)
    then show ?thesis using Inl b warden_ok_beside [OF b] assms(1) by (simp add: beside_def)
  next
    case (Inr x)
    let ?a = "announceHealth_warden obs u"
    let ?cs = "disk_concern (wdTowerID u) obs @ found"
    let ?f = "fold raise_concern ?cs v"
    have p: "pass_warden cfg ans now w = (if assessed then forgetResolved ?cs settled ?f else ?f)"
      using assms(3-5) Inr by (simp add: pass_warden_def Let_def announceHealth_ok)
    have a: "warden_ok ?a" "set (wdLastConcerns ?a) = set (wdLastConcerns w)"
      using assms(1) warden_ok_beside [OF b] b by (simp_all add: announceHealth_ok beside_def)
    then have "sound_check ?a v (found, settled, assessed)"
      using assms(2,5) by (intro checkCoverage_sound) (auto simp: warden_ok_def)
    then obtain rows where rows: "beside (?a\<lparr>wdPrevious := rows\<rparr>) v" "dated rows" and live: "list_all live_concern found"
      and st: "set settled \<subseteq> {ConcernUnreachableFromNode}" "settled \<noteq> [] \<longrightarrow> ConcernUnreachableFromNode \<notin> cnKind ` set found"
      by (auto simp: sound_check_def)
    have v: "warden_ok v" "set (wdLastConcerns v) = set (wdLastConcerns w)"
      using rows a by (auto simp: warden_ok_def told_ok_def beside_def channels_known_def)
    have l: "list_all live_concern ?cs" using live disk_concern_live by simp
    then have ok: "list_all found_ok ?cs" "ConcernBackupsStalled \<notin> cnKind ` set ?cs"
      by (auto simp: list_all_iff live_concern_def) (metis UnCI)+
    have "told_ok v" using v by (simp add: warden_ok_def)
    note f = raise_all_told [OF this ok(1)] raise_all_said [of v ?cs]
    then have fo: "told_ok ?f" "warden_ok ?f" using v ok(2) by (auto simp: warden_ok_def only_said_def channels_known_def)
    note g = forgetResolved_told [OF fo(1) st(1), of ?cs] forgetResolved_said [of ?f ?cs settled]
    have "warden_ok (forgetResolved ?cs settled ?f)" using g fo by (auto simp: warden_ok_def only_said_def channels_known_def)
    moreover have "(\<lambda>k. concern_key k 0) ` set settled \<inter> found_key ` set ?cs = {}"
    proof -
      have "concern_key ConcernUnreachableFromNode 0 \<noteq> found_key c" if "c \<in> set ?cs" "settled \<noteq> []" for c
      proof -
        have "known_concern ConcernUnreachableFromNode 0" by (simp add: known_concern_def all_concerns_def is_i64_def)
        moreover have "found_ok c" using that ok by (auto simp: list_all_iff)
        moreover have "cnKind c \<noteq> ConcernUnreachableFromNode"
          using that st(2) disk_concern_live(2) [of "wdTowerID u" obs] by auto (metis image_eqI)+
        ultimately show ?thesis by (simp add: concern_key_inject)
      qed
      then show ?thesis using st(1) by (cases "settled = []") auto
    qed
    ultimately show ?thesis using Inr p f g fo v(2) by auto
  qed
qed

lemma pass_warden_ok: "warden_ok w \<Longrightarrow> 0 < now \<Longrightarrow> warden_ok (pass_warden cfg ans now w)"
  using pass_stands [of w now cfg ans] by (metis surj_pair)

lemma tables_replaced [simp]:
  "t_channels (tower_tables.extend t (tower_tables.more w) :: warden) = t_channels t"
  "wdPublished (tower_tables.extend t (tower_tables.more w)) = wdPublished w"
  "wdLastConcerns (tower_tables.extend t (tower_tables.more w)) = wdLastConcerns w"
  "wdSettledSaid (tower_tables.extend t (tower_tables.more w)) = wdSettledSaid w"
  "wdPrevious (tower_tables.extend t (tower_tables.more w)) = wdPrevious w"
  "wdTowerID (tower_tables.extend t (tower_tables.more w)) = wdTowerID w"
  by (cases w; simp add: tower_tables.defs)+

lemma warden_step_ok: "warden_ok w \<Longrightarrow> warden_input_ok i \<Longrightarrow> warden_ok (warden_step cfg w i)"
proof (cases i)
  case (WardenPass now ans)
  then show "warden_ok w \<Longrightarrow> warden_input_ok i \<Longrightarrow> warden_ok (warden_step cfg w i)" by (simp add: pass_warden_ok)
qed (auto simp: warden_ok_def told_ok_def channels_known_def)

interpretation warden: machine "warden_step cfg" warden_input_ok warden_ok for cfg
  by unfold_locales (rule warden_step_ok)

lemma new_warden_ok: "new_warden w \<Longrightarrow> channels_known w \<Longrightarrow> warden_ok w"
  by (simp add: new_warden_def warden_ok_def told_ok_def dated_def raised_kinds_def)

section \<open>Properties\<close>

text \<open>
  C38: what the warden has said is what it remembers. Whatever the tower and the node answer, whichever store calls fail and
  whatever the other components write in between, a reader who follows the announcements, taking up what is raised and
  dropping what is withdrawn, holds exactly the concerns the warden holds: nothing standing is raised twice, nothing is
  withdrawn that does not stand, except the one concern a round can positively rule out. So what an earlier
  process raised and this one has not is never withdrawn by it.
\<close>

theorem said_is_remembered:
  assumes "new_warden w" "channels_known w" "list_all warden_input_ok is"
  shows "ledger (wdPublished (foldl (warden_step cfg) w is)) = Some (set (wdLastConcerns (foldl (warden_step cfg) w is)))"
  using warden.run_inv [OF new_warden_ok [OF assms(1,2)] assms(3)] by (simp add: warden_ok_def told_ok_def)

text \<open>
  C39: a round that reaches a verdict leaves standing exactly what it found, and a round that could not tell withdraws
  nothing: what it found wrong with the tower itself is added and everything else stands as it stood.
\<close>

theorem verdict_is_what_stands:
  assumes "new_warden w" "channels_known w" "list_all warden_input_ok is" "0 < now"
    and "record_tower cfg (Observe_tower (waSupervisor cfg) (anTower ans)) now (foldl (warden_step cfg) w is) = (u, Inr ())"
    and "checkCoverage cfg (Observe_tower (waSupervisor cfg) (anTower ans)) (anClient ans) (anTeos ans) now
      (announceHealth_warden (Observe_tower (waSupervisor cfg) (anTower ans)) u) = (v, found, settled, assessed)"
  shows "ledger (wdPublished (pass_warden cfg ans now (foldl (warden_step cfg) w is)))
    = Some ((\<lambda>c. concern_key (cnKind c) (cnChannelID c))
          ` set (disk_concern (wdTowerID u) (Observe_tower (waSupervisor cfg) (anTower ans)) @ found)
        \<union> (if assessed then {} else the (ledger (wdPublished (foldl (warden_step cfg) w is)))))"
proof -
  have w: "warden_ok (foldl (warden_step cfg) w is)" by (rule warden.run_inv [OF new_warden_ok [OF assms(1,2)] assms(3)])
  from pass_stands [OF w assms(4) refl assms(5,6)] w show ?thesis by (auto simp: warden_ok_def told_ok_def)
qed

text \<open>
  C40: that backups have stopped arriving is never said. Along any run, whatever the node reports, the warden
  raises no concern about a stalled backup: it takes a channel to have moved on only when its last backup is newer,
  and a last backup only gets newer when the count it is compared with has changed.
\<close>

theorem stalled_backups_never_said:
  assumes "new_warden w" "channels_known w" "list_all warden_input_ok is"
  shows "ConcernBackupsStalled \<notin> raised_kinds (wdPublished (foldl (warden_step cfg) w is))"
  using warden.run_inv [OF new_warden_ok [OF assms(1,2)] assms(3)] by (simp add: warden_ok_def)

section \<open>A small instance\<close>

text \<open>One open channel and one tower, which answers; the node is registered with it and then stops sending backups.\<close>

definition sample_config :: warden_config where
  "sample_config = \<lparr>waKind = TowerLND, waManaged = True, waURI = ''forktower.startos:9911'', waCanAttachOnion = False, waHasClient = True,
     waHasCLNClient = False, waLowFeeSatPerVByte = 0, waTeosPubkey = '''', waTeosSlots = 0, waBranch = BranchSQ,
     waSupervisor = \<lparr>suDataDir = '''', suLimitMB = 0\<rparr>\<rparr>"

definition sample_channel :: channel where
  "sample_channel = \<lparr>chID = 1, chLNNodeID = ''n'', chFundingTxID = ''aa'', chFundingVout = 0, chFundingScriptHex = '''', chCapacitySat = 1000,
     chChanType = ChanAnchors, chCSVDelayLocal = None, chCSVDelayRemote = None, chPeerPubkey = '''', chPeerAlias = '''', chOpenHeight = 1,
     chSCID = '''', chCloseState = CloseOpen, chCloseTxID = '''', chCloseHeight = 0, chRelevance = Irrelevant,
     chRelevanceReason = '''', chMirrorFundingOptIn = False, chUpdatedAt = 0\<rparr>"

definition sample_warden :: warden where
  "sample_warden = \<lparr>t_nodes = [], t_channels = [sample_channel], t_htlcs = [], t_spends = [], t_outpoints = [], t_deadlines = [], faults = [],
     t_meta = [], t_split = None, t_blocks = [], t_alerts = [], t_deliveries = [], t_mirror = [], t_towers = [], t_coverage = [],
     wdTowerID = 0, wdLastStatus = TowerStatusOther '''', wdLastConcerns = [], wdSettledSaid = [], wdPrevious = [], wdFirstSeen = 0,
     wdTipHeight = 0, wdPublished = []\<rparr>"

definition sample_tower_answers :: tower_answers where
  "sample_tower_answers = \<lparr>taIdentity = IdentityIs \<lparr>idPubkey = ''02ab'', idListeners = [], idURIs = [''02ab@10.0.3.76:9911'']\<rparr>,
     taChain = Inr \<lparr>tnVersion = ''0.18.5-beta'', tnBlockHeight = 900000, tnSyncedToChain = True\<rparr>, taUsage = (\<lambda>_. None)\<rparr>"

definition sample_client :: "int \<Rightarrow> client_answers" where
  "sample_client n = \<lparr>clTowers = TowersAre [\<lparr>rtPubkey = ''02ab'', rtAddresses = [''10.0.3.76:9911''],
        rtSessions = [\<lparr>sePolicy = PolicyAnchor, seNumBackups = n, seNumPending = 0, seMaxBackups = 1024, seSweepSatPerVByte = 10\<rparr>]\<rparr>],
     clStats = None, clVersion = Inr (ParseVersion ''0.18.5-beta'')\<rparr>"

definition sample_answers :: "client_answers \<Rightarrow> warden_answers" where
  "sample_answers c = \<lparr>anTower = sample_tower_answers, anClient = c, anTeos = PluginNotLoaded\<rparr>"

lemmas sample_defs = sample_config_def sample_channel_def sample_warden_def sample_tower_answers_def sample_client_def sample_answers_def

lemma sample_warden_new: "new_warden sample_warden" "channels_known sample_warden"
  by (simp_all add: new_warden_def channels_known_def sample_warden_def sample_channel_def is_i64_def)

theorem said_is_remembered_witness:
  "ledger (wdPublished (foldl (warden_step sample_config) sample_warden [WardenPass 1000 (sample_answers (sample_client 3))]))
   = Some (set (wdLastConcerns (foldl (warden_step sample_config) sample_warden [WardenPass 1000 (sample_answers (sample_client 3))])))"
  by (rule said_is_remembered [OF sample_warden_new]) simp

theorem stalled_backups_never_said_witness:
  "ConcernBackupsStalled \<notin> raised_kinds (wdPublished (foldl (warden_step sample_config) sample_warden
     [WardenPass 1000 (sample_answers (sample_client 3)), WardenPass 2000 (sample_answers (sample_client 3))]))"
  by (rule stalled_backups_never_said [OF sample_warden_new]) simp

text \<open>The client is switched off: one concern stands.\<close>

definition sample_off :: client_answers where
  "sample_off = (sample_client 3)\<lparr>clTowers := ClientNotActive\<rparr>"

definition sample_obs :: observation_of_tower where
  "sample_obs = \<lparr>obIdentity = \<lparr>idPubkey = ''02ab'', idListeners = [], idURIs = [''02ab@10.0.3.76:9911'']\<rparr>,
     obChain = \<lparr>tnVersion = ''0.18.5-beta'', tnBlockHeight = 900000, tnSyncedToChain = True\<rparr>,
     obHealth = health_of TowerReachable '''', obUsedBytes = 0, obLimitBytes = 0, obDiskKnown = False, obOverDiskLimit = False\<rparr>"

lemma sample_observed: "Observe_tower (waSupervisor sample_config) (anTower (sample_answers c)) = sample_obs"
  by (simp add: Observe_tower_def sample_defs sample_obs_def measureDisk_def Let_def)

lemma sample_uri: "uriOf sample_config sample_obs = ''02ab@forktower.startos:9911''"
proof -
  have "isBareAddress ''02ab@10.0.3.76:9911''" "\<not> isBareAddress ''forktower.startos:9911''" by code_simp+
  then show ?thesis by (simp add: uriOf_def sample_obs_def sample_config_def)
qed

definition sample_tower :: tower where
  "sample_tower = (tower_row TowerLND ''02ab'' ''02ab@forktower.startos:9911'' True 1000 1000)
     \<lparr>twID := 1, twLastOKAt := 1000, twStatus := TowerReachable\<rparr>"

lemma sample_recorded:
  "record_tower sample_config sample_obs 1000 sample_warden
   = (sample_warden\<lparr>t_towers := [sample_tower], wdTowerID := 1, wdFirstSeen := 1000\<rparr>, Inr ())"
proof -
  have "waKind sample_config = TowerLND" "waManaged sample_config" by (simp_all add: sample_config_def)
  moreover have "idPubkey (obIdentity sample_obs) = ''02ab''" "obHealth sample_obs = health_of TowerReachable ''''"
    by (simp_all add: sample_obs_def)
  ultimately show ?thesis
    by (simp add: record_tower_def sample_uri Let_def UpsertTower_def db_call_def sample_warden_def tower_row_def
        place_tower_def next_id_def firstSeenOf_def ListTowers_def db_read_unfold all_towers_def SetTowerStatus_def health_of_def
        update_row_def sample_tower_def)
qed

theorem verdict_is_what_stands_witness:
  "ledger (wdPublished (pass_warden sample_config (sample_answers sample_off) 1000 (foldl (warden_step sample_config) sample_warden [])))
   = Some {''tower.client_off:0''}"
proof -
  let ?w = "announceHealth_warden sample_obs (sample_warden\<lparr>t_towers := [sample_tower], wdTowerID := 1, wdFirstSeen := 1000\<rparr>)"
  let ?C = "checkCoverage sample_config sample_obs sample_off PluginNotLoaded 1000 ?w"
  obtain v msg where c: "?C = (v, [about_tower 1 ConcernClientOff msg], [], True)"
    by (simp add: checkCoverage_def sample_config_def sample_obs_def announceHealth_warden_def warden_publish_def Let_def
        NewMonitor_def monitor_for_def ListChannels_def db_read_unfold open_channels_def all_channels_def sample_warden_def
        sample_channel_def Check_def sample_off_def StalledBackups_def health_of_def)
  have k: "concern_key ConcernClientOff 0 = ''tower.client_off:0''" by code_simp
  have d: "disk_concern i sample_obs = []" for i by (simp add: disk_concern_def NearingDiskLimit_def sample_obs_def)
  have "anClient (sample_answers sample_off) = sample_off" "anTeos (sample_answers sample_off) = PluginNotLoaded"
    by (simp_all add: sample_answers_def)
  then show ?thesis
    using verdict_is_what_stands [OF sample_warden_new, of "[]" 1000 sample_config "sample_answers sample_off"] c k d
    by (simp add: sample_observed sample_recorded about_tower_def)
qed

end
