(* ===== verification/Tower_Scout.thy ===== *)
theory Tower_Scout
  imports Tower_Warden
begin

text \<open>
  The scout: \<open>internal/responder/tower/external.go\<close>. It reads which watchtowers the user's own node backs up to,
  records those that are not run here, says what the arrangement leaves open, and judges whether the node can
  still reach the tower that is run here. A round is a function of the state; what the node answers and
  what a name resolves to come with it, each name resolving to the same addresses for one round. What it
  remembers having said is an association list under the code's keys. Log lines, the ticker and timeouts are left out.
\<close>

section \<open>State\<close>

record scout_config =
  scRunsOwn :: bool
  scAlsoReachableAt :: "string list"

record scout = tower_tables +
  soAnnounced :: "(string \<times> tower_status) list"
  soFirstSeen :: "(string \<times> int) list"
  soPublished :: "bus_event list"

text \<open>What a round asks: the client's towers and version, and the resolver.\<close>

record scout_answers =
  saClient :: client_answers
  saResolve :: "string \<Rightarrow> string list option"

definition new_scout :: "scout \<Rightarrow> bool" where
  "new_scout s \<longleftrightarrow> soAnnounced s = [] \<and> soFirstSeen s = [] \<and> soPublished s = []"

definition scout_publish :: "bus_event \<Rightarrow> scout \<Rightarrow> scout" where
  "scout_publish ev s = s\<lparr>soPublished := soPublished s @ [ev]\<rparr>"

definition said :: "string \<Rightarrow> scout \<Rightarrow> bool" where
  "said key s \<longleftrightarrow> map_of (soAnnounced s) key \<notin> {None, Some (TowerStatusOther '''')}"

definition remember :: "string \<Rightarrow> tower_status \<Rightarrow> scout \<Rightarrow> scout" where
  "remember key st s = s\<lparr>soAnnounced := (key, st) # soAnnounced s\<rparr>"

definition unsay :: "string \<Rightarrow> scout \<Rightarrow> scout" where
  "unsay key s = s\<lparr>soAnnounced := filter (\<lambda>p. fst p \<noteq> key) (soAnnounced s)\<rparr>"

definition keyExternalOnly :: string where "keyExternalOnly = ''external-only''"
definition keyOursNotRegistered :: string where "keyOursNotRegistered = ''ours-not-registered''"
definition keyRegistrationStale :: string where "keyRegistrationStale = ''registration-stale''"
definition keyRegistrationSettled :: string where "keyRegistrationSettled = ''registration-settled''"

section \<open>What the arrangement leaves open\<close>

definition plainCount :: "int \<Rightarrow> string \<Rightarrow> string \<Rightarrow> string" where
  "plainCount n one many = (if n = 1 then one else itoa n @ '' '' @ many)"

definition scout_concern :: "concern \<Rightarrow> string \<Rightarrow> bus_event" where
  "scout_concern k msg = ETowerConcern \<lparr>tcTowerID = 0, tcConcern = k, tcChannelID = 0, tcMessage = msg, tcCleared = False\<rparr>"

definition clearConcern :: "string \<Rightarrow> concern \<Rightarrow> scout \<Rightarrow> scout" where
  "clearConcern key k s = (if \<not> said key s then s else scout_publish (concern_cleared 0 k 0) (unsay key s))"

definition announceOursNotRegistered :: "int \<Rightarrow> scout \<Rightarrow> scout" where
  "announceOursNotRegistered external s =
     (if said keyOursNotRegistered s then s
      else
        (let msg = (if 0 < external
           then ''your node is backing up to '' @ plainCount external ''a watchtower'' ''watchtowers''
             @ '' that Forktower does not run, and not to the one it runs here. Keep the one you have '' @ emdash
             @ '' but a tower somebody else runs watches whichever chain their node follows, which cannot be seen from here and can change without notice. The tower here is the one with a known view of ''
             @ OtherChain @ '', which is the chain your own node cannot see. Open Forktower for the address and the steps.''
           else ''Forktower runs a watchtower here with a view of '' @ OtherChain
             @ '', and your node is not registered with it. That is the one registration this protection depends on, and Forktower cannot make it for you. Open Forktower for the address and the steps.'')
         in scout_publish (scout_concern ConcernOursNotRegistered msg) (remember keyOursNotRegistered TowerReachable s)))"

definition announceExternalOnly :: "int \<Rightarrow> scout \<Rightarrow> scout" where
  "announceExternalOnly count s =
     (if said keyExternalOnly s then s
      else scout_publish (scout_concern ConcernExternalOnly
          (''your channels are protected by '' @ plainCount count ''a watchtower'' ''watchtowers''
           @ '' that Forktower does not run, and this installation runs none of its own. Registering with more than one is sensible, and there is nothing wrong with the towers you have ''
           @ emdash
           @ '' but a tower somebody else runs watches whichever chain their node follows. That cannot be seen from here and can change when they upgrade, so whether ''
           @ OtherChain
           @ '' is being watched at all is not something Forktower can tell you. If one stops there is also nothing here to restart and no settings here to correct, so the remedy would be to register with another.''))
        (remember keyExternalOnly TowerReachable s))"

definition describeShape :: "scout_config \<Rightarrow> int \<Rightarrow> int \<Rightarrow> int \<Rightarrow> scout \<Rightarrow> scout" where
  "describeShape cfg external oursRegistered oursKnown s =
     (if scRunsOwn cfg \<and> oursKnown = 0 then s
      else if scRunsOwn cfg \<and> 0 < oursRegistered then clearConcern keyOursNotRegistered ConcernOursNotRegistered s
      else if scRunsOwn cfg then announceOursNotRegistered external s
      else if 0 < external then announceExternalOnly external s
      else s)"

section \<open>Whether a registration still reaches the tower\<close>

record stale_registration =
  srPubkey :: string
  srHeld :: "string list"
  srWant :: string

text \<open>
  The addresses a client could hold for the tower and still reach it: what is advertised, what it also answers
  on, and what their names lookup to. There is no answer when a name does not lookup.
\<close>

definition named_addresses :: "string list \<Rightarrow> string \<Rightarrow> string list" where
  "named_addresses also want = map hostPortOf (filter (\<lambda>a. a \<noteq> '''') (map trim_space (want # also)))"

definition resolved_address :: "(string \<Rightarrow> string list option) \<Rightarrow> string \<Rightarrow> string list option" where
  "resolved_address lookup addr =
     (case SplitHostPort addr of
        None \<Rightarrow> Some []
      | Some (host, port) \<Rightarrow>
          if ParseIP host \<or> has_suffix (to_lower host) ''.onion'' then Some []
          else
            (case lookup host of
               None \<Rightarrow> None
             | Some addrs \<Rightarrow> if addrs = [] then None else Some (map (\<lambda>a. JoinHostPort a port) addrs)))"

definition addressesFor :: "string list \<Rightarrow> (string \<Rightarrow> string list option) \<Rightarrow> string \<Rightarrow> string set option" where
  "addressesFor also lookup want =
     (let named = named_addresses also want; more = map (resolved_address lookup) named
      in if None \<in> set more then None else Some (set named \<union> set (concat (map the more))))"

definition checkRegistration ::
  "scout_config \<Rightarrow> (string \<Rightarrow> string list option) \<Rightarrow> registered_tower \<Rightarrow> string \<Rightarrow> stale_registration option \<times> registration_verdict" where
  "checkRegistration cfg lookup t uri =
     (if rtSessions t \<noteq> [] then (None, RegistrationGood)
      else
        (let want = hostPortOf uri
         in if want = '''' \<or> rtAddresses t = [] then (None, RegistrationUnknown)
            else
              (case addressesFor (scAlsoReachableAt cfg) lookup want of
                 None \<Rightarrow> (None, RegistrationUnknown)
               | Some reachable \<Rightarrow>
                   if list_ex (\<lambda>a. trim_space a \<in> reachable) (rtAddresses t) then (None, RegistrationGood)
                   else (Some \<lparr>srPubkey = rtPubkey t, srHeld = rtAddresses t, srWant = want\<rparr>, RegistrationStale))))"

fun join_commas :: "string list \<Rightarrow> string" where
  "join_commas [] = ''''"
| "join_commas [x] = x"
| "join_commas (x # xs) = x @ '', '' @ join_commas xs"

definition plainList :: "string list \<Rightarrow> string" where
  "plainList items =
     (if items = [] then '''' else if length items = 1 then hd items
      else join_commas (butlast items) @ '' and '' @ last items)"

definition describeRegistrations :: "stale_registration list \<Rightarrow> bool \<Rightarrow> scout \<Rightarrow> scout" where
  "describeRegistrations stale anyGood s =
     (case stale of
        [] \<Rightarrow>
          if \<not> anyGood then s
          else
            (let s = unsay keyRegistrationStale s
             in if said keyRegistrationSettled s then s
                else scout_publish (concern_cleared 0 ConcernRegistrationStale 0) (remember keyRegistrationSettled TowerReachable s))
      | bad # _ \<Rightarrow>
          if said keyRegistrationStale s then s
          else
            (let s = remember keyRegistrationStale TowerReachable (unsay keyRegistrationSettled s)
             in scout_publish (scout_concern ConcernRegistrationStale
                  (''you registered your node with Forktower's watchtower, and that registration was correct when you made it. The tower has since moved to a different address ''
                   @ emdash @ '' this happens when the app is reinstalled or updated '' @ emdash
                   @ '' and your node still has the old one: '' @ plainList (srHeld bad)
                   @ ''. It is no longer reachable, so no backup is arriving and no channel here is protected. Nothing on your node will tell you this: it retries the old address silently and goes on listing the tower as usable.''
                   @ [newline, newline]
                   @ ''Point it at the address the tower is on now. The old registration will not start working again on its own:''
                   @ [newline, newline] @ ''    lncli wtclient remove '' @ srPubkey bad @ [newline]
                   @ ''    lncli wtclient add '' @ srPubkey bad @ ''@'' @ srWant bad @ [newline, newline]
                   @ ''Your channels are protected again a couple of minutes after the first session is agreed.'')) s))"

section \<open>Recording what somebody else runs\<close>

definition addressOf :: "registered_tower \<Rightarrow> string" where
  "addressOf t = (case rtAddresses t of a # _ \<Rightarrow> rtPubkey t @ ''@'' @ a | [] \<Rightarrow> '''')"

definition announceHealth_scout :: "string \<Rightarrow> int \<Rightarrow> tower_health \<Rightarrow> scout \<Rightarrow> scout" where
  "announceHealth_scout pubkey i h s =
     (let previous = (case map_of (soAnnounced s) pubkey of Some st \<Rightarrow> st | None \<Rightarrow> TowerStatusOther '''')
      in if previous = thStatus h then s
         else scout_publish
           (ETowerHealthChanged \<lparr>hcTowerID = i, hcStatus = thStatus h, hcDetail = thDetail h,
              hcPrevious = (if previous = TowerStatusOther '''' then TowerStatusUnknown else previous)\<rparr>)
           (remember pubkey (thStatus h) s))"

definition external_row :: "int \<Rightarrow> held \<Rightarrow> version \<Rightarrow> int \<Rightarrow> int \<Rightarrow> channel \<Rightarrow> coverage" where
  "external_row i h clientVersion first now ch =
     (let v = Assess \<lparr>ciChanType = chChanType ch,
            ciTowerVersion = \<lparr>veMajor = 0, veMinor = 0, vePatch = 0, veRaw = '''', veKnown = False\<rparr>,
            ciClientVersion = clientVersion, ciSessionPolicies = held_types h, ciRegisteredForSeconds = i64 (now - first),
            ciTowerServing = False, ciTowerNotServingWhy = ''''\<rparr>;
          f = figures h (vdPolicy v)
      in \<lparr>cvChannelID = chID ch, cvTowerID = i, cvCoverable = vdCoverable v, cvReason = verdict.vdReason v, cvNumBackups = pfBackups f,
          cvLastBackupAt = 0, cvSweepFeeSatPerKW = pfFeeSatPerKW f, cvCheckedAt = now\<rparr>)"

definition record_external :: "registered_tower \<Rightarrow> channel list \<Rightarrow> version \<Rightarrow> int \<Rightarrow> scout \<Rightarrow> scout" where
  "record_external t channels clientVersion now s =
     (let known = map_of (soFirstSeen s) (rtPubkey t); first = (case known of Some n \<Rightarrow> n | None \<Rightarrow> now)
      in case UpsertTower (tower_row TowerLND (rtPubkey t) (addressOf t) False first now) s of
           (s, Inl _) \<Rightarrow> s
         | (s, Inr (i, _)) \<Rightarrow>
             (let s = (if known \<noteq> None then s
                       else (let (s, n) = firstSeenOf i now s in s\<lparr>soFirstSeen := (rtPubkey t, n) # soFirstSeen s\<rparr>));
                  h = sessionsByPolicy (Some t);
                  health = (if held_types h = {}
                    then health_of TowerTemporarilyUnreachable ''your node has registered with this tower but has not agreed a session with it yet''
                    else health_of TowerReachable '''')
              in case SetTowerStatus i health now s of
                   (s, Inl _) \<Rightarrow> s
                 | (s, Inr _) \<Rightarrow>
                     (let s = announceHealth_scout (rtPubkey t) i health s;
                          first = (case map_of (soFirstSeen s) (rtPubkey t) of Some n \<Rightarrow> n | None \<Rightarrow> 0)
                      in fst (write_coverage (map (external_row i h clientVersion first now) channels) s))))"

section \<open>A round\<close>

definition managed_towers :: "scout \<Rightarrow> scout \<times> (store_err + (string \<times> string) list)" where
  "managed_towers s =
     (case ListTowers (all_towers\<lparr>tfManagedOnly := True\<rparr>) s of
        (s, Inl e) \<Rightarrow> (s, Inl e)
      | (s, Inr rows) \<Rightarrow> (s, Inr (map (\<lambda>t. (twPubkey t, twURI t)) rows)))"

record survey =
  syExternal :: int
  syOurs :: int
  syStale :: "stale_registration list"
  syAnyGood :: bool

fun survey_towers ::
  "scout_config \<Rightarrow> scout_answers \<Rightarrow> (string \<times> string) list \<Rightarrow> channel list \<Rightarrow> version \<Rightarrow> int \<Rightarrow> registered_tower list
   \<Rightarrow> scout \<times> survey \<Rightarrow> scout \<times> survey" where
  "survey_towers cfg ans ours channels v now [] r = r"
| "survey_towers cfg ans ours channels v now (t # ts) (s, y) =
     survey_towers cfg ans ours channels v now ts
       (if rtPubkey t = '''' then (s, y)
        else
          (case map_of ours (rtPubkey t) of
             Some uri \<Rightarrow>
               (let (bad, verdict) = checkRegistration cfg (saResolve ans) t uri; y = y\<lparr>syOurs := syOurs y + 1\<rparr>
                in (s, case verdict of
                         RegistrationStale \<Rightarrow> y\<lparr>syStale := syStale y @ [the bad]\<rparr>
                       | RegistrationGood \<Rightarrow> y\<lparr>syAnyGood := True\<rparr>
                       | RegistrationUnknown \<Rightarrow> y))
           | None \<Rightarrow> (record_external t channels v now s, y\<lparr>syExternal := syExternal y + 1\<rparr>)))"

definition pass_scout :: "scout_config \<Rightarrow> scout_answers \<Rightarrow> int \<Rightarrow> scout \<Rightarrow> scout" where
  "pass_scout cfg ans now s =
     (case clTowers (saClient ans) of
        ClientNotActive \<Rightarrow> s
      | TowersError _ \<Rightarrow> s
      | TowersAre registered \<Rightarrow>
          (case ListChannels open_channels s of
             (s, Inl _) \<Rightarrow> s
           | (s, Inr channels) \<Rightarrow>
               (case clVersion (saClient ans) of
                  Inl _ \<Rightarrow> s
                | Inr v \<Rightarrow>
                    (case managed_towers s of
                       (s, Inl _) \<Rightarrow> s
                     | (s, Inr ours) \<Rightarrow>
                         (let (s, y) = survey_towers cfg ans ours channels v now registered
                                (s, \<lparr>syExternal = 0, syOurs = 0, syStale = [], syAnyGood = False\<rparr>);
                              s = describeShape cfg (syExternal y) (syOurs y) (int (length ours)) s
                          in describeRegistrations (syStale y) (syAnyGood y) s)))))"

datatype scout_input = ScoutPass int scout_answers | ScoutTables tower_tables

fun scout_step :: "scout_config \<Rightarrow> scout \<Rightarrow> scout_input \<Rightarrow> scout" where
  "scout_step cfg s (ScoutPass now ans) = pass_scout cfg ans now s"
| "scout_step cfg s (ScoutTables t) = tower_tables.extend t (tower_tables.more s)"

end
