(* ===== verification/Api_Readiness.thy ===== *)
theory Api_Readiness
  imports Api_Headline Tower_Facts Tower_Scout Registry Alerter Watcher
begin

text \<open>
  The list of what is in place and what is not: \<open>internal/api/readiness.go\<close>, and the card of a watchtower,
  \<open>internal/api/towers.go\<close>. What the engines report and what the configuration says is the record \<open>server\<close>; what is
  read from the store threads the tables and their script of failing calls. The text of a failing store call is left out.
\<close>

section \<open>What is asked\<close>

datatype platform = PlatformUnknown | PlatformStartOS04 | PlatformStartOS035 | PlatformUmbrel | PlatformOther string

text \<open>An engine that is not wired is \<open>None\<close>; no transports is also what a missing alerter has.\<close>

record server =
  svRunsOwnWatchtower :: bool
  svPlatformNotifications :: bool
  svPlatform :: platform
  svTransportNames :: "string list"
  svWatching :: "bool option"
  svProgress :: "progress option"
  svLN :: "source_health list option"
  svDeadlines :: "dl_status option"
  svBootstrapOffered :: bool
  svChecks :: checks
  svSubversion :: string
  svSFHealth :: health
  svSQHealth :: health
  svSQBehindOnMempool :: bool
  svSQSyncProgress :: rat
  svSQDetail :: string

definition CheckSQBackendDistinct :: string where "CheckSQBackendDistinct = ''sq_backend_distinct''"
definition CheckSQSynced :: string where "CheckSQSynced = ''sq_synced''"
definition CheckSQOnBranch :: string where "CheckSQOnBranch = ''sq_on_branch''"
definition CheckSFEnforcing :: string where "CheckSFEnforcing = ''sf_enforcing''"
definition CheckLNConnected :: string where "CheckLNConnected = ''ln_connected''"
definition CheckWatchingActive :: string where "CheckWatchingActive = ''watching_active''"
definition CheckWatcherProgressing :: string where "CheckWatcherProgressing = ''watcher_progressing''"
definition CheckChannelsInventoried :: string where "CheckChannelsInventoried = ''channels_inventoried''"
definition CheckDeadlineInputs :: string where "CheckDeadlineInputs = ''deadline_inputs_known''"
definition CheckTowerProtection :: string where "CheckTowerProtection = ''tower_protection''"

definition actionSetUpTower :: action where "actionSetUpTower = link ''Set up a watchtower'' ''#towers-card''"

definition post :: "string \<Rightarrow> string \<Rightarrow> action" where
  "post label endpoint = \<lparr>acLabel = label, acEndpoint = endpoint, acHref = ''''\<rparr>"

definition actionTestAlerts :: action where "actionTestAlerts = post ''Send a test alert'' ''/api/v1/alerts/test''"

text \<open>An item that reports a problem, a fact, or something on its way; the last argument is the action.\<close>

definition item :: "string \<Rightarrow> bool \<Rightarrow> string \<Rightarrow> string \<Rightarrow> string \<Rightarrow> action option \<Rightarrow> readiness_item" where
  "item i ok label why detail act =
     \<lparr>riID = i, riOK = ok, riLabel = label, riWhy = why, riDetail = detail, riAction = act, riInformational = False, riSettling = False\<rparr>"

definition fact_only :: "readiness_item \<Rightarrow> readiness_item" where
  "fact_only i = i\<lparr>riInformational := True\<rparr>"

definition on_its_way :: "readiness_item \<Rightarrow> readiness_item" where
  "on_its_way i = i\<lparr>riInformational := True, riSettling := True\<rparr>"

section \<open>The checks that read no table\<close>

definition checkDistinct :: "checks \<Rightarrow> readiness_item" where
  "checkDistinct c =
     (if ckDistinctNodes c \<and> ckDistinctVerified c
      then item CheckSQBackendDistinct True ''Watching two independent views of the chain'' '''' '''' None
      else if \<not> ckDistinctVerified c
      then item CheckSQBackendDistinct False ''Cannot confirm the two chain views are separate''
             ''If they turned out to be the same node, Forktower would see them agree forever and never notice a split.'' (ckDetail c) None
      else item CheckSQBackendDistinct False ''The two chain views are the same node''
             ''Forktower would be comparing a node against itself, so it could never see a split.'' '''' (Some actionFixSetup))"

definition syncDetail :: "rat \<Rightarrow> string" where
  "syncDetail progress =
     (if progress \<le> 0 \<or> 1 \<le> progress then '''' else ''About '' @ itoa (rne (fl (progress * 100))) @ ''% of the way there.'')"

definition labelWatchingOther :: string where "labelWatchingOther = ''Watching the other chain''"

definition checkSQSynced :: "server \<Rightarrow> readiness_item" where
  "checkSQSynced sv =
     (let bad = (\<lambda>label why detail act. item CheckSQSynced False label why detail act)
      in case svSQHealth sv of
           HealthOK \<Rightarrow>
             item CheckSQSynced True labelWatchingOther
               (if svSQBehindOnMempool sv
                then ''Unconfirmed transactions are arriving faster than they can be read, so a spend of one of your channels may not be noticed until the block carrying it arrives. Nothing is missed, and there is nothing to do.''
                else '''') '''' None
         | HealthSyncing \<Rightarrow>
             (let i = bad ''Still catching up with the other chain''
                        ''Forktower cannot see the whole picture yet. This usually finishes on its own.'' (syncDetail (svSQSyncProgress sv)) None
              in if svBootstrapOffered sv
                 then i\<lparr>riWhy := ''Forktower cannot see the other chain until this finishes, which takes about three days on its own. There is a faster way.'',
                        riAction := Some (post ''Start watching sooner'' ''/api/v1/bootstrap/start'')\<rparr>
                 else i)
         | HealthDown \<Rightarrow>
             bad ''Cannot reach the other chain'' ''Forktower would not see a channel being closed on that chain.'' '''' (Some actionFixSetup)
         | HealthOther _ \<Rightarrow>
             bad ''Cannot tell whether the other chain is being watched'' ''Forktower may not see a channel being closed on that chain.'' '''' None
         | _ \<Rightarrow>
             bad ''Having trouble seeing the other chain'' ''Forktower may not see everything happening there.'' (svSQDetail sv) None)"

definition checkSQOnBranch :: "checks \<Rightarrow> readiness_item" where
  "checkSQOnBranch c =
     (if ckOnExpectedBranch c then item CheckSQOnBranch True ''The other chain is the one it should be'' '''' '''' None
      else if ckBranchCheckedAt c = 0
      then fact_only (item CheckSQOnBranch False ''Still checking which chain the second view follows''
             ''This runs within a few minutes of starting up, and again as the chains grow. Nothing for you to do.'' '''' None)
      else item CheckSQOnBranch False ''The second view is following the wrong chain''
             ''Forktower paused watching, because reporting calmly about the wrong chain would look like safety.'' (ckDetail c)
             (Some actionFixSetup))"

definition enforcingClients :: "string list" where "enforcingClients = [''knots'']"

definition enforcesNewRules :: "string \<Rightarrow> bool" where
  "enforcesNewRules subversion \<longleftrightarrow> list_ex (\<lambda>name. str_contains (to_lower subversion) name) enforcingClients"

definition checkSFEnforcing :: "string \<Rightarrow> health \<Rightarrow> readiness_item" where
  "checkSFEnforcing subversion h =
     fact_only
      (if subversion = ''''
       then (let reason = (if h = HealthDown then ''Forktower cannot reach your node at the moment.''
                           else ''Forktower could not ask your node which software it runs.'')
             in item CheckSFEnforcing False ''Not sure which rules your own node follows''
                  (''Forktower watches both chains either way, so you are covered. '' @ reason) reason None)
       else if enforcesNewRules subversion
       then item CheckSFEnforcing True ''Your node most likely follows the new rules''
              ''If the network splits, your node would be on the side enforcing them. Forktower watches the other side for you.''
              ''Based on how your node describes itself.'' None
       else item CheckSFEnforcing True ''Your node most likely follows the existing rules''
              ''If the network splits, Forktower watches the other side for you either way.''
              ''Based on how your node describes itself.'' None)"

definition checkWatchingActive :: "bool option \<Rightarrow> readiness_item" where
  "checkWatchingActive active =
     (if active \<noteq> Some False then item CheckWatchingActive True labelWatchingOther '''' '''' None
      else item CheckWatchingActive False ''You have turned off watching the other chain''
             ''Nothing on the other chain is being checked. Forktower is still running, so everything else here will look normal.'' ''''
             (Some (post ''Start watching again'' ''/api/v1/watch/resume'')))"

definition checkWatcherProgressing :: "progress option \<Rightarrow> readiness_item" where
  "checkWatcherProgressing pr =
     (case pr of
        None \<Rightarrow> fact_only (item CheckWatcherProgressing False ''Not reading the other chain yet'' '''' '''' None)
      | Some p \<Rightarrow>
          if prStalled p
          then item CheckWatcherProgressing False ''Stopped reading the other chain''
                 ''Forktower cannot get past a block on the other chain, so nothing new there is being checked. It is still running, which is why this needs saying.''
                 (prWhy p) None
          else if prHeight p = 0
          then fact_only (item CheckWatcherProgressing False ''Has not read the other chain yet''
                 ''Forktower is waiting for its first block from the other chain.'' '''' None)
          else if Rescanning p
          then item CheckWatcherProgressing True ''Catching up on the other chain''
                 ''Forktower is re-reading earlier blocks. It is watching for new ones at the same time.'' '''' None
          else item CheckWatcherProgressing True ''Reading the other chain'' '''' '''' None)"

definition plural :: "nat \<Rightarrow> string \<Rightarrow> string \<Rightarrow> string" where
  "plural n one many = (if n = 1 then one else many)"

definition checkDeadlineInputs :: "dl_status option \<Rightarrow> readiness_item" where
  "checkDeadlineInputs st =
     (case st of
        None \<Rightarrow>
          fact_only (item CheckDeadlineInputs False ''Not tracking any countdowns yet''
            ''Once a channel of yours is closed on the other chain, Forktower works out how long you have to respond.'' '''' None)
      | Some s \<Rightarrow>
          if stCounting s = 0
          then item CheckDeadlineInputs True ''No countdown is running'' ''Nothing has closed any of your channels on the other chain.'' '''' None
          else if InputsKnown s
          then item CheckDeadlineInputs True ''Counting down on real numbers''
                 ''Forktower knows the actual delay on every channel it is counting, so the time it shows you is the time you have.'' '''' None
          else fact_only (item CheckDeadlineInputs False ''Counting down on an assumed delay''
                 (''Your Lightning node did not say how long the delay on ''
                  @ plural (length (stAssumedChannels s)) ''one of your channels'' ''some of your channels''
                  @ '' is, so Forktower is counting from a cautious floor instead. The countdown is real; it may simply be shorter than the truth. Reconnecting your Lightning node usually fixes it.'')
                 '''' None))"

definition LNStaleAfter :: int where "LNStaleAfter = 300"

definition noLightningConfigured :: readiness_item where
  "noLightningConfigured = fact_only (item CheckLNConnected False ''No Lightning node connected''
     ''Forktower is watching the chains, which is what matters first. Connect your Lightning node and it will also track which of your channels are exposed.'' '''' None)"

definition firstNonBlank :: "string \<Rightarrow> string \<Rightarrow> string" where
  "firstNonBlank a b = (if a \<noteq> '''' then a else b)"

definition humanList :: "string list \<Rightarrow> string" where
  "humanList items =
     (if items = [] then '''' else if length items = 1 then hd items
      else join_commas (butlast items) @ '' and '' @ last items)"

definition never_read :: "source_health \<Rightarrow> bool" where
  "never_read h \<longleftrightarrow> shLastSuccessAt h = 0 \<and> shLastError h = ''''"

definition never_answered :: "source_health \<Rightarrow> bool" where
  "never_answered h \<longleftrightarrow> shLastSuccessAt h = 0 \<and> shLastError h \<noteq> ''''"

definition gone_quiet :: "int \<Rightarrow> source_health \<Rightarrow> bool" where
  "gone_quiet now h \<longleftrightarrow> shLastSuccessAt h \<noteq> 0 \<and> Stale now LNStaleAfter h"

definition checkLNConnected :: "int \<Rightarrow> source_health list option \<Rightarrow> readiness_item" where
  "checkLNConnected now health =
     (case health of
        None \<Rightarrow> noLightningConfigured
      | Some hs \<Rightarrow>
          if hs = [] then noLightningConfigured
          else
            (let connecting = map shName (filter never_read hs); refused = map shName (filter never_answered hs);
                 quiet = map shName (filter (gone_quiet now) hs);
                 reason = fold (\<lambda>h r. if never_answered h \<or> gone_quiet now h then firstNonBlank r (shLastError h) else r) hs ''''
             in if refused \<noteq> []
                then item CheckLNConnected False ''Cannot reach your Lightning node''
                       (''Forktower has not managed to read '' @ humanList refused
                        @ '' yet, so it does not know which of your channels exist. It is still watching both chains in the meantime.'') reason None
                else if quiet = [] \<and> connecting \<noteq> []
                then on_its_way (item CheckLNConnected False ''Reading your Lightning node''
                       (''Forktower is asking '' @ humanList connecting
                        @ '' which channels you have. Nothing to do '' @ emdash @ '' this finishes on its own.'') '''' None)
                else if quiet = []
                then item CheckLNConnected True ''Reading your channels''
                       ''Forktower can see your Lightning node, so it knows which of your channels would be exposed on the other chain.'' '''' None
                else item CheckLNConnected False ''Cannot read your Lightning node''
                       (''Forktower is still watching the chains, and it is still watching the channels it already knew about ''
                        @ emdash @ '' but it cannot see '' @ humanList quiet
                        @ '', so a channel opened or closed since then may be missing.'') '''' None))"

section \<open>The checks that read the store\<close>

fun alertsSetUpByHand :: "platform \<Rightarrow> bool" where
  "alertsSetUpByHand PlatformUmbrel = False"
| "alertsSetUpByHand _ = True"

definition transportHealth :: "'x state_db_scheme \<Rightarrow> 'x state_db_scheme \<times> bool \<times> string list" where
  "transportHealth d =
     (case GetMetaInt64 MetaLastSelfTestAt 0 d of
        (d, Inl _) \<Rightarrow> (d, False, [])
      | (d, Inr tested) \<Rightarrow>
          if tested = 0 then (d, False, [])
          else
            (case ListAlerts True 0 d of
               (d, Inl _) \<Rightarrow> (d, True, [])
             | (d, Inr rows) \<Rightarrow> (d, True, map alSubject (filter (\<lambda>a. alKind a = KindTransportFailing) rows))))"

definition checkAlertTransports :: "server \<Rightarrow> 'x state_db_scheme \<Rightarrow> 'x state_db_scheme \<times> readiness_item" where
  "checkAlertTransports sv d =
     (let none = (svTransportNames sv = [])
      in if none \<and> svPlatformNotifications sv
         then (d, item CheckAlertTransports True ''Alerts reach you through this device's own notifications'' '''' '''' None)
         else if none \<and> \<not> alertsSetUpByHand (svPlatform sv)
         then (d, fact_only (item CheckAlertTransports False ''Alerts appear here and nowhere else''
                (''This platform gives an app no settings screen, so Forktower has no way to send you anything. Everything still appears on this page ''
                 @ emdash @ '' it just cannot come and find you, so it is worth looking in from time to time.'')
                ''If you are comfortable with a terminal, setting FORKTOWER_NTFY_URL or FORKTOWER_WEBHOOK_URL in the app's docker-compose.yml and restarting will change that.''
                None))
         else if none
         then (d, item CheckAlertTransports False ''No way to reach you''
                ''If something goes wrong, you would only find out by looking at this page.'' '''' (Some actionSetUpAlerts))
         else
           (let (d, tested, failing) = transportHealth d
            in (d, if \<not> tested
                   then fact_only (item CheckAlertTransports False ''Notifications not tested yet''
                          ''Forktower will send itself a test message shortly. Nothing for you to do.'' '''' None)
                   else if failing = [] then item CheckAlertTransports True ''Alerts can reach you'' '''' '''' None
                   else item CheckAlertTransports False ''Alerts are not getting through''
                          ''If something goes wrong we would have no way to tell you.''
                          (''The last test to '' @ humanList failing @ '' failed.'') (Some actionTestAlerts))))"

definition countPhrase :: "nat \<Rightarrow> string \<Rightarrow> string" where
  "countPhrase n noun = (if n = 1 then ''one '' @ noun else itoa (int n) @ '' '' @ noun @ ''s'')"

definition checkChannelsInventoried :: "'x db_scheme \<Rightarrow> 'x db_scheme \<times> readiness_item" where
  "checkChannelsInventoried d =
     (case ListChannels all_channels d of
        (d, Inl _) \<Rightarrow>
          (d, item CheckChannelsInventoried False ''Cannot tell which channels you have''
                ''Forktower could not read its own record of your channels. Open Details for what it said.'' '''' None)
      | (d, Inr channels) \<Rightarrow>
          (d, if channels = []
              then fact_only (item CheckChannelsInventoried False ''No channels found yet''
                     ''Forktower has not seen any channels to protect. If you have some, check that your Lightning node is connected.'' '''' None)
              else
                (let watched = length (filter (\<lambda>c. chRelevance c \<noteq> Irrelevant) channels)
                 in if watched = 0
                    then item CheckChannelsInventoried True ''None of your channels are exposed''
                           (''Forktower knows about '' @ countPhrase (length channels) ''channel'' @ '', and none of them exist on the other chain.'') '''' None
                    else item CheckChannelsInventoried True ''Watching your channels''
                           (''Forktower is watching '' @ countPhrase watched ''channel'' @ '' on the other chain.'') '''' None)))"

section \<open>Whether anything would answer a breach\<close>

definition keyOursAlert :: string where
  "keyOursAlert = KindTowerNotProtecting @ '':ours-not-registered''"

definition stillUnregisteredWithOurs :: "'x state_db_scheme \<Rightarrow> 'x state_db_scheme \<times> bool" where
  "stillUnregisteredWithOurs d =
     (case ListAlerts False 0 d of
        (d, Inl _) \<Rightarrow> (d, False)
      | (d, Inr rows) \<Rightarrow> (d, list_ex (\<lambda>a. alDedupKey a = keyOursAlert \<and> alTier a \<noteq> TierResolved) rows))"

definition every_coverage :: coverage_filter where
  "every_coverage = \<lparr>cgChannelID = 0, cgTowerID = 0, cgUncoverableOnly = False\<rparr>"

definition staleTowerCrowdingOut :: "tower list \<Rightarrow> 'x tower_tables_scheme \<Rightarrow> 'x tower_tables_scheme \<times> tower option" where
  "staleTowerCrowdingOut towers d =
     (case ListCoverage every_coverage d of
        (d, Inl _) \<Rightarrow> (d, None)
      | (d, Inr rows) \<Rightarrow>
          (d, find (\<lambda>t. \<not> twManaged t \<and> list_ex (\<lambda>c. cvCoverable c \<and> cvTowerID c = twID t) rows \<and> twStatus t = TowerUnreachable) towers))"

definition notUsingOurs :: "tower list \<Rightarrow> 'x tower_tables_scheme \<Rightarrow> 'x tower_tables_scheme \<times> bool" where
  "notUsingOurs towers d =
     (case ListCoverage every_coverage d of
        (d, Inl _) \<Rightarrow> (d, False)
      | (d, Inr rows) \<Rightarrow>
          (let judged = filter (\<lambda>c. list_ex (\<lambda>t. twManaged t \<and> twID t = cvTowerID c) towers) rows
           in (d, judged \<noteq> [] \<and> \<not> list_ex cvCoverable judged)))"

fun removeTowerLine :: "platform \<Rightarrow> string \<Rightarrow> string" where
  "removeTowerLine PlatformStartOS04 pubkey =
     ''sudo start-cli package attach lnd lncli --network=mainnet --rpcserver=127.0.0.1:10009 wtclient remove '' @ pubkey"
| "removeTowerLine PlatformStartOS035 pubkey =
     ''sudo podman exec lnd.embassy lncli --network=mainnet --rpcserver=lnd.embassy:10009 wtclient remove '' @ pubkey"
| "removeTowerLine PlatformUmbrel pubkey = ''sudo docker exec lightning_lnd_1 lncli wtclient remove '' @ pubkey"
| "removeTowerLine _ pubkey = ''lncli wtclient remove '' @ pubkey"

definition removeTowerCommand :: "platform \<Rightarrow> tower \<Rightarrow> string" where
  "removeTowerCommand p stale =
     ''Connect to your server over SSH and run this one line:'' @ [newline, newline] @ ''    '' @ removeTowerLine p (twPubkey stale)
     @ [newline, newline]
     @ ''It will ask for your password. Nothing appears on screen as you type it, which is normal '' @ emdash
     @ '' type it and press enter.'' @ [newline, newline]
     @ ''A session with Forktower's watchtower should appear within a few minutes, and this message will go away on its own. If you would rather not do this yourself, post on the forum at paulscode.com and Paul will help you through it.''"

definition crowdedOutWhy :: string where
  "crowdedOutWhy = ''Your node is still registered with a watchtower it can no longer reach, and it keeps retrying that one instead of agreeing with Forktower's. Until the old registration is removed, none of your channels are backed up to any watchtower, and a breach on ''
     @ OtherChain @ '' would go unanswered. Removing it from your node's own settings screen will not work '' @ emdash
     @ '' that screen can only add watchtowers, not remove them.''"

definition still_starting :: readiness_item where
  "still_starting = on_its_way (item CheckTowerProtection False ''Your watchtower is still starting''
     (''Forktower runs one here, to watch '' @ OtherChain
      @ '' for you. It is not ready yet, and there is nothing for you to do until it is '' @ emdash @ '' this finishes on its own.'') '''' None)"

definition not_using_ours :: "server \<Rightarrow> tower list \<Rightarrow> 'x tower_tables_scheme \<Rightarrow> 'x tower_tables_scheme \<times> readiness_item" where
  "not_using_ours sv towers d =
     (case stillUnregisteredWithOurs d of
        (d, True) \<Rightarrow>
          (d, fact_only (item CheckTowerProtection False ''Your node is not registered with Forktower's watchtower''
                (''Whatever else you have registered watches whichever chain its operator's node follows, which cannot be seen from here. The tower Forktower runs is the one with a known view of ''
                 @ OtherChain @ '' '' @ emdash @ '' the chain your own node cannot see.'') '''' (Some actionSetUpTower)))
      | (d, False) \<Rightarrow>
          (case staleTowerCrowdingOut towers d of
             (d, Some stale) \<Rightarrow>
               (d, fact_only (item CheckTowerProtection False ''A watchtower your node cannot reach is blocking this one''
                     crowdedOutWhy (removeTowerCommand (svPlatform sv) stale) (Some actionSetUpTower)))
           | (d, None) \<Rightarrow>
               (d, on_its_way (item CheckTowerProtection False ''Forktower's watchtower is not covering your channels yet''
                     (''Your node is registered with it and has not yet agreed a session, which it does on its own. Until it has, a breach on ''
                      @ OtherChain @ '' would not be answered. Nothing for you to do.'') '''' None))))"

definition towers_working :: "tower list \<Rightarrow> 'x tower_tables_scheme \<Rightarrow> 'x tower_tables_scheme \<times> readiness_item" where
  "towers_working towers d =
     (let (d, uncovered) = ListCoverage (every_coverage\<lparr>cgUncoverableOnly := True\<rparr>) d;
          working = list_ex (\<lambda>t. twStatus t = TowerReachable) towers;
          settling = list_ex (\<lambda>t. twStatus t = TowerTemporarilyUnreachable) towers;
          detail = (case towers of t # _ \<Rightarrow> twStatusDetail t | [] \<Rightarrow> '''')
      in (d, case uncovered of
               Inr (c # _) \<Rightarrow>
                 fact_only (item CheckTowerProtection False ''Some channels are not covered by a watchtower''
                   ''A breach against those channels would not be answered.'' (cvReason c) None)
             | _ \<Rightarrow>
                 if working then item CheckTowerProtection True ''A watchtower is ready to answer a breach'' '''' '''' None
                 else if settling
                 then on_its_way (item CheckTowerProtection False ''Your watchtower is not watching yet''
                        (''It is running and answering. It cannot see '' @ OtherChain
                         @ '' yet, so it could not act on a breach there. This finishes on its own.'') detail None)
                 else fact_only (item CheckTowerProtection False ''Your watchtower is not answering''
                        (''While it is down, a breach on '' @ OtherChain @ '' would not be answered.'') detail None)))"

definition checkTowerProtection :: "server \<Rightarrow> 'x tower_tables_scheme \<Rightarrow> 'x tower_tables_scheme \<times> readiness_item" where
  "checkTowerProtection sv d =
     (case ListTowers all_towers d of
        (d, Inl _) \<Rightarrow>
          (d, fact_only (item CheckTowerProtection False ''Cannot tell whether a watchtower is protecting you''
                ''Forktower could not read its own record of them.'' '''' None))
      | (d, Inr towers) \<Rightarrow>
          if towers = []
          then (d, if svRunsOwnWatchtower sv then still_starting
                   else fact_only (item CheckTowerProtection False ''No watchtower is protecting your channels''
                          (''If somebody publishes an old channel state on '' @ OtherChain
                           @ '', nothing would answer it unless your own node happened to be watching that chain '' @ emdash
                           @ '' and it is not.'') '''' (Some actionSetUpTower)))
          else if svRunsOwnWatchtower sv \<and> \<not> list_ex twManaged towers then (d, still_starting)
          else if svRunsOwnWatchtower sv \<and> list_ex (\<lambda>t. twManaged t \<and> twStatus t = TowerReachable) towers
          then (case notUsingOurs towers d of
                  (d, True) \<Rightarrow> not_using_ours sv towers d
                | (d, False) \<Rightarrow> towers_working towers d)
          else towers_working towers d)"

definition Readiness :: "server \<Rightarrow> int \<Rightarrow> 'x tower_tables_scheme \<Rightarrow> 'x tower_tables_scheme \<times> readiness_item list" where
  "Readiness sv now d =
     (let (d, transports) = checkAlertTransports sv d;
          (d, channels) = checkChannelsInventoried d;
          (d, tower) = checkTowerProtection sv d
      in (d, [checkDistinct (svChecks sv), checkSQSynced sv, checkSQOnBranch (svChecks sv),
              checkSFEnforcing (svSubversion sv) (svSFHealth sv), transports, checkWatchingActive (svWatching sv),
              checkWatcherProgressing (svProgress sv), checkLNConnected now (svLN sv), channels,
              checkDeadlineInputs (svDeadlines sv), tower]))"

section \<open>The card of a watchtower\<close>

definition unreachableSummary :: "tower \<Rightarrow> string" where
  "unreachableSummary t =
     (if twStatusDetail t \<noteq> '''' then ''This tower is not protecting anything: '' @ twStatusDetail t
      else if twManaged t then ''This tower is not answering, so nothing is being backed up to it.''
      else ''This tower is not answering. It is not one Forktower runs, so it cannot be restarted from here.'')"

definition settlingSummary :: "tower \<Rightarrow> string" where
  "settlingSummary t = (if twStatusDetail t \<noteq> '''' then twStatusDetail t else ''This tower is starting up.'')"

definition reachableDisplay :: "nat \<Rightarrow> nat \<Rightarrow> string \<times> string" where
  "reachableDisplay covered uncovered =
     (if covered = 0 \<and> uncovered = 0
      then (''settling'', ''This tower is running and ready. Nothing is registered with it yet '' @ emdash
              @ '' follow the steps below to point your Lightning node at it.'')
      else if covered = 0
      then (''not protecting'', ''This tower is running, but none of your channels are backed up to it. A tower that is reachable and receiving nothing protects nothing.'')
      else if 0 < uncovered
      then (''not protecting'', itoa (int uncovered) @ '' '' @ plural uncovered ''channel is'' ''channels are''
              @ '' not protected by this tower. Open the details below to see why.'')
      else (''protecting'', ''This tower is watching '' @ OtherChain @ '' for a revoked commitment against '' @ itoa (int covered)
              @ '' of your channels.''))"

definition towerDisplay :: "tower \<Rightarrow> nat \<Rightarrow> nat \<Rightarrow> string \<times> string" where
  "towerDisplay t covered uncovered =
     (case twStatus t of
        TowerStatusUnknown \<Rightarrow> (''unknown'', ''Forktower has not managed to ask this tower how it is doing yet.'')
      | TowerUnreachable \<Rightarrow> (''not protecting'', unreachableSummary t)
      | TowerTemporarilyUnreachable \<Rightarrow> (''settling'', settlingSummary t)
      | TowerSubscriptionError \<Rightarrow>
          (''not protecting'', ''This tower is no longer accepting backups: the subscription has run out. Re-register with it to start a new one.'')
      | TowerMisbehaving \<Rightarrow>
          (''not protecting'', ''This tower returned a receipt that does not check out, which is proof it is not behaving as it should. Do not rely on it.'')
      | TowerReachable \<Rightarrow> reachableDisplay covered uncovered
      | TowerStatusOther _ \<Rightarrow> (''unknown'', twStatusDetail t))"

definition tower_card :: "tower \<Rightarrow> coverage list \<Rightarrow> string \<times> string" where
  "tower_card t rows = towerDisplay t (length (filter cvCoverable rows)) (length (filter (\<lambda>c. \<not> cvCoverable c) rows))"

end
