(* ===== verification/Spec2Isabelle.thy ===== *)
theory Spec2Isabelle
  imports Sentinel_Logic Fork_Point Bus Deadline_Engine Watcher_Facts Registry_Facts Mirror_Facts Words Alerter_Delivery Sentinel_Restart Api_Auth Api_Headline Tower_Facts Tower_Scout Api_Readiness
begin

text \<open>
  A verification library for Forktower, a daemon that protects Lightning channels during a chain split.

  \<^bold>\<open>The program and how its parts interact.\<close> The user's own node follows one chain (SF, the chain of the
  rules it enforces); Forktower keeps a second node on the other chain (SQ) and watches both. The
  \<^emph>\<open>sentinel\<close> (\<open>internal/sentinel\<close>) compares the two views tick by tick, decides the phase of the split,
  records it in the store and publishes the changes on the \<^emph>\<open>bus\<close> (\<open>internal/bus\<close>). The \<^emph>\<open>registry\<close>
  (\<open>internal/registry\<close>) polls the user's Lightning nodes and decides which channels are exposed on the
  other chain. The \<^emph>\<open>watcher\<close> (\<open>internal/watcher\<close>) reads the blocks of that chain, records every spend of a
  watched outpoint and follows the outputs of what spent it. The \<^emph>\<open>deadline engine\<close> (\<open>internal/deadline\<close>)
  turns a recorded close into countdowns, moves them on with every block and announces what is about to
  be lost. The \<^emph>\<open>mirror responder\<close> (\<open>internal/responder/mirror\<close>) copies the user's own transactions to the chain
  they are missing from, the \<^emph>\<open>tower responder\<close> (\<open>internal/responder/tower\<close>) asks whether a watchtower covers a
  channel, the \<^emph>\<open>alerter\<close> (\<open>internal/alert\<close>) turns events into alerts, keeps them on record and hands them to
  transports, and the \<^emph>\<open>API\<close> (\<open>internal/api\<close>) lets the user read the state and act. All of them share one
  \<^emph>\<open>store\<close> (\<open>internal/store\<close>), and each is one goroutine: here each is a function, or a step relation, from
  what it is told to a new state.

  \<^bold>\<open>What models what.\<close> Enumerations are datatypes, structs records, integers of a fixed width
  either words or \<open>int\<close> with the wrap-around written out (\<open>i32\<close>, \<open>i64\<close> of \<open>Go_Base\<close>), errors the left side of a sum,
  pointers that may be nil options, tables lists of rows. Names are those of the source.

  \<^item> \<open>Go_Base\<close>, \<open>Go_Float\<close>: what all share. Go's integers, decimal printing and reading, byte strings, doubles with
    rounding to 53 bits; the locale \<open>keyed_table\<close> (a table whose rows have distinct ids and keys, and what
    inserting and updating keep of it) and the locales \<open>machine\<close> and \<open>ordered_machine\<close> (an operation that keeps
    an invariant, and moves a state forward in an order, keeps it along every run).
  \<^item> \<open>Chain_View\<close>: the types of \<open>internal/chainview\<close> and \<open>verify.go\<close>, the checks that the two views are on the right network,
    are two nodes and follow the chains they should.
  \<^item> \<open>Cadence\<close>, \<open>Fork_Point\<close>, \<open>Sentinel_Logic\<close>, \<open>Sentinel\<close>: the four files of \<open>internal/sentinel\<close>. \<open>Sentinel_Logic\<close> has
    every function of \<open>logic.go\<close> up to \<open>Step\<close>; \<open>Sentinel\<close> has the shell of \<open>sentinel.go\<close>: \<open>Load\<close>, \<open>observe\<close>, \<open>tick\<close>, what
    \<open>apply_effect\<close> writes and announces, the check of the branch. \<open>Sentinel_Facts\<close> refines the shell to the
    logic, \<open>Sentinel_Restart\<close> shows that what is written is enough to go on from.
  \<^item> \<open>Bus\<close>: \<open>bus.go\<close> operation by operation, what each subscriber finds in its channel as an inbox the bus refines, and
    the deliveries of publishers that interleave as a small-step machine.
  \<^item> \<open>Store_Db\<close>, \<open>Store_Spends\<close>, \<open>Store_Channels\<close>, \<open>Store_Deadlines\<close>, \<open>Store_State\<close>, \<open>Store_Towers\<close>, and the table part of
    \<open>Mirror\<close>: the files of \<open>internal/store\<close>, one operation per statement. A script of failing calls
    is part of the state, so that every statement can fail wherever the code handles it.
  \<^item> \<open>Deadline_Compute\<close>, \<open>Deadline_Engine\<close>: \<open>compute.go\<close> and \<open>deadline.go\<close>; \<open>handle\<close> is one event of the engine.
  \<^item> \<open>Tx_Classify\<close>, \<open>Watch_Set\<close>, \<open>Watcher\<close>: \<open>classify.go\<close>, \<open>secondorder.go\<close>; \<open>watchset.go\<close>, \<open>scan.go\<close>; \<open>watcher.go\<close>, \<open>reorg.go\<close>,
    \<open>rescan.go\<close>, \<open>mempool.go\<close>; \<open>turn\<close> is one round of the loop. \<open>Watcher_Runs\<close> and \<open>Watcher_Facts\<close> hold what is
    true of it along every run, and what each operation does when the store answers.
  \<^item> \<open>Relevance\<close>, \<open>Registry\<close>, \<open>Registry_Facts\<close>: \<open>relevance.go\<close>, \<open>scid.go\<close>; \<open>registry.go\<close>, \<open>types.go\<close>; their invariants.
  \<^item> \<open>Mirror_Policy\<close>, \<open>Mirror\<close>, \<open>Mirror_Facts\<close>: \<open>policy.go\<close>, \<open>broadcast.go\<close>; \<open>lift.go\<close>, \<open>watch.go\<close>, \<open>mirror.go\<close>, \<open>runner.go\<close> as the
    step relation \<open>mirror_step\<close> of two runners on one store; its invariant and the end of every copy.
  \<^item> \<open>Alert_Policy\<close>, \<open>Alerter\<close>, \<open>Alerter_Facts\<close>, \<open>Alerter_Delivery\<close>: \<open>policy.go\<close>, \<open>tower.go\<close>; \<open>alerter.go\<close>, \<open>sweep.go\<close>, \<open>mirror.go\<close>,
    \<open>selftest.go\<close> as the machine \<open>alerter_step\<close>, whose deliveries run one sender per transport under any schedule; what is
    recorded, repeated, delivered and missed.
  \<^item> \<open>Api_Actions\<close>, \<open>Api_Auth\<close>, \<open>Api_Headline\<close>, \<open>Api_Readiness\<close>: the requests that change something, who may make them,
    what the user is told first, and the list of what is in place (\<open>readiness.go\<close>, \<open>towers.go\<close>).
  \<^item> \<open>Net_Addr\<close>, \<open>Tower_Coverage\<close>, \<open>Tower_Monitor\<close>, \<open>Tower_Warden\<close>, \<open>Tower_Scout\<close>, \<open>Tower_Facts\<close>: the parts of Go's \<open>net\<close> that
    are used; the verdict of \<open>coverage.go\<close>; \<open>supervise.go\<close>, \<open>monitor.go\<close>, \<open>teosmonitor.go\<close>; \<open>warden.go\<close> as the machine
    \<open>warden_step\<close>; \<open>external.go\<close> as \<open>scout_step\<close>; what a warden has said, what stands, and what it never says.
  \<^item> \<open>Words\<close>: the vocabulary and the removal of credentials.
  \<^item> This theory: the watcher and the deadline engine on one store.

  \<^bold>\<open>What the lemmas show.\<close> Each theory has, after its definitions, the well-formedness of its state and that
  every operation keeps it (\<open>keyed_table\<close> for the tables, \<open>spends_ok\<close>, \<open>channels_ok\<close>, \<open>engine_ok\<close>, \<open>bus_ok\<close>,
  \<open>flight_inv\<close>, \<open>recorded\<close>), what each operation does on its branches, and then the properties:
  a split is declared on evidence and never forgotten; the shell announces what the logic decided, and a
  restart resumes it; the watcher's record is append-only and its mark never passes a block it could
  not read; countdowns only move forward and a loss is announced only when it happened; a transaction is
  copied only where the policy allows it, and every copy is settled; what is announced is on record
  and what is wrong is announced even when its event was lost; only a password opens a guarded dashboard. Several properties
  state behaviour the comments of the source do not promise or contradict: an outcome that is never taken up, a
  warning that is never withdrawn, countdowns ended by a reorganisation of one block, a recovery that hides the next
  failure.

  \<^bold>\<open>Bounds and termination.\<close> The definitions are total and nothing is cut off that the code would go on
  with. Where a loop of the code is bounded by a constant the constant is the code's: the walk back from two tips
  (\<open>DefaultMaxAncestorWalk\<close>, 20000 headers, and 10000 cached ones), the walk of the watcher (its configured depth of a
  reorganisation), the passes over a range that has not settled (\<open>maxSamePasses\<close>, 8) and the blocks of one slice of it
  (\<open>rescanChunk\<close>, 25), the attempts at a copy (\<open>MaxAttempts\<close>, 40), the queue of deliveries (64), the lists of
  alerts, spends and copies (100, 1000, 500), the ancestry a view reports (100), the sign-ins of a minute (5). Recursion that
  is not structural has a measure. Loops that wait for the next event are sequences of events, of any length.

  \<^bold>\<open>What is an argument.\<close> What Bitcoin nodes, Lightning nodes, transports and the user send, in the form the code receives
  it; parsing and printing of hashes, transaction ids and serialisation of transactions (btcd); bcrypt and
  random tokens; the answers of the chain backends may differ from call to call. Theorems hold for
  every such argument unless a hypothesis restricts it.

  \<^bold>\<open>Not modelled.\<close> Connections, their formats and their retries: the Bitcoin RPC and ZeroMQ view
  (\<open>chainview/bitcoindview\<close>), the Lightning adapters (\<open>registry/lnd\<close>, \<open>registry/cln\<close>), the clients of watchtowers, the transports
  (\<open>alert/ntfy.go\<close>, \<open>smtp.go\<close>, \<open>webhook.go\<close>). Files and start-up: reading the configuration, the chain snapshot
  (\<open>bootstrap\<close>), schema migrations and rotation of the database, wiring (\<open>app\<close>, \<open>cmd\<close>). Pages that only list stored
  rows. Goroutine scheduling inside a component, other than among the senders of one delivery and the publishers on the
  bus, timers, cancellation and log lines.
\<close>

section \<open>The watcher and the deadline engine on one store\<close>

text \<open>The engine on the tables another component has written, and what its writing leaves alone.\<close>

definition on_tables :: "'x db_scheme \<Rightarrow> engine \<Rightarrow> engine" where
  "on_tables d e = e\<lparr>t_nodes := t_nodes d, t_channels := t_channels d, t_htlcs := t_htlcs d, t_spends := t_spends d,
     t_outpoints := t_outpoints d, t_deadlines := t_deadlines d, faults := faults d\<rparr>"

definition steady :: "watcher \<Rightarrow> watcher \<Rightarrow> bool" where
  "steady w w' \<longleftrightarrow> faults w = [] \<longrightarrow> faults w' = [] \<and> t_deadlines w' = t_deadlines w"

lemma steady_refl [simp]: "steady w w"
  by (simp add: steady_def)

lemma steady_trans: "steady u v \<Longrightarrow> steady v w \<Longrightarrow> steady u w"
  by (simp add: steady_def)

lemma wpublish_steady [simp]: "steady w (wpublish ev w') = steady w w'"
  by (simp add: steady_def wpublish_def)

lemma resolve_steady: "steady w (resolve now k s m w)"
  by (auto simp: steady_def resolve_def ResolveAlert_def db_call_def wpublish_def case_prod_beta
      split: sum.split option.split)

lemma clearStall_steady: "steady w (clearStall now w)"
proof -
  have "steady u (closeStanding now u)" for u
    unfolding closeStanding_def by (rule steady_trans [OF resolve_steady resolve_steady])
  from this [of "w\<lparr>wCheckedStanding := True, wProgress := (wProgress w)\<lparr>prStalled := False, prStalledAt := 0, prWhy := []\<rparr>\<rparr>"]
  show ?thesis by (auto simp: clearStall_def Let_def steady_def)
qed

lemma commitMark_steady: "steady w (commitMark env now ref w)"
  using meta_keys by (auto simp: steady_def commitMark_def SetMetaInt64_def SetMeta_calm)

lemma rollBackAbove_steady: "steady w (rollBackAbove now h w)"
proof -
  have "steady u (roll_one now h sp u)" for sp u
    by (auto simp: steady_def roll_one_def UpdateSpendStatus_def db_call_def requireOneRow_def wpublish_def
        case_prod_beta split: sum.split)
  then have f: "steady u (fold (roll_one now h) sps u)" for sps u
    by (induction sps arbitrary: u) (auto intro: steady_trans)
  show ?thesis
    using f [unfolded roll_one_def [abs_def]]
    by (auto simp: rollBackAbove_def ListSpends_def read_calm steady_def)
qed

lemma stall_steady: "steady w (stall now h w)"
proof -
  have "steady u (raise now k s m u)" for u k s m
    by (auto simp: steady_def raise_def UpsertAlert_def db_call_def insert_alert_def Let_def wpublish_def
        split: sum.split option.split)
  then have r: "steady w u \<Longrightarrow> steady w (raise now k s m u)" for u k s m by (rule steady_trans [rotated])
  have "steady w (w\<lparr>wProgress := p\<rparr>)" for p by (simp add: steady_def)
  then show ?thesis using r by (simp add: stall_def Let_def)
qed

text \<open>A block that spends nothing watched leaves only its questions to the view behind, however often it is tried.\<close>

definition spends_nothing_watched :: "outside \<Rightarrow> hash \<Rightarrow> watch_set \<Rightarrow> bool" where
  "spends_nothing_watched env h ws \<longleftrightarrow>
     (\<forall>n blk. viewBlock env n h = Inr blk \<longrightarrow> ScanBlock (libTxHash env) (Some blk) ws = [])"

lemma processBlock_nothing:
  assumes "spends_nothing_watched env (Hash meta) (wSet w)"
  shows "\<exists>k. fst (processBlock env now meta w) = w\<lparr>wCalls := k\<rparr>"
proof -
  have p: "passes maxSamePasses False env now meta blk (w\<lparr>wCalls := k\<rparr>) = (w\<lparr>wCalls := k\<rparr>, Inr ())"
    if "viewBlock env n (Hash meta) = Inr blk" for n blk k
    using assms that by (simp add: spends_nothing_watched_def maxSamePasses_def numeral_eq_Suc)
  have "w\<lparr>wCalls := wCalls w\<rparr> = w" by simp
  then have "\<exists>k. w = w\<lparr>wCalls := k\<rparr>" by metis
  then show ?thesis
    using p by (auto simp: processBlock_def ask_def split: sum.split)
qed

lemma attempts_nothing:
  "spends_nothing_watched env (Hash meta) (wSet w) \<Longrightarrow> \<exists>k. fst (attempts n env now meta w) = w\<lparr>wCalls := k\<rparr>"
proof (induction n arbitrary: w)
  case 0
  have "w\<lparr>wCalls := wCalls w\<rparr> = w" by simp
  then show ?case by (metis attempts.simps(1) fst_conv)
next
  case (Suc n)
  obtain w1 r where p: "processBlock env now meta w = (w1, r)" by fastforce
  then obtain k where k: "w1 = w\<lparr>wCalls := k\<rparr>" using processBlock_nothing [OF Suc.prems, of now] by auto
  then have "\<exists>j. fst (attempts n env now meta w1) = w\<lparr>wCalls := j\<rparr>" using Suc.IH [of w1] Suc.prems by simp
  then show ?case using p k by (auto split: sum.split)
qed

lemma processTo_passed_over:
  assumes "spends_nothing_watched env (Hash tip) (wSet w)"
  shows "steady w (processTo env now [tip] w) \<and> t_spends (processTo env now [tip] w) = t_spends w"
proof -
  let ?b = "block_ref.truncate tip"
  obtain w1 r where p: "processWithRetries env now ?b w = (w1, r)" by fastforce
  moreover have "Hash ?b = Hash tip" by (simp add: block_ref.defs)
  ultimately obtain k where k: "w1 = w\<lparr>wCalls := k\<rparr>"
    using attempts_nothing [of env ?b w "nat (cfBlockAttempts (wCfg w))" now] assms
    by (auto simp: processWithRetries_def)
  then have s: "steady w w1" "t_spends w1 = t_spends w" by (simp_all add: steady_def)
  let ?w = "commitMark env now (ref_of tip) w1"
  have "steady w (clearStall now ?w)" "steady w (stall now (Height tip) w1)"
    by (rule steady_trans [OF steady_trans [OF s(1) commitMark_steady] clearStall_steady])
      (rule steady_trans [OF s(1) stall_steady])
  moreover have "t_spends (clearStall now ?w) = t_spends w" "t_spends (stall now (Height tip) w1) = t_spends w"
    using clearStall_aside [of ?w now] commitMark_aside [of w1 env now "ref_of tip"] stall_aside [of w1 now "Height tip"] s(2)
    by (simp_all add: aside_def)
  ultimately show ?thesis using p by (auto split: sum.split)
qed

lemma rollBackAbove_set: "wSet (rollBackAbove now h w) = wSet w"
proof -
  have "wSet (roll_one now h sp u) = wSet u" for sp u
    by (auto simp: roll_one_def UpdateSpendStatus_def db_call_def requireOneRow_def wpublish_def
        case_prod_beta split: sum.split list.split)
  then have f: "wSet (fold (roll_one now h) sps u) = wSet u" for sps u
    by (induction sps arbitrary: u) auto
  show ?thesis
    using f [unfolded roll_one_def [abs_def]]
    by (auto simp: rollBackAbove_def ListSpends_def db_read_def db_call_def split: sum.split list.split)
qed

lemma history_ids: "history_kept d d' \<Longrightarrow> spID ` set (t_spends d) \<subseteq> spID ` set (t_spends d')"
  by (auto simp: history_kept_def same_spend_def) (metis image_eqI)

text \<open>
  C13: a reorganisation of one block ends the countdowns of everything old. Let the tip of the other
  chain be replaced by a block that spends nothing watched, on a parent the watcher remembers and which is
  not the block it read last. Then every close confirmed more than a hundred blocks below is taken for gone,
  and at the next block the engine marks its countdown as resolved, although the close is still in the chain
  and still unanswered. Whatever the view answers, and whether or not the new tip can be read. Conditions: no
  call of the store fails, at most a thousand spends are recorded (one query lists no more), the tables are in
  the form the store keeps them, a reorganisation may be at least one block deep, watcher and engine
  follow the same chain and the countdown is running.
\<close>

theorem one_block_reorg_ends_countdowns:
  assumes "faults w = []" and "spends_ok w" and "deadlines_ok w" and "length (t_spends w) \<le> 1000"
    and "Branch_Valid (wBranch w)" and "0 < cfMaxReorgDepth (wCfg w)"
    and "wr_known lastRef" and "0 < wrHeight lastRef" and "Height tip \<le> wrHeight lastRef" and "PrevHash tip \<noteq> wrHash lastRef"
    and "RecentBranchHashes (wBranch w) (cfMaxReorgDepth (wCfg w)) w = (w, Inr hashes)"
    and "\<exists>s \<in> set hashes. libParse env s = Some (PrevHash tip)"
    and "spends_nothing_watched env (Hash tip) (wSet w)"
    and "r \<in> set (t_deadlines w)" and "dlState r = DeadlineCounting"
    and "sp \<in> set (t_spends w)" and "spID sp = dlSpendEventID r" and "spBranch sp = wBranch w"
    and "spStatus sp = SpendConfirmed" and "0 < spBlockHeight sp" and "ReorgPatienceBlocks < i32 (height - spBlockHeight sp)"
    and "engine_ok (on_tables w e)" and "eBranch e = wBranch w"
  shows "\<exists>r' \<in> set (t_deadlines (onBranchExtended later (wBranch w) height avg
      (on_tables (catchUp env now tip lastRef w) e))). dlID r' = dlID r \<and> dlState r' = DeadlineResolved"
proof -
  let ?w1 = "rollBackAbove now 0 w"
  let ?w2 = "catchUp env now tip lastRef w"
  let ?sp = "rolled now sp"
  have c: "?w2 = processTo env now [tip] ?w1" by (rule catchUp_shallow [OF assms(6-12)])
  note passed = processTo_passed_over [of env tip ?w1 now, folded c, unfolded rollBackAbove_set, OF assms(13)]
  have "table_ok spID spend_key (t_spends w)" using assms(2) by (simp add: spends_ok_def)
  note rows = rollBackAbove_rows [OF assms(1) this assms(4,5), of now 0]
  have spends: "t_spends ?w2 = map (\<lambda>x. if spBranch x = wBranch w \<and> spStatus x = SpendConfirmed \<and> 0 < spBlockHeight x
      then rolled now x else x) (t_spends w)" using rows passed by simp
  have "?sp \<in> (\<lambda>x. if spBranch x = wBranch w \<and> spStatus x = SpendConfirmed \<and> 0 < spBlockHeight x
      then rolled now x else x) ` set (t_spends w)" using assms(16,18-20) by (intro image_eqI [of _ _ sp]) simp_all
  then have sp: "?sp \<in> set (t_spends ?w2)" by (simp only: spends set_map)
  have st: "faults ?w2 = []" "t_deadlines ?w2 = t_deadlines w"
    using passed rollBackAbove_steady [of w now 0] assms(1) by (simp_all add: steady_def)
  let ?e = "on_tables ?w2 e"
  have "spends_step w ?w2" unfolding c by (rule spends_step_trans [OF rollBackAbove_step processTo_step])
  then have ok: "spends_ok ?w2" "history_kept w ?w2" using assms(2) by (simp_all add: spends_step_def)
  have "spID ` set (t_spends w) \<subseteq> spID ` set (t_spends ?w2)"
    using ok(2) by (rule history_ids)
  then have "engine_ok ?e"
    using assms(3,22) st by (auto simp: engine_ok_def deadlines_ok_def truthful_def endings_def on_tables_def)
  moreover have "faults ?e = []" "table_ok spID spend_key (t_spends ?e)" "r \<in> set (t_deadlines ?e)" "?sp \<in> set (t_spends ?e)"
    using st sp ok assms(14) by (simp_all add: on_tables_def spends_ok_def)
  ultimately show ?thesis
    using onBranchExtended_row [of ?e r ?sp later height avg] assms(15,17,21,23)
    by (simp add: on_tables_def rolled_def)
qed

text \<open>The close at height 50 with its countdown, a watched output, and the block 200 replaced by one that spends another.\<close>

definition demo_counting :: watcher where
  "demo_counting = demo_deep\<lparr>wSet := NewWatchSet [demo_target], t_deadlines :=
     [\<lparr>dlID = 1, dlSpendEventID = 1, dlKind = DeadlineCSV, dlHeight = 300, dlState = DeadlineCounting,
       dlEscalation = 1, dlAssumed = False, dlResolvedByTxID = [], dlUpdatedAt = 8\<rparr>]\<rparr>"

definition demo_elsewhere :: msg_tx where
  "demo_elsewhere = \<lparr>TxIn = [\<lparr>PreviousOutPoint = \<lparr>opHash = 4, opIndex = 1\<rparr>, Witness = [], Sequence = 0\<rparr>],
     TxOut = [\<lparr>Value = 330, PkScript = [0x51]\<rparr>], LockTime = 0\<rparr>"

definition demo_replacing :: outside where
  "demo_replacing = demo_outside\<lparr>viewBlock := \<lambda>_ _. Inr [demo_elsewhere]\<rparr>"

theorem one_block_reorg_ends_countdowns_witness:
  "\<exists>r \<in> set (t_deadlines (onBranchExtended 9 BranchSQ 200 (Fin 0)
      (on_tables (catchUp demo_replacing 8 demo_tip \<lparr>wrHeight = 200, wrHash = 7\<rparr> demo_counting)
        demo_engine))). dlID r = 1 \<and> dlState r = DeadlineResolved"
proof -
  let ?r = "hd (t_deadlines demo_counting)"
  let ?sp = "hd (t_spends demo_counting)"
  have d: "faults demo_counting = []" "spends_ok demo_counting" "deadlines_ok demo_counting"
    "engine_ok (on_tables demo_counting demo_engine)"
    by (simp_all add: demo_counting_def demo_deep_def demo_defs spends_ok_def deadlines_ok_def table_ok_def
        deadline_key_def on_tables_def engine_ok_def truthful_def endings_def demo_engine_def demo_spend_def)
  have h: "RecentBranchHashes (wBranch demo_counting) (cfMaxReorgDepth (wCfg demo_counting)) demo_counting
      = (demo_counting, Inr [demo_print 5])"
    by (simp add: RecentBranchHashes_def demo_counting_def demo_deep_def demo_defs read_calm Let_def newest_first_def
        withDefaults_def DefaultMaxReorgDepth_def)
  have p: "demo_read (demo_print 5) = Some 5" by code_simp
  have "ScanBlock (libTxHash demo_outside) (Some [demo_elsewhere]) (wSet demo_counting) = []" by code_simp
  then have n: "spends_nothing_watched demo_replacing (Hash demo_tip) (wSet demo_counting)"
    by (simp add: spends_nothing_watched_def demo_replacing_def)
  show ?thesis
    using one_block_reorg_ends_countdowns [OF d(1-3) _ _ _ _ _ _ _ h _ n _ _ _ _ _ _ _ _ d(4), of "\<lparr>wrHeight = 200, wrHash = 7\<rparr>"
        ?r ?sp 200 9 "Fin 0" 8] p
    by (simp add: demo_counting_def demo_deep_def demo_defs demo_tip_def demo_outside_def demo_replacing_def withDefaults_def
        DefaultMaxReorgDepth_def wr_known_def demo_spend_def ReorgPatienceBlocks_def demo_engine_def)
qed
end
